(* ===== verification/Rust_Prelude.thy ===== *)
theory Rust_Prelude
  imports Main "HOL-Library.Word" "HOL-Library.Sublist" "HOL-Library.List_Lexorder"
    "HOL-Library.Char_ord"
begin

text \<open>
  The vocabulary shared by every component theory: Rust's \<open>Result\<close> and the \<open>?\<close>
  operator, saturating and checked machine arithmetic, UTF-8 strings with the standard
  library operations the crates call, and the ordered map \<open>BTreeMap\<close>.

  A Rust \<open>String\<close> is its UTF-8 byte sequence, so it is modelled by HOL's byte list
  \<open>string\<close>: \<open>len()\<close> is \<open>length\<close>, literals are written as they are in the source, and the
  derived order on lists of bytes is Rust's \<open>Ord\<close> on strings.  Operations that work on
  \<open>char\<close>s (Unicode scalar values) go through \<open>utf8_chars\<close>, which cuts the byte sequence at
  the lead bytes; on well-formed UTF-8, the only strings Rust has, each group is the
  encoding of one scalar value.
\<close>

named_theorems rust_simps \<open>characteristic equations of the modelled standard library\<close>
named_theorems contract_defs \<open>definitions of validators and guards, unfolded on demand\<close>

section \<open>Results and early returns\<close>

type_synonym ('e, 'a) result = "'e + 'a"

definition ensure :: "bool \<Rightarrow> 'e \<Rightarrow> ('e, unit) result" where
  "ensure b e = (if b then Inr () else Inl e)"

text \<open>\<open>try_all [r1, r2, ...]\<close> is the statement sequence \<open>r1?; r2?; ...; Ok(())\<close>.\<close>

fun try_all :: "('e, unit) result list \<Rightarrow> ('e, unit) result" where
  "try_all [] = Inr ()"
| "try_all (r # rs) = (case r of Inl e \<Rightarrow> Inl e | Inr _ \<Rightarrow> try_all rs)"

definition and_then :: "('e, 'a) result \<Rightarrow> ('a \<Rightarrow> ('e, 'b) result) \<Rightarrow> ('e, 'b) result" where
  "and_then r f = (case r of Inl e \<Rightarrow> Inl e | Inr a \<Rightarrow> f a)"

definition map_err :: "('e \<Rightarrow> 'f) \<Rightarrow> ('e, 'a) result \<Rightarrow> ('f, 'a) result" where
  "map_err g r = (case r of Inl e \<Rightarrow> Inl (g e) | Inr a \<Rightarrow> Inr a)"

definition ok_or :: "'e \<Rightarrow> 'a option \<Rightarrow> ('e, 'a) result" where
  "ok_or e x = (case x of None \<Rightarrow> Inl e | Some a \<Rightarrow> Inr a)"

fun is_ok :: "('e, 'a) result \<Rightarrow> bool" where
  "is_ok (Inl e) = False"
| "is_ok (Inr a) = True"

text \<open>A loop whose body may return early with an error: the state is threaded through.\<close>

fun try_fold :: "('s \<Rightarrow> 'a \<Rightarrow> ('e, 's) result) \<Rightarrow> 's \<Rightarrow> 'a list \<Rightarrow> ('e, 's) result" where
  "try_fold f s [] = Inr s"
| "try_fold f s (x # xs) = (case f s x of Inl e \<Rightarrow> Inl e | Inr s' \<Rightarrow> try_fold f s' xs)"

lemma ensure_ok [simp]: "ensure b e = Inr u \<longleftrightarrow> b"
  by (simp add: ensure_def)

lemma ensure_err [simp]: "ensure b e = Inl e' \<longleftrightarrow> \<not> b \<and> e' = e"
  by (auto simp: ensure_def)

lemma try_all_Cons_ok [simp]:
  "try_all (r # rs) = Inr u \<longleftrightarrow> r = Inr () \<and> try_all rs = Inr ()"
  by (cases r) auto

declare try_all.simps(2) [simp del]

lemma try_all_Nil_ok [simp]: "try_all [] = Inr u"
  by simp

lemma try_all_step: "r = Inr () \<Longrightarrow> try_all (r # rs) = try_all rs"
  by (simp add: try_all.simps(2))

lemma try_all_single: "try_all [r] = r"
  by (cases r) (simp_all add: try_all.simps(2))

lemma try_all_append_ok:
  "try_all (rs @ qs) = Inr u \<longleftrightarrow> try_all rs = Inr () \<and> try_all qs = Inr ()"
  by (induction rs) auto

lemma try_all_err:
  "try_all (r # rs) = Inl e \<longleftrightarrow> r = Inl e \<or> r = Inr () \<and> try_all rs = Inl e"
  by (cases r) (auto simp: try_all.simps(2))

lemma and_then_simps [simp]: "and_then (Inr a) f = f a" "and_then (Inl e) f = Inl e"
  by (simp_all add: and_then_def)

lemma and_then_ok [simp]: "and_then r f = Inr b \<longleftrightarrow> (\<exists>a. r = Inr a \<and> f a = Inr b)"
  by (cases r) (auto simp: and_then_def)

lemma and_then_err [simp]:
  "and_then r f = Inl e \<longleftrightarrow> r = Inl e \<or> (\<exists>a. r = Inr a \<and> f a = Inl e)"
  by (cases r) (auto simp: and_then_def)

lemma map_err_ok [simp]: "map_err g r = Inr a \<longleftrightarrow> r = Inr a"
  by (cases r) (auto simp: map_err_def)

lemma map_err_err [simp]: "map_err g r = Inl e \<longleftrightarrow> (\<exists>e'. r = Inl e' \<and> e = g e')"
  by (cases r) (auto simp: map_err_def)

lemma ok_or_ok [simp]: "ok_or e x = Inr a \<longleftrightarrow> x = Some a"
  by (cases x) (auto simp: ok_or_def)

lemma ok_or_err [simp]: "ok_or e x = Inl e' \<longleftrightarrow> x = None \<and> e' = e"
  by (cases x) (auto simp: ok_or_def)

lemma is_ok_iff: "is_ok r \<longleftrightarrow> (\<exists>a. r = Inr a)"
  by (cases r) auto

lemma result_not_ok: "\<not> is_ok r \<longleftrightarrow> (\<exists>e. r = Inl e)"
  by (cases r) auto

lemma unit_result_cases: "(r :: ('e, unit) result) = Inr () \<or> (\<exists>e. r = Inl e)"
  by (cases r) auto

lemma try_fold_append:
  "try_fold f s (xs @ ys) =
     (case try_fold f s xs of Inl e \<Rightarrow> Inl e | Inr s' \<Rightarrow> try_fold f s' ys)"
  by (induction xs arbitrary: s) (auto split: sum.splits)

text \<open>The loop rule: an invariant kept by every successful iteration holds of the result.\<close>

lemma try_fold_invariant:
  assumes "try_fold f s xs = Inr s'" and "I s"
    and "\<And>s x t. I s \<Longrightarrow> x \<in> set xs \<Longrightarrow> f s x = Inr t \<Longrightarrow> I t"
  shows "I s'"
  using assms
proof (induction xs arbitrary: s)
  case Nil
  then show ?case by simp
next
  case (Cons x xs)
  from Cons.prems(1) obtain t where t: "f s x = Inr t" "try_fold f t xs = Inr s'"
    by (auto split: sum.splits)
  have "x \<in> set (x # xs)" by simp
  then have "I t" using t(1) by (rule Cons.prems(3) [OF Cons.prems(2)])
  moreover have "I t'" if "I s" "y \<in> set xs" "f s y = Inr t'" for s y t'
    using that by (intro Cons.prems(3) [of s y t']) simp_all
  ultimately show ?case by (rule Cons.IH [OF t(2)])
qed

section \<open>Dropping from the end of a list\<close>

definition drop_end :: "('a \<Rightarrow> bool) \<Rightarrow> 'a list \<Rightarrow> 'a list" where
  "drop_end P xs = rev (dropWhile P (rev xs))"

lemma drop_end_Nil_iff: "drop_end P xs = [] \<longleftrightarrow> (\<forall>x \<in> set xs. P x)"
  by (simp add: drop_end_def dropWhile_eq_Nil_conv)

lemma drop_end_split: "xs = drop_end P xs @ rev (takeWhile P (rev xs))"
  unfolding drop_end_def by (simp flip: rev_append)

lemma drop_end_last: "drop_end P xs \<noteq> [] \<Longrightarrow> \<not> P (last (drop_end P xs))"
  unfolding drop_end_def by (simp add: last_rev hd_dropWhile)

lemma drop_end_id: "xs = [] \<or> \<not> P (last xs) \<Longrightarrow> drop_end P xs = xs"
  by (cases xs rule: rev_cases) (auto simp: drop_end_def)

lemma drop_end_idem [simp]: "drop_end P (drop_end P xs) = drop_end P xs"
  by (rule drop_end_id) (use drop_end_last in blast)

lemma dropWhile_id: "xs = [] \<or> \<not> P (hd xs) \<Longrightarrow> dropWhile P xs = xs"
  by (cases xs) auto

lemma takeWhile_Nil: "xs = [] \<or> \<not> P (hd xs) \<Longrightarrow> takeWhile P xs = []"
  by (cases xs) auto

lemma drop_end_hd: "drop_end P xs \<noteq> [] \<Longrightarrow> hd (drop_end P xs) = hd xs"
  by (metis drop_end_split hd_append2)

section \<open>Machine integers\<close>

type_synonym u8 = "8 word"
type_synonym u32 = "32 word"
type_synonym u64 = "64 word"
type_synonym usize = "64 word"

definition saturating_add :: "'a::len word \<Rightarrow> 'a word \<Rightarrow> 'a word" where
  "saturating_add a b = (if unat a + unat b < 2 ^ LENGTH('a) then a + b else - 1)"

definition saturating_sub :: "'a::len word \<Rightarrow> 'a word \<Rightarrow> 'a word" where
  "saturating_sub a b = (if b \<le> a then a - b else 0)"

definition saturating_mul :: "'a::len word \<Rightarrow> 'a word \<Rightarrow> 'a word" where
  "saturating_mul a b = (if unat a * unat b < 2 ^ LENGTH('a) then a * b else - 1)"

definition checked_add :: "'a::len word \<Rightarrow> 'a word \<Rightarrow> 'a word option" where
  "checked_add a b = (if unat a + unat b < 2 ^ LENGTH('a) then Some (a + b) else None)"

definition checked_mul :: "'a::len word \<Rightarrow> 'a word \<Rightarrow> 'a word option" where
  "checked_mul a b = (if unat a * unat b < 2 ^ LENGTH('a) then Some (a * b) else None)"

definition checked_div :: "'a::len word \<Rightarrow> 'a word \<Rightarrow> 'a word option" where
  "checked_div a b = (if b = 0 then None else Some (a div b))"

definition clamp :: "'a::linorder \<Rightarrow> 'a \<Rightarrow> 'a \<Rightarrow> 'a" where
  "clamp x lo hi = (if x < lo then lo else if hi < x then hi else x)"

lemma unat_max_word: "unat (- 1 :: 'a::len word) = 2 ^ LENGTH('a) - 1"
  by (simp add: unsigned_minus_1_eq_mask mask_eq_exp_minus_1)

lemma unat_saturating_add [rust_simps]:
  "unat (saturating_add a b) = min (unat a + unat b) (2 ^ LENGTH('a) - 1)"
  for a b :: "'a::len word"
  by (auto simp: saturating_add_def unat_max_word unat_word_ariths)

lemma unat_saturating_sub [rust_simps]: "unat (saturating_sub a b) = unat a - unat b"
  for a b :: "'a::len word"
  by (auto simp: saturating_sub_def unat_sub word_le_nat_alt)

lemma unat_saturating_mul [rust_simps]:
  "unat (saturating_mul a b) = min (unat a * unat b) (2 ^ LENGTH('a) - 1)"
  for a b :: "'a::len word"
  by (auto simp: saturating_mul_def unat_max_word unat_word_ariths)

lemma checked_add_Some [rust_simps]:
  "checked_add a b = Some c \<longleftrightarrow> unat a + unat b < 2 ^ LENGTH('a) \<and> c = a + b"
  for a b :: "'a::len word"
  by (auto simp: checked_add_def)

lemma checked_mul_Some [rust_simps]:
  "checked_mul a b = Some c \<longleftrightarrow> unat a * unat b < 2 ^ LENGTH('a) \<and> c = a * b"
  for a b :: "'a::len word"
  by (auto simp: checked_mul_def)

lemma clamp_bounds: "lo \<le> hi \<Longrightarrow> lo \<le> clamp x lo hi \<and> clamp x lo hi \<le> hi"
  by (auto simp: clamp_def)

lemma clamp_id [simp]: "lo \<le> x \<Longrightarrow> x \<le> hi \<Longrightarrow> clamp x lo hi = x"
  by (auto simp: clamp_def)

lemma clamp_idem: "lo \<le> hi \<Longrightarrow> clamp (clamp x lo hi) lo hi = clamp x lo hi"
  by (simp add: clamp_bounds)

section \<open>Components that keep an invariant\<close>

text \<open>A component whose operations are the steps of a machine: an invariant kept by every
  step holds after every sequence of operations.\<close>

locale step_machine =
  fixes step :: "'s \<Rightarrow> 'op \<Rightarrow> 's"
    and inv :: "'s \<Rightarrow> bool"
  assumes step_inv: "inv s \<Longrightarrow> inv (step s x)"
begin

lemma run_inv: "inv s \<Longrightarrow> inv (foldl step s xs)"
  by (induction xs arbitrary: s) (simp_all add: step_inv)

end

end
