(* ===== verification/Rust_Strings.thy ===== *)
theory Rust_Strings
  imports Rust_Prelude
begin

text \<open>
  UTF-8 strings with the operations of \<open>str\<close> the crates use: \<open>chars\<close>, \<open>trim\<close>,
  \<open>contains\<close>, \<open>starts_with\<close>, \<open>ends_with\<close>, \<open>strip_prefix\<close>, \<open>trim_end_matches\<close>,
  \<open>to_ascii_lowercase\<close>, \<open>char::is_control\<close>, \<open>char::is_whitespace\<close>, decimal printing and
  \<open>parse::<u64>\<close>; with the facts about them the component proofs need.
\<close>

section \<open>Scalar values of a UTF-8 string\<close>

text \<open>A continuation byte has the bit pattern \<open>10xxxxxx\<close>.\<close>

fun is_cont_byte :: "char \<Rightarrow> bool" where
  "is_cont_byte (Char b0 b1 b2 b3 b4 b5 b6 b7) \<longleftrightarrow> b7 \<and> \<not> b6"

text \<open>\<open>s.chars()\<close>, each scalar value given by its encoding.\<close>

function utf8_chars :: "string \<Rightarrow> string list" where
  "utf8_chars [] = []"
| "utf8_chars (c # cs) =
     (c # takeWhile is_cont_byte cs) # utf8_chars (dropWhile is_cont_byte cs)"
  by pat_completeness auto
termination
  by (relation "measure length") (auto simp: le_imp_less_Suc length_dropWhile_le)

definition utf8_groups :: "string list \<Rightarrow> bool" where
  "utf8_groups gs \<longleftrightarrow> list_all (\<lambda>g. g \<noteq> [] \<and> list_all is_cont_byte (tl g)) gs
     \<and> list_all (\<lambda>g. \<not> is_cont_byte (hd g)) (tl gs)"

lemma concat_utf8_chars [simp]: "concat (utf8_chars s) = s"
  by (induction s rule: utf8_chars.induct) simp_all

lemma utf8_chars_eq_Nil [simp]: "utf8_chars s = [] \<longleftrightarrow> s = []"
  by (cases s) simp_all

lemma utf8_chars_nonempty: "g \<in> set (utf8_chars s) \<Longrightarrow> g \<noteq> []"
  by (induction s rule: utf8_chars.induct) auto

lemma utf8_chars_lead:
  "s = [] \<or> \<not> is_cont_byte (hd s) \<Longrightarrow> g \<in> set (utf8_chars s) \<Longrightarrow> \<not> is_cont_byte (hd g)"
proof (induction s rule: utf8_chars.induct)
  case 1
  then show ?case by simp
next
  case (2 c cs)
  have "dropWhile is_cont_byte cs = [] \<or> \<not> is_cont_byte (hd (dropWhile is_cont_byte cs))"
    using hd_dropWhile by blast
  with 2 show ?case by auto
qed

lemma utf8_chars_tail: "g \<in> set (utf8_chars s) \<Longrightarrow> list_all is_cont_byte (tl g)"
  by (induction s rule: utf8_chars.induct) (auto simp: list_all_iff dest: set_takeWhileD)

lemma utf8_groups_chars: "utf8_groups (utf8_chars s)"
proof (cases s)
  case Nil
  then show ?thesis by (simp add: utf8_groups_def)
next
  case (Cons c cs)
  let ?rest = "dropWhile is_cont_byte cs"
  have "?rest = [] \<or> \<not> is_cont_byte (hd ?rest)"
    using hd_dropWhile by blast
  then have "\<forall>g \<in> set (utf8_chars ?rest). \<not> is_cont_byte (hd g)"
    using utf8_chars_lead by blast
  moreover have "\<forall>g \<in> set (utf8_chars s). g \<noteq> [] \<and> list_all is_cont_byte (tl g)"
    using utf8_chars_nonempty utf8_chars_tail by blast
  ultimately show ?thesis
    using Cons by (simp add: utf8_groups_def list_all_iff)
qed

lemma utf8_groups_tl: "utf8_groups (g # gs) \<Longrightarrow> utf8_groups gs"
  by (cases gs) (auto simp: utf8_groups_def)

lemma utf8_groups_append:
  "utf8_groups (gs @ hs) \<Longrightarrow> utf8_groups gs \<and> utf8_groups hs"
proof (induction gs)
  case Nil
  then show ?case by (simp add: utf8_groups_def)
next
  case (Cons g gs)
  then have "utf8_groups gs \<and> utf8_groups hs"
    using utf8_groups_tl [of g "gs @ hs"] by simp
  with Cons.prems show ?case by (auto simp: utf8_groups_def)
qed

lemma utf8_chars_concat: "utf8_groups gs \<Longrightarrow> utf8_chars (concat gs) = gs"
proof (induction gs)
  case Nil
  then show ?case by simp
next
  case (Cons g gs)
  from Cons.prems obtain c cs where g: "g = c # cs" and cs: "\<forall>x \<in> set cs. is_cont_byte x"
    by (cases g) (auto simp: utf8_groups_def list_all_iff)
  have ne: "concat gs = [] \<or> \<not> is_cont_byte (hd (concat gs))"
  proof (cases gs)
    case (Cons h hs)
    with \<open>utf8_groups (g # gs)\<close> show ?thesis
      by (auto simp: utf8_groups_def)
  qed simp
  have "takeWhile is_cont_byte (concat gs) = []"
    using ne by (rule takeWhile_Nil)
  then have "takeWhile is_cont_byte (cs @ concat gs) = cs"
    using cs by (simp add: takeWhile_append2)
  moreover have "dropWhile is_cont_byte (cs @ concat gs) = concat gs"
    using cs ne by (simp add: dropWhile_append2 dropWhile_id)
  ultimately show ?case
    using Cons.IH utf8_groups_tl [OF Cons.prems] by (simp add: g)
qed

definition char_count :: "string \<Rightarrow> nat" where
  "char_count s = length (utf8_chars s)"

section \<open>Character classes\<close>

text \<open>\<open>char::is_whitespace\<close>: the Unicode property \<open>White_Space\<close>.\<close>

definition whitespace_chars :: "string list" where
  "whitespace_chars =
     [[CHR 0x09], [CHR 0x0A], [CHR 0x0B], [CHR 0x0C], [CHR 0x0D], [CHR 0x20],
      [CHR 0xC2, CHR 0x85], [CHR 0xC2, CHR 0xA0], [CHR 0xE1, CHR 0x9A, CHR 0x80],
      [CHR 0xE2, CHR 0x80, CHR 0x80], [CHR 0xE2, CHR 0x80, CHR 0x81],
      [CHR 0xE2, CHR 0x80, CHR 0x82], [CHR 0xE2, CHR 0x80, CHR 0x83],
      [CHR 0xE2, CHR 0x80, CHR 0x84], [CHR 0xE2, CHR 0x80, CHR 0x85],
      [CHR 0xE2, CHR 0x80, CHR 0x86], [CHR 0xE2, CHR 0x80, CHR 0x87],
      [CHR 0xE2, CHR 0x80, CHR 0x88], [CHR 0xE2, CHR 0x80, CHR 0x89],
      [CHR 0xE2, CHR 0x80, CHR 0x8A], [CHR 0xE2, CHR 0x80, CHR 0xA8],
      [CHR 0xE2, CHR 0x80, CHR 0xA9], [CHR 0xE2, CHR 0x80, CHR 0xAF],
      [CHR 0xE2, CHR 0x81, CHR 0x9F], [CHR 0xE3, CHR 0x80, CHR 0x80]]"

definition is_whitespace :: "string \<Rightarrow> bool" where
  "is_whitespace u \<longleftrightarrow> u \<in> set whitespace_chars"

text \<open>\<open>char::is_control\<close>: the general category \<open>Cc\<close>, that is U+0000 to U+001F and U+007F to
  U+009F.\<close>

fun is_control :: "string \<Rightarrow> bool" where
  "is_control [c] \<longleftrightarrow> (of_char c :: nat) < 32 \<or> (of_char c :: nat) = 127"
| "is_control [c, d] \<longleftrightarrow> c = CHR 0xC2 \<and> (of_char d :: nat) < 160"
| "is_control _ \<longleftrightarrow> False"

definition has_control :: "string \<Rightarrow> bool" where
  "has_control s \<longleftrightarrow> list_ex is_control (utf8_chars s)"

section \<open>Trimming\<close>

definition trim_chars :: "string list \<Rightarrow> string list" where
  "trim_chars us = drop_end is_whitespace (dropWhile is_whitespace us)"

definition trim :: "string \<Rightarrow> string" where
  "trim s = concat (trim_chars (utf8_chars s))"

lemma trim_chars_Nil_iff: "trim_chars us = [] \<longleftrightarrow> (\<forall>u \<in> set us. is_whitespace u)"
proof -
  have "(\<forall>u \<in> set (dropWhile is_whitespace us). is_whitespace u)
      \<longleftrightarrow> (\<forall>u \<in> set us. is_whitespace u)"
    by (induction us) auto
  then show ?thesis by (simp add: trim_chars_def drop_end_Nil_iff)
qed

lemma trim_chars_infix: "\<exists>ps qs. us = ps @ trim_chars us @ qs"
proof -
  let ?vs = "dropWhile is_whitespace us"
  have "us = takeWhile is_whitespace us @ ?vs" by simp
  moreover have "?vs = trim_chars us @ rev (takeWhile is_whitespace (rev ?vs))"
    unfolding trim_chars_def by (rule drop_end_split)
  ultimately show ?thesis by metis
qed

lemma trim_chars_idem [simp]: "trim_chars (trim_chars us) = trim_chars us"
proof -
  let ?vs = "dropWhile is_whitespace us"
  have "trim_chars us = [] \<or> \<not> is_whitespace (hd (trim_chars us))"
    unfolding trim_chars_def
    by (metis drop_end_hd drop_end_Nil_iff dropWhile_eq_Nil_conv hd_dropWhile set_dropWhileD)
  then have "dropWhile is_whitespace (trim_chars us) = trim_chars us"
    by (rule dropWhile_id)
  then show ?thesis by (simp add: trim_chars_def)
qed

lemma trim_empty_iff: "trim s = [] \<longleftrightarrow> (\<forall>u \<in> set (utf8_chars s). is_whitespace u)"
proof -
  have "set (trim_chars (utf8_chars s)) \<subseteq> set (utf8_chars s)"
    using trim_chars_infix [of "utf8_chars s"] by (metis Un_upper1 Un_upper2 set_append subset_trans)
  then have "\<forall>u \<in> set (trim_chars (utf8_chars s)). u \<noteq> []"
    using utf8_chars_nonempty by blast
  then have "trim s = [] \<longleftrightarrow> trim_chars (utf8_chars s) = []"
    by (cases "trim_chars (utf8_chars s)") (auto simp: trim_def)
  then show ?thesis by (simp add: trim_chars_Nil_iff)
qed

lemma trim_Nil [simp]: "trim [] = []"
  by (simp add: trim_empty_iff)

lemma trim_nonempty: "trim s \<noteq> [] \<Longrightarrow> s \<noteq> []"
  by auto

lemma utf8_chars_trim: "utf8_chars (trim s) = trim_chars (utf8_chars s)"
proof -
  obtain ps qs where "utf8_chars s = ps @ trim_chars (utf8_chars s) @ qs"
    using trim_chars_infix by blast
  then have "utf8_groups (trim_chars (utf8_chars s))"
    using utf8_groups_chars [of s] by (metis utf8_groups_append)
  then show ?thesis by (simp add: trim_def utf8_chars_concat)
qed

lemma trim_idem [simp]: "trim (trim s) = trim s"
  by (metis trim_chars_idem trim_def utf8_chars_trim)

lemma trim_infix: "\<exists>p q. s = p @ trim s @ q"
proof -
  obtain ps qs where "utf8_chars s = ps @ trim_chars (utf8_chars s) @ qs"
    using trim_chars_infix by blast
  then have "concat (utf8_chars s) = concat (ps @ trim_chars (utf8_chars s) @ qs)"
    by simp
  then show ?thesis by (metis concat_append concat_utf8_chars trim_def)
qed

lemma set_trim: "set (trim s) \<subseteq> set s"
  using trim_infix [of s] by (metis Un_upper1 Un_upper2 set_append subset_trans)

section \<open>Searching and slicing\<close>

definition contains :: "string \<Rightarrow> string \<Rightarrow> bool" where
  "contains s needle = sublist needle s"

definition starts_with :: "string \<Rightarrow> string \<Rightarrow> bool" where
  "starts_with s p = prefix p s"

definition ends_with :: "string \<Rightarrow> string \<Rightarrow> bool" where
  "ends_with s p = suffix p s"

definition strip_prefix :: "string \<Rightarrow> string \<Rightarrow> string option" where
  "strip_prefix s p = (if prefix p s then Some (drop (length p) s) else None)"

definition trim_end_matches :: "string \<Rightarrow> char \<Rightarrow> string" where
  "trim_end_matches s c = drop_end (\<lambda>x. x = c) s"

definition ascii_lower_byte :: "char \<Rightarrow> char" where
  "ascii_lower_byte c =
     (if 65 \<le> (of_char c :: nat) \<and> (of_char c :: nat) \<le> 90 then char_of ((of_char c :: nat) + 32)
      else c)"

definition to_ascii_lowercase :: "string \<Rightarrow> string" where
  "to_ascii_lowercase s = map ascii_lower_byte s"

lemma contains_char: "contains s [c] \<longleftrightarrow> c \<in> set s"
  by (auto simp: contains_def sublist_def in_set_conv_decomp)

lemma contains_subset: "contains s needle \<Longrightarrow> set needle \<subseteq> set s"
  by (auto simp: contains_def dest: set_mono_sublist)

lemma trim_end_matches_last: "trim_end_matches s c \<noteq> [] \<Longrightarrow> last (trim_end_matches s c) \<noteq> c"
  unfolding trim_end_matches_def by (rule drop_end_last)

lemma trim_end_matches_id: "s = [] \<or> last s \<noteq> c \<Longrightarrow> trim_end_matches s c = s"
  unfolding trim_end_matches_def by (rule drop_end_id)

lemma trim_end_matches_idem [simp]:
  "trim_end_matches (trim_end_matches s c) c = trim_end_matches s c"
  by (simp add: trim_end_matches_def)

section \<open>Substring search\<close>

text \<open>\<open>str::find\<close> and \<open>str::rfind\<close> for a string pattern: the first and the last match.\<close>

fun find_str :: "string \<Rightarrow> string \<Rightarrow> nat option" where
  "find_str [] p = (if p = [] then Some 0 else None)"
| "find_str (c # s) p = (if prefix p (c # s) then Some 0 else map_option Suc (find_str s p))"

fun rfind_str :: "string \<Rightarrow> string \<Rightarrow> nat option" where
  "rfind_str [] p = (if p = [] then Some 0 else None)"
| "rfind_str (c # s) p =
     (case rfind_str s p of Some i \<Rightarrow> Some (Suc i) | None \<Rightarrow> if prefix p (c # s) then Some 0 else None)"

lemma find_str_None: "find_str s p = None \<longleftrightarrow> \<not> contains s p"
  by (induction s p rule: find_str.induct) (auto simp: contains_def sublist_Cons_right)

lemma rfind_str_None: "rfind_str s p = None \<longleftrightarrow> \<not> contains s p"
  by (induction s p rule: rfind_str.induct)
    (auto simp: contains_def sublist_Cons_right split: option.splits)

lemma find_str_split: "find_str s p = Some i \<Longrightarrow> s = take i s @ p @ drop (i + length p) s"
  by (induction s p arbitrary: i rule: find_str.induct) (auto split: if_splits elim!: prefixE)

lemma rfind_str_split: "rfind_str s p = Some i \<Longrightarrow> s = take i s @ p @ drop (i + length p) s"
proof (induction s p arbitrary: i rule: rfind_str.induct)
  case (2 c s p)
  show ?case
  proof (cases "rfind_str s p")
    case None
    with "2.prems" have "i = 0" and "prefix p (c # s)" by (auto split: if_splits)
    then show ?thesis by (auto elim!: prefixE)
  next
    case (Some j)
    with "2.prems" "2.IH" show ?thesis by auto
  qed
qed (auto split: if_splits)

lemma find_str_length: "find_str s p = Some i \<Longrightarrow> i + length p \<le> length s"
  by (induction s p arbitrary: i rule: find_str.induct) (auto split: if_splits dest: prefix_length_le)

text \<open>A pattern whose first byte does not recur in it cannot overlap itself: before the first
  match there is no match, and a text without a match stays so up to the next occurrence.\<close>

lemma prefix_across:
  assumes "prefix p (s @ p @ rest)" and "hd p \<notin> set (tl p)" and "s \<noteq> []" and "p \<noteq> []"
  shows "prefix p s"
proof (rule ccontr)
  assume not: "\<not> prefix p s"
  from assms(1) have "prefix s p" using not by (auto simp: prefix_append)
  then obtain q where p: "p = s @ q" by (auto elim: prefixE)
  with not have "q \<noteq> []" by auto
  from assms(1) p have "prefix q (p @ rest)" by simp
  with \<open>q \<noteq> []\<close> assms(4) have "hd q = hd p" by (cases q; cases p) auto
  moreover have "hd q \<in> set (tl p)" using p \<open>q \<noteq> []\<close> assms(3) by (cases s) auto
  ultimately show False using assms(2) by simp
qed

lemma find_str_unique:
  assumes "hd p \<notin> set (tl p)" and "p \<noteq> []"
  shows "find_str (s @ p @ rest) p = Some (length s) \<longleftrightarrow> \<not> contains s p"
proof (induction s)
  case Nil
  then show ?case using assms by (cases p) (auto simp: contains_def)
next
  case (Cons c s)
  have "prefix p (c # s @ p @ rest) \<longleftrightarrow> prefix p (c # s)"
    using prefix_across [of p "c # s" rest] assms prefix_prefix [of p "c # s" "p @ rest"] by auto
  with Cons show ?case by (auto simp: contains_def sublist_Cons_right)
qed

section \<open>Decimal numbers\<close>

definition digit_char :: "nat \<Rightarrow> char" where
  "digit_char d = char_of (48 + d)"

definition is_ascii_digit :: "char \<Rightarrow> bool" where
  "is_ascii_digit c \<longleftrightarrow> 48 \<le> (of_char c :: nat) \<and> (of_char c :: nat) \<le> 57"

definition digit_value :: "char \<Rightarrow> nat" where
  "digit_value c = of_char c - 48"

text \<open>\<open>format!("{n}")\<close> for an unsigned number.\<close>

fun show_nat :: "nat \<Rightarrow> string" where
  "show_nat n = (if n < 10 then [digit_char n] else show_nat (n div 10) @ [digit_char (n mod 10)])"

declare show_nat.simps [simp del]

definition decimal_value :: "string \<Rightarrow> nat" where
  "decimal_value s = foldl (\<lambda>v c. 10 * v + digit_value c) 0 s"

text \<open>\<open>str::parse::<u64>\<close>: an optional leading plus sign, then at least one ASCII digit and
  nothing else; \<open>Err\<close> when the value does not fit.\<close>

definition parse_digits_u64 :: "string \<Rightarrow> u64 option" where
  "parse_digits_u64 s =
     (if s \<noteq> [] \<and> list_all is_ascii_digit s \<and> decimal_value s < 2 ^ 64
      then Some (of_nat (decimal_value s)) else None)"

definition parse_u64 :: "string \<Rightarrow> u64 option" where
  "parse_u64 s = (case s of [] \<Rightarrow> None
     | c # cs \<Rightarrow> if c = CHR ''+'' then parse_digits_u64 cs else parse_digits_u64 s)"

lemma of_char_digit_char [simp]: "d < 10 \<Longrightarrow> (of_char (digit_char d) :: nat) = 48 + d"
  by (simp add: digit_char_def)

lemma is_ascii_digit_digit_char [simp]: "d < 10 \<Longrightarrow> is_ascii_digit (digit_char d)"
  by (simp add: is_ascii_digit_def)

lemma digit_value_digit_char [simp]: "d < 10 \<Longrightarrow> digit_value (digit_char d) = d"
  by (simp add: digit_value_def)

lemma show_nat_nonempty [simp]: "show_nat n \<noteq> []"
  by (subst show_nat.simps) simp

lemma show_nat_digits: "list_all is_ascii_digit (show_nat n)"
proof (induction n rule: show_nat.induct)
  case (1 n)
  then show ?case by (subst show_nat.simps) auto
qed

lemma decimal_value_show_nat [simp]: "decimal_value (show_nat n) = n"
proof (induction n rule: show_nat.induct)
  case (1 n)
  show ?case
  proof (cases "n < 10")
    case True
    then show ?thesis by (subst show_nat.simps) (simp add: decimal_value_def)
  next
    case False
    then have "decimal_value (show_nat n) = 10 * decimal_value (show_nat (n div 10)) + n mod 10"
      by (subst show_nat.simps) (simp add: decimal_value_def)
    with 1 False show ?thesis by simp
  qed
qed

lemma parse_digits_show_nat [simp]: "parse_digits_u64 (show_nat (unat n)) = Some n" for n :: u64
proof -
  have "unat n < 2 ^ 64" using unsigned_less [of n] by simp
  then show ?thesis by (simp add: parse_digits_u64_def show_nat_digits)
qed

lemma parse_u64_show_nat: "parse_u64 (show_nat (unat n)) = Some n" for n :: u64
proof (cases "show_nat (unat n)")
  case (Cons c cs)
  have "is_ascii_digit c" using show_nat_digits [of "unat n"] Cons by simp
  then have "c \<noteq> CHR ''+''" by (auto simp: is_ascii_digit_def)
  then show ?thesis using parse_digits_show_nat [of n] Cons by (simp add: parse_u64_def)
qed simp

end
