(* ===== verification/Triage_Contract.thy ===== *)
theory Triage_Contract
  imports Rust_Strings
begin

text \<open>
  The public wire contract of the triage SDK (\<open>crates/cd-triage-sdk/src\<close>): the request,
  attempt, reconciliation, result, event, cancellation and replay types of
  \<open>triage_sdk.rs\<close>, the answer envelope of \<open>answer.rs\<close>, the slot vocabulary of
  \<open>slot.rs\<close>, the model identity of \<open>model_ref.rs\<close> and the share-safe scanner of
  \<open>privacy.rs\<close>, each with its \<open>validate\<close>.  The replay validator, a loop over the event
  list, is in the theory Triage Replay.

  \<open>serde_json\<close> is not part of the repository: what the validators take from it is the
  record \<open>SerdeJson\<close>, an argument of every validator that serializes.  A field is
  \<open>None\<close> where the library call returns an error.
\<close>

section \<open>Identities, slots, privacy boundary\<close>

record ModelRef =
  profile_id :: string
  model_id :: string

datatype ModelRefError = ModelRefInvalidField string

datatype TriageContributorRole =
    ObservationExtractor
  | TimelineAnalyst
  | CausalProposer
  | ContradictionChecker
  | EvidenceGapFinder

datatype TriageSlotKindV2 =
    Contributor TriageContributorRole
  | Finalizer
  | Reviewer

definition TRIAGE_POLICY_SCHEMA_V2 :: string where
  "TRIAGE_POLICY_SCHEMA_V2 = ''contextdesk.triage_policy.v2''"

datatype PacketPrivacyBoundary = ShareSafe | OwnerOnly

definition PRIVACY_FORBIDDEN_SUBSTRINGS :: "string list" where
  "PRIVACY_FORBIDDEN_SUBSTRINGS =
     [''sk-'', ''api_key'', ''apikey'', ''authorization'', ''bearer '', ''password='', ''token='',
      ''credential='', ''/users/'', ''/home/'', ''/private/'', ''/var/folders/'',
      ''c:'' @ [CHR 0x5C] @ ''users'' @ [CHR 0x5C], ''file://'', ''http://'', ''https://'']"

record PrivacyFinding =
  needle :: string

definition scan_share_safe_text :: "string \<Rightarrow> PrivacyFinding list" where
  "scan_share_safe_text txt =
     (let normalized = to_ascii_lowercase txt
      in map (\<lambda>token. \<lparr>needle = token\<rparr>)
           (filter (\<lambda>token. contains normalized token) PRIVACY_FORBIDDEN_SUBSTRINGS))"

definition validate_profile_id :: "string \<Rightarrow> (ModelRefError, unit) result" where
  "validate_profile_id v =
     (if trim v = [] \<or> length v > 256 \<or> contains v ''/'' \<or> contains v [CHR 0x5C]
         \<or> contains v ''://'' \<or> has_control v
      then Inl (ModelRefInvalidField ''profile_id'') else Inr ())"

definition validate_model_id :: "string \<Rightarrow> (ModelRefError, unit) result" where
  "validate_model_id v =
     (if trim v = [] \<or> length v > 512 \<or> contains v [CHR 0x5C] \<or> contains v ''://''
         \<or> has_control v
      then Inl (ModelRefInvalidField ''model_id'') else Inr ())"

definition model_ref_validate :: "ModelRef \<Rightarrow> (ModelRefError, unit) result" where
  "model_ref_validate m =
     try_all [validate_profile_id (profile_id m), validate_model_id (model_id m)]"

section \<open>The answer envelope\<close>

record LogSnapshotRevisionV1 =
  event_revision :: u64
  template_analysis_revision :: u64
  suppression_revision :: u64

datatype ClaimKind =
    Observation
  | Symptom
  | CausalCandidate
  | InitiatingCause
  | CompetingExplanation
  | MissingEvidence

datatype EvidenceRole = RoleCause | RoleSupporting | RoleSymptom | RoleNeutral

datatype ClaimStatus = Supported | Unsupported | Withheld

record InvestigationClaimV1 =
  claim_id :: string
  claim_kind :: ClaimKind
  claim_text :: string
  claim_candidate_id :: string
  claim_evidence_ids :: "string list"
  claim_status :: ClaimStatus

record InvestigationCandidateV1 =
  cand_candidate_id :: string
  cand_claims :: "InvestigationClaimV1 list"

record CanonicalCitationV1 =
  cit_evidence_id :: string
  cit_candidate_id :: string
  cit_source_label :: string
  cit_locator :: string
  cit_corpus_id :: string
  cit_revision :: LogSnapshotRevisionV1
  cit_content :: string

record InvestigationAnswerV1 =
  ans_schema :: string
  ans_candidates :: "InvestigationCandidateV1 list"
  ans_canonical_citations :: "CanonicalCitationV1 list"
  ans_root_cause_established :: bool

record HostEvidenceEntry =
  he_evidence_id :: string
  he_candidate_id :: string
  he_source_label :: string
  he_locator :: string
  he_corpus_id :: string
  he_revision :: LogSnapshotRevisionV1
  he_role :: EvidenceRole
  he_content :: string

record AnswerBindingV1 =
  bind_session_id :: string
  bind_turn_id :: string
  bind_corpus_id :: string
  bind_revision :: LogSnapshotRevisionV1
  bind_ledger_digest :: string

record AnswerEnvelopeV1 =
  env_binding :: AnswerBindingV1
  env_evidence :: "HostEvidenceEntry list"
  env_answer :: InvestigationAnswerV1
  env_semantic_attempts :: u8

definition SCHEMA_V1 :: string where
  "SCHEMA_V1 = ''contextdesk.investigation_answer.v1''"

section \<open>Requests\<close>

text \<open>\<open>serde_json::Value\<close>.  No code inspects a number, so a number is an opaque token.\<close>

datatype json =
    JNull
  | JBool bool
  | JNumber string
  | JString string
  | JArray "json list"
  | JObject "(string \<times> json) list"

definition TRIAGE_REQUEST_SCHEMA_V2 :: string where
  "TRIAGE_REQUEST_SCHEMA_V2 = ''contextdesk.triage.request.v2''"
definition TRIAGE_RUN_EVENT_SCHEMA_V2 :: string where
  "TRIAGE_RUN_EVENT_SCHEMA_V2 = ''contextdesk.triage.run_event.v2''"
definition TRIAGE_RESULT_SCHEMA_V2 :: string where
  "TRIAGE_RESULT_SCHEMA_V2 = ''contextdesk.triage.result.v2''"
definition TRIAGE_SHARE_SAFE_RESULT_SCHEMA_V2 :: string where
  "TRIAGE_SHARE_SAFE_RESULT_SCHEMA_V2 = ''contextdesk.triage.result_share_safe.v2''"
definition TRIAGE_CANCELLATION_SCHEMA_V1 :: string where
  "TRIAGE_CANCELLATION_SCHEMA_V1 = ''contextdesk.triage.cancellation.v1''"
definition TRIAGE_REPLAY_SCHEMA_V1 :: string where
  "TRIAGE_REPLAY_SCHEMA_V1 = ''contextdesk.triage.replay.v1''"

definition MAX_TRIAGE_WIRE_BYTES :: nat where "MAX_TRIAGE_WIRE_BYTES = 4 * 1024 * 1024"
definition MAX_TRIAGE_TASK_BYTES :: nat where "MAX_TRIAGE_TASK_BYTES = 64 * 1024"
definition MAX_TRIAGE_INLINE_POLICY_BYTES :: nat where
  "MAX_TRIAGE_INLINE_POLICY_BYTES = 1024 * 1024"
definition MAX_TRIAGE_SOURCE_IDS :: nat where "MAX_TRIAGE_SOURCE_IDS = 256"
definition MAX_TRIAGE_REASON_CODES :: nat where "MAX_TRIAGE_REASON_CODES = 64"
definition MAX_TRIAGE_EVIDENCE_IDS :: nat where "MAX_TRIAGE_EVIDENCE_IDS = 4096"
definition MAX_TRIAGE_REPLAY_EVENTS :: nat where "MAX_TRIAGE_REPLAY_EVENTS = 4096"
definition MAX_TRIAGE_REQUEST_DEADLINE_MS :: u64 where
  "MAX_TRIAGE_REQUEST_DEADLINE_MS = 3600000"
definition MAX_TRIAGE_REQUEST_PROVIDER_CALLS :: u32 where
  "MAX_TRIAGE_REQUEST_PROVIDER_CALLS = 64"

record TriageScopeV1 =
  scope_corpus_id :: string
  scope_corpus_revision :: "u64 option"
  scope_source_ids :: "string list"

datatype TriagePolicySelectionV2 =
    Standard ModelRef
  | Saved string u64
  | Inline string json

record TriageRequestOverridesV1 =
  ovr_deadline_ms :: "u64 option"
  ovr_max_provider_calls :: "u32 option"

record TriageRequestV2 =
  req_schema_id :: string
  req_run_id :: string
  req_privacy :: PacketPrivacyBoundary
  req_task :: string
  req_scope :: TriageScopeV1
  req_policy :: TriagePolicySelectionV2
  req_overrides :: TriageRequestOverridesV1
  req_cancellation_id :: string

section \<open>Attempts, reconciliation, results\<close>

datatype TriageAttemptStatus =
    AttemptCompleted | AttemptAbstained | AttemptInvalid | AttemptUnavailable
  | AttemptTimedOut | AttemptCancelled | AttemptFailed | AttemptNotAdmitted

datatype TriageTerminalDispositionV1 =
    DispositionCompleted | DispositionAbstained | DispositionInvalid | DispositionUnavailable
  | DispositionTimedOut | DispositionCancelled | DispositionFailed | DispositionNotAdmitted

record TriageRoleAttemptV1 =
  att_attempt_id :: string
  att_role_slot_id :: string
  att_role :: TriageSlotKindV2
  att_model :: "ModelRef option"
  att_status :: TriageAttemptStatus
  att_reason_codes :: "string list"
  att_elapsed_ms :: u64
  att_input_chars :: u64
  att_output_chars :: u64
  att_physical_provider_calls :: "u32 option"
  att_semantic_corrections :: "u32 option"
  att_terminal_disposition :: "TriageTerminalDispositionV1 option"

record TriageReconciliationV1 =
  rec_state :: string
  rec_configured_role_slots :: u32
  rec_completed_role_slots :: u32
  rec_distinct_models :: u32
  rec_distinct_gateways :: u32
  rec_supported_claim_ids :: "string list"
  rec_conflict_ids :: "string list"
  rec_gap_ids :: "string list"
  rec_root_cause_established :: bool

datatype TriageResultKind = GroundedFinal | HonestPartial

datatype TriageValidationState = ValidationPassed | ValidationPartial | ValidationFailed

record TriageResultV2 =
  res_schema_id :: string
  res_run_id :: string
  res_kind :: TriageResultKind
  res_validation_state :: TriageValidationState
  res_packet_id :: string
  res_reconciliation :: TriageReconciliationV1
  res_answer :: "AnswerEnvelopeV1 option"
  res_accepted_evidence_ids :: "string list"
  res_reason_codes :: "string list"

record ShareSafeTriageResultV2 =
  ss_schema_id :: string
  ss_run_id :: string
  ss_kind :: TriageResultKind
  ss_validation_state :: TriageValidationState
  ss_packet_id :: string
  ss_reconciliation :: TriageReconciliationV1
  ss_accepted_evidence_ids :: "string list"
  ss_reason_codes :: "string list"

section \<open>Events, cancellations, replays\<close>

datatype TriageRunEventPayloadV2 =
    RunStarted (request_fingerprint: string) (policy_fingerprint: string)
  | PacketReady (ready_packet_id: string) (packet_digest: string) (evidence_count: u32)
  | RoleAttempt TriageRoleAttemptV1
  | Reconciliation TriageReconciliationV1
  | PreliminaryReconciliation TriageReconciliationV1
  | FinalReconciliation TriageReconciliationV1
  | Validation bool "string list"
  | Correction bool "string list"
  | Completed TriageResultV2
  | Failed string "TriageResultV2 option"
  | TimedOut string "TriageResultV2 option"
  | Cancelled string "TriageResultV2 option"

fun is_terminal :: "TriageRunEventPayloadV2 \<Rightarrow> bool" where
  "is_terminal (Completed r) = True"
| "is_terminal (Failed c p) = True"
| "is_terminal (TimedOut c p) = True"
| "is_terminal (Cancelled c p) = True"
| "is_terminal _ = False"

record TriageRunEventV2 =
  ev_schema_id :: string
  ev_run_id :: string
  ev_sequence :: u64
  ev_privacy :: PacketPrivacyBoundary
  ev_event :: TriageRunEventPayloadV2

record TriageCancellationV1 =
  can_schema_id :: string
  can_run_id :: string
  can_cancellation_id :: string

record TriageReplayV1 =
  rp_schema_id :: string
  rp_run_id :: string
  rp_request_fingerprint :: string
  rp_events :: "TriageRunEventV2 list"

datatype TriageContractError =
    ContractParse
  | MissingSchema
  | UnknownSchema string string
  | InvalidField string
  | EmptyReplay
  | MissingRunStarted
  | RequestFingerprintMismatch
  | NonContiguousSequence
  | TerminalCount nat
  | EventAfterTerminal
  | InvalidPhaseOrder
  | RunIdentityMismatch
  | PrivacyLeak
  | ContractSerialize
  | PayloadTooLarge

text \<open>The calls into \<open>serde_json\<close>.\<close>

record SerdeJson =
  value_to_vec :: "json \<Rightarrow> string option"
  result_to_vec :: "TriageResultV2 \<Rightarrow> string option"
  share_safe_to_string :: "ShareSafeTriageResultV2 \<Rightarrow> string option"
  event_to_string :: "TriageRunEventV2 \<Rightarrow> string option"
  request_to_value :: "TriageRequestV2 \<Rightarrow> json option"
  json_from_str :: "string \<Rightarrow> json option"

end
