(* ===== verification/Triage_Validate.thy ===== *)
theory Triage_Validate
  imports Triage_Contract
begin

text \<open>
  The validators of \<open>crates/cd-triage-sdk/src/triage_sdk.rs\<close> for every type but the
  replay: \<open>validate_opaque_id\<close> and the bounded identity lists, the scope, request,
  attempt, reconciliation, result, share-safe result, event and cancellation, and the
  versioned parsers.  The lemmas say what an accepted value satisfies; the ones named
  \<open>..._ok\<close> characterise acceptance exactly and are what the later theories use.
\<close>

section \<open>Identities\<close>

definition expect_schema :: "string \<Rightarrow> string \<Rightarrow> (TriageContractError, unit) result" where
  "expect_schema got expected = (if got = expected then Inr () else Inl (UnknownSchema expected got))"

definition validate_opaque_id :: "string \<Rightarrow> string \<Rightarrow> (TriageContractError, unit) result" where
  "validate_opaque_id field v =
     (if trim v = [] \<or> length v > 512 \<or> contains v ''/'' \<or> contains v [CHR 0x5C]
         \<or> contains v ''://'' \<or> has_control v
      then Inl (InvalidField field) else Inr ())"

text \<open>The short-circuiting \<open>all\<close> over \<open>is_ok && unique.insert(id)\<close>, with the growing set.\<close>

fun all_unique :: "(string \<Rightarrow> bool) \<Rightarrow> string set \<Rightarrow> string list \<Rightarrow> bool" where
  "all_unique p seen [] \<longleftrightarrow> True"
| "all_unique p seen (x # xs) \<longleftrightarrow> p x \<and> x \<notin> seen \<and> all_unique p (insert x seen) xs"

definition validate_unique_reason_codes :: "string list \<Rightarrow> (TriageContractError, unit) result" where
  "validate_unique_reason_codes codes =
     (if length codes > MAX_TRIAGE_REASON_CODES then Inl PayloadTooLarge
      else if all_unique (\<lambda>code. is_ok (validate_opaque_id ''reason_code'' code)) {} codes then Inr ()
      else Inl (InvalidField ''reason_codes''))"

definition validate_unique_ids :: "string \<Rightarrow> string list \<Rightarrow> (TriageContractError, unit) result" where
  "validate_unique_ids field ids =
     (if all_unique (\<lambda>id. is_ok (validate_opaque_id field id)) {} ids then Inr ()
      else Inl (InvalidField field))"

definition validate_unique_ids_bounded ::
  "string \<Rightarrow> string list \<Rightarrow> nat \<Rightarrow> (TriageContractError, unit) result" where
  "validate_unique_ids_bounded field ids mx =
     (if length ids > mx then Inl PayloadTooLarge else validate_unique_ids field ids)"

section \<open>Requests\<close>

definition scope_validate :: "TriageScopeV1 \<Rightarrow> (TriageContractError, unit) result" where
  "scope_validate s = try_all
     [validate_opaque_id ''corpus_id'' (scope_corpus_id s),
      ensure (scope_corpus_revision s \<noteq> Some 0) (InvalidField ''corpus_revision''),
      validate_unique_ids_bounded ''source_ids'' (scope_source_ids s) MAX_TRIAGE_SOURCE_IDS]"

fun json_get :: "json \<Rightarrow> string \<Rightarrow> json option" where
  "json_get (JObject kvs) k = map_of kvs k"
| "json_get _ k = None"

fun json_as_str :: "json \<Rightarrow> string option" where
  "json_as_str (JString s) = Some s"
| "json_as_str _ = None"

fun json_is_object :: "json \<Rightarrow> bool" where
  "json_is_object (JObject kvs) = True"
| "json_is_object _ = False"

fun policy_validate ::
  "SerdeJson \<Rightarrow> TriagePolicySelectionV2 \<Rightarrow> (TriageContractError, unit) result" where
  "policy_validate S (Standard model) =
     map_err (\<lambda>_. InvalidField ''model'') (model_ref_validate model)"
| "policy_validate S (Saved policy_id policy_revision) = try_all
     [validate_opaque_id ''policy_id'' policy_id,
      ensure (policy_revision \<noteq> 0) (InvalidField ''policy_revision'')]"
| "policy_validate S (Inline schema_id document) =
     (let document_schema = Option.bind (json_get document ''schema_id'') json_as_str
      in and_then (ok_or ContractSerialize (value_to_vec S document)) (\<lambda>bytes.
         if schema_id \<noteq> TRIAGE_POLICY_SCHEMA_V2 \<or> document_schema \<noteq> Some TRIAGE_POLICY_SCHEMA_V2
            \<or> \<not> json_is_object document \<or> length bytes > MAX_TRIAGE_INLINE_POLICY_BYTES
         then Inl (InvalidField ''inline_policy'') else Inr ()))"

definition overrides_invalid :: "TriageRequestOverridesV1 \<Rightarrow> bool" where
  "overrides_invalid ov \<longleftrightarrow>
     (case ovr_deadline_ms ov of None \<Rightarrow> False
      | Some v \<Rightarrow> v = 0 \<or> v > MAX_TRIAGE_REQUEST_DEADLINE_MS)
     \<or> (case ovr_max_provider_calls ov of None \<Rightarrow> False
      | Some v \<Rightarrow> v = 0 \<or> v > MAX_TRIAGE_REQUEST_PROVIDER_CALLS)"

definition request_validate :: "SerdeJson \<Rightarrow> TriageRequestV2 \<Rightarrow> (TriageContractError, unit) result" where
  "request_validate S r = try_all
     [expect_schema (req_schema_id r) TRIAGE_REQUEST_SCHEMA_V2,
      ensure (req_privacy r = OwnerOnly) PrivacyLeak,
      validate_opaque_id ''run_id'' (req_run_id r),
      scope_validate (req_scope r),
      validate_opaque_id ''cancellation_id'' (req_cancellation_id r),
      ensure (\<not> (trim (req_task r) = [] \<or> length (req_task r) > MAX_TRIAGE_TASK_BYTES
                 \<or> contains (req_task r) [CHR 0x00])) (InvalidField ''task''),
      policy_validate S (req_policy r),
      ensure (\<not> overrides_invalid (req_overrides r)) (InvalidField ''overrides'')]"

section \<open>Attempts and reconciliation\<close>

fun terminal_disposition_for_status :: "TriageAttemptStatus \<Rightarrow> TriageTerminalDispositionV1" where
  "terminal_disposition_for_status AttemptCompleted = DispositionCompleted"
| "terminal_disposition_for_status AttemptAbstained = DispositionAbstained"
| "terminal_disposition_for_status AttemptInvalid = DispositionInvalid"
| "terminal_disposition_for_status AttemptUnavailable = DispositionUnavailable"
| "terminal_disposition_for_status AttemptTimedOut = DispositionTimedOut"
| "terminal_disposition_for_status AttemptCancelled = DispositionCancelled"
| "terminal_disposition_for_status AttemptFailed = DispositionFailed"
| "terminal_disposition_for_status AttemptNotAdmitted = DispositionNotAdmitted"

definition option_exceeds :: "u32 option \<Rightarrow> u32 \<Rightarrow> bool" where
  "option_exceeds x bound = (case x of None \<Rightarrow> False | Some v \<Rightarrow> v > bound)"

definition attempt_validate :: "TriageRoleAttemptV1 \<Rightarrow> (TriageContractError, unit) result" where
  "attempt_validate a = try_all
     [validate_opaque_id ''attempt_id'' (att_attempt_id a),
      validate_opaque_id ''role_slot_id'' (att_role_slot_id a),
      (case att_model a of None \<Rightarrow> Inr ()
       | Some model \<Rightarrow> map_err (\<lambda>_. InvalidField ''model'') (model_ref_validate model)),
      validate_unique_reason_codes (att_reason_codes a),
      ensure (\<not> option_exceeds (att_physical_provider_calls a) MAX_TRIAGE_REQUEST_PROVIDER_CALLS)
        (InvalidField ''physical_provider_calls''),
      ensure (case (att_physical_provider_calls a, att_semantic_corrections a) of
                (Some calls, Some corrections) \<Rightarrow> \<not> corrections > calls | _ \<Rightarrow> True)
        (InvalidField ''semantic_corrections''),
      ensure (\<not> (att_status a = AttemptNotAdmitted
                 \<and> (option_exceeds (att_physical_provider_calls a) 0
                    \<or> option_exceeds (att_semantic_corrections a) 0)))
        (InvalidField ''not_admitted_accounting''),
      ensure (case att_terminal_disposition a of None \<Rightarrow> True
              | Some d \<Rightarrow> d = terminal_disposition_for_status (att_status a))
        (InvalidField ''terminal_disposition'')]"

definition reconciliation_validate ::
  "TriageReconciliationV1 \<Rightarrow> (TriageContractError, unit) result" where
  "reconciliation_validate r = try_all
     [validate_opaque_id ''reconciliation_state'' (rec_state r),
      ensure (\<not> (rec_completed_role_slots r > rec_configured_role_slots r
                 \<or> rec_distinct_models r > rec_completed_role_slots r
                 \<or> rec_distinct_gateways r > rec_distinct_models r))
        (InvalidField ''reconciliation_counts''),
      validate_unique_ids_bounded ''supported_claim_ids'' (rec_supported_claim_ids r)
        MAX_TRIAGE_EVIDENCE_IDS,
      validate_unique_ids_bounded ''conflict_ids'' (rec_conflict_ids r) MAX_TRIAGE_EVIDENCE_IDS,
      validate_unique_ids_bounded ''gap_ids'' (rec_gap_ids r) MAX_TRIAGE_EVIDENCE_IDS]"

section \<open>Results\<close>

text \<open>The arm \<open>_\<close> of the match on the result kind: the evidence and size checks.\<close>

definition result_content_validate ::
  "SerdeJson \<Rightarrow> TriageResultV2 \<Rightarrow> (TriageContractError, unit) result" where
  "result_content_validate S r = try_all
     [(case res_answer r of None \<Rightarrow> Inr ()
       | Some answer \<Rightarrow>
           (let known = set (map he_evidence_id (env_evidence answer)) in try_all
             [ensure (\<not> list_ex (\<lambda>id. id \<notin> known) (res_accepted_evidence_ids r))
                (InvalidField ''accepted_evidence_ids''),
              ensure (\<not> (res_kind r = HonestPartial
                         \<and> ans_root_cause_established (env_answer answer)))
                (InvalidField ''partial_root_cause'')])),
      (case result_to_vec S r of None \<Rightarrow> Inl ContractSerialize
       | Some encoded \<Rightarrow> if length encoded > MAX_TRIAGE_WIRE_BYTES then Inl PayloadTooLarge
                        else Inr ())]"

definition result_kind_validate ::
  "SerdeJson \<Rightarrow> TriageResultV2 \<Rightarrow> (TriageContractError, unit) result" where
  "result_kind_validate S r =
     (if res_kind r = GroundedFinal
         \<and> (res_answer r = None \<or> res_validation_state r \<noteq> ValidationPassed)
      then Inl (InvalidField ''answer'')
      else if res_kind r = HonestPartial
         \<and> (res_validation_state r = ValidationPassed
            \<or> rec_root_cause_established (res_reconciliation r))
      then Inl (InvalidField ''partial_validation'')
      else result_content_validate S r)"

definition result_validate :: "SerdeJson \<Rightarrow> TriageResultV2 \<Rightarrow> (TriageContractError, unit) result" where
  "result_validate S r = try_all
     [expect_schema (res_schema_id r) TRIAGE_RESULT_SCHEMA_V2,
      validate_opaque_id ''run_id'' (res_run_id r),
      validate_opaque_id ''packet_id'' (res_packet_id r),
      reconciliation_validate (res_reconciliation r),
      validate_unique_ids_bounded ''accepted_evidence_ids'' (res_accepted_evidence_ids r)
        MAX_TRIAGE_EVIDENCE_IDS,
      validate_unique_reason_codes (res_reason_codes r),
      ensure (\<not> (rec_root_cause_established (res_reconciliation r) \<and> res_answer r = None))
        (InvalidField ''answer''),
      result_kind_validate S r]"

definition share_safe_summary :: "TriageResultV2 \<Rightarrow> ShareSafeTriageResultV2" where
  "share_safe_summary r =
     \<lparr>ss_schema_id = TRIAGE_SHARE_SAFE_RESULT_SCHEMA_V2, ss_run_id = res_run_id r,
      ss_kind = res_kind r, ss_validation_state = res_validation_state r,
      ss_packet_id = res_packet_id r, ss_reconciliation = res_reconciliation r,
      ss_accepted_evidence_ids = res_accepted_evidence_ids r,
      ss_reason_codes = res_reason_codes r\<rparr>"

definition share_safe_validate ::
  "SerdeJson \<Rightarrow> ShareSafeTriageResultV2 \<Rightarrow> (TriageContractError, unit) result" where
  "share_safe_validate S r = try_all
     [expect_schema (ss_schema_id r) TRIAGE_SHARE_SAFE_RESULT_SCHEMA_V2,
      validate_opaque_id ''run_id'' (ss_run_id r),
      validate_opaque_id ''packet_id'' (ss_packet_id r),
      reconciliation_validate (ss_reconciliation r),
      validate_unique_ids_bounded ''accepted_evidence_ids'' (ss_accepted_evidence_ids r)
        MAX_TRIAGE_EVIDENCE_IDS,
      validate_unique_reason_codes (ss_reason_codes r),
      (case share_safe_to_string S r of None \<Rightarrow> Inl ContractSerialize
       | Some encoded \<Rightarrow> ensure (scan_share_safe_text encoded = []) PrivacyLeak)]"

section \<open>Events and cancellations\<close>

definition validate_terminal_partial ::
  "SerdeJson \<Rightarrow> string \<Rightarrow> TriageResultV2 option \<Rightarrow> (TriageContractError, unit) result" where
  "validate_terminal_partial S run_id partial =
     (case partial of None \<Rightarrow> Inr ()
      | Some p \<Rightarrow> try_all
          [result_validate S p,
           ensure (res_run_id p = run_id) RunIdentityMismatch,
           ensure (res_kind p = HonestPartial) (InvalidField ''terminal_partial_result'')])"

fun payload_validate ::
  "SerdeJson \<Rightarrow> string \<Rightarrow> TriageRunEventPayloadV2 \<Rightarrow> (TriageContractError, unit) result" where
  "payload_validate S run_id (RunStarted rf pf) = try_all
     [validate_opaque_id ''request_fingerprint'' rf, validate_opaque_id ''policy_fingerprint'' pf]"
| "payload_validate S run_id (PacketReady pid digest n) = try_all
     [validate_opaque_id ''packet_id'' pid, validate_opaque_id ''packet_digest'' digest]"
| "payload_validate S run_id (RoleAttempt attempt) = attempt_validate attempt"
| "payload_validate S run_id (Reconciliation summary) = reconciliation_validate summary"
| "payload_validate S run_id (PreliminaryReconciliation summary) = reconciliation_validate summary"
| "payload_validate S run_id (FinalReconciliation summary) = reconciliation_validate summary"
| "payload_validate S run_id (Validation passed codes) = validate_unique_reason_codes codes"
| "payload_validate S run_id (Correction applied codes) = validate_unique_reason_codes codes"
| "payload_validate S run_id (Failed category partial) = try_all
     [validate_opaque_id ''failure_category'' category, validate_terminal_partial S run_id partial]"
| "payload_validate S run_id (TimedOut category partial) = try_all
     [validate_opaque_id ''failure_category'' category, validate_terminal_partial S run_id partial]"
| "payload_validate S run_id (Cancelled cid partial) = try_all
     [validate_opaque_id ''cancellation_id'' cid, validate_terminal_partial S run_id partial]"
| "payload_validate S run_id (Completed result) = try_all
     [result_validate S result, ensure (res_run_id result = run_id) RunIdentityMismatch]"

text \<open>The three \<open>matches!\<close> guards of the share-safe branch.\<close>

fun carries_owner_content :: "TriageRunEventPayloadV2 \<Rightarrow> bool" where
  "carries_owner_content (Completed r) = True"
| "carries_owner_content (Failed c p) = (p \<noteq> None)"
| "carries_owner_content (TimedOut c p) = (p \<noteq> None)"
| "carries_owner_content (Cancelled c p) = (p \<noteq> None)"
| "carries_owner_content (RoleAttempt a) = (att_model a \<noteq> None)"
| "carries_owner_content _ = False"

definition event_validate :: "SerdeJson \<Rightarrow> TriageRunEventV2 \<Rightarrow> (TriageContractError, unit) result" where
  "event_validate S e = try_all
     [expect_schema (ev_schema_id e) TRIAGE_RUN_EVENT_SCHEMA_V2,
      validate_opaque_id ''run_id'' (ev_run_id e),
      payload_validate S (ev_run_id e) (ev_event e),
      (if ev_privacy e = ShareSafe then try_all
         [ensure (\<not> carries_owner_content (ev_event e)) PrivacyLeak,
          (case event_to_string S e of None \<Rightarrow> Inl ContractSerialize
           | Some encoded \<Rightarrow> ensure (scan_share_safe_text encoded = []) PrivacyLeak)]
       else Inr ())]"

definition cancellation_validate :: "TriageCancellationV1 \<Rightarrow> (TriageContractError, unit) result" where
  "cancellation_validate c = try_all
     [expect_schema (can_schema_id c) TRIAGE_CANCELLATION_SCHEMA_V1,
      validate_opaque_id ''run_id'' (can_run_id c),
      validate_opaque_id ''cancellation_id'' (can_cancellation_id c)]"

section \<open>Versioned parsing\<close>

text \<open>\<open>parse_versioned\<close>, with the decoder \<open>serde_json::from_value::<T>\<close> as an argument, and
  the pattern of the five public parsers: decode, then validate.\<close>

definition parse_versioned ::
  "SerdeJson \<Rightarrow> (json \<Rightarrow> 'a option) \<Rightarrow> string \<Rightarrow> string \<Rightarrow> (TriageContractError, 'a) result" where
  "parse_versioned S from_value raw expected =
     (if length raw > MAX_TRIAGE_WIRE_BYTES then Inl PayloadTooLarge
      else and_then (ok_or ContractParse (json_from_str S raw)) (\<lambda>header.
           and_then (ok_or MissingSchema (Option.bind (json_get header ''schema_id'') json_as_str)) (\<lambda>got.
           and_then (expect_schema got expected) (\<lambda>_.
           ok_or ContractParse (from_value header)))))"

definition parse_request_v2 ::
  "SerdeJson \<Rightarrow> (json \<Rightarrow> TriageRequestV2 option) \<Rightarrow> string \<Rightarrow> (TriageContractError, TriageRequestV2) result"
  where "parse_request_v2 S from_value raw =
     and_then (parse_versioned S from_value raw TRIAGE_REQUEST_SCHEMA_V2) (\<lambda>v.
     and_then (request_validate S v) (\<lambda>_. Inr v))"

definition parse_event_v2 ::
  "SerdeJson \<Rightarrow> (json \<Rightarrow> TriageRunEventV2 option) \<Rightarrow> string \<Rightarrow> (TriageContractError, TriageRunEventV2) result"
  where "parse_event_v2 S from_value raw =
     and_then (parse_versioned S from_value raw TRIAGE_RUN_EVENT_SCHEMA_V2) (\<lambda>v.
     and_then (event_validate S v) (\<lambda>_. Inr v))"

definition parse_result_v2 ::
  "SerdeJson \<Rightarrow> (json \<Rightarrow> TriageResultV2 option) \<Rightarrow> string \<Rightarrow> (TriageContractError, TriageResultV2) result"
  where "parse_result_v2 S from_value raw =
     and_then (parse_versioned S from_value raw TRIAGE_RESULT_SCHEMA_V2) (\<lambda>v.
     and_then (result_validate S v) (\<lambda>_. Inr v))"

definition parse_cancellation_v1 ::
  "SerdeJson \<Rightarrow> (json \<Rightarrow> TriageCancellationV1 option) \<Rightarrow> string \<Rightarrow> (TriageContractError, TriageCancellationV1) result"
  where "parse_cancellation_v1 S from_value raw =
     and_then (parse_versioned S from_value raw TRIAGE_CANCELLATION_SCHEMA_V1) (\<lambda>v.
     and_then (cancellation_validate v) (\<lambda>_. Inr v))"

section \<open>What acceptance means\<close>

definition opaque_id :: "string \<Rightarrow> bool" where
  "opaque_id v \<longleftrightarrow> trim v \<noteq> [] \<and> length v \<le> 512 \<and> CHR ''/'' \<notin> set v \<and> CHR 0x5C \<notin> set v
     \<and> \<not> has_control v"

lemma expect_schema_ok [simp]: "expect_schema got expected = Inr u \<longleftrightarrow> got = expected"
  by (simp add: expect_schema_def)

lemma validate_opaque_id_ok [simp]: "validate_opaque_id field v = Inr u \<longleftrightarrow> opaque_id v"
proof -
  have "contains v ''://'' \<Longrightarrow> CHR ''/'' \<in> set v"
    using contains_subset [of v "''://''"] by simp
  then show ?thesis
    by (auto simp: validate_opaque_id_def opaque_id_def contains_char)
qed

lemma is_ok_validate_opaque_id [simp]: "is_ok (validate_opaque_id field v) \<longleftrightarrow> opaque_id v"
  by (simp add: is_ok_iff)

lemma all_unique_iff:
  "all_unique p seen xs \<longleftrightarrow> list_all p xs \<and> distinct xs \<and> set xs \<inter> seen = {}"
  by (induction xs arbitrary: seen) auto

lemma validate_unique_reason_codes_ok [simp]:
  "validate_unique_reason_codes codes = Inr u
     \<longleftrightarrow> length codes \<le> MAX_TRIAGE_REASON_CODES \<and> list_all opaque_id codes \<and> distinct codes"
  by (simp add: validate_unique_reason_codes_def all_unique_iff)

lemma validate_unique_ids_bounded_ok [simp]:
  "validate_unique_ids_bounded field ids mx = Inr u
     \<longleftrightarrow> length ids \<le> mx \<and> list_all opaque_id ids \<and> distinct ids"
  by (simp add: validate_unique_ids_bounded_def validate_unique_ids_def all_unique_iff)

lemma opaque_id_nonempty: "opaque_id v \<Longrightarrow> v \<noteq> []"
  by (auto simp: opaque_id_def)

lemmas validator_defs = scope_validate_def request_validate_def attempt_validate_def
  reconciliation_validate_def result_validate_def share_safe_validate_def event_validate_def
  cancellation_validate_def

lemma validate_terminal_partial_ok:
  "validate_terminal_partial S run_id partial = Inr u \<longleftrightarrow>
     (\<forall>p. partial = Some p \<longrightarrow>
        result_validate S p = Inr () \<and> res_run_id p = run_id \<and> res_kind p = HonestPartial)"
  by (auto simp: validate_terminal_partial_def split: option.splits)

text \<open>The result carried by a terminal payload, and its identity.\<close>

fun payload_result :: "TriageRunEventPayloadV2 \<Rightarrow> TriageResultV2 option" where
  "payload_result (Completed r) = Some r"
| "payload_result (Failed c p) = p"
| "payload_result (TimedOut c p) = p"
| "payload_result (Cancelled c p) = p"
| "payload_result _ = None"

fun is_cancelled :: "TriageRunEventPayloadV2 \<Rightarrow> bool" where
  "is_cancelled (Cancelled cid partial) = True"
| "is_cancelled _ = False"

lemma payload_validate_result:
  assumes "payload_validate S run_id pl = Inr u" and "payload_result pl = Some r"
  shows "result_validate S r = Inr () \<and> res_run_id r = run_id"
  using assms by (cases pl) (auto simp: validate_terminal_partial_ok)

lemma event_validate_payload:
  "event_validate S e = Inr u \<Longrightarrow> payload_validate S (ev_run_id e) (ev_event e) = Inr ()"
  by (simp add: event_validate_def)

lemma result_validate_grounded:
  assumes "result_validate S r = Inr u" and "res_kind r = GroundedFinal"
  shows "res_validation_state r = ValidationPassed"
    and "\<exists>a. res_answer r = Some a
       \<and> set (res_accepted_evidence_ids r) \<subseteq> he_evidence_id ` set (env_evidence a)"
  using assms
  by (auto simp: result_validate_def result_kind_validate_def result_content_validate_def
        list_ex_iff split: if_splits option.splits)

lemma result_validate_partial:
  assumes "result_validate S r = Inr u" and "res_kind r = HonestPartial"
  shows "res_validation_state r \<noteq> ValidationPassed"
    and "\<not> rec_root_cause_established (res_reconciliation r)"
    and "res_answer r = Some a \<Longrightarrow> \<not> ans_root_cause_established (env_answer a)"
  using assms
  by (auto simp: result_validate_def result_kind_validate_def result_content_validate_def
        split: if_splits option.splits)

lemma scan_share_safe_text_Nil:
  "scan_share_safe_text txt = [] \<longleftrightarrow>
     (\<forall>token \<in> set PRIVACY_FORBIDDEN_SUBSTRINGS. \<not> contains (to_ascii_lowercase txt) token)"
  by (simp add: scan_share_safe_text_def Let_def filter_empty_conv)

lemma contains_lowercase: "contains s v \<Longrightarrow> contains (to_ascii_lowercase s) (to_ascii_lowercase v)"
  unfolding contains_def to_ascii_lowercase_def sublist_def by (metis map_append)

end
