(* ===== verification/Triage_Replay.thy ===== *)
theory Triage_Replay
  imports Triage_Validate
begin

text \<open>
  The replay validator \<open>TriageReplayV1::validate\<close> of
  \<open>crates/cd-triage-sdk/src/triage_sdk.rs\<close>: a loop over the events with ten mutable flags
  and a set of slot ids.  \<open>replay_step\<close> is one iteration, \<open>replay_validate\<close> the whole
  function.  The abstract specification is the phase automaton \<open>next_phase\<close>, which says in
  which order a run may go; \<open>phase_of\<close> is the abstraction function and the refinement lemmas
  show that the flag loop accepts an event list exactly when the automaton does.
\<close>

section \<open>The loop\<close>

record replay_state =
  terminal_count :: nat
  packet_ready :: bool
  legacy_reconciliation :: bool
  preliminary_reconciliation :: bool
  final_reconciliation :: bool
  validation :: bool
  correction :: bool
  finalizer_attempt :: bool
  reviewer_attempt :: bool
  contributor_attempt :: bool
  pre_packet_slot_ids :: "string set"

definition replay_init :: replay_state where
  "replay_init = \<lparr>terminal_count = 0, packet_ready = False, legacy_reconciliation = False,
     preliminary_reconciliation = False, final_reconciliation = False, validation = False,
     correction = False, finalizer_attempt = False, reviewer_attempt = False,
     contributor_attempt = False, pre_packet_slot_ids = {}\<rparr>"

definition pre_packet :: "replay_state \<Rightarrow> bool" where
  "pre_packet st \<longleftrightarrow> \<not> packet_ready st \<and> \<not> legacy_reconciliation st
     \<and> \<not> preliminary_reconciliation st \<and> \<not> final_reconciliation st \<and> \<not> validation st
     \<and> \<not> correction st"

definition pre_packet_attempt_ok :: "TriageRoleAttemptV1 \<Rightarrow> bool" where
  "pre_packet_attempt_ok a \<longleftrightarrow>
     \<not> (att_status a \<notin> {AttemptUnavailable, AttemptTimedOut, AttemptCancelled, AttemptFailed,
            AttemptNotAdmitted}
        \<or> att_elapsed_ms a \<noteq> 0 \<or> att_input_chars a \<noteq> 0 \<or> att_output_chars a \<noteq> 0
        \<or> att_physical_provider_calls a \<noteq> Some 0 \<or> att_semantic_corrections a \<noteq> Some 0
        \<or> att_terminal_disposition a \<noteq> Some (terminal_disposition_for_status (att_status a)))"

definition validate_pre_packet_attempt ::
  "TriageRoleAttemptV1 \<Rightarrow> string set \<Rightarrow> (TriageContractError, string set) result" where
  "validate_pre_packet_attempt a slot_ids =
     (if \<not> pre_packet_attempt_ok a then Inl (InvalidField ''pre_packet_role_attempt'')
      else if att_role_slot_id a \<in> slot_ids then Inl (InvalidField ''pre_packet_role_slot_id'')
      else Inr (insert (att_role_slot_id a) slot_ids))"

text \<open>The branch for a terminal event.\<close>

definition replay_terminal ::
  "nat \<Rightarrow> nat \<Rightarrow> TriageRunEventPayloadV2 \<Rightarrow> replay_state \<Rightarrow> (TriageContractError, replay_state) result"
  where
  "replay_terminal n index pl st =
     (let st' = st\<lparr>terminal_count := terminal_count st + 1\<rparr> in
      if index + 1 \<noteq> n then Inl EventAfterTerminal
      else if pre_packet st then
        (if payload_result pl = None then Inr st' else Inl InvalidPhaseOrder)
      else if \<not> validation st \<and> \<not> is_cancelled pl then Inl InvalidPhaseOrder
      else Inr st')"

text \<open>The guard \<open>phase_ok\<close> of a non-terminal event.\<close>

fun phase_ok :: "replay_state \<Rightarrow> nat \<Rightarrow> TriageRunEventPayloadV2 \<Rightarrow> bool" where
  "phase_ok st index (RunStarted rf pf) \<longleftrightarrow> index = 0"
| "phase_ok st index (PacketReady pid digest n) \<longleftrightarrow> index = 1 \<and> \<not> packet_ready st
     \<and> \<not> legacy_reconciliation st \<and> \<not> preliminary_reconciliation st \<and> \<not> validation st"
| "phase_ok st index (RoleAttempt attempt) \<longleftrightarrow>
     (if pre_packet st then index > 0
      else case att_role attempt of
        Contributor r \<Rightarrow> packet_ready st \<and> \<not> legacy_reconciliation st
          \<and> \<not> preliminary_reconciliation st \<and> \<not> final_reconciliation st \<and> \<not> validation st
          \<and> \<not> finalizer_attempt st \<and> \<not> reviewer_attempt st
      | Finalizer \<Rightarrow> packet_ready st
          \<and> (legacy_reconciliation st \<or> final_reconciliation st
             \<or> \<not> contributor_attempt st \<and> \<not> reviewer_attempt st \<and> \<not> preliminary_reconciliation st)
          \<and> \<not> validation st \<and> \<not> finalizer_attempt st
      | Reviewer \<Rightarrow> packet_ready st \<and> preliminary_reconciliation st \<and> \<not> final_reconciliation st
          \<and> \<not> validation st \<and> \<not> reviewer_attempt st)"
| "phase_ok st index (Reconciliation summary) \<longleftrightarrow> packet_ready st \<and> \<not> legacy_reconciliation st
     \<and> \<not> preliminary_reconciliation st \<and> \<not> validation st"
| "phase_ok st index (PreliminaryReconciliation summary) \<longleftrightarrow> packet_ready st
     \<and> contributor_attempt st \<and> \<not> legacy_reconciliation st \<and> \<not> preliminary_reconciliation st
     \<and> \<not> validation st"
| "phase_ok st index (FinalReconciliation summary) \<longleftrightarrow> packet_ready st
     \<and> preliminary_reconciliation st \<and> \<not> final_reconciliation st \<and> \<not> validation st"
| "phase_ok st index (Validation passed codes) \<longleftrightarrow>
     (legacy_reconciliation st \<or> final_reconciliation st) \<and> \<not> validation st"
| "phase_ok st index (Correction applied codes) \<longleftrightarrow> validation st \<and> \<not> correction st"
| "phase_ok st index _ \<longleftrightarrow> False"

text \<open>The second match: which flag the event sets.\<close>

fun replay_mark :: "TriageRunEventPayloadV2 \<Rightarrow> replay_state \<Rightarrow> replay_state" where
  "replay_mark (PacketReady pid digest n) st = st\<lparr>packet_ready := True\<rparr>"
| "replay_mark (RoleAttempt attempt) st =
     (case att_role attempt of
        Contributor r \<Rightarrow> st\<lparr>contributor_attempt := True\<rparr>
      | Finalizer \<Rightarrow> st\<lparr>finalizer_attempt := True\<rparr>
      | Reviewer \<Rightarrow> st\<lparr>reviewer_attempt := True\<rparr>)"
| "replay_mark (Reconciliation summary) st = st\<lparr>legacy_reconciliation := True\<rparr>"
| "replay_mark (PreliminaryReconciliation summary) st = st\<lparr>preliminary_reconciliation := True\<rparr>"
| "replay_mark (FinalReconciliation summary) st = st\<lparr>final_reconciliation := True\<rparr>"
| "replay_mark (Validation passed codes) st = st\<lparr>validation := True\<rparr>"
| "replay_mark (Correction applied codes) st = st\<lparr>correction := True\<rparr>"
| "replay_mark _ st = st"

text \<open>\<open>validate_pre_packet_attempt(attempt, &mut pre_packet_slot_ids)?\<close> in the guarded arm.\<close>

definition replay_slot_ids ::
  "TriageRunEventPayloadV2 \<Rightarrow> replay_state \<Rightarrow> (TriageContractError, replay_state) result" where
  "replay_slot_ids pl st =
     (case pl of
        RoleAttempt attempt \<Rightarrow>
          if pre_packet st then
            and_then (validate_pre_packet_attempt attempt (pre_packet_slot_ids st))
              (\<lambda>ids. Inr (st\<lparr>pre_packet_slot_ids := ids\<rparr>))
          else Inr st
      | _ \<Rightarrow> Inr st)"

text \<open>The branch for a non-terminal event.\<close>

definition replay_advance ::
  "nat \<Rightarrow> TriageRunEventPayloadV2 \<Rightarrow> replay_state \<Rightarrow> (TriageContractError, replay_state) result" where
  "replay_advance index pl st =
     and_then (replay_slot_ids pl st) (\<lambda>st'.
       if \<not> phase_ok st index pl then Inl InvalidPhaseOrder else Inr (replay_mark pl st'))"

definition replay_step ::
  "SerdeJson \<Rightarrow> string \<Rightarrow> nat \<Rightarrow> replay_state \<Rightarrow> nat \<times> TriageRunEventV2
     \<Rightarrow> (TriageContractError, replay_state) result" where
  "replay_step S run_id n st ie =
     (let (index, e) = ie in
      and_then (event_validate S e) (\<lambda>_.
      if ev_run_id e \<noteq> run_id then Inl RunIdentityMismatch
      else if ev_sequence e \<noteq> of_nat index then Inl NonContiguousSequence
      else if is_terminal (ev_event e) then replay_terminal n index (ev_event e) st
      else replay_advance index (ev_event e) st))"

definition replay_validate :: "SerdeJson \<Rightarrow> TriageReplayV1 \<Rightarrow> (TriageContractError, unit) result" where
  "replay_validate S r =
     and_then (try_all
       [expect_schema (rp_schema_id r) TRIAGE_REPLAY_SCHEMA_V1,
        validate_opaque_id ''run_id'' (rp_run_id r),
        validate_opaque_id ''request_fingerprint'' (rp_request_fingerprint r),
        ensure (rp_events r \<noteq> []) EmptyReplay,
        ensure (\<not> length (rp_events r) > MAX_TRIAGE_REPLAY_EVENTS) PayloadTooLarge,
        (case rp_events r of
           [] \<Rightarrow> Inl MissingRunStarted
         | e # es \<Rightarrow>
             (case ev_event e of
                RunStarted rf pf \<Rightarrow>
                  ensure (rf = rp_request_fingerprint r) RequestFingerprintMismatch
              | _ \<Rightarrow> Inl MissingRunStarted))])
     (\<lambda>_. and_then
        (try_fold (replay_step S (rp_run_id r) (length (rp_events r))) replay_init
           (enumerate 0 (rp_events r)))
        (\<lambda>st. ensure (terminal_count st = 1) (TerminalCount (terminal_count st))))"

definition parse_replay_v1 ::
  "SerdeJson \<Rightarrow> (json \<Rightarrow> TriageReplayV1 option) \<Rightarrow> string \<Rightarrow> (TriageContractError, TriageReplayV1) result"
  where "parse_replay_v1 S from_value raw =
     and_then (parse_versioned S from_value raw TRIAGE_REPLAY_SCHEMA_V1) (\<lambda>v.
     and_then (replay_validate S v) (\<lambda>_. Inr v))"

section \<open>The phase automaton\<close>

text \<open>
  What the flags mean: a run is waiting for its packet (with the slot ids reported so far), or
  past it in one of the phases below.  The booleans of \<open>Settled\<close> say whether a finalizer has
  drafted; \<open>Reviewing\<close> says whether the reviewer has spoken.
\<close>

datatype phase =
    Waiting "string set"
  | Gathering
  | Contributed
  | EarlyFinal
  | Reviewing bool
  | Settled bool
  | Validated
  | Corrected
  | Ended

fun next_phase :: "phase \<Rightarrow> TriageRunEventPayloadV2 \<Rightarrow> phase option" where
  "next_phase (Waiting ids) pl =
     (case pl of
        PacketReady pid digest n \<Rightarrow> if ids = {} then Some Gathering else None
      | RoleAttempt a \<Rightarrow>
          if pre_packet_attempt_ok a \<and> att_role_slot_id a \<notin> ids
          then Some (Waiting (insert (att_role_slot_id a) ids)) else None
      | _ \<Rightarrow> if is_terminal pl \<and> payload_result pl = None then Some Ended else None)"
| "next_phase Gathering pl =
     (case pl of
        RoleAttempt a \<Rightarrow>
          (case att_role a of Contributor r \<Rightarrow> Some Contributed | Finalizer \<Rightarrow> Some EarlyFinal
           | Reviewer \<Rightarrow> None)
      | Reconciliation s \<Rightarrow> Some (Settled False)
      | Cancelled cid p \<Rightarrow> Some Ended
      | _ \<Rightarrow> None)"
| "next_phase Contributed pl =
     (case pl of
        RoleAttempt a \<Rightarrow> (case att_role a of Contributor r \<Rightarrow> Some Contributed | _ \<Rightarrow> None)
      | Reconciliation s \<Rightarrow> Some (Settled False)
      | PreliminaryReconciliation s \<Rightarrow> Some (Reviewing False)
      | Cancelled cid p \<Rightarrow> Some Ended
      | _ \<Rightarrow> None)"
| "next_phase EarlyFinal pl =
     (case pl of
        Reconciliation s \<Rightarrow> Some (Settled True)
      | Cancelled cid p \<Rightarrow> Some Ended
      | _ \<Rightarrow> None)"
| "next_phase (Reviewing reviewed) pl =
     (case pl of
        RoleAttempt a \<Rightarrow>
          (case att_role a of Reviewer \<Rightarrow> if reviewed then None else Some (Reviewing True) | _ \<Rightarrow> None)
      | FinalReconciliation s \<Rightarrow> Some (Settled False)
      | Cancelled cid p \<Rightarrow> Some Ended
      | _ \<Rightarrow> None)"
| "next_phase (Settled drafted) pl =
     (case pl of
        RoleAttempt a \<Rightarrow>
          (case att_role a of Finalizer \<Rightarrow> if drafted then None else Some (Settled True) | _ \<Rightarrow> None)
      | Validation passed codes \<Rightarrow> Some Validated
      | Cancelled cid p \<Rightarrow> Some Ended
      | _ \<Rightarrow> None)"
| "next_phase Validated pl =
     (case pl of Correction applied codes \<Rightarrow> Some Corrected
      | _ \<Rightarrow> if is_terminal pl then Some Ended else None)"
| "next_phase Corrected pl = (if is_terminal pl then Some Ended else None)"
| "next_phase Ended pl = None"

fun run_phases :: "phase \<Rightarrow> TriageRunEventPayloadV2 list \<Rightarrow> phase option" where
  "run_phases ph [] = Some ph"
| "run_phases ph (pl # pls) = Option.bind (next_phase ph pl) (\<lambda>ph'. run_phases ph' pls)"

text \<open>The abstraction function: the phase a flag state stands for.\<close>

definition phase_of :: "replay_state \<Rightarrow> phase" where
  "phase_of st =
     (if terminal_count st > 0 then Ended
      else if \<not> packet_ready st then Waiting (pre_packet_slot_ids st)
      else if correction st then Corrected
      else if validation st then Validated
      else if legacy_reconciliation st \<or> final_reconciliation st then Settled (finalizer_attempt st)
      else if preliminary_reconciliation st then Reviewing (reviewer_attempt st)
      else if finalizer_attempt st then EarlyFinal
      else if contributor_attempt st then Contributed
      else Gathering)"

section \<open>The flag loop refines the automaton\<close>

text \<open>The invariant of the loop between the first event and the terminal one.\<close>

definition flags_inv :: "nat \<Rightarrow> replay_state \<Rightarrow> bool" where
  "flags_inv i st \<longleftrightarrow> terminal_count st = 0
     \<and> (\<not> packet_ready st \<longrightarrow> pre_packet st \<and> finite (pre_packet_slot_ids st)
          \<and> i = Suc (card (pre_packet_slot_ids st))
          \<and> (pre_packet_slot_ids st = {} \<longrightarrow> \<not> contributor_attempt st \<and> \<not> finalizer_attempt st
               \<and> \<not> reviewer_attempt st))
     \<and> (packet_ready st \<longrightarrow> i > 1
          \<and> (correction st \<longrightarrow> validation st)
          \<and> (validation st \<longrightarrow> legacy_reconciliation st \<or> final_reconciliation st)
          \<and> (final_reconciliation st \<longrightarrow> preliminary_reconciliation st)
          \<and> (preliminary_reconciliation st \<longrightarrow> contributor_attempt st \<and> \<not> legacy_reconciliation st)
          \<and> (reviewer_attempt st \<longrightarrow> preliminary_reconciliation st)
          \<and> (finalizer_attempt st \<and> \<not> legacy_reconciliation st \<and> \<not> final_reconciliation st
               \<longrightarrow> \<not> contributor_attempt st))"

lemma pre_packet_iff: "flags_inv i st \<Longrightarrow> pre_packet st \<longleftrightarrow> \<not> packet_ready st"
  by (auto simp: flags_inv_def pre_packet_def)

lemma flags_inv_waiting:
  "flags_inv i st \<Longrightarrow> \<not> packet_ready st \<Longrightarrow> i = 1 \<longleftrightarrow> pre_packet_slot_ids st = {}"
  by (auto simp: flags_inv_def)

lemma advance_waiting:
  assumes inv: "flags_inv i st" and wait: "\<not> packet_ready st" and nt: "\<not> is_terminal pl"
  shows "case replay_advance i pl st of
      Inl err \<Rightarrow> next_phase (phase_of st) pl = None
    | Inr st' \<Rightarrow> next_phase (phase_of st) pl = Some (phase_of st') \<and> flags_inv (Suc i) st'"
proof -
  have pp: "pre_packet st" and tc: "terminal_count st = 0"
    and i: "i = Suc (card (pre_packet_slot_ids st))" and fin: "finite (pre_packet_slot_ids st)"
    using inv wait by (auto simp: flags_inv_def)
  have ph: "phase_of st = Waiting (pre_packet_slot_ids st)"
    using tc wait by (simp add: phase_of_def)
  show ?thesis
  proof (cases pl)
    case (RoleAttempt a)
    let ?ids = "insert (att_role_slot_id a) (pre_packet_slot_ids st)"
    have mark: "flags_inv (Suc i) (replay_mark pl (st\<lparr>pre_packet_slot_ids := ?ids\<rparr>))"
      "phase_of (replay_mark pl (st\<lparr>pre_packet_slot_ids := ?ids\<rparr>)) = Waiting ?ids"
      if "att_role_slot_id a \<notin> pre_packet_slot_ids st"
      using that pp tc i fin wait RoleAttempt
      by (cases "att_role a"; simp add: flags_inv_def pre_packet_def phase_of_def)+
    have "phase_ok st i pl" using RoleAttempt pp i by simp
    then show ?thesis
      using mark RoleAttempt pp ph
      by (simp add: replay_advance_def replay_slot_ids_def validate_pre_packet_attempt_def
          and_then_def)
  next
    case (PacketReady pid digest k)
    then show ?thesis
      using inv wait pp i fin
      by (auto simp: replay_advance_def replay_slot_ids_def ph and_then_def phase_of_def
          flags_inv_def pre_packet_def)
  qed (use nt pp i in \<open>auto simp: replay_advance_def replay_slot_ids_def ph and_then_def
         pre_packet_def\<close>)
qed

lemma running_cases:
  assumes "flags_inv i st" and "packet_ready st"
  obtains (gathering) "phase_of st = Gathering" "\<not> legacy_reconciliation st"
      "\<not> preliminary_reconciliation st" "\<not> final_reconciliation st" "\<not> validation st"
      "\<not> correction st" "\<not> finalizer_attempt st" "\<not> contributor_attempt st" "\<not> reviewer_attempt st"
    | (contributed) "phase_of st = Contributed" "\<not> legacy_reconciliation st"
      "\<not> preliminary_reconciliation st" "\<not> final_reconciliation st" "\<not> validation st"
      "\<not> correction st" "\<not> finalizer_attempt st" "contributor_attempt st" "\<not> reviewer_attempt st"
    | (early_final) "phase_of st = EarlyFinal" "\<not> legacy_reconciliation st"
      "\<not> preliminary_reconciliation st" "\<not> final_reconciliation st" "\<not> validation st"
      "\<not> correction st" "finalizer_attempt st" "\<not> contributor_attempt st" "\<not> reviewer_attempt st"
    | (reviewing) "phase_of st = Reviewing (reviewer_attempt st)" "\<not> legacy_reconciliation st"
      "preliminary_reconciliation st" "\<not> final_reconciliation st" "\<not> validation st"
      "\<not> correction st" "\<not> finalizer_attempt st" "contributor_attempt st"
    | (legacy) "phase_of st = Settled (finalizer_attempt st)" "legacy_reconciliation st"
      "\<not> preliminary_reconciliation st" "\<not> final_reconciliation st" "\<not> validation st"
      "\<not> correction st" "\<not> reviewer_attempt st"
    | (final) "phase_of st = Settled (finalizer_attempt st)" "\<not> legacy_reconciliation st"
      "preliminary_reconciliation st" "final_reconciliation st" "\<not> validation st"
      "\<not> correction st" "contributor_attempt st"
    | (validated) "phase_of st = Validated" "validation st" "\<not> correction st"
      "legacy_reconciliation st \<or> final_reconciliation st"
    | (corrected) "phase_of st = Corrected" "validation st" "correction st"
      "legacy_reconciliation st \<or> final_reconciliation st"
proof -
  note defs = flags_inv_def phase_of_def
  consider "correction st" | "validation st" "\<not> correction st"
    | "legacy_reconciliation st" "\<not> validation st" "\<not> correction st"
    | "final_reconciliation st" "\<not> legacy_reconciliation st" "\<not> validation st" "\<not> correction st"
    | "preliminary_reconciliation st" "\<not> final_reconciliation st" "\<not> legacy_reconciliation st"
      "\<not> validation st" "\<not> correction st"
    | "finalizer_attempt st" "\<not> preliminary_reconciliation st" "\<not> final_reconciliation st"
      "\<not> legacy_reconciliation st" "\<not> validation st" "\<not> correction st"
    | "contributor_attempt st" "\<not> finalizer_attempt st" "\<not> preliminary_reconciliation st"
      "\<not> final_reconciliation st" "\<not> legacy_reconciliation st" "\<not> validation st" "\<not> correction st"
    | "\<not> contributor_attempt st" "\<not> finalizer_attempt st" "\<not> preliminary_reconciliation st"
      "\<not> final_reconciliation st" "\<not> legacy_reconciliation st" "\<not> validation st" "\<not> correction st"
    by blast
  then show ?thesis
  proof cases
    case 1 then show ?thesis using assms by (intro corrected) (auto simp: defs)
  next
    case 2 then show ?thesis using assms by (intro validated) (auto simp: defs)
  next
    case 3 then show ?thesis using assms by (intro legacy) (auto simp: defs)
  next
    case 4 then show ?thesis using assms by (intro final) (auto simp: defs)
  next
    case 5 then show ?thesis using assms by (intro reviewing) (auto simp: defs)
  next
    case 6 then show ?thesis using assms by (intro early_final) (auto simp: defs)
  next
    case 7 then show ?thesis using assms by (intro contributed) (auto simp: defs)
  next
    case 8 then show ?thesis using assms by (intro gathering) (auto simp: defs)
  qed
qed

lemma running_advance:
  "flags_inv i st \<Longrightarrow> packet_ready st \<Longrightarrow> replay_advance i pl st =
     (if phase_ok st i pl then Inr (replay_mark pl st) else Inl InvalidPhaseOrder)"
  using pre_packet_iff [of i st]
  by (cases pl) (auto simp: replay_advance_def replay_slot_ids_def and_then_def)

lemma advance_running:
  assumes inv: "flags_inv i st" and run: "packet_ready st" and nt: "\<not> is_terminal pl"
  shows "case replay_advance i pl st of
      Inl err \<Rightarrow> next_phase (phase_of st) pl = None
    | Inr st' \<Rightarrow> next_phase (phase_of st) pl = Some (phase_of st') \<and> flags_inv (Suc i) st'"
proof -
  have pp: "\<not> pre_packet st" and i: "i > 1" and tc: "terminal_count st = 0"
    using inv run pre_packet_iff [OF inv] by (simp_all add: flags_inv_def)
  note defs = running_advance [OF inv run] phase_of_def flags_inv_def
  show ?thesis
    using inv run
  proof (cases rule: running_cases)
    case gathering
    then show ?thesis using run nt pp i tc
      by (cases pl) (simp_all add: defs split: TriageSlotKindV2.split)
  next
    case contributed
    then show ?thesis using run nt pp i tc
      by (cases pl) (simp_all add: defs split: TriageSlotKindV2.split)
  next
    case early_final
    then show ?thesis using run nt pp i tc
      by (cases pl) (simp_all add: defs split: TriageSlotKindV2.split)
  next
    case reviewing
    then show ?thesis using run nt pp i tc
      by (cases pl) (simp_all add: defs split: TriageSlotKindV2.split)
  next
    case legacy
    then show ?thesis using run nt pp i tc
      by (cases pl) (simp_all add: defs split: TriageSlotKindV2.split)
  next
    case final
    then show ?thesis using run nt pp i tc
      by (cases pl) (simp_all add: defs split: TriageSlotKindV2.split)
  next
    case validated
    then show ?thesis using run nt pp i tc inv
      by (cases pl) (simp_all add: defs split: TriageSlotKindV2.split)
  next
    case corrected
    then show ?thesis using run nt pp i tc inv
      by (cases pl) (simp_all add: defs split: TriageSlotKindV2.split)
  qed
qed

lemma advance_refines:
  assumes "flags_inv i st" and "\<not> is_terminal pl"
  shows "case replay_advance i pl st of
      Inl err \<Rightarrow> next_phase (phase_of st) pl = None
    | Inr st' \<Rightarrow> next_phase (phase_of st) pl = Some (phase_of st') \<and> flags_inv (Suc i) st'"
  using advance_waiting advance_running assms by blast

lemma terminal_next_phase:
  assumes "flags_inv i st" and "is_terminal pl"
  shows "next_phase (phase_of st) pl =
     (if if pre_packet st then payload_result pl = None
         else validation st \<or> is_cancelled pl
      then Some Ended else None)"
  using assms pre_packet_iff [OF assms(1)]
  by (cases pl) (auto simp: phase_of_def flags_inv_def)

lemma terminal_refines:
  assumes "flags_inv i st" and "is_terminal pl"
  shows "(\<exists>st'. replay_terminal n i pl st = Inr st')
     \<longleftrightarrow> i + 1 = n \<and> next_phase (phase_of st) pl = Some Ended"
    and "replay_terminal n i pl st = Inr st' \<Longrightarrow> terminal_count st' = 1 \<and> phase_of st' = Ended"
  using assms(1) unfolding terminal_next_phase [OF assms]
  by (auto simp: replay_terminal_def flags_inv_def phase_of_def Let_def split: if_splits)

definition event_ok :: "SerdeJson \<Rightarrow> string \<Rightarrow> nat \<Rightarrow> TriageRunEventV2 \<Rightarrow> bool" where
  "event_ok S run_id i e \<longleftrightarrow>
     event_validate S e = Inr () \<and> ev_run_id e = run_id \<and> ev_sequence e = of_nat i"

definition events_ok :: "SerdeJson \<Rightarrow> string \<Rightarrow> nat \<Rightarrow> TriageRunEventV2 list \<Rightarrow> bool" where
  "events_ok S run_id i es \<longleftrightarrow> (\<forall>k < length es. event_ok S run_id (i + k) (es ! k))"

lemma events_ok_Nil [simp]: "events_ok S run_id i []"
  by (simp add: events_ok_def)

lemma events_ok_Cons [simp]:
  "events_ok S run_id i (e # es) \<longleftrightarrow> event_ok S run_id i e \<and> events_ok S run_id (Suc i) es"
  by (force simp: events_ok_def nth_Cons less_Suc_eq_0_disj split: nat.splits)

lemma replay_step_eq:
  "event_ok S run_id i e \<Longrightarrow> replay_step S run_id n st (i, e) =
     (if is_terminal (ev_event e) then replay_terminal n i (ev_event e) st
      else replay_advance i (ev_event e) st)"
  by (simp add: replay_step_def event_ok_def and_then_def)

lemma replay_step_bad:
  "\<not> event_ok S run_id i e \<Longrightarrow> \<exists>err. replay_step S run_id n st (i, e) = Inl err"
  by (cases "event_validate S e") (auto simp: replay_step_def event_ok_def and_then_def)

lemma run_phases_Ended: "run_phases Ended pls = (if pls = [] then Some Ended else None)"
  by (cases pls) simp_all

lemma loop_refines:
  assumes "flags_inv i st" and "i + length es = n"
  shows "(\<exists>st'. try_fold (replay_step S run_id n) st (enumerate i es) = Inr st' \<and> terminal_count st' = 1)
     \<longleftrightarrow> events_ok S run_id i es \<and> run_phases (phase_of st) (map ev_event es) = Some Ended"
  using assms
proof (induction es arbitrary: i st)
  case Nil
  then show ?case by (simp add: flags_inv_def phase_of_def)
next
  case (Cons e es)
  let ?pl = "ev_event e"
  show ?case
  proof (cases "event_ok S run_id i e")
    case False
    then show ?thesis using replay_step_bad [OF False, of n st] by auto
  next
    case ok: True
    show ?thesis
    proof (cases "is_terminal ?pl")
      case True
      note ref = terminal_refines [OF Cons.prems(1) True, of n]
      have last: "i + 1 = n \<longleftrightarrow> es = []" using Cons.prems(2) by auto
      have ne: "next_phase (phase_of st) ?pl = Some ph \<Longrightarrow> ph = Ended" for ph
        using terminal_next_phase [OF Cons.prems(1) True] by (simp split: if_splits)
      show ?thesis
        using ref last ne ok True
        by (cases "next_phase (phase_of st) ?pl"; cases "replay_terminal n i ?pl st")
           (auto simp: replay_step_eq run_phases_Ended)
    next
      case nt: False
      show ?thesis
      proof (cases "replay_advance i ?pl st")
        case (Inl err)
        then show ?thesis
          using advance_refines [OF Cons.prems(1) nt] ok nt by (simp add: replay_step_eq)
      next
        case (Inr st')
        then show ?thesis
          using advance_refines [OF Cons.prems(1) nt] ok nt Cons.IH [of "Suc i" st'] Cons.prems(2)
          by (simp add: replay_step_eq)
      qed
    qed
  qed
qed

lemma flags_inv_init: "flags_inv 1 replay_init" and phase_of_init: "phase_of replay_init = Waiting {}"
  by (simp_all add: flags_inv_def replay_init_def pre_packet_def phase_of_def)

lemma first_step:
  assumes "event_ok S run_id 0 e" and "ev_event e = RunStarted rf pf"
  shows "replay_step S run_id n replay_init (0, e) = Inr replay_init"
  using assms by (simp add: replay_step_eq replay_advance_def replay_slot_ids_def and_then_def)

text \<open>The validator accepts exactly the replays the automaton accepts: everything after the
  header is decided by the per-event checks and the phase automaton.\<close>

lemma replay_validate_iff:
  "replay_validate S r = Inr u \<longleftrightarrow>
     rp_schema_id r = TRIAGE_REPLAY_SCHEMA_V1 \<and> opaque_id (rp_run_id r)
     \<and> opaque_id (rp_request_fingerprint r)
     \<and> length (rp_events r) \<le> MAX_TRIAGE_REPLAY_EVENTS
     \<and> (\<exists>e es pf. rp_events r = e # es
          \<and> ev_event e = RunStarted (rp_request_fingerprint r) pf
          \<and> events_ok S (rp_run_id r) 0 (e # es)
          \<and> run_phases (Waiting {}) (map ev_event es) = Some Ended)"
proof (cases "rp_events r")
  case Nil
  then show ?thesis by (auto simp: replay_validate_def)
next
  case (Cons e es)
  let ?n = "length (rp_events r)"
  let ?loop = "try_fold (replay_step S (rp_run_id r) ?n) replay_init (enumerate 0 (rp_events r))"
  have body: "(\<exists>st. ?loop = Inr st \<and> terminal_count st = 1) \<longleftrightarrow>
      events_ok S (rp_run_id r) 0 (e # es) \<and> run_phases (Waiting {}) (map ev_event es) = Some Ended"
    if started: "ev_event e = RunStarted rf pf" for rf pf
  proof (cases "event_ok S (rp_run_id r) 0 e")
    case False
    then show ?thesis using replay_step_bad [OF False, of ?n replay_init] Cons by auto
  next
    case True
    then show ?thesis
      using first_step [OF True started] Cons phase_of_init
        loop_refines [OF flags_inv_init, of es ?n S "rp_run_id r"]
      by simp
  qed
  show ?thesis
  proof (cases "ev_event e")
    case (RunStarted rf pf)
    then show ?thesis
      using body [OF RunStarted] Cons by (auto simp: replay_validate_def)
  qed (use Cons in \<open>auto simp: replay_validate_def\<close>)
qed

end
