(* ===== verification/Triage_Order.thy ===== *)
theory Triage_Order
  imports Triage_Replay
begin

text \<open>
  What the phase automaton promises about whole runs: the terminal event is unique and last, a
  run that is not cancelled after its packet passes a reconciliation and then exactly one
  validation checkpoint, and a run that never received a packet carries no result and
  reports no provider work.  The properties of \<open>replay_validate\<close> follow through
  \<open>replay_validate_iff\<close>.
\<close>

fun is_validation :: "TriageRunEventPayloadV2 \<Rightarrow> bool" where
  "is_validation (Validation passed codes) = True"
| "is_validation _ = False"

text \<open>The reconciliation that settles the claims before the checkpoint: the legacy one or the
  final one.\<close>

fun settles :: "TriageRunEventPayloadV2 \<Rightarrow> bool" where
  "settles (Reconciliation summary) = True"
| "settles (FinalReconciliation summary) = True"
| "settles _ = False"

fun in_progress :: "phase \<Rightarrow> bool" where
  "in_progress Gathering = True"
| "in_progress Contributed = True"
| "in_progress EarlyFinal = True"
| "in_progress (Reviewing b) = True"
| "in_progress (Settled b) = True"
| "in_progress _ = False"

lemma next_phase_Ended: "next_phase ph pl = Some Ended \<Longrightarrow> is_terminal pl"
  by (cases ph; cases pl) (auto split: if_splits TriageSlotKindV2.splits)

lemma next_phase_terminal: "next_phase ph pl = Some ph' \<Longrightarrow> is_terminal pl \<Longrightarrow> ph' = Ended"
  by (cases ph; cases pl) (auto split: if_splits)

lemma run_phases_terminal:
  assumes "run_phases ph pls = Some Ended" and "ph \<noteq> Ended"
  shows "pls \<noteq> [] \<and> is_terminal (last pls) \<and> (\<forall>pl \<in> set (butlast pls). \<not> is_terminal pl)"
  using assms
proof (induction pls arbitrary: ph)
  case Nil
  then show ?case by simp
next
  case (Cons pl pls)
  then obtain ph' where step: "next_phase ph pl = Some ph'" and rest: "run_phases ph' pls = Some Ended"
    by (auto simp: bind_eq_Some_conv)
  show ?case
  proof (cases "ph' = Ended")
    case True
    then have "pls = []" using rest by (simp add: run_phases_Ended split: if_splits)
    then show ?thesis using next_phase_Ended step True by simp
  next
    case False
    then have "\<not> is_terminal pl" using next_phase_terminal step by blast
    with Cons.IH [OF rest False] show ?thesis by auto
  qed
qed

lemma run_phases_Corrected:
  "run_phases Corrected pls = Some Ended \<longleftrightarrow> (\<exists>t. pls = [t] \<and> is_terminal t)"
  by (cases pls) (auto simp: run_phases_Ended split: if_splits)

lemma run_phases_Validated:
  "run_phases Validated pls = Some Ended \<longleftrightarrow>
     (\<exists>t. is_terminal t \<and> (pls = [t] \<or> (\<exists>applied codes. pls = [Correction applied codes, t])))"
proof (cases pls)
  case (Cons pl rest)
  then show ?thesis
    by (cases pl) (auto simp: run_phases_Ended run_phases_Corrected)
qed simp

lemma active_step:
  assumes "in_progress ph" and "next_phase ph pl = Some ph'"
  shows "ph' = Ended \<and> is_cancelled pl
     \<or> ph' = Validated \<and> is_validation pl \<and> (\<exists>b. ph = Settled b)
     \<or> in_progress ph' \<and> \<not> is_terminal pl \<and> \<not> is_validation pl \<and> \<not> is_PacketReady pl
        \<and> ((\<exists>b. ph' = Settled b) \<longrightarrow> (\<exists>b. ph = Settled b) \<or> settles pl)
        \<and> ((\<exists>b. ph = Settled b) \<longrightarrow> (\<exists>b. ph' = Settled b))"
  using assms by (cases ph; cases pl) (auto split: if_splits TriageSlotKindV2.splits)

lemma run_phases_checkpoint:
  assumes "run_phases ph pls = Some Ended" and "in_progress ph" and "\<not> is_cancelled (last pls)"
  shows "\<exists>mid passed codes rest. pls = mid @ Validation passed codes # rest
     \<and> run_phases Validated rest = Some Ended
     \<and> (\<forall>pl \<in> set mid. \<not> is_terminal pl \<and> \<not> is_validation pl \<and> \<not> is_PacketReady pl)
     \<and> ((\<exists>b. ph = Settled b) \<or> (\<exists>pl \<in> set mid. settles pl))"
  using assms
proof (induction pls arbitrary: ph)
  case Nil
  then show ?case by (auto elim: in_progress.elims)
next
  case (Cons pl pls)
  then obtain ph' where step: "next_phase ph pl = Some ph'" and rest: "run_phases ph' pls = Some Ended"
    by (auto simp: bind_eq_Some_conv)
  from active_step [OF Cons.prems(2) step]
  consider (cancel) "ph' = Ended" "is_cancelled pl"
    | (check) "ph' = Validated" "is_validation pl" "\<exists>b. ph = Settled b"
    | (go) "in_progress ph'" "\<not> is_terminal pl" "\<not> is_validation pl" "\<not> is_PacketReady pl"
        "(\<exists>b. ph' = Settled b) \<longrightarrow> (\<exists>b. ph = Settled b) \<or> settles pl"
    by blast
  then show ?case
  proof cases
    case cancel
    then have "pls = []" using rest by (simp add: run_phases_Ended split: if_splits)
    with cancel Cons.prems(3) show ?thesis by simp
  next
    case check
    then obtain passed codes where "pl = Validation passed codes" by (cases pl) auto
    with check rest show ?thesis by (intro exI [of _ "[]"]) auto
  next
    case go
    then have "pls \<noteq> []" using rest by (auto elim: in_progress.elims)
    with Cons.prems(3) have "\<not> is_cancelled (last pls)" by simp
    from Cons.IH [OF rest go(1) this] obtain mid passed codes tail where
      ih: "pls = mid @ Validation passed codes # tail" "run_phases Validated tail = Some Ended"
        "\<forall>pl \<in> set mid. \<not> is_terminal pl \<and> \<not> is_validation pl \<and> \<not> is_PacketReady pl"
        "(\<exists>b. ph' = Settled b) \<or> (\<exists>pl \<in> set mid. settles pl)"
      by blast
    with go show ?thesis by (intro exI [of _ "pl # mid"]) auto
  qed
qed

text \<open>A run that waits for its packet to the end: reported attempts and a bare terminal.\<close>

lemma run_phases_waiting:
  assumes "run_phases (Waiting ids) pls = Some Ended" and "ids \<noteq> {} \<or> \<not> is_PacketReady (hd pls)"
  shows "\<exists>atts t. pls = map RoleAttempt atts @ [t] \<and> is_terminal t \<and> payload_result t = None
     \<and> list_all pre_packet_attempt_ok atts \<and> distinct (map att_role_slot_id atts)
     \<and> set (map att_role_slot_id atts) \<inter> ids = {}"
  using assms
proof (induction pls arbitrary: ids)
  case Nil
  then show ?case by simp
next
  case (Cons pl pls)
  then obtain ph' where step: "next_phase (Waiting ids) pl = Some ph'"
    and rest: "run_phases ph' pls = Some Ended"
    by (auto simp: bind_eq_Some_conv)
  show ?case
  proof (cases "is_terminal pl")
    case True
    then have "ph' = Ended" "payload_result pl = None"
      using step next_phase_terminal [OF step] by (cases pl; simp split: if_splits)+
    then have "pls = []" using rest by (simp add: run_phases_Ended split: if_splits)
    with True \<open>payload_result pl = None\<close> show ?thesis by (intro exI [of _ "[]"]) auto
  next
    case False
    with step Cons.prems(2) obtain a where a: "pl = RoleAttempt a" "pre_packet_attempt_ok a"
      "att_role_slot_id a \<notin> ids" "ph' = Waiting (insert (att_role_slot_id a) ids)"
      by (cases pl) (auto split: if_splits)
    from Cons.IH [OF rest [unfolded a(4)]] obtain atts t where
      "pls = map RoleAttempt atts @ [t]" "is_terminal t" "payload_result t = None"
      "list_all pre_packet_attempt_ok atts" "distinct (map att_role_slot_id atts)"
      "set (map att_role_slot_id atts) \<inter> insert (att_role_slot_id a) ids = {}"
      by auto
    with a show ?thesis by (intro exI [of _ "a # atts"] exI [of _ t]) auto
  qed
qed

lemma run_phases_packet_first:
  assumes "run_phases (Waiting {}) pls = Some Ended" and "is_PacketReady (hd pls)"
  shows "\<exists>pid digest n rest. pls = PacketReady pid digest n # rest
     \<and> run_phases Gathering rest = Some Ended"
  using assms
proof (cases pls)
  case (Cons pl rest)
  with assms show ?thesis by (cases pl) (auto simp: bind_eq_Some_conv)
qed simp

section \<open>The shape of an accepted replay\<close>

text \<open>An accepted replay whose terminal carries a result and is not a cancellation: packet,
  settled reconciliation, one checkpoint, at most one correction, terminal.\<close>

lemma replay_shape:
  assumes ok: "replay_validate S r = Inr u" and t: "ev_event (last (rp_events r)) = t"
    and res: "payload_result t = Some x" and nc: "\<not> is_cancelled t"
  shows "\<exists>pf pid digest n mid passed codes rest.
     map ev_event (rp_events r) =
       RunStarted (rp_request_fingerprint r) pf # PacketReady pid digest n
         # mid @ Validation passed codes # rest @ [t]
     \<and> (rest = [] \<or> (\<exists>applied codes'. rest = [Correction applied codes']))
     \<and> (\<forall>pl \<in> set mid. \<not> is_terminal pl \<and> \<not> is_validation pl \<and> \<not> is_PacketReady pl)
     \<and> (\<exists>pl \<in> set mid. settles pl)"
proof -
  from ok obtain e es pf where ev: "rp_events r = e # es"
    and st: "ev_event e = RunStarted (rp_request_fingerprint r) pf"
    and run: "run_phases (Waiting {}) (map ev_event es) = Some Ended"
    by (auto simp: replay_validate_iff)
  let ?pls = "map ev_event es"
  have ne: "?pls \<noteq> []" using run_phases_terminal [OF run] by simp
  have last: "last ?pls = t"
    using t ne by (simp add: ev last_map)
  have "is_PacketReady (hd ?pls)"
  proof (rule ccontr)
    assume "\<not> is_PacketReady (hd ?pls)"
    with run_phases_waiting [OF run] last res show False by fastforce
  qed
  then obtain pid digest n rest where p: "?pls = PacketReady pid digest n # rest"
    and g: "run_phases Gathering rest = Some Ended"
    using run_phases_packet_first [OF run] by auto
  have "rest \<noteq> []" using g by auto
  then have lr: "last rest = t"
    using last p by simp
  with nc have nc': "\<not> is_cancelled (last rest)" by simp
  have "in_progress Gathering" by simp
  from run_phases_checkpoint [OF g this nc'] obtain mid passed codes tail where m: "rest = mid @ Validation passed codes # tail"
    "run_phases Validated tail = Some Ended"
    "\<forall>pl \<in> set mid. \<not> is_terminal pl \<and> \<not> is_validation pl \<and> \<not> is_PacketReady pl"
    "\<exists>pl \<in> set mid. settles pl"
    by blast
  from m(2) lr m(1) obtain corr where corr: "tail = corr @ [t]"
    "corr = [] \<or> (\<exists>applied codes'. corr = [Correction applied codes'])"
    by (auto simp: run_phases_Validated)
  have "map ev_event (rp_events r) = RunStarted (rp_request_fingerprint r) pf
      # PacketReady pid digest n # mid @ Validation passed codes # corr @ [t]"
    using ev st p m(1) corr(1) by simp
  then show ?thesis using corr(2) m(3,4) by (intro exI conjI)
qed

end
