(* ===== verification/Btree_Map.thy ===== *)
theory Btree_Map
  imports Rust_Prelude "HOL-Library.Multiset"
begin

text \<open>
  \<open>std::collections::BTreeMap\<close> as a strictly sorted association list: \<open>insert\<close> replaces an
  equal key, \<open>get\<close> looks up, iteration is in key order.  The interface the clients rely on is
  the locale \<open>ordered_map\<close>, in which the loops that build a map from rows are reasoned
  about once; \<open>bt\<close> is its interpretation.
\<close>

type_synonym ('k, 'v) btree_map = "('k \<times> 'v) list"

fun bt_insert :: "'k::linorder \<Rightarrow> 'v \<Rightarrow> ('k, 'v) btree_map \<Rightarrow> ('k, 'v) btree_map" where
  "bt_insert k v [] = [(k, v)]"
| "bt_insert k v ((k', v') # m) =
     (if k < k' then (k, v) # (k', v') # m
      else if k = k' then (k, v) # m
      else (k', v') # bt_insert k v m)"

definition bt_get :: "('k, 'v) btree_map \<Rightarrow> 'k \<Rightarrow> 'v option" where
  "bt_get m k = map_of m k"

definition bt_keys :: "('k, 'v) btree_map \<Rightarrow> 'k list" where
  "bt_keys m = map fst m"

definition bt_values :: "('k, 'v) btree_map \<Rightarrow> 'v list" where
  "bt_values m = map snd m"

definition bt_wf :: "('k::linorder, 'v) btree_map \<Rightarrow> bool" where
  "bt_wf m \<longleftrightarrow> sorted_wrt (<) (map fst m)"

section \<open>The interface\<close>

locale ordered_map =
  fixes empty :: 'm
    and insert :: "'k::linorder \<Rightarrow> 'v \<Rightarrow> 'm \<Rightarrow> 'm"
    and get :: "'m \<Rightarrow> 'k \<Rightarrow> 'v option"
    and keys :: "'m \<Rightarrow> 'k list"
    and wf :: "'m \<Rightarrow> bool"
  assumes wf_empty: "wf empty"
    and get_empty: "get empty k = None"
    and wf_insert: "wf m \<Longrightarrow> wf (insert k v m)"
    and get_insert: "wf m \<Longrightarrow> get (insert k v m) = (get m)(k \<mapsto> v)"
    and keys_sorted: "wf m \<Longrightarrow> sorted_wrt (<) (keys m)"
    and keys_dom: "wf m \<Longrightarrow> set (keys m) = dom (get m)"
    and extensional: "wf m \<Longrightarrow> wf m' \<Longrightarrow> get m = get m' \<Longrightarrow> m = m'"
begin

lemma insert_commute:
  "wf m \<Longrightarrow> k \<noteq> k' \<Longrightarrow> insert k v (insert k' v' m) = insert k' v' (insert k v m)"
  by (rule extensional) (simp_all add: wf_insert get_insert fun_upd_twist)

lemma fold_insert_get:
  "wf m \<Longrightarrow> distinct (map f xs) \<Longrightarrow>
     wf (fold (\<lambda>x. insert (f x) (g x)) xs m) \<and>
     get (fold (\<lambda>x. insert (f x) (g x)) xs m) = get m ++ map_of (map (\<lambda>x. (f x, g x)) xs)"
proof (induction xs arbitrary: m)
  case Nil
  then show ?case by simp
next
  case (Cons x xs)
  let ?kv = "map (\<lambda>x. (f x, g x)) xs"
  have "f x \<notin> dom (map_of ?kv)"
    using Cons.prems(2) by (auto simp: dom_map_of_conv_image_fst)
  then have "get (insert (f x) (g x) m) ++ map_of ?kv = get m ++ map_of ((f x, g x) # ?kv)"
    using Cons.prems(1) by (simp add: get_insert map_add_upd_left del: fun_upd_apply)
  moreover have "distinct (map f xs)"
    using Cons.prems(2) by simp
  ultimately show ?case
    using Cons.IH [OF wf_insert [OF Cons.prems(1)], of "f x" "g x"]
    by (simp only: fold_simps list.map)
qed

lemma get_empty_fun: "get empty = Map.empty"
  by (rule ext) (rule get_empty)

lemma fold_insert_empty:
  assumes "distinct (map f xs)"
  shows "wf (fold (\<lambda>x. insert (f x) (g x)) xs empty)"
    and "get (fold (\<lambda>x. insert (f x) (g x)) xs empty) = map_of (map (\<lambda>x. (f x, g x)) xs)"
  using fold_insert_get [OF wf_empty assms, of g] by (simp_all add: get_empty_fun)

lemma fold_insert_eqI:
  assumes "distinct (map f xs)" and "distinct (map f' ys)"
    and "map_of (map (\<lambda>x. (f x, g x)) xs) = map_of (map (\<lambda>y. (f' y, g' y)) ys)"
  shows "fold (\<lambda>x. insert (f x) (g x)) xs empty = fold (\<lambda>y. insert (f' y) (g' y)) ys empty"
  using fold_insert_empty [OF assms(1), of g] fold_insert_empty [OF assms(2), of g'] assms(3)
  by (auto intro: extensional)

lemma fold_insert_perm:
  assumes "distinct (map f xs)" and "mset xs = mset ys"
  shows "fold (\<lambda>x. insert (f x) (g x)) xs empty = fold (\<lambda>x. insert (f x) (g x)) ys empty"
proof (rule fold_insert_eqI [OF assms(1)])
  show d: "distinct (map f ys)"
    using assms by (metis distinct_count_atmost_1 mset_map set_mset_mset)
  have kv: "distinct (map fst (map (\<lambda>x. (f x, g x)) zs)) \<longleftrightarrow> distinct (map f zs)" for zs
    by (simp add: comp_def)
  have "set (map (\<lambda>x. (f x, g x)) xs) = set (map (\<lambda>x. (f x, g x)) ys)"
    using assms(2) by (metis set_map set_mset_mset)
  then show "map_of (map (\<lambda>x. (f x, g x)) xs) = map_of (map (\<lambda>x. (f x, g x)) ys)"
    using map_of_inject_set [of "map (\<lambda>x. (f x, g x)) xs" "map (\<lambda>x. (f x, g x)) ys"] kv assms(1) d
    by simp
qed

end

section \<open>The sorted association list implements it\<close>

lemma bt_insert_keys: "set (map fst (bt_insert k v m)) = insert k (set (map fst m))"
  by (induction k v m rule: bt_insert.induct) auto

lemma bt_wf_insert: "bt_wf m \<Longrightarrow> bt_wf (bt_insert k v m)"
proof (induction k v m rule: bt_insert.induct)
  case (1 k v)
  then show ?case by (simp add: bt_wf_def)
next
  case (2 k v k' v' m)
  have "bt_wf (bt_insert k v m)" if "\<not> k < k'" "k \<noteq> k'"
    using 2 that by (simp add: bt_wf_def)
  moreover have "\<forall>x \<in> set (map fst (bt_insert k v m)). k' < x" if "\<not> k < k'" "k \<noteq> k'"
    unfolding bt_insert_keys using 2 that by (auto simp: bt_wf_def)
  ultimately show ?case
    using 2 by (auto simp: bt_wf_def)
qed

lemma bt_get_insert: "bt_wf m \<Longrightarrow> bt_get (bt_insert k v m) = (bt_get m)(k \<mapsto> v)"
proof (induction k v m rule: bt_insert.induct)
  case (1 k v)
  then show ?case by (simp add: bt_get_def)
next
  case (2 k v k' v' m)
  then show ?case by (auto simp: bt_get_def bt_wf_def fun_eq_iff)
qed

lemma bt_wf_distinct: "bt_wf m \<Longrightarrow> distinct (map fst m)"
  unfolding bt_wf_def by (induction m) auto

lemma bt_extensional:
  assumes "bt_wf m" and "bt_wf m'" and "bt_get m = bt_get m'"
  shows "m = m'"
proof -
  have "set m = set m'"
    using map_of_inject_set [OF bt_wf_distinct [OF assms(1)] bt_wf_distinct [OF assms(2)]]
      assms(3) by (simp add: bt_get_def fun_eq_iff)
  moreover have "inj_on fst (set m \<union> set m')"
    using calculation bt_wf_distinct [OF assms(1)] by (simp add: distinct_map)
  moreover have "sorted (map fst m)" "sorted (map fst m')"
    using assms(1,2) unfolding bt_wf_def by (simp_all add: strict_sorted_iff)
  ultimately show ?thesis
    using bt_wf_distinct [OF assms(1)] bt_wf_distinct [OF assms(2)]
      map_sorted_distinct_set_unique [of fst m m'] by blast
qed

interpretation bt: ordered_map "[]" bt_insert bt_get bt_keys bt_wf
proof unfold_locales
  show "bt_wf []" by (simp add: bt_wf_def)
  show "bt_get [] k = None" for k by (simp add: bt_get_def)
  show "bt_wf (bt_insert k v m)" if "bt_wf m" for k v m
    using that by (rule bt_wf_insert)
  show "bt_get (bt_insert k v m) = (bt_get m)(k \<mapsto> v)" if "bt_wf m" for k v m
    using that by (rule bt_get_insert)
  show "sorted_wrt (<) (bt_keys m)" if "bt_wf m" for m
    using that by (simp add: bt_wf_def bt_keys_def)
  show "set (bt_keys m) = dom (bt_get m)" if "bt_wf m" for m
    by (simp add: bt_keys_def bt_get_def [abs_def] dom_map_of_conv_image_fst)
  show "m = m'" if "bt_wf m" "bt_wf m'" "bt_get m = bt_get m'" for m m'
    using that by (rule bt_extensional)
qed

section \<open>Building a map is sorting\<close>

lemma sort_key_strict: "distinct (map f xs) \<Longrightarrow> sorted_wrt (<) (map f (sort_key f xs))"
proof -
  assume d: "distinct (map f xs)"
  have "mset (map f (sort_key f xs)) = mset (map f xs)" by (simp only: mset_map mset_sort)
  with d have "distinct (map f (sort_key f xs))" using mset_eq_imp_distinct_iff by blast
  then show ?thesis by (simp add: strict_sorted_iff)
qed

lemma sort_key_idem [simp]: "sort_key f (sort_key f xs) = sort_key f xs"
  by (rule properties_for_sort_key) simp_all

lemma sort_key_perm:
  assumes "distinct (map f xs)" and "mset xs = mset ys"
  shows "sort_key f xs = sort_key f ys"
  using assms by (intro sort_key_inj_key_eq) (auto simp: distinct_map)

text \<open>Inserting rows with distinct keys into the empty map lists them in key order.\<close>

lemma fold_insert_sort:
  assumes "distinct (map f xs)"
  shows "fold (\<lambda>x. bt_insert (f x) (g x)) xs [] = map (\<lambda>x. (f x, g x)) (sort_key f xs)"
proof (rule bt_extensional)
  let ?kv = "\<lambda>x. (f x, g x)"
  show "bt_wf (fold (\<lambda>x. bt_insert (f x) (g x)) xs [])"
    using bt.fold_insert_empty(1) [OF assms] .
  show wf: "bt_wf (map ?kv (sort_key f xs))"
    using sort_key_strict [OF assms] by (simp add: bt_wf_def comp_def)
  have "set (map ?kv (sort_key f xs)) = set (map ?kv xs)" by simp
  moreover have "distinct (map fst (map ?kv xs))" using assms by (simp add: comp_def)
  ultimately have "map_of (map ?kv (sort_key f xs)) = map_of (map ?kv xs)"
    using map_of_inject_set bt_wf_distinct [OF wf] by blast
  then show "bt_get (fold (\<lambda>x. bt_insert (f x) (g x)) xs []) = bt_get (map ?kv (sort_key f xs))"
    using bt.fold_insert_empty(2) [OF assms, of g] by (simp add: bt_get_def [abs_def])
qed

end
