(* ===== verification/Triage_Runtime.thy ===== *)
theory Triage_Runtime
  imports Triage_Order Btree_Map
begin

text \<open>
  The execution facade \<open>crates/cd-triage-runtime/src/lib.rs\<close>: canonical request
  fingerprints, the request-bound event sink, the dispatch guards of \<open>triage\<close> and
  \<open>triage_with_policy\<close>, the binding of a returned replay to its request, and cancellation.

  The host engine is the trait \<open>TriageEngine\<close>: a record of functions over a host state
  \<open>'s\<close> that every call may change, so that "the engine was not called" is "the host state is
  unchanged".  SHA-256 (crate \<open>sha2\<close>) is the argument \<open>H\<close>, from bytes to lower-case hex.
\<close>

section \<open>Canonical request identity\<close>

fun canonicalize_json :: "json \<Rightarrow> json" where
  "canonicalize_json (JArray vs) = JArray (map canonicalize_json vs)"
| "canonicalize_json (JObject kvs) =
     (let entries = map (\<lambda>kv. (fst kv, canonicalize_json (snd kv))) kvs;
          sorted_entries = sort_key fst entries
      in JObject (fold (\<lambda>kv. bt_insert (fst kv) (snd kv)) sorted_entries []))"
| "canonicalize_json scalar = scalar"

datatype TriageEngineFailureCategory =
    PreflightRejected | HostUnavailable | ExecutionFailed | DeadlineExceeded | EngineCancelled
  | InvalidEvent | CancellationFailed

record TriageEngineFailure =
  category :: TriageEngineFailureCategory

datatype TriageRuntimeError =
    InvalidRequest TriageContractError
  | InvalidCancellation TriageContractError
  | InvalidReplay TriageContractError
  | Canonicalization
  | StandardPolicyRequired
  | ConfiguredPolicyRequired
  | EventSinkRequestMismatch
  | ReplayRunIdentityMismatch
  | ReplayRequestFingerprintMismatch
  | TerminalResultRunIdentityMismatch
  | CancellationIdentityMismatch
  | CancellationRequestMismatch
  | PacketIdentityMismatch
  | StandardAttemptBindingMismatch
  | ReconciliationMismatch
  | ValidationResultMismatch
  | EngineError TriageEngineFailure

text \<open>\<open>fields.remove("run_id")\<close> on the serialized request.\<close>

definition fingerprint_validated_request ::
  "SerdeJson \<Rightarrow> (string \<Rightarrow> string) \<Rightarrow> TriageRequestV2 \<Rightarrow> (TriageRuntimeError, string) result" where
  "fingerprint_validated_request S H request =
     and_then (ok_or Canonicalization (request_to_value S request)) (\<lambda>v.
     case v of
       JObject kvs \<Rightarrow>
         if map_of kvs ''run_id'' = None then Inl Canonicalization
         else
           (let canonical = canonicalize_json (JObject (filter (\<lambda>kv. fst kv \<noteq> ''run_id'') kvs))
            in and_then (ok_or Canonicalization (value_to_vec S canonical)) (\<lambda>bytes.
               Inr (''sha256:'' @ H bytes)))
     | _ \<Rightarrow> Inl Canonicalization)"

definition canonical_request_fingerprint ::
  "SerdeJson \<Rightarrow> (string \<Rightarrow> string) \<Rightarrow> TriageRequestV2 \<Rightarrow> (TriageRuntimeError, string) result" where
  "canonical_request_fingerprint S H request =
     and_then (map_err InvalidRequest (request_validate S request)) (\<lambda>_.
     fingerprint_validated_request S H request)"

record ValidatedTriageRequest =
  vr_request :: TriageRequestV2
  vr_fingerprint :: string

definition validated_request_new ::
  "SerdeJson \<Rightarrow> (string \<Rightarrow> string) \<Rightarrow> TriageRequestV2
     \<Rightarrow> (TriageRuntimeError, ValidatedTriageRequest) result" where
  "validated_request_new S H request =
     and_then (map_err InvalidRequest (request_validate S request)) (\<lambda>_.
     and_then (fingerprint_validated_request S H request) (\<lambda>fp.
     Inr \<lparr>vr_request = request, vr_fingerprint = fp\<rparr>))"

section \<open>The event sink\<close>

text \<open>The host callback is modelled by the list of events it has been called with.\<close>

record TriageEventSink =
  sink_run_id :: string
  sink_request_fingerprint :: string
  next_sequence :: u64
  delivered :: "TriageRunEventV2 list"

definition sink_new :: "ValidatedTriageRequest \<Rightarrow> TriageEventSink" where
  "sink_new request =
     \<lparr>sink_run_id = req_run_id (vr_request request),
      sink_request_fingerprint = vr_fingerprint request, next_sequence = 0, delivered = []\<rparr>"

abbreviation invalid_event :: TriageEngineFailure where
  "invalid_event \<equiv> \<lparr>category = InvalidEvent\<rparr>"

definition sink_accepts :: "TriageEventSink \<Rightarrow> TriageRunEventV2 \<Rightarrow> bool" where
  "sink_accepts sink e =
     (case ev_event e of
        RunStarted rf pf \<Rightarrow> next_sequence sink = 0 \<and> rf = sink_request_fingerprint sink
      | _ \<Rightarrow> next_sequence sink \<noteq> 0)"

definition sink_emit ::
  "SerdeJson \<Rightarrow> TriageEventSink \<Rightarrow> TriageRunEventV2
     \<Rightarrow> TriageEventSink \<times> (TriageEngineFailure, unit) result" where
  "sink_emit S sink e =
     (case event_validate S e of
        Inl err \<Rightarrow> (sink, Inl invalid_event)
      | Inr u \<Rightarrow>
          if ev_run_id e \<noteq> sink_run_id sink \<or> ev_sequence e \<noteq> next_sequence sink
          then (sink, Inl invalid_event)
          else if \<not> sink_accepts sink e then (sink, Inl invalid_event)
          else
            (let sink' = sink\<lparr>delivered := delivered sink @ [e]\<rparr> in
             case checked_add (next_sequence sink) 1 of
               None \<Rightarrow> (sink', Inl invalid_event)
             | Some n \<Rightarrow> (sink'\<lparr>next_sequence := n\<rparr>, Inr ())))"

definition is_bound_to :: "TriageEventSink \<Rightarrow> ValidatedTriageRequest \<Rightarrow> bool" where
  "is_bound_to sink request \<longleftrightarrow>
     sink_run_id sink = req_run_id (vr_request request)
     \<and> sink_request_fingerprint sink = vr_fingerprint request
     \<and> next_sequence sink = 0"

section \<open>Terminals\<close>

datatype TriageExecutionTerminal =
    TerminalCompleted TriageResultV2
  | TerminalFailed string "TriageResultV2 option"
  | TerminalTimedOut string "TriageResultV2 option"
  | TerminalCancelled string "TriageResultV2 option"

record TriageExecution =
  ex_replay :: TriageReplayV1
  ex_terminal :: TriageExecutionTerminal

fun terminal_from_event ::
  "TriageRunEventPayloadV2 \<Rightarrow> (TriageRuntimeError, TriageExecutionTerminal) result" where
  "terminal_from_event (Completed r) = Inr (TerminalCompleted r)"
| "terminal_from_event (Failed c p) = Inr (TerminalFailed c p)"
| "terminal_from_event (TimedOut c p) = Inr (TerminalTimedOut c p)"
| "terminal_from_event (Cancelled c p) = Inr (TerminalCancelled c p)"
| "terminal_from_event _ = Inl (InvalidReplay (TerminalCount 0))"

fun terminal_result :: "TriageExecutionTerminal \<Rightarrow> TriageResultV2 option" where
  "terminal_result (TerminalCompleted r) = Some r"
| "terminal_result (TerminalFailed c p) = p"
| "terminal_result (TerminalTimedOut c p) = p"
| "terminal_result (TerminalCancelled c p) = p"

fun terminal_is_cancelled :: "TriageExecutionTerminal \<Rightarrow> bool" where
  "terminal_is_cancelled (TerminalCancelled c p) = True"
| "terminal_is_cancelled _ = False"

definition post_validation_interruption_downgrade ::
  "bool option \<Rightarrow> TriageExecutionTerminal \<Rightarrow> TriageResultV2 \<Rightarrow> bool" where
  "post_validation_interruption_downgrade validation_passed terminal r \<longleftrightarrow>
     (if validation_passed \<noteq> Some True \<or> res_validation_state r \<noteq> ValidationFailed
         \<or> res_answer r \<noteq> None \<or> res_accepted_evidence_ids r \<noteq> [] then False
      else case terminal of
        TerminalCancelled cid (Some p) \<Rightarrow> ''cancelled'' \<in> set (res_reason_codes r)
      | TerminalTimedOut cat (Some p) \<Rightarrow>
          cat = ''deadline'' \<and> ''deadline'' \<in> set (res_reason_codes r)
      | _ \<Rightarrow> False)"

section \<open>Binding a replay to its request\<close>

record cross_bindings =
  cb_packet_id :: "string option"
  cb_reconciliation :: "TriageReconciliationV1 option"
  cb_validation_passed :: "bool option"
  cb_standard_attempts :: nat

definition cross_init :: cross_bindings where
  "cross_init = \<lparr>cb_packet_id = None, cb_reconciliation = None, cb_validation_passed = None,
     cb_standard_attempts = 0\<rparr>"

fun standard_model :: "TriagePolicySelectionV2 \<Rightarrow> ModelRef option" where
  "standard_model (Standard model) = Some model"
| "standard_model _ = None"

definition cross_step ::
  "ModelRef option \<Rightarrow> cross_bindings \<Rightarrow> TriageRunEventPayloadV2
     \<Rightarrow> (TriageRuntimeError, cross_bindings) result" where
  "cross_step std cb pl =
     (case pl of
        PacketReady ready digest n \<Rightarrow> Inr (cb\<lparr>cb_packet_id := Some ready\<rparr>)
      | RoleAttempt attempt \<Rightarrow>
          if std = None then Inr cb
          else if att_role attempt \<noteq> Finalizer \<or> att_role_slot_id attempt \<noteq> ''standard-finalizer''
             \<or> att_model attempt \<noteq> std
          then Inl StandardAttemptBindingMismatch
          else Inr (cb\<lparr>cb_standard_attempts := cb_standard_attempts cb + 1\<rparr>)
      | Reconciliation summary \<Rightarrow> Inr (cb\<lparr>cb_reconciliation := Some summary\<rparr>)
      | PreliminaryReconciliation summary \<Rightarrow> Inr (cb\<lparr>cb_reconciliation := Some summary\<rparr>)
      | FinalReconciliation summary \<Rightarrow> Inr (cb\<lparr>cb_reconciliation := Some summary\<rparr>)
      | Validation passed codes \<Rightarrow> Inr (cb\<lparr>cb_validation_passed := Some passed\<rparr>)
      | _ \<Rightarrow> Inr cb)"

definition validation_mismatch :: "bool option \<Rightarrow> TriageResultV2 \<Rightarrow> bool" where
  "validation_mismatch validation_passed r \<longleftrightarrow>
     (let result_passed = (res_validation_state r = ValidationPassed) in
      (case validation_passed of Some passed \<Rightarrow> passed \<noteq> result_passed | None \<Rightarrow> False)
      \<or> (validation_passed = None \<and> result_passed))"

definition validate_cross_event_bindings ::
  "ValidatedTriageRequest \<Rightarrow> TriageReplayV1 \<Rightarrow> TriageExecutionTerminal
     \<Rightarrow> (TriageRuntimeError, unit) result" where
  "validate_cross_event_bindings request replay terminal =
     (let std = standard_model (req_policy (vr_request request)) in
      and_then (try_fold (cross_step std) cross_init (map ev_event (rp_events replay))) (\<lambda>cb.
      if std \<noteq> None \<and> (cb_standard_attempts cb > 1
           \<or> cb_standard_attempts cb \<noteq> 1 \<and> \<not> terminal_is_cancelled terminal)
      then Inl StandardAttemptBindingMismatch
      else case terminal_result terminal of
        None \<Rightarrow> Inr ()
      | Some r \<Rightarrow>
          if cb_packet_id cb \<noteq> Some (res_packet_id r) then Inl PacketIdentityMismatch
          else if (case cb_reconciliation cb of None \<Rightarrow> False
                   | Some summary \<Rightarrow> summary \<noteq> res_reconciliation r)
          then Inl ReconciliationMismatch
          else if validation_mismatch (cb_validation_passed cb) r
             \<and> \<not> post_validation_interruption_downgrade (cb_validation_passed cb) terminal r
          then Inl ValidationResultMismatch
          else Inr ()))"

definition replay_validated ::
  "SerdeJson \<Rightarrow> ValidatedTriageRequest \<Rightarrow> TriageReplayV1 \<Rightarrow> (TriageRuntimeError, TriageExecution) result"
  where
  "replay_validated S request replay =
     and_then (map_err InvalidReplay (replay_validate S replay)) (\<lambda>_.
     if rp_run_id replay \<noteq> req_run_id (vr_request request) then Inl ReplayRunIdentityMismatch
     else if rp_request_fingerprint replay \<noteq> vr_fingerprint request
     then Inl ReplayRequestFingerprintMismatch
     else if rp_events replay = [] then Inl (InvalidReplay EmptyReplay)
     else and_then (terminal_from_event (ev_event (last (rp_events replay)))) (\<lambda>terminal.
     if (case terminal_result terminal of None \<Rightarrow> False
         | Some r \<Rightarrow> res_run_id r \<noteq> req_run_id (vr_request request))
     then Inl TerminalResultRunIdentityMismatch
     else if (case terminal of
                TerminalCancelled cid p \<Rightarrow> cid \<noteq> req_cancellation_id (vr_request request)
              | _ \<Rightarrow> False)
     then Inl CancellationIdentityMismatch
     else and_then (validate_cross_event_bindings request replay terminal) (\<lambda>_.
     Inr \<lparr>ex_replay = replay, ex_terminal = terminal\<rparr>)))"

definition replay_request ::
  "SerdeJson \<Rightarrow> (string \<Rightarrow> string) \<Rightarrow> TriageRequestV2 \<Rightarrow> TriageReplayV1
     \<Rightarrow> (TriageRuntimeError, TriageExecution) result" where
  "replay_request S H request replay =
     and_then (validated_request_new S H request) (\<lambda>vr. replay_validated S vr replay)"

section \<open>Dispatch to the host engine\<close>

record ('s, 'p) TriageEngine =
  eng_preflight :: "'s \<Rightarrow> ValidatedTriageRequest \<Rightarrow> 's \<times> (TriageEngineFailure, 'p) result"
  eng_execute :: "'s \<Rightarrow> ValidatedTriageRequest \<Rightarrow> 'p \<Rightarrow> TriageEventSink option
     \<Rightarrow> 's \<times> (TriageEngineFailure, TriageReplayV1) result"
  eng_cancel :: "'s \<Rightarrow> TriageCancellationV1 \<Rightarrow> 's \<times> (TriageEngineFailure, unit) result"

definition execute_preflighted ::
  "SerdeJson \<Rightarrow> ('s, 'p) TriageEngine \<Rightarrow> 's \<Rightarrow> ValidatedTriageRequest \<Rightarrow> TriageEventSink option
     \<Rightarrow> 's \<times> (TriageRuntimeError, TriageExecution) result" where
  "execute_preflighted S engine s request events =
     (if (case events of None \<Rightarrow> False | Some sink \<Rightarrow> \<not> is_bound_to sink request)
      then (s, Inl EventSinkRequestMismatch)
      else case eng_preflight engine s request of
        (s1, Inl f) \<Rightarrow> (s1, Inl (EngineError f))
      | (s1, Inr preflight) \<Rightarrow>
          (case eng_execute engine s1 request preflight events of
             (s2, Inl f) \<Rightarrow> (s2, Inl (EngineError f))
           | (s2, Inr replay) \<Rightarrow> (s2, replay_validated S request replay)))"

definition triage ::
  "SerdeJson \<Rightarrow> (string \<Rightarrow> string) \<Rightarrow> ('s, 'p) TriageEngine \<Rightarrow> 's \<Rightarrow> TriageRequestV2
     \<Rightarrow> TriageEventSink option \<Rightarrow> 's \<times> (TriageRuntimeError, TriageExecution) result" where
  "triage S H engine s request events =
     (case validated_request_new S H request of
        Inl err \<Rightarrow> (s, Inl err)
      | Inr vr \<Rightarrow>
          if standard_model (req_policy (vr_request vr)) = None
          then (s, Inl StandardPolicyRequired)
          else execute_preflighted S engine s vr events)"

definition triage_with_policy ::
  "SerdeJson \<Rightarrow> (string \<Rightarrow> string) \<Rightarrow> ('s, 'p) TriageEngine \<Rightarrow> 's \<Rightarrow> TriageRequestV2
     \<Rightarrow> TriageEventSink option \<Rightarrow> 's \<times> (TriageRuntimeError, TriageExecution) result" where
  "triage_with_policy S H engine s request events =
     (case validated_request_new S H request of
        Inl err \<Rightarrow> (s, Inl err)
      | Inr vr \<Rightarrow>
          if standard_model (req_policy (vr_request vr)) \<noteq> None
          then (s, Inl ConfiguredPolicyRequired)
          else execute_preflighted S engine s vr events)"

definition cancel ::
  "('s, 'p) TriageEngine \<Rightarrow> 's \<Rightarrow> ValidatedTriageRequest \<Rightarrow> TriageCancellationV1
     \<Rightarrow> 's \<times> (TriageRuntimeError, unit) result" where
  "cancel engine s request cancellation =
     (case cancellation_validate cancellation of
        Inl err \<Rightarrow> (s, Inl (InvalidCancellation err))
      | Inr u \<Rightarrow>
          if can_run_id cancellation \<noteq> req_run_id (vr_request request)
             \<or> can_cancellation_id cancellation \<noteq> req_cancellation_id (vr_request request)
          then (s, Inl CancellationRequestMismatch)
          else case eng_cancel engine s cancellation of
            (s1, Inl f) \<Rightarrow> (s1, Inl (EngineError f))
          | (s1, Inr u) \<Rightarrow> (s1, Inr ()))"

section \<open>Canonical forms decide equality up to key order\<close>

text \<open>A JSON document as \<open>serde_json\<close> holds it: no object has a key twice.\<close>

fun json_wf :: "json \<Rightarrow> bool" where
  "json_wf (JArray vs) \<longleftrightarrow> (\<forall>v \<in> set vs. json_wf v)"
| "json_wf (JObject kvs) \<longleftrightarrow> distinct (map fst kvs) \<and> (\<forall>kv \<in> set kvs. json_wf (snd kv))"
| "json_wf scalar \<longleftrightarrow> True"

fun is_scalar :: "json \<Rightarrow> bool" where
  "is_scalar (JArray vs) = False"
| "is_scalar (JObject kvs) = False"
| "is_scalar v = True"

text \<open>The specification: the same document, the entries of its objects in any order.\<close>

inductive json_equiv :: "json \<Rightarrow> json \<Rightarrow> bool" where
  equiv_scalar: "is_scalar v \<Longrightarrow> json_equiv v v"
| equiv_array: "length vs = length ws \<Longrightarrow> (\<And>i. i < length vs \<Longrightarrow> json_equiv (vs ! i) (ws ! i))
     \<Longrightarrow> json_equiv (JArray vs) (JArray ws)"
| equiv_object: "dom (map_of kvs) = dom (map_of lws)
     \<Longrightarrow> (\<And>k v w. map_of kvs k = Some v \<Longrightarrow> map_of lws k = Some w \<Longrightarrow> json_equiv v w)
     \<Longrightarrow> json_equiv (JObject kvs) (JObject lws)"

lemma canonicalize_scalar: "is_scalar v \<Longrightarrow> canonicalize_json v = v"
  by (cases v) auto

lemma canonicalize_object:
  assumes "distinct (map fst kvs)"
  shows "\<exists>m. canonicalize_json (JObject kvs) = JObject m \<and> bt_wf m
     \<and> bt_get m = map_option canonicalize_json \<circ> map_of kvs"
proof -
  let ?f = "\<lambda>kv. (fst kv, canonicalize_json (snd kv))"
  let ?es = "sort_key fst (map ?f kvs)"
  have fst_map: "map fst (map ?f kvs) = map fst kvs" by simp
  have "mset (map fst ?es) = mset (map fst (map ?f kvs))"
    by (simp only: mset_map mset_sort)
  then have d: "distinct (map fst ?es)"
    using assms fst_map mset_eq_imp_distinct_iff by metis
  have m: "map_of (map ?f xs) = map_option canonicalize_json \<circ> map_of xs" for xs
    by (induction xs) (auto simp: fun_eq_iff)
  have "map_of ?es = map_of (map ?f kvs)"
    using map_of_inject_set [of ?es "map ?f kvs"] d assms by (simp add: comp_def)
  then show ?thesis
    using bt.fold_insert_empty [OF d, of snd] by (auto simp: m Let_def)
qed

lemma canonicalize_object_get:
  assumes "distinct (map fst kvs)" and "canonicalize_json (JObject kvs) = JObject m"
  shows "bt_wf m" and "bt_get m = map_option canonicalize_json \<circ> map_of kvs"
  using canonicalize_object [OF assms(1)] assms(2) by auto

lemma equiv_canonicalize:
  "json_equiv v w \<Longrightarrow> json_wf v \<Longrightarrow> json_wf w \<Longrightarrow> canonicalize_json v = canonicalize_json w"
proof (induction rule: json_equiv.induct)
  case (equiv_scalar v)
  show ?case ..
next
  case (equiv_array vs ws)
  have "canonicalize_json (vs ! i) = canonicalize_json (ws ! i)" if "i < length vs" for i
    using equiv_array that by simp
  then show ?case
    using equiv_array.hyps(1) by (auto intro: nth_equalityI)
next
  case (equiv_object kvs lws)
  have dk: "distinct (map fst kvs)" and dl: "distinct (map fst lws)"
    using equiv_object.prems by auto
  obtain m where m: "canonicalize_json (JObject kvs) = JObject m"
    using canonicalize_object [OF dk] by blast
  obtain n where n: "canonicalize_json (JObject lws) = JObject n"
    using canonicalize_object [OF dl] by blast
  have "bt_get m k = bt_get n k" for k
  proof (cases "map_of kvs k")
    case None
    then have "map_of lws k = None" using equiv_object.hyps(1) by (metis domIff)
    with None show ?thesis
      using canonicalize_object_get(2) [OF dk m] canonicalize_object_get(2) [OF dl n] by simp
  next
    case (Some v)
    then obtain w where w: "map_of lws k = Some w" using equiv_object.hyps(1) by (metis domD domI)
    have "json_wf v" "json_wf w"
      using Some w equiv_object.prems by (auto dest!: map_of_SomeD)
    then show ?thesis
      using equiv_object.IH [OF Some w] Some w
        canonicalize_object_get(2) [OF dk m] canonicalize_object_get(2) [OF dl n] by simp
  qed
  then have "m = n"
    using bt_extensional canonicalize_object_get(1) [OF dk m] canonicalize_object_get(1) [OF dl n]
    by blast
  with m n show ?case by simp
qed

lemma canonicalize_kind:
  "canonicalize_json v = JArray ws \<Longrightarrow> \<exists>vs. v = JArray vs \<and> ws = map canonicalize_json vs"
  "canonicalize_json v = JObject m \<Longrightarrow> \<exists>kvs. v = JObject kvs"
  "is_scalar (canonicalize_json v) \<Longrightarrow> is_scalar v"
  by (cases v; simp add: Let_def)+

lemma canonicalize_scalar_equiv:
  "is_scalar v \<Longrightarrow> canonicalize_json v = canonicalize_json w \<Longrightarrow> json_equiv v w"
  using canonicalize_scalar canonicalize_kind(3) equiv_scalar by metis

lemma canonicalize_equiv:
  "json_wf v \<Longrightarrow> json_wf w \<Longrightarrow> canonicalize_json v = canonicalize_json w \<Longrightarrow> json_equiv v w"
proof (induction v arbitrary: w rule: canonicalize_json.induct)
  case (1 vs)
  from "1.prems"(3) have "canonicalize_json w = JArray (map canonicalize_json vs)" by simp
  then obtain ws where w: "w = JArray ws" and ws: "map canonicalize_json vs = map canonicalize_json ws"
    using canonicalize_kind(1) [of w] by blast
  have len: "length vs = length ws" using ws by (metis length_map)
  have "json_equiv (vs ! i) (ws ! i)" if i: "i < length vs" for i
  proof (rule "1.IH")
    show "vs ! i \<in> set vs" using i by simp
    show "json_wf (vs ! i)" "json_wf (ws ! i)" using "1.prems" w i len by auto
    show "canonicalize_json (vs ! i) = canonicalize_json (ws ! i)"
      using ws i len by (metis nth_map)
  qed
  then show ?case unfolding w using len by (rule equiv_array [rotated])
next
  case (2 kvs)
  have dk: "distinct (map fst kvs)" using "2.prems" by simp
  obtain m where m: "canonicalize_json (JObject kvs) = JObject m"
    using canonicalize_object [OF dk] by blast
  then obtain lws where w: "w = JObject lws"
    using "2.prems"(3) canonicalize_kind(2) [of w m] by auto
  have dl: "distinct (map fst lws)" and n: "canonicalize_json (JObject lws) = JObject m"
    using "2.prems" w m by auto
  have eq: "map_option canonicalize_json (map_of kvs k) = map_option canonicalize_json (map_of lws k)" for k
    using canonicalize_object_get(2) [OF dk m] canonicalize_object_get(2) [OF dl n]
    by (metis comp_apply)
  show ?case
    unfolding w
  proof (rule equiv_object)
    show "dom (map_of kvs) = dom (map_of lws)"
      using eq by (auto simp: dom_def) (metis option.map_disc_iff option.exhaust_sel)+
  next
    fix k v u
    assume v: "map_of kvs k = Some v" and u: "map_of lws k = Some u"
    have kv: "(k, v) \<in> set kvs" "(k, u) \<in> set lws" using v u by (auto dest: map_of_SomeD)
    show "json_equiv v u"
    proof (rule "2.IH" [of "(k, v)", simplified])
      show "(k, v) \<in> set kvs" by (rule kv)
      show "json_wf v" "json_wf u" using "2.prems" w kv by auto
      show "canonicalize_json v = canonicalize_json u" using eq [of k] v u by simp
    qed
  qed
qed (erule canonicalize_scalar_equiv [rotated], simp)+

section \<open>The event sink keeps its stream contiguous\<close>

definition sink_inv :: "SerdeJson \<Rightarrow> ValidatedTriageRequest \<Rightarrow> TriageEventSink \<Rightarrow> bool" where
  "sink_inv S request sink \<longleftrightarrow>
     sink_run_id sink = req_run_id (vr_request request)
     \<and> sink_request_fingerprint sink = vr_fingerprint request
     \<and> unat (next_sequence sink) = min (length (delivered sink)) (2 ^ 64 - 1)
     \<and> (\<forall>i < length (delivered sink).
          event_validate S (delivered sink ! i) = Inr ()
          \<and> ev_run_id (delivered sink ! i) = req_run_id (vr_request request)
          \<and> unat (ev_sequence (delivered sink ! i)) = min i (2 ^ 64 - 1)
          \<and> (i = 0 \<longrightarrow> (\<exists>pf. ev_event (delivered sink ! i) = RunStarted (vr_fingerprint request) pf))
          \<and> (i > 0 \<longrightarrow> \<not> is_RunStarted (ev_event (delivered sink ! i))))"

lemma sink_inv_new: "sink_inv S request (sink_new request)"
  by (simp add: sink_inv_def sink_new_def)

lemma sink_accepts_cases:
  "sink_accepts sink e \<longleftrightarrow>
     (\<exists>pf. ev_event e = RunStarted (sink_request_fingerprint sink) pf) \<and> next_sequence sink = 0
     \<or> \<not> is_RunStarted (ev_event e) \<and> next_sequence sink \<noteq> 0"
  by (auto simp: sink_accepts_def is_RunStarted_def split: TriageRunEventPayloadV2.splits)

lemma sink_emit_inv:
  assumes inv: "sink_inv S request sink"
  shows "sink_inv S request (fst (sink_emit S sink e))"
proof (cases "event_validate S e = Inr () \<and> ev_run_id e = sink_run_id sink
    \<and> ev_sequence e = next_sequence sink \<and> sink_accepts sink e")
  case False
  then have "fst (sink_emit S sink e) = sink"
    by (cases "event_validate S e") (auto simp: sink_emit_def)
  with inv show ?thesis by simp
next
  case True
  let ?n = "length (delivered sink)"
  have seq: "unat (next_sequence sink) = min ?n (2 ^ 64 - 1)"
    using inv by (simp add: sink_inv_def)
  have "next_sequence sink = 0 \<longleftrightarrow> unat (next_sequence sink) = 0" by (simp add: unat_0_iff)
  also have "\<dots> \<longleftrightarrow> ?n = 0" unfolding seq by (auto simp: min_def)
  finally have zero: "next_sequence sink = 0 \<longleftrightarrow> ?n = 0" .
  let ?s' = "sink\<lparr>delivered := delivered sink @ [e]\<rparr>"
  obtain n' where s': "fst (sink_emit S sink e) = ?s'\<lparr>next_sequence := n'\<rparr>"
    and n': "unat n' = min (Suc ?n) (2 ^ 64 - 1)"
  proof (cases "unat (next_sequence sink) + 1 < 2 ^ 64")
    case True
    then have "unat (next_sequence sink + 1) = unat (next_sequence sink) + 1"
      by (simp add: unat_word_ariths)
    then show ?thesis
      using that [of "next_sequence sink + 1"] \<open>event_validate S e = Inr () \<and> _\<close> True seq
      by (auto simp: sink_emit_def checked_add_def)
  next
    case False
    then show ?thesis
      using that [of "next_sequence sink"] \<open>event_validate S e = Inr () \<and> _\<close> seq
      by (auto simp: sink_emit_def checked_add_def)
  qed
  show ?thesis
    using inv True zero seq n' unfolding s' sink_inv_def sink_accepts_cases
    by (auto simp: nth_append less_Suc_eq)
qed

interpretation sink: step_machine "\<lambda>k e. fst (sink_emit S k e)" "sink_inv S request"
  for S request
  by unfold_locales (rule sink_emit_inv)

section \<open>What a bound execution guarantees\<close>

text \<open>The bindings the loop collects, read off the payload list.\<close>

fun packet_id_of :: "TriageRunEventPayloadV2 \<Rightarrow> string option" where
  "packet_id_of (PacketReady ready digest n) = Some ready"
| "packet_id_of _ = None"

fun checkpoint_of :: "TriageRunEventPayloadV2 \<Rightarrow> bool option" where
  "checkpoint_of (Validation passed codes) = Some passed"
| "checkpoint_of _ = None"

fun summary_of :: "TriageRunEventPayloadV2 \<Rightarrow> TriageReconciliationV1 option" where
  "summary_of (Reconciliation s) = Some s"
| "summary_of (PreliminaryReconciliation s) = Some s"
| "summary_of (FinalReconciliation s) = Some s"
| "summary_of _ = None"

fun attempt_of :: "TriageRunEventPayloadV2 \<Rightarrow> TriageRoleAttemptV1 option" where
  "attempt_of (RoleAttempt a) = Some a"
| "attempt_of _ = None"

definition last_or :: "'a option \<Rightarrow> 'a list \<Rightarrow> 'a option" where
  "last_or d xs = (if xs = [] then d else Some (last xs))"

lemma last_or_simps [simp]:
  "last_or d [] = d" "last_or d (x # xs) = last_or (Some x) xs"
  by (simp_all add: last_or_def)

definition standard_attempt :: "ModelRef option \<Rightarrow> TriageRoleAttemptV1 \<Rightarrow> bool" where
  "standard_attempt std a \<longleftrightarrow>
     att_role a = Finalizer \<and> att_role_slot_id a = ''standard-finalizer'' \<and> att_model a = std"

lemma cross_fold:
  "try_fold (cross_step std) cb pls = Inr cb' \<Longrightarrow>
     cb_packet_id cb' = last_or (cb_packet_id cb) (List.map_filter packet_id_of pls)
   \<and> cb_validation_passed cb' = last_or (cb_validation_passed cb) (List.map_filter checkpoint_of pls)
   \<and> cb_reconciliation cb' = last_or (cb_reconciliation cb) (List.map_filter summary_of pls)
   \<and> (std \<noteq> None \<longrightarrow> list_all (standard_attempt std) (List.map_filter attempt_of pls)
        \<and> cb_standard_attempts cb' = cb_standard_attempts cb + length (List.map_filter attempt_of pls))"
proof (induction pls arbitrary: cb)
  case Nil
  then show ?case by (simp add: map_filter_simps)
next
  case (Cons pl pls)
  then obtain cb1 where s: "cross_step std cb pl = Inr cb1"
    and r: "try_fold (cross_step std) cb1 pls = Inr cb'"
    by (auto split: sum.splits)
  show ?case
    using Cons.IH [OF r] s
    by (cases pl) (auto simp: cross_step_def map_filter_simps standard_attempt_def split: if_splits)
qed

lemma terminal_from_event_ok:
  "terminal_from_event pl = Inr t \<Longrightarrow>
     is_terminal pl \<and> terminal_result t = payload_result pl
     \<and> terminal_is_cancelled t = is_cancelled pl"
  by (cases pl) auto

lemma replay_validated_ok:
  assumes "replay_validated S request replay = Inr ex"
  shows "replay_validate S replay = Inr ()"
    and "rp_run_id replay = req_run_id (vr_request request)"
    and "rp_request_fingerprint replay = vr_fingerprint request"
    and "ex_replay ex = replay"
    and "terminal_from_event (ev_event (last (rp_events replay))) = Inr (ex_terminal ex)"
    and "terminal_result (ex_terminal ex) = Some r \<Longrightarrow> res_run_id r = req_run_id (vr_request request)"
    and "ex_terminal ex = TerminalCancelled cid p \<Longrightarrow> cid = req_cancellation_id (vr_request request)"
    and "validate_cross_event_bindings request replay (ex_terminal ex) = Inr ()"
  using assms by (auto simp: replay_validated_def split: if_splits)

lemma bindings_ok:
  assumes "validate_cross_event_bindings request replay terminal = Inr u"
  defines "pls \<equiv> map ev_event (rp_events replay)"
    and "std \<equiv> standard_model (req_policy (vr_request request))"
  shows "std \<noteq> None \<Longrightarrow> list_all (standard_attempt std) (List.map_filter attempt_of pls)"
    and "std \<noteq> None \<Longrightarrow> length (List.map_filter attempt_of pls) \<le> 1"
    and "std \<noteq> None \<Longrightarrow> \<not> terminal_is_cancelled terminal
      \<Longrightarrow> length (List.map_filter attempt_of pls) = 1"
    and "terminal_result terminal = Some r
      \<Longrightarrow> last_or None (List.map_filter packet_id_of pls) = Some (res_packet_id r)"
    and "terminal_result terminal = Some r
      \<Longrightarrow> last_or None (List.map_filter summary_of pls) \<in> {None, Some (res_reconciliation r)}"
    and "terminal_result terminal = Some r
      \<Longrightarrow> validation_mismatch (last_or None (List.map_filter checkpoint_of pls)) r
      \<Longrightarrow> post_validation_interruption_downgrade
            (last_or None (List.map_filter checkpoint_of pls)) terminal r"
proof -
  from assms(1) obtain cb where fold: "try_fold (cross_step std) cross_init pls = Inr cb"
    by (auto simp: validate_cross_event_bindings_def Let_def pls_def std_def)
  note cb = cross_fold [OF fold, unfolded cross_init_def, simplified]
  note rest = assms(1) [unfolded validate_cross_event_bindings_def Let_def, folded pls_def std_def,
      simplified fold and_then_def, simplified]
  show "std \<noteq> None \<Longrightarrow> list_all (standard_attempt std) (List.map_filter attempt_of pls)"
    using cb by blast
  show "std \<noteq> None \<Longrightarrow> length (List.map_filter attempt_of pls) \<le> 1"
    using cb rest by (auto split: if_splits)
  show "std \<noteq> None \<Longrightarrow> \<not> terminal_is_cancelled terminal
      \<Longrightarrow> length (List.map_filter attempt_of pls) = 1"
    using cb rest by (auto split: if_splits)
  show "terminal_result terminal = Some r
      \<Longrightarrow> last_or None (List.map_filter packet_id_of pls) = Some (res_packet_id r)"
    using cb rest by (auto split: if_splits)
  show "terminal_result terminal = Some r
      \<Longrightarrow> last_or None (List.map_filter summary_of pls) \<in> {None, Some (res_reconciliation r)}"
    using cb rest by (auto split: if_splits option.splits)
  show "terminal_result terminal = Some r
      \<Longrightarrow> validation_mismatch (last_or None (List.map_filter checkpoint_of pls)) r
      \<Longrightarrow> post_validation_interruption_downgrade
            (last_or None (List.map_filter checkpoint_of pls)) terminal r"
    using cb rest by (auto split: if_splits)
qed

lemma map_filter_append: "List.map_filter f (xs @ ys) = List.map_filter f xs @ List.map_filter f ys"
  by (simp add: List.map_filter_def)

lemma map_filter_None: "(\<And>x. x \<in> set xs \<Longrightarrow> f x = None) \<Longrightarrow> List.map_filter f xs = []"
  by (induction xs) (simp_all add: map_filter_simps)

lemma packet_id_of_None: "\<not> is_PacketReady pl \<Longrightarrow> packet_id_of pl = None"
  by (cases pl) simp_all

lemma checkpoint_of_None: "\<not> is_validation pl \<Longrightarrow> checkpoint_of pl = None"
  by (cases pl) simp_all

text \<open>A result that passed validation is only ever delivered by a completed run, and that
  run's only checkpoint passed.\<close>

lemma bound_grounded:
  assumes ok: "replay_validated S request replay = Inr ex"
    and res: "terminal_result (ex_terminal ex) = Some r" and kind: "res_kind r = GroundedFinal"
  shows "ex_terminal ex = TerminalCompleted r
     \<and> (\<exists>pf digest n mid codes rest.
          map ev_event (rp_events replay) =
            RunStarted (vr_fingerprint request) pf # PacketReady (res_packet_id r) digest n
              # mid @ Validation True codes # rest @ [Completed r]
          \<and> (rest = [] \<or> (\<exists>applied codes'. rest = [Correction applied codes']))
          \<and> (\<forall>pl \<in> set mid. \<not> is_terminal pl \<and> \<not> is_validation pl \<and> \<not> is_PacketReady pl)
          \<and> (\<exists>pl \<in> set mid. settles pl))"
proof -
  note rv = replay_validated_ok [OF ok]
  let ?t = "ev_event (last (rp_events replay))"
  from rv(1) obtain e es where ev: "rp_events replay = e # es"
    and evs: "events_ok S (rp_run_id replay) 0 (rp_events replay)"
    by (auto simp: replay_validate_iff)
  have last_in: "last (rp_events replay) \<in> set (rp_events replay)" using ev by simp
  have pr: "payload_result ?t = Some r"
    using terminal_from_event_ok [OF rv(5)] res by simp
  have "event_validate S (last (rp_events replay)) = Inr ()"
    using evs last_in by (auto simp: events_ok_def event_ok_def in_set_conv_nth)
  then have pv: "payload_validate S (ev_run_id (last (rp_events replay))) ?t = Inr ()"
    by (rule event_validate_payload)
  have rok: "result_validate S r = Inr ()"
    using payload_validate_result [OF pv pr] by simp
  have t: "?t = Completed r"
    using pv pr kind by (cases ?t) (auto simp: validate_terminal_partial_ok)
  obtain pf pid digest n mid passed codes rest where shape:
    "map ev_event (rp_events replay) = RunStarted (vr_fingerprint request) pf
       # PacketReady pid digest n # mid @ Validation passed codes # rest @ [Completed r]"
    "rest = [] \<or> (\<exists>applied codes'. rest = [Correction applied codes'])"
    "\<forall>pl \<in> set mid. \<not> is_terminal pl \<and> \<not> is_validation pl \<and> \<not> is_PacketReady pl"
    "\<exists>pl \<in> set mid. settles pl"
  proof -
    have "payload_result (Completed r) = Some r" "\<not> is_cancelled (Completed r)" by simp_all
    from replay_shape [OF rv(1) t this, unfolded rv(3)] show thesis
      by (elim exE conjE) (rule that)
  qed
  let ?pls = "map ev_event (rp_events replay)"
  have corr: "List.map_filter packet_id_of rest = []" "List.map_filter checkpoint_of rest = []"
    using shape(2) by (auto simp: map_filter_simps)
  have "List.map_filter packet_id_of ?pls = [pid]"
    using shape(3) corr map_filter_None [of mid packet_id_of]
    by (simp add: shape(1) map_filter_append map_filter_simps packet_id_of_None)
  then have pid: "pid = res_packet_id r" using bindings_ok(4) [OF rv(8) res] by simp
  have cp: "List.map_filter checkpoint_of ?pls = [passed]"
    using shape(3) corr map_filter_None [of mid checkpoint_of]
    by (simp add: shape(1) map_filter_append map_filter_simps checkpoint_of_None)
  have ex: "ex_terminal ex = TerminalCompleted r" using rv(5) t by simp
  have passed
    using bindings_ok(6) [OF rv(8) res] cp result_validate_grounded(1) [OF rok kind] ex
    by (auto simp: validation_mismatch_def post_validation_interruption_downgrade_def)
  with ex shape pid show ?thesis by (intro conjI) (assumption, intro exI conjI, simp_all)
qed

end
