(* ===== verification/Triage_Properties.thy ===== *)
theory Triage_Properties
  imports Triage_Runtime
begin

text \<open>
  The properties of the triage contract and its execution facade, each with a witness on one
  concrete run.  The values named \<open>demo_...\<close> are that run: a request under the Standard
  policy, the replay of its execution, the replay of a run that was refused before its packet,
  and one instance of the serializer, the hash and the host engine.
\<close>

section \<open>A concrete run\<close>

fun demo_print :: "json \<Rightarrow> string" where
  "demo_print (JObject kvs) = concat (map (\<lambda>kv. fst kv @ ''='' @ demo_print (snd kv) @ '';'') kvs)"
| "demo_print (JString t) = t"
| "demo_print v = ''?''"

definition demo_serde :: SerdeJson where
  "demo_serde = \<lparr>value_to_vec = (\<lambda>v. Some (demo_print v)), result_to_vec = (\<lambda>r. Some (''result '' @ res_run_id r)),
     share_safe_to_string = (\<lambda>r. Some (''summary '' @ ss_run_id r)),
     event_to_string = (\<lambda>e. Some (''event '' @ ev_run_id e)),
     request_to_value = (\<lambda>r. Some (JObject [(''run_id'', JString (req_run_id r)), (''task'', JString (req_task r))])),
     json_from_str = (\<lambda>s. None)\<rparr>"

definition demo_model :: ModelRef where "demo_model = \<lparr>profile_id = ''local'', model_id = ''m1''\<rparr>"

definition demo_revision :: LogSnapshotRevisionV1 where
  "demo_revision = \<lparr>event_revision = 1, template_analysis_revision = 1, suppression_revision = 0\<rparr>"

definition demo_request :: TriageRequestV2 where
  "demo_request = \<lparr>req_schema_id = TRIAGE_REQUEST_SCHEMA_V2, req_run_id = ''run-1'',
     req_privacy = OwnerOnly, req_task = ''why did it fail'',
     req_scope = \<lparr>scope_corpus_id = ''corpus'', scope_corpus_revision = None, scope_source_ids = []\<rparr>,
     req_policy = Standard demo_model,
     req_overrides = \<lparr>ovr_deadline_ms = Some 1000, ovr_max_provider_calls = None\<rparr>,
     req_cancellation_id = ''cancel-1''\<rparr>"

definition demo_hash :: "string \<Rightarrow> string" where "demo_hash b = rev b"

definition demo_fp :: string where "demo_fp = ''sha256:;liaf ti did yhw=ksat''"

definition demo_reconciliation :: TriageReconciliationV1 where
  "demo_reconciliation = \<lparr>rec_state = ''settled'', rec_configured_role_slots = 1,
     rec_completed_role_slots = 1, rec_distinct_models = 1, rec_distinct_gateways = 1,
     rec_supported_claim_ids = [''claim-1''], rec_conflict_ids = [], rec_gap_ids = [],
     rec_root_cause_established = False\<rparr>"

definition demo_envelope :: AnswerEnvelopeV1 where
  "demo_envelope =
     \<lparr>env_binding = \<lparr>bind_session_id = ''s'', bind_turn_id = ''t'', bind_corpus_id = ''corpus'',
        bind_revision = demo_revision, bind_ledger_digest = ''d''\<rparr>,
      env_evidence = [\<lparr>he_evidence_id = ''ev-1'', he_candidate_id = ''cand-1'', he_source_label = ''a.log'',
        he_locator = ''L1'', he_corpus_id = ''corpus'', he_revision = demo_revision,
        he_role = RoleSupporting, he_content = ''disk full''\<rparr>],
      env_answer = \<lparr>ans_schema = SCHEMA_V1, ans_candidates = [], ans_canonical_citations = [],
        ans_root_cause_established = False\<rparr>,
      env_semantic_attempts = 1\<rparr>"

definition demo_result :: TriageResultV2 where
  "demo_result = \<lparr>res_schema_id = TRIAGE_RESULT_SCHEMA_V2, res_run_id = ''run-1'',
     res_kind = GroundedFinal, res_validation_state = ValidationPassed, res_packet_id = ''pkt-1'',
     res_reconciliation = demo_reconciliation, res_answer = Some demo_envelope,
     res_accepted_evidence_ids = [''ev-1''], res_reason_codes = []\<rparr>"

definition demo_attempt :: TriageRoleAttemptV1 where
  "demo_attempt = \<lparr>att_attempt_id = ''a-1'', att_role_slot_id = ''standard-finalizer'',
     att_role = Finalizer, att_model = Some demo_model, att_status = AttemptCompleted,
     att_reason_codes = [], att_elapsed_ms = 5, att_input_chars = 10, att_output_chars = 20,
     att_physical_provider_calls = Some 1, att_semantic_corrections = Some 0,
     att_terminal_disposition = Some DispositionCompleted\<rparr>"

definition demo_event :: "u64 \<Rightarrow> TriageRunEventPayloadV2 \<Rightarrow> TriageRunEventV2" where
  "demo_event i pl = \<lparr>ev_schema_id = TRIAGE_RUN_EVENT_SCHEMA_V2, ev_run_id = ''run-1'',
     ev_sequence = i, ev_privacy = OwnerOnly, ev_event = pl\<rparr>"

definition demo_replay :: TriageReplayV1 where
  "demo_replay = \<lparr>rp_schema_id = TRIAGE_REPLAY_SCHEMA_V1, rp_run_id = ''run-1'',
     rp_request_fingerprint = demo_fp,
     rp_events = [demo_event 0 (RunStarted demo_fp ''policy''),
       demo_event 1 (PacketReady ''pkt-1'' ''digest'' 1), demo_event 2 (RoleAttempt demo_attempt),
       demo_event 3 (Reconciliation demo_reconciliation), demo_event 4 (Validation True []),
       demo_event 5 (Completed demo_result)]\<rparr>"

lemma demo_ids [simp]:
  "opaque_id ''run-1''" "opaque_id ''pkt-1''" "opaque_id ''settled''" "opaque_id ''claim-1''"
  "opaque_id ''ev-1''" "opaque_id ''a-1''" "opaque_id ''standard-finalizer''" "opaque_id ''policy''"
  "opaque_id ''digest''" "opaque_id ''sha256:;liaf ti did yhw=ksat''" "opaque_id ''corpus''" "opaque_id ''cancel-1''"
  by code_simp+

lemma demo_model_ok [simp]: "model_ref_validate demo_model = Inr ()"
  by code_simp

lemmas demo_defs = demo_serde_def demo_request_def demo_fp_def demo_reconciliation_def
  demo_envelope_def demo_result_def demo_attempt_def demo_event_def demo_replay_def

lemmas MAX_defs = MAX_TRIAGE_WIRE_BYTES_def MAX_TRIAGE_EVIDENCE_IDS_def
  MAX_TRIAGE_REASON_CODES_def MAX_TRIAGE_REPLAY_EVENTS_def MAX_TRIAGE_SOURCE_IDS_def
  MAX_TRIAGE_TASK_BYTES_def MAX_TRIAGE_REQUEST_DEADLINE_MS_def MAX_TRIAGE_REQUEST_PROVIDER_CALLS_def

lemma demo_result_ok [simp]: "result_validate demo_serde demo_result = Inr ()"
  by (simp add: validator_defs demo_defs result_kind_validate_def result_content_validate_def
     MAX_defs)

lemma demo_replay_ok [simp]: "replay_validate demo_serde demo_replay = Inr ()"
  unfolding replay_validate_iff
  by (simp add: demo_replay_def demo_event_def event_ok_def event_validate_def demo_fp_def
      demo_attempt_def demo_reconciliation_def attempt_validate_def reconciliation_validate_def
      demo_result_def [THEN arg_cong [of _ _ res_run_id]] MAX_defs option_exceeds_def)

lemma demo_request_ok [simp]: "request_validate demo_serde demo_request = Inr ()"
proof -
  have "trim (req_task demo_request) \<noteq> []" "\<not> contains (req_task demo_request) [CHR 0x00]"
    by code_simp+
  then show ?thesis
    by (simp add: request_validate_def scope_validate_def overrides_invalid_def MAX_defs)
       (simp add: demo_request_def MAX_defs)
qed

definition demo_validated :: ValidatedTriageRequest where
  "demo_validated = \<lparr>vr_request = demo_request, vr_fingerprint = demo_fp\<rparr>"

lemma demo_fingerprint [simp]:
  "fingerprint_validated_request demo_serde demo_hash demo_request = Inr demo_fp"
  by (simp add: fingerprint_validated_request_def demo_serde_def demo_request_def demo_fp_def
      demo_hash_def)

lemma demo_request_new [simp]:
  "validated_request_new demo_serde demo_hash demo_request = Inr demo_validated"
  by (simp add: validated_request_new_def demo_validated_def)

lemma demo_replay_bound [simp]:
  "replay_validated demo_serde demo_validated demo_replay =
     Inr \<lparr>ex_replay = demo_replay, ex_terminal = TerminalCompleted demo_result\<rparr>"
proof -
  have "validate_cross_event_bindings demo_validated demo_replay (TerminalCompleted demo_result)
      = Inr ()"
    by (simp add: validate_cross_event_bindings_def demo_validated_def demo_defs cross_step_def
        cross_init_def validation_mismatch_def)
  moreover have "ev_event (last (rp_events demo_replay)) = Completed demo_result"
    "rp_events demo_replay \<noteq> []" "rp_run_id demo_replay = ''run-1''"
    "rp_request_fingerprint demo_replay = demo_fp"
    by (simp_all add: demo_replay_def demo_event_def)
  ultimately show ?thesis
    by (simp add: replay_validated_def) (simp add: demo_validated_def demo_request_def demo_result_def)
qed

section \<open>Replays\<close>

text \<open>C1: \<open>TriageReplayV1::validate\<close> (ten flags and a slot set threaded through a loop)
  accepts exactly the replays whose header and events are valid and numbered, and whose
  payloads after the start drive the phase automaton from waiting to its end.\<close>

theorem replay_validate_refines_automaton:
  "replay_validate S r = Inr () \<longleftrightarrow>
     rp_schema_id r = TRIAGE_REPLAY_SCHEMA_V1 \<and> opaque_id (rp_run_id r)
     \<and> opaque_id (rp_request_fingerprint r)
     \<and> length (rp_events r) \<le> MAX_TRIAGE_REPLAY_EVENTS
     \<and> (\<exists>e es pf. rp_events r = e # es
          \<and> ev_event e = RunStarted (rp_request_fingerprint r) pf
          \<and> events_ok S (rp_run_id r) 0 (e # es)
          \<and> run_phases (Waiting {}) (map ev_event es) = Some Ended)"
  by (rule replay_validate_iff)

text \<open>In an accepted replay the terminal event is unique and last, and the events are
  numbered from 0 without gaps and all belong to the replay's run.\<close>

theorem replay_terminal_last:
  assumes "replay_validate S r = Inr ()"
  shows "\<exists>pls t. map ev_event (rp_events r) = pls @ [t] \<and> is_terminal t
     \<and> (\<forall>pl \<in> set pls. \<not> is_terminal pl)
     \<and> (\<forall>k < length (rp_events r). unat (ev_sequence (rp_events r ! k)) = k
          \<and> ev_run_id (rp_events r ! k) = rp_run_id r)"
proof -
  from assms obtain e es pf where ev: "rp_events r = e # es"
    and st: "ev_event e = RunStarted (rp_request_fingerprint r) pf"
    and ok: "events_ok S (rp_run_id r) 0 (rp_events r)"
    and run: "run_phases (Waiting {}) (map ev_event es) = Some Ended"
    and len: "length (rp_events r) \<le> MAX_TRIAGE_REPLAY_EVENTS"
    by (auto simp: replay_validate_iff)
  have "unat (of_nat k :: u64) = k" if "k < length (rp_events r)" for k
    using that len by (simp add: MAX_TRIAGE_REPLAY_EVENTS_def unat_of_nat)
  then have "\<forall>k < length (rp_events r). unat (ev_sequence (rp_events r ! k)) = k
      \<and> ev_run_id (rp_events r ! k) = rp_run_id r"
    using ok by (simp add: events_ok_def event_ok_def)
  moreover note run_phases_terminal [OF run]
  ultimately show ?thesis
    using st by (intro exI [of _ "ev_event e # butlast (map ev_event es)"]
        exI [of _ "last (map ev_event es)"]) (simp add: ev)
qed

theorem replay_terminal_last_witness:
  "\<exists>pls t. map ev_event (rp_events demo_replay) = pls @ [t] \<and> is_terminal t"
  using replay_terminal_last [OF demo_replay_ok] by blast

text \<open>An accepted replay that ends with a result and was not cancelled has received one
  packet, then a settling reconciliation, then exactly one validation checkpoint, then at
  most one correction before the terminal event.\<close>

theorem replay_checkpoint_order:
  assumes "replay_validate S r = Inr ()" and "ev_event (last (rp_events r)) = t"
    and "payload_result t = Some x" and "\<not> is_cancelled t"
  shows "\<exists>pf pid digest n mid passed codes rest.
     map ev_event (rp_events r) =
       RunStarted (rp_request_fingerprint r) pf # PacketReady pid digest n
         # mid @ Validation passed codes # rest @ [t]
     \<and> (rest = [] \<or> (\<exists>applied codes'. rest = [Correction applied codes']))
     \<and> (\<forall>pl \<in> set mid. \<not> is_terminal pl \<and> \<not> is_validation pl \<and> \<not> is_PacketReady pl)
     \<and> (\<exists>pl \<in> set mid. settles pl)"
  using assms by (rule replay_shape)

theorem replay_checkpoint_order_witness:
  "\<exists>pf pid digest n mid passed codes rest. map ev_event (rp_events demo_replay) =
     RunStarted demo_fp pf # PacketReady pid digest n
       # mid @ Validation passed codes # rest @ [Completed demo_result]"
proof -
  have "ev_event (last (rp_events demo_replay)) = Completed demo_result"
    "rp_request_fingerprint demo_replay = demo_fp"
    by (simp_all add: demo_replay_def demo_event_def)
  note last = this
  have "payload_result (Completed demo_result) = Some demo_result"
    "\<not> is_cancelled (Completed demo_result)" by simp_all
  from replay_checkpoint_order [OF demo_replay_ok last(1) this, unfolded last(2)]
  show ?thesis by (elim exE conjE) (intro exI, assumption)
qed

text \<open>A run that ends before its packet is ready reports only attempts that did no
  provider work, each slot once, and its terminal event carries no result.\<close>

theorem replay_before_packet:
  assumes "replay_validate S r = Inr ()"
    and "\<forall>e \<in> set (rp_events r). \<not> is_PacketReady (ev_event e)"
  shows "\<exists>pf atts t. map ev_event (rp_events r) =
       RunStarted (rp_request_fingerprint r) pf # map RoleAttempt atts @ [t]
     \<and> is_terminal t \<and> payload_result t = None \<and> distinct (map att_role_slot_id atts)
     \<and> (\<forall>a \<in> set atts. att_physical_provider_calls a = Some 0 \<and> att_output_chars a = 0
          \<and> att_status a \<noteq> AttemptCompleted \<and> att_status a \<noteq> AttemptAbstained)"
proof -
  from assms(1) obtain e es pf where ev: "rp_events r = e # es"
    and st: "ev_event e = RunStarted (rp_request_fingerprint r) pf"
    and run: "run_phases (Waiting {}) (map ev_event es) = Some Ended"
    by (auto simp: replay_validate_iff)
  have "map ev_event es \<noteq> []" using run_phases_terminal [OF run] by simp
  then have "\<not> is_PacketReady (hd (map ev_event es))"
    using assms(2) ev by (cases es) simp_all
  with run_phases_waiting [OF run] obtain atts t where
    "map ev_event es = map RoleAttempt atts @ [t]" "is_terminal t" "payload_result t = None"
    "list_all pre_packet_attempt_ok atts" "distinct (map att_role_slot_id atts)"
    by auto
  then show ?thesis
    using st by (intro exI [of _ pf] exI [of _ atts] exI [of _ t])
      (auto simp: ev list_all_iff pre_packet_attempt_ok_def)
qed

definition demo_refused :: TriageRoleAttemptV1 where
  "demo_refused = demo_attempt\<lparr>att_status := AttemptNotAdmitted, att_elapsed_ms := 0,
     att_input_chars := 0, att_output_chars := 0, att_physical_provider_calls := Some 0,
     att_terminal_disposition := Some DispositionNotAdmitted\<rparr>"

definition demo_refused_replay :: TriageReplayV1 where
  "demo_refused_replay = demo_replay\<lparr>rp_events :=
     [demo_event 0 (RunStarted demo_fp ''policy''), demo_event 1 (RoleAttempt demo_refused),
      demo_event 2 (Failed ''digest'' None)]\<rparr>"

lemma demo_refused_ok: "replay_validate demo_serde demo_refused_replay = Inr ()"
  unfolding replay_validate_iff
  by (simp add: demo_refused_replay_def demo_refused_def demo_replay_def demo_event_def event_ok_def
      event_validate_def demo_fp_def demo_attempt_def attempt_validate_def MAX_defs
      option_exceeds_def pre_packet_attempt_ok_def validate_terminal_partial_ok)

theorem replay_before_packet_witness:
  "\<exists>pf atts t. map ev_event (rp_events demo_refused_replay) =
     RunStarted demo_fp pf # map RoleAttempt atts @ [t]"
proof -
  have "\<forall>e \<in> set (rp_events demo_refused_replay). \<not> is_PacketReady (ev_event e)"
    "rp_request_fingerprint demo_refused_replay = demo_fp"
    by (simp_all add: demo_refused_replay_def demo_event_def demo_replay_def)
  from replay_before_packet [OF demo_refused_ok this(1), unfolded this(2)]
  show ?thesis by (elim exE conjE) (intro exI, assumption)
qed

section \<open>Results and privacy\<close>

text \<open>A valid result is grounded or honest: a grounded one has passed validation, has an
  answer and accepts only evidence of that answer's ledger; a partial one has not passed and
  claims no root cause, neither in its reconciliation nor in its answer; and a claimed root
  cause always has an answer behind it.\<close>

theorem result_grounding:
  assumes "result_validate S r = Inr ()"
  shows "(res_kind r = GroundedFinal \<longrightarrow> res_validation_state r = ValidationPassed
       \<and> (\<exists>a. res_answer r = Some a
            \<and> set (res_accepted_evidence_ids r) \<subseteq> he_evidence_id ` set (env_evidence a)))
     \<and> (res_kind r = HonestPartial \<longrightarrow> res_validation_state r \<noteq> ValidationPassed
       \<and> \<not> rec_root_cause_established (res_reconciliation r)
       \<and> (\<forall>a. res_answer r = Some a \<longrightarrow> \<not> ans_root_cause_established (env_answer a)))
     \<and> (rec_root_cause_established (res_reconciliation r)
          \<longrightarrow> res_kind r = GroundedFinal \<and> res_answer r \<noteq> None)"
  using result_validate_grounded [OF assms] result_validate_partial [OF assms]
    TriageResultKind.exhaust [of "res_kind r"] by blast

theorem result_grounding_witness:
  "res_validation_state demo_result = ValidationPassed \<and> res_answer demo_result \<noteq> None"
  using result_grounding [OF demo_result_ok] by (simp add: demo_result_def)

text \<open>The share-safe projection of a valid result keeps every structural check: it can
  only be refused by the serializer or by the privacy scan of its encoding, and it is accepted
  exactly when that encoding is clean.\<close>

theorem share_safe_projection:
  assumes "result_validate S r = Inr ()"
  shows "share_safe_validate S (share_safe_summary r) =
     (case share_safe_to_string S (share_safe_summary r) of
        None \<Rightarrow> Inl ContractSerialize
      | Some encoded \<Rightarrow> if scan_share_safe_text encoded = [] then Inr () else Inl PrivacyLeak)"
  using assms
  by (simp add: share_safe_validate_def result_validate_def share_safe_summary_def try_all_step
      try_all_single ensure_def split: option.split)

theorem share_safe_projection_witness:
  "share_safe_validate demo_serde (share_safe_summary demo_result) = Inr ()"
proof -
  have "scan_share_safe_text ''summary run-1'' = []" by code_simp
  then show ?thesis
    unfolding share_safe_projection [OF demo_result_ok]
    by (simp add: demo_serde_def share_safe_summary_def demo_result_def)
qed

text \<open>An accepted share-safe event carries no result and no model identity, and its
  encoding contains no forbidden needle in any spelling of its letters' case.\<close>

theorem share_safe_event_clean:
  assumes "event_validate S e = Inr ()" and "ev_privacy e = ShareSafe"
  shows "payload_result (ev_event e) = None
     \<and> (\<forall>a. ev_event e = RoleAttempt a \<longrightarrow> att_model a = None)
     \<and> (\<exists>encoded. event_to_string S e = Some encoded
          \<and> (\<forall>v. to_ascii_lowercase v \<in> set PRIVACY_FORBIDDEN_SUBSTRINGS \<longrightarrow> \<not> contains encoded v))"
proof -
  from assms obtain encoded where "\<not> carries_owner_content (ev_event e)"
    "event_to_string S e = Some encoded" "scan_share_safe_text encoded = []"
    by (auto simp: event_validate_def split: option.splits)
  then show ?thesis
    using contains_lowercase
    by (cases "ev_event e") (auto simp: scan_share_safe_text_Nil)
qed

theorem share_safe_event_clean_witness:
  "\<not> contains ''event run-1'' ''BEARER ''"
proof -
  let ?e = "(demo_event 4 (Validation True []))\<lparr>ev_privacy := ShareSafe\<rparr>"
  have "scan_share_safe_text ''event run-1'' = []" by code_simp
  then have "event_validate demo_serde ?e = Inr ()"
    by (simp add: event_validate_def demo_event_def demo_serde_def MAX_defs)
  from share_safe_event_clean [OF this] have
    "\<forall>v. to_ascii_lowercase v \<in> set PRIVACY_FORBIDDEN_SUBSTRINGS \<longrightarrow> \<not> contains ''event run-1'' v"
    by (simp add: demo_event_def demo_serde_def)
  moreover have "to_ascii_lowercase ''BEARER '' \<in> set PRIVACY_FORBIDDEN_SUBSTRINGS" by code_simp
  ultimately show ?thesis by blast
qed

section \<open>Requests and their fingerprints\<close>

text \<open>Canonicalization decides identity up to the order of object keys: two documents
  without repeated keys have the same canonical form exactly when they are equivalent.\<close>

theorem canonical_form_decides:
  assumes "json_wf v" and "json_wf w"
  shows "canonicalize_json v = canonicalize_json w \<longleftrightarrow> json_equiv v w"
  using assms equiv_canonicalize canonicalize_equiv by blast

theorem canonical_form_decides_witness:
  "json_equiv (JObject [(''b'', JNull), (''a'', JBool True)]) (JObject [(''a'', JBool True), (''b'', JNull)])"
proof -
  have "canonicalize_json (JObject [(''b'', JNull), (''a'', JBool True)]) =
      canonicalize_json (JObject [(''a'', JBool True), (''b'', JNull)])"
    by code_simp
  then show ?thesis by (subst canonical_form_decides [symmetric]) simp_all
qed

text \<open>The request document without its run id, which the fingerprint covers.\<close>

definition fingerprinted :: "json \<Rightarrow> json" where
  "fingerprinted v = (case v of JObject kvs \<Rightarrow> JObject (filter (\<lambda>kv. fst kv \<noteq> ''run_id'') kvs) | _ \<Rightarrow> v)"

lemma json_wf_fingerprinted: "json_wf v \<Longrightarrow> json_wf (fingerprinted v)"
  by (cases v) (auto simp: fingerprinted_def distinct_map_filter)

lemma fingerprint_ok:
  assumes "fingerprint_validated_request S H q = Inr f" and "request_to_value S q = Some v"
  shows "\<exists>b. value_to_vec S (canonicalize_json (fingerprinted v)) = Some b \<and> f = ''sha256:'' @ H b"
  using assms
  by (auto simp: fingerprint_validated_request_def fingerprinted_def ok_or_def Let_def
      split: json.splits if_splits option.splits)

text \<open>C34: The fingerprint of a request identifies everything but its run id: two requests
  have the same fingerprint exactly when their documents agree, up to key order, after the
  run id is removed.  Assumed of the libraries, on these two documents only: the serializer
  encodes them apart if they differ and the hash does not collide on the two encodings.\<close>

theorem fingerprint_identity:
  assumes "fingerprint_validated_request S H q1 = Inr f1" "request_to_value S q1 = Some v1"
    and "fingerprint_validated_request S H q2 = Inr f2" "request_to_value S q2 = Some v2"
    and wf: "json_wf v1" "json_wf v2"
    and encoder: "value_to_vec S (canonicalize_json (fingerprinted v1)) =
        value_to_vec S (canonicalize_json (fingerprinted v2))
      \<Longrightarrow> canonicalize_json (fingerprinted v1) = canonicalize_json (fingerprinted v2)"
    and hash: "\<And>b1 b2. value_to_vec S (canonicalize_json (fingerprinted v1)) = Some b1
      \<Longrightarrow> value_to_vec S (canonicalize_json (fingerprinted v2)) = Some b2 \<Longrightarrow> H b1 = H b2 \<Longrightarrow> b1 = b2"
  shows "f1 = f2 \<longleftrightarrow> json_equiv (fingerprinted v1) (fingerprinted v2)"
proof -
  obtain b1 where b1: "value_to_vec S (canonicalize_json (fingerprinted v1)) = Some b1"
      "f1 = ''sha256:'' @ H b1"
    using fingerprint_ok [OF assms(1,2)] by blast
  obtain b2 where b2: "value_to_vec S (canonicalize_json (fingerprinted v2)) = Some b2"
      "f2 = ''sha256:'' @ H b2"
    using fingerprint_ok [OF assms(3,4)] by blast
  have "f1 = f2 \<longleftrightarrow> b1 = b2" using hash [OF b1(1) b2(1)] b1(2) b2(2) by auto
  also have "\<dots> \<longleftrightarrow> canonicalize_json (fingerprinted v1) = canonicalize_json (fingerprinted v2)"
    using encoder b1(1) b2(1) by auto
  also have "\<dots> \<longleftrightarrow> json_equiv (fingerprinted v1) (fingerprinted v2)"
    using json_wf_fingerprinted [OF wf(1)] json_wf_fingerprinted [OF wf(2)]
      equiv_canonicalize canonicalize_equiv by blast
  finally show ?thesis .
qed

theorem fingerprint_identity_witness:
  "fingerprint_validated_request demo_serde demo_hash demo_request = Inr demo_fp \<and>
   \<not> json_equiv (JObject [(''task'', JString ''why did it fail'')]) (JObject [(''task'', JString ''what'')])"
proof -
  let ?q = "demo_request\<lparr>req_task := ''what''\<rparr>"
  let ?v = "\<lambda>t. JObject [(''run_id'', JString ''run-1''), (''task'', JString t)]"
  have f2: "fingerprint_validated_request demo_serde demo_hash ?q = Inr ''sha256:;tahw=ksat''"
    by (simp add: fingerprint_validated_request_def demo_serde_def demo_request_def demo_hash_def)
  have v: "request_to_value demo_serde demo_request = Some (?v ''why did it fail'')"
    "request_to_value demo_serde ?q = Some (?v ''what'')"
    by (simp_all add: demo_serde_def demo_request_def)
  have enc: "value_to_vec demo_serde (canonicalize_json (fingerprinted (?v t))) =
      Some (''task='' @ t @ '';'')" for t
    by (simp add: demo_serde_def fingerprinted_def)
  have "demo_fp = ''sha256:;tahw=ksat'' \<longleftrightarrow>
      json_equiv (fingerprinted (?v ''why did it fail'')) (fingerprinted (?v ''what''))"
    by (rule fingerprint_identity [OF demo_fingerprint v(1) f2 v(2)])
       (simp_all add: enc demo_hash_def)
  then show ?thesis by (simp add: fingerprinted_def demo_fp_def)
qed

section \<open>Executions\<close>

text \<open>C2: A grounded result only ever comes out of a completed run whose one packet is the
  result's packet and whose one validation checkpoint passed, after a settling
  reconciliation.\<close>

theorem grounded_result_was_validated:
  assumes "replay_validated S request replay = Inr ex"
    and "terminal_result (ex_terminal ex) = Some r" and "res_kind r = GroundedFinal"
  shows "ex_terminal ex = TerminalCompleted r
     \<and> (\<exists>pf digest n mid codes rest.
          map ev_event (rp_events replay) =
            RunStarted (vr_fingerprint request) pf # PacketReady (res_packet_id r) digest n
              # mid @ Validation True codes # rest @ [Completed r]
          \<and> (rest = [] \<or> (\<exists>applied codes'. rest = [Correction applied codes']))
          \<and> (\<forall>pl \<in> set mid. \<not> is_terminal pl \<and> \<not> is_validation pl \<and> \<not> is_PacketReady pl)
          \<and> (\<exists>pl \<in> set mid. settles pl))"
  using assms by (rule bound_grounded)

theorem grounded_result_was_validated_witness:
  "\<exists>pf digest n mid codes rest. map ev_event (rp_events demo_replay) =
     RunStarted demo_fp pf # PacketReady ''pkt-1'' digest n
       # mid @ Validation True codes # rest @ [Completed demo_result]"
proof -
  have "terminal_result (ex_terminal \<lparr>ex_replay = demo_replay,
      ex_terminal = TerminalCompleted demo_result\<rparr>) = Some demo_result"
    "res_kind demo_result = GroundedFinal" "vr_fingerprint demo_validated = demo_fp"
    "res_packet_id demo_result = ''pkt-1''"
    by (simp_all add: demo_result_def demo_validated_def)
  note this(3,4) and bound = grounded_result_was_validated [OF demo_replay_bound this(1,2)]
  from bound [unfolded this(1,2)] show ?thesis by (elim exE conjE) (intro exI, assumption)
qed

lemma validated_request_new_ok:
  "validated_request_new S H request = Inr vr \<Longrightarrow>
     request_validate S request = Inr () \<and> vr_request vr = request
     \<and> canonical_request_fingerprint S H request = Inr (vr_fingerprint vr)"
  by (auto simp: validated_request_new_def canonical_request_fingerprint_def)

lemma execute_preflighted_ok:
  "execute_preflighted S engine s vr events = (s', Inr ex) \<Longrightarrow>
     replay_validated S vr (ex_replay ex) = Inr ex"
  by (auto simp: execute_preflighted_def replay_validated_ok(4) split: if_splits prod.splits sum.splits)

lemma cross_step_err: "cross_step std cb pl = Inl e \<Longrightarrow> e = StandardAttemptBindingMismatch"
  by (cases pl) (auto simp: cross_step_def split: if_splits)

lemma cross_fold_err: "try_fold (cross_step std) cb pls = Inl e \<Longrightarrow> e = StandardAttemptBindingMismatch"
proof (induction pls arbitrary: cb)
  case (Cons pl pls)
  then show ?case
    by (cases "cross_step std cb pl") (auto dest: cross_step_err)
qed simp

definition demo_engine :: "(nat, unit) TriageEngine" where
  "demo_engine = \<lparr>eng_preflight = (\<lambda>s r. (s + 1, Inr ())),
     eng_execute = (\<lambda>s r p sink. (s + 1, Inr demo_replay)),
     eng_cancel = (\<lambda>s c. (s + 1, Inr ()))\<rparr>"

lemma demo_triage:
  "triage demo_serde demo_hash demo_engine 0 demo_request None =
     (2, Inr \<lparr>ex_replay = demo_replay, ex_terminal = TerminalCompleted demo_result\<rparr>)"
proof -
  have "standard_model (req_policy (vr_request demo_validated)) = Some demo_model"
    by (simp add: demo_validated_def demo_request_def)
  then show ?thesis
    by (simp add: triage_def execute_preflighted_def demo_engine_def)
qed

text \<open>C3: Whatever the host engine does, an execution that \<open>triage\<close> returns is a valid replay
  of that request: the request passed its contract, the replay passed its own, run id and
  fingerprint are the request's, and the terminal is the replay's last event.  The engine is
  an arbitrary function over an arbitrary host state.\<close>

theorem triage_trusts_no_engine:
  assumes "triage S H engine s request events = (s', Inr ex)"
  shows "request_validate S request = Inr ()
     \<and> replay_validate S (ex_replay ex) = Inr ()
     \<and> rp_run_id (ex_replay ex) = req_run_id request
     \<and> canonical_request_fingerprint S H request = Inr (rp_request_fingerprint (ex_replay ex))
     \<and> terminal_from_event (ev_event (last (rp_events (ex_replay ex)))) = Inr (ex_terminal ex)
     \<and> (\<forall>r. terminal_result (ex_terminal ex) = Some r \<longrightarrow> res_run_id r = req_run_id request)
     \<and> (\<forall>cid p. ex_terminal ex = TerminalCancelled cid p \<longrightarrow> cid = req_cancellation_id request)"
proof -
  from assms obtain vr where vr: "validated_request_new S H request = Inr vr"
    and ex: "execute_preflighted S engine s vr events = (s', Inr ex)"
    by (auto simp: triage_def split: sum.splits if_splits)
  note q = validated_request_new_ok [OF vr] and rv = replay_validated_ok [OF execute_preflighted_ok [OF ex]]
  show ?thesis using q rv by auto
qed

theorem triage_trusts_no_engine_witness:
  "canonical_request_fingerprint demo_serde demo_hash demo_request =
     Inr (rp_request_fingerprint demo_replay)"
  using triage_trusts_no_engine [OF demo_triage] by simp

text \<open>Under the Standard policy an execution has at most one role attempt, exactly one
  unless it was cancelled, and that attempt is the standard finalizer on the model the
  request selected.\<close>

theorem standard_policy_binding:
  assumes "triage S H engine s request events = (s', Inr ex)"
  shows "\<exists>model. req_policy request = Standard model
     \<and> (let atts = List.map_filter attempt_of (map ev_event (rp_events (ex_replay ex))) in
         length atts \<le> 1 \<and> (\<not> terminal_is_cancelled (ex_terminal ex) \<longrightarrow> length atts = 1)
         \<and> (\<forall>a \<in> set atts. att_role a = Finalizer \<and> att_role_slot_id a = ''standard-finalizer''
              \<and> att_model a = Some model))"
proof -
  from assms obtain vr where vr: "validated_request_new S H request = Inr vr"
    and std: "standard_model (req_policy (vr_request vr)) \<noteq> None"
    and ex: "execute_preflighted S engine s vr events = (s', Inr ex)"
    by (auto simp: triage_def split: sum.splits if_splits)
  have q: "vr_request vr = request" using validated_request_new_ok [OF vr] by simp
  from std q obtain model where m: "req_policy request = Standard model"
    by (cases "req_policy request") auto
  note rv = replay_validated_ok(8) [OF execute_preflighted_ok [OF ex]]
  show ?thesis
    using bindings_ok(1-3) [OF rv] m q
    by (auto simp: list_all_iff standard_attempt_def)
qed

theorem standard_policy_binding_witness:
  "length (List.map_filter attempt_of (map ev_event (rp_events demo_replay))) = 1"
  using standard_policy_binding [OF demo_triage] by (auto simp: Let_def)

text \<open>A request that the facade refuses by itself never reaches the host: when \<open>triage\<close> or
  \<open>triage_with_policy\<close> reports an invalid or non-canonical request, the wrong policy kind or a
  foreign event sink, the host state is the one it started from.\<close>

theorem refusal_leaves_host_untouched:
  assumes "run \<in> {triage, triage_with_policy}"
    and "run S H engine s request events = (s', Inl err)"
    and "err \<in> {Canonicalization, StandardPolicyRequired, ConfiguredPolicyRequired,
            EventSinkRequestMismatch} \<union> range InvalidRequest"
  shows "s' = s"
proof -
  have rv: "replay_validated S vr replay \<noteq> Inl err" for vr replay
    using assms(3)
    by (cases "ev_event (last (rp_events replay))")
       (auto simp: replay_validated_def validate_cross_event_bindings_def Let_def
         map_err_def split: if_splits option.splits sum.splits dest!: cross_fold_err)
  have "execute_preflighted S engine s vr events = (s', Inl err) \<Longrightarrow> s' = s" for vr
    using assms(3) rv [of vr]
    by (auto simp: execute_preflighted_def split: if_splits prod.splits sum.splits)
  then show ?thesis
    using assms(1,2) by (auto simp: triage_def triage_with_policy_def split: sum.splits if_splits)
qed

theorem refusal_leaves_host_untouched_witness:
  "fst (triage_with_policy demo_serde demo_hash demo_engine 7 demo_request None) = 7"
proof -
  have "standard_model (req_policy (vr_request demo_validated)) \<noteq> None"
    by (simp add: demo_validated_def demo_request_def)
  then have "triage_with_policy demo_serde demo_hash demo_engine 7 demo_request None =
      (fst (triage_with_policy demo_serde demo_hash demo_engine 7 demo_request None),
       Inl ConfiguredPolicyRequired)"
    by (simp add: triage_with_policy_def)
  from refusal_leaves_host_untouched [where run = triage_with_policy, OF _ this] show ?thesis by simp
qed

text \<open>Cancellation reaches the host exactly for a valid cancellation of this request: with
  any other one the host state is unchanged and an error is returned, and otherwise the host's
  own cancel decides.\<close>

theorem cancel_only_own_run:
  "cancel engine s request c =
     (if cancellation_validate c = Inr () \<and> can_run_id c = req_run_id (vr_request request)
         \<and> can_cancellation_id c = req_cancellation_id (vr_request request)
      then map_prod id (map_err EngineError) (eng_cancel engine s c)
      else (s, Inl (case cancellation_validate c of Inl err \<Rightarrow> InvalidCancellation err
                    | Inr u \<Rightarrow> CancellationRequestMismatch)))"
  by (auto simp: cancel_def map_err_def split: sum.splits prod.splits)

text \<open>The event sink forwards a subsequence of what the engine emits, and that
  subsequence is a well-formed prefix of a run: every event valid and of this run, numbered
  from 0 without gaps, starting with the run's own start event and with no second one.  The
  bound says that the u64 counter has not run out.\<close>

theorem sink_stream_contiguous:
  assumes "sink = foldl (\<lambda>k e. fst (sink_emit S k e)) (sink_new request) es"
    and "length es < 2 ^ 64"
  shows "subseq (delivered sink) es
     \<and> unat (next_sequence sink) = length (delivered sink)
     \<and> (\<forall>i < length (delivered sink).
          event_validate S (delivered sink ! i) = Inr ()
          \<and> ev_run_id (delivered sink ! i) = req_run_id (vr_request request)
          \<and> unat (ev_sequence (delivered sink ! i)) = i
          \<and> (i = 0 \<longrightarrow> (\<exists>pf. ev_event (delivered sink ! i) = RunStarted (vr_fingerprint request) pf))
          \<and> (i > 0 \<longrightarrow> \<not> is_RunStarted (ev_event (delivered sink ! i))))"
proof -
  have sub: "subseq (delivered (foldl (\<lambda>k e. fst (sink_emit S k e)) k es)) (delivered k @ es)" for k
  proof (induction es arbitrary: k)
    case (Cons e es)
    have "delivered (fst (sink_emit S k e)) \<in> {delivered k, delivered k @ [e]}"
      by (auto simp: sink_emit_def Let_def split: sum.splits option.splits)
    then have "subseq (delivered (fst (sink_emit S k e)) @ es) (delivered k @ e # es)"
      by (auto intro: list_emb_append_mono)
    then show ?case using Cons [of "fst (sink_emit S k e)"] subseq_order.trans by fastforce
  qed simp
  have inv: "sink_inv S request sink"
    unfolding assms(1) by (rule sink.run_inv [OF sink_inv_new])
  have "subseq (delivered sink) es" using sub [of "sink_new request"] by (simp add: assms(1) sink_new_def)
  moreover from this have "length (delivered sink) < 2 ^ 64"
    using assms(2) list_emb_length by fastforce
  ultimately show ?thesis
    using inv by (auto simp: sink_inv_def)
qed

theorem sink_stream_contiguous_witness:
  "unat (next_sequence (foldl (\<lambda>k e. fst (sink_emit demo_serde k e)) (sink_new demo_validated)
     [demo_event 3 (Validation True []), demo_event 0 (RunStarted demo_fp ''policy'')])) = 1"
proof -
  let ?es = "[demo_event 3 (Validation True []), demo_event 0 (RunStarted demo_fp ''policy'')]"
  have "length ?es < 2 ^ 64" by simp
  note s = sink_stream_contiguous [OF refl this, of demo_serde demo_validated]
  have "length (delivered (foldl (\<lambda>k e. fst (sink_emit demo_serde k e)) (sink_new demo_validated) ?es))
      = 1"
    by (simp add: sink_emit_def sink_new_def event_validate_def demo_event_def demo_validated_def
        demo_request_def demo_fp_def sink_accepts_def checked_add_def MAX_defs try_all_step)
  with s show ?thesis by simp
qed

end
