(* ===== verification/Byte_Codes.thy ===== *)
theory Byte_Codes
  imports Rust_Prelude
begin

text \<open>
  Byte encodings that are hashed: little-endian integers, NUL-terminated and length-prefixed
  fields.  The locale \<open>prefix_code\<close> is the law the digests rely on (an encoded value ends
  where it says it ends); inside it, a sequence of encoded values determines the values.
\<close>

section \<open>Integers\<close>

primrec le_bytes :: "nat \<Rightarrow> nat \<Rightarrow> string" where
  "le_bytes 0 n = []"
| "le_bytes (Suc k) n = char_of n # le_bytes k (n div 256)"

primrec le_value :: "string \<Rightarrow> nat" where
  "le_value [] = 0"
| "le_value (c # cs) = of_char c + 256 * le_value cs"

definition to_le_bytes :: "u64 \<Rightarrow> string" where
  "to_le_bytes w = le_bytes 8 (unat w)"

lemma length_le_bytes [simp]: "length (le_bytes k n) = k"
  by (induction k arbitrary: n) simp_all

lemma le_value_bytes: "le_value (le_bytes k n) = n mod 256 ^ k"
proof (induction k arbitrary: n)
  case (Suc k)
  have "of_char (char_of n :: char) = n mod (256::nat)" by simp
  moreover have "n mod 256 ^ Suc k = n mod 256 + 256 * (n div 256 mod 256 ^ k)"
    by (metis mod_mult2_eq power_Suc add.commute)
  ultimately show ?case using Suc by simp
qed simp

lemma le_bytes_inject: "m < 256 ^ k \<Longrightarrow> n < 256 ^ k \<Longrightarrow> le_bytes k m = le_bytes k n \<Longrightarrow> m = n"
  by (metis le_value_bytes mod_less)

lemma length_to_le_bytes [simp]: "length (to_le_bytes w) = 8"
  by (simp add: to_le_bytes_def)

lemma to_le_bytes_inject [simp]: "to_le_bytes v = to_le_bytes w \<longleftrightarrow> v = w"
proof
  assume "to_le_bytes v = to_le_bytes w"
  moreover have "unat v < 256 ^ 8" "unat w < 256 ^ 8"
    using unsigned_less [of v, where 'a = nat] unsigned_less [of w, where 'a = nat] by simp_all
  ultimately have "unat v = unat w"
    unfolding to_le_bytes_def by (intro le_bytes_inject)
  then show "v = w" by (simp add: unsigned_word_eqI)
qed simp

section \<open>Prefix codes\<close>

locale prefix_code =
  fixes enc :: "'a \<Rightarrow> 'b list"
    and ok :: "'a \<Rightarrow> bool"
  assumes enc_nonempty: "ok a \<Longrightarrow> enc a \<noteq> []"
    and enc_split: "ok a \<Longrightarrow> ok b \<Longrightarrow> enc a @ s = enc b @ t \<Longrightarrow> a = b \<and> s = t"
begin

lemma sequence_split:
  "list_all ok as \<Longrightarrow> list_all ok bs \<Longrightarrow> length as = length bs
     \<Longrightarrow> concat (map enc as) @ s = concat (map enc bs) @ t \<Longrightarrow> as = bs \<and> s = t"
proof (induction as arbitrary: bs)
  case (Cons a as)
  then obtain b bs' where bs: "bs = b # bs'" by (cases bs) auto
  with Cons.prems have eq: "enc a @ (concat (map enc as) @ s) = enc b @ (concat (map enc bs') @ t)"
    and ok: "ok a" "ok b" by simp_all
  note split = enc_split [OF ok eq]
  have "as = bs' \<and> s = t"
    by (rule Cons.IH) (use Cons.prems bs split in simp_all)
  with split bs show ?case by simp
qed simp

lemma sequence_inject:
  "list_all ok as \<Longrightarrow> list_all ok bs \<Longrightarrow> concat (map enc as) = concat (map enc bs) \<Longrightarrow> as = bs"
proof (induction as arbitrary: bs)
  case Nil
  then show ?case using enc_nonempty by (cases bs) auto
next
  case (Cons a as)
  then have "bs \<noteq> []" using enc_nonempty [of a] by auto
  then obtain b bs' where bs: "bs = b # bs'" by (cases bs) auto
  with Cons.prems have eq: "enc a @ concat (map enc as) = enc b @ concat (map enc bs')"
    and ok: "ok a" "ok b" by simp_all
  note split = enc_split [OF ok eq]
  have "as = bs'"
    by (rule Cons.IH) (use Cons.prems bs split in simp_all)
  with split bs show ?case by simp
qed

end

text \<open>A NUL-terminated field without NUL inside.\<close>

definition nul_free :: "string \<Rightarrow> bool" where
  "nul_free s \<longleftrightarrow> CHR 0x00 \<notin> set s"

definition nul_terminated :: "string \<Rightarrow> string" where
  "nul_terminated s = s @ [CHR 0x00]"

interpretation nul: prefix_code nul_terminated nul_free
proof unfold_locales
  show "nul_terminated a \<noteq> []" if "nul_free a" for a by (simp add: nul_terminated_def)
next
  fix a b s t
  assume "nul_free a" "nul_free b" and eq: "nul_terminated a @ s = nul_terminated b @ t"
  then have fr: "\<forall>c \<in> set a. c \<noteq> CHR 0x00" "\<forall>c \<in> set b. c \<noteq> CHR 0x00"
    by (auto simp: nul_free_def)
  have tw: "takeWhile (\<lambda>c. c \<noteq> CHR 0x00) (nul_terminated x @ y) = x"
    if "\<forall>c \<in> set x. c \<noteq> CHR 0x00" for x y
    using that by (simp add: nul_terminated_def takeWhile_append2)
  from fr eq tw have "a = b" by metis
  with eq show "a = b \<and> s = t" by simp
qed

end
