(* ===== verification/Investigation_Ledger.thy ===== *)
theory Investigation_Ledger
  imports Triage_Contract Btree_Map Byte_Codes
begin

text \<open>
  The evidence ledger of \<open>crates/cd-core/src/investigation_answer.rs\<close>: construction with its
  binding checks, the digest over the rows, lookup and the identifier manifest.  Shown here:
  acceptance is characterised exactly and does not depend on the order of the rows, and the
  bytes under the digest determine the rows as long as no field contains a NUL byte.

  SHA-256 is the argument \<open>H\<close>, from bytes to lower-case hex.
\<close>

section \<open>Ledger\<close>

datatype ValidationError =
    Parse | Schema | DuplicateId | UnknownEvidence | WrongScope | WrongRevision | EmptyEvidence
  | RootRole | RoleMismatch | RoleCoverage | EmptyLedger | InvalidBinding | DigestMismatch

fun error_as_str :: "ValidationError \<Rightarrow> string" where
  "error_as_str Parse = ''parse''"
| "error_as_str Schema = ''schema''"
| "error_as_str DuplicateId = ''duplicate_id''"
| "error_as_str UnknownEvidence = ''unknown_evidence''"
| "error_as_str WrongScope = ''wrong_scope''"
| "error_as_str WrongRevision = ''wrong_revision''"
| "error_as_str EmptyEvidence = ''empty_evidence''"
| "error_as_str RootRole = ''root_role''"
| "error_as_str RoleMismatch = ''role_mismatch''"
| "error_as_str RoleCoverage = ''role_coverage''"
| "error_as_str EmptyLedger = ''empty_ledger''"
| "error_as_str InvalidBinding = ''invalid_binding''"
| "error_as_str DigestMismatch = ''digest_mismatch''"

record HostEvidenceLedger =
  led_binding :: AnswerBindingV1
  led_entries :: "(string, HostEvidenceEntry) btree_map"

fun role_byte :: "EvidenceRole \<Rightarrow> string" where
  "role_byte RoleCause = [CHR 0x01]"
| "role_byte RoleSupporting = [CHR 0x02]"
| "role_byte RoleSymptom = [CHR 0x03]"
| "role_byte RoleNeutral = [CHR 0x04]"

definition row_fields :: "HostEvidenceEntry \<Rightarrow> string list" where
  "row_fields e = [he_evidence_id e, he_candidate_id e, he_source_label e, he_locator e,
     he_corpus_id e, he_content e]"

text \<open>What one row feeds to the hasher.\<close>

definition row_bytes :: "HostEvidenceEntry \<Rightarrow> string" where
  "row_bytes e =
     role_byte (he_role e)
     @ concat (map (\<lambda>part. part @ [CHR 0x00]) (row_fields e))
     @ to_le_bytes (event_revision (he_revision e))
     @ to_le_bytes (template_analysis_revision (he_revision e))
     @ to_le_bytes (suppression_revision (he_revision e))"

definition digest_preimage :: "HostEvidenceEntry list \<Rightarrow> string" where
  "digest_preimage entries = concat (map row_bytes (sort_key he_evidence_id entries))"

definition ledger_digest :: "(string \<Rightarrow> string) \<Rightarrow> HostEvidenceEntry list \<Rightarrow> string" where
  "ledger_digest H entries = H (digest_preimage entries)"

definition ledger_step ::
  "(string, HostEvidenceEntry) btree_map \<Rightarrow> HostEvidenceEntry
     \<Rightarrow> (ValidationError, (string, HostEvidenceEntry) btree_map) result" where
  "ledger_step entries e =
     (if trim (he_evidence_id e) = [] then Inl DuplicateId
      else if bt_get entries (he_evidence_id e) \<noteq> None then Inl DuplicateId
      else Inr (bt_insert (he_evidence_id e) e entries))"

definition row_bound :: "AnswerBindingV1 \<Rightarrow> HostEvidenceEntry \<Rightarrow> (ValidationError, unit) result" where
  "row_bound binding e = try_all
     [ensure (trim (he_candidate_id e) \<noteq> []) WrongScope,
      ensure (\<not> (he_corpus_id e \<noteq> bind_corpus_id binding \<or> he_revision e \<noteq> bind_revision binding))
        WrongRevision]"

definition ledger_new ::
  "(string \<Rightarrow> string) \<Rightarrow> AnswerBindingV1 \<Rightarrow> HostEvidenceEntry list
     \<Rightarrow> (ValidationError, HostEvidenceLedger) result" where
  "ledger_new H binding evidence =
     (if trim (bind_session_id binding) = [] \<or> trim (bind_turn_id binding) = []
         \<or> trim (bind_corpus_id binding) = [] \<or> trim (bind_ledger_digest binding) = []
      then Inl InvalidBinding
      else if evidence = [] then Inl EmptyLedger
      else and_then (try_fold ledger_step [] evidence) (\<lambda>entries.
        let canonical = bt_values entries in
        if bind_ledger_digest binding \<noteq> ledger_digest H canonical then Inl DigestMismatch
        else and_then (try_all (map (row_bound binding) (bt_values entries))) (\<lambda>_.
        Inr \<lparr>led_binding = binding, led_entries = entries\<rparr>)))"

definition ledger_entries :: "HostEvidenceLedger \<Rightarrow> HostEvidenceEntry list" where
  "ledger_entries l = bt_values (led_entries l)"

definition ledger_get :: "HostEvidenceLedger \<Rightarrow> string \<Rightarrow> HostEvidenceEntry option" where
  "ledger_get l eid = bt_get (led_entries l) eid"

definition ledger_candidate_ids :: "HostEvidenceLedger \<Rightarrow> string set" where
  "ledger_candidate_ids l = set (map he_candidate_id (bt_values (led_entries l)))"

record FinalAnswerCandidateManifestV1 =
  man_candidate_id :: string
  man_evidence_ids :: "string list"

text \<open>\<open>entry(candidate).or_default().push(id)\<close>.\<close>

definition manifest_step ::
  "HostEvidenceEntry \<Rightarrow> (string, string list) btree_map \<Rightarrow> (string, string list) btree_map" where
  "manifest_step e m =
     bt_insert (he_candidate_id e)
       ((case bt_get m (he_candidate_id e) of None \<Rightarrow> [] | Some ids \<Rightarrow> ids) @ [he_evidence_id e]) m"

definition final_answer_manifest :: "HostEvidenceLedger \<Rightarrow> FinalAnswerCandidateManifestV1 list" where
  "final_answer_manifest l =
     map (\<lambda>kv. \<lparr>man_candidate_id = fst kv, man_evidence_ids = snd kv\<rparr>)
       (fold manifest_step (bt_values (led_entries l)) [])"

section \<open>Construction\<close>

definition nonblank :: "string \<Rightarrow> bool" where
  "nonblank s \<longleftrightarrow> trim s \<noteq> []"

definition ledger_wf :: "HostEvidenceLedger \<Rightarrow> bool" where
  "ledger_wf l \<longleftrightarrow> bt_wf (led_entries l)
     \<and> (\<forall>(id, e) \<in> set (led_entries l). he_evidence_id e = id \<and> nonblank id
          \<and> nonblank (he_candidate_id e)
          \<and> he_corpus_id e = bind_corpus_id (led_binding l)
          \<and> he_revision e = bind_revision (led_binding l))"

lemma ledger_fold:
  "bt_wf m \<Longrightarrow> try_fold ledger_step m evidence =
     (if list_all (\<lambda>e. nonblank (he_evidence_id e)) evidence \<and> distinct (map he_evidence_id evidence)
         \<and> (\<forall>e \<in> set evidence. bt_get m (he_evidence_id e) = None)
      then Inr (fold (\<lambda>e. bt_insert (he_evidence_id e) e) evidence m) else Inl DuplicateId)"
proof (induction evidence arbitrary: m)
  case Nil
  then show ?case by simp
next
  case (Cons e es)
  have get: "bt_get (bt_insert (he_evidence_id e) e m) k =
      (if k = he_evidence_id e then Some e else bt_get m k)" for k
    using Cons.prems by (simp add: bt_get_insert)
  show ?case
    using Cons.IH [OF bt_wf_insert [OF Cons.prems], of "he_evidence_id e" e]
    by (auto simp: ledger_step_def nonblank_def get intro: rev_image_eqI)
qed

definition rows_ok :: "HostEvidenceEntry list \<Rightarrow> bool" where
  "rows_ok evidence \<longleftrightarrow> list_all (\<lambda>e. nonblank (he_evidence_id e)) evidence
     \<and> distinct (map he_evidence_id evidence)"

lemma ledger_build:
  "try_fold ledger_step [] evidence =
     (if rows_ok evidence
      then Inr (map (\<lambda>e. (he_evidence_id e, e)) (sort_key he_evidence_id evidence))
      else Inl DuplicateId)"
proof -
  have "bt_wf ([] :: (string, HostEvidenceEntry) btree_map)" by (simp add: bt_wf_def)
  from ledger_fold [OF this, of evidence] show ?thesis
    using fold_insert_sort [of he_evidence_id evidence "\<lambda>e. e"]
    by (auto simp: rows_ok_def bt_get_def)
qed

lemma bt_values_keyed [simp]: "bt_values (map (\<lambda>e. (f e, e)) es) = es"
  by (simp add: bt_values_def comp_def)

lemma digest_sorted:
  "ledger_digest H (sort_key he_evidence_id evidence) = ledger_digest H evidence"
  by (simp add: ledger_digest_def digest_preimage_def sort_key_idem)

lemma try_all_map_ok: "try_all (map f xs) = Inr u \<longleftrightarrow> (\<forall>x \<in> set xs. f x = Inr ())"
  by (induction xs) simp_all

definition binding_ok :: "AnswerBindingV1 \<Rightarrow> bool" where
  "binding_ok b \<longleftrightarrow> nonblank (bind_session_id b) \<and> nonblank (bind_turn_id b)
     \<and> nonblank (bind_corpus_id b) \<and> nonblank (bind_ledger_digest b)"

lemma ledger_new_iff:
  "ledger_new H binding evidence = Inr l \<longleftrightarrow>
     binding_ok binding \<and> evidence \<noteq> [] \<and> rows_ok evidence
     \<and> bind_ledger_digest binding = ledger_digest H evidence
     \<and> (\<forall>e \<in> set evidence. nonblank (he_candidate_id e) \<and> he_corpus_id e = bind_corpus_id binding
          \<and> he_revision e = bind_revision binding)
     \<and> l = \<lparr>led_binding = binding,
            led_entries = map (\<lambda>e. (he_evidence_id e, e)) (sort_key he_evidence_id evidence)\<rparr>"
  by (auto simp: ledger_new_def ledger_build digest_sorted try_all_map_ok row_bound_def
      binding_ok_def nonblank_def split: if_splits)

lemma ledger_new_perm:
  assumes "mset evidence = mset evidence'"
  shows "ledger_new H binding evidence = ledger_new H binding evidence'"
proof -
  have ok: "rows_ok evidence \<longleftrightarrow> rows_ok evidence'"
    using assms mset_eq_imp_distinct_iff [of "map he_evidence_id evidence" "map he_evidence_id evidence'"]
      mset_eq_setD [OF assms] by (simp add: rows_ok_def list_all_iff)
  have srt: "sort_key he_evidence_id evidence = sort_key he_evidence_id evidence'" if "rows_ok evidence"
    using that assms by (intro sort_key_perm) (simp_all add: rows_ok_def)
  have "evidence = [] \<longleftrightarrow> evidence' = []" using assms by (metis mset_zero_iff)
  with ok srt show ?thesis
    by (simp add: ledger_new_def ledger_build)
qed

lemma ledger_new_wf:
  assumes "ledger_new H binding evidence = Inr l"
  shows "ledger_wf l" and "led_entries l \<noteq> []" and "ledger_entries l = sort_key he_evidence_id evidence"
    and "led_binding l = binding"
proof -
  note new = assms [unfolded ledger_new_iff]
  have d: "distinct (map he_evidence_id evidence)" using new by (simp add: rows_ok_def)
  show "ledger_wf l"
    using new sort_key_strict [OF d]
    by (auto simp: ledger_wf_def rows_ok_def bt_wf_def comp_def list_all_iff)
  have "set (sort_key he_evidence_id evidence) \<noteq> {}" using new by simp
  then show "led_entries l \<noteq> []" using new by force
  show "ledger_entries l = sort_key he_evidence_id evidence" "led_binding l = binding"
    using new by (simp_all add: ledger_entries_def)
qed

lemma ledger_new_get:
  assumes "ledger_new H binding evidence = Inr l"
  shows "bt_get (led_entries l) eid = Some e \<longleftrightarrow> e \<in> set evidence \<and> he_evidence_id e = eid"
    and "set (ledger_entries l) = set evidence"
proof -
  note new = assms [unfolded ledger_new_iff]
  let ?m = "map (\<lambda>e. (he_evidence_id e, e)) (sort_key he_evidence_id evidence)"
  have "bt_wf ?m" using ledger_new_wf(1) [OF assms] new by (simp add: ledger_wf_def)
  then have "distinct (map fst ?m)" by (rule bt_wf_distinct)
  then have "map_of ?m eid = Some e \<longleftrightarrow> (eid, e) \<in> set ?m" by (rule map_of_eq_Some_iff)
  then show "bt_get (led_entries l) eid = Some e \<longleftrightarrow> e \<in> set evidence \<and> he_evidence_id e = eid"
    using new by (auto simp: bt_get_def)
  show "set (ledger_entries l) = set evidence" using ledger_new_wf(3) [OF assms] by simp
qed

section \<open>The digest\<close>

definition row_nul_free :: "HostEvidenceEntry \<Rightarrow> bool" where
  "row_nul_free e \<longleftrightarrow> list_all nul_free (row_fields e)"

lemma role_byte_split: "role_byte a @ s = role_byte b @ t \<Longrightarrow> a = b \<and> s = t"
  by (cases a; cases b) auto

lemma row_bytes_split:
  assumes ok: "row_nul_free a" "row_nul_free b" and eq: "row_bytes a @ s = row_bytes b @ t"
  shows "a = b \<and> s = t"
proof -
  let ?rev = "\<lambda>e. to_le_bytes (event_revision (he_revision e))
      @ to_le_bytes (template_analysis_revision (he_revision e))
      @ to_le_bytes (suppression_revision (he_revision e))"
  let ?body = "\<lambda>e. concat (map nul_terminated (row_fields e))"
  have split: "row_bytes e @ x = role_byte (he_role e) @ ?body e @ ?rev e @ x" for e x
    by (simp add: row_bytes_def nul_terminated_def [abs_def])
  note role = role_byte_split [OF eq [unfolded split]]
  have len: "length (row_fields a) = length (row_fields b)" by (simp add: row_fields_def)
  have "row_fields a = row_fields b \<and> ?rev a @ s = ?rev b @ t"
    by (rule nul.sequence_split) (use ok role len in \<open>simp_all add: row_nul_free_def\<close>)
  moreover from this have "he_revision a = he_revision b \<and> s = t"
    by (auto intro: LogSnapshotRevisionV1.equality)
  ultimately show ?thesis
    using role by (auto simp: row_fields_def intro: HostEvidenceEntry.equality)
qed

interpretation rows: prefix_code row_bytes row_nul_free
proof unfold_locales
  show "row_bytes a \<noteq> []" if "row_nul_free a" for a
    by (cases "he_role a") (simp_all add: row_bytes_def)
  show "a = b \<and> s = t" if "row_nul_free a" "row_nul_free b" "row_bytes a @ s = row_bytes b @ t" for a b s t
    using that by (rule row_bytes_split)
qed

lemma digest_preimage_inject:
  assumes "\<forall>e \<in> set es. row_nul_free e" and "\<forall>e \<in> set es'. row_nul_free e"
    and "digest_preimage es = digest_preimage es'"
  shows "mset es = mset es'"
proof -
  have "sort_key he_evidence_id es = sort_key he_evidence_id es'"
    by (rule rows.sequence_inject) (use assms in \<open>simp_all add: digest_preimage_def list_all_iff\<close>)
  then show ?thesis by (metis mset_sort)
qed

section \<open>The manifest\<close>

lemma manifest_fold:
  "bt_wf m \<Longrightarrow> bt_wf (fold manifest_step es m) \<and>
     bt_get (fold manifest_step es m) c =
       (case (bt_get m c, map he_evidence_id (filter (\<lambda>e. he_candidate_id e = c) es)) of
          (None, []) \<Rightarrow> None
        | (None, ids) \<Rightarrow> Some ids
        | (Some ids, ids') \<Rightarrow> Some (ids @ ids'))"
proof (induction es arbitrary: m)
  case Nil
  then show ?case by (simp split: option.split)
next
  case (Cons e es)
  have wf: "bt_wf (manifest_step e m)" using Cons.prems by (simp add: manifest_step_def bt_wf_insert)
  show ?case
    using Cons.IH [OF wf] Cons.prems
    by (auto simp: manifest_step_def bt_get_insert split: option.splits list.splits)
qed

text \<open>The manifest lists every candidate of the ledger once, in order, with exactly its
  evidence ids in ledger order.\<close>

lemma final_answer_manifest_exact:
  "sorted_wrt (<) (map man_candidate_id (final_answer_manifest l))"
  "set (map man_candidate_id (final_answer_manifest l)) = ledger_candidate_ids l"
  "c \<in> set (final_answer_manifest l) \<Longrightarrow> man_evidence_ids c =
     map he_evidence_id (filter (\<lambda>e. he_candidate_id e = man_candidate_id c) (ledger_entries l))"
proof -
  let ?m = "fold manifest_step (bt_values (led_entries l)) []"
  let ?of = "\<lambda>c. map he_evidence_id (filter (\<lambda>e. he_candidate_id e = c) (bt_values (led_entries l)))"
  have wf: "bt_wf ?m"
    and get: "bt_get ?m c = (if ?of c = [] then None else Some (?of c))" for c
    using manifest_fold [of "[]" "bt_values (led_entries l)" c]
    by (auto simp: bt_wf_def bt_get_def split: list.splits)
  show "sorted_wrt (<) (map man_candidate_id (final_answer_manifest l))"
    using wf by (simp add: final_answer_manifest_def bt_wf_def comp_def)
  have "set (map fst ?m) = {c. ?of c \<noteq> []}"
    using get by (auto simp: bt_get_def dom_map_of_conv_image_fst [symmetric] dom_def split: if_splits)
  then show "set (map man_candidate_id (final_answer_manifest l)) = ledger_candidate_ids l"
    by (auto simp: final_answer_manifest_def comp_def ledger_candidate_ids_def filter_empty_conv)
  assume "c \<in> set (final_answer_manifest l)"
  then have "(man_candidate_id c, man_evidence_ids c) \<in> set ?m"
    by (auto simp: final_answer_manifest_def)
  then have "bt_get ?m (man_candidate_id c) = Some (man_evidence_ids c)"
    using bt_wf_distinct [OF wf] by (simp add: bt_get_def)
  then show "man_evidence_ids c =
      map he_evidence_id (filter (\<lambda>e. he_candidate_id e = man_candidate_id c) (ledger_entries l))"
    unfolding get by (simp add: ledger_entries_def split: if_splits)
qed

end
