(* ===== verification/Investigation_Answer.thy ===== *)
theory Investigation_Answer
  imports Investigation_Ledger
begin

text \<open>
  The answer validator \<open>validate_model_answer\<close> of
  \<open>crates/cd-core/src/investigation_answer.rs\<close>: a nested loop over candidates, sections,
  claims and evidence ids that threads sets of seen ids, the citation map and the root flag.
  The reference definition \<open>reference_envelope\<close> says without loops what the host derives
  from an acceptable proposal; the validator is shown to accept exactly the proposals that
  satisfy \<open>proposal_ok\<close> and to return exactly the reference envelope.

  Decoding the model text (\<open>serde_json::from_str\<close>) is the argument \<open>F\<close>.
\<close>

section \<open>Proposals\<close>

record ModelClaimV1 =
  mc_claim_id :: string
  mc_text :: string
  mc_evidence_ids :: "string list"

record ModelCandidateV1 =
  md_candidate_id :: string
  observations :: "ModelClaimV1 list"
  symptoms :: "ModelClaimV1 list"
  causal_candidates :: "ModelClaimV1 list"
  initiating_causes :: "ModelClaimV1 list"
  competing_explanations :: "ModelClaimV1 list"
  missing_evidence :: "ModelClaimV1 list"

record ModelInvestigationAnswerV1 =
  mia_schema :: string
  mia_candidates :: "ModelCandidateV1 list"

definition parse_model_json ::
  "(string \<Rightarrow> ModelInvestigationAnswerV1 option) \<Rightarrow> string
     \<Rightarrow> (ValidationError, ModelInvestigationAnswerV1) result" where
  "parse_model_json F raw =
     and_then (ok_or Parse (F raw)) (\<lambda>v. if mia_schema v \<noteq> SCHEMA_V1 then Inl Schema else Inr v)"

definition sections :: "ModelCandidateV1 \<Rightarrow> (ClaimKind \<times> ModelClaimV1 list) list" where
  "sections c =
     [(Observation, observations c), (Symptom, symptoms c),
      (CausalCandidate, causal_candidates c), (InitiatingCause, initiating_causes c),
      (CompetingExplanation, competing_explanations c), (MissingEvidence, missing_evidence c)]"

section \<open>The loop\<close>

record va_state =
  va_candidate_ids :: "string set"
  va_claim_ids :: "string set"
  va_citations :: "(string, CanonicalCitationV1) btree_map"
  va_candidates :: "InvestigationCandidateV1 list"
  va_root :: bool
  va_claims :: "InvestigationClaimV1 list"

definition va_init :: va_state where
  "va_init = \<lparr>va_candidate_ids = {}, va_claim_ids = {}, va_citations = [], va_candidates = [],
     va_root = False, va_claims = []\<rparr>"

definition canonical_citation :: "HostEvidenceEntry \<Rightarrow> CanonicalCitationV1" where
  "canonical_citation e =
     \<lparr>cit_evidence_id = he_evidence_id e, cit_candidate_id = he_candidate_id e,
      cit_source_label = he_source_label e, cit_locator = he_locator e,
      cit_corpus_id = he_corpus_id e, cit_revision = he_revision e, cit_content = he_content e\<rparr>"

definition or_insert :: "'k::linorder \<Rightarrow> 'v \<Rightarrow> ('k, 'v) btree_map \<Rightarrow> ('k, 'v) btree_map" where
  "or_insert k v m = (if bt_get m k = None then bt_insert k v m else m)"

text \<open>One evidence id of a claim.\<close>

definition evidence_step ::
  "HostEvidenceLedger \<Rightarrow> ClaimKind \<Rightarrow> string
     \<Rightarrow> string set \<times> (string, CanonicalCitationV1) btree_map \<Rightarrow> string
     \<Rightarrow> (ValidationError, string set \<times> (string, CanonicalCitationV1) btree_map) result" where
  "evidence_step l kind cand acc eid =
     (let (ids, citations) = acc in
      if eid \<in> ids then Inl DuplicateId
      else case bt_get (led_entries l) eid of
        None \<Rightarrow> Inl UnknownEvidence
      | Some entry \<Rightarrow>
          if kind = CausalCandidate \<and> he_role entry = RoleSymptom then Inl RoleMismatch
          else if he_candidate_id entry \<noteq> cand then Inl WrongScope
          else if he_corpus_id entry \<noteq> bind_corpus_id (led_binding l)
             \<or> he_revision entry \<noteq> bind_revision (led_binding l) then Inl WrongRevision
          else Inr (insert eid ids, or_insert eid (canonical_citation entry) citations))"

definition cause_root :: "HostEvidenceLedger \<Rightarrow> ClaimKind \<Rightarrow> ModelClaimV1 \<Rightarrow> bool" where
  "cause_root l kind c \<longleftrightarrow> kind = InitiatingCause
     \<and> list_ex (\<lambda>eid. case bt_get (led_entries l) eid of None \<Rightarrow> False
                       | Some e \<Rightarrow> he_role e = RoleCause) (mc_evidence_ids c)"

definition host_claim ::
  "HostEvidenceLedger \<Rightarrow> string \<Rightarrow> ClaimKind \<Rightarrow> ModelClaimV1 \<Rightarrow> InvestigationClaimV1" where
  "host_claim l cand kind c =
     \<lparr>claim_id = mc_claim_id c, claim_kind = kind, claim_text = mc_text c,
      claim_candidate_id = cand, claim_evidence_ids = mc_evidence_ids c,
      claim_status = (if kind = InitiatingCause \<and> \<not> cause_root l kind c then Withheld else Supported)\<rparr>"

definition claim_step ::
  "HostEvidenceLedger \<Rightarrow> string \<Rightarrow> ClaimKind \<Rightarrow> va_state \<Rightarrow> ModelClaimV1
     \<Rightarrow> (ValidationError, va_state) result" where
  "claim_step l cand kind st c =
     (if mc_claim_id c = [] \<or> mc_claim_id c \<in> va_claim_ids st then Inl DuplicateId
      else if mc_evidence_ids c = [] \<and> kind \<noteq> MissingEvidence then Inl EmptyEvidence
      else and_then (try_fold (evidence_step l kind cand) ({}, va_citations st) (mc_evidence_ids c))
        (\<lambda>(ids, citations).
          Inr (st\<lparr>va_claim_ids := insert (mc_claim_id c) (va_claim_ids st),
                  va_citations := citations,
                  va_root := va_root st \<or> cause_root l kind c,
                  va_claims := va_claims st @ [host_claim l cand kind c]\<rparr>)))"

definition section_step ::
  "HostEvidenceLedger \<Rightarrow> string \<Rightarrow> va_state \<Rightarrow> ClaimKind \<times> ModelClaimV1 list
     \<Rightarrow> (ValidationError, va_state) result" where
  "section_step l cand st ks = try_fold (claim_step l cand (fst ks)) st (snd ks)"

definition candidate_step ::
  "HostEvidenceLedger \<Rightarrow> va_state \<Rightarrow> ModelCandidateV1 \<Rightarrow> (ValidationError, va_state) result" where
  "candidate_step l st c =
     (if md_candidate_id c = [] \<or> md_candidate_id c \<in> va_candidate_ids st then Inl DuplicateId
      else
        (let st0 = st\<lparr>va_candidate_ids := insert (md_candidate_id c) (va_candidate_ids st),
                      va_claims := []\<rparr> in
         and_then (try_fold (section_step l (md_candidate_id c)) st0 (sections c)) (\<lambda>st1.
         Inr (st1\<lparr>va_candidates := va_candidates st1
                    @ [\<lparr>cand_candidate_id = md_candidate_id c, cand_claims = va_claims st1\<rparr>]\<rparr>))))"

definition validate_model_answer ::
  "(string \<Rightarrow> ModelInvestigationAnswerV1 option) \<Rightarrow> string \<Rightarrow> HostEvidenceLedger
     \<Rightarrow> (ValidationError, AnswerEnvelopeV1) result" where
  "validate_model_answer F raw l =
     (if led_entries l = [] then Inl EmptyLedger
      else and_then (parse_model_json F raw) (\<lambda>proposal.
      and_then (try_fold (candidate_step l) va_init (mia_candidates proposal)) (\<lambda>st.
      let ledger_candidates = set (map he_candidate_id (bt_values (led_entries l))) in
      if va_candidate_ids st \<noteq> ledger_candidates then Inl WrongScope
      else Inr \<lparr>env_binding = led_binding l, env_evidence = ledger_entries l,
                env_answer = \<lparr>ans_schema = SCHEMA_V1, ans_candidates = va_candidates st,
                  ans_canonical_citations = bt_values (va_citations st),
                  ans_root_cause_established = va_root st\<rparr>,
                env_semantic_attempts = 0\<rparr>)))"

section \<open>Reference definitions\<close>

text \<open>The claims of a candidate, of a proposal, and the evidence they cite.\<close>

definition claims_of :: "ModelCandidateV1 \<Rightarrow> (ClaimKind \<times> ModelClaimV1) list" where
  "claims_of c = concat (map (\<lambda>(kind, claims). map (Pair kind) claims) (sections c))"

definition cited_by :: "ModelCandidateV1 list \<Rightarrow> string set" where
  "cited_by cs = (\<Union>c \<in> set cs. \<Union>kc \<in> set (claims_of c). set (mc_evidence_ids (snd kc)))"

definition evidence_ok :: "HostEvidenceLedger \<Rightarrow> ClaimKind \<Rightarrow> string \<Rightarrow> string \<Rightarrow> bool" where
  "evidence_ok l kind cand eid \<longleftrightarrow>
     (case bt_get (led_entries l) eid of None \<Rightarrow> False
      | Some e \<Rightarrow> he_candidate_id e = cand
        \<and> he_corpus_id e = bind_corpus_id (led_binding l)
        \<and> he_revision e = bind_revision (led_binding l)
        \<and> \<not> (kind = CausalCandidate \<and> he_role e = RoleSymptom))"

definition claim_ok :: "HostEvidenceLedger \<Rightarrow> string \<Rightarrow> ClaimKind \<times> ModelClaimV1 \<Rightarrow> bool" where
  "claim_ok l cand kc \<longleftrightarrow> mc_claim_id (snd kc) \<noteq> []
     \<and> (mc_evidence_ids (snd kc) = [] \<longrightarrow> fst kc = MissingEvidence)
     \<and> distinct (mc_evidence_ids (snd kc))
     \<and> list_all (evidence_ok l (fst kc) cand) (mc_evidence_ids (snd kc))"

definition proposal_claim_ids :: "ModelCandidateV1 list \<Rightarrow> string list" where
  "proposal_claim_ids cs = concat (map (\<lambda>c. map (\<lambda>kc. mc_claim_id (snd kc)) (claims_of c)) cs)"

definition candidates_ok :: "HostEvidenceLedger \<Rightarrow> ModelCandidateV1 list \<Rightarrow> bool" where
  "candidates_ok l cs \<longleftrightarrow>
     list_all (\<lambda>c. md_candidate_id c \<noteq> [] \<and> list_all (claim_ok l (md_candidate_id c)) (claims_of c)) cs
     \<and> distinct (map md_candidate_id cs) \<and> distinct (proposal_claim_ids cs)"

definition proposal_ok :: "HostEvidenceLedger \<Rightarrow> ModelInvestigationAnswerV1 \<Rightarrow> bool" where
  "proposal_ok l p \<longleftrightarrow> mia_schema p = SCHEMA_V1 \<and> candidates_ok l (mia_candidates p)
     \<and> set (map md_candidate_id (mia_candidates p)) = ledger_candidate_ids l"

definition reference_candidate :: "HostEvidenceLedger \<Rightarrow> ModelCandidateV1 \<Rightarrow> InvestigationCandidateV1" where
  "reference_candidate l c =
     \<lparr>cand_candidate_id = md_candidate_id c,
      cand_claims = map (\<lambda>(kind, claim). host_claim l (md_candidate_id c) kind claim) (claims_of c)\<rparr>"

definition reference_root :: "HostEvidenceLedger \<Rightarrow> ModelCandidateV1 list \<Rightarrow> bool" where
  "reference_root l cs \<longleftrightarrow> (\<exists>c \<in> set cs. \<exists>kc \<in> set (claims_of c). cause_root l (fst kc) (snd kc))"

definition reference_envelope ::
  "HostEvidenceLedger \<Rightarrow> ModelInvestigationAnswerV1 \<Rightarrow> AnswerEnvelopeV1" where
  "reference_envelope l p =
     \<lparr>env_binding = led_binding l, env_evidence = ledger_entries l,
      env_answer = \<lparr>ans_schema = SCHEMA_V1,
        ans_candidates = map (reference_candidate l) (mia_candidates p),
        ans_canonical_citations = map canonical_citation
          (filter (\<lambda>e. he_evidence_id e \<in> cited_by (mia_candidates p)) (ledger_entries l)),
        ans_root_cause_established = reference_root l (mia_candidates p)\<rparr>,
      env_semantic_attempts = 0\<rparr>"

section \<open>The loop computes the reference\<close>

text \<open>The citation map after the evidence ids in \<open>cited\<close> have been looked up.\<close>

definition citations_for ::
  "HostEvidenceLedger \<Rightarrow> string set \<Rightarrow> (string, CanonicalCitationV1) btree_map \<Rightarrow> bool" where
  "citations_for l cited m \<longleftrightarrow> bt_wf m
     \<and> (\<forall>k. bt_get m k = (if k \<in> cited then map_option canonical_citation (bt_get (led_entries l) k)
                          else None))
     \<and> (\<forall>k \<in> cited. bt_get (led_entries l) k \<noteq> None)"

lemma citations_for_insert:
  "citations_for l cited m \<Longrightarrow> bt_get (led_entries l) k = Some e
     \<Longrightarrow> citations_for l (insert k cited) (or_insert k (canonical_citation e) m)"
  by (auto simp: citations_for_def or_insert_def bt_wf_insert bt_get_insert)

lemma evidence_loop:
  assumes "citations_for l cited m"
  shows "case try_fold (evidence_step l kind cand) (ids, m) eids of
      Inl err \<Rightarrow> \<not> (distinct eids \<and> set eids \<inter> ids = {} \<and> list_all (evidence_ok l kind cand) eids)
    | Inr (ids', m') \<Rightarrow> distinct eids \<and> set eids \<inter> ids = {} \<and> list_all (evidence_ok l kind cand) eids
        \<and> citations_for l (cited \<union> set eids) m'"
  using assms
proof (induction eids arbitrary: ids m cited)
  case Nil
  then show ?case by simp
next
  case (Cons eid eids)
  show ?case
  proof (cases "eid \<notin> ids \<and> evidence_ok l kind cand eid")
    case False
    then have "\<exists>err. evidence_step l kind cand (ids, m) eid = Inl err"
      by (auto simp: evidence_step_def evidence_ok_def split: option.splits)
    with False show ?thesis by auto
  next
    case True
    then obtain e where e: "bt_get (led_entries l) eid = Some e"
      and step: "evidence_step l kind cand (ids, m) eid =
        Inr (insert eid ids, or_insert eid (canonical_citation e) m)"
      by (auto simp: evidence_step_def evidence_ok_def split: option.splits)
    have "citations_for l (insert eid cited) (or_insert eid (canonical_citation e) m)"
      using citations_for_insert [OF Cons.prems e] .
    from Cons.IH [OF this, of "insert eid ids"] True step show ?thesis
      by (auto split: sum.splits)
  qed
qed

abbreviation cid :: "ClaimKind \<times> ModelClaimV1 \<Rightarrow> string" where
  "cid kc \<equiv> mc_claim_id (snd kc)"

abbreviation step_kc ::
  "HostEvidenceLedger \<Rightarrow> string \<Rightarrow> va_state \<Rightarrow> ClaimKind \<times> ModelClaimV1
     \<Rightarrow> (ValidationError, va_state) result" where
  "step_kc l cand st kc \<equiv> claim_step l cand (fst kc) st (snd kc)"

lemma try_fold_map: "try_fold f s (map g xs) = try_fold (\<lambda>s x. f s (g x)) s xs"
  by (induction xs arbitrary: s) (auto split: sum.splits)

lemma section_loop:
  "try_fold (section_step l cand) st secs =
     try_fold (step_kc l cand) st (concat (map (\<lambda>(kind, claims). map (Pair kind) claims) secs))"
  by (induction secs arbitrary: st)
     (auto simp: try_fold_append section_step_def try_fold_map split: sum.splits)

text \<open>One claim: refused, or recorded with the citations of its evidence.\<close>

lemma claim_step_cases:
  assumes cit: "citations_for l cited (va_citations st)"
  shows "case step_kc l cand st kc of
      Inl err \<Rightarrow> \<not> (claim_ok l cand kc \<and> cid kc \<notin> va_claim_ids st)
    | Inr st' \<Rightarrow> claim_ok l cand kc \<and> cid kc \<notin> va_claim_ids st
        \<and> (\<exists>m. citations_for l (cited \<union> set (mc_evidence_ids (snd kc))) m
             \<and> st' = st\<lparr>va_claim_ids := insert (cid kc) (va_claim_ids st), va_citations := m,
                  va_root := va_root st \<or> cause_root l (fst kc) (snd kc),
                  va_claims := va_claims st @ [host_claim l cand (fst kc) (snd kc)]\<rparr>)"
proof -
  let ?fold = "try_fold (evidence_step l (fst kc) cand) ({}, va_citations st) (mc_evidence_ids (snd kc))"
  note loop = evidence_loop [OF cit, where kind = "fst kc" and cand = cand and ids = "{}"
      and eids = "mc_evidence_ids (snd kc)"]
  show ?thesis
  proof (cases ?fold)
    case (Inl err)
    then show ?thesis using loop by (auto simp: claim_step_def claim_ok_def)
  next
    case (Inr r)
    obtain ids m where r: "r = (ids, m)" by (cases r)
    show ?thesis
      using loop Inr r by (auto simp: claim_step_def claim_ok_def)
  qed
qed

lemma claims_loop:
  assumes "citations_for l cited (va_citations st)"
  shows "case try_fold (step_kc l cand) st kcs of
      Inl err \<Rightarrow> \<not> (list_all (claim_ok l cand) kcs \<and> distinct (map cid kcs)
        \<and> set (map cid kcs) \<inter> va_claim_ids st = {})
    | Inr st' \<Rightarrow> list_all (claim_ok l cand) kcs \<and> distinct (map cid kcs)
        \<and> set (map cid kcs) \<inter> va_claim_ids st = {}
        \<and> (\<exists>m. citations_for l (cited \<union> (\<Union>kc \<in> set kcs. set (mc_evidence_ids (snd kc)))) m
             \<and> st' = st\<lparr>va_claim_ids := va_claim_ids st \<union> set (map cid kcs), va_citations := m,
                  va_root := va_root st \<or> (\<exists>kc \<in> set kcs. cause_root l (fst kc) (snd kc)),
                  va_claims := va_claims st @ map (\<lambda>(k, c). host_claim l cand k c) kcs\<rparr>)"
  using assms
proof (induction kcs arbitrary: st cited)
  case Nil
  then show ?case by auto
next
  case (Cons kc kcs)
  show ?case
  proof (cases "step_kc l cand st kc")
    case (Inl err)
    then show ?thesis using claim_step_cases [OF Cons.prems, of cand kc] by auto
  next
    case (Inr st1)
    with claim_step_cases [OF Cons.prems, of cand kc] obtain m where
      ok: "claim_ok l cand kc" "cid kc \<notin> va_claim_ids st"
      and m: "citations_for l (cited \<union> set (mc_evidence_ids (snd kc))) m"
      and st1: "st1 = st\<lparr>va_claim_ids := insert (cid kc) (va_claim_ids st), va_citations := m,
                  va_root := va_root st \<or> cause_root l (fst kc) (snd kc),
                  va_claims := va_claims st @ [host_claim l cand (fst kc) (snd kc)]\<rparr>"
      by auto
    have "citations_for l (cited \<union> set (mc_evidence_ids (snd kc))) (va_citations st1)"
      using m st1 by simp
    from Cons.IH [OF this] show ?thesis
      using Inr ok
      by (cases "try_fold (step_kc l cand) st1 kcs")
         (auto simp: st1 Un_assoc split_beta disj_assoc)
  qed
qed

abbreviation candidate_ok :: "HostEvidenceLedger \<Rightarrow> ModelCandidateV1 \<Rightarrow> bool" where
  "candidate_ok l c \<equiv> md_candidate_id c \<noteq> [] \<and> list_all (claim_ok l (md_candidate_id c)) (claims_of c)"

text \<open>The state after the candidates \<open>cs\<close>, up to the scratch list of the last one.\<close>

definition va_after :: "HostEvidenceLedger \<Rightarrow> ModelCandidateV1 list \<Rightarrow> va_state \<Rightarrow> bool" where
  "va_after l cs st \<longleftrightarrow>
     va_candidate_ids st = set (map md_candidate_id cs)
     \<and> va_claim_ids st = set (proposal_claim_ids cs)
     \<and> citations_for l (cited_by cs) (va_citations st)
     \<and> va_candidates st = map (reference_candidate l) cs
     \<and> va_root st = reference_root l cs"

lemma proposal_claim_ids_snoc:
  "proposal_claim_ids (cs @ [c]) = proposal_claim_ids cs @ map cid (claims_of c)"
  by (simp add: proposal_claim_ids_def)

lemma cited_by_snoc:
  "cited_by (cs @ [c]) = cited_by cs \<union> (\<Union>kc \<in> set (claims_of c). set (mc_evidence_ids (snd kc)))"
  by (auto simp: cited_by_def)

lemma candidate_step_cases:
  assumes "va_after l cs st"
  shows "case candidate_step l st c of
      Inl err \<Rightarrow> \<not> (candidate_ok l c \<and> md_candidate_id c \<notin> set (map md_candidate_id cs)
        \<and> distinct (map cid (claims_of c)) \<and> set (map cid (claims_of c)) \<inter> set (proposal_claim_ids cs) = {})
    | Inr st' \<Rightarrow> candidate_ok l c \<and> md_candidate_id c \<notin> set (map md_candidate_id cs)
        \<and> distinct (map cid (claims_of c)) \<and> set (map cid (claims_of c)) \<inter> set (proposal_claim_ids cs) = {}
        \<and> va_after l (cs @ [c]) st'"
proof (cases "md_candidate_id c = [] \<or> md_candidate_id c \<in> va_candidate_ids st")
  case True
  then show ?thesis using assms by (auto simp: candidate_step_def va_after_def)
next
  case False
  let ?st = "st\<lparr>va_candidate_ids := insert (md_candidate_id c) (va_candidate_ids st), va_claims := []\<rparr>"
  have cit: "citations_for l (cited_by cs) (va_citations ?st)" using assms by (simp add: va_after_def)
  note loop = claims_loop [OF cit, where cand = "md_candidate_id c" and kcs = "claims_of c"]
  have fold: "try_fold (section_step l (md_candidate_id c)) ?st (sections c) =
      try_fold (step_kc l (md_candidate_id c)) ?st (claims_of c)"
    by (simp add: section_loop claims_of_def)
  show ?thesis
  proof (cases "try_fold (step_kc l (md_candidate_id c)) ?st (claims_of c)")
    case (Inl err)
    then have "candidate_step l st c = Inl err"
      using False by (simp add: candidate_step_def fold Let_def)
    then show ?thesis
      using Inl loop False assms by (auto simp: va_after_def)
  next
    case (Inr st1)
    with loop obtain m where m: "citations_for l (cited_by (cs @ [c])) m"
      and st1: "st1 = ?st\<lparr>va_claim_ids := va_claim_ids ?st \<union> set (map cid (claims_of c)), va_citations := m,
          va_root := va_root ?st \<or> (\<exists>kc \<in> set (claims_of c). cause_root l (fst kc) (snd kc)),
          va_claims := va_claims ?st @ map (\<lambda>(k, cl). host_claim l (md_candidate_id c) k cl) (claims_of c)\<rparr>"
      by (auto simp: cited_by_snoc)
    have step: "candidate_step l st c =
        Inr (st1\<lparr>va_candidates := va_candidates st1
          @ [\<lparr>cand_candidate_id = md_candidate_id c, cand_claims = va_claims st1\<rparr>]\<rparr>)"
      using False Inr by (simp add: candidate_step_def fold Let_def)
    have "va_after l (cs @ [c]) (st1\<lparr>va_candidates := va_candidates st1
        @ [\<lparr>cand_candidate_id = md_candidate_id c, cand_claims = va_claims st1\<rparr>]\<rparr>)"
      using assms m by (auto simp: va_after_def st1 proposal_claim_ids_snoc reference_candidate_def
          reference_root_def split_beta)
    then show ?thesis
      using loop Inr False assms by (auto simp: step va_after_def)
  qed
qed

lemma candidates_loop:
  assumes "va_after l done st" and "candidates_ok l done"
  shows "case try_fold (candidate_step l) st cs of
      Inl err \<Rightarrow> \<not> candidates_ok l (done @ cs)
    | Inr st' \<Rightarrow> candidates_ok l (done @ cs) \<and> va_after l (done @ cs) st'"
  using assms
proof (induction cs arbitrary: st "done")
  case Nil
  then show ?case by simp
next
  case (Cons c cs)
  note step = candidate_step_cases [OF Cons.prems(1), of c]
  show ?case
  proof (cases "candidate_step l st c")
    case (Inl err)
    have ids: "proposal_claim_ids (done @ c # cs) =
        proposal_claim_ids done @ map cid (claims_of c) @ proposal_claim_ids cs"
      by (simp add: proposal_claim_ids_def)
    have "\<not> candidates_ok l (done @ c # cs)"
      using step Inl unfolding candidates_ok_def ids by (simp del: set_map) blast
    with Inl show ?thesis by simp
  next
    case (Inr st1)
    then have "va_after l (done @ [c]) st1" "candidates_ok l (done @ [c])"
      using step Cons.prems(2) by (auto simp: candidates_ok_def proposal_claim_ids_snoc)
    from Cons.IH [OF this] Inr show ?thesis by (simp split: sum.splits)
  qed
qed

lemma va_after_init: "va_after l [] va_init"
  by (simp add: va_after_def va_init_def proposal_claim_ids_def cited_by_def citations_for_def
      bt_wf_def bt_get_def reference_root_def)

lemma citations_values:
  assumes wf: "ledger_wf l" and cit: "citations_for l cited m"
  shows "bt_values m = map canonical_citation
    (filter (\<lambda>e. he_evidence_id e \<in> cited) (ledger_entries l))"
proof -
  let ?es = "filter (\<lambda>kv. fst kv \<in> cited) (led_entries l)"
  let ?m = "map (\<lambda>kv. (fst kv, canonical_citation (snd kv))) ?es"
  have keyed: "\<forall>kv \<in> set (led_entries l). he_evidence_id (snd kv) = fst kv" and "bt_wf (led_entries l)"
    using wf by (auto simp: ledger_wf_def)
  then have wf_m: "bt_wf ?m"
    by (simp add: bt_wf_def comp_def sorted_wrt_map sorted_wrt_filter)
  have "map_of (map (\<lambda>kv. (fst kv, canonical_citation (snd kv))) (filter (\<lambda>kv. fst kv \<in> cited) xs)) k =
      (if k \<in> cited then map_option canonical_citation (map_of xs k) else None)" for xs k
    by (induction xs) auto
  then have "bt_get m = bt_get ?m"
    using cit by (auto simp: citations_for_def bt_get_def fun_eq_iff)
  then have "m = ?m"
    using cit wf_m by (intro bt_extensional) (auto simp: citations_for_def)
  moreover have "ledger_entries l = map snd (led_entries l)"
    by (simp add: ledger_entries_def bt_values_def)
  moreover have "filter (\<lambda>e. he_evidence_id e \<in> cited) (map snd (led_entries l)) = map snd ?es"
    using keyed by (auto simp: filter_map comp_def cong: filter_cong)
  ultimately show ?thesis by (simp add: bt_values_def comp_def)
qed

text \<open>The validator accepts exactly the acceptable proposals and returns the reference envelope.\<close>

lemma validate_model_answer_iff:
  assumes wf: "ledger_wf l" and ne: "led_entries l \<noteq> []"
  shows "validate_model_answer F raw l = Inr env \<longleftrightarrow>
     (\<exists>p. F raw = Some p \<and> proposal_ok l p \<and> env = reference_envelope l p)"
proof (cases "parse_model_json F raw")
  case (Inl err)
  then show ?thesis
    by (auto simp: validate_model_answer_def parse_model_json_def proposal_ok_def ok_or_def
        split: option.splits if_splits)
next
  case (Inr p)
  then have p: "F raw = Some p" "mia_schema p = SCHEMA_V1"
    by (auto simp: parse_model_json_def ok_or_def split: option.splits if_splits)
  have "candidates_ok l []" by (simp add: candidates_ok_def proposal_claim_ids_def)
  note loop = candidates_loop [OF va_after_init this, of "mia_candidates p", simplified]
  show ?thesis
  proof (cases "try_fold (candidate_step l) va_init (mia_candidates p)")
    case fail: (Inl err)
    then show ?thesis
      using loop p Inr ne by (auto simp: validate_model_answer_def proposal_ok_def)
  next
    case st: (Inr st)
    then have ok: "candidates_ok l (mia_candidates p)" and after: "va_after l (mia_candidates p) st"
      using loop by auto
    have "bt_values (va_citations st) = map canonical_citation
        (filter (\<lambda>e. he_evidence_id e \<in> cited_by (mia_candidates p)) (ledger_entries l))"
      using after citations_values [OF wf] by (simp add: va_after_def)
    then show ?thesis
      using p Inr ne ok after st
      by (auto simp: validate_model_answer_def proposal_ok_def reference_envelope_def va_after_def
          ledger_candidate_ids_def Let_def)
  qed
qed

end
