(* ===== verification/Answer_Render.thy ===== *)
theory Answer_Render
  imports Investigation_Answer
begin

text \<open>
  The display side of \<open>crates/cd-core/src/investigation_answer.rs\<close>: the single-line boundary
  \<open>literal_display_text\<close> for untrusted values, \<open>literal_span\<close>, and the Markdown projection
  \<open>render_answer_markdown\<close>.  Shown here: the boundary removes every line break, control and
  bidi character and is idempotent, and the projection does not depend on the order of
  candidates, claims, evidence ids or citations.

  \<open>char::is_alphanumeric\<close> (Unicode tables) is the argument \<open>alnum\<close>.
\<close>

section \<open>Literal text\<close>

definition BIDI_FORMATTING_CONTROLS :: "string list" where
  "BIDI_FORMATTING_CONTROLS =
     [[CHR 0xD8, CHR 0x9C], [CHR 0xE2, CHR 0x80, CHR 0x8E], [CHR 0xE2, CHR 0x80, CHR 0x8F],
      [CHR 0xE2, CHR 0x80, CHR 0xAA], [CHR 0xE2, CHR 0x80, CHR 0xAB], [CHR 0xE2, CHR 0x80, CHR 0xAC],
      [CHR 0xE2, CHR 0x80, CHR 0xAD], [CHR 0xE2, CHR 0x80, CHR 0xAE], [CHR 0xE2, CHR 0x81, CHR 0xA6],
      [CHR 0xE2, CHR 0x81, CHR 0xA7], [CHR 0xE2, CHR 0x81, CHR 0xA8], [CHR 0xE2, CHR 0x81, CHR 0xA9]]"

definition is_bidi_formatting_control :: "string \<Rightarrow> bool" where
  "is_bidi_formatting_control c \<longleftrightarrow> c \<in> set BIDI_FORMATTING_CONTROLS"

definition is_line_boundary :: "string \<Rightarrow> bool" where
  "is_line_boundary c \<longleftrightarrow> c \<in> set
     [[CHR 0x0A], [CHR 0x0D], [CHR 0x09], [CHR 0x0B], [CHR 0x0C], [CHR 0xC2, CHR 0x85],
      [CHR 0xE2, CHR 0x80, CHR 0xA8], [CHR 0xE2, CHR 0x80, CHR 0xA9]]"

definition apostrophe :: "string \<Rightarrow> string" where
  "apostrophe c = (if c = [CHR 0x60] then [CHR 0x27] else c)"

definition display_step :: "string \<times> bool \<Rightarrow> string \<Rightarrow> string \<times> bool" where
  "display_step st c =
     (let (out, pending_space) = st in
      if is_line_boundary c \<or> c = '' '' then (out, out \<noteq> [])
      else if is_control c \<or> c = [CHR 0x7F] \<or> is_bidi_formatting_control c then (out, pending_space)
      else ((if pending_space then out @ '' '' else out) @ apostrophe c, False))"

definition literal_display_text :: "string \<Rightarrow> string" where
  "literal_display_text raw = fst (foldl display_step ([], False) (utf8_chars raw))"

definition EMPTY_VALUE_PLACEHOLDER :: string where
  "EMPTY_VALUE_PLACEHOLDER = ''(empty)''"

definition literal_span :: "string \<Rightarrow> string" where
  "literal_span raw =
     (let normalized = literal_display_text raw in
      if normalized = [] then EMPTY_VALUE_PLACEHOLDER else [CHR 0x60] @ normalized @ [CHR 0x60])"

section \<open>Markdown projection\<close>

fun claim_kind_label :: "ClaimKind \<Rightarrow> string" where
  "claim_kind_label Observation = ''Observations''"
| "claim_kind_label Symptom = ''Symptoms''"
| "claim_kind_label CausalCandidate = ''Causal candidates''"
| "claim_kind_label InitiatingCause = ''Initiating causes''"
| "claim_kind_label CompetingExplanation = ''Competing explanations''"
| "claim_kind_label MissingEvidence = ''Missing evidence''"

definition CLAIM_KIND_RENDER_ORDER :: "ClaimKind list" where
  "CLAIM_KIND_RENDER_ORDER = [Observation, Symptom, CausalCandidate, InitiatingCause,
     CompetingExplanation, MissingEvidence]"

fun claim_status_marker :: "ClaimStatus \<Rightarrow> string option" where
  "claim_status_marker Supported = None"
| "claim_status_marker Unsupported = Some ''**[unsupported]**''"
| "claim_status_marker Withheld = Some ''**[withheld]**''"

text \<open>\<open>split(|c| !c.is_alphanumeric()).filter(|token| !token.is_empty())\<close>.\<close>

fun split_tokens :: "(string \<Rightarrow> bool) \<Rightarrow> string \<Rightarrow> string list \<Rightarrow> string list" where
  "split_tokens alnum cur [] = (if cur = [] then [] else [cur])"
| "split_tokens alnum cur (c # cs) =
     (if alnum c then split_tokens alnum (cur @ c) cs
      else (if cur = [] then [] else [cur]) @ split_tokens alnum [] cs)"

definition excerpt_adds_information :: "(string \<Rightarrow> bool) \<Rightarrow> string \<Rightarrow> string \<Rightarrow> bool" where
  "excerpt_adds_information alnum content already_shown =
     (let shown_tokens = set (split_tokens alnum [] (utf8_chars (to_ascii_lowercase already_shown)))
      in list_ex (\<lambda>token. token \<notin> shown_tokens)
           (split_tokens alnum [] (utf8_chars (to_ascii_lowercase content))))"

definition nl :: string where "nl = [CHR 0x0A]"
definition em_dash :: string where "em_dash = [CHR 0xE2, CHR 0x80, CHR 0x94]"
definition middle_dot :: string where "middle_dot = [CHR 0xC2, CHR 0xB7]"

fun join :: "string \<Rightarrow> string list \<Rightarrow> string" where
  "join sep [] = []"
| "join sep [x] = x"
| "join sep (x # xs) = x @ sep @ join sep xs"

type_synonym citation_map = "(string, CanonicalCitationV1) btree_map"
type_synonym id_set = "(string, unit) btree_map"

definition cited_ids :: "citation_map \<Rightarrow> InvestigationClaimV1 \<Rightarrow> string list" where
  "cited_ids citations claim =
     remdups_adj (sort (filter (\<lambda>eid. bt_get citations eid \<noteq> None) (claim_evidence_ids claim)))"

definition render_claim ::
  "citation_map \<Rightarrow> string \<times> id_set \<Rightarrow> InvestigationClaimV1 \<Rightarrow> string \<times> id_set" where
  "render_claim citations st claim =
     (let (out, displayed) = st;
          marker = (case claim_status_marker (claim_status claim) of None \<Rightarrow> [] | Some mk \<Rightarrow> mk @ '' '');
          cited = cited_ids citations claim;
          out1 = out @ ''- '' @ marker @ literal_span (claim_text claim)
      in if cited \<noteq> [] then
           (out1 @ '' '' @ em_dash @ '' cites '' @ join '', '' (map literal_span cited) @ nl,
            fold (\<lambda>eid. bt_insert eid ()) cited displayed)
         else if claim_evidence_ids claim \<noteq> [] then
           (out1 @ '' '' @ em_dash @ '' no host citation available'' @ nl, displayed)
         else (out1 @ nl, displayed))"

text \<open>The last component is \<open>rendered_any\<close>.\<close>

definition render_kind ::
  "citation_map \<Rightarrow> InvestigationCandidateV1 \<Rightarrow> string \<times> id_set \<times> bool \<Rightarrow> ClaimKind
     \<Rightarrow> string \<times> id_set \<times> bool" where
  "render_kind citations candidate st kind =
     (let (out, displayed, rendered_any) = st;
          claims = filter (\<lambda>claim. claim_kind claim = kind) (cand_claims candidate)
      in if claims = [] then st
         else
           (let sorted_claims = sort_key claim_id claims;
                (out', displayed') = foldl (render_claim citations)
                  (out @ nl @ ''**'' @ claim_kind_label kind @ ''**'' @ nl @ nl, displayed) sorted_claims
            in (out', displayed', True)))"

definition render_candidate ::
  "citation_map \<Rightarrow> string \<times> id_set \<Rightarrow> InvestigationCandidateV1 \<Rightarrow> string \<times> id_set" where
  "render_candidate citations st candidate =
     (let (out, displayed) = st;
          (out', displayed', rendered_any) = foldl (render_kind citations candidate)
            (out @ nl @ ''## Candidate '' @ literal_span (cand_candidate_id candidate) @ nl,
             displayed, False) CLAIM_KIND_RENDER_ORDER
      in (if rendered_any then out'
          else out' @ nl @ ''No claims were reported for this candidate.'' @ nl, displayed'))"

definition render_evidence ::
  "(string \<Rightarrow> bool) \<Rightarrow> AnswerBindingV1 \<Rightarrow> CanonicalCitationV1 \<Rightarrow> string" where
  "render_evidence alnum binding citation =
     (let line = ''- '' @ literal_span (cit_evidence_id citation) @ '' '' @ em_dash @ '' ''
            @ literal_span (cit_source_label citation) @ '' '' @ middle_dot @ '' ''
            @ literal_span (cit_locator citation);
          stale = (if cit_corpus_id citation \<noteq> bind_corpus_id binding
                      \<or> cit_revision citation \<noteq> bind_revision binding
                   then '' '' @ middle_dot @ '' outside this turn'' @ [CHR 0x27] @ ''s evidence snapshot''
                   else []);
          excerpt = literal_display_text (cit_content citation);
          more = (if excerpt \<noteq> [] \<and> excerpt_adds_information alnum excerpt line
                  then nl @ ''  - '' @ literal_span excerpt else [])
      in line @ stale @ more @ nl)"

definition citation_index :: "CanonicalCitationV1 list \<Rightarrow> citation_map" where
  "citation_index cs = fold (\<lambda>c. bt_insert (cit_evidence_id c) c) cs []"

definition render_header :: "AnswerEnvelopeV1 \<Rightarrow> string" where
  "render_header env =
     ''# Investigation answer'' @ nl @ nl
     @ ''- Root cause established: ''
     @ (if ans_root_cause_established (env_answer env) then ''yes'' else ''no'') @ nl
     @ ''- Confidence: not rated by this contract'' @ nl
     @ ''- Evidence snapshot: corpus '' @ literal_span (bind_corpus_id (env_binding env))
     @ '' '' @ middle_dot @ '' events '' @ show_nat (unat (event_revision (bind_revision (env_binding env))))
     @ '' '' @ middle_dot @ '' template analysis ''
     @ show_nat (unat (template_analysis_revision (bind_revision (env_binding env))))
     @ '' '' @ middle_dot @ '' suppression ''
     @ show_nat (unat (suppression_revision (bind_revision (env_binding env)))) @ nl"

definition render_answer_markdown :: "(string \<Rightarrow> bool) \<Rightarrow> AnswerEnvelopeV1 \<Rightarrow> string" where
  "render_answer_markdown alnum env =
     (let citations = citation_index (ans_canonical_citations (env_answer env));
          candidates = sort_key cand_candidate_id (ans_candidates (env_answer env));
          out = render_header env
            @ (if candidates = [] then nl @ ''No candidate was reported for this turn.'' @ nl else []);
          (out', displayed) = foldl (render_candidate citations) (out, []) candidates
      in if displayed = [] then out'
         else out' @ nl @ ''## Evidence'' @ nl @ nl
           @ concat (map (\<lambda>eid. case bt_get citations eid of None \<Rightarrow> []
                       | Some citation \<Rightarrow> render_evidence alnum (env_binding env) citation)
               (bt_keys displayed)))"

section \<open>The single-line boundary\<close>

text \<open>The loop on scalar values: \<open>ne\<close> says that something was already written.\<close>

definition dropped :: "string \<Rightarrow> bool" where
  "dropped c \<longleftrightarrow> is_control c \<or> c = [CHR 0x7F] \<or> is_bidi_formatting_control c"

fun display_groups :: "bool \<Rightarrow> bool \<Rightarrow> string list \<Rightarrow> string list" where
  "display_groups ne pending [] = []"
| "display_groups ne pending (c # cs) =
     (if is_line_boundary c \<or> c = '' '' then display_groups ne ne cs
      else if dropped c then display_groups ne pending cs
      else (if pending then ['' ''] else []) @ apostrophe c # display_groups True False cs)"

lemma display_loop:
  "[] \<notin> set cs \<Longrightarrow> fst (foldl display_step (out, pending) cs) =
     out @ concat (display_groups (out \<noteq> []) pending cs)"
  by (induction cs arbitrary: out pending)
     (auto simp: display_step_def dropped_def apostrophe_def)

definition clean :: "string \<Rightarrow> bool" where
  "clean c \<longleftrightarrow> \<not> is_line_boundary c \<and> \<not> is_control c \<and> \<not> is_bidi_formatting_control c \<and> c \<noteq> [CHR 0x60]"

lemma clean_space: "clean '' ''"
  by code_simp

lemma clean_apostrophe:
  "\<not> is_line_boundary c \<Longrightarrow> \<not> dropped c \<Longrightarrow> clean (apostrophe c)"
proof -
  have "clean [CHR 0x27]" by code_simp
  then show "\<not> is_line_boundary c \<Longrightarrow> \<not> dropped c \<Longrightarrow> clean (apostrophe c)"
    by (auto simp: clean_def apostrophe_def dropped_def)
qed

lemma display_groups_clean: "g \<in> set (display_groups ne pending cs) \<Longrightarrow> clean g"
  by (induction ne pending cs rule: display_groups.induct)
     (auto simp: clean_space clean_apostrophe split: if_splits)

lemma apostrophe_visible:
  assumes "\<not> is_line_boundary c" "c \<noteq> '' ''" "\<not> dropped c"
  shows "apostrophe c \<noteq> '' ''" "\<not> is_line_boundary (apostrophe c)" "\<not> dropped (apostrophe c)"
    "apostrophe (apostrophe c) = apostrophe c"
proof -
  have "clean (apostrophe c)" by (rule clean_apostrophe [OF assms(1,3)])
  moreover have "\<not> dropped [CHR 0x27]" by code_simp
  ultimately show "apostrophe c \<noteq> '' ''" "\<not> is_line_boundary (apostrophe c)" "\<not> dropped (apostrophe c)"
    "apostrophe (apostrophe c) = apostrophe c"
    using assms by (auto simp: clean_def apostrophe_def)
qed

lemma display_groups_idem:
  "(pending \<longrightarrow> ne) \<Longrightarrow> display_groups ne False (display_groups ne pending cs) = display_groups ne pending cs"
proof (induction ne pending cs rule: display_groups.induct)
  case (2 ne pending c cs)
  then show ?case
    using apostrophe_visible [of c] by (auto simp: is_line_boundary_def)
qed simp

lemma display_groups_spacing:
  "successively (\<lambda>a b. \<not> (a = '' '' \<and> b = '' '')) (display_groups ne pending cs)
     \<and> (display_groups ne pending cs \<noteq> [] \<longrightarrow> last (display_groups ne pending cs) \<noteq> '' '')
     \<and> (\<not> ne \<longrightarrow> \<not> pending \<longrightarrow> display_groups ne pending cs \<noteq> [] \<longrightarrow> hd (display_groups ne pending cs) \<noteq> '' '')"
proof (induction ne pending cs rule: display_groups.induct)
  case (2 ne pending c cs)
  then show ?case
    using apostrophe_visible [of c] by (auto simp: successively_Cons)
qed simp

text \<open>The kept values are still the scalar values of the result.\<close>

definition scalar_group :: "string \<Rightarrow> bool" where
  "scalar_group g \<longleftrightarrow> g \<noteq> [] \<and> list_all is_cont_byte (tl g) \<and> \<not> is_cont_byte (hd g)"

lemma apostrophe_group:
  "g \<noteq> [] \<and> list_all is_cont_byte (tl g) \<Longrightarrow> apostrophe g \<noteq> [] \<and> list_all is_cont_byte (tl (apostrophe g))"
  "scalar_group g \<Longrightarrow> scalar_group (apostrophe g)"
  by (auto simp: apostrophe_def scalar_group_def)

lemma scalar_group_space: "scalar_group '' ''"
  by code_simp

lemma display_groups_scalar:
  "list_all scalar_group cs \<Longrightarrow> list_all scalar_group (display_groups ne pending cs)"
  by (induction ne pending cs rule: display_groups.induct)
     (auto simp: apostrophe_group scalar_group_space)

lemma utf8_groups_Cons:
  "utf8_groups (g # gs) \<longleftrightarrow> g \<noteq> [] \<and> list_all is_cont_byte (tl g) \<and> list_all scalar_group gs"
  by (auto simp: utf8_groups_def scalar_group_def list_all_iff)

lemma utf8_groups_scalar: "list_all scalar_group gs \<Longrightarrow> utf8_groups gs"
  by (cases gs) (auto simp: utf8_groups_def scalar_group_def list_all_iff)

lemma utf8_groups_display:
  "utf8_groups gs \<Longrightarrow> utf8_groups (display_groups False False gs)"
  by (cases gs)
     (auto simp: utf8_groups_Cons apostrophe_group display_groups_scalar utf8_groups_scalar)

lemma utf8_chars_literal:
  "utf8_chars (literal_display_text raw) = display_groups False False (utf8_chars raw)"
proof -
  have "[] \<notin> set (utf8_chars raw)" using utf8_chars_nonempty by blast
  then have "literal_display_text raw = concat (display_groups False False (utf8_chars raw))"
    using display_loop [of "utf8_chars raw" "[]" False] by (simp add: literal_display_text_def)
  then show ?thesis
    using utf8_groups_display [OF utf8_groups_chars] by (simp add: utf8_chars_concat)
qed

lemma literal_display_text_eqI:
  "utf8_chars a = utf8_chars b \<Longrightarrow> a = b"
  by (metis concat_utf8_chars)

lemma literal_display_text_idem: "literal_display_text (literal_display_text raw) = literal_display_text raw"
  by (rule literal_display_text_eqI) (simp add: utf8_chars_literal display_groups_idem)

section \<open>Order independence\<close>

lemma insort_key_rel:
  assumes "list_all2 R xs ys" and "R x y" and "\<And>a b. R a b \<Longrightarrow> f a = f b"
  shows "list_all2 R (insort_key f x xs) (insort_key f y ys)"
  using assms(1,2)
proof (induction rule: list_all2_induct)
  case (Cons a as b bs)
  then show ?case using assms(3) [of a b] assms(3) [of x y] by auto
qed simp

lemma sort_key_rel:
  assumes "list_all2 R xs ys" and "\<And>a b. R a b \<Longrightarrow> f a = f b"
  shows "list_all2 R (sort_key f xs) (sort_key f ys)"
  using assms(1)
  by (induction rule: list_all2_induct) (auto intro: insort_key_rel assms(2))

text \<open>Two values that differ only in the order of their lists.\<close>

definition claim_equiv :: "InvestigationClaimV1 \<Rightarrow> InvestigationClaimV1 \<Rightarrow> bool" where
  "claim_equiv c c' \<longleftrightarrow> claim_id c = claim_id c' \<and> claim_kind c = claim_kind c'
     \<and> claim_text c = claim_text c' \<and> claim_status c = claim_status c'
     \<and> mset (claim_evidence_ids c) = mset (claim_evidence_ids c')"

definition permuted_by :: "('a \<Rightarrow> 'a \<Rightarrow> bool) \<Rightarrow> 'a list \<Rightarrow> 'a list \<Rightarrow> bool" where
  "permuted_by R xs ys \<longleftrightarrow> (\<exists>zs. mset xs = mset zs \<and> list_all2 R zs ys)"

definition candidate_equiv :: "InvestigationCandidateV1 \<Rightarrow> InvestigationCandidateV1 \<Rightarrow> bool" where
  "candidate_equiv c c' \<longleftrightarrow> cand_candidate_id c = cand_candidate_id c'
     \<and> permuted_by claim_equiv (cand_claims c) (cand_claims c')"

definition envelope_equiv :: "AnswerEnvelopeV1 \<Rightarrow> AnswerEnvelopeV1 \<Rightarrow> bool" where
  "envelope_equiv e e' \<longleftrightarrow> env_binding e = env_binding e'
     \<and> ans_root_cause_established (env_answer e) = ans_root_cause_established (env_answer e')
     \<and> permuted_by candidate_equiv (ans_candidates (env_answer e)) (ans_candidates (env_answer e'))
     \<and> mset (ans_canonical_citations (env_answer e)) = mset (ans_canonical_citations (env_answer e'))"

definition ids_distinct :: "AnswerEnvelopeV1 \<Rightarrow> bool" where
  "ids_distinct e \<longleftrightarrow> distinct (map cand_candidate_id (ans_candidates (env_answer e)))
     \<and> (\<forall>c \<in> set (ans_candidates (env_answer e)). distinct (map claim_id (cand_claims c)))
     \<and> distinct (map cit_evidence_id (ans_canonical_citations (env_answer e)))"

lemma permuted_by_mono:
  assumes "permuted_by R xs ys" and "\<And>a b. a \<in> set xs \<Longrightarrow> R a b \<Longrightarrow> Q a b"
  shows "permuted_by Q xs ys"
proof -
  from assms(1) obtain zs where zs: "mset xs = mset zs" "list_all2 R zs ys"
    by (auto simp: permuted_by_def)
  have "list_all2 Q zs ys"
    using zs(2) by (rule list.rel_mono_strong) (use assms(2) mset_eq_setD [OF zs(1)] in blast)
  with zs(1) show ?thesis by (auto simp: permuted_by_def)
qed

lemma permuted_sort:
  assumes "permuted_by R xs ys" and "distinct (map f xs)" and "\<And>a b. R a b \<Longrightarrow> f a = f b"
  shows "list_all2 R (sort_key f xs) (sort_key f ys)"
proof -
  from assms(1) obtain zs where zs: "mset xs = mset zs" "list_all2 R zs ys"
    by (auto simp: permuted_by_def)
  have "list_all2 R (sort_key f zs) (sort_key f ys)" using sort_key_rel [OF zs(2) assms(3)] .
  then show ?thesis using sort_key_perm [OF assms(2) zs(1)] by simp
qed

lemma permuted_filter:
  assumes "permuted_by R xs ys" and "\<And>a b. R a b \<Longrightarrow> P a = P b"
  shows "permuted_by R (filter P xs) (filter P ys)"
proof -
  from assms(1) obtain zs where zs: "mset xs = mset zs" "list_all2 R zs ys"
    by (auto simp: permuted_by_def)
  from zs(2) have "list_all2 R (filter P zs) (filter P ys)"
    by (induction rule: list_all2_induct) (auto simp: assms(2))
  then show ?thesis using zs(1) by (auto simp: permuted_by_def intro!: exI [of _ "filter P zs"])
qed

lemma foldl_rel:
  assumes "list_all2 R xs ys" and "\<And>s a b. R a b \<Longrightarrow> f s a = f s b"
  shows "foldl f s xs = foldl f s ys"
  using assms(1) by (induction arbitrary: s rule: list_all2_induct) (auto simp: assms(2))

lemma render_claim_equiv:
  assumes "claim_equiv c c'"
  shows "render_claim m st c = render_claim m st c'"
proof -
  have ms: "mset (claim_evidence_ids c) = mset (claim_evidence_ids c')"
    using assms by (simp add: claim_equiv_def)
  then have "sort (filter P (claim_evidence_ids c)) = sort (filter P (claim_evidence_ids c'))" for P
    by (intro properties_for_sort) simp_all
  then have cited: "cited_ids m c = cited_ids m c'" by (simp only: cited_ids_def)
  have empty: "claim_evidence_ids c = [] \<longleftrightarrow> claim_evidence_ids c' = []"
    using ms by (metis mset_zero_iff)
  have "claim_text c = claim_text c'" "claim_status c = claim_status c'"
    using assms by (simp_all add: claim_equiv_def)
  then show ?thesis
    by (simp only: render_claim_def cited empty)
qed

lemma render_kind_equiv:
  assumes "candidate_equiv c c'" and "distinct (map claim_id (cand_claims c))"
  shows "render_kind m c st kind = render_kind m c' st kind"
proof -
  let ?claims = "\<lambda>c. filter (\<lambda>claim. claim_kind claim = kind) (cand_claims c)"
  have perm: "permuted_by claim_equiv (?claims c) (?claims c')"
    using assms by (intro permuted_filter) (auto simp: candidate_equiv_def claim_equiv_def)
  have d: "distinct (map claim_id (?claims c))"
    using assms by (simp add: candidate_equiv_def distinct_map_filter)
  have "list_all2 claim_equiv (sort_key claim_id (?claims c)) (sort_key claim_id (?claims c'))"
    by (rule permuted_sort [OF perm d]) (simp add: claim_equiv_def)
  note fold = foldl_rel [OF this render_claim_equiv]
  from perm obtain zs where "mset (?claims c) = mset zs" "list_all2 claim_equiv zs (?claims c')"
    by (auto simp: permuted_by_def simp del: mset_filter)
  then have "?claims c = [] \<longleftrightarrow> ?claims c' = []"
    by (metis list_all2_lengthD length_0_conv size_mset)
  then show ?thesis
    by (cases st) (simp add: render_kind_def fold)
qed

lemma render_candidate_equiv:
  assumes "candidate_equiv c c' \<and> distinct (map claim_id (cand_claims c))"
  shows "render_candidate m st c = render_candidate m st c'"
proof -
  have "render_kind m c = render_kind m c'"
    by (intro ext) (rule render_kind_equiv [OF conjunct1 [OF assms] conjunct2 [OF assms]])
  then show ?thesis
    using assms by (simp add: render_candidate_def candidate_equiv_def)
qed

lemma render_answer_equiv:
  assumes "envelope_equiv e e'" and "ids_distinct e"
  shows "render_answer_markdown alnum e = render_answer_markdown alnum e'"
proof -
  have cits: "citation_index (ans_canonical_citations (env_answer e)) =
      citation_index (ans_canonical_citations (env_answer e'))"
    using assms unfolding citation_index_def envelope_equiv_def ids_distinct_def
    by (intro bt.fold_insert_perm) auto
  let ?R = "\<lambda>c c'. candidate_equiv c c' \<and> distinct (map claim_id (cand_claims c))"
  have "permuted_by ?R (ans_candidates (env_answer e)) (ans_candidates (env_answer e'))"
    by (rule permuted_by_mono [of candidate_equiv])
       (use assms in \<open>auto simp: envelope_equiv_def ids_distinct_def\<close>)
  then have "list_all2 ?R (sort_key cand_candidate_id (ans_candidates (env_answer e)))
      (sort_key cand_candidate_id (ans_candidates (env_answer e')))"
    by (rule permuted_sort) (use assms in \<open>auto simp: ids_distinct_def candidate_equiv_def\<close>)
  note fold = foldl_rel [OF this render_candidate_equiv] and len = list_all2_lengthD [OF this]
  have head: "render_header e = render_header e'"
    using assms by (simp add: render_header_def envelope_equiv_def)
  have bind: "env_binding e = env_binding e'" using assms by (simp add: envelope_equiv_def)
  have empty: "sort_key cand_candidate_id (ans_candidates (env_answer e)) = [] \<longleftrightarrow>
      sort_key cand_candidate_id (ans_candidates (env_answer e')) = []"
    using len by (metis length_0_conv)
  show ?thesis
    by (simp only: render_answer_markdown_def Let_def cits fold head bind empty)
qed

end
