(* ===== verification/Answer_Properties.thy ===== *)
theory Answer_Properties
  imports Answer_Render
begin

text \<open>
  The properties of the investigation answer contract, with witnesses on a ledger of two rows
  and a proposal that claims an initiating cause.
\<close>

section \<open>A concrete ledger and proposal\<close>

definition disk_rev :: LogSnapshotRevisionV1 where
  "disk_rev = \<lparr>event_revision = 3, template_analysis_revision = 1, suppression_revision = 0\<rparr>"

definition disk_row :: "string \<Rightarrow> EvidenceRole \<Rightarrow> HostEvidenceEntry" where
  "disk_row eid role = \<lparr>he_evidence_id = eid, he_candidate_id = ''c1'', he_source_label = ''app.log'',
     he_locator = ''L7'', he_corpus_id = ''corpus'', he_revision = disk_rev, he_role = role,
     he_content = ''disk full''\<rparr>"

definition disk_rows :: "HostEvidenceEntry list" where
  "disk_rows = [disk_row ''e2'' RoleSymptom, disk_row ''e1'' RoleCause]"

definition disk_binding :: AnswerBindingV1 where
  "disk_binding = \<lparr>bind_session_id = ''s'', bind_turn_id = ''t'', bind_corpus_id = ''corpus'',
     bind_revision = disk_rev, bind_ledger_digest = ''digest''\<rparr>"

definition disk_ledger :: HostEvidenceLedger where
  "disk_ledger = \<lparr>led_binding = disk_binding,
     led_entries = [(''e1'', disk_row ''e1'' RoleCause), (''e2'', disk_row ''e2'' RoleSymptom)]\<rparr>"

definition disk_proposal :: ModelInvestigationAnswerV1 where
  "disk_proposal = \<lparr>mia_schema = SCHEMA_V1, mia_candidates =
     [\<lparr>md_candidate_id = ''c1'', observations = [],
       symptoms = [\<lparr>mc_claim_id = ''k2'', mc_text = ''writes fail'', mc_evidence_ids = [''e2'']\<rparr>],
       causal_candidates = [],
       initiating_causes = [\<lparr>mc_claim_id = ''k1'', mc_text = ''disk full'', mc_evidence_ids = [''e1'']\<rparr>],
       competing_explanations = [], missing_evidence = []\<rparr>]\<rparr>"

definition disk_decode :: "string \<Rightarrow> ModelInvestigationAnswerV1 option" where
  "disk_decode raw = (if raw = ''{}'' then Some disk_proposal else None)"

lemma disk_nonblank: "nonblank ''s''" "nonblank ''t''" "nonblank ''corpus''" "nonblank ''digest''"
  "nonblank ''c1''" "nonblank ''e1''" "nonblank ''e2''"
  by code_simp+

lemma disk_ledger_new: "ledger_new (\<lambda>b. ''digest'') disk_binding disk_rows = Inr disk_ledger"
  unfolding ledger_new_iff
  by (simp add: disk_nonblank binding_ok_def rows_ok_def disk_binding_def disk_rows_def disk_row_def
      disk_ledger_def ledger_digest_def)

lemma disk_proposal_ok: "proposal_ok disk_ledger disk_proposal"
  by code_simp

lemma disk_validated:
  "validate_model_answer disk_decode ''{}'' disk_ledger = Inr (reference_envelope disk_ledger disk_proposal)"
  by code_simp

section \<open>The ledger\<close>

text \<open>A ledger is accepted exactly when its binding is filled in, its rows have distinct
  non-blank ids, every row belongs to the bound corpus and revision, and the binding carries
  the digest of these rows; it then holds exactly these rows in id order.\<close>

theorem ledger_accepts_exactly:
  "ledger_new H binding evidence = Inr l \<longleftrightarrow>
     binding_ok binding \<and> evidence \<noteq> [] \<and> rows_ok evidence
     \<and> bind_ledger_digest binding = ledger_digest H evidence
     \<and> (\<forall>e \<in> set evidence. nonblank (he_candidate_id e) \<and> he_corpus_id e = bind_corpus_id binding
          \<and> he_revision e = bind_revision binding)
     \<and> l = \<lparr>led_binding = binding,
            led_entries = map (\<lambda>e. (he_evidence_id e, e)) (sort_key he_evidence_id evidence)\<rparr>"
  by (rule ledger_new_iff)

theorem ledger_accepts_exactly_witness:
  "bind_ledger_digest disk_binding = ledger_digest (\<lambda>b. ''digest'') disk_rows"
  using ledger_accepts_exactly [THEN iffD1, OF disk_ledger_new] by simp

text \<open>The outcome of building a ledger, errors included, does not depend on the order in
  which the rows arrive.\<close>

theorem ledger_order_irrelevant:
  assumes "mset evidence = mset evidence'"
  shows "ledger_new H binding evidence = ledger_new H binding evidence'"
  using assms by (rule ledger_new_perm)

theorem ledger_order_irrelevant_witness:
  "ledger_new (\<lambda>b. ''digest'') disk_binding (rev disk_rows) = Inr disk_ledger"
  using ledger_order_irrelevant [of "rev disk_rows" disk_rows] disk_ledger_new by simp

text \<open>The bytes that are hashed determine the rows of the ledger as a multiset, provided
  no text field contains a NUL byte (fields are NUL-terminated, not length-prefixed).\<close>

theorem digest_determines_rows:
  assumes "\<forall>e \<in> set es. row_nul_free e" and "\<forall>e \<in> set es'. row_nul_free e"
  shows "digest_preimage es = digest_preimage es' \<longleftrightarrow>
     mset es = mset es' \<and> sort_key he_evidence_id es = sort_key he_evidence_id es'"
proof
  assume eq: "digest_preimage es = digest_preimage es'"
  have "sort_key he_evidence_id es = sort_key he_evidence_id es'"
    by (rule rows.sequence_inject) (use assms eq in \<open>simp_all add: digest_preimage_def list_all_iff\<close>)
  then show "mset es = mset es' \<and> sort_key he_evidence_id es = sort_key he_evidence_id es'"
    using digest_preimage_inject [OF assms eq] by simp
qed (simp add: digest_preimage_def)

theorem digest_determines_rows_witness:
  "digest_preimage disk_rows \<noteq> digest_preimage [disk_row ''e1'' RoleCause]"
proof -
  have "\<forall>e \<in> set disk_rows. row_nul_free e" "\<forall>e \<in> set [disk_row ''e1'' RoleCause]. row_nul_free e"
    by (simp_all add: disk_rows_def disk_row_def row_nul_free_def row_fields_def nul_free_def)
  from digest_determines_rows [OF this] show ?thesis by (simp add: disk_rows_def)
qed

text \<open>The restriction to NUL-free fields is needed: with a NUL byte inside a field there are two
  different rows with the same id whose one-row ledgers are hashed as the same bytes.\<close>

theorem digest_ambiguous_with_nul:
  "\<exists>e e'. e \<noteq> e' \<and> he_evidence_id e = he_evidence_id e' \<and> digest_preimage [e] = digest_preimage [e']"
proof -
  let ?e = "(disk_row ''e1'' RoleCause)\<lparr>he_source_label := ''a'', he_locator := [CHR ''b'', CHR 0x00, CHR ''c'']\<rparr>"
  let ?e' = "(disk_row ''e1'' RoleCause)\<lparr>he_source_label := [CHR ''a'', CHR 0x00, CHR ''b''], he_locator := ''c''\<rparr>"
  have "?e \<noteq> ?e'" "he_evidence_id ?e = he_evidence_id ?e'" "digest_preimage [?e] = digest_preimage [?e']"
    by (simp_all add: disk_row_def digest_preimage_def row_bytes_def row_fields_def)
  then show ?thesis by blast
qed

text \<open>The identifier manifest shown to the model lists every candidate of the ledger
  once, in order, and under it exactly the evidence ids of that candidate in ledger order.\<close>

theorem manifest_exact:
  "sorted_wrt (<) (map man_candidate_id (final_answer_manifest l))
   \<and> set (map man_candidate_id (final_answer_manifest l)) = ledger_candidate_ids l
   \<and> (\<forall>c \<in> set (final_answer_manifest l). man_evidence_ids c =
        map he_evidence_id (filter (\<lambda>e. he_candidate_id e = man_candidate_id c) (ledger_entries l)))"
  using final_answer_manifest_exact by blast

theorem manifest_exact_witness: "set (map man_candidate_id (final_answer_manifest disk_ledger)) = {''c1''}"
  using manifest_exact [of disk_ledger]
  by (simp add: ledger_candidate_ids_def disk_ledger_def disk_row_def bt_values_def)

section \<open>The answer\<close>

text \<open>C4: On a ledger the host built, the validator accepts exactly the decodable proposals
  that meet the contract (schema, unique ids, permitted evidence, every ledger candidate
  present) and returns exactly the envelope the host derives from ledger and proposal.\<close>

theorem answer_validator_exact:
  assumes "ledger_new H binding evidence = Inr l"
  shows "validate_model_answer F raw l = Inr env \<longleftrightarrow>
     (\<exists>p. F raw = Some p \<and> proposal_ok l p \<and> env = reference_envelope l p)"
  using ledger_new_wf [OF assms] by (intro validate_model_answer_iff)

theorem answer_validator_exact_witness:
  "validate_model_answer disk_decode ''{}'' disk_ledger = Inr (reference_envelope disk_ledger disk_proposal)"
  unfolding answer_validator_exact [OF disk_ledger_new]
  using disk_proposal_ok by (simp add: disk_decode_def)

text \<open>What an accepted answer looks like, claim by claim.\<close>

lemma answer_claims:
  assumes "ledger_new H binding evidence = Inr l" and "validate_model_answer F raw l = Inr env"
  obtains p where "proposal_ok l p" and "env = reference_envelope l p"
    and "\<And>c cl. c \<in> set (ans_candidates (env_answer env)) \<Longrightarrow> cl \<in> set (cand_claims c) \<Longrightarrow>
      \<exists>d kind mc. d \<in> set (mia_candidates p) \<and> (kind, mc) \<in> set (claims_of d)
        \<and> cl = host_claim l (cand_candidate_id c) kind mc \<and> cand_candidate_id c = md_candidate_id d
        \<and> claim_ok l (cand_candidate_id c) (kind, mc)"
proof -
  from assms(2) obtain p where p: "proposal_ok l p" "env = reference_envelope l p"
    using validate_model_answer_iff [OF ledger_new_wf(1,2) [OF assms(1)]] by blast
  show thesis
  proof (rule that [OF p])
    fix c cl
    assume c: "c \<in> set (ans_candidates (env_answer env))" and cl: "cl \<in> set (cand_claims c)"
    from c obtain d where d: "d \<in> set (mia_candidates p)" "c = reference_candidate l d"
      by (auto simp: p(2) reference_envelope_def)
    with cl obtain kind mc where "(kind, mc) \<in> set (claims_of d)"
      "cl = host_claim l (md_candidate_id d) kind mc"
      by (auto simp: reference_candidate_def)
    with d p(1) show "\<exists>d kind mc. d \<in> set (mia_candidates p) \<and> (kind, mc) \<in> set (claims_of d)
        \<and> cl = host_claim l (cand_candidate_id c) kind mc \<and> cand_candidate_id c = md_candidate_id d
        \<and> claim_ok l (cand_candidate_id c) (kind, mc)"
      by (intro exI [of _ d] exI [of _ kind] exI [of _ mc])
         (auto simp: reference_candidate_def proposal_ok_def candidates_ok_def list_all_iff)
  qed
qed

text \<open>C21: Authority stays with the host: every citation of an accepted answer is the
  projection of a ledger row, and every evidence id a claim cites names a ledger row of the
  claim's own candidate that is among the citations; a causal candidate never cites a row the
  host classified as a symptom.\<close>

theorem citations_are_host_owned:
  assumes "ledger_new H binding evidence = Inr l" and "validate_model_answer F raw l = Inr env"
  shows "set (ans_canonical_citations (env_answer env)) \<subseteq> canonical_citation ` set evidence
     \<and> (\<forall>c \<in> set (ans_candidates (env_answer env)). \<forall>cl \<in> set (cand_claims c).
          \<forall>eid \<in> set (claim_evidence_ids cl). \<exists>e \<in> set evidence.
            he_evidence_id e = eid \<and> he_candidate_id e = cand_candidate_id c
            \<and> canonical_citation e \<in> set (ans_canonical_citations (env_answer env))
            \<and> \<not> (claim_kind cl = CausalCandidate \<and> he_role e = RoleSymptom))"
proof -
  obtain p where p: "env = reference_envelope l p"
    and claims: "\<And>c cl. c \<in> set (ans_candidates (env_answer env)) \<Longrightarrow> cl \<in> set (cand_claims c) \<Longrightarrow>
      \<exists>d kind mc. d \<in> set (mia_candidates p) \<and> (kind, mc) \<in> set (claims_of d)
        \<and> cl = host_claim l (cand_candidate_id c) kind mc \<and> cand_candidate_id c = md_candidate_id d
        \<and> claim_ok l (cand_candidate_id c) (kind, mc)"
    using answer_claims [OF assms] by metis
  have cits: "set (ans_canonical_citations (env_answer env)) =
      canonical_citation ` {e \<in> set evidence. he_evidence_id e \<in> cited_by (mia_candidates p)}"
    using ledger_new_get(2) [OF assms(1)] by (auto simp: p reference_envelope_def)
  have "\<exists>e \<in> set evidence. he_evidence_id e = eid \<and> he_candidate_id e = cand_candidate_id c
      \<and> canonical_citation e \<in> set (ans_canonical_citations (env_answer env))
      \<and> \<not> (claim_kind cl = CausalCandidate \<and> he_role e = RoleSymptom)"
    if cl: "c \<in> set (ans_candidates (env_answer env))" "cl \<in> set (cand_claims c)"
      and eid: "eid \<in> set (claim_evidence_ids cl)" for c cl eid
  proof -
    from claims [OF cl] obtain d kind mc where d: "d \<in> set (mia_candidates p)"
      "(kind, mc) \<in> set (claims_of d)" "cl = host_claim l (cand_candidate_id c) kind mc"
      "claim_ok l (cand_candidate_id c) (kind, mc)" by blast
    with eid have mc: "eid \<in> set (mc_evidence_ids mc)" "claim_kind cl = kind"
      by (simp_all add: host_claim_def)
    then have "evidence_ok l kind (cand_candidate_id c) eid"
      using d(4) by (simp add: claim_ok_def list_all_iff)
    then obtain e where "bt_get (led_entries l) eid = Some e" "he_candidate_id e = cand_candidate_id c"
      "\<not> (kind = CausalCandidate \<and> he_role e = RoleSymptom)"
      by (auto simp: evidence_ok_def split: option.splits)
    moreover have "eid \<in> cited_by (mia_candidates p)"
      using d(1,2) mc(1) unfolding cited_by_def by force
    ultimately show ?thesis
      using mc(2) unfolding cits ledger_new_get(1) [OF assms(1)] by auto
  qed
  then show ?thesis using cits by blast
qed

theorem citations_are_host_owned_witness:
  "set (ans_canonical_citations (env_answer (reference_envelope disk_ledger disk_proposal)))
     \<subseteq> canonical_citation ` set disk_rows"
  using citations_are_host_owned [OF disk_ledger_new disk_validated] by blast

text \<open>C20: A root cause is established exactly when some initiating-cause claim is supported,
  and an initiating-cause claim is supported exactly when it cites a row the host classified
  as a cause; otherwise it is withheld.\<close>

theorem root_cause_needs_cause_evidence:
  assumes "ledger_new H binding evidence = Inr l" and "validate_model_answer F raw l = Inr env"
  shows "(ans_root_cause_established (env_answer env) \<longleftrightarrow>
       (\<exists>c \<in> set (ans_candidates (env_answer env)). \<exists>cl \<in> set (cand_claims c).
          claim_kind cl = InitiatingCause \<and> claim_status cl = Supported))
     \<and> (\<forall>c \<in> set (ans_candidates (env_answer env)). \<forall>cl \<in> set (cand_claims c).
          claim_kind cl = InitiatingCause \<longrightarrow> claim_status cl =
            (if \<exists>e \<in> set evidence. he_evidence_id e \<in> set (claim_evidence_ids cl) \<and> he_role e = RoleCause
             then Supported else Withheld))"
proof -
  obtain p where p: "env = reference_envelope l p"
    and claims: "\<And>c cl. c \<in> set (ans_candidates (env_answer env)) \<Longrightarrow> cl \<in> set (cand_claims c) \<Longrightarrow>
      \<exists>d kind mc. d \<in> set (mia_candidates p) \<and> (kind, mc) \<in> set (claims_of d)
        \<and> cl = host_claim l (cand_candidate_id c) kind mc \<and> cand_candidate_id c = md_candidate_id d
        \<and> claim_ok l (cand_candidate_id c) (kind, mc)"
    using answer_claims [OF assms] by metis
  have root: "cause_root l kind mc \<longleftrightarrow> kind = InitiatingCause
      \<and> (\<exists>e \<in> set evidence. he_evidence_id e \<in> set (mc_evidence_ids mc) \<and> he_role e = RoleCause)" for kind mc
  proof -
    have "(case bt_get (led_entries l) eid of None \<Rightarrow> False | Some e \<Rightarrow> he_role e = RoleCause) \<longleftrightarrow>
        (\<exists>e. e \<in> set evidence \<and> he_evidence_id e = eid \<and> he_role e = RoleCause)" for eid
      unfolding conj_assoc [symmetric] ledger_new_get(1) [OF assms(1), of eid, symmetric]
      by (simp split: option.split)
    then show ?thesis by (auto simp: cause_root_def list_ex_iff)
  qed
  have status: "claim_status cl =
      (if \<exists>e \<in> set evidence. he_evidence_id e \<in> set (claim_evidence_ids cl) \<and> he_role e = RoleCause
       then Supported else Withheld)"
    if "c \<in> set (ans_candidates (env_answer env))" "cl \<in> set (cand_claims c)"
      "claim_kind cl = InitiatingCause" for c cl
    using claims [OF that(1,2)] that(3) by (auto simp: host_claim_def root)
  have supported: "claim_kind (host_claim l cand kind mc) = InitiatingCause
      \<and> claim_status (host_claim l cand kind mc) = Supported \<longleftrightarrow> cause_root l kind mc" for cand kind mc
    by (auto simp: host_claim_def cause_root_def)
  have "ans_root_cause_established (env_answer env) \<longleftrightarrow>
      (\<exists>c \<in> set (ans_candidates (env_answer env)). \<exists>cl \<in> set (cand_claims c).
         claim_kind cl = InitiatingCause \<and> claim_status cl = Supported)"
    by (simp add: p reference_envelope_def reference_root_def reference_candidate_def split_beta supported)
  with status show ?thesis by blast
qed

theorem root_cause_needs_cause_evidence_witness:
  "ans_root_cause_established (env_answer (reference_envelope disk_ledger disk_proposal))"
proof -
  let ?env = "reference_envelope disk_ledger disk_proposal"
  have "\<exists>c \<in> set (ans_candidates (env_answer ?env)). \<exists>cl \<in> set (cand_claims c).
      claim_kind cl = InitiatingCause \<and> claim_status cl = Supported"
    by code_simp
  then show ?thesis
    using root_cause_needs_cause_evidence [OF disk_ledger_new disk_validated] by blast
qed

section \<open>Display\<close>

text \<open>The display boundary turns any value into one line: no scalar value of the result
  is a line boundary, a control or bidi character or a backtick, there is no space at either
  end and never two in a row, and applying it again changes nothing.\<close>

theorem literal_text_is_one_line:
  "(\<forall>c \<in> set (utf8_chars (literal_display_text raw)). clean c)
   \<and> successively (\<lambda>a b. \<not> (a = '' '' \<and> b = '' '')) (utf8_chars (literal_display_text raw))
   \<and> (literal_display_text raw \<noteq> [] \<longrightarrow> hd (utf8_chars (literal_display_text raw)) \<noteq> '' ''
        \<and> last (utf8_chars (literal_display_text raw)) \<noteq> '' '')
   \<and> literal_display_text (literal_display_text raw) = literal_display_text raw"
proof -
  have "literal_display_text raw \<noteq> [] \<longleftrightarrow> utf8_chars (literal_display_text raw) \<noteq> []" by simp
  then show ?thesis
    using display_groups_spacing [of False False "utf8_chars raw"]
    by (simp add: utf8_chars_literal literal_display_text_idem display_groups_clean)
qed

theorem literal_text_is_one_line_witness:
  "literal_display_text (literal_display_text [CHR ''a'', CHR 0x0A, CHR 0x1B, CHR ''b'']) = ''a b''"
proof -
  have "literal_display_text [CHR ''a'', CHR 0x0A, CHR 0x1B, CHR ''b''] = ''a b''" by code_simp
  then show ?thesis using literal_text_is_one_line [of "[CHR ''a'', CHR 0x0A, CHR 0x1B, CHR ''b'']"] by simp
qed

lemma distinct_reference:
  assumes "candidates_ok l cs"
  shows "distinct (map cand_candidate_id (map (reference_candidate l) cs))"
    and "c \<in> set (map (reference_candidate l) cs) \<Longrightarrow> distinct (map claim_id (cand_claims c))"
proof -
  show "distinct (map cand_candidate_id (map (reference_candidate l) cs))"
    using assms by (simp add: candidates_ok_def reference_candidate_def comp_def)
  assume "c \<in> set (map (reference_candidate l) cs)"
  then obtain d where d: "d \<in> set cs" "c = reference_candidate l d" by auto
  have "map claim_id (cand_claims c) = map (\<lambda>kc. mc_claim_id (snd kc)) (claims_of d)"
    by (simp add: d(2) reference_candidate_def host_claim_def comp_def split_beta)
  then show "distinct (map claim_id (cand_claims c))"
    using assms d(1) by (auto simp: candidates_ok_def proposal_claim_ids_def distinct_concat_iff)
qed

text \<open>The Markdown projection of an accepted answer is determined by its content: an
  envelope with the same candidates, claims, evidence ids and citations in any other order
  renders to the same bytes.\<close>

theorem render_order_irrelevant:
  assumes "ledger_new H binding evidence = Inr l" and "validate_model_answer F raw l = Inr env"
    and "envelope_equiv env env'"
  shows "render_answer_markdown alnum env = render_answer_markdown alnum env'"
proof -
  obtain p where ok: "proposal_ok l p" and p: "env = reference_envelope l p"
    using answer_claims [OF assms(1,2)] by metis
  have cs: "candidates_ok l (mia_candidates p)" using ok by (simp add: proposal_ok_def)
  have "distinct (map he_evidence_id (ledger_entries l))"
    using ledger_new_wf(3) [OF assms(1)] assms(1) [unfolded ledger_new_iff]
      sort_key_strict [of he_evidence_id evidence]
    by (simp add: rows_ok_def strict_sorted_iff)
  then have "distinct (map cit_evidence_id (ans_canonical_citations (env_answer env)))"
    by (simp add: p reference_envelope_def canonical_citation_def comp_def distinct_map_filter)
  then have "ids_distinct env"
    using distinct_reference [OF cs] by (simp add: ids_distinct_def p reference_envelope_def)
  with assms(3) show ?thesis by (rule render_answer_equiv)
qed

theorem render_order_irrelevant_witness:
  "render_answer_markdown (\<lambda>c. True) (reference_envelope disk_ledger disk_proposal) =
   render_answer_markdown (\<lambda>c. True) ((reference_envelope disk_ledger disk_proposal)
     \<lparr>env_answer := (env_answer (reference_envelope disk_ledger disk_proposal))
        \<lparr>ans_canonical_citations := rev (ans_canonical_citations
           (env_answer (reference_envelope disk_ledger disk_proposal)))\<rparr>\<rparr>)"
  by (rule render_order_irrelevant [OF disk_ledger_new disk_validated])
     (auto simp: envelope_equiv_def permuted_by_def candidate_equiv_def claim_equiv_def
       list_all2_same intro!: exI)

end
