(* ===== verification/Fast_Neighborhood.thy ===== *)
theory Fast_Neighborhood
  imports Btree_Map "HOL-Library.Product_Lexorder" "HOL-Library.List_Lexorder" "HOL-Library.Char_ord"
begin

text \<open>
  \<open>crates/cd-core/src/fast_triage/neighborhood.rs\<close>: the classification of the evidence rows a host has
  already assembled. The code accumulates three maps over the candidate rows, ranks the independent rows
  by distance and cuts the ranking at a cap. The specification reads the rows as a set: the category of
  a row is a function of the row, of the set of focus rows and of how many context rows are closer.

  Ordinals and radii are 64-bit words as in the source; counters are natural numbers (they are bounded by
  the number of rows).
\<close>

section \<open>Types\<close>

datatype FastTriageEvidenceScope = ScopeCandidate | ScopeIndependent

fun scope_str :: "FastTriageEvidenceScope \<Rightarrow> string" where
  "scope_str ScopeCandidate = ''candidate''"
| "scope_str ScopeIndependent = ''independent''"

datatype FastTriageClockCompatibility = ResolvedComparable | OrderOnly

fun clock_str :: "FastTriageClockCompatibility \<Rightarrow> string" where
  "clock_str ResolvedComparable = ''resolved_comparable''"
| "clock_str OrderOnly = ''order_only''"

datatype TimeQuality = TimeWall | TimeMixed | TimeOrderOnly

fun clock_compatibility_from_time_quality :: "TimeQuality \<Rightarrow> FastTriageClockCompatibility" where
  "clock_compatibility_from_time_quality TimeWall = ResolvedComparable"
| "clock_compatibility_from_time_quality TimeMixed = OrderOnly"
| "clock_compatibility_from_time_quality TimeOrderOnly = OrderOnly"

datatype FastTriageEvidenceCategory =
    Focus | PrecedingSameSource | FollowingSameSource | CrossSourceTemporal | TraceLinked
  | Propagation | IndependentNoise

fun category_str :: "FastTriageEvidenceCategory \<Rightarrow> string" where
  "category_str Focus = ''focus''"
| "category_str PrecedingSameSource = ''preceding_same_source''"
| "category_str FollowingSameSource = ''following_same_source''"
| "category_str CrossSourceTemporal = ''cross_source_temporal''"
| "category_str TraceLinked = ''trace_linked''"
| "category_str Propagation = ''propagation''"
| "category_str IndependentNoise = ''independent_noise''"

fun category_contract :: "FastTriageEvidenceCategory \<Rightarrow> string" where
  "category_contract Focus = ''host-selected evidence for this candidate group''"
| "category_contract PrecedingSameSource =
     ''same source, earlier, inside the host's bounded window; position only, not a cause''"
| "category_contract FollowingSameSource =
     ''same source, later, inside the host's bounded window; position only, not a repair''"
| "category_contract CrossSourceTemporal =
     ''different source, admitted only where the host resolved comparable clocks; '' @
     ''nearness in time is not correlation''"
| "category_contract TraceLinked =
     ''linked to this candidate by a host-computed trace or request correlation''"
| "category_contract Propagation =
     ''trace-linked, different source, strictly later than this candidate's earliest row''"
| "category_contract IndependentNoise =
     ''separately scoped chronology; may be an unrelated concurrent process, and may '' @
     ''never be moved into a causal chain''"

record FastTriageNeighborhoodBudget =
  same_source_radius :: u64
  cross_source_radius :: u64
  max_context_rows :: usize

definition BROAD_LOG_TRIAGE_COMPARISON_NEIGHBOR_RADIUS :: u64 where
  "BROAD_LOG_TRIAGE_COMPARISON_NEIGHBOR_RADIUS = 2"

definition BROAD_LOG_TRIAGE_COMPARISON_CONTEXT_IDENTITY_CAP :: usize where
  "BROAD_LOG_TRIAGE_COMPARISON_CONTEXT_IDENTITY_CAP = 32"

definition default_neighborhood_budget :: FastTriageNeighborhoodBudget where
  "default_neighborhood_budget =
     \<lparr>same_source_radius = BROAD_LOG_TRIAGE_COMPARISON_NEIGHBOR_RADIUS,
      cross_source_radius = BROAD_LOG_TRIAGE_COMPARISON_NEIGHBOR_RADIUS,
      max_context_rows = BROAD_LOG_TRIAGE_COMPARISON_CONTEXT_IDENTITY_CAP\<rparr>"

record NeighborhoodRow =
  nr_evidence_id :: string
  nr_candidate_id :: string
  nr_source_label :: string
  nr_scope :: FastTriageEvidenceScope
  nr_ordinal :: "u64 option"

record FastTriageNeighborhood =
  nb_categories :: "(string, FastTriageEvidenceCategory) btree_map"
  withheld_clock_incompatible :: nat
  withheld_out_of_radius :: nat
  withheld_over_budget :: nat

definition nb_default :: FastTriageNeighborhood where
  "nb_default = \<lparr>nb_categories = [], withheld_clock_incompatible = 0, withheld_out_of_radius = 0,
     withheld_over_budget = 0\<rparr>"

definition nb_category :: "FastTriageNeighborhood \<Rightarrow> string \<Rightarrow> FastTriageEvidenceCategory option" where
  "nb_category nb eid = bt_get (nb_categories nb) eid"

definition nb_count :: "FastTriageNeighborhood \<Rightarrow> FastTriageEvidenceCategory \<Rightarrow> nat" where
  "nb_count nb category = length (filter (\<lambda>v. v = category) (bt_values (nb_categories nb)))"

section \<open>Classification\<close>

definition candidate_rows :: "NeighborhoodRow list \<Rightarrow> NeighborhoodRow list" where
  "candidate_rows rows = filter (\<lambda>r. nr_scope r = ScopeCandidate) rows"

definition independent_rows :: "NeighborhoodRow list \<Rightarrow> NeighborhoodRow list" where
  "independent_rows rows = filter (\<lambda>r. nr_scope r = ScopeIndependent) rows"

text \<open>The three accumulators of the first loop.\<close>

record focus_geometry =
  candidate_first :: "(string, u64 \<times> string) btree_map"
  focus_by_source :: "(string, u64 set) btree_map"
  all_focus :: "u64 set"

definition geometry_step :: "NeighborhoodRow \<Rightarrow> focus_geometry \<Rightarrow> focus_geometry" where
  "geometry_step row g =
     (case nr_ordinal row of
        None \<Rightarrow> g
      | Some ordinal \<Rightarrow>
          \<lparr>candidate_first = bt_insert (nr_candidate_id row)
             (case bt_get (candidate_first g) (nr_candidate_id row) of
                None \<Rightarrow> (ordinal, nr_source_label row)
              | Some current \<Rightarrow>
                  if (ordinal, nr_source_label row) < current then (ordinal, nr_source_label row) else current)
             (candidate_first g),
           focus_by_source = bt_insert (nr_source_label row)
             (insert ordinal (case bt_get (focus_by_source g) (nr_source_label row) of None \<Rightarrow> {} | Some s \<Rightarrow> s))
             (focus_by_source g),
           all_focus = insert ordinal (all_focus g)\<rparr>)"

definition focus_geometry_of :: "NeighborhoodRow list \<Rightarrow> focus_geometry" where
  "focus_geometry_of rows =
     fold geometry_step (candidate_rows rows) \<lparr>candidate_first = [], focus_by_source = [], all_focus = {}\<rparr>"

definition candidate_category :: "bool \<Rightarrow> (u64 \<times> string) option \<Rightarrow> NeighborhoodRow \<Rightarrow> FastTriageEvidenceCategory" where
  "candidate_category trace first row =
     (case first of
        Some (first_ordinal, first_source) \<Rightarrow>
          if trace \<and> nr_source_label row \<noteq> first_source
          then (case nr_ordinal row of
                  Some ordinal \<Rightarrow> if ordinal > first_ordinal then Propagation else TraceLinked
                | None \<Rightarrow> TraceLinked)
          else Focus
      | None \<Rightarrow> Focus)"

definition abs_diff :: "u64 \<Rightarrow> u64 \<Rightarrow> u64" where
  "abs_diff a b = (if a < b then b - a else a - b)"

text \<open>What the second loop decides for an independent row: no ordinal, outside a radius, clocks not
  comparable, or a context category with its distance.\<close>

datatype row_verdict = NoOrdinal | OutOfRadius | ClockIncompatible | InContext u64 FastTriageEvidenceCategory

definition context_verdict ::
  "u64 set option \<Rightarrow> u64 set \<Rightarrow> FastTriageClockCompatibility \<Rightarrow> FastTriageNeighborhoodBudget
     \<Rightarrow> NeighborhoodRow \<Rightarrow> row_verdict" where
  "context_verdict same_source all clock budget row =
     (case nr_ordinal row of
        None \<Rightarrow> NoOrdinal
      | Some ordinal \<Rightarrow>
          (case same_source of
             Some focus \<Rightarrow>
               (let nearest = (if focus = {} then (- 1, ordinal)
                               else Min ((\<lambda>v. (abs_diff v ordinal, v)) ` focus))
                in if fst nearest > same_source_radius budget then OutOfRadius
                   else InContext (fst nearest)
                     (if ordinal < snd nearest then PrecedingSameSource else FollowingSameSource))
           | None \<Rightarrow>
               if clock \<noteq> ResolvedComparable then ClockIncompatible
               else (let nearest = (if all = {} then - 1 else Min ((\<lambda>v. abs_diff v ordinal) ` all))
                     in if nearest > cross_source_radius budget then OutOfRadius
                        else InContext nearest CrossSourceTemporal)))"

record Ranked =
  rk_distance :: u64
  rk_ordinal :: u64
  rk_evidence_id :: string
  rk_category :: FastTriageEvidenceCategory

definition context_step ::
  "(NeighborhoodRow \<Rightarrow> row_verdict) \<Rightarrow> NeighborhoodRow
     \<Rightarrow> FastTriageNeighborhood \<times> Ranked list \<Rightarrow> FastTriageNeighborhood \<times> Ranked list" where
  "context_step verdict row st =
     (let (out, ranked) = st;
          noise = out\<lparr>nb_categories := bt_insert (nr_evidence_id row) IndependentNoise (nb_categories out)\<rparr>
      in case verdict row of
           NoOrdinal \<Rightarrow> (noise, ranked)
         | OutOfRadius \<Rightarrow> (noise\<lparr>withheld_out_of_radius := withheld_out_of_radius out + 1\<rparr>, ranked)
         | ClockIncompatible \<Rightarrow> (noise\<lparr>withheld_clock_incompatible := withheld_clock_incompatible out + 1\<rparr>, ranked)
         | InContext distance category \<Rightarrow>
             (out, ranked @ [\<lparr>rk_distance = distance, rk_ordinal = the (nr_ordinal row),
                             rk_evidence_id = nr_evidence_id row, rk_category = category\<rparr>]))"

definition rank_key :: "Ranked \<Rightarrow> u64 \<times> u64 \<times> string" where
  "rank_key r = (rk_distance r, rk_ordinal r, rk_evidence_id r)"

definition place_step ::
  "usize \<Rightarrow> nat \<times> Ranked \<Rightarrow> FastTriageNeighborhood \<Rightarrow> FastTriageNeighborhood" where
  "place_step cap ir out =
     (if fst ir < unat cap
      then out\<lparr>nb_categories := bt_insert (rk_evidence_id (snd ir)) (rk_category (snd ir)) (nb_categories out)\<rparr>
      else out\<lparr>withheld_over_budget := withheld_over_budget out + 1,
               nb_categories := bt_insert (rk_evidence_id (snd ir)) IndependentNoise (nb_categories out)\<rparr>)"

definition classify_neighborhood ::
  "NeighborhoodRow list \<Rightarrow> string set \<Rightarrow> FastTriageClockCompatibility \<Rightarrow> FastTriageNeighborhoodBudget
     \<Rightarrow> FastTriageNeighborhood" where
  "classify_neighborhood rows trace_correlated_candidates clock budget =
     (let g = focus_geometry_of rows;
          out = nb_default\<lparr>nb_categories := fold (\<lambda>row. bt_insert (nr_evidence_id row)
              (candidate_category (nr_candidate_id row \<in> trace_correlated_candidates)
                 (bt_get (candidate_first g) (nr_candidate_id row)) row)) (candidate_rows rows) []\<rparr>;
          (out, ranked) = fold (context_step (\<lambda>row. context_verdict
              (bt_get (focus_by_source g) (nr_source_label row)) (all_focus g) clock budget row))
            (independent_rows rows) (out, [])
      in fold (place_step (max_context_rows budget)) (enumerate 0 (sort_key rank_key ranked)) out)"

section \<open>The loops as functions of the set of rows\<close>

definition focus_points :: "NeighborhoodRow list \<Rightarrow> (NeighborhoodRow \<times> u64) set" where
  "focus_points rows = {(r, o1). r \<in> set rows \<and> nr_scope r = ScopeCandidate \<and> nr_ordinal r = Some o1}"

definition first_points :: "NeighborhoodRow list \<Rightarrow> string \<Rightarrow> (u64 \<times> string) set" where
  "first_points rows c = (\<lambda>(r, o1). (o1, nr_source_label r)) ` {p \<in> focus_points rows. nr_candidate_id (fst p) = c}"

definition source_points :: "NeighborhoodRow list \<Rightarrow> string \<Rightarrow> u64 set" where
  "source_points rows src = snd ` {p \<in> focus_points rows. nr_source_label (fst p) = src}"

definition first_point :: "NeighborhoodRow list \<Rightarrow> string \<Rightarrow> (u64 \<times> string) option" where
  "first_point rows c = (if first_points rows c = {} then None else Some (Min (first_points rows c)))"

definition source_focus :: "NeighborhoodRow list \<Rightarrow> string \<Rightarrow> u64 set option" where
  "source_focus rows src = (if source_points rows src = {} then None else Some (source_points rows src))"

definition row_verdict_of ::
  "NeighborhoodRow list \<Rightarrow> FastTriageClockCompatibility \<Rightarrow> FastTriageNeighborhoodBudget
     \<Rightarrow> NeighborhoodRow \<Rightarrow> row_verdict" where
  "row_verdict_of rows clock budget row =
     context_verdict (source_focus rows (nr_source_label row)) (snd ` focus_points rows) clock budget row"

definition in_context :: "(NeighborhoodRow \<Rightarrow> row_verdict) \<Rightarrow> NeighborhoodRow \<Rightarrow> bool" where
  "in_context v row \<longleftrightarrow> (\<exists>d c. v row = InContext d c)"

definition context_key :: "(NeighborhoodRow \<Rightarrow> row_verdict) \<Rightarrow> NeighborhoodRow \<Rightarrow> u64 \<times> u64 \<times> string" where
  "context_key v row =
     (case v row of InContext d c \<Rightarrow> d | _ \<Rightarrow> 0, the (nr_ordinal row), nr_evidence_id row)"

definition verdict_category ::
  "NeighborhoodRow list \<Rightarrow> string set \<Rightarrow> FastTriageClockCompatibility \<Rightarrow> FastTriageNeighborhoodBudget
     \<Rightarrow> NeighborhoodRow \<Rightarrow> FastTriageEvidenceCategory" where
  "verdict_category rows traces clock budget row =
     (let v = row_verdict_of rows clock budget in
      if nr_scope row = ScopeCandidate
      then candidate_category (nr_candidate_id row \<in> traces) (first_point rows (nr_candidate_id row)) row
      else case v row of
        InContext d c \<Rightarrow>
          if card {r \<in> set (independent_rows rows). in_context v r \<and> context_key v r < context_key v row}
             < unat (max_context_rows budget)
          then c else IndependentNoise
      | _ \<Rightarrow> IndependentNoise)"

section \<open>The loops meet the specification\<close>

lemma focus_points_snoc:
  "focus_points (rows @ [r]) =
     (case nr_ordinal r of Some o1 \<Rightarrow> if nr_scope r = ScopeCandidate then insert (r, o1) (focus_points rows)
        else focus_points rows | None \<Rightarrow> focus_points rows)"
  by (auto simp: focus_points_def split: option.splits)

lemma finite_focus_points: "finite (focus_points rows)"
  by (rule finite_subset [of _ "(\<lambda>r. (r, the (nr_ordinal r))) ` set rows"]) (auto simp: focus_points_def)

lemma Min_insert_cases:
  "finite S \<Longrightarrow> (if S = {} then x else if x < Min S then x else Min S) = Min (insert x S)"
proof (cases "S = {}")
  case False
  assume "finite S"
  then have "Min (insert x S) = min x (Min S)" using False by simp
  also have "min x y = (if x < y then x else y)" for y by (auto simp: min_def)
  finally show ?thesis using False by simp
qed simp

lemma set_Collect_insert:
  "f ` {p \<in> insert x S. P p} = (if P x then insert (f x) (f ` {p \<in> S. P p}) else f ` {p \<in> S. P p})"
  by auto

lemma geometry_spec:
  "bt_wf (candidate_first (focus_geometry_of rows)) \<and> bt_wf (focus_by_source (focus_geometry_of rows))
   \<and> bt_get (candidate_first (focus_geometry_of rows)) = first_point rows
   \<and> bt_get (focus_by_source (focus_geometry_of rows)) = source_focus rows
   \<and> all_focus (focus_geometry_of rows) = snd ` focus_points rows"
proof (induction rows rule: rev_induct)
  case Nil
  show ?case
    by (auto simp: focus_geometry_of_def candidate_rows_def focus_points_def first_point_def source_focus_def
        first_points_def source_points_def bt_wf_def bt_get_def)
next
  case (snoc r rows)
  show ?case
  proof (cases "nr_scope r = ScopeCandidate \<and> nr_ordinal r \<noteq> None")
    case False
    then have g: "focus_geometry_of (rows @ [r]) = focus_geometry_of rows"
      by (auto simp: focus_geometry_of_def candidate_rows_def geometry_step_def)
    have "focus_points (rows @ [r]) = focus_points rows"
      using False by (auto simp: focus_points_snoc split: option.splits)
    then have "first_point (rows @ [r]) = first_point rows" "source_focus (rows @ [r]) = source_focus rows"
      by (simp_all only: fun_eq_iff first_point_def source_focus_def first_points_def source_points_def simp_thms)
    with g snoc \<open>focus_points (rows @ [r]) = _\<close> show ?thesis by simp
  next
    case True
    then obtain o1 where o1: "nr_ordinal r = Some o1" and cand: "nr_scope r = ScopeCandidate" by auto
    let ?g = "focus_geometry_of rows"
    have g: "focus_geometry_of (rows @ [r]) = geometry_step r ?g"
      using cand by (simp add: focus_geometry_of_def candidate_rows_def)
    have pts: "focus_points (rows @ [r]) = insert (r, o1) (focus_points rows)"
      using o1 cand by (simp add: focus_points_snoc)
    have fin: "finite (first_points rows c)" for c
      by (simp add: first_points_def finite_focus_points)
    have first: "first_point (rows @ [r]) = (first_point rows)(nr_candidate_id r \<mapsto>
        (case first_point rows (nr_candidate_id r) of None \<Rightarrow> (o1, nr_source_label r)
         | Some cur \<Rightarrow> if (o1, nr_source_label r) < cur then (o1, nr_source_label r) else cur))"
    proof
      fix c
      have "first_points (rows @ [r]) c =
          (if nr_candidate_id r = c then insert (o1, nr_source_label r) (first_points rows c) else first_points rows c)"
        unfolding first_points_def pts set_Collect_insert by simp
      then show "first_point (rows @ [r]) c = ((first_point rows)(nr_candidate_id r \<mapsto>
        (case first_point rows (nr_candidate_id r) of None \<Rightarrow> (o1, nr_source_label r)
         | Some cur \<Rightarrow> if (o1, nr_source_label r) < cur then (o1, nr_source_label r) else cur))) c"
        unfolding first_point_def
        by (cases "nr_candidate_id r = c"; cases "first_points rows c = {}")
          (simp_all add: Min_insert_cases [OF fin, symmetric] del: Min_insert Min_less_iff Min_gr_iff)
    qed
    have source: "source_focus (rows @ [r]) = (source_focus rows)(nr_source_label r \<mapsto>
        insert o1 (case source_focus rows (nr_source_label r) of None \<Rightarrow> {} | Some s \<Rightarrow> s))"
    proof
      fix src
      have "source_points (rows @ [r]) src =
          (if nr_source_label r = src then insert o1 (source_points rows src) else source_points rows src)"
        unfolding source_points_def pts set_Collect_insert by simp
      then show "source_focus (rows @ [r]) src = ((source_focus rows)(nr_source_label r \<mapsto>
          insert o1 (case source_focus rows (nr_source_label r) of None \<Rightarrow> {} | Some s \<Rightarrow> s))) src"
        unfolding source_focus_def by (cases "nr_source_label r = src"; cases "source_points rows src = {}") simp_all
    qed
    show ?thesis
      using snoc by (simp add: g geometry_step_def o1 first source bt_wf_insert bt_get_insert pts)
  qed
qed

lemma verdict_spec:
  "context_verdict (bt_get (focus_by_source (focus_geometry_of rows)) (nr_source_label row))
     (all_focus (focus_geometry_of rows)) clock budget row = row_verdict_of rows clock budget row"
  using geometry_spec [of rows] by (simp add: row_verdict_of_def)

definition ranked_of :: "(NeighborhoodRow \<Rightarrow> row_verdict) \<Rightarrow> NeighborhoodRow \<Rightarrow> Ranked" where
  "ranked_of v row =
     \<lparr>rk_distance = fst (context_key v row), rk_ordinal = the (nr_ordinal row), rk_evidence_id = nr_evidence_id row,
      rk_category = (case v row of InContext d c \<Rightarrow> c | _ \<Rightarrow> IndependentNoise)\<rparr>"

lemma context_loop:
  "fold (context_step v) rows (out, ranked) =
     (out\<lparr>nb_categories := fold (\<lambda>r. bt_insert (nr_evidence_id r) IndependentNoise)
              (filter (\<lambda>r. \<not> in_context v r) rows) (nb_categories out),
          withheld_clock_incompatible := withheld_clock_incompatible out + length (filter (\<lambda>r. v r = ClockIncompatible) rows),
          withheld_out_of_radius := withheld_out_of_radius out + length (filter (\<lambda>r. v r = OutOfRadius) rows)\<rparr>,
      ranked @ map (ranked_of v) (filter (in_context v) rows))"
proof (induction rows arbitrary: out ranked)
  case (Cons r rows)
  show ?case
    by (cases "v r")
      (simp_all add: context_step_def [of v r] Cons in_context_def [of v r] ranked_of_def [of v r] context_key_def [of v r])
qed simp

lemma place_loop:
  "fold (place_step cap) (enumerate n rs) out =
     out\<lparr>nb_categories := fold (\<lambda>(i, r). bt_insert (rk_evidence_id r) (if i < unat cap then rk_category r else IndependentNoise))
            (enumerate n rs) (nb_categories out),
         withheld_over_budget := withheld_over_budget out + length (filter (\<lambda>(i, r). \<not> i < unat cap) (enumerate n rs))\<rparr>"
  by (induction rs arbitrary: n out) (simp_all add: place_step_def)

lemma over_cap: "length (filter (\<lambda>(i, r). \<not> i < k) (enumerate n rs)) = length rs - (k - n)"
proof (induction rs arbitrary: n)
  case (Cons r rs)
  then show ?case by (cases "n < k") (auto simp: Suc_diff_le)
qed simp

text \<open>In a strictly sorted list, an element's index is the number of smaller elements.\<close>

lemma index_in_sorted:
  fixes f :: "'a \<Rightarrow> 'b::linorder"
  assumes "sorted_wrt (<) (map f xs)" and "i < length xs"
  shows "card {x \<in> set xs. f x < f (xs ! i)} = i"
  using assms
proof (induction xs arbitrary: i)
  case (Cons x xs)
  show ?case
  proof (cases i)
    case 0
    have "{y \<in> set (x # xs). f y < f ((x # xs) ! i)} = {}" using Cons.prems 0 by auto
    then show ?thesis using 0 by (simp only: card.empty)
  next
    case (Suc j)
    have "f x < f (xs ! j)" using Cons.prems Suc by simp
    moreover have "x \<notin> set xs" using Cons.prems by auto
    moreover have "{y \<in> set (x # xs). f y < f ((x # xs) ! i)} = insert x {y \<in> set xs. f y < f (xs ! j)}"
      using Suc calculation by auto
    ultimately show ?thesis using Cons Suc by simp
  qed
qed simp

text \<open>The sorted ranking lists the context rows in the order of their keys.\<close>

lemma rank_key_ranked [simp]: "rank_key (ranked_of v row) = context_key v row"
  by (simp add: rank_key_def ranked_of_def context_key_def)

lemma sort_key_map: "sort_key f (map g xs) = map g (sort_key (f \<circ> g) xs)"
proof (rule properties_for_sort_key)
  show "filter (\<lambda>x. f k = f x) (map g (sort_key (f \<circ> g) xs)) = filter (\<lambda>x. f k = f x) (map g xs)" for k
    using sort_key_stable [of "f \<circ> g" "f k" xs] by (simp add: filter_map comp_def eq_commute)
qed (simp_all only: mset_map mset_sort map_map sorted_sort_key)

lemma distinct_context_key:
  "distinct (map nr_evidence_id rows) \<Longrightarrow> distinct (map (context_key v) rows)"
  by (auto simp: distinct_map inj_on_def context_key_def)

definition ranking :: "(NeighborhoodRow \<Rightarrow> row_verdict) \<Rightarrow> NeighborhoodRow list \<Rightarrow> NeighborhoodRow list" where
  "ranking v rows = sort_key (context_key v) (filter (in_context v) (independent_rows rows))"

lemma classify_stages:
  assumes "v = row_verdict_of rows clock budget"
  shows "classify_neighborhood rows traces clock budget =
    \<lparr>nb_categories = fold (\<lambda>(i, r). bt_insert (nr_evidence_id r)
          (if i < unat (max_context_rows budget) then (case v r of InContext d c \<Rightarrow> c | _ \<Rightarrow> IndependentNoise) else IndependentNoise))
        (enumerate 0 (ranking v rows))
        (fold (\<lambda>r. bt_insert (nr_evidence_id r) IndependentNoise) (filter (\<lambda>r. \<not> in_context v r) (independent_rows rows))
          (fold (\<lambda>r. bt_insert (nr_evidence_id r)
              (candidate_category (nr_candidate_id r \<in> traces) (first_point rows (nr_candidate_id r)) r)) (candidate_rows rows) [])),
     withheld_clock_incompatible = length (filter (\<lambda>r. v r = ClockIncompatible) (independent_rows rows)),
     withheld_out_of_radius = length (filter (\<lambda>r. v r = OutOfRadius) (independent_rows rows)),
     withheld_over_budget = length (filter (in_context v) (independent_rows rows)) - unat (max_context_rows budget)\<rparr>"
proof -
  have keys: "sort_key rank_key (map (ranked_of v) (filter (in_context v) (independent_rows rows))) = map (ranked_of v) (ranking v rows)"
    by (simp add: sort_key_map ranking_def comp_def)
  have "fold (\<lambda>(i, r). bt_insert (rk_evidence_id r) (if i < k then rk_category r else IndependentNoise)) (enumerate n (map (ranked_of v) rs)) m
      = fold (\<lambda>(i, r). bt_insert (nr_evidence_id r) (if i < k then (case v r of InContext d c \<Rightarrow> c | _ \<Rightarrow> IndependentNoise) else IndependentNoise)) (enumerate n rs) m"
    for k n rs m by (induction rs arbitrary: n m) (simp_all add: ranked_of_def)
  moreover have "length (ranking v rows) = length (filter (in_context v) (independent_rows rows))"
    by (simp add: ranking_def)
  moreover have verdict: "(\<lambda>row. context_verdict (bt_get (focus_by_source (focus_geometry_of rows)) (nr_source_label row))
      (all_focus (focus_geometry_of rows)) clock budget row) = v"
    using assms by (simp add: verdict_spec)
  moreover have "bt_get (candidate_first (focus_geometry_of rows)) = first_point rows"
    using geometry_spec by blast
  ultimately show ?thesis
    unfolding classify_neighborhood_def Let_def
    by (simp add: context_loop place_loop keys over_cap nb_default_def)
qed

text \<open>Successive insertions with distinct keys.\<close>

lemma fold_insert_pairs:
  "bt_wf m \<Longrightarrow> distinct (map (\<lambda>(i, r). f r) xs) \<Longrightarrow>
     bt_wf (fold (\<lambda>(i, r). bt_insert (f r) (g i r)) xs m) \<and>
     bt_get (fold (\<lambda>(i, r). bt_insert (f r) (g i r)) xs m) = bt_get m ++ map_of (map (\<lambda>(i, r). (f r, g i r)) xs)"
  using bt.fold_insert_get [of m "\<lambda>(i, r). f r" xs "\<lambda>(i, r). g i r"]
  by (simp add: case_prod_beta' cong: fold_cong)

section \<open>Categories\<close>

lemma rows_split:
  assumes "distinct (map nr_evidence_id rows)"
  shows "distinct (map nr_evidence_id (candidate_rows rows))" "distinct (map nr_evidence_id (independent_rows rows))"
    "distinct (map nr_evidence_id (filter P (independent_rows rows)))"
    "distinct (map nr_evidence_id (ranking v rows))"
proof -
  have inj: "inj_on nr_evidence_id (set rows)" and d: "distinct rows" using assms by (simp_all add: distinct_map)
  have sub: "distinct (map nr_evidence_id ys)" if "distinct ys" "set ys \<subseteq> set rows" for ys
    using that inj by (simp add: distinct_map inj_on_subset)
  show "distinct (map nr_evidence_id (candidate_rows rows))" "distinct (map nr_evidence_id (independent_rows rows))"
    "distinct (map nr_evidence_id (filter P (independent_rows rows)))" "distinct (map nr_evidence_id (ranking v rows))"
    using d by (auto intro!: sub simp: candidate_rows_def independent_rows_def ranking_def)
qed

lemma classify_get:
  assumes d: "distinct (map nr_evidence_id rows)" and v: "v = row_verdict_of rows clock budget"
    and m_def: "m = nb_categories (classify_neighborhood rows traces clock budget)"
  shows "bt_wf m"
    and "bt_get m =
      map_of (map (\<lambda>r. (nr_evidence_id r, candidate_category (nr_candidate_id r \<in> traces)
          (first_point rows (nr_candidate_id r)) r)) (candidate_rows rows))
      ++ map_of (map (\<lambda>r. (nr_evidence_id r, IndependentNoise)) (filter (\<lambda>r. \<not> in_context v r) (independent_rows rows)))
      ++ map_of (map (\<lambda>(i, r). (nr_evidence_id r, if i < unat (max_context_rows budget)
          then (case v r of InContext d c \<Rightarrow> c | _ \<Rightarrow> IndependentNoise) else IndependentNoise)) (enumerate 0 (ranking v rows)))"
proof -
  note ids = rows_split [OF d]
  have "map (\<lambda>(i, r). nr_evidence_id r) (enumerate n rs) = map nr_evidence_id rs" for n and rs :: "NeighborhoodRow list"
    by (induction rs arbitrary: n) simp_all
  then have enum: "distinct (map (\<lambda>(i, r). nr_evidence_id r) (enumerate 0 (ranking v rows)))" using ids(4) by simp
  note s1 = bt.fold_insert_empty [OF ids(1)]
  note s2 = bt.fold_insert_get [OF s1(1) ids(3) [of "\<lambda>r. \<not> in_context v r"]]
  note s3 = fold_insert_pairs [OF s2 [THEN conjunct1] enum]
  show "bt_wf m" unfolding m_def classify_stages [OF v] FastTriageNeighborhood.simps by (rule s3 [THEN conjunct1])
  show "bt_get m =
      map_of (map (\<lambda>r. (nr_evidence_id r, candidate_category (nr_candidate_id r \<in> traces)
          (first_point rows (nr_candidate_id r)) r)) (candidate_rows rows))
      ++ map_of (map (\<lambda>r. (nr_evidence_id r, IndependentNoise)) (filter (\<lambda>r. \<not> in_context v r) (independent_rows rows)))
      ++ map_of (map (\<lambda>(i, r). (nr_evidence_id r, if i < unat (max_context_rows budget)
          then (case v r of InContext d c \<Rightarrow> c | _ \<Rightarrow> IndependentNoise) else IndependentNoise)) (enumerate 0 (ranking v rows)))"
    unfolding m_def classify_stages [OF v] FastTriageNeighborhood.simps
      s3 [THEN conjunct2] s2 [THEN conjunct2] s1(2) ..
qed

lemma map_of_rows:
  assumes "inj_on nr_evidence_id (set rows)" and "set ys \<subseteq> set rows" and "r \<in> set rows"
  shows "map_of (map (\<lambda>r. (nr_evidence_id r, g r)) ys) (nr_evidence_id r) = (if r \<in> set ys then Some (g r) else None)"
  using assms(2) by (induction ys) (use assms(1,3) in \<open>auto dest: inj_onD\<close>)

lemma map_of_enumerate:
  assumes "distinct (map f ys)" and "i < length ys"
  shows "map_of (map (\<lambda>(i, r). (f r, g i r)) (enumerate n ys)) (f (ys ! i)) = Some (g (n + i) (ys ! i))"
  using assms
proof (induction ys arbitrary: i n)
  case (Cons y ys)
  show ?case
  proof (cases i)
    case (Suc j)
    then have "f (ys ! j) \<in> f ` set ys" using Cons.prems by (intro imageI nth_mem) simp
    then have "f (ys ! j) \<noteq> f y" using Cons.prems by auto
    then show ?thesis using Cons.IH [of j "Suc n"] Cons.prems Suc by simp
  qed simp
qed simp

lemma map_of_enumerate_none:
  "k \<notin> f ` set ys \<Longrightarrow> map_of (map (\<lambda>(i, r). (f r, g i r)) (enumerate n ys)) k = None"
  by (induction ys arbitrary: n) auto

lemma ranking_index:
  assumes "distinct (map nr_evidence_id rows)" and "i < length (ranking v rows)"
  shows "card {r \<in> set (independent_rows rows). in_context v r \<and> context_key v r < context_key v (ranking v rows ! i)} = i"
proof -
  have "sorted_wrt (<) (map (context_key v) (ranking v rows))"
    unfolding ranking_def
    by (intro sort_key_strict distinct_context_key rows_split(3) [OF assms(1)])
  from index_in_sorted [OF this assms(2)] show ?thesis by (simp add: ranking_def conj_assoc)
qed

lemma classify_category:
  assumes d: "distinct (map nr_evidence_id rows)" and r: "r \<in> set rows"
  shows "nb_category (classify_neighborhood rows traces clock budget) (nr_evidence_id r)
    = Some (verdict_category rows traces clock budget r)"
proof -
  define v where "v = row_verdict_of rows clock budget"
  note get = classify_get(2) [OF d v_def refl, of traces]
  have inj: "inj_on nr_evidence_id (set rows)" using d by (simp add: distinct_map)
  have sub: "set (candidate_rows rows) \<subseteq> set rows" "set (filter P (independent_rows rows)) \<subseteq> set rows"
    "set (ranking v rows) \<subseteq> set rows" for P
    by (auto simp: candidate_rows_def independent_rows_def ranking_def)
  have none: "map_of (map (\<lambda>(i, r). (nr_evidence_id r, g i r)) (enumerate 0 (ranking v rows))) (nr_evidence_id r) = None"
    if "r \<notin> set (ranking v rows)" for g
    using that sub(3) inj r by (intro map_of_enumerate_none) (auto dest: inj_onD)
  consider "nr_scope r = ScopeCandidate" | "nr_scope r = ScopeIndependent" "\<not> in_context v r"
    | "nr_scope r = ScopeIndependent" "in_context v r" by (cases "nr_scope r") auto
  then show ?thesis
  proof cases
    case 1
    then have "r \<in> set (candidate_rows rows)" "r \<notin> set (independent_rows rows)" "r \<notin> set (ranking v rows)"
      using r by (simp_all add: candidate_rows_def independent_rows_def ranking_def)
    with 1 show ?thesis
      by (simp add: nb_category_def get map_add_def none map_of_rows [OF inj sub(1) r] map_of_rows [OF inj sub(2) r]
          verdict_category_def)
  next
    case 2
    then have "verdict_category rows traces clock budget r = IndependentNoise"
      by (auto simp: verdict_category_def v_def [symmetric] in_context_def Let_def split: row_verdict.splits)
    moreover have "r \<in> set (filter (\<lambda>r. \<not> in_context v r) (independent_rows rows))" "r \<notin> set (ranking v rows)"
      using 2 r by (simp_all add: independent_rows_def ranking_def)
    ultimately show ?thesis
      by (simp add: nb_category_def get map_add_def none map_of_rows [OF inj sub(2) r])
  next
    case 3
    then have "r \<in> set (ranking v rows)" using r by (simp add: ranking_def independent_rows_def)
    then obtain i where i: "i < length (ranking v rows)" "r = ranking v rows ! i" by (metis in_set_conv_nth)
    obtain d c where dc: "v r = InContext d c" using 3 by (auto simp: in_context_def)
    have "nb_category (classify_neighborhood rows traces clock budget) (nr_evidence_id r)
        = Some (if 0 + i < unat (max_context_rows budget) then (case v r of InContext d c \<Rightarrow> c | _ \<Rightarrow> IndependentNoise)
            else IndependentNoise)"
      unfolding nb_category_def get map_add_def i(2) map_of_enumerate [OF rows_split(4) [OF d] i(1)] by (rule option.case)
    then show ?thesis
      using 3 dc ranking_index [OF d i(1)] i(2) [symmetric] by (simp add: verdict_category_def v_def [symmetric])
  qed
qed

lemma classify_none:
  assumes "distinct (map nr_evidence_id rows)" and "eid \<notin> nr_evidence_id ` set rows"
  shows "nb_category (classify_neighborhood rows traces clock budget) eid = None"
proof -
  have none: "map_of (map (\<lambda>r. (nr_evidence_id r, g r)) ys) eid = None" if "set ys \<subseteq> set rows" for g ys
    using that assms(2) by (auto simp: map_of_eq_None_iff)
  have rank: "eid \<notin> nr_evidence_id ` set (ranking v rows)" for v
    using assms(2) by (auto simp: ranking_def independent_rows_def)
  show ?thesis
    unfolding nb_category_def classify_get(2) [OF assms(1) refl refl] map_add_None
    by (intro conjI map_of_enumerate_none none rank) (auto simp: candidate_rows_def independent_rows_def)
qed

lemma length_filter_card: "distinct xs \<Longrightarrow> length (filter P xs) = card {x \<in> set xs. P x}"
  by (metis distinct_card distinct_filter set_filter)

lemma classify_counters:
  assumes "distinct (map nr_evidence_id rows)" and v: "v = row_verdict_of rows clock budget"
    and nb: "nb = classify_neighborhood rows traces clock budget"
  shows "withheld_clock_incompatible nb = card {r \<in> set (independent_rows rows). v r = ClockIncompatible}"
    and "withheld_out_of_radius nb = card {r \<in> set (independent_rows rows). v r = OutOfRadius}"
    and "withheld_over_budget nb = card {r \<in> set (independent_rows rows). in_context v r} - unat (max_context_rows budget)"
proof -
  have "distinct (independent_rows rows)" using rows_split(2) [OF assms(1)] by (simp add: distinct_map)
  then show "withheld_clock_incompatible nb = card {r \<in> set (independent_rows rows). v r = ClockIncompatible}"
    "withheld_out_of_radius nb = card {r \<in> set (independent_rows rows). v r = OutOfRadius}"
    "withheld_over_budget nb = card {r \<in> set (independent_rows rows). in_context v r} - unat (max_context_rows budget)"
    unfolding nb classify_stages [OF v] by (simp_all add: length_filter_card)
qed

section \<open>Independent specification\<close>

text \<open>The rules of the classification without the algorithm: distances are natural numbers, the nearest
  focus row is the one at the least distance, and ranks are counted.\<close>

definition ordinal_distance :: "u64 \<Rightarrow> u64 \<Rightarrow> nat" where
  "ordinal_distance a b = max (unat a) (unat b) - min (unat a) (unat b)"

text \<open>Without any focus ordinal the distance is the largest word.\<close>

definition focus_gap :: "u64 set \<Rightarrow> u64 \<Rightarrow> nat" where
  "focus_gap S o1 = (if S = {} then 2 ^ 64 - 1 else Min (ordinal_distance o1 ` S))"

definition row_gap :: "NeighborhoodRow list \<Rightarrow> NeighborhoodRow \<Rightarrow> nat" where
  "row_gap rows r =
     focus_gap (if source_points rows (nr_source_label r) = {} then snd ` focus_points rows
          else source_points rows (nr_source_label r)) (the (nr_ordinal r))"

definition row_radius :: "NeighborhoodRow list \<Rightarrow> FastTriageNeighborhoodBudget \<Rightarrow> NeighborhoodRow \<Rightarrow> nat" where
  "row_radius rows budget r =
     unat (if source_points rows (nr_source_label r) = {} then cross_source_radius budget else same_source_radius budget)"

text \<open>A row of a source without focus rows can be placed in time only when the clocks are comparable.\<close>

definition foreign_clock :: "NeighborhoodRow list \<Rightarrow> FastTriageClockCompatibility \<Rightarrow> NeighborhoodRow \<Rightarrow> bool" where
  "foreign_clock rows clock r \<longleftrightarrow> nr_scope r = ScopeIndependent \<and> nr_ordinal r \<noteq> None
     \<and> source_points rows (nr_source_label r) = {} \<and> clock = OrderOnly"

definition placeable_row :: "NeighborhoodRow list \<Rightarrow> FastTriageClockCompatibility \<Rightarrow> NeighborhoodRow \<Rightarrow> bool" where
  "placeable_row rows clock r \<longleftrightarrow> nr_scope r = ScopeIndependent \<and> nr_ordinal r \<noteq> None
     \<and> (source_points rows (nr_source_label r) = {} \<longrightarrow> clock = ResolvedComparable)"

definition near_focus ::
  "NeighborhoodRow list \<Rightarrow> FastTriageClockCompatibility \<Rightarrow> FastTriageNeighborhoodBudget \<Rightarrow> NeighborhoodRow \<Rightarrow> bool" where
  "near_focus rows clock budget r \<longleftrightarrow> placeable_row rows clock r \<and> row_gap rows r \<le> row_radius rows budget r"

text \<open>The order of the cap: by distance, then by ordinal, then by id.\<close>

definition closer_row :: "NeighborhoodRow list \<Rightarrow> NeighborhoodRow \<Rightarrow> NeighborhoodRow \<Rightarrow> bool" where
  "closer_row rows r r' \<longleftrightarrow> row_gap rows r < row_gap rows r'
     \<or> row_gap rows r = row_gap rows r'
       \<and> (unat (the (nr_ordinal r)) < unat (the (nr_ordinal r'))
          \<or> the (nr_ordinal r) = the (nr_ordinal r') \<and> nr_evidence_id r < nr_evidence_id r')"

text \<open>A row of a focus source follows when one of the nearest focus rows is not later than it.\<close>

definition side_of_focus :: "NeighborhoodRow list \<Rightarrow> NeighborhoodRow \<Rightarrow> FastTriageEvidenceCategory" where
  "side_of_focus rows r =
     (if source_points rows (nr_source_label r) = {} then CrossSourceTemporal
      else if \<exists>s \<in> source_points rows (nr_source_label r).
          unat s \<le> unat (the (nr_ordinal r)) \<and> ordinal_distance (the (nr_ordinal r)) s = row_gap rows r
      then FollowingSameSource else PrecedingSameSource)"

text \<open>The earliest focus row of a candidate; of rows at the same ordinal, the one with the least source.\<close>

definition earliest_row :: "NeighborhoodRow list \<Rightarrow> string \<Rightarrow> u64 \<Rightarrow> string \<Rightarrow> bool" where
  "earliest_row rows c o1 src \<longleftrightarrow> (o1, src) \<in> first_points rows c
     \<and> (\<forall>(o2, src2) \<in> first_points rows c. unat o1 < unat o2 \<or> o1 = o2 \<and> src \<le> src2)"

definition trace_category :: "NeighborhoodRow list \<Rightarrow> string set \<Rightarrow> NeighborhoodRow \<Rightarrow> FastTriageEvidenceCategory" where
  "trace_category rows traces r =
     (if nr_candidate_id r \<in> traces \<and> (\<exists>o1 src. earliest_row rows (nr_candidate_id r) o1 src \<and> src \<noteq> nr_source_label r)
      then if \<exists>o1 src o2. earliest_row rows (nr_candidate_id r) o1 src \<and> nr_ordinal r = Some o2 \<and> unat o1 < unat o2
           then Propagation else TraceLinked
      else Focus)"

definition row_category ::
  "NeighborhoodRow list \<Rightarrow> string set \<Rightarrow> FastTriageClockCompatibility \<Rightarrow> FastTriageNeighborhoodBudget
     \<Rightarrow> NeighborhoodRow \<Rightarrow> FastTriageEvidenceCategory" where
  "row_category rows traces clock budget r =
     (if nr_scope r = ScopeCandidate then trace_category rows traces r
      else if near_focus rows clock budget r
         \<and> card {r' \<in> set rows. near_focus rows clock budget r' \<and> closer_row rows r' r} < unat (max_context_rows budget)
      then side_of_focus rows r
      else IndependentNoise)"

lemma unat_abs_diff: "unat (abs_diff a b) = ordinal_distance b a"
proof (cases "a < b")
  case True
  then have "unat (b - a) = unat b - unat a" by (intro unat_sub) simp
  with True show ?thesis by (simp add: abs_diff_def ordinal_distance_def word_less_nat_alt max_def min_def)
next
  case False
  then have "unat (a - b) = unat a - unat b" by (intro unat_sub) simp
  with False show ?thesis by (simp add: abs_diff_def ordinal_distance_def word_less_nat_alt max_def min_def)
qed

lemma word_of_unat: "unat (w :: u64) = n \<Longrightarrow> w = of_nat n"
  by auto

lemma gap_of:
  assumes "finite S" and "v \<in> S" and "\<forall>u \<in> S. ordinal_distance o1 v \<le> ordinal_distance o1 u"
  shows "focus_gap S o1 = ordinal_distance o1 v"
  using assms by (auto simp: focus_gap_def intro!: Min_eqI)

lemma nearest_same_source:
  assumes "finite S" "S \<noteq> {}" and m: "m = Min ((\<lambda>v. (abs_diff v o1, v)) ` S)"
  shows "unat (fst m) = focus_gap S o1" and "o1 < snd m \<longleftrightarrow> \<not> (\<exists>s \<in> S. unat s \<le> unat o1 \<and> ordinal_distance o1 s = focus_gap S o1)"
proof -
  have "m \<in> (\<lambda>v. (abs_diff v o1, v)) ` S" unfolding m using assms(1,2) by (intro Min_in) auto
  then obtain v where v: "v \<in> S" "m = (abs_diff v o1, v)" by blast
  have least: "(abs_diff v o1, v) \<le> (abs_diff u o1, u)" if "u \<in> S" for u
    unfolding v(2) [symmetric] m using assms(1) by (intro Min_le imageI that) auto
  have "ordinal_distance o1 v \<le> ordinal_distance o1 u" if "u \<in> S" for u
    using least [OF that] by (auto simp: less_eq_prod_simp word_le_nat_alt word_less_nat_alt unat_abs_diff)
  then have focus_gap: "focus_gap S o1 = ordinal_distance o1 v" by (intro gap_of [OF assms(1) v(1)]) blast
  then show "unat (fst m) = focus_gap S o1" by (simp add: v(2) unat_abs_diff)
  have "v \<le> s" if "s \<in> S" "ordinal_distance o1 s = focus_gap S o1" for s
  proof -
    have "abs_diff s o1 = abs_diff v o1" using that(2) focus_gap by (simp add: word_unat_eq_iff unat_abs_diff)
    then show ?thesis using least [OF that(1)] by (simp add: less_eq_prod_simp)
  qed
  then show "o1 < snd m \<longleftrightarrow> \<not> (\<exists>s \<in> S. unat s \<le> unat o1 \<and> ordinal_distance o1 s = focus_gap S o1)"
    using v focus_gap by (force simp: word_less_nat_alt word_le_nat_alt)
qed

lemma nearest_cross_source:
  assumes "finite S"
  shows "unat (if S = {} then - 1 else Min ((\<lambda>v. abs_diff v o1) ` S)) = focus_gap S o1"
proof (cases "S = {}")
  case True
  then show ?thesis by (simp add: focus_gap_def unat_max_word)
next
  case False
  then have "Min ((\<lambda>v. abs_diff v o1) ` S) \<in> (\<lambda>v. abs_diff v o1) ` S" using assms by (intro Min_in) auto
  then obtain v where v: "v \<in> S" "Min ((\<lambda>v. abs_diff v o1) ` S) = abs_diff v o1" by blast
  have "ordinal_distance o1 v \<le> ordinal_distance o1 u" if "u \<in> S" for u
    using that assms Min_le [of "(\<lambda>v. abs_diff v o1) ` S" "abs_diff u o1"]
    by (simp add: v(2) word_le_nat_alt unat_abs_diff)
  then show ?thesis using gap_of [OF assms v(1)] v(2) False by (simp add: unat_abs_diff)
qed

lemma finite_points [simp]: "finite (source_points rows src)" "finite (snd ` focus_points rows)" "finite (first_points rows c)"
  by (simp_all add: source_points_def first_points_def finite_focus_points)

text \<open>What the second loop decides is what the rules say.\<close>

lemma verdict_rules:
  assumes "nr_scope r = ScopeIndependent"
  shows "row_verdict_of rows clock budget r =
    (if nr_ordinal r = None then NoOrdinal
     else if foreign_clock rows clock r then ClockIncompatible
     else if near_focus rows clock budget r then InContext (of_nat (row_gap rows r)) (side_of_focus rows r)
     else OutOfRadius)"
proof (cases "nr_ordinal r")
  case (Some o1)
  show ?thesis
  proof (cases "source_points rows (nr_source_label r) = {}")
    case True
    let ?n = "if snd ` focus_points rows = {} then - 1 else Min ((\<lambda>v. abs_diff v o1) ` snd ` focus_points rows)"
    have n: "unat ?n = row_gap rows r"
      using nearest_cross_source [of "snd ` focus_points rows" o1] True Some by (simp only: row_gap_def finite_points) simp
    show ?thesis
      unfolding row_verdict_of_def context_verdict_def source_focus_def Some option.case Let_def True if_True word_of_unat [OF n, symmetric]
      using assms True Some n
      by (cases clock) (auto simp: foreign_clock_def near_focus_def placeable_row_def row_radius_def side_of_focus_def word_less_nat_alt not_less)
  next
    case False
    let ?m = "Min ((\<lambda>v. (abs_diff v o1, v)) ` source_points rows (nr_source_label r))"
    note m = nearest_same_source [OF finite_points(1) False refl, of o1]
    have n: "unat (fst ?m) = row_gap rows r"
      using m(1) False Some by (simp add: row_gap_def)
    show ?thesis
      unfolding row_verdict_of_def context_verdict_def source_focus_def Some option.case Let_def if_not_P [OF False] word_of_unat [OF n, symmetric]
      using assms False Some n m(2)
      by (auto simp: foreign_clock_def near_focus_def placeable_row_def row_radius_def side_of_focus_def word_less_nat_alt row_gap_def)
  qed
qed (simp add: row_verdict_of_def context_verdict_def)

lemma verdict_near:
  assumes "nr_scope r = ScopeIndependent"
  shows "in_context (row_verdict_of rows clock budget) r \<longleftrightarrow> near_focus rows clock budget r"
    and "row_verdict_of rows clock budget r = ClockIncompatible \<longleftrightarrow> foreign_clock rows clock r"
    and "row_verdict_of rows clock budget r = OutOfRadius \<longleftrightarrow> placeable_row rows clock r \<and> row_gap rows r > row_radius rows budget r"
  unfolding in_context_def verdict_rules [OF assms]
  by (cases clock; auto simp: near_focus_def placeable_row_def foreign_clock_def assms)+

lemma near_scope: "near_focus rows clock budget r \<Longrightarrow> nr_scope r = ScopeIndependent"
  by (simp add: near_focus_def placeable_row_def)

lemma context_key_closer:
  assumes "near_focus rows clock budget r" and "near_focus rows clock budget r'" and "v = row_verdict_of rows clock budget"
  shows "context_key v r < context_key v r' \<longleftrightarrow> closer_row rows r r'"
proof -
  have key: "\<exists>d. context_key v x = (d, the (nr_ordinal x), nr_evidence_id x) \<and> unat d = row_gap rows x"
    if x: "near_focus rows clock budget x" for x
  proof -
    have "row_gap rows x < 2 ^ LENGTH(64)"
      using x unsigned_less [of "if source_points rows (nr_source_label x) = {} then cross_source_radius budget else same_source_radius budget", where ?'a = nat]
      by (simp add: near_focus_def row_radius_def)
    moreover have "nr_ordinal x \<noteq> None" "\<not> foreign_clock rows clock x"
      using x by (auto simp: near_focus_def placeable_row_def foreign_clock_def)
    ultimately show ?thesis
      using x verdict_rules [OF near_scope [OF x], of rows clock budget] by (auto simp: context_key_def assms(3) unat_of_nat)
  qed
  from key [OF assms(1)] key [OF assms(2)] show ?thesis
    by (auto simp: closer_row_def less_prod_simp word_less_nat_alt word_le_nat_alt word_unat_eq_iff)
qed

lemma earliest_first: "earliest_row rows c o1 src \<longleftrightarrow> first_point rows c = Some (o1, src)"
proof (cases "first_points rows c = {}")
  case False
  have "(unat o1 < unat o2 \<or> o1 = o2 \<and> src \<le> src2) = ((o1, src) \<le> (o2, src2))" for o2 src2
    by (auto simp: less_eq_prod_simp word_le_nat_alt word_less_nat_alt word_unat_eq_iff)
  then have "earliest_row rows c o1 src \<longleftrightarrow> Min (first_points rows c) = (o1, src)"
    using Min_eq_iff [OF finite_points(3) False, of "(o1, src)"] by (auto simp: earliest_row_def)
  then show ?thesis using False by (simp add: first_point_def)
qed (simp add: earliest_row_def first_point_def)

lemma trace_rules:
  "candidate_category (nr_candidate_id r \<in> traces) (first_point rows (nr_candidate_id r)) r = trace_category rows traces r"
  by (auto simp: candidate_category_def trace_category_def earliest_first word_less_nat_alt split: option.splits)

lemma category_rules:
  assumes "r \<in> set rows"
  shows "verdict_category rows traces clock budget r = row_category rows traces clock budget r"
proof (cases "nr_scope r = ScopeCandidate")
  case True
  then show ?thesis by (simp add: verdict_category_def row_category_def trace_rules)
next
  case False
  then have ind: "nr_scope r = ScopeIndependent" by (cases "nr_scope r") simp_all
  let ?v = "row_verdict_of rows clock budget"
  show ?thesis
  proof (cases "near_focus rows clock budget r")
    case True
    have "{r' \<in> set (independent_rows rows). in_context ?v r' \<and> context_key ?v r' < context_key ?v r}
        = {r' \<in> set rows. near_focus rows clock budget r' \<and> closer_row rows r' r}"
      using verdict_near(1) context_key_closer [OF _ True refl] near_scope by (auto simp: independent_rows_def)
    moreover have "?v r = InContext (of_nat (row_gap rows r)) (side_of_focus rows r)"
      using True verdict_rules [OF ind, of rows clock budget] by (auto simp: near_focus_def placeable_row_def foreign_clock_def)
    ultimately show ?thesis using ind True by (simp add: verdict_category_def row_category_def)
  next
    case no: False
    then have "\<not> in_context ?v r" using verdict_near(1) [OF ind] by simp
    then have "verdict_category rows traces clock budget r = IndependentNoise"
      using ind by (auto simp: verdict_category_def in_context_def Let_def split: row_verdict.splits)
    then show ?thesis using ind no by (simp add: row_category_def)
  qed
qed

section \<open>Properties\<close>

text \<open>C28: The neighborhood classification follows its rules, whatever the order of the rows. A candidate row is a focus
  row unless its candidate is trace-correlated and its source differs from that of the candidate's earliest row: then it is a
  propagation if it is later, else a link. An independent row gets a context category exactly when it can be placed
  (it has an ordinal, and its source has focus rows or the clocks are comparable), lies within the radius, and fewer
  rows than the cap are closer (by distance, ordinal and id); it follows when one of the nearest focus rows of its source
  is not later. All other rows are noise, no other id gets a category, and the three counters count exactly the independent rows
  withheld for clocks, for distance and for the cap.\<close>

theorem neighborhood_exact:
  assumes "distinct (map nr_evidence_id rows)" and "nb = classify_neighborhood rows traces clock budget"
  shows "(\<forall>r \<in> set rows. nb_category nb (nr_evidence_id r) = Some (row_category rows traces clock budget r))
    \<and> (\<forall>eid. eid \<notin> nr_evidence_id ` set rows \<longrightarrow> nb_category nb eid = None)
    \<and> withheld_clock_incompatible nb = card {r \<in> set rows. foreign_clock rows clock r}
    \<and> withheld_out_of_radius nb = card {r \<in> set rows. placeable_row rows clock r \<and> row_gap rows r > row_radius rows budget r}
    \<and> withheld_over_budget nb = card {r \<in> set rows. near_focus rows clock budget r} - unat (max_context_rows budget)"
proof -
  let ?v = "row_verdict_of rows clock budget"
  have sets: "{r \<in> set (independent_rows rows). ?v r = ClockIncompatible} = {r \<in> set rows. foreign_clock rows clock r}"
    "{r \<in> set (independent_rows rows). ?v r = OutOfRadius} = {r \<in> set rows. placeable_row rows clock r \<and> row_gap rows r > row_radius rows budget r}"
    "{r \<in> set (independent_rows rows). in_context ?v r} = {r \<in> set rows. near_focus rows clock budget r}"
    using verdict_near by (auto simp: independent_rows_def near_focus_def placeable_row_def foreign_clock_def)
  show ?thesis
    using classify_category [OF assms(1)] classify_none [OF assms(1)] classify_counters [OF assms(1) refl assms(2), unfolded sets]
      category_rules assms(2) by simp
qed

definition sample_rows :: "NeighborhoodRow list" where
  "sample_rows =
     [\<lparr>nr_evidence_id = ''f'', nr_candidate_id = ''g'', nr_source_label = ''app'', nr_scope = ScopeCandidate, nr_ordinal = Some 50\<rparr>,
      \<lparr>nr_evidence_id = ''b'', nr_candidate_id = ''t'', nr_source_label = ''app'', nr_scope = ScopeIndependent, nr_ordinal = Some 49\<rparr>,
      \<lparr>nr_evidence_id = ''x'', nr_candidate_id = ''t'', nr_source_label = ''db'', nr_scope = ScopeIndependent, nr_ordinal = Some 51\<rparr>]"

theorem neighborhood_exact_witness:
  "distinct (map nr_evidence_id sample_rows)
   \<and> row_category sample_rows {} OrderOnly default_neighborhood_budget (sample_rows ! 1) = PrecedingSameSource
   \<and> card {r \<in> set sample_rows. foreign_clock sample_rows OrderOnly r} = 1"
proof -
  let ?nb = "classify_neighborhood sample_rows {} OrderOnly default_neighborhood_budget"
  have d: "distinct (map nr_evidence_id sample_rows)" by (simp add: sample_rows_def)
  have row: "sample_rows ! 1 \<in> set sample_rows" "nr_evidence_id (sample_rows ! 1) = ''b''" by (simp_all add: sample_rows_def)
  have "nb_category ?nb ''b'' = Some PrecedingSameSource" "withheld_clock_incompatible ?nb = 1" by code_simp+
  with neighborhood_exact [OF d refl, of "{}" OrderOnly default_neighborhood_budget] d row show ?thesis by fastforce
qed

end
