(* ===== verification/Fast_Packet.thy ===== *)
theory Fast_Packet
  imports Fast_Neighborhood Investigation_Ledger Answer_Render
begin

text \<open>
  \<open>crates/cd-core/src/fast_triage/packet.rs\<close>: the evidence packet built from a ledger, its identity and
  its projections into the prompt. The identity is SHA-256 (the argument \<open>H\<close>) over length-prefixed
  fields. The fields are a prefix code, so the hashed bytes determine every field, and with the ledger
  digest inside them a packet id stands for one packet.

  \<open>serde_json\<close> serialization is the argument \<open>J\<close>.
\<close>

section \<open>Packet\<close>

definition FAST_TRIAGE_PACKET_SCHEMA_V1 :: string where
  "FAST_TRIAGE_PACKET_SCHEMA_V1 = ''contextdesk.fast_triage.packet.v1''"

fun evidence_role_label :: "EvidenceRole \<Rightarrow> string" where
  "evidence_role_label RoleCause = ''initiating_cause''"
| "evidence_role_label RoleSupporting = ''supporting_evidence''"
| "evidence_role_label RoleSymptom = ''downstream_symptom''"
| "evidence_role_label RoleNeutral = ''unclassified''"

record FastTriagePacketRow =
  pr_evidence_id :: string
  pr_candidate_id :: string
  pr_role :: EvidenceRole
  pr_scope :: FastTriageEvidenceScope
  pr_ordinal :: "u64 option"
  pr_category :: FastTriageEvidenceCategory

datatype FastTriageRoleEvidence = HostLabelled | HostNeutral

fun role_evidence_str :: "FastTriageRoleEvidence \<Rightarrow> string" where
  "role_evidence_str HostLabelled = ''host_labelled''"
| "role_evidence_str HostNeutral = ''host_neutral''"

record FastTriagePacketInputs =
  pi_ledger :: HostEvidenceLedger
  pi_independent_candidate_id :: "string option"
  pi_timeline_complete :: bool
  pi_clock :: FastTriageClockCompatibility
  pi_trace_correlated_candidates :: "string set"
  pi_neighborhood :: FastTriageNeighborhoodBudget

record FastTriagePacketV1 =
  pk_ledger :: HostEvidenceLedger
  pk_rows :: "FastTriagePacketRow list"
  pk_independent_candidate_id :: "string option"
  pk_timeline_complete :: bool
  pk_clock :: FastTriageClockCompatibility
  pk_neighborhood :: FastTriageNeighborhood
  pk_packet_id :: string

section \<open>Identity\<close>

text \<open>One length-prefixed field; \<open>len as u64\<close> in little-endian bytes.\<close>

definition hash_field :: "string \<Rightarrow> string" where
  "hash_field bytes = le_bytes 8 (length bytes) @ bytes"

definition ordinal_bytes :: "u64 option \<Rightarrow> string" where
  "ordinal_bytes ord = (case ord of Some ordinal \<Rightarrow> [CHR 0x01] @ to_le_bytes ordinal | None \<Rightarrow> [CHR 0x00])"

definition packet_row_bytes :: "FastTriagePacketRow \<Rightarrow> string" where
  "packet_row_bytes row =
     hash_field (pr_evidence_id row) @ hash_field (pr_candidate_id row)
     @ hash_field (evidence_role_label (pr_role row)) @ hash_field (scope_str (pr_scope row))
     @ hash_field (category_str (pr_category row)) @ ordinal_bytes (pr_ordinal row)"

definition packet_preimage ::
  "HostEvidenceLedger \<Rightarrow> FastTriagePacketRow list \<Rightarrow> string option \<Rightarrow> bool
     \<Rightarrow> FastTriageClockCompatibility \<Rightarrow> FastTriageNeighborhoodBudget \<Rightarrow> string" where
  "packet_preimage ledger rows independent_candidate_id timeline_complete clock budget =
     (let binding = led_binding ledger in
      hash_field FAST_TRIAGE_PACKET_SCHEMA_V1
      @ hash_field (bind_session_id binding) @ hash_field (bind_turn_id binding)
      @ hash_field (bind_corpus_id binding) @ hash_field (bind_ledger_digest binding)
      @ to_le_bytes (event_revision (bind_revision binding))
      @ to_le_bytes (template_analysis_revision (bind_revision binding))
      @ to_le_bytes (suppression_revision (bind_revision binding))
      @ hash_field (case independent_candidate_id of None \<Rightarrow> [] | Some i \<Rightarrow> i)
      @ [if timeline_complete then CHR 0x01 else CHR 0x00]
      @ hash_field (clock_str clock)
      @ to_le_bytes (same_source_radius budget) @ to_le_bytes (cross_source_radius budget)
      @ to_le_bytes (max_context_rows budget)
      @ le_bytes 8 (length rows)
      @ concat (map packet_row_bytes rows))"

definition packet_identity ::
  "(string \<Rightarrow> string) \<Rightarrow> HostEvidenceLedger \<Rightarrow> FastTriagePacketRow list \<Rightarrow> string option \<Rightarrow> bool
     \<Rightarrow> FastTriageClockCompatibility \<Rightarrow> FastTriageNeighborhoodBudget \<Rightarrow> string" where
  "packet_identity H ledger rows independent_candidate_id timeline_complete clock budget =
     H (packet_preimage ledger rows independent_candidate_id timeline_complete clock budget)"

section \<open>Building\<close>

definition scope_of :: "string option \<Rightarrow> string \<Rightarrow> FastTriageEvidenceScope" where
  "scope_of independent_candidate_id candidate_id =
     (if independent_candidate_id = Some candidate_id then ScopeIndependent else ScopeCandidate)"

definition ordinal_of :: "string \<Rightarrow> u64 option" where
  "ordinal_of locator =
     (case strip_prefix locator ''seq='' of None \<Rightarrow> None | Some v \<Rightarrow> parse_u64 (trim v))"

definition neighborhood_row :: "string option \<Rightarrow> HostEvidenceEntry \<Rightarrow> NeighborhoodRow" where
  "neighborhood_row ind e =
     \<lparr>nr_evidence_id = he_evidence_id e, nr_candidate_id = he_candidate_id e,
      nr_source_label = he_source_label e, nr_scope = scope_of ind (he_candidate_id e),
      nr_ordinal = ordinal_of (he_locator e)\<rparr>"

definition packet_row :: "string option \<Rightarrow> FastTriageNeighborhood \<Rightarrow> HostEvidenceEntry \<Rightarrow> FastTriagePacketRow" where
  "packet_row ind nb e =
     \<lparr>pr_evidence_id = he_evidence_id e, pr_candidate_id = he_candidate_id e, pr_role = he_role e,
      pr_scope = scope_of ind (he_candidate_id e), pr_ordinal = ordinal_of (he_locator e),
      pr_category = (case nb_category nb (he_evidence_id e) of Some c \<Rightarrow> c | None \<Rightarrow> IndependentNoise)\<rparr>"

definition normalized_independent_id :: "string option \<Rightarrow> string option" where
  "normalized_independent_id i =
     (case i of None \<Rightarrow> None | Some s \<Rightarrow> if trim s = [] then None else Some (trim s))"

definition packet_build :: "(string \<Rightarrow> string) \<Rightarrow> FastTriagePacketInputs \<Rightarrow> FastTriagePacketV1" where
  "packet_build H inputs =
     (let ledger = pi_ledger inputs;
          ind = normalized_independent_id (pi_independent_candidate_id inputs);
          entries = ledger_entries ledger;
          nb = classify_neighborhood (map (neighborhood_row ind) entries)
                 (pi_trace_correlated_candidates inputs) (pi_clock inputs) (pi_neighborhood inputs);
          rows = map (packet_row ind nb) entries
      in \<lparr>pk_ledger = ledger, pk_rows = rows, pk_independent_candidate_id = ind,
          pk_timeline_complete = pi_timeline_complete inputs, pk_clock = pi_clock inputs,
          pk_neighborhood = nb,
          pk_packet_id = packet_identity H ledger rows ind (pi_timeline_complete inputs) (pi_clock inputs)
            (pi_neighborhood inputs)\<rparr>)"

definition packet_from_ledger ::
  "(string \<Rightarrow> string) \<Rightarrow> HostEvidenceLedger \<Rightarrow> string option \<Rightarrow> bool \<Rightarrow> FastTriagePacketV1" where
  "packet_from_ledger H ledger independent_candidate_id timeline_complete =
     packet_build H \<lparr>pi_ledger = ledger, pi_independent_candidate_id = independent_candidate_id,
       pi_timeline_complete = timeline_complete, pi_clock = OrderOnly,
       pi_trace_correlated_candidates = {}, pi_neighborhood = default_neighborhood_budget\<rparr>"

definition role_evidence :: "FastTriagePacketV1 \<Rightarrow> FastTriageRoleEvidence" where
  "role_evidence p = (if list_ex (\<lambda>row. pr_role row \<noteq> RoleNeutral) (pk_rows p) then HostLabelled else HostNeutral)"

definition packet_candidate_ids :: "FastTriagePacketV1 \<Rightarrow> string set" where
  "packet_candidate_ids p = set (map pr_candidate_id (filter (\<lambda>row. pr_scope row = ScopeCandidate) (pk_rows p)))"

definition packet_find_row :: "FastTriagePacketV1 \<Rightarrow> string \<Rightarrow> FastTriagePacketRow option" where
  "packet_find_row p eid = find (\<lambda>row. pr_evidence_id row = eid) (pk_rows p)"

section \<open>Projections\<close>

text \<open>\<open>by_candidate\<close>: rows per candidate in the order of the rows.\<close>

definition group_step ::
  "FastTriagePacketRow \<Rightarrow> (string, FastTriagePacketRow list) btree_map
     \<Rightarrow> (string, FastTriagePacketRow list) btree_map" where
  "group_step row m =
     bt_insert (pr_candidate_id row)
       ((case bt_get m (pr_candidate_id row) of None \<Rightarrow> [] | Some rs \<Rightarrow> rs) @ [row]) m"

definition rows_by_candidate :: "FastTriagePacketV1 \<Rightarrow> (string, FastTriagePacketRow list) btree_map" where
  "rows_by_candidate p = fold group_step (pk_rows p) []"

definition group_scope :: "FastTriagePacketRow list \<Rightarrow> FastTriageEvidenceScope" where
  "group_scope rows = (case rows of [] \<Rightarrow> ScopeCandidate | row # _ \<Rightarrow> pr_scope row)"

text \<open>The declaration order of the categories, which \<open>sort_unstable\<close> uses.\<close>

definition category_order :: "FastTriageEvidenceCategory list" where
  "category_order = [Focus, PrecedingSameSource, FollowingSameSource, CrossSourceTemporal, TraceLinked,
     Propagation, IndependentNoise]"

definition packet_vocabulary :: "FastTriagePacketV1 \<Rightarrow> FastTriageEvidenceCategory list" where
  "packet_vocabulary p = filter (\<lambda>c. c \<in> set (map pr_category (pk_rows p))) category_order"

definition row_json :: "FastTriagePacketRow \<Rightarrow> json" where
  "row_json row = JObject
     [(''evidence_id'', JString (pr_evidence_id row)),
      (''host_role'', JString (evidence_role_label (pr_role row))),
      (''context_category'', JString (category_str (pr_category row))),
      (''chronology_ordinal'', case pr_ordinal row of None \<Rightarrow> JNull | Some n \<Rightarrow> JNumber (show_nat (unat n)))]"

definition manifest_value :: "FastTriagePacketV1 \<Rightarrow> json" where
  "manifest_value p = JObject
     [(''schema'', JString FAST_TRIAGE_PACKET_SCHEMA_V1),
      (''packet_id'', JString (pk_packet_id p)),
      (''timeline_complete'', JBool (pk_timeline_complete p)),
      (''clock_compatibility'', JString (clock_str (pk_clock p))),
      (''context_category_contract'', JArray (map (\<lambda>c. JObject
         [(''context_category'', JString (category_str c)), (''means'', JString (category_contract c))])
         (packet_vocabulary p))),
      (''candidates'', JArray (map (\<lambda>(candidate_id, rows). JObject
         [(''candidate_id'', JString candidate_id),
          (''scope'', JString (scope_str (group_scope rows))),
          (''permitted_evidence'', JArray (map row_json rows))]) (rows_by_candidate p)))]"

definition manifest_json :: "(json \<Rightarrow> string) \<Rightarrow> FastTriagePacketV1 \<Rightarrow> string" where
  "manifest_json J p = J (manifest_value p)"

definition scaffold_value :: "FastTriagePacketV1 \<Rightarrow> json" where
  "scaffold_value p = JObject
     [(''schema'', JString SCHEMA_V1),
      (''candidates'', JArray (map (\<lambda>candidate_id. JObject
         [(''candidate_id'', JString candidate_id), (''observations'', JArray []), (''symptoms'', JArray []),
          (''causal_candidates'', JArray []), (''initiating_causes'', JArray []),
          (''competing_explanations'', JArray []), (''missing_evidence'', JArray [])])
         (remdups (sort (map pr_candidate_id (pk_rows p))))))]"

definition scaffold_json :: "(json \<Rightarrow> string) \<Rightarrow> FastTriagePacketV1 \<Rightarrow> string" where
  "scaffold_json J p = J (scaffold_value p)"

definition body_row :: "FastTriagePacketV1 \<Rightarrow> FastTriagePacketRow \<Rightarrow> string" where
  "body_row p row =
     (let entry = ledger_get (pk_ledger p) (pr_evidence_id row);
          content = literal_display_text (case entry of None \<Rightarrow> [] | Some e \<Rightarrow> he_content e)
      in ''  evidence_id: '' @ literal_span (pr_evidence_id row)
         @ '' host_role: '' @ evidence_role_label (pr_role row)
         @ '' context_category: '' @ category_str (pr_category row)
         @ '' chronology_ordinal: '' @ (case pr_ordinal row of None \<Rightarrow> ''unknown'' | Some n \<Rightarrow> show_nat (unat n))
         @ '' source: '' @ literal_span (case entry of None \<Rightarrow> [] | Some e \<Rightarrow> he_source_label e)
         @ '' locator: '' @ literal_span (case entry of None \<Rightarrow> [] | Some e \<Rightarrow> he_locator e) @ [CHR 0x0A]
         @ (if content = [] then [] else ''    content: '' @ literal_span content @ [CHR 0x0A]))"

definition evidence_body :: "FastTriagePacketV1 \<Rightarrow> string" where
  "evidence_body p = concat (map (\<lambda>(candidate_id, rows).
     ''candidate_id: '' @ literal_span candidate_id @ '' scope: '' @ scope_str (group_scope rows) @ [CHR 0x0A]
     @ concat (map (body_row p) rows)) (rows_by_candidate p))"

section \<open>The identity is injective\<close>

definition short_field :: "string \<Rightarrow> bool" where
  "short_field s \<longleftrightarrow> length s < 2 ^ 64"

interpretation fields: prefix_code hash_field short_field
proof unfold_locales
  show "hash_field a \<noteq> []" if "short_field a" for a
  proof -
    have "length (hash_field a) = 8 + length a" by (simp add: hash_field_def)
    then show ?thesis by auto
  qed
next
  fix a b s t
  assume short: "short_field a" "short_field b" and eq: "hash_field a @ s = hash_field b @ t"
  then have "le_bytes 8 (length a) = le_bytes 8 (length b)" and rest: "a @ s = b @ t"
    by (simp_all add: hash_field_def)
  then have "length a = length b"
    using short by (intro le_bytes_inject [of _ 8]) (simp_all add: short_field_def)
  with rest show "a = b \<and> s = t" by simp
qed

definition row_short :: "FastTriagePacketRow \<Rightarrow> bool" where
  "row_short row \<longleftrightarrow> short_field (pr_evidence_id row) \<and> short_field (pr_candidate_id row)"

lemma label_inject:
  shows "evidence_role_label a = evidence_role_label b \<Longrightarrow> a = b"
    and "scope_str c = scope_str d \<Longrightarrow> c = d"
    and "category_str e = category_str f \<Longrightarrow> e = f"
    and "clock_str g = clock_str h \<Longrightarrow> g = h"
  subgoal by (cases a; cases b) simp_all
  subgoal by (cases c; cases d) simp_all
  subgoal by (cases e; cases f) simp_all
  subgoal by (cases g; cases h) simp_all
  done

lemma label_short:
  shows "short_field (evidence_role_label a)" and "short_field (scope_str c)"
    and "short_field (category_str e)" and "short_field (clock_str g)" and "short_field FAST_TRIAGE_PACKET_SCHEMA_V1"
  unfolding short_field_def
  subgoal by (cases a) simp_all
  subgoal by (cases c) simp_all
  subgoal by (cases e) simp_all
  subgoal by (cases g) simp_all
  subgoal by (simp add: FAST_TRIAGE_PACKET_SCHEMA_V1_def)
  done

lemma ordinal_bytes_split: "ordinal_bytes a @ s = ordinal_bytes b @ t \<Longrightarrow> a = b \<and> s = t"
  by (auto simp: ordinal_bytes_def split: option.splits)

lemma packet_row_split:
  assumes ok: "row_short a" "row_short b" and eq: "packet_row_bytes a @ s = packet_row_bytes b @ t"
  shows "a = b \<and> s = t"
proof -
  let ?fs = "\<lambda>r. [pr_evidence_id r, pr_candidate_id r, evidence_role_label (pr_role r), scope_str (pr_scope r),
      category_str (pr_category r)]"
  have split: "packet_row_bytes r @ x = concat (map hash_field (?fs r)) @ ordinal_bytes (pr_ordinal r) @ x" for r x
    by (simp add: packet_row_bytes_def)
  have "?fs a = ?fs b \<and> ordinal_bytes (pr_ordinal a) @ s = ordinal_bytes (pr_ordinal b) @ t"
    by (rule fields.sequence_split) (use ok eq in \<open>simp_all add: split row_short_def label_short\<close>)
  then show ?thesis
    using ordinal_bytes_split [of "pr_ordinal a" s "pr_ordinal b" t]
    by (auto intro!: FastTriagePacketRow.equality dest: label_inject)
qed

interpretation packet_rows: prefix_code packet_row_bytes row_short
proof unfold_locales
  show "packet_row_bytes a \<noteq> []" if "row_short a" for a
    using that fields.enc_nonempty [of "pr_evidence_id a"] by (simp add: packet_row_bytes_def row_short_def)
  show "a = b \<and> s = t" if "row_short a" "row_short b" "packet_row_bytes a @ s = packet_row_bytes b @ t" for a b s t
    using that by (rule packet_row_split)
qed

definition packet_short :: "AnswerBindingV1 \<Rightarrow> FastTriagePacketRow list \<Rightarrow> string option \<Rightarrow> bool" where
  "packet_short b rows ind \<longleftrightarrow> length rows < 2 ^ 64 \<and> list_all row_short rows
     \<and> list_all short_field [bind_session_id b, bind_turn_id b, bind_corpus_id b, bind_ledger_digest b,
          case ind of None \<Rightarrow> [] | Some i \<Rightarrow> i]"

lemma packet_preimage_inject:
  assumes short: "packet_short (led_binding l) rows ind" "packet_short (led_binding l') rows' ind'"
    and eq: "packet_preimage l rows ind tc clock budget = packet_preimage l' rows' ind' tc' clock' budget'"
  shows "led_binding l = led_binding l' \<and> rows = rows'
    \<and> (case ind of None \<Rightarrow> [] | Some i \<Rightarrow> i) = (case ind' of None \<Rightarrow> [] | Some i \<Rightarrow> i)
    \<and> tc = tc' \<and> clock = clock' \<and> budget = budget'"
proof -
  let ?b = "led_binding l" and ?b' = "led_binding l'"
  let ?i = "case ind of None \<Rightarrow> [] | Some i \<Rightarrow> i" and ?i' = "case ind' of None \<Rightarrow> [] | Some i \<Rightarrow> i"
  let ?fs = "\<lambda>b. [FAST_TRIAGE_PACKET_SCHEMA_V1, bind_session_id b, bind_turn_id b, bind_corpus_id b, bind_ledger_digest b]"
  let ?rev = "\<lambda>b x. to_le_bytes (event_revision (bind_revision b))
      @ to_le_bytes (template_analysis_revision (bind_revision b)) @ to_le_bytes (suppression_revision (bind_revision b)) @ x"
  let ?tail = "\<lambda>i tc clock budget rows. hash_field i @ [if tc then CHR 0x01 else CHR 0x00] @ hash_field (clock_str clock)
      @ to_le_bytes (same_source_radius budget) @ to_le_bytes (cross_source_radius budget)
      @ to_le_bytes (max_context_rows budget) @ le_bytes 8 (length rows) @ concat (map packet_row_bytes rows)"
  have pre: "packet_preimage k rs j c ck bu = concat (map hash_field (?fs (led_binding k)))
      @ ?rev (led_binding k) (?tail (case j of None \<Rightarrow> [] | Some i \<Rightarrow> i) c ck bu rs)" for k rs j c ck bu
    by (simp add: packet_preimage_def Let_def)
  have "?fs ?b = ?fs ?b' \<and> ?rev ?b (?tail ?i tc clock budget rows) = ?rev ?b' (?tail ?i' tc' clock' budget' rows')"
    by (rule fields.sequence_split) (use short eq in \<open>simp_all add: pre packet_short_def label_short\<close>)
  then have fs: "?fs ?b = ?fs ?b'" and rev: "bind_revision ?b = bind_revision ?b'"
    and tail: "?tail ?i tc clock budget rows = ?tail ?i' tc' clock' budget' rows'"
    by (auto intro: LogSnapshotRevisionV1.equality)
  have i: "?i = ?i' \<and> [if tc then CHR 0x01 else CHR 0x00] @ hash_field (clock_str clock)
      @ to_le_bytes (same_source_radius budget) @ to_le_bytes (cross_source_radius budget)
      @ to_le_bytes (max_context_rows budget) @ le_bytes 8 (length rows) @ concat (map packet_row_bytes rows)
    = [if tc' then CHR 0x01 else CHR 0x00] @ hash_field (clock_str clock')
      @ to_le_bytes (same_source_radius budget') @ to_le_bytes (cross_source_radius budget')
      @ to_le_bytes (max_context_rows budget') @ le_bytes 8 (length rows') @ concat (map packet_row_bytes rows')"
    by (rule fields.enc_split) (use short tail in \<open>simp_all add: packet_short_def\<close>)
  then have tc: "tc = tc'" by (simp split: if_splits)
  have "clock_str clock = clock_str clock' \<and>
      to_le_bytes (same_source_radius budget) @ to_le_bytes (cross_source_radius budget)
      @ to_le_bytes (max_context_rows budget) @ le_bytes 8 (length rows) @ concat (map packet_row_bytes rows)
    = to_le_bytes (same_source_radius budget') @ to_le_bytes (cross_source_radius budget')
      @ to_le_bytes (max_context_rows budget') @ le_bytes 8 (length rows') @ concat (map packet_row_bytes rows')"
    by (rule fields.enc_split) (use i in \<open>simp_all add: label_short\<close>)
  then have clock: "clock = clock'" and budget: "budget = budget'"
    and rs: "concat (map packet_row_bytes rows) = concat (map packet_row_bytes rows')"
    using label_inject(4) by (auto intro: FastTriageNeighborhoodBudget.equality)
  have "rows = rows'"
    using short rs by (intro packet_rows.sequence_inject) (simp_all add: packet_short_def)
  with fs rev i tc clock budget show ?thesis by (auto intro: AnswerBindingV1.equality)
qed

section \<open>Properties\<close>

lemma build_fields [simp]:
  "pk_ledger (packet_build H i) = pi_ledger i"
  "pk_independent_candidate_id (packet_build H i) = normalized_independent_id (pi_independent_candidate_id i)"
  "pk_timeline_complete (packet_build H i) = pi_timeline_complete i"
  "pk_clock (packet_build H i) = pi_clock i"
  "pk_packet_id (packet_build H i) = packet_identity H (pi_ledger i) (pk_rows (packet_build H i))
     (normalized_independent_id (pi_independent_candidate_id i)) (pi_timeline_complete i) (pi_clock i) (pi_neighborhood i)"
  by (simp_all add: packet_build_def Let_def)

lemma build_rows:
  "pk_neighborhood (packet_build H i) =
     classify_neighborhood (map (neighborhood_row (normalized_independent_id (pi_independent_candidate_id i)))
       (ledger_entries (pi_ledger i))) (pi_trace_correlated_candidates i) (pi_clock i) (pi_neighborhood i)"
  "pk_rows (packet_build H i) =
     map (packet_row (normalized_independent_id (pi_independent_candidate_id i)) (pk_neighborhood (packet_build H i)))
       (ledger_entries (pi_ledger i))"
  by (simp_all add: packet_build_def Let_def)

text \<open>The neighborhood of the same rows under other trace groups is the same when the categories are.\<close>

lemma classify_eqI:
  assumes d: "distinct (map nr_evidence_id rows)"
    and eq: "\<And>r. r \<in> set rows \<Longrightarrow> nb_category (classify_neighborhood rows t clock budget) (nr_evidence_id r)
      = nb_category (classify_neighborhood rows t' clock budget) (nr_evidence_id r)"
  shows "classify_neighborhood rows t clock budget = classify_neighborhood rows t' clock budget"
proof (rule FastTriageNeighborhood.equality)
  show "nb_categories (classify_neighborhood rows t clock budget) = nb_categories (classify_neighborhood rows t' clock budget)"
  proof (rule bt_extensional [OF classify_get(1) [OF d refl refl] classify_get(1) [OF d refl refl]], rule ext)
    fix eid
    show "bt_get (nb_categories (classify_neighborhood rows t clock budget)) eid
        = bt_get (nb_categories (classify_neighborhood rows t' clock budget)) eid"
      using eq classify_none [OF d, of eid t] classify_none [OF d, of eid t']
      by (cases "eid \<in> nr_evidence_id ` set rows") (auto simp: nb_category_def)
  qed
qed (simp_all add: classify_stages [OF refl])

lemma normalized_independent_id_inject:
  assumes "i = normalized_independent_id a" and "j = normalized_independent_id b"
    and "(case i of None \<Rightarrow> [] | Some s \<Rightarrow> s) = (case j of None \<Rightarrow> [] | Some s \<Rightarrow> s)"
  shows "i = j"
  using assms by (auto simp: normalized_independent_id_def split: option.splits if_splits)

text \<open>A packet id stands for one packet. Two packets built from accepted ledgers (with fields shorter
  than 2^64 bytes, no NUL inside ledger rows, and no SHA-256 collision among the four hashed texts) that have
  the same id are equal in every respect: binding, evidence rows with their contents, roles, scopes and
  categories, timeline flag, clock verdict and neighborhood accounting.\<close>

theorem packet_id_determines_packet:
  assumes ledgers: "ledger_new H b es = Inr (pi_ledger i)" "ledger_new H b' es' = Inr (pi_ledger i')"
    and clean: "\<forall>e \<in> set es. row_nul_free e" "\<forall>e \<in> set es'. row_nul_free e"
    and packets: "p = packet_build H i" "p' = packet_build H i'"
    and short: "packet_short b (pk_rows p) (pk_independent_candidate_id p)"
      "packet_short b' (pk_rows p') (pk_independent_candidate_id p')"
    and collision_free: "inj_on H
      {packet_preimage (pk_ledger p) (pk_rows p) (pk_independent_candidate_id p) (pk_timeline_complete p) (pk_clock p) (pi_neighborhood i),
       packet_preimage (pk_ledger p') (pk_rows p') (pk_independent_candidate_id p') (pk_timeline_complete p') (pk_clock p') (pi_neighborhood i'),
       digest_preimage es, digest_preimage es'}"
    and id: "pk_packet_id p = pk_packet_id p'"
  shows "p = p'"
proof -
  let ?ind = "normalized_independent_id (pi_independent_candidate_id i)"
  let ?ind' = "normalized_independent_id (pi_independent_candidate_id i')"
  note wf = ledger_new_wf [OF ledgers(1)] and wf' = ledger_new_wf [OF ledgers(2)]
  note new = ledgers(1) [unfolded ledger_new_iff] and new' = ledgers(2) [unfolded ledger_new_iff]
  have pre: "packet_preimage (pi_ledger i) (pk_rows p) ?ind (pi_timeline_complete i) (pi_clock i) (pi_neighborhood i)
      = packet_preimage (pi_ledger i') (pk_rows p') ?ind' (pi_timeline_complete i') (pi_clock i') (pi_neighborhood i')"
  proof (rule inj_onD [OF collision_free [unfolded packets build_fields], folded packets])
    show "H (packet_preimage (pi_ledger i) (pk_rows p) ?ind (pi_timeline_complete i) (pi_clock i) (pi_neighborhood i))
        = H (packet_preimage (pi_ledger i') (pk_rows p') ?ind' (pi_timeline_complete i') (pi_clock i') (pi_neighborhood i'))"
      using id unfolding packets build_fields packet_identity_def .
  qed (rule insertI1, rule insertI2, rule insertI1)
  note eqs = packet_preimage_inject [OF _ _ pre, unfolded wf(4) wf'(4), OF short [unfolded packets build_fields, folded packets]]
  have ind: "?ind = ?ind'" using eqs by (intro normalized_independent_id_inject [OF refl refl]) simp
  have "digest_preimage es = digest_preimage es'"
  proof (rule inj_onD [OF collision_free])
    show "H (digest_preimage es) = H (digest_preimage es')"
      using new new' eqs unfolding ledger_digest_def by metis
  qed (intro insertI1 insertI2)+
  then have "mset es = mset es'" using clean by (intro digest_preimage_inject)
  then have ledger: "pi_ledger i = pi_ledger i'"
    using ledger_new_perm [of es es' H b] ledgers eqs by simp
  let ?rows = "map (neighborhood_row ?ind) (ledger_entries (pi_ledger i))"
  have d: "distinct (map nr_evidence_id ?rows)"
    using new wf(3) sort_key_strict [of he_evidence_id es]
    by (simp add: rows_ok_def comp_def neighborhood_row_def strict_sorted_iff)
  have nb: "classify_neighborhood ?rows (pi_trace_correlated_candidates i) (pi_clock i) (pi_neighborhood i)
      = classify_neighborhood ?rows (pi_trace_correlated_candidates i') (pi_clock i) (pi_neighborhood i)"
    (is "?nb = ?nb'")
  proof (rule classify_eqI [OF d])
    have p: "pk_rows p = map (packet_row ?ind ?nb) (ledger_entries (pi_ledger i))"
      unfolding packets build_rows ..
    have p': "pk_rows p' = map (packet_row ?ind ?nb') (ledger_entries (pi_ledger i))"
      unfolding packets build_rows ind ledger using eqs by simp
    fix r
    assume r: "r \<in> set ?rows"
    then obtain e where e: "e \<in> set (ledger_entries (pi_ledger i))" "r = neighborhood_row ?ind e" by auto
    have "map (packet_row ?ind ?nb) (ledger_entries (pi_ledger i)) = map (packet_row ?ind ?nb') (ledger_entries (pi_ledger i))"
      using eqs p p' by metis
    then have "packet_row ?ind ?nb e = packet_row ?ind ?nb' e" using e(1) by (simp only: map_eq_conv)
    then have "pr_category (packet_row ?ind ?nb e) = pr_category (packet_row ?ind ?nb' e)" by simp
    then show "nb_category ?nb (nr_evidence_id r) = nb_category ?nb' (nr_evidence_id r)"
      unfolding classify_category [OF d r]
      using e classify_category [OF d r] by (simp add: packet_row_def neighborhood_row_def)
  qed
  have "pk_neighborhood p = pk_neighborhood p'"
    unfolding packets build_rows(1) nb unfolding ind ledger using eqs by simp
  then show ?thesis
    by (intro FastTriagePacketV1.equality) (use id eqs ind ledger in \<open>simp_all add: packets\<close>)
qed

definition sample_entry :: HostEvidenceEntry where
  "sample_entry = \<lparr>he_evidence_id = ''e'', he_candidate_id = ''g'', he_source_label = ''app'', he_locator = ''line 3'',
     he_corpus_id = ''c'', he_revision = \<lparr>event_revision = 1, template_analysis_revision = 2, suppression_revision = 3\<rparr>,
     he_role = RoleCause, he_content = ''boom''\<rparr>"

definition sample_binding :: AnswerBindingV1 where
  "sample_binding = \<lparr>bind_session_id = ''s'', bind_turn_id = ''t'', bind_corpus_id = ''c'',
     bind_revision = he_revision sample_entry, bind_ledger_digest = digest_preimage [sample_entry]\<rparr>"

definition sample_ledger :: HostEvidenceLedger where
  "sample_ledger = \<lparr>led_binding = sample_binding, led_entries = [(''e'', sample_entry)]\<rparr>"

definition sample_inputs :: "string set \<Rightarrow> FastTriagePacketInputs" where
  "sample_inputs traces = \<lparr>pi_ledger = sample_ledger, pi_independent_candidate_id = None, pi_timeline_complete = True,
     pi_clock = OrderOnly, pi_trace_correlated_candidates = traces, pi_neighborhood = default_neighborhood_budget\<rparr>"

lemma sample_packet_rows:
  "pk_rows (packet_build (\<lambda>x. x) (sample_inputs {})) = pk_rows (packet_build (\<lambda>x. x) (sample_inputs {''g''}))"
  "pk_rows (packet_build (\<lambda>x. x) (sample_inputs {''g''})) =
     [\<lparr>pr_evidence_id = ''e'', pr_candidate_id = ''g'', pr_role = RoleCause, pr_scope = ScopeCandidate,
       pr_ordinal = None, pr_category = Focus\<rparr>]"
  by code_simp+

theorem packet_id_determines_packet_witness:
  "packet_build (\<lambda>x. x) (sample_inputs {}) = packet_build (\<lambda>x. x) (sample_inputs {''g''})"
proof (rule packet_id_determines_packet [OF _ _ _ _ refl refl])
  have led: "ledger_new (\<lambda>x. x) sample_binding [sample_entry] = Inr sample_ledger" by code_simp
  then show "ledger_new (\<lambda>x. x) sample_binding [sample_entry] = Inr (pi_ledger (sample_inputs {}))"
    "ledger_new (\<lambda>x. x) sample_binding [sample_entry] = Inr (pi_ledger (sample_inputs {''g''}))"
    by (simp_all add: sample_inputs_def)
  show "\<forall>e \<in> set [sample_entry]. row_nul_free e" "\<forall>e \<in> set [sample_entry]. row_nul_free e"
    by (simp_all add: sample_entry_def row_nul_free_def row_fields_def nul_free_def)
  have "length (digest_preimage [sample_entry]) = 47" by code_simp
  then show "packet_short sample_binding (pk_rows (packet_build (\<lambda>x. x) (sample_inputs {})))
      (pk_independent_candidate_id (packet_build (\<lambda>x. x) (sample_inputs {})))"
    "packet_short sample_binding (pk_rows (packet_build (\<lambda>x. x) (sample_inputs {''g''})))
      (pk_independent_candidate_id (packet_build (\<lambda>x. x) (sample_inputs {''g''})))"
    unfolding sample_packet_rows
    by (simp_all add: packet_short_def row_short_def short_field_def sample_binding_def sample_inputs_def
        normalized_independent_id_def)
  show "pk_packet_id (packet_build (\<lambda>x. x) (sample_inputs {})) = pk_packet_id (packet_build (\<lambda>x. x) (sample_inputs {''g''}))"
    unfolding build_fields sample_packet_rows by (simp add: sample_inputs_def)
qed (simp add: inj_on_def)

end
