(* ===== verification/Fast_Validate.thy ===== *)
theory Fast_Validate
  imports Fast_Packet Investigation_Answer
begin

text \<open>
  \<open>crates/cd-core/src/fast_triage/validate.rs\<close>: host validation of one proposal against a packet. The
  shared validator runs first; then one pass over candidates, claims and cited ids fills maps and a
  set of failure categories, and four further loops add to it. The specification \<open>violates\<close> says for
  each category, without loops, when the answer commits it; the validator reports exactly the
  violated categories, in the order of the vocabulary.
\<close>

section \<open>Categories\<close>

datatype FastTriageFailureCategory =
    FcEmptyVisibleAnswer | FcMalformedTerminal | FcSchemaMismatch | FcDuplicateId | FcForeignEvidenceId
  | FcCrossCandidateEvidence | FcStaleEvidenceRevision | FcUngroundedClaim | FcRootUnsupported
  | FcSymptomPromotedToCause | FcIndependentEvidencePromoted | FcChronologyInverted | FcRoleCoverage
  | FcContradictoryRoles | FcCitationIncomplete | FcPacketIdentityChanged | FcHostPacketInvalid

fun failure_str :: "FastTriageFailureCategory \<Rightarrow> string" where
  "failure_str FcEmptyVisibleAnswer = ''empty_visible_answer''"
| "failure_str FcMalformedTerminal = ''malformed_terminal''"
| "failure_str FcSchemaMismatch = ''schema_mismatch''"
| "failure_str FcDuplicateId = ''duplicate_id''"
| "failure_str FcForeignEvidenceId = ''foreign_evidence_id''"
| "failure_str FcCrossCandidateEvidence = ''cross_candidate_evidence''"
| "failure_str FcStaleEvidenceRevision = ''stale_evidence_revision''"
| "failure_str FcUngroundedClaim = ''ungrounded_claim''"
| "failure_str FcRootUnsupported = ''root_unsupported''"
| "failure_str FcSymptomPromotedToCause = ''symptom_promoted_to_cause''"
| "failure_str FcIndependentEvidencePromoted = ''independent_evidence_promoted''"
| "failure_str FcChronologyInverted = ''chronology_inverted''"
| "failure_str FcRoleCoverage = ''role_coverage''"
| "failure_str FcContradictoryRoles = ''contradictory_roles''"
| "failure_str FcCitationIncomplete = ''citation_incomplete''"
| "failure_str FcPacketIdentityChanged = ''packet_identity_changed''"
| "failure_str FcHostPacketInvalid = ''host_packet_invalid''"

fun from_validation_error :: "ValidationError \<Rightarrow> FastTriageFailureCategory" where
  "from_validation_error Parse = FcMalformedTerminal"
| "from_validation_error Schema = FcSchemaMismatch"
| "from_validation_error DuplicateId = FcDuplicateId"
| "from_validation_error UnknownEvidence = FcForeignEvidenceId"
| "from_validation_error WrongScope = FcCrossCandidateEvidence"
| "from_validation_error WrongRevision = FcStaleEvidenceRevision"
| "from_validation_error EmptyEvidence = FcUngroundedClaim"
| "from_validation_error RootRole = FcRootUnsupported"
| "from_validation_error RoleMismatch = FcSymptomPromotedToCause"
| "from_validation_error RoleCoverage = FcRoleCoverage"
| "from_validation_error EmptyLedger = FcHostPacketInvalid"
| "from_validation_error InvalidBinding = FcHostPacketInvalid"
| "from_validation_error DigestMismatch = FcHostPacketInvalid"

definition is_host_side :: "FastTriageFailureCategory \<Rightarrow> bool" where
  "is_host_side c \<longleftrightarrow> c \<in> {FcPacketIdentityChanged, FcHostPacketInvalid}"

definition VALIDATOR_VOCABULARY :: "FastTriageFailureCategory list" where
  "VALIDATOR_VOCABULARY =
     [FcEmptyVisibleAnswer, FcMalformedTerminal, FcSchemaMismatch, FcDuplicateId, FcForeignEvidenceId,
      FcCrossCandidateEvidence, FcStaleEvidenceRevision, FcUngroundedClaim, FcRootUnsupported,
      FcSymptomPromotedToCause, FcIndependentEvidencePromoted, FcChronologyInverted, FcRoleCoverage,
      FcContradictoryRoles, FcCitationIncomplete, FcPacketIdentityChanged, FcHostPacketInvalid]"

datatype FastTriageValidation =
    Accepted AnswerEnvelopeV1
  | Rejected "FastTriageFailureCategory list"

fun primary_category :: "FastTriageValidation \<Rightarrow> FastTriageFailureCategory option" where
  "primary_category (Accepted _) = None"
| "primary_category (Rejected cs) = (case cs of [] \<Rightarrow> None | c # _ \<Rightarrow> Some c)"

section \<open>The validator\<close>

definition CHAIN_KINDS :: "ClaimKind list" where
  "CHAIN_KINDS = [Symptom, CausalCandidate, InitiatingCause]"

definition is_chain_kind :: "ClaimKind \<Rightarrow> bool" where
  "is_chain_kind kind \<longleftrightarrow> kind \<in> set CHAIN_KINDS"

record fv_state =
  fv_categories :: "FastTriageFailureCategory set"
  fv_cited_kinds :: "(string, ClaimKind set) btree_map"
  fv_grounded :: "(string, bool) btree_map"
  fv_earliest :: "string \<times> ClaimKind \<rightharpoonup> u64"

definition fv_init :: "FastTriagePacketV1 \<Rightarrow> fv_state" where
  "fv_init p = \<lparr>fv_categories = {}, fv_cited_kinds = [],
     fv_grounded = fold (\<lambda>row. bt_insert (pr_candidate_id row) False) (pk_rows p) [], fv_earliest = Map.empty\<rparr>"

text \<open>One cited evidence id.\<close>

definition row_categories :: "ClaimKind \<Rightarrow> FastTriagePacketRow \<Rightarrow> FastTriageFailureCategory set" where
  "row_categories kind row =
     (if pr_role row = RoleSymptom \<and> kind \<in> {CausalCandidate, InitiatingCause} then {FcSymptomPromotedToCause} else {})
     \<union> (if pr_scope row = ScopeIndependent \<and> is_chain_kind kind then {FcIndependentEvidencePromoted} else {})"

definition cite_step :: "FastTriagePacketV1 \<Rightarrow> string \<Rightarrow> ClaimKind \<Rightarrow> string \<Rightarrow> fv_state \<Rightarrow> fv_state" where
  "cite_step p cand kind eid st =
     (case packet_find_row p eid of
        None \<Rightarrow> st
      | Some row \<Rightarrow>
          st\<lparr>fv_cited_kinds := bt_insert (pr_evidence_id row)
               (insert kind (case bt_get (fv_cited_kinds st) (pr_evidence_id row) of None \<Rightarrow> {} | Some ks \<Rightarrow> ks))
               (fv_cited_kinds st),
             fv_earliest :=
               (case pr_ordinal row of
                  None \<Rightarrow> fv_earliest st
                | Some ordinal \<Rightarrow> (fv_earliest st)((cand, kind) \<mapsto>
                    (case fv_earliest st (cand, kind) of None \<Rightarrow> ordinal | Some current \<Rightarrow> min current ordinal))),
             fv_categories := fv_categories st \<union> row_categories kind row\<rparr>)"

definition claim_head_step :: "string \<Rightarrow> InvestigationClaimV1 \<Rightarrow> fv_state \<Rightarrow> fv_state" where
  "claim_head_step cand claim st =
     st\<lparr>fv_grounded := (if claim_evidence_ids claim \<noteq> [] then bt_insert cand True (fv_grounded st) else fv_grounded st),
        fv_categories := (if claim_kind claim = InitiatingCause \<and> claim_status claim = Withheld
           then insert FcRootUnsupported (fv_categories st) else fv_categories st)\<rparr>"

definition fast_claim_step :: "FastTriagePacketV1 \<Rightarrow> string \<Rightarrow> InvestigationClaimV1 \<Rightarrow> fv_state \<Rightarrow> fv_state" where
  "fast_claim_step p cand claim st =
     fold (cite_step p cand (claim_kind claim)) (claim_evidence_ids claim) (claim_head_step cand claim st)"

definition fast_candidate_step :: "FastTriagePacketV1 \<Rightarrow> InvestigationCandidateV1 \<Rightarrow> fv_state \<Rightarrow> fv_state" where
  "fast_candidate_step p c st = fold (fast_claim_step p (cand_candidate_id c)) (cand_claims c) st"

text \<open>Host-labelled rows per candidate.\<close>

definition label_step ::
  "EvidenceRole \<Rightarrow> FastTriagePacketRow \<Rightarrow> (string, string set) btree_map \<Rightarrow> (string, string set) btree_map" where
  "label_step role row m =
     (if pr_role row = role
      then bt_insert (pr_candidate_id row)
        (insert (pr_evidence_id row) (case bt_get m (pr_candidate_id row) of None \<Rightarrow> {} | Some ids \<Rightarrow> ids)) m
      else m)"

definition labelled_rows :: "FastTriagePacketV1 \<Rightarrow> EvidenceRole \<Rightarrow> (string, string set) btree_map" where
  "labelled_rows p role = fold (label_step role) (pk_rows p) []"

definition cited_in :: "InvestigationAnswerV1 \<Rightarrow> string \<Rightarrow> ClaimKind list \<Rightarrow> string set \<Rightarrow> bool" where
  "cited_in answer candidate_id kinds ids =
     (case find (\<lambda>c. cand_candidate_id c = candidate_id) (ans_candidates answer) of
        None \<Rightarrow> False
      | Some c \<Rightarrow> list_ex (\<lambda>claim. claim_kind claim \<in> set kinds
          \<and> list_ex (\<lambda>id. id \<in> ids) (claim_evidence_ids claim)) (cand_claims c))"

definition contradictory :: "ClaimKind set \<Rightarrow> bool" where
  "contradictory kinds \<longleftrightarrow>
     (\<exists>k \<in> kinds. is_chain_kind k) \<and> CompetingExplanation \<in> kinds \<or> InitiatingCause \<in> kinds \<and> Symptom \<in> kinds"

definition inverted :: "(string \<times> ClaimKind \<rightharpoonup> u64) \<Rightarrow> string \<Rightarrow> bool" where
  "inverted earliest cand =
     (case (earliest (cand, InitiatingCause), earliest (cand, Symptom)) of
        (Some cause, Some symptom) \<Rightarrow> cause > symptom
      | _ \<Rightarrow> False)"

definition fast_categories :: "FastTriagePacketV1 \<Rightarrow> InvestigationAnswerV1 \<Rightarrow> FastTriageFailureCategory set" where
  "fast_categories p answer =
     (let st = fold (fast_candidate_step p) (ans_candidates answer) (fv_init p) in
      fv_categories st
      \<union> (if list_ex contradictory (bt_values (fv_cited_kinds st)) then {FcContradictoryRoles} else {})
      \<union> (if list_ex (\<lambda>c. inverted (fv_earliest st) (cand_candidate_id c)) (ans_candidates answer)
         then {FcChronologyInverted} else {})
      \<union> (if list_ex (\<lambda>(cand, ids). \<not> cited_in answer cand [CausalCandidate, InitiatingCause] ids)
             (labelled_rows p RoleCause) then {FcRoleCoverage} else {})
      \<union> (if list_ex (\<lambda>(cand, ids). \<not> cited_in answer cand [Symptom] ids)
             (labelled_rows p RoleSymptom) then {FcRoleCoverage} else {})
      \<union> (if list_ex Not (bt_values (fv_grounded st)) then {FcCitationIncomplete} else {}))"

definition validate_fast_answer ::
  "(string \<Rightarrow> ModelInvestigationAnswerV1 option) \<Rightarrow> string \<Rightarrow> FastTriagePacketV1 \<Rightarrow> FastTriageValidation" where
  "validate_fast_answer F object p =
     (case validate_model_answer F object (pk_ledger p) of
        Inl error \<Rightarrow> Rejected [from_validation_error error]
      | Inr envelope \<Rightarrow>
          (let categories = fast_categories p (env_answer envelope) in
           if categories = {} then Accepted envelope
           else Rejected (filter (\<lambda>c. c \<in> categories) VALIDATOR_VOCABULARY)))"

section \<open>Specification\<close>

text \<open>Candidate and claim pairs, and the packet rows a claim cites.\<close>

definition claims_in_answer :: "InvestigationAnswerV1 \<Rightarrow> (string \<times> InvestigationClaimV1) set" where
  "claims_in_answer a = {(cand_candidate_id c, claim) | c claim. c \<in> set (ans_candidates a) \<and> claim \<in> set (cand_claims c)}"

definition cites :: "FastTriagePacketV1 \<Rightarrow> InvestigationAnswerV1 \<Rightarrow> string \<Rightarrow> ClaimKind \<Rightarrow> FastTriagePacketRow \<Rightarrow> bool" where
  "cites p a cand kind row \<longleftrightarrow> (\<exists>claim. (cand, claim) \<in> claims_in_answer a \<and> claim_kind claim = kind
     \<and> (\<exists>eid \<in> set (claim_evidence_ids claim). packet_find_row p eid = Some row))"

definition kinds_citing :: "FastTriagePacketV1 \<Rightarrow> InvestigationAnswerV1 \<Rightarrow> string \<Rightarrow> ClaimKind set" where
  "kinds_citing p a eid = {kind. \<exists>cand row. cites p a cand kind row \<and> pr_evidence_id row = eid}"

definition ordinals_citing :: "FastTriagePacketV1 \<Rightarrow> InvestigationAnswerV1 \<Rightarrow> string \<Rightarrow> ClaimKind \<Rightarrow> u64 set" where
  "ordinals_citing p a cand kind = {o1. \<exists>row. cites p a cand kind row \<and> pr_ordinal row = Some o1}"

text \<open>Some row of the candidate with this host role, but no claim of these kinds on any of them.\<close>

definition role_uncovered ::
  "FastTriagePacketV1 \<Rightarrow> InvestigationAnswerV1 \<Rightarrow> EvidenceRole \<Rightarrow> ClaimKind set \<Rightarrow> bool" where
  "role_uncovered p a role kinds \<longleftrightarrow> (\<exists>row \<in> set (pk_rows p). pr_role row = role
     \<and> (\<nexists>claim eid row'. (pr_candidate_id row, claim) \<in> claims_in_answer a \<and> claim_kind claim \<in> kinds
          \<and> eid \<in> set (claim_evidence_ids claim) \<and> row' \<in> set (pk_rows p) \<and> pr_role row' = role
          \<and> pr_candidate_id row' = pr_candidate_id row \<and> pr_evidence_id row' = eid))"

fun violates :: "FastTriagePacketV1 \<Rightarrow> InvestigationAnswerV1 \<Rightarrow> FastTriageFailureCategory \<Rightarrow> bool" where
  "violates p a FcRootUnsupported \<longleftrightarrow>
     (\<exists>cand claim. (cand, claim) \<in> claims_in_answer a \<and> claim_kind claim = InitiatingCause \<and> claim_status claim = Withheld)"
| "violates p a FcSymptomPromotedToCause \<longleftrightarrow>
     (\<exists>cand kind row. cites p a cand kind row \<and> pr_role row = RoleSymptom \<and> kind \<in> {CausalCandidate, InitiatingCause})"
| "violates p a FcIndependentEvidencePromoted \<longleftrightarrow>
     (\<exists>cand kind row. cites p a cand kind row \<and> pr_scope row = ScopeIndependent \<and> is_chain_kind kind)"
| "violates p a FcContradictoryRoles \<longleftrightarrow> (\<exists>eid. contradictory (kinds_citing p a eid))"
| "violates p a FcChronologyInverted \<longleftrightarrow>
     (\<exists>cand. ordinals_citing p a cand InitiatingCause \<noteq> {} \<and> ordinals_citing p a cand Symptom \<noteq> {}
        \<and> Min (ordinals_citing p a cand InitiatingCause) > Min (ordinals_citing p a cand Symptom))"
| "violates p a FcRoleCoverage \<longleftrightarrow>
     role_uncovered p a RoleCause {CausalCandidate, InitiatingCause} \<or> role_uncovered p a RoleSymptom {Symptom}"
| "violates p a FcCitationIncomplete \<longleftrightarrow>
     (\<exists>row \<in> set (pk_rows p). \<nexists>claim. (pr_candidate_id row, claim) \<in> claims_in_answer a \<and> claim_evidence_ids claim \<noteq> [])"
| "violates p a _ \<longleftrightarrow> False"

section \<open>The pass over the claims\<close>

text \<open>The nested loop as one list of events: a claim is entered, or one of its ids is looked up.\<close>

type_synonym fv_event = "string \<times> InvestigationClaimV1 \<times> string option"

definition claim_events :: "string \<Rightarrow> InvestigationClaimV1 \<Rightarrow> fv_event list" where
  "claim_events cand claim = (cand, claim, None) # map (\<lambda>eid. (cand, claim, Some eid)) (claim_evidence_ids claim)"

definition answer_events :: "InvestigationCandidateV1 list \<Rightarrow> fv_event list" where
  "answer_events cs = concat (map (\<lambda>c. concat (map (claim_events (cand_candidate_id c)) (cand_claims c))) cs)"

definition event_step :: "FastTriagePacketV1 \<Rightarrow> fv_event \<Rightarrow> fv_state \<Rightarrow> fv_state" where
  "event_step p ev st = (case ev of (cand, claim, None) \<Rightarrow> claim_head_step cand claim st
     | (cand, claim, Some eid) \<Rightarrow> cite_step p cand (claim_kind claim) eid st)"

lemma claim_as_events: "fast_claim_step p cand claim st = fold (event_step p) (claim_events cand claim) st"
  by (simp add: fast_claim_step_def claim_events_def event_step_def [abs_def] fold_map comp_def)

lemma candidate_as_events:
  "fast_candidate_step p c st = fold (event_step p) (concat (map (claim_events (cand_candidate_id c)) (cand_claims c))) st"
proof -
  have "fold (fast_claim_step p cand) claims st = fold (event_step p) (concat (map (claim_events cand) claims)) st" for cand claims
    by (induction claims arbitrary: st) (simp_all add: claim_as_events)
  then show ?thesis by (simp add: fast_candidate_step_def)
qed

lemma pass_as_events: "fold (fast_candidate_step p) cs st = fold (event_step p) (answer_events cs) st"
  by (induction cs arbitrary: st) (simp_all add: answer_events_def candidate_as_events)

lemma event_claim: "(cand, claim, None) \<in> set (answer_events (ans_candidates a)) \<longleftrightarrow> (cand, claim) \<in> claims_in_answer a"
  by (auto simp: answer_events_def claim_events_def claims_in_answer_def)

lemma event_cite:
  "(cand, claim, Some eid) \<in> set (answer_events (ans_candidates a)) \<longleftrightarrow>
     (cand, claim) \<in> claims_in_answer a \<and> eid \<in> set (claim_evidence_ids claim)"
  by (auto simp: answer_events_def claim_events_def claims_in_answer_def)

text \<open>What a list of events leaves behind.\<close>

definition ev_cites :: "FastTriagePacketV1 \<Rightarrow> fv_event set \<Rightarrow> string \<Rightarrow> ClaimKind \<Rightarrow> FastTriagePacketRow \<Rightarrow> bool" where
  "ev_cites p E cand kind row \<longleftrightarrow>
     (\<exists>claim eid. (cand, claim, Some eid) \<in> E \<and> claim_kind claim = kind \<and> packet_find_row p eid = Some row)"

definition ev_kinds :: "FastTriagePacketV1 \<Rightarrow> fv_event set \<Rightarrow> string \<Rightarrow> ClaimKind set" where
  "ev_kinds p E eid = {kind. \<exists>cand row. ev_cites p E cand kind row \<and> pr_evidence_id row = eid}"

definition ev_ordinals :: "FastTriagePacketV1 \<Rightarrow> fv_event set \<Rightarrow> string \<times> ClaimKind \<Rightarrow> u64 set" where
  "ev_ordinals p E ck = {o1. \<exists>row. ev_cites p E (fst ck) (snd ck) row \<and> pr_ordinal row = Some o1}"

definition nonempty :: "'a set \<Rightarrow> 'a set option" where
  "nonempty S = (if S = {} then None else Some S)"

lemma nonempty_Some: "nonempty S = Some v \<longleftrightarrow> v = S \<and> S \<noteq> {}"
  by (auto simp: nonempty_def)

definition fv_after :: "FastTriagePacketV1 \<Rightarrow> fv_event set \<Rightarrow> fv_state \<Rightarrow> bool" where
  "fv_after p E st \<longleftrightarrow>
     bt_wf (fv_cited_kinds st) \<and> bt_wf (fv_grounded st)
     \<and> fv_categories st =
         {FcRootUnsupported | cand claim. (cand, claim, None) \<in> E \<and> claim_kind claim = InitiatingCause \<and> claim_status claim = Withheld}
         \<union> {c. \<exists>cand kind row. ev_cites p E cand kind row \<and> c \<in> row_categories kind row}
     \<and> bt_get (fv_cited_kinds st) = (\<lambda>eid. nonempty (ev_kinds p E eid))
     \<and> bt_get (fv_grounded st) = (\<lambda>k. if \<exists>claim. (k, claim, None) \<in> E \<and> claim_evidence_ids claim \<noteq> [] then Some True
         else bt_get (fv_grounded (fv_init p)) k)
     \<and> fv_earliest st = (\<lambda>ck. map_option Min (nonempty (ev_ordinals p E ck)))"

lemma ev_cites_insert:
  "ev_cites p (insert (c, claim, None) E) = ev_cites p E"
  "ev_cites p (insert (c, claim, Some eid) E) cand kind row \<longleftrightarrow>
     cand = c \<and> kind = claim_kind claim \<and> packet_find_row p eid = Some row \<or> ev_cites p E cand kind row"
  by (auto simp: ev_cites_def fun_eq_iff)

lemma fv_after_head:
  assumes "fv_after p E st"
  shows "fv_after p (insert (cand, claim, None) E) (claim_head_step cand claim st)"
proof -
  have same: "ev_kinds p (insert (cand, claim, None) E) = ev_kinds p E"
    "ev_ordinals p (insert (cand, claim, None) E) = ev_ordinals p E"
    by (simp_all add: ev_kinds_def ev_ordinals_def ev_cites_insert fun_eq_iff)
  show ?thesis
    using assms unfolding fv_after_def same ev_cites_insert
    by (auto simp: claim_head_step_def bt_wf_insert bt_get_insert fun_eq_iff)
qed

lemma fv_after_miss:
  assumes "fv_after p E st" and "packet_find_row p eid = None"
  shows "fv_after p (insert (cand, claim, Some eid) E) st"
proof -
  have c: "ev_cites p (insert (cand, claim, Some eid) E) = ev_cites p E"
    using assms(2) by (simp add: fun_eq_iff ev_cites_insert)
  then have "ev_kinds p (insert (cand, claim, Some eid) E) = ev_kinds p E"
    "ev_ordinals p (insert (cand, claim, Some eid) E) = ev_ordinals p E"
    by (simp_all add: ev_kinds_def ev_ordinals_def fun_eq_iff)
  with c assms(1) show ?thesis unfolding fv_after_def by simp
qed

lemma Min_opt_insert:
  "finite S \<Longrightarrow> Some (case map_option Min (nonempty S) of None \<Rightarrow> x | Some m \<Rightarrow> min m x) = map_option Min (nonempty (insert x S))"
  by (auto simp: nonempty_def min.commute)

lemma finite_ev_ordinals: "finite (ev_ordinals p E ck)"
  by (rule finite_subset [of _ UNIV]) simp_all

lemma fv_after_hit:
  assumes st: "fv_after p E st" and row: "packet_find_row p eid = Some row"
  shows "fv_after p (insert (cand, claim, Some eid) E) (cite_step p cand (claim_kind claim) eid st)"
proof -
  let ?E = "insert (cand, claim, Some eid) E" and ?k = "claim_kind claim"
  have kinds: "ev_kinds p ?E x = (if x = pr_evidence_id row then insert ?k (ev_kinds p E x) else ev_kinds p E x)" for x
    using row by (auto simp: ev_kinds_def ev_cites_insert)
  have ords: "ev_ordinals p ?E ck = (case pr_ordinal row of Some o1 \<Rightarrow>
      if ck = (cand, ?k) then insert o1 (ev_ordinals p E ck) else ev_ordinals p E ck | None \<Rightarrow> ev_ordinals p E ck)" for ck
    using row by (cases ck) (auto simp: ev_ordinals_def ev_cites_insert split: option.splits)
  have "bt_get (fv_cited_kinds (cite_step p cand ?k eid st)) = (\<lambda>x. nonempty (ev_kinds p ?E x))"
    using st row by (auto simp: fv_after_def cite_step_def bt_get_insert kinds fun_eq_iff nonempty_def)
  moreover have "fv_earliest (cite_step p cand ?k eid st) = (\<lambda>ck. map_option Min (nonempty (ev_ordinals p ?E ck)))"
    using st row Min_opt_insert [OF finite_ev_ordinals [of p E "(cand, ?k)"]]
    by (auto simp: fv_after_def cite_step_def ords fun_eq_iff split: option.splits)
  moreover have "fv_categories (cite_step p cand ?k eid st) =
      {FcRootUnsupported | cand claim. (cand, claim, None) \<in> ?E \<and> claim_kind claim = InitiatingCause \<and> claim_status claim = Withheld}
         \<union> {c. \<exists>cand kind row. ev_cites p ?E cand kind row \<and> c \<in> row_categories kind row}"
  proof -
    have "{c. \<exists>cand kind row. ev_cites p ?E cand kind row \<and> c \<in> row_categories kind row} =
        {c. \<exists>cand kind row. ev_cites p E cand kind row \<and> c \<in> row_categories kind row} \<union> row_categories ?k row"
      unfolding ev_cites_insert row by blast
    moreover have "(c', cl', None) \<in> ?E \<longleftrightarrow> (c', cl', None) \<in> E" for c' cl' by simp
    moreover have "fv_categories (cite_step p cand ?k eid st) = fv_categories st \<union> row_categories ?k row"
      using row by (simp add: cite_step_def)
    ultimately show ?thesis using st by (simp only: fv_after_def Un_assoc)
  qed
  ultimately show ?thesis
    using st row by (simp add: fv_after_def cite_step_def bt_wf_insert)
qed

lemma fv_after_events: "fv_after p (set evs) (fold (event_step p) evs (fv_init p))"
proof (induction evs rule: rev_induct)
  case Nil
  have "bt_wf (fold (\<lambda>row. bt_insert (pr_candidate_id row) False) rows m)" if "bt_wf m" for rows and m :: "(string, bool) btree_map"
    using that by (induction rows arbitrary: m) (simp_all add: bt_wf_insert)
  from this [OF bt.wf_empty] show ?case
    by (simp add: fv_after_def fv_init_def ev_cites_def ev_kinds_def ev_ordinals_def nonempty_def bt_get_def [abs_def]
        bt.wf_empty)
next
  case (snoc ev evs)
  obtain cand claim x where ev: "ev = (cand, claim, x)" by (cases ev)
  show ?case
  proof (cases x)
    case None
    then show ?thesis using fv_after_head [OF snoc] ev by (simp add: event_step_def)
  next
    case (Some eid)
    then show ?thesis
      using fv_after_miss [OF snoc, of eid] fv_after_hit [OF snoc, of eid] ev
      by (cases "packet_find_row p eid") (auto simp: event_step_def cite_step_def)
  qed
qed

lemma ev_cites_answer: "ev_cites p (set (answer_events (ans_candidates a))) = cites p a"
  by (auto simp: fun_eq_iff ev_cites_def cites_def event_cite)

text \<open>The state after the pass, in terms of the answer.\<close>

lemma pass_spec:
  assumes "st = fold (fast_candidate_step p) (ans_candidates a) (fv_init p)"
  shows "fv_categories st = {c. c \<in> {FcRootUnsupported, FcSymptomPromotedToCause, FcIndependentEvidencePromoted} \<and> violates p a c}"
    and "bt_wf (fv_cited_kinds st)" and "bt_get (fv_cited_kinds st) = (\<lambda>eid. nonempty (kinds_citing p a eid))"
    and "bt_wf (fv_grounded st)"
    and "bt_get (fv_grounded st) = (\<lambda>k. if \<exists>claim. (k, claim) \<in> claims_in_answer a \<and> claim_evidence_ids claim \<noteq> [] then Some True
         else bt_get (fv_grounded (fv_init p)) k)"
    and "fv_earliest st = (\<lambda>(cand, kind). map_option Min (nonempty (ordinals_citing p a cand kind)))"
proof -
  let ?E = "set (answer_events (ans_candidates a))"
  have after: "fv_after p ?E st" unfolding assms pass_as_events by (rule fv_after_events)
  have "ev_kinds p ?E = kinds_citing p a" "ev_ordinals p ?E ck = ordinals_citing p a (fst ck) (snd ck)" for ck
    by (simp_all add: fun_eq_iff ev_kinds_def kinds_citing_def ev_ordinals_def ordinals_citing_def ev_cites_answer)
  then show "bt_wf (fv_cited_kinds st)" "bt_get (fv_cited_kinds st) = (\<lambda>eid. nonempty (kinds_citing p a eid))"
    "bt_wf (fv_grounded st)"
    "bt_get (fv_grounded st) = (\<lambda>k. if \<exists>claim. (k, claim) \<in> claims_in_answer a \<and> claim_evidence_ids claim \<noteq> [] then Some True
         else bt_get (fv_grounded (fv_init p)) k)"
    "fv_earliest st = (\<lambda>(cand, kind). map_option Min (nonempty (ordinals_citing p a cand kind)))"
    using after by (auto simp: fv_after_def event_claim case_prod_unfold)
  have "fv_categories st =
         {FcRootUnsupported | cand claim. (cand, claim) \<in> claims_in_answer a \<and> claim_kind claim = InitiatingCause \<and> claim_status claim = Withheld}
         \<union> {c. \<exists>cand kind row. cites p a cand kind row \<and> c \<in> row_categories kind row}"
    using after by (simp add: fv_after_def event_claim ev_cites_answer)
  moreover have "c \<in> row_categories kind row \<longleftrightarrow>
      c = FcSymptomPromotedToCause \<and> pr_role row = RoleSymptom \<and> kind \<in> {CausalCandidate, InitiatingCause}
      \<or> c = FcIndependentEvidencePromoted \<and> pr_scope row = ScopeIndependent \<and> is_chain_kind kind" for c kind row
    by (auto simp: row_categories_def)
  ultimately have "c \<in> fv_categories st \<longleftrightarrow>
      c \<in> {FcRootUnsupported, FcSymptomPromotedToCause, FcIndependentEvidencePromoted} \<and> violates p a c" for c
    by (cases c) simp_all
  then show "fv_categories st = {c. c \<in> {FcRootUnsupported, FcSymptomPromotedToCause, FcIndependentEvidencePromoted} \<and> violates p a c}"
    by blast
qed

section \<open>The later loops\<close>

lemma bt_values_get: "bt_wf m \<Longrightarrow> v \<in> set (bt_values m) \<longleftrightarrow> (\<exists>k. bt_get m k = Some v)"
  using bt_wf_distinct [of m] by (force simp: bt_values_def bt_get_def map_of_eq_Some_iff)

lemma kinds_citing_id: "kinds_citing p a eid = {} \<Longrightarrow> \<not> contradictory (kinds_citing p a eid)"
  by (simp add: contradictory_def)

lemma labelled_rows_get:
  "bt_wf (labelled_rows p role) \<and> bt_get (labelled_rows p role) c =
     nonempty {pr_evidence_id r | r. r \<in> set (pk_rows p) \<and> pr_role r = role \<and> pr_candidate_id r = c}"
proof -
  have "bt_wf (fold (label_step role) rows []) \<and> (\<forall>c. bt_get (fold (label_step role) rows []) c =
      nonempty {pr_evidence_id r | r. r \<in> set rows \<and> pr_role r = role \<and> pr_candidate_id r = c})" for rows
  proof (induction rows rule: rev_induct)
    case (snoc r rows)
    have "{pr_evidence_id r' | r'. r' \<in> set (rows @ [r]) \<and> pr_role r' = role \<and> pr_candidate_id r' = c} =
        (if pr_role r = role \<and> pr_candidate_id r = c
         then insert (pr_evidence_id r) {pr_evidence_id r | r. r \<in> set rows \<and> pr_role r = role \<and> pr_candidate_id r = c}
         else {pr_evidence_id r | r. r \<in> set rows \<and> pr_role r = role \<and> pr_candidate_id r = c})" for c
      by auto
    with snoc show ?case
      by (auto simp: label_step_def bt_wf_insert bt_get_insert nonempty_def)
  qed (simp add: bt.wf_empty bt_get_def nonempty_def)
  then show ?thesis by (simp add: labelled_rows_def)
qed

lemma labelled_ex:
  "list_ex (\<lambda>(cand, ids). P cand ids) (labelled_rows p role) \<longleftrightarrow>
     (\<exists>row \<in> set (pk_rows p). pr_role row = role \<and> P (pr_candidate_id row)
        {pr_evidence_id r | r. r \<in> set (pk_rows p) \<and> pr_role r = role \<and> pr_candidate_id r = pr_candidate_id row})"
proof -
  define ids where "ids = (\<lambda>c. {pr_evidence_id r | r. r \<in> set (pk_rows p) \<and> pr_role r = role \<and> pr_candidate_id r = c})"
  have wf: "bt_wf (labelled_rows p role)" and get: "bt_get (labelled_rows p role) c = nonempty (ids c)" for c
    using labelled_rows_get [of p role c] by (simp_all add: ids_def)
  have mem: "(c, is) \<in> set (labelled_rows p role) \<longleftrightarrow> is = ids c \<and> ids c \<noteq> {}" for c "is"
  proof -
    have "(c, is) \<in> set (labelled_rows p role) \<longleftrightarrow> bt_get (labelled_rows p role) c = Some is"
      unfolding bt_get_def by (rule map_of_eq_Some_iff [OF bt_wf_distinct [OF wf], symmetric])
    then show ?thesis unfolding get nonempty_Some .
  qed
  have "list_ex (\<lambda>(cand, ids). P cand ids) (labelled_rows p role) \<longleftrightarrow> (\<exists>c. ids c \<noteq> {} \<and> P c (ids c))"
    unfolding list_ex_iff Bex_def split_paired_Ex split_conv mem by blast
  also have "\<dots> \<longleftrightarrow> (\<exists>row \<in> set (pk_rows p). pr_role row = role \<and> P (pr_candidate_id row) (ids (pr_candidate_id row)))"
  proof -
    have "ids c \<noteq> {} \<longleftrightarrow> (\<exists>row \<in> set (pk_rows p). pr_role row = role \<and> pr_candidate_id row = c)" for c
      unfolding ids_def by blast
    then show ?thesis by (metis (no_types, lifting))
  qed
  finally show ?thesis unfolding ids_def .
qed

lemma cited_in_iff:
  assumes "distinct (map cand_candidate_id (ans_candidates a))"
  shows "cited_in a cand kinds ids \<longleftrightarrow> (\<exists>claim eid. (cand, claim) \<in> claims_in_answer a \<and> claim_kind claim \<in> set kinds
    \<and> eid \<in> set (claim_evidence_ids claim) \<and> eid \<in> ids)"
proof (cases "find (\<lambda>c. cand_candidate_id c = cand) (ans_candidates a)")
  case None
  then have "\<not> cited_in a cand kinds ids" by (simp add: cited_in_def)
  moreover have "(cand, claim) \<notin> claims_in_answer a" for claim
    using None by (auto simp: claims_in_answer_def find_None_iff)
  ultimately show ?thesis by blast
next
  case (Some c)
  then have c: "c \<in> set (ans_candidates a)" "cand_candidate_id c = cand" by (auto simp: find_Some_iff)
  have "c' = c" if "c' \<in> set (ans_candidates a)" "cand_candidate_id c' = cand" for c'
    using assms c that by (auto simp: distinct_map dest: inj_onD)
  then have "(cand, claim) \<in> claims_in_answer a \<longleftrightarrow> claim \<in> set (cand_claims c)" for claim
    using c unfolding claims_in_answer_def by blast
  then show ?thesis unfolding cited_in_def Some list_ex_iff by auto
qed

lemma coverage_iff:
  assumes "distinct (map cand_candidate_id (ans_candidates a))"
  shows "list_ex (\<lambda>(cand, ids). \<not> cited_in a cand kinds ids) (labelled_rows p role) \<longleftrightarrow> role_uncovered p a role (set kinds)"
  unfolding labelled_ex cited_in_iff [OF assms] role_uncovered_def by (intro bex_cong refl conj_cong arg_cong [of _ _ Not]) blast

lemma inverted_iff:
  "inverted (\<lambda>(cand, kind). map_option Min (nonempty (ordinals_citing p a cand kind))) cand \<longleftrightarrow>
     ordinals_citing p a cand InitiatingCause \<noteq> {} \<and> ordinals_citing p a cand Symptom \<noteq> {}
        \<and> Min (ordinals_citing p a cand InitiatingCause) > Min (ordinals_citing p a cand Symptom)"
  by (simp add: inverted_def nonempty_def del: Min_less_iff Min_gr_iff)

lemma grounded_init: "bt_get (fv_grounded (fv_init p)) k = (if k \<in> pr_candidate_id ` set (pk_rows p) then Some False else None)"
proof -
  have "bt_wf (fold (\<lambda>row. bt_insert (pr_candidate_id row) False) rows []) \<and>
      bt_get (fold (\<lambda>row. bt_insert (pr_candidate_id row) False) rows []) k = (if k \<in> pr_candidate_id ` set rows then Some False else None)" for rows
    by (induction rows rule: rev_induct) (auto simp: bt.wf_empty bt_get_def bt_wf_insert bt_get_insert [unfolded bt_get_def])
  from this [of "pk_rows p"] show ?thesis unfolding fv_init_def by simp
qed

text \<open>The loops report exactly the violated categories.\<close>

lemma fast_categories_spec:
  assumes d: "distinct (map cand_candidate_id (ans_candidates a))"
  shows "fast_categories p a = {c. violates p a c}"
proof -
  define st where "st = fold (fast_candidate_step p) (ans_candidates a) (fv_init p)"
  note pass = pass_spec [OF st_def]
  have contr: "list_ex contradictory (bt_values (fv_cited_kinds st)) \<longleftrightarrow> violates p a FcContradictoryRoles"
  proof -
    have "list_ex contradictory (bt_values (fv_cited_kinds st)) \<longleftrightarrow>
        (\<exists>eid v. nonempty (kinds_citing p a eid) = Some v \<and> contradictory v)"
      unfolding list_ex_iff Bex_def bt_values_get [OF pass(2)] pass(3) by blast
    also have "\<dots> \<longleftrightarrow> (\<exists>eid. contradictory (kinds_citing p a eid))"
      unfolding nonempty_Some using kinds_citing_id [of p a] by fast
    finally show ?thesis unfolding violates.simps .
  qed
  have inv: "list_ex (\<lambda>c. inverted (fv_earliest st) (cand_candidate_id c)) (ans_candidates a) \<longleftrightarrow> violates p a FcChronologyInverted"
  proof -
    have "cand \<in> cand_candidate_id ` set (ans_candidates a)" if "ordinals_citing p a cand Symptom \<noteq> {}" for cand
      using that by (auto simp: ordinals_citing_def cites_def claims_in_answer_def)
    then show ?thesis
      unfolding pass(6) violates.simps list_ex_iff inverted_iff by blast
  qed
  have ground: "list_ex Not (bt_values (fv_grounded st)) \<longleftrightarrow> violates p a FcCitationIncomplete"
  proof -
    have "list_ex Not (bt_values (fv_grounded st)) \<longleftrightarrow> (\<exists>k. bt_get (fv_grounded st) k = Some False)"
      unfolding list_ex_iff Bex_def bt_values_get [OF pass(4)] by auto
    then show ?thesis unfolding pass(5) grounded_init by auto
  qed
  have "c \<in> fast_categories p a \<longleftrightarrow> violates p a c" for c
    unfolding fast_categories_def Let_def st_def [symmetric] pass(1) contr inv ground coverage_iff [OF d]
    by (cases c) (simp_all del: violates.simps(1-5,7))
  then show ?thesis by blast
qed

section \<open>Properties\<close>

lemma reference_answer_distinct:
  "proposal_ok l q \<Longrightarrow> distinct (map cand_candidate_id (ans_candidates (env_answer (reference_envelope l q))))"
  by (simp add: proposal_ok_def candidates_ok_def reference_envelope_def reference_candidate_def comp_def)

lemma validate_fast_answer_spec:
  assumes "ledger_new H b es = Inr (pk_ledger p)"
  shows "validate_fast_answer F object p =
    (case validate_model_answer F object (pk_ledger p) of
       Inl error \<Rightarrow> Rejected [from_validation_error error]
     | Inr envelope \<Rightarrow>
         if \<forall>c. \<not> violates p (env_answer envelope) c then Accepted envelope
         else Rejected (filter (violates p (env_answer envelope)) VALIDATOR_VOCABULARY))"
proof (cases "validate_model_answer F object (pk_ledger p)")
  case (Inr envelope)
  then obtain q where "proposal_ok (pk_ledger p) q" "envelope = reference_envelope (pk_ledger p) q"
    using validate_model_answer_iff [OF ledger_new_wf(1,2) [OF assms]] by blast
  then have "fast_categories p (env_answer envelope) = {c. violates p (env_answer envelope) c}"
    by (simp add: fast_categories_spec reference_answer_distinct)
  with Inr show ?thesis by (simp add: validate_fast_answer_def)
qed (simp add: validate_fast_answer_def)

text \<open>C18: The fast validator accepts exactly the answers that break none of its rules. On a packet whose
  ledger the host built, a proposal is accepted with the envelope of the shared validator exactly
  when that validator accepts it and no category is violated; otherwise the reported categories are the
  translated error of the shared validator, or the violated categories, all of them, once each and in
  the order of the vocabulary.\<close>

theorem fast_validation_exact:
  assumes "ledger_new H b es = Inr (pk_ledger p)"
  shows "validate_fast_answer F object p =
    (case validate_model_answer F object (pk_ledger p) of
       Inl error \<Rightarrow> Rejected [from_validation_error error]
     | Inr envelope \<Rightarrow>
         if \<forall>c. \<not> violates p (env_answer envelope) c then Accepted envelope
         else Rejected (filter (violates p (env_answer envelope)) VALIDATOR_VOCABULARY))"
  using assms by (rule validate_fast_answer_spec)

definition observing_proposal :: ModelInvestigationAnswerV1 where
  "observing_proposal = \<lparr>mia_schema = SCHEMA_V1, mia_candidates =
     [\<lparr>md_candidate_id = ''g'', observations = [\<lparr>mc_claim_id = ''k'', mc_text = ''seen'', mc_evidence_ids = [''e'']\<rparr>],
       symptoms = [], causal_candidates = [], initiating_causes = [], competing_explanations = [], missing_evidence = []\<rparr>]\<rparr>"

definition sample_packet :: FastTriagePacketV1 where
  "sample_packet = packet_build (\<lambda>x. x) (sample_inputs {})"

lemma sample_packet_ledger: "pk_ledger sample_packet = sample_ledger"
  by (simp add: sample_packet_def sample_inputs_def)

lemma observing_rejected:
  "validate_fast_answer (\<lambda>_. Some observing_proposal) ''{}'' sample_packet = Rejected [FcRoleCoverage]"
  by code_simp

theorem fast_validation_exact_witness:
  "violates sample_packet (env_answer (reference_envelope sample_ledger observing_proposal)) FcRoleCoverage"
proof -
  have "ledger_new (\<lambda>x. x) sample_binding [sample_entry] = Inr (pk_ledger sample_packet)"
    unfolding sample_packet_ledger by code_simp
  note exact = fast_validation_exact [OF this, of "\<lambda>_. Some observing_proposal" "''{}''"]
  have "validate_model_answer (\<lambda>_. Some observing_proposal) ''{}'' (pk_ledger sample_packet)
      = Inr (reference_envelope sample_ledger observing_proposal)"
    unfolding sample_packet_ledger by code_simp
  with exact observing_rejected have "filter (violates sample_packet (env_answer (reference_envelope sample_ledger observing_proposal)))
      VALIDATOR_VOCABULARY = [FcRoleCoverage]"
    by (simp del: filter.simps violates.simps split: if_splits)
  then have "FcRoleCoverage \<in> set (filter (violates sample_packet (env_answer (reference_envelope sample_ledger observing_proposal)))
      VALIDATOR_VOCABULARY)" by simp
  then show ?thesis by (simp only: set_filter mem_Collect_eq)
qed

end
