(* ===== verification/Linked_Terminal.thy ===== *)
theory Linked_Terminal
  imports Investigation_Ledger
begin

text \<open>
  \<open>crates/cd-core/src/linked_triage_contract.rs\<close> and
  \<open>crates/cd-core/src/fast_triage/terminal.rs\<close>: unwrapping the terminal text of a model. Complete
  leading reasoning blocks are split off (at most four), a known JSON wrapper is removed, and the
  terminal is classified. The declarative side is \<open>reasoning_blocks\<close> (which blocks lead the text)
  and \<open>json_payload\<close> (a bare object or one complete Markdown fence).
\<close>

section \<open>Reasoning blocks\<close>

definition reasoning_tags :: "string list" where
  "reasoning_tags = [''think'', ''analysis'', ''reasoning'']"

definition open_tag :: "string \<Rightarrow> string" where
  "open_tag tag = ''<'' @ tag @ ''>''"

definition close_tag :: "string \<Rightarrow> string" where
  "close_tag tag = ''</'' @ tag @ ''>''"

text \<open>The inner loop of \<open>split_complete_reasoning_prefix\<close>: the block and the remaining text.\<close>

fun split_tags :: "string list \<Rightarrow> string \<Rightarrow> (string \<times> string) option" where
  "split_tags [] trimmed = None"
| "split_tags (tag # tags) trimmed =
     (case strip_prefix trimmed (open_tag tag) of
        None \<Rightarrow> split_tags tags trimmed
      | Some body \<Rightarrow>
          (case find_str body (close_tag tag) of
             None \<Rightarrow> split_tags tags trimmed
           | Some e \<Rightarrow> Some (take e body, trim (drop (e + length (close_tag tag)) body))))"

fun split_loop :: "nat \<Rightarrow> string \<Rightarrow> string \<Rightarrow> string \<times> string" where
  "split_loop 0 reasoning trimmed = (reasoning, trimmed)"
| "split_loop (Suc n) reasoning trimmed =
     (case split_tags reasoning_tags trimmed of
        None \<Rightarrow> (reasoning, trimmed)
      | Some (block, rest) \<Rightarrow> split_loop n (reasoning @ block) rest)"

definition split_complete_reasoning_prefix :: "string \<Rightarrow> string \<times> string" where
  "split_complete_reasoning_prefix raw = split_loop 4 [] (trim raw)"

definition strip_complete_reasoning_blocks :: "string \<Rightarrow> string" where
  "strip_complete_reasoning_blocks raw = snd (split_complete_reasoning_prefix raw)"

definition is_empty_visible_terminal :: "string \<Rightarrow> bool" where
  "is_empty_visible_terminal raw \<longleftrightarrow> trim (strip_complete_reasoning_blocks (trim raw)) = []"

section \<open>JSON wrappers\<close>

text \<open>The inner loop of \<open>normalize_known_json_wrapper\<close>: \<open>None\<close> is the early return on an
  unclosed tag, \<open>Some None\<close> no tag at all.\<close>

fun normalize_tags :: "string list \<Rightarrow> string \<Rightarrow> string option option" where
  "normalize_tags [] trimmed = Some None"
| "normalize_tags (tag # tags) trimmed =
     (case strip_prefix trimmed (open_tag tag) of
        None \<Rightarrow> normalize_tags tags trimmed
      | Some body \<Rightarrow>
          (case find_str body (close_tag tag) of
             None \<Rightarrow> None
           | Some e \<Rightarrow> Some (Some (trim (drop (e + length (close_tag tag)) body)))))"

fun unwrap_loop :: "nat \<Rightarrow> string \<Rightarrow> string option" where
  "unwrap_loop 0 trimmed = Some trimmed"
| "unwrap_loop (Suc n) trimmed =
     (case normalize_tags reasoning_tags trimmed of
        None \<Rightarrow> None
      | Some None \<Rightarrow> Some trimmed
      | Some (Some rest) \<Rightarrow> unwrap_loop n rest)"

definition object_shaped :: "string \<Rightarrow> bool" where
  "object_shaped s \<longleftrightarrow> starts_with s ''{'' \<and> ends_with s ''}''"

definition unfence :: "string \<Rightarrow> string option" where
  "unfence trimmed =
     (case strip_prefix trimmed ''```'' of
        Some fence_body \<Rightarrow>
          (case find_str fence_body ''\<newline>'' of
             None \<Rightarrow> None
           | Some nl \<Rightarrow>
               (let body = drop (nl + 1) fence_body in
                case rfind_str body ''```'' of
                  None \<Rightarrow> None
                | Some close \<Rightarrow>
                    if trim (drop (close + 3) body) \<noteq> [] then None
                    else (let object = trim (take close body) in
                          if object_shaped object then Some object else None)))
      | None \<Rightarrow> if object_shaped trimmed then Some trimmed else None)"

definition normalize_known_json_wrapper :: "string \<Rightarrow> string option" where
  "normalize_known_json_wrapper raw =
     (case unwrap_loop 4 (trim raw) of None \<Rightarrow> None | Some trimmed \<Rightarrow> unfence trimmed)"

section \<open>Diagnostics\<close>

datatype LinkedTriageDiagnosticCategory =
    CandidateContractFailure | FinalComparisonFailure | EmptyTerminalAnswer | TransportFailure
  | LinkedTimeout | SuccessfulBoundedCorrection | CompatibleSuccess

definition classify_final_comparison_outcome ::
  "bool \<Rightarrow> (ValidationError, unit) result \<Rightarrow> nat \<Rightarrow> bool \<Rightarrow> bool \<Rightarrow> LinkedTriageDiagnosticCategory" where
  "classify_final_comparison_outcome empty_visible validation semantic_attempts transport_failed timed_out =
     (if timed_out then LinkedTimeout
      else if transport_failed then TransportFailure
      else if empty_visible then EmptyTerminalAnswer
      else case validation of
        Inr _ \<Rightarrow> if semantic_attempts > 0 then SuccessfulBoundedCorrection else CompatibleSuccess
      | Inl _ \<Rightarrow> FinalComparisonFailure)"

definition classify_candidate_stage_outcome ::
  "bool \<Rightarrow> bool \<Rightarrow> bool \<Rightarrow> bool \<Rightarrow> LinkedTriageDiagnosticCategory" where
  "classify_candidate_stage_outcome empty_visible contract_accepted transport_failed timed_out =
     (if timed_out then LinkedTimeout
      else if transport_failed then TransportFailure
      else if empty_visible then EmptyTerminalAnswer
      else if contract_accepted then CompatibleSuccess
      else CandidateContractFailure)"

definition preparation_for_host_validation ::
  "string \<Rightarrow> (LinkedTriageDiagnosticCategory, string) result" where
  "preparation_for_host_validation raw =
     (if is_empty_visible_terminal raw then Inl EmptyTerminalAnswer
      else case normalize_known_json_wrapper raw of
        Some object \<Rightarrow> if trim object = [] then Inl EmptyTerminalAnswer else Inr object
      | None \<Rightarrow> Inr (trim raw))"

definition visible_text_leaks_reasoning_markers :: "string \<Rightarrow> bool" where
  "visible_text_leaks_reasoning_markers visible =
     (let lower = to_ascii_lowercase visible in
      contains lower ''<think>'' \<or> contains lower ''</think>''
      \<or> contains lower ''<analysis>'' \<or> contains lower ''</analysis>''
      \<or> contains lower ''<reasoning>'' \<or> contains lower ''</reasoning>'')"

section \<open>The terminal\<close>

datatype FastTriageTerminalState = TypedObject | EmptyVisible | MalformedTerminal

fun terminal_state_str :: "FastTriageTerminalState \<Rightarrow> string" where
  "terminal_state_str TypedObject = ''typed_object''"
| "terminal_state_str EmptyVisible = ''empty_visible''"
| "terminal_state_str MalformedTerminal = ''malformed''"

record FastTriageToolCallRef =
  tcr_id :: string
  tcr_name :: string
  tcr_argument_chars :: nat

record FastTriageTerminal =
  ft_visible :: string
  ft_typed_object :: "string option"
  ft_reasoning :: string
  ft_tool_calls :: "FastTriageToolCallRef list"
  ft_finish_reason :: string
  ft_state :: FastTriageTerminalState

definition from_raw :: "string \<Rightarrow> string \<Rightarrow> FastTriageToolCallRef list \<Rightarrow> FastTriageTerminal" where
  "from_raw raw finish_reason tool_calls =
     (let (reasoning, visible) = split_complete_reasoning_prefix raw;
          (state, typed_object) =
            (if trim visible = [] then (EmptyVisible, None)
             else case normalize_known_json_wrapper visible of
               Some object \<Rightarrow> if trim object \<noteq> [] then (TypedObject, Some object) else (EmptyVisible, None)
             | None \<Rightarrow> (MalformedTerminal, None))
      in \<lparr>ft_visible = visible, ft_typed_object = typed_object, ft_reasoning = reasoning,
          ft_tool_calls = tool_calls, ft_finish_reason = finish_reason, ft_state = state\<rparr>)"

record FunctionCall =
  fc_name :: string
  fc_arguments :: string

record ToolCallMsg =
  tcm_id :: string
  tcm_kind :: string
  tcm_function :: FunctionCall

text \<open>The fields of \<open>ChatCompletion\<close> the parser reads.\<close>

record ChatCompletion =
  cc_content :: string
  cc_tool_calls :: "ToolCallMsg list"
  cc_finish_reason :: string

definition terminal_parse :: "ChatCompletion \<Rightarrow> string \<Rightarrow> FastTriageTerminal" where
  "terminal_parse completion streamed =
     from_raw (if trim (cc_content completion) = [] then streamed else cc_content completion)
       (cc_finish_reason completion)
       (map (\<lambda>call. \<lparr>tcr_id = tcm_id call, tcr_name = fc_name (tcm_function call),
                    tcr_argument_chars = char_count (fc_arguments (tcm_function call))\<rparr>)
          (cc_tool_calls completion))"

definition visible_chars :: "FastTriageTerminal \<Rightarrow> nat" where
  "visible_chars t = char_count (ft_visible t)"

definition reasoning_present :: "FastTriageTerminal \<Rightarrow> bool" where
  "reasoning_present t \<longleftrightarrow> trim (ft_reasoning t) \<noteq> []"

definition reasoning_chars :: "FastTriageTerminal \<Rightarrow> nat" where
  "reasoning_chars t = char_count (ft_reasoning t)"

section \<open>What the text must look like\<close>

text \<open>A trimmed text that consists of the given complete reasoning blocks (tag and body) followed
  by a remaining text.\<close>

fun reasoning_blocks :: "(string \<times> string) list \<Rightarrow> string \<Rightarrow> string \<Rightarrow> bool" where
  "reasoning_blocks [] s v \<longleftrightarrow> s = v"
| "reasoning_blocks ((tag, block) # bs) s v \<longleftrightarrow>
     tag \<in> set reasoning_tags \<and> \<not> contains block (close_tag tag)
     \<and> (\<exists>rest. s = open_tag tag @ block @ close_tag tag @ rest \<and> reasoning_blocks bs (trim rest) v)"

definition opens_block :: "string \<Rightarrow> bool" where
  "opens_block s \<longleftrightarrow> (\<exists>tag \<in> set reasoning_tags. prefix (open_tag tag) s)"

definition leads_with_block :: "string \<Rightarrow> bool" where
  "leads_with_block s \<longleftrightarrow> (\<exists>b v. reasoning_blocks [b] s v)"

text \<open>A text between braces, bare or in a Markdown fence that closes at the end.\<close>

definition json_payload :: "string \<Rightarrow> string \<Rightarrow> bool" where
  "json_payload s object \<longleftrightarrow> object_shaped object \<and>
     (if prefix ''```'' s
      then \<exists>info body tail. s = ''```'' @ info @ [CHR 0x0A] @ body @ ''```'' @ tail
        \<and> CHR 0x0A \<notin> set info \<and> trim tail = [] \<and> object = trim body
      else object = s)"

section \<open>The loops find the blocks\<close>

lemma close_tag_hd: "tag \<in> set reasoning_tags \<Longrightarrow> hd (close_tag tag) \<notin> set (tl (close_tag tag))"
  by (auto simp: reasoning_tags_def close_tag_def)

lemma open_tag_unique:
  "t \<in> set reasoning_tags \<Longrightarrow> t' \<in> set reasoning_tags
     \<Longrightarrow> prefix (open_tag t) s \<Longrightarrow> prefix (open_tag t') s \<Longrightarrow> t = t'"
  by (auto simp: reasoning_tags_def open_tag_def prefix_def)

lemma find_close:
  assumes "tag \<in> set reasoning_tags"
  shows "find_str body (close_tag tag) = Some e
    \<longleftrightarrow> (\<exists>block rest. body = block @ close_tag tag @ rest \<and> \<not> contains block (close_tag tag) \<and> e = length block)"
proof -
  have ne: "close_tag tag \<noteq> []" by (simp add: close_tag_def)
  show ?thesis
  proof
    assume f: "find_str body (close_tag tag) = Some e"
    let ?b = "take e body" and ?r = "drop (e + length (close_tag tag)) body"
    have s: "body = ?b @ close_tag tag @ ?r" by (rule find_str_split [OF f])
    have "length ?b = e" using find_str_length [OF f] by simp
    moreover from this have "\<not> contains ?b (close_tag tag)"
      using f s find_str_unique [OF close_tag_hd [OF assms] ne, of ?b ?r] by metis
    ultimately show "\<exists>block rest. body = block @ close_tag tag @ rest
        \<and> \<not> contains block (close_tag tag) \<and> e = length block"
      using s by metis
  qed (use find_str_unique [OF close_tag_hd [OF assms] ne] in auto)
qed

lemma strip_open:
  "strip_prefix s (open_tag tag) = Some body \<longleftrightarrow> s = open_tag tag @ body"
  by (auto simp: strip_prefix_def prefix_def)

lemma split_tags_sound:
  assumes "set tags \<subseteq> set reasoning_tags" and "split_tags tags s = Some (block, rest)"
  shows "\<exists>tag. \<exists>tail. tag \<in> set tags \<and> s = open_tag tag @ block @ close_tag tag @ tail
    \<and> \<not> contains block (close_tag tag) \<and> rest = trim tail"
  using assms
proof (induction tags)
  case (Cons tag tags)
  have tag: "tag \<in> set reasoning_tags" using Cons.prems by simp
  show ?case
  proof (cases "\<exists>body e. strip_prefix s (open_tag tag) = Some body \<and> find_str body (close_tag tag) = Some e")
    case True
    then obtain body e where b: "strip_prefix s (open_tag tag) = Some body"
      "find_str body (close_tag tag) = Some e" by blast
    then obtain blk tail where "s = open_tag tag @ blk @ close_tag tag @ tail"
      "\<not> contains blk (close_tag tag)" "body = blk @ close_tag tag @ tail" "e = length blk"
      by (auto simp: strip_open find_close [OF tag])
    moreover from this b Cons.prems have "block = blk" "rest = trim tail" by simp_all
    ultimately show ?thesis by (intro exI [of _ tag] exI [of _ tail]) simp
  next
    case False
    then have "split_tags tags s = Some (block, rest)" using Cons.prems by (auto split: option.splits)
    then obtain t tail where "t \<in> set tags" "s = open_tag t @ block @ close_tag t @ tail"
      "\<not> contains block (close_tag t)" "rest = trim tail"
      using Cons.IH Cons.prems by auto
    then show ?thesis by (intro exI [of _ t] exI [of _ tail]) simp
  qed
qed simp

lemma split_tags_complete:
  assumes "set tags \<subseteq> set reasoning_tags" and "tag \<in> set tags"
    and s: "s = open_tag tag @ block @ close_tag tag @ tail" and free: "\<not> contains block (close_tag tag)"
  shows "split_tags tags s = Some (block, trim tail)"
  using assms(1,2)
proof (induction tags)
  case (Cons t tags)
  have r: "tag \<in> set reasoning_tags" "t \<in> set reasoning_tags" using Cons.prems by auto
  show ?case
  proof (cases "t = tag")
    case True
    have "find_str (block @ close_tag tag @ tail) (close_tag tag) = Some (length block)"
      using free find_close [OF r(1)] by blast
    moreover have "strip_prefix s (open_tag tag) = Some (block @ close_tag tag @ tail)"
      using s by (simp add: strip_open)
    ultimately show ?thesis using True by simp
  next
    case False
    have "\<not> prefix (open_tag t) s" using False s open_tag_unique [OF r(2,1), of s] by auto
    with False show ?thesis using Cons by (simp add: strip_prefix_def)
  qed
qed simp

lemma split_tags_iff:
  "split_tags reasoning_tags s = Some (block, rest) \<longleftrightarrow> (\<exists>tag. reasoning_blocks [(tag, block)] s rest)"
proof
  assume "split_tags reasoning_tags s = Some (block, rest)"
  from split_tags_sound [OF subset_refl this] show "\<exists>tag. reasoning_blocks [(tag, block)] s rest" by auto
next
  assume "\<exists>tag. reasoning_blocks [(tag, block)] s rest"
  then show "split_tags reasoning_tags s = Some (block, rest)"
    using split_tags_complete [OF subset_refl] by fastforce
qed

lemma split_tags_none: "split_tags reasoning_tags s = None \<longleftrightarrow> \<not> leads_with_block s"
proof -
  have "split_tags reasoning_tags s = None \<longleftrightarrow> (\<nexists>b r. split_tags reasoning_tags s = Some (b, r))"
    by (cases "split_tags reasoning_tags s") auto
  then show ?thesis by (auto simp only: split_tags_iff leads_with_block_def split_paired_Ex)
qed

lemma split_loop_blocks:
  "\<exists>bs. length bs \<le> n \<and> reasoning_blocks bs s (snd (split_loop n r s))
     \<and> fst (split_loop n r s) = r @ concat (map snd bs)
     \<and> (length bs < n \<longrightarrow> \<not> leads_with_block (snd (split_loop n r s)))"
proof (induction n arbitrary: r s)
  case 0
  show ?case by (intro exI [of _ "[]"]) simp
next
  case (Suc n)
  show ?case
  proof (cases "split_tags reasoning_tags s")
    case None
    then have "\<not> leads_with_block s" unfolding split_tags_none .
    with None show ?thesis by (intro exI [of _ "[]"]) simp
  next
    case (Some p)
    obtain block rest where p: "p = (block, rest)" by (cases p)
    then obtain tag where tag: "reasoning_blocks [(tag, block)] s rest" using Some split_tags_iff by blast
    from Suc [of rest "r @ block"] obtain bs where
      "length bs \<le> n" "reasoning_blocks bs rest (snd (split_loop n (r @ block) rest))"
      "fst (split_loop n (r @ block) rest) = (r @ block) @ concat (map snd bs)"
      "length bs < n \<longrightarrow> \<not> leads_with_block (snd (split_loop n (r @ block) rest))" by blast
    then show ?thesis using Some p tag by (intro exI [of _ "(tag, block) # bs"]) auto
  qed
qed

text \<open>The JSON unwrapping differs only in failing on an unclosed leading tag.\<close>

lemma normalize_tags_split:
  assumes "set tags \<subseteq> set reasoning_tags"
  shows "normalize_tags tags s =
    (case split_tags tags s of
       Some (block, rest) \<Rightarrow> Some (Some rest)
     | None \<Rightarrow> if \<exists>tag \<in> set tags. prefix (open_tag tag) s then None else Some None)"
  using assms
proof (induction tags)
  case (Cons t tags)
  have "\<not> prefix (open_tag t') s" if "prefix (open_tag t) s" "t' \<in> set tags" "t' \<noteq> t" for t'
    using that Cons.prems open_tag_unique [of t t' s] by auto
  moreover have "split_tags tags s = None" if "prefix (open_tag t) s"
    "find_str (drop (length (open_tag t)) s) (close_tag t) = None"
  proof (rule ccontr)
    assume "split_tags tags s \<noteq> None"
    then obtain b r where sp: "split_tags tags s = Some (b, r)" by (cases "split_tags tags s") auto
    obtain tag tail where tag: "tag \<in> set tags" "s = open_tag tag @ b @ close_tag tag @ tail"
      using split_tags_sound [OF _ sp] Cons.prems by auto
    then have "tag = t" using calculation that by (metis prefixI)
    with tag have "contains (drop (length (open_tag t)) s) (close_tag t)"
      by (auto simp: contains_def)
    with that show False by (simp add: find_str_None)
  qed
  ultimately show ?case
    using Cons by (auto simp: strip_prefix_def split: option.splits)
qed simp

lemma normalize_tags_eq:
  "normalize_tags reasoning_tags s =
    (case split_tags reasoning_tags s of Some (block, rest) \<Rightarrow> Some (Some rest)
     | None \<Rightarrow> if opens_block s then None else Some None)"
  unfolding opens_block_def by (rule normalize_tags_split [OF subset_refl])

lemma leads_opens: "leads_with_block s \<Longrightarrow> opens_block s"
  by (auto simp: leads_with_block_def opens_block_def intro!: bexI)

lemma unwrap_loop_iff:
  "unwrap_loop n s = Some v \<longleftrightarrow>
     (\<exists>bs. length bs \<le> n \<and> reasoning_blocks bs s v \<and> (length bs < n \<longrightarrow> \<not> opens_block v))"
proof (induction n arbitrary: s)
  case (Suc n)
  show ?case
  proof (cases "split_tags reasoning_tags s")
    case None
    then have "\<not> reasoning_blocks (b # bs) s v" for b bs
      using split_tags_none [of s] by (cases b) (auto simp: leads_with_block_def)
    then have "(\<exists>bs. length bs \<le> Suc n \<and> reasoning_blocks bs s v \<and> (length bs < Suc n \<longrightarrow> \<not> opens_block v))
        \<longleftrightarrow> s = v \<and> \<not> opens_block v"
      by (metis length_Cons list.exhaust list.size(3) reasoning_blocks.simps(1) zero_less_Suc zero_le)
    then show ?thesis using None by (auto simp: normalize_tags_eq)
  next
    case (Some p)
    obtain block rest where p: "p = (block, rest)" by (cases p)
    have blocks: "(\<exists>tag. reasoning_blocks [(tag, b)] s r) \<longleftrightarrow> b = block \<and> r = rest" for b r
      unfolding split_tags_iff [symmetric] using Some p by auto
    have lead: "opens_block s"
      using Some split_tags_none [of s] by (intro leads_opens) auto
    have "(\<exists>bs. length bs \<le> Suc n \<and> reasoning_blocks bs s v \<and> (length bs < Suc n \<longrightarrow> \<not> opens_block v))
        \<longleftrightarrow> (\<exists>bs. length bs \<le> n \<and> reasoning_blocks bs rest v \<and> (length bs < n \<longrightarrow> \<not> opens_block v))"
      (is "?L \<longleftrightarrow> ?R")
    proof
      assume ?L
      then obtain bs where bs: "length bs \<le> Suc n" "reasoning_blocks bs s v"
        "length bs < Suc n \<longrightarrow> \<not> opens_block v" by blast
      with lead obtain tag b bs' where bs': "bs = (tag, b) # bs'" by (cases bs) auto
      with bs(2) obtain r where r: "reasoning_blocks [(tag, b)] s r" "reasoning_blocks bs' r v" by auto
      with blocks have "r = rest" by blast
      with bs bs' r show ?R by (intro exI [of _ bs']) simp
    next
      assume ?R
      then obtain bs where bs: "length bs \<le> n" "reasoning_blocks bs rest v"
        "length bs < n \<longrightarrow> \<not> opens_block v" by blast
      obtain tag where "reasoning_blocks [(tag, block)] s rest" using blocks by blast
      with bs show ?L by (intro exI [of _ "(tag, block) # bs"]) auto
    qed
    then show ?thesis using Suc Some p by (simp add: normalize_tags_eq)
  qed
qed auto

section \<open>The payload\<close>

lemma find_newline:
  "find_str s ''\<newline>'' = Some i \<longleftrightarrow> (\<exists>info rest. s = info @ [CHR 0x0A] @ rest \<and> CHR 0x0A \<notin> set info \<and> i = length info)"
proof
  assume f: "find_str s ''\<newline>'' = Some i"
  have "length (take i s) = i" using find_str_length [OF f] by simp
  moreover have "\<not> contains (take i s) ''\<newline>''"
    using f find_str_split [OF f] calculation find_str_unique [of "''\<newline>''" "take i s" "drop (i + 1) s"] by simp
  ultimately show "\<exists>info rest. s = info @ [CHR 0x0A] @ rest \<and> CHR 0x0A \<notin> set info \<and> i = length info"
    using find_str_split [OF f] by (metis contains_char)
next
  assume "\<exists>info rest. s = info @ [CHR 0x0A] @ rest \<and> CHR 0x0A \<notin> set info \<and> i = length info"
  then show "find_str s ''\<newline>'' = Some i"
    using find_str_unique [of "''\<newline>''"] by (auto simp: contains_char)
qed

lemma blank_no_backtick: "trim tail = [] \<Longrightarrow> CHR 0x60 \<notin> set tail"
proof -
  assume "trim tail = []"
  then have "\<forall>u \<in> set (utf8_chars tail). is_whitespace u" by (simp only: trim_empty_iff)
  moreover have "CHR 0x60 \<notin> set u" if "is_whitespace u" for u
    using that by (auto simp: is_whitespace_def whitespace_chars_def)
  ultimately have "CHR 0x60 \<notin> set (concat (utf8_chars tail))" unfolding set_concat by blast
  then show ?thesis by simp
qed

lemma rfind_fence:
  assumes "CHR 0x60 \<notin> set tail"
  shows "rfind_str (body @ ''```'' @ tail) ''```'' = Some (length body)"
proof (induction body)
  case Nil
  have "rfind_str xs ''```'' = None" if "count_list xs (CHR 0x60) < 3" for xs
  proof (rule ccontr)
    assume "rfind_str xs ''```'' \<noteq> None"
    then obtain a b where "xs = a @ ''```'' @ b" by (auto simp: rfind_str_None contains_def sublist_def)
    with that show False by simp
  qed
  moreover have "count_list (''``'' @ tail) (CHR 0x60) < 3"
    using assms by (simp add: count_notin)
  ultimately have "rfind_str (''``'' @ tail) ''```'' = None" by blast
  then show ?case by simp
qed simp

lemma unfence_iff: "unfence s = Some object \<longleftrightarrow> json_payload s object"
proof (cases "prefix ''```'' s")
  case False
  then show ?thesis by (auto simp: unfence_def json_payload_def strip_prefix_def)
next
  case True
  then obtain fence_body where s: "s = ''```'' @ fence_body" by (auto elim: prefixE)
  then have strip: "strip_prefix s ''```'' = Some fence_body" by (simp add: strip_prefix_def)
  show ?thesis
  proof
    assume u: "unfence s = Some object"
    then obtain nl where nl: "find_str fence_body ''\<newline>'' = Some nl"
      by (auto simp: unfence_def strip split: option.splits)
    then obtain info rest where info: "fence_body = info @ [CHR 0x0A] @ rest" "CHR 0x0A \<notin> set info"
      "nl = length info" by (auto simp: find_newline)
    with u nl strip obtain close where c: "rfind_str rest ''```'' = Some close"
      "trim (drop (close + 3) rest) = []" "object = trim (take close rest)" "object_shaped object"
      by (auto simp: unfence_def Let_def split: option.splits if_splits)
    have "rest = take close rest @ ''```'' @ drop (close + 3) rest"
      using rfind_str_split [OF c(1)] by (simp add: eval_nat_numeral)
    with c info s True show "json_payload s object"
      unfolding json_payload_def
      by (simp only: if_True simp_thms, intro exI [of _ info] exI [of _ "take close rest"]
          exI [of _ "drop (close + 3) rest"]) simp
  next
    assume "json_payload s object"
    with True obtain info body tail where p: "s = ''```'' @ info @ [CHR 0x0A] @ body @ ''```'' @ tail"
      "CHR 0x0A \<notin> set info" "trim tail = []" "object = trim body" "object_shaped object"
      by (auto simp: json_payload_def)
    have "find_str fence_body ''\<newline>'' = Some (length info)"
      using p s by (auto simp: find_newline)
    moreover have "rfind_str (body @ ''```'' @ tail) ''```'' = Some (length body)"
      using rfind_fence blank_no_backtick p(3) by blast
    moreover have "drop (length info + 1) fence_body = body @ ''```'' @ tail"
      using p s by simp
    moreover have "drop (length body + 3) (body @ ''```'' @ tail) = tail" by simp
    ultimately show "unfence s = Some object"
      using p(3-5) by (simp only: unfence_def strip option.case Let_def if_True simp_thms if_False) simp
  qed
qed

lemma object_shaped_not_blank: "object_shaped object \<Longrightarrow> trim object \<noteq> []"
proof
  assume "object_shaped object" and "trim object = []"
  then obtain rest where "object = CHR ''{'' # rest" and "\<forall>u \<in> set (utf8_chars object). is_whitespace u"
    by (auto simp: object_shaped_def starts_with_def trim_empty_iff elim: prefixE)
  then have "is_whitespace (CHR ''{'' # takeWhile is_cont_byte rest)" by simp
  then show False by (auto simp: is_whitespace_def whitespace_chars_def)
qed

lemma json_payload_shaped: "json_payload s object \<Longrightarrow> trim object \<noteq> []"
  using object_shaped_not_blank by (simp add: json_payload_def)

lemma normalize_iff:
  "normalize_known_json_wrapper raw = Some object \<longleftrightarrow>
     (\<exists>bs payload. length bs \<le> 4 \<and> reasoning_blocks bs (trim raw) payload
        \<and> (length bs < 4 \<longrightarrow> \<not> opens_block payload) \<and> json_payload payload object)"
proof -
  have "normalize_known_json_wrapper raw = Some object \<longleftrightarrow>
      (\<exists>payload. unwrap_loop 4 (trim raw) = Some payload \<and> unfence payload = Some object)"
    by (auto simp: normalize_known_json_wrapper_def split: option.splits)
  then show ?thesis unfolding unwrap_loop_iff unfence_iff by blast
qed

lemma normalize_not_blank: "normalize_known_json_wrapper raw = Some object \<Longrightarrow> trim object \<noteq> []"
  using json_payload_shaped by (auto simp only: normalize_iff)

lemma split_loop_trimmed: "trim s = s \<Longrightarrow> trim (snd (split_loop n r s)) = snd (split_loop n r s)"
proof (induction n arbitrary: r s)
  case (Suc n)
  have "trim rest = rest" if "split_tags reasoning_tags s = Some (block, rest)" for block rest
    using split_tags_sound [OF subset_refl that] by auto
  then show ?case using Suc by (auto split: option.splits)
qed simp

lemma visible_trimmed: "trim (snd (split_complete_reasoning_prefix raw)) = snd (split_complete_reasoning_prefix raw)"
  unfolding split_complete_reasoning_prefix_def by (rule split_loop_trimmed) simp

section \<open>Properties\<close>

text \<open>C32: The channels of a parsed terminal are exactly what the text says. The visible part is what
  follows at most four complete leading reasoning blocks (all of them, when there are fewer than
  four) and the reasoning channel is the text of those blocks; a typed object exists exactly when the
  visible part, after at most four further complete blocks, is a text between braces or a single complete
  Markdown fence around one; and the state says which of the three cases holds. An unclosed tag or
  prose outside the braces never yields a typed object. Only the outer braces are looked at: what stands
  between them is left to the decoder that follows.\<close>

theorem terminal_channels_exact:
  assumes t: "t = from_raw raw finish_reason calls"
  shows "(\<exists>bs. length bs \<le> 4 \<and> reasoning_blocks bs (trim raw) (ft_visible t)
        \<and> ft_reasoning t = concat (map snd bs) \<and> (length bs < 4 \<longrightarrow> \<not> leads_with_block (ft_visible t)))
    \<and> (\<forall>object. ft_typed_object t = Some object \<longleftrightarrow>
        (\<exists>bs payload. length bs \<le> 4 \<and> reasoning_blocks bs (ft_visible t) payload
          \<and> (length bs < 4 \<longrightarrow> \<not> opens_block payload) \<and> json_payload payload object))
    \<and> ft_state t = (if ft_visible t = [] then EmptyVisible
        else if ft_typed_object t = None then MalformedTerminal else TypedObject)"
proof (intro conjI allI)
  obtain r v where rv: "split_complete_reasoning_prefix raw = (r, v)" by (metis surj_pair)
  then have trimmed: "trim v = v" using visible_trimmed [of raw] by simp
  have fields: "ft_visible t = v" "ft_reasoning t = r"
    using rv by (simp_all add: t from_raw_def split: prod.splits)
  show "\<exists>bs. length bs \<le> 4 \<and> reasoning_blocks bs (trim raw) (ft_visible t)
      \<and> ft_reasoning t = concat (map snd bs) \<and> (length bs < 4 \<longrightarrow> \<not> leads_with_block (ft_visible t))"
    using split_loop_blocks [of 4 "trim raw" "[]"] rv fields
    by (simp add: split_complete_reasoning_prefix_def)
  have obj: "ft_typed_object t = (if v = [] then None else normalize_known_json_wrapper v)"
    and state: "ft_state t = (if v = [] then EmptyVisible
        else if normalize_known_json_wrapper v = None then MalformedTerminal else TypedObject)"
    using rv trimmed normalize_not_blank [of v] by (auto simp: t from_raw_def split: option.splits)
  have "normalize_known_json_wrapper [] = None" by code_simp
  then have "ft_typed_object t = normalize_known_json_wrapper v" using obj by simp
  then show "ft_typed_object t = Some object \<longleftrightarrow>
      (\<exists>bs payload. length bs \<le> 4 \<and> reasoning_blocks bs (ft_visible t) payload
        \<and> (length bs < 4 \<longrightarrow> \<not> opens_block payload) \<and> json_payload payload object)" for object
    unfolding fields by (simp only: normalize_iff [of v object] trimmed)
  show "ft_state t = (if ft_visible t = [] then EmptyVisible
      else if ft_typed_object t = None then MalformedTerminal else TypedObject)"
    using obj state fields by simp
qed

text \<open>Two objects side by side begin and end with a brace, so they are one typed object.\<close>

theorem two_objects_are_typed:
  "ft_state (from_raw ''{} and {}'' ''stop'' []) = TypedObject
   \<and> ft_typed_object (from_raw ''{} and {}'' ''stop'' []) = Some ''{} and {}''"
  by code_simp

definition sample_terminal :: string where
  "sample_terminal = ''<think>so it is</think> ```json'' @ [CHR 0x0A] @ ''{1}'' @ [CHR 0x0A] @ ''```''"

lemma sample_terminal_value:
  "from_raw sample_terminal ''stop'' [] =
     \<lparr>ft_visible = ''```json'' @ [CHR 0x0A] @ ''{1}'' @ [CHR 0x0A] @ ''```'', ft_typed_object = Some ''{1}'',
      ft_reasoning = ''so it is'', ft_tool_calls = [], ft_finish_reason = ''stop'', ft_state = TypedObject\<rparr>"
  by code_simp

theorem terminal_channels_exact_witness:
  "\<exists>bs payload. length bs \<le> 4 \<and> reasoning_blocks bs (ft_visible (from_raw sample_terminal ''stop'' [])) payload
     \<and> (length bs < 4 \<longrightarrow> \<not> opens_block payload) \<and> json_payload payload ''{1}''"
proof -
  have "ft_typed_object (from_raw sample_terminal ''stop'' []) = Some ''{1}''"
    by (simp add: sample_terminal_value)
  with terminal_channels_exact [OF refl, of sample_terminal "''stop''" "[]"] show ?thesis by blast
qed

end
