(* ===== verification/Text_Lines.thy ===== *)
theory Text_Lines
  imports Rust_Strings
begin

text \<open>
  Lines of byte streams: \<open>str::lines\<close>, \<open>BufRead::lines\<close>, splitting off a terminated line, and the
  strict UTF-8 check of \<open>String::from_utf8\<close>.
\<close>

section \<open>Lines of a text\<close>

definition strip_cr :: "string \<Rightarrow> string" where
  "strip_cr l = (if l \<noteq> [] \<and> last l = CHR 0x0D then butlast l else l)"

text \<open>\<open>BufRead::lines\<close> and \<open>str::lines\<close>: split at newlines, drop a carriage return before one, no
  empty last line.\<close>

function split_lines :: "string \<Rightarrow> string list" where
  "split_lines s =
     (if s = [] then []
      else case dropWhile (\<lambda>c. c \<noteq> CHR 0x0A) s of
        [] \<Rightarrow> [s]
      | nl # rest \<Rightarrow> strip_cr (takeWhile (\<lambda>c. c \<noteq> CHR 0x0A) s) # split_lines rest)"
  by auto
termination
proof (relation "measure length")
  fix s nl rest assume "s \<noteq> []" "dropWhile (\<lambda>c. c \<noteq> CHR 0x0A) s = nl # rest"
  then have "length (nl # rest) \<le> length s" by (metis length_dropWhile_le)
  then show "(rest, s) \<in> measure length" by simp
qed simp

declare split_lines.simps [simp del]

definition newline_terminated :: "string \<Rightarrow> bool" where
  "newline_terminated t \<longleftrightarrow> t = [] \<or> last t = CHR 0x0A"

lemma split_lines_append:
  "newline_terminated t \<Longrightarrow> split_lines (t @ u) = split_lines t @ split_lines u"
proof (induction t rule: split_lines.induct)
  case (1 t)
  show ?case
  proof (cases "t = []")
    case False
    then have nl: "CHR 0x0A \<in> set t" using 1(2) last_in_set [of t] unfolding newline_terminated_def by metis
    then have "dropWhile (\<lambda>c. c \<noteq> CHR 0x0A) t \<noteq> []" by (auto simp: dropWhile_eq_Nil_conv)
    with hd_dropWhile [OF this] obtain rest where rest: "dropWhile (\<lambda>c. c \<noteq> CHR 0x0A) t = CHR 0x0A # rest"
      by (cases "dropWhile (\<lambda>c. c \<noteq> CHR 0x0A) t") auto
    have "t = takeWhile (\<lambda>c. c \<noteq> CHR 0x0A) t @ CHR 0x0A # rest" by (metis rest takeWhile_dropWhile_id)
    then have "last t = last (takeWhile (\<lambda>c. c \<noteq> CHR 0x0A) t @ CHR 0x0A # rest)" by (rule arg_cong)
    then have "last t = last (CHR 0x0A # rest)" by simp
    then have "newline_terminated rest"
      using 1(2) False by (auto simp: newline_terminated_def split: if_splits)
    from 1(1) [OF False rest this] show ?thesis
      using False rest nl
      by (simp add: split_lines.simps [of t] split_lines.simps [of "t @ u"] dropWhile_append1 takeWhile_append1)
  qed (simp add: split_lines.simps)
qed

lemma split_lines_one:
  assumes "CHR 0x0A \<notin> set l"
  shows "split_lines (l @ [CHR 0x0A]) = [strip_cr l]"
proof -
  have "dropWhile (\<lambda>c. c \<noteq> CHR 0x0A) (l @ [CHR 0x0A]) = [CHR 0x0A]"
    using assms by (subst dropWhile_append2) auto
  moreover have "takeWhile (\<lambda>c. c \<noteq> CHR 0x0A) (l @ [CHR 0x0A]) = l"
    using assms by (subst takeWhile_append2) auto
  ultimately show ?thesis
    by (simp add: split_lines.simps [of "l @ [CHR 0x0A]"] split_lines.simps [of "[]"])
qed

section \<open>Terminated lines of a stream\<close>

definition break_line :: "string \<Rightarrow> (string \<times> string) option" where
  "break_line s =
     (case dropWhile (\<lambda>c. c \<noteq> CHR 0x0A) s of
        [] \<Rightarrow> None
      | nl # rest \<Rightarrow> Some (takeWhile (\<lambda>c. c \<noteq> CHR 0x0A) s, rest))"

lemma break_line_None: "break_line s = None \<longleftrightarrow> CHR 0x0A \<notin> set s"
proof -
  have "break_line s = None \<longleftrightarrow> dropWhile (\<lambda>c. c \<noteq> CHR 0x0A) s = []"
    by (cases "dropWhile (\<lambda>c. c \<noteq> CHR 0x0A) s") (simp_all only: break_line_def list.case, simp_all)
  then show ?thesis by (auto simp: dropWhile_eq_Nil_conv)
qed

lemma break_line_Some:
  "break_line s = Some (l, rest) \<longleftrightarrow> s = l @ CHR 0x0A # rest \<and> CHR 0x0A \<notin> set l"
proof
  assume some: "break_line s = Some (l, rest)"
  then obtain nl where d: "dropWhile (\<lambda>c. c \<noteq> CHR 0x0A) s = nl # rest"
    and l: "takeWhile (\<lambda>c. c \<noteq> CHR 0x0A) s = l"
    by (auto simp: break_line_def split: list.splits)
  have "nl = CHR 0x0A" using hd_dropWhile [of "\<lambda>c. c \<noteq> CHR 0x0A" s] d by auto
  then have "s = l @ CHR 0x0A # rest"
    using takeWhile_dropWhile_id [of "\<lambda>c. c \<noteq> CHR 0x0A" s] by (simp only: d l)
  moreover have "CHR 0x0A \<notin> set l" using l set_takeWhileD by metis
  ultimately show "s = l @ CHR 0x0A # rest \<and> CHR 0x0A \<notin> set l" by blast
next
  assume s: "s = l @ CHR 0x0A # rest \<and> CHR 0x0A \<notin> set l"
  have "dropWhile (\<lambda>c. c \<noteq> CHR 0x0A) s = CHR 0x0A # rest" "takeWhile (\<lambda>c. c \<noteq> CHR 0x0A) s = l"
    using s by (auto simp: dropWhile_append takeWhile_append)
  then show "break_line s = Some (l, rest)" by (simp add: break_line_def)
qed

lemma break_line_shorter: "break_line s = Some (l, rest) \<Longrightarrow> length rest < length s"
  by (auto simp: break_line_Some)

text \<open>The terminated lines of a stream and the bytes after the last terminator.\<close>

function raw_split :: "string \<Rightarrow> string list \<times> string" where
  "raw_split s = (case break_line s of
     None \<Rightarrow> ([], s)
   | Some (l, rest) \<Rightarrow> (case raw_split rest of (ls, r) \<Rightarrow> (l # ls, r)))"
  by auto
termination by (relation "measure length") (auto dest: break_line_shorter)

declare raw_split.simps [simp del]

lemma raw_split_append:
  "raw_split (a @ b) = (case raw_split a of (ls, r) \<Rightarrow>
     case raw_split (r @ b) of (ls', r') \<Rightarrow> (ls @ ls', r'))"
proof (induction a rule: raw_split.induct)
  case (1 a)
  show ?case
  proof (cases "break_line a")
    case None
    then show ?thesis by (simp add: raw_split.simps [of a])
  next
    case (Some lr)
    obtain l rest where lr: "lr = (l, rest)" by force
    then have ab: "break_line (a @ b) = Some (l, rest @ b)" using Some by (auto simp: break_line_Some)
    show ?thesis
      using 1 [OF Some lr [symmetric]] Some
      by (simp add: raw_split.simps [of a] raw_split.simps [of "a @ b"] ab lr split: prod.splits)
  qed
qed

lemma raw_split_rest: "raw_split s = (ls, r) \<Longrightarrow> CHR 0x0A \<notin> set r"
proof (induction s arbitrary: ls r rule: raw_split.induct)
  case (1 s)
  show ?case
  proof (cases "break_line s")
    case None
    then have "r = s" using 1(2) by (simp add: raw_split.simps [of s])
    then show ?thesis using None by (simp add: break_line_None)
  next
    case (Some lr)
    then show ?thesis
      using 1 by (cases lr) (auto simp: raw_split.simps [of s] split: prod.splits)
  qed
qed

section \<open>Strict UTF-8\<close>

text \<open>The length of the first well-formed sequence of a byte string, 0 when there is none
  (Unicode, table 3-7).\<close>

definition byte_in :: "nat \<Rightarrow> nat \<Rightarrow> char \<Rightarrow> bool" where
  "byte_in lo hi c \<longleftrightarrow> lo \<le> of_char c \<and> of_char c \<le> hi"

fun conts :: "nat \<Rightarrow> string \<Rightarrow> bool" where
  "conts 0 cs \<longleftrightarrow> True"
| "conts (Suc n) [] \<longleftrightarrow> False"
| "conts (Suc n) (c # cs) \<longleftrightarrow> byte_in 0x80 0xBF c \<and> conts n cs"

fun utf8_len :: "string \<Rightarrow> nat" where
  "utf8_len [] = 0"
| "utf8_len [c] = (if byte_in 0 0x7F c then 1 else 0)"
| "utf8_len (c # d # cs) =
     (if byte_in 0 0x7F c then 1
      else if byte_in 0xC2 0xDF c \<and> conts 1 (d # cs) then 2
      else if (c = CHR 0xE0 \<and> byte_in 0xA0 0xBF d \<or> c = CHR 0xED \<and> byte_in 0x80 0x9F d
               \<or> (byte_in 0xE1 0xEC c \<or> byte_in 0xEE 0xEF c) \<and> byte_in 0x80 0xBF d) \<and> conts 1 cs then 3
      else if (c = CHR 0xF0 \<and> byte_in 0x90 0xBF d \<or> c = CHR 0xF4 \<and> byte_in 0x80 0x8F d
               \<or> byte_in 0xF1 0xF3 c \<and> byte_in 0x80 0xBF d) \<and> conts 2 cs then 4
      else 0)"

function valid_utf8 :: "string \<Rightarrow> bool" where
  "valid_utf8 s = (if s = [] then True else if utf8_len s = 0 then False
     else valid_utf8 (drop (utf8_len s) s))"
  by auto
termination by (relation "measure length") auto

declare valid_utf8.simps [simp del]

lemma valid_utf8_Nil [simp]: "valid_utf8 []"
  by (simp add: valid_utf8.simps)

end
