(* ===== verification/Rust_Text.thy ===== *)
theory Rust_Text
  imports Text_Lines
begin

text \<open>
  Further operations of \<open>str\<close> and \<open>char\<close>: one-sided trimming, words, ASCII classes and case,
  \<open>str::replace\<close> and \<open>str::get\<close> on byte positions.
\<close>

section \<open>Operations\<close>

definition trim_start :: "string \<Rightarrow> string" where
  "trim_start s = concat (dropWhile is_whitespace (utf8_chars s))"

definition trim_end :: "string \<Rightarrow> string" where
  "trim_end s = concat (drop_end is_whitespace (utf8_chars s))"

definition byte_at :: "string \<Rightarrow> nat \<Rightarrow> char option" where
  "byte_at s i = (if i < length s then Some (s ! i) else None)"

definition ascii_upper_byte :: "char \<Rightarrow> char" where
  "ascii_upper_byte c =
     (if 97 \<le> (of_char c :: nat) \<and> (of_char c :: nat) \<le> 122 then char_of ((of_char c :: nat) - 32)
      else c)"

definition to_ascii_uppercase :: "string \<Rightarrow> string" where
  "to_ascii_uppercase s = map ascii_upper_byte s"

definition eq_ignore_ascii_case :: "string \<Rightarrow> string \<Rightarrow> bool" where
  "eq_ignore_ascii_case a b \<longleftrightarrow> to_ascii_lowercase a = to_ascii_lowercase b"

text \<open>\<open>str::split\<close> with a predicate on characters: the pieces between the separators.\<close>

fun split_chars :: "(string \<Rightarrow> bool) \<Rightarrow> string list \<Rightarrow> string list \<Rightarrow> string list" where
  "split_chars sep acc [] = [concat (rev acc)]"
| "split_chars sep acc (u # us) =
     (if sep u then concat (rev acc) # split_chars sep [] us else split_chars sep (u # acc) us)"

definition split_where :: "(string \<Rightarrow> bool) \<Rightarrow> string \<Rightarrow> string list" where
  "split_where sep s = split_chars sep [] (utf8_chars s)"

definition split_whitespace :: "string \<Rightarrow> string list" where
  "split_whitespace s = filter (\<lambda>w. w \<noteq> []) (split_where is_whitespace s)"

text \<open>\<open>str::replace\<close> with a non-empty pattern: matches from the left, not overlapping, and the
  replacement is not scanned again.\<close>

function replace_str :: "string \<Rightarrow> string \<Rightarrow> string \<Rightarrow> string" where
  "replace_str p q [] = []"
| "replace_str p q (c # s) =
     (if p \<noteq> [] \<and> prefix p (c # s) then q @ replace_str p q (drop (length p - 1) s)
      else c # replace_str p q s)"
  by pat_completeness auto
termination by (relation "measure (\<lambda>(p, q, s). length s)") auto

definition is_ascii_alphanumeric :: "char \<Rightarrow> bool" where
  "is_ascii_alphanumeric c \<longleftrightarrow> (let n = of_char c :: nat in
     48 \<le> n \<and> n \<le> 57 \<or> 65 \<le> n \<and> n \<le> 90 \<or> 97 \<le> n \<and> n \<le> 122)"

definition is_ascii_hexdigit :: "char \<Rightarrow> bool" where
  "is_ascii_hexdigit c \<longleftrightarrow> (let n = of_char c :: nat in
     48 \<le> n \<and> n \<le> 57 \<or> 65 \<le> n \<and> n \<le> 70 \<or> 97 \<le> n \<and> n \<le> 102)"

section \<open>Replacement\<close>

text \<open>A word that uses no byte of the pattern and of the replacement is found in the result only
  where it was before.\<close>

lemma contains_skip:
  "set w \<inter> set q = {} \<Longrightarrow> w \<noteq> [] \<Longrightarrow> contains (q @ s) w \<longleftrightarrow> contains s w"
  by (induction q) (auto simp: contains_def sublist_Cons_right prefix_Cons)

lemma replace_str_prefix:
  "set w \<inter> (set p \<union> set q) = {} \<Longrightarrow> q \<noteq> [] \<Longrightarrow> prefix w (replace_str p q s) \<Longrightarrow> prefix w s"
proof (induction p q s arbitrary: w rule: replace_str.induct)
  case (2 p q c s)
  show ?case
  proof (cases "p \<noteq> [] \<and> prefix p (c # s)")
    case True
    then have "prefix w (q @ replace_str p q (drop (length p - 1) s))" using "2.prems" by simp
    with "2.prems" have "w = []" by (cases w; cases q) auto
    then show ?thesis by simp
  next
    case False
    then show ?thesis using "2.prems" "2.IH"(2) [OF False] by (cases w) auto
  qed
qed auto

lemma replace_str_word:
  "set w \<inter> (set p \<union> set q) = {} \<Longrightarrow> q \<noteq> [] \<Longrightarrow> w \<noteq> [] \<Longrightarrow> contains (replace_str p q s) w \<Longrightarrow> contains s w"
proof (induction p q s rule: replace_str.induct)
  case (2 p q c s)
  show ?case
  proof (cases "p \<noteq> [] \<and> prefix p (c # s)")
    case True
    then have "contains (q @ replace_str p q (drop (length p - 1) s)) w" using "2.prems" by simp
    moreover have "set w \<inter> set q = {}" using "2.prems" by blast
    ultimately have "contains (drop (length p - 1) s) w"
      using "2.IH"(1) [OF True] "2.prems" contains_skip by blast
    then show ?thesis
      unfolding contains_def by (meson sublist_Cons_right suffix_drop suffix_imp_sublist sublist_order.order_trans)
  next
    case False
    then have "prefix w (c # replace_str p q s) \<or> contains (replace_str p q s) w"
      using "2.prems" by (auto simp: contains_def sublist_Cons_right)
    then show ?thesis
      using "2.prems" "2.IH"(2) [OF False] replace_str_prefix [of w p q "c # s"] False
      by (auto simp: contains_def sublist_Cons_right)
  qed
qed simp

text \<open>A pattern without a line break is searched line by line.\<close>

lemma prefix_up_to_newline: "CHR 0x0A \<notin> set m \<Longrightarrow> prefix m (s @ CHR 0x0A # t) \<longleftrightarrow> prefix m s"
proof (induction s arbitrary: m)
  case Nil
  then show ?case by (cases m) auto
next
  case (Cons c s)
  then show ?case by (cases m) auto
qed

lemma find_str_newline:
  assumes "CHR 0x0A \<notin> set m" and "m \<noteq> []"
  shows "find_str (s @ CHR 0x0A # t) m =
    (case find_str s m of Some i \<Rightarrow> Some i | None \<Rightarrow> map_option (\<lambda>j. length s + 1 + j) (find_str t m))"
proof (induction s)
  case Nil
  have "\<not> prefix m (CHR 0x0A # t)" using assms by (cases m) auto
  then show ?case using assms by (simp cong: map_option_cong)
next
  case (Cons c s)
  then show ?case
    using prefix_up_to_newline [OF assms(1), of "c # s" t]
    by (auto split: option.splits simp: option.map_comp comp_def intro!: option.map_cong)
qed

lemma find_str_self: "find_str m m = Some 0"
  by (cases m) simp_all

lemma contains_trans: "contains s m \<Longrightarrow> contains m w \<Longrightarrow> contains s w"
  unfolding contains_def by (rule sublist_order.order_trans)

end
