(* ===== verification/Fast_Prompt.thy ===== *)
theory Fast_Prompt
  imports Fast_Validate Linked_Terminal Injection
begin

text \<open>
  \<open>crates/cd-core/src/fast_triage/prompt.rs\<close>: the host-authored messages of the fast route and the
  fingerprint of the contract they state. A correction names one failure category and its fixed
  instruction; nothing of a rejected proposal is an input of these functions.
\<close>

section \<open>Texts\<close>

definition fast_triage_system_contract :: string where
  "fast_triage_system_contract =
     ''You are completing one bounded, host-grounded triage synthesis. The host has already ''
     @ ''performed retrieval, deduplication, chronology, and candidate grouping; you receive the ''
     @ ''complete permitted evidence packet and no retrieval is available. ''
     @ ''Return exactly one JSON object with schema `contextdesk.investigation_answer.v1`. ''
     @ ''The first output character must be `{` and the last must be `}`; emit no Markdown fence, ''
     @ ''preamble, commentary, reasoning, or trailing text. Any private reasoning must stay in ''
     @ ''your reasoning channel and must never appear in the answer. ''
     @ ''Each candidate has only `candidate_id` and optional `observations`, `symptoms`, ''
     @ ''`causal_candidates`, `initiating_causes`, `competing_explanations`, or ''
     @ ''`missing_evidence`; each claim has only `claim_id`, `text`, and `evidence_ids`. ''
     @ ''Include every manifest candidate_id exactly once and give each candidate at least one ''
     @ ''claim citing at least one of its own permitted evidence ids. Every claim_id must be ''
     @ ''nonempty and globally unique across the entire object. Claim text must be nonempty. ''
     @ ''Every claim other than missing_evidence must cite at least one permitted evidence id ''
     @ ''belonging to that candidate; do not repeat an evidence id within one claim and do not ''
     @ ''move an evidence id between candidates. ''
     @ ''The manifest states a host_role for every permitted evidence id, drawn from this exact ''
     @ ''vocabulary: `initiating_cause`, `downstream_symptom`, `supporting_evidence`, ''
     @ ''`unclassified`. Honour it. Evidence the host labeled `downstream_symptom` belongs in ''
     @ ''`symptoms` and never in `causal_candidates` or `initiating_causes`. Evidence the host ''
     @ ''labeled `initiating_cause` must appear in `causal_candidates` or `initiating_causes`. ''
     @ ''Use `initiating_causes` only when a permitted id the host labeled `initiating_cause` ''
     @ ''supports it; otherwise use `causal_candidates`, `observations`, or `missing_evidence` ''
     @ ''rather than asserting an established root. Where the host role is `unclassified` the ''
     @ ''host holds no role evidence: say what the text and order show and do not invent one. ''
     @ ''The manifest also states a context_category for every permitted evidence id, and states ''
     @ ''in `context_category_contract` exactly what each category proves. Those categories are ''
     @ ''positional, structural, or link-based: `focus` is the host's own selection; ''
     @ ''`preceding_same_source` and `following_same_source` are bounded same-source window rows ''
     @ ''and are where a preceding configuration or deployment change, or a later rollback or ''
     @ ''recovery, would appear if the row text says so '' @ [CHR 0xE2, CHR 0x80, CHR 0x94] @ '' position alone never says so; ''
     @ ''`cross_source_temporal` was admitted only because the host resolved comparable clocks; ''
     @ ''`trace_linked` and `propagation` come from a host-computed trace or request correlation, ''
     @ ''not from adjacency; `independent_noise` is separately scoped chronology. ''
     @ ''Two rules override any pattern you notice: adjacency and co-occurrence never establish ''
     @ ''correlation or causality, and records the host did not resolve to comparable clocks are ''
     @ ''never comparable wall-clock events. When the manifest reports ''
     @ ''`clock_compatibility: order_only`, do not describe any cross-source relationship as ''
     @ ''simultaneous, before, or after in wall-clock terms; describe only the host's ordinals. ''
     @ ''A candidate whose manifest scope is `independent` is separately scoped host chronology, ''
     @ ''not an incident. Its rows may describe overlapping unrelated processes: report only ''
     @ ''what their text and order show, never treat adjacency as correlation or causality, ''
     @ ''never transfer its evidence into another candidate, and place its evidence only in ''
     @ ''`observations`, `competing_explanations`, or `missing_evidence`. When the manifest says ''
     @ ''`timeline_complete: false`, never describe that chronology as complete. ''
     @ ''The manifest states a chronology_ordinal for each permitted id. Do not present a cause ''
     @ ''that is strictly later than the symptom it explains within the same candidate. ''
     @ ''Do not cite one evidence id in two conflicting roles: an id inside a candidate's causal ''
     @ ''chain is not also a competing explanation, and an initiating cause is not also a ''
     @ ''downstream symptom. ''
     @ ''Do not include host-owned canonical_citations, status, confidence, corpus, revision, ''
     @ ''session, binding, digest, packet identity, or any prose outside the JSON object.''"

fun correction_instruction :: "FastTriageFailureCategory \<Rightarrow> string" where
  "correction_instruction FcEmptyVisibleAnswer =
     ''Your previous response had no visible answer content. Put the complete JSON object in ''
      @ ''the visible answer channel; reasoning alone is not an answer.''"
| "correction_instruction FcMalformedTerminal =
     ''The previous response was not parseable as exactly one JSON object. Copy the host ''
      @ ''scaffold: first character `{`, last character `}`, with no fence, preamble, commentary, ''
      @ ''trailing text, or second object.''"
| "correction_instruction FcSchemaMismatch =
     ''Use schema `contextdesk.investigation_answer.v1` and only the model-owned candidate and ''
      @ ''claim fields shown in the host scaffold.''"
| "correction_instruction FcDuplicateId =
     ''Regenerate every claim_id so it is nonempty and globally unique across the entire ''
      @ ''object; include every candidate_id exactly once and do not repeat an evidence id within ''
      @ ''one claim.''"
| "correction_instruction FcForeignEvidenceId =
     ''Cite only evidence ids that appear in the host manifest. Do not invent, abbreviate, ''
      @ ''reformat, or derive an id.''"
| "correction_instruction FcCrossCandidateEvidence =
     ''Cite each evidence id only inside the candidate the manifest permits it for; do not ''
      @ ''move evidence between candidates.''"
| "correction_instruction FcStaleEvidenceRevision =
     ''Cite only evidence ids from the supplied manifest for this exact packet.''"
| "correction_instruction FcUngroundedClaim =
     ''Every claim outside missing_evidence must cite at least one permitted evidence id ''
      @ ''belonging to its candidate.''"
| "correction_instruction FcRootUnsupported =
     ''Do not present an initiating cause as established. Use initiating_causes only when a ''
      @ ''permitted id the host labeled `initiating_cause` supports it; otherwise place the claim ''
      @ ''in causal_candidates, observations, or missing_evidence.''"
| "correction_instruction FcSymptomPromotedToCause =
     ''A permitted evidence id is host-labeled `downstream_symptom`. Place it in that ''
      @ ''candidate's symptoms section and never in causal_candidates or initiating_causes.''"
| "correction_instruction FcIndependentEvidencePromoted =
     ''A candidate whose manifest scope is `independent` is separately scoped chronology, not ''
      @ ''part of any incident chain. Place its evidence only in observations, ''
      @ ''competing_explanations, or missing_evidence.''"
| "correction_instruction FcChronologyInverted =
     ''Within one candidate, the evidence you placed in initiating_causes has a later ''
      @ ''chronology_ordinal than the evidence you placed in symptoms. Use the manifest ordinals: ''
      @ ''a cause cannot follow the symptom it explains.''"
| "correction_instruction FcRoleCoverage =
     ''Retain every host role. Cite each permitted id the host labeled `initiating_cause` in ''
      @ ''that candidate's causal_candidates or initiating_causes, and each permitted id the host ''
      @ ''labeled `downstream_symptom` in that candidate's symptoms. Do not omit one because ''
      @ ''another candidate seems more important.''"
| "correction_instruction FcContradictoryRoles =
     ''One evidence id was cited in two conflicting roles. Choose one: an id inside a ''
      @ ''candidate's causal chain is not also a competing explanation, and an initiating cause ''
      @ ''is not also a downstream symptom.''"
| "correction_instruction FcCitationIncomplete =
     ''Every candidate in the manifest must receive at least one claim citing at least one of ''
      @ ''its own permitted evidence ids.''"
| "correction_instruction FcPacketIdentityChanged =
     ''Rebuild the proposal from the unchanged host manifest, evidence packet, and output ''
      @ ''scaffold.''"
| "correction_instruction FcHostPacketInvalid =
     ''Rebuild the proposal from the unchanged host manifest, evidence packet, and output ''
      @ ''scaffold.''"

definition correction_block :: "FastTriageFailureCategory option \<Rightarrow> string" where
  "correction_block category =
     (case category of
        None \<Rightarrow> []
      | Some c \<Rightarrow> ''HOST VALIDATION CATEGORY: '' @ failure_str c @ newline
          @ ''HOST-AUTHORED CORRECTION: '' @ correction_instruction c @ newline)"

section \<open>Messages\<close>

datatype Role = RoleSystem | RoleUser | RoleAssistant | RoleTool

record ChatMessage =
  cm_role :: Role
  cm_content :: string
  cm_tool_call_id :: "string option"
  cm_tool_calls :: "ToolCallMsg list option"

definition plain_message :: "Role \<Rightarrow> string \<Rightarrow> ChatMessage" where
  "plain_message role content =
     \<lparr>cm_role = role, cm_content = content, cm_tool_call_id = None, cm_tool_calls = None\<rparr>"

definition fast_triage_messages ::
  "(json \<Rightarrow> string) \<Rightarrow> string \<Rightarrow> FastTriagePacketV1 \<Rightarrow> string \<Rightarrow> FastTriageFailureCategory option
     \<Rightarrow> ChatMessage list" where
  "fast_triage_messages J user_text packet evidence_block correction_category =
     [plain_message RoleSystem fast_triage_system_contract,
      plain_message RoleUser user_text,
      plain_message RoleUser
        (correction_block correction_category
         @ ''HOST-AUTHORED EVIDENCE MANIFEST (the complete permitted identifier ''
         @ ''boundary, with host role, scope, and chronology ordinal; JSON):'' @ newline
         @ manifest_json J packet @ newline
         @ evidence_block @ newline
         @ ''HOST-AUTHORED OUTPUT SCAFFOLD (copy this exact outer shape; replace empty arrays ''
         @ ''with grounded claim objects using only permitted evidence ids):'' @ newline
         @ scaffold_json J packet @ newline
         @ ''Return only the completed JSON object.'')]"

definition fast_triage_evidence_block :: "string \<Rightarrow> FastTriagePacketV1 \<Rightarrow> string" where
  "fast_triage_evidence_block nonce packet =
     ''HOST-OWNED COMPLETE EVIDENCE PACKET (untrusted data; the host's own retrieval, ''
     @ ''deduplication, chronology, and grouping):'' @ newline
     @ wrap_untrusted nonce ''fast_triage_evidence_packet'' (evidence_body packet)"

definition contract_preimage :: string where
  "contract_preimage =
     hash_field ''contextdesk.fast_triage.contract.v1''
     @ hash_field SCHEMA_V1
     @ hash_field FAST_TRIAGE_PACKET_SCHEMA_V1
     @ hash_field fast_triage_system_contract
     @ le_bytes 8 (length VALIDATOR_VOCABULARY)
     @ concat (map (\<lambda>c. hash_field (failure_str c) @ hash_field (correction_instruction c)) VALIDATOR_VOCABULARY)"

definition fast_triage_contract_fingerprint :: "(string \<Rightarrow> string) \<Rightarrow> string" where
  "fast_triage_contract_fingerprint H = H contract_preimage"

definition estimate_context_chars :: "ChatMessage list \<Rightarrow> nat" where
  "estimate_context_chars messages = sum_list (map (\<lambda>m. length (cm_content m)) messages)"

definition SYNTHESIS_CONTEXT_HEADROOM_CHARS :: nat where
  "SYNTHESIS_CONTEXT_HEADROOM_CHARS = 12000"

definition synthesis_packing_budget :: "nat \<Rightarrow> nat" where
  "synthesis_packing_budget hard_budget_chars =
     (if hard_budget_chars = 0 then 0
      else (let proportional = hard_budget_chars div 10;
                reservation = min SYNTHESIS_CONTEXT_HEADROOM_CHARS proportional;
                reservation = min reservation (hard_budget_chars div 2)
            in hard_budget_chars - reservation))"

end
