(* ===== verification/Ip_Addr.thy ===== *)
theory Ip_Addr
  imports Rust_Strings
begin

text \<open>
  \<open>std::net::IpAddr\<close> as the program uses it: addresses as machine words with their octets and
  segments, the classification predicates, and the text parser behind \<open>str::parse\<close>.
  The predicates are related to address blocks in CIDR form.
\<close>

unbundle bit_operations_syntax

section \<open>Addresses\<close>

type_synonym u16 = "16 word"
type_synonym Ipv4Addr = "32 word"
type_synonym Ipv6Addr = "128 word"

datatype IpAddr = V4 Ipv4Addr | V6 Ipv6Addr

definition octet :: "nat \<Rightarrow> Ipv4Addr \<Rightarrow> u8" where
  "octet i ip = ucast (drop_bit (24 - 8 * i) ip)"

definition octets :: "Ipv4Addr \<Rightarrow> u8 list" where
  "octets ip = map (\<lambda>i. octet i ip) [0, 1, 2, 3]"

definition ipv4_new :: "u8 \<Rightarrow> u8 \<Rightarrow> u8 \<Rightarrow> u8 \<Rightarrow> Ipv4Addr" where
  "ipv4_new a b c d = push_bit 24 (ucast a) + push_bit 16 (ucast b) + push_bit 8 (ucast c) + ucast d"

definition segment :: "nat \<Rightarrow> Ipv6Addr \<Rightarrow> u16" where
  "segment i ip = ucast (drop_bit (112 - 16 * i) ip)"

definition segments :: "Ipv6Addr \<Rightarrow> u16 list" where
  "segments ip = map (\<lambda>i. segment i ip) [0, 1, 2, 3, 4, 5, 6, 7]"

section \<open>Classification\<close>

definition v4_is_loopback :: "Ipv4Addr \<Rightarrow> bool" where
  "v4_is_loopback ip \<longleftrightarrow> octet 0 ip = 127"

definition v4_is_unspecified :: "Ipv4Addr \<Rightarrow> bool" where
  "v4_is_unspecified ip \<longleftrightarrow> ip = 0"

definition v4_is_broadcast :: "Ipv4Addr \<Rightarrow> bool" where
  "v4_is_broadcast ip \<longleftrightarrow> octets ip = [255, 255, 255, 255]"

definition v4_is_link_local :: "Ipv4Addr \<Rightarrow> bool" where
  "v4_is_link_local ip \<longleftrightarrow> octet 0 ip = 169 \<and> octet 1 ip = 254"

definition v4_is_private :: "Ipv4Addr \<Rightarrow> bool" where
  "v4_is_private ip \<longleftrightarrow>
     octet 0 ip = 10
     \<or> (octet 0 ip = 172 \<and> 16 \<le> octet 1 ip \<and> octet 1 ip \<le> 31)
     \<or> (octet 0 ip = 192 \<and> octet 1 ip = 168)"

definition v6_is_loopback :: "Ipv6Addr \<Rightarrow> bool" where
  "v6_is_loopback ip \<longleftrightarrow> ip = 1"

definition v6_is_unspecified :: "Ipv6Addr \<Rightarrow> bool" where
  "v6_is_unspecified ip \<longleftrightarrow> ip = 0"

definition v6_is_unique_local :: "Ipv6Addr \<Rightarrow> bool" where
  "v6_is_unique_local ip \<longleftrightarrow> segment 0 ip AND 0xfe00 = 0xfc00"

definition v6_is_unicast_link_local :: "Ipv6Addr \<Rightarrow> bool" where
  "v6_is_unicast_link_local ip \<longleftrightarrow> segment 0 ip AND 0xffc0 = 0xfe80"

definition v4_of_segments :: "Ipv6Addr \<Rightarrow> Ipv4Addr" where
  "v4_of_segments ip = push_bit 16 (ucast (segment 6 ip)) + ucast (segment 7 ip)"

definition to_ipv4_mapped :: "Ipv6Addr \<Rightarrow> Ipv4Addr option" where
  "to_ipv4_mapped ip =
     (if take 6 (segments ip) = [0, 0, 0, 0, 0, 0xffff] then Some (v4_of_segments ip) else None)"

definition to_ipv4 :: "Ipv6Addr \<Rightarrow> Ipv4Addr option" where
  "to_ipv4 ip =
     (if take 5 (segments ip) = [0, 0, 0, 0, 0] \<and> (segment 5 ip = 0 \<or> segment 5 ip = 0xffff)
      then Some (v4_of_segments ip) else None)"

section \<open>Parsing\<close>

text \<open>The recursive-descent parser of \<open>std\<close>: a reader takes the remaining bytes and returns a value
  with the bytes left, or \<open>None\<close> without consuming anything.\<close>

definition hex_value :: "char \<Rightarrow> nat" where
  "hex_value c =
     (let n = of_char c :: nat in if n \<le> 57 then n - 48 else if n \<le> 70 then n - 55 else n - 87)"

definition is_hex_digit :: "char \<Rightarrow> bool" where
  "is_hex_digit c \<longleftrightarrow> is_ascii_digit c
     \<or> (65 \<le> (of_char c :: nat) \<and> (of_char c :: nat) \<le> 70)
     \<or> (97 \<le> (of_char c :: nat) \<and> (of_char c :: nat) \<le> 102)"

definition read_number ::
  "(char \<Rightarrow> bool) \<Rightarrow> (char \<Rightarrow> nat) \<Rightarrow> nat \<Rightarrow> nat \<Rightarrow> bool \<Rightarrow> nat \<Rightarrow> string \<Rightarrow> (nat \<times> string) option" where
  "read_number is_digit value radix max_digits allow_zero_prefix limit s =
     (let ds = takeWhile is_digit s; v = foldl (\<lambda>n c. radix * n + value c) 0 ds
      in if ds = [] \<or> length ds > max_digits then None
      else if \<not> allow_zero_prefix \<and> hd ds = CHR ''0'' \<and> length ds > 1 then None
      else if v < limit then Some (v, drop (length ds) s) else None)"

definition read_separator ::
  "char \<Rightarrow> nat \<Rightarrow> (string \<Rightarrow> ('a \<times> string) option) \<Rightarrow> string \<Rightarrow> ('a \<times> string) option" where
  "read_separator sep index inner s =
     (if index = 0 then inner s
      else case s of c # cs \<Rightarrow> if c = sep then inner cs else None | [] \<Rightarrow> None)"

definition read_octet :: "nat \<Rightarrow> string \<Rightarrow> (nat \<times> string) option" where
  "read_octet i = read_separator (CHR ''.'') i (read_number is_ascii_digit digit_value 10 3 False 256)"

definition read_ipv4_addr :: "string \<Rightarrow> (Ipv4Addr \<times> string) option" where
  "read_ipv4_addr s0 =
     Option.bind (read_octet 0 s0) (\<lambda>(a, s1).
     Option.bind (read_octet 1 s1) (\<lambda>(b, s2).
     Option.bind (read_octet 2 s2) (\<lambda>(c, s3).
     map_option (\<lambda>(d, s4). (ipv4_new (of_nat a) (of_nat b) (of_nat c) (of_nat d), s4)) (read_octet 3 s3))))"

function read_groups :: "nat \<Rightarrow> nat \<Rightarrow> string \<Rightarrow> u16 list \<times> bool \<times> string" where
  "read_groups i limit s =
     (if i \<ge> limit then ([], False, s)
      else case (if i < limit - 1 then read_separator (CHR '':'') i read_ipv4_addr s else None) of
        Some (v4, s') \<Rightarrow> ([ucast (drop_bit 16 v4), ucast v4], True, s')
      | None \<Rightarrow>
          (case read_separator (CHR '':'') i (read_number is_hex_digit hex_value 16 4 True 65536) s of
             Some (g, s') \<Rightarrow> (case read_groups (i + 1) limit s' of (gs, b, r) \<Rightarrow> (of_nat g # gs, b, r))
           | None \<Rightarrow> ([], False, s)))"
  by auto
termination by (relation "measure (\<lambda>(i, limit, s). limit - i)") auto

declare read_groups.simps [simp del]

definition ipv6_of_segments :: "u16 list \<Rightarrow> Ipv6Addr" where
  "ipv6_of_segments gs = foldl (\<lambda>acc g. push_bit 16 acc + ucast g) 0 gs"

definition read_ipv6_addr :: "string \<Rightarrow> (Ipv6Addr \<times> string) option" where
  "read_ipv6_addr s =
     (case read_groups 0 8 s of (head, head_v4, s1) \<Rightarrow>
        if length head = 8 then Some (ipv6_of_segments head, s1)
        else if head_v4 then None
        else case strip_prefix s1 ''::'' of
          Some s2 \<Rightarrow>
            (case read_groups 0 (8 - (length head + 1)) s2 of (tail_groups, _, s3) \<Rightarrow>
               Some (ipv6_of_segments
                 (head @ replicate (8 - length head - length tail_groups) 0 @ tail_groups), s3))
        | None \<Rightarrow> None)"

definition parse_ip :: "string \<Rightarrow> IpAddr option" where
  "parse_ip s =
     (case (case read_ipv4_addr s of
              Some (v4, r) \<Rightarrow> Some (V4 v4, r)
            | None \<Rightarrow> map_option (\<lambda>(v6, r). (V6 v6, r)) (read_ipv6_addr s)) of
        Some (ip, []) \<Rightarrow> Some ip
      | _ \<Rightarrow> None)"

lemmas ip_parse_defs = parse_ip_def read_ipv4_addr_def read_ipv6_addr_def read_groups.simps
  read_separator_def read_octet_def read_number_def is_ascii_digit_def is_hex_digit_def
  digit_value_def hex_value_def strip_prefix_def ipv4_new_def

section \<open>Address blocks\<close>

text \<open>\<open>in_block bits base len n\<close>: the address \<open>n\<close> of \<open>bits\<close> bits is in the CIDR block
  \<open>base/len\<close>.\<close>

definition in_block :: "nat \<Rightarrow> nat \<Rightarrow> nat \<Rightarrow> nat \<Rightarrow> bool" where
  "in_block bits base len n \<longleftrightarrow> n div 2 ^ (bits - len) = base div 2 ^ (bits - len)"

definition dotted :: "nat \<Rightarrow> nat \<Rightarrow> nat \<Rightarrow> nat \<Rightarrow> nat" where
  "dotted a b c d = ((a * 256 + b) * 256 + c) * 256 + d"

lemma unat_drop: "unat (drop_bit k w) = unat w div 2 ^ k" for w :: "'a::len word"
  using unat_drop_bit_eq [of k w] drop_bit_eq_div [of k "unat w"] by (rule trans)

lemma unat_octet: "unat (octet i ip) = unat ip div 2 ^ (24 - 8 * i) mod 256"
  by (simp add: octet_def unsigned_ucast_eq take_bit_eq_mod unat_drop del: drop_bit_eq_div)

lemma unat_segment: "unat (segment i ip) = unat ip div 2 ^ (112 - 16 * i) mod 65536"
  by (simp add: segment_def unsigned_ucast_eq take_bit_eq_mod unat_drop del: drop_bit_eq_div)

lemma v4_lt: "unat (ip :: Ipv4Addr) < 4294967296"
  using unsigned_less [of ip] by simp

lemma v6_lt: "unat (ip :: Ipv6Addr) < 340282366920938463463374607431768211456"
  using unsigned_less [of ip] by simp

lemma octet_eqs:
  "octet 0 ip = n \<longleftrightarrow> unat ip div 16777216 = unat n"
  "octet (Suc 0) ip = n \<longleftrightarrow> unat ip div 65536 mod 256 = unat n"
proof -
  have "unat ip div 16777216 < 256" using v4_lt [of ip] by (intro less_mult_imp_div_less) simp
  then show "octet 0 ip = n \<longleftrightarrow> unat ip div 16777216 = unat n"
    by (simp add: word_unat_eq_iff unat_octet)
  show "octet (Suc 0) ip = n \<longleftrightarrow> unat ip div 65536 mod 256 = unat n"
    by (simp add: word_unat_eq_iff unat_octet)
qed

lemma v4_loopback_block: "v4_is_loopback ip \<longleftrightarrow> in_block 32 (dotted 127 0 0 0) 8 (unat ip)"
  by (simp add: v4_is_loopback_def octet_eqs in_block_def dotted_def)

lemma digits_eq: "r < k \<Longrightarrow> b < k \<Longrightarrow> k * q + r = k * a + b \<longleftrightarrow> q = a \<and> r = b" for k q r a b :: nat
  by (metis add.commute div_mult_self2 div_less gr_implies_not0 add.left_neutral add_left_cancel)

text \<open>The upper half \<open>m\<close> of an address, cut after its first octet.\<close>

lemma split_half:
  fixes m :: nat
  obtains q r where "m = 256 * q + r" "r < 256" "m div 256 = q" "m mod 256 = r" "m div 16 = 16 * q + r div 16"
proof (rule that)
  show "m = 256 * (m div 256) + m mod 256" by simp
  have "m div 16 = (256 * (m div 256) + m mod 256) div 16" by simp
  also have "\<dots> = ((16 * (m div 256)) * 16 + m mod 256) div 16" by (simp add: algebra_simps)
  also have "\<dots> = 16 * (m div 256) + m mod 256 div 16" by (simp only: div_mult_self3 [OF zero_neq_numeral [symmetric]])
  finally show "m div 16 = 16 * (m div 256) + m mod 256 div 16" .
qed simp_all

lemma v4_link_local_block: "v4_is_link_local ip \<longleftrightarrow> in_block 32 (dotted 169 254 0 0) 16 (unat ip)"
proof -
  obtain q r where m: "unat ip div 65536 = 256 * q + r" "r < 256" "unat ip div 65536 div 256 = q"
    "unat ip div 65536 mod 256 = r" by (rule split_half)
  have hi: "unat ip div 16777216 = q" using m(3) by (simp flip: div_mult2_eq)
  have "v4_is_link_local ip \<longleftrightarrow> q = 169 \<and> r = 254"
    by (simp add: v4_is_link_local_def octet_eqs hi m(4))
  also have "\<dots> \<longleftrightarrow> 256 * q + r = 43518" using digits_eq [OF m(2), of 254 q 169] by simp
  finally show ?thesis by (simp add: in_block_def dotted_def m(1))
qed

lemma v4_private_block:
  "v4_is_private ip \<longleftrightarrow> in_block 32 (dotted 10 0 0 0) 8 (unat ip)
     \<or> in_block 32 (dotted 172 16 0 0) 12 (unat ip) \<or> in_block 32 (dotted 192 168 0 0) 16 (unat ip)"
proof -
  obtain q r where m: "unat ip div 65536 = 256 * q + r" "r < 256" "unat ip div 65536 div 256 = q"
    "unat ip div 65536 mod 256 = r" "unat ip div 65536 div 16 = 16 * q + r div 16" by (rule split_half)
  have hi: "unat ip div 16777216 = q" "unat ip div 1048576 = 16 * q + r div 16"
    using m(3,5) by (simp_all flip: div_mult2_eq)
  have b: "unat (octet (Suc 0) ip) = r" by (simp add: unat_octet m(4))
  have "v4_is_private ip \<longleftrightarrow> q = 10 \<or> (q = 172 \<and> 16 \<le> r \<and> r \<le> 31) \<or> (q = 192 \<and> r = 168)"
    by (simp add: v4_is_private_def octet_eqs(1) word_le_nat_alt b word_unat_eq_iff [of "octet (Suc 0) ip"] hi)
  moreover have "q = 192 \<and> r = 168 \<longleftrightarrow> 256 * q + r = 49320" using digits_eq [OF m(2), of 168 q 192] by simp
  moreover have "q = 172 \<and> 16 \<le> r \<and> r \<le> 31 \<longleftrightarrow> 16 * q + r div 16 = 2753"
  proof -
    have "r div 16 < 16" using m(2) by (intro less_mult_imp_div_less) simp
    then have "16 * q + r div 16 = 2753 \<longleftrightarrow> q = 172 \<and> r div 16 = 1"
      using digits_eq [of "r div 16" 16 1 q 172] by simp
    moreover have "r div 16 = 1 \<longleftrightarrow> 16 \<le> r \<and> r \<le> 31" by auto
    ultimately show ?thesis by auto
  qed
  ultimately show ?thesis by (simp add: in_block_def dotted_def hi m(1))
qed

subsection \<open>Blocks cut out with a bit mask\<close>

lemma and_not_mask: "w AND NOT (mask k) = push_bit k (drop_bit k w)" for w :: "'a::len word"
  by (rule bit_word_eqI) (auto simp: bit_simps)

lemma masked_eq:
  fixes w :: "'a::len word"
  assumes "k \<le> LENGTH('a)"
  shows "w AND NOT (mask k) = c \<longleftrightarrow> unat w div 2 ^ k * 2 ^ k = unat c"
proof -
  have "unat (push_bit k (drop_bit k w)) = unat w div 2 ^ k * 2 ^ k"
  proof -
    have "unat w div 2 ^ k * 2 ^ k \<le> unat w" by (rule div_times_less_eq_dividend)
    then have "unat w div 2 ^ k * 2 ^ k < 2 ^ LENGTH('a)" using unsigned_less [of w] by (rule le_less_trans)
    moreover have "unat (push_bit k (drop_bit k w)) = unat (drop_bit k w) * 2 ^ k mod 2 ^ LENGTH('a)"
      by (subst unsigned_push_bit_eq) (simp only: push_bit_eq_mult take_bit_eq_mod)
    ultimately show ?thesis by (simp only: unat_drop mod_less)
  qed
  then show ?thesis unfolding and_not_mask by (simp add: word_unat_eq_iff)
qed

lemma mask_literals:
  "(0xC0 :: u8) = NOT (mask 6)" "(0xfe00 :: u16) = NOT (mask 9)" "(0xffc0 :: u16) = NOT (mask 6)"
  by code_simp+

lemma segment0: "unat (segment 0 ip) = unat ip div 2 ^ 112"
proof -
  have "unat ip div 2 ^ 112 < 65536" using v6_lt [of ip] by (intro less_mult_imp_div_less) simp
  then show ?thesis by (simp add: unat_segment)
qed

lemma v6_unique_local_block: "v6_is_unique_local ip \<longleftrightarrow> in_block 128 (0xfc00 * 2 ^ 112) 7 (unat ip)"
proof -
  have "v6_is_unique_local ip \<longleftrightarrow> unat (segment 0 ip) div 512 * 512 = 64512"
    unfolding v6_is_unique_local_def mask_literals(2) by (subst masked_eq) simp_all
  also have "\<dots> \<longleftrightarrow> unat ip div 2 ^ 112 div 512 = 126" by (simp add: segment0)
  finally show ?thesis by (simp add: in_block_def flip: div_mult2_eq)
qed

lemma v6_link_local_block: "v6_is_unicast_link_local ip \<longleftrightarrow> in_block 128 (0xfe80 * 2 ^ 112) 10 (unat ip)"
proof -
  have "v6_is_unicast_link_local ip \<longleftrightarrow> unat (segment 0 ip) div 64 * 64 = 65152"
    unfolding v6_is_unicast_link_local_def mask_literals(3) by (subst masked_eq) simp_all
  also have "\<dots> \<longleftrightarrow> unat ip div 2 ^ 112 div 64 = 1018" by (simp add: segment0)
  finally show ?thesis by (simp add: in_block_def flip: div_mult2_eq)
qed

subsection \<open>IPv4 addresses inside IPv6 addresses\<close>

lemma segment_zero:
  "unat ip div 2 ^ (128 - 16 * i) = 0 \<and> segment i ip = 0 \<longleftrightarrow> unat ip div 2 ^ (112 - 16 * i) = 0" if "i \<le> 7"
proof -
  have "unat ip div 2 ^ (128 - 16 * i) = unat ip div 2 ^ (112 - 16 * i) div 65536"
  proof -
    have "128 - 16 * i = (112 - 16 * i) + 16" using that by simp
    then have "(2 :: nat) ^ (128 - 16 * i) = 2 ^ (112 - 16 * i) * 2 ^ 16" by (simp only: power_add)
    then show ?thesis by (simp add: div_mult2_eq)
  qed
  moreover have "x div 65536 = 0 \<and> x mod 65536 = 0 \<longleftrightarrow> x = 0" for x :: nat
    using div_mult_mod_eq [of x 65536] by auto
  ultimately show ?thesis by (simp add: word_unat_eq_iff unat_segment)
qed

lemma leading_zeros: "take 5 (segments ip) = [0, 0, 0, 0, 0] \<longleftrightarrow> unat ip div 2 ^ 48 = 0"
proof -
  have "unat ip div 2 ^ 128 = 0" using v6_lt [of ip] by (simp add: div_less)
  then show ?thesis
    using segment_zero [of 0 ip] segment_zero [of 1 ip] segment_zero [of 2 ip] segment_zero [of 3 ip]
      segment_zero [of 4 ip]
    by (simp add: segments_def) argo
qed

lemma upper_segments:
  "take 5 (segments ip) = [0, 0, 0, 0, 0] \<and> segment 5 ip = v \<longleftrightarrow> unat ip div 2 ^ 32 = unat v"
proof -
  let ?h = "unat ip div 2 ^ 32"
  have h: "unat ip div 2 ^ 48 = ?h div 65536" by (simp flip: div_mult2_eq)
  have "unat v < 65536" using unsigned_less [of v] by simp
  then have "?h div 65536 = 0 \<and> ?h mod 65536 = unat v \<longleftrightarrow> ?h = unat v"
    using div_mult_mod_eq [of ?h 65536] by auto
  then show ?thesis unfolding leading_zeros h by (simp add: word_unat_eq_iff unat_segment)
qed

lemma unat_v4_of_segments: "unat (v4_of_segments ip) = unat ip mod 2 ^ 32"
proof -
  let ?n = "unat ip"
  have s: "unat (segment 6 ip) = ?n div 65536 mod 65536" "unat (segment 7 ip) = ?n mod 65536"
    by (simp_all add: unat_segment)
  have "unat (push_bit 16 (ucast (segment 6 ip)) :: Ipv4Addr) = (?n div 65536 mod 65536) * 65536"
    by (subst unsigned_push_bit_eq)
      (simp add: unsigned_ucast_eq push_bit_eq_mult take_bit_eq_mod s less_imp_le)
  moreover have "unat (ucast (segment 7 ip) :: Ipv4Addr) = ?n mod 65536"
    by (simp add: unsigned_ucast_eq take_bit_eq_mod s less_imp_le)
  moreover have "?n mod 4294967296 = (?n div 65536 mod 65536) * 65536 + ?n mod 65536"
    using mod_mult2_eq [of ?n 65536 65536] by simp
  ultimately show ?thesis
    unfolding v4_of_segments_def by (simp add: unat_word_ariths) (metis mod_mod_trivial)
qed

lemma to_ipv4_mapped_iff:
  "to_ipv4_mapped ip = (if unat ip div 2 ^ 32 = 0xffff then Some (v4_of_segments ip) else None)"
proof -
  have "take 6 (segments ip) = [0, 0, 0, 0, 0, 0xffff] \<longleftrightarrow>
      take 5 (segments ip) = [0, 0, 0, 0, 0] \<and> segment 5 ip = 0xffff"
    by (auto simp: segments_def)
  then show ?thesis unfolding to_ipv4_mapped_def by (simp add: upper_segments)
qed

lemma to_ipv4_iff:
  "to_ipv4 ip = (if unat ip div 2 ^ 32 = 0 \<or> unat ip div 2 ^ 32 = 0xffff
     then Some (v4_of_segments ip) else None)"
  using upper_segments [where ip = ip and v = 0] upper_segments [where ip = ip and v = "0xffff"] unfolding to_ipv4_def by auto

section \<open>Characters of an address text\<close>

definition ip_char :: "char \<Rightarrow> bool" where
  "ip_char c \<longleftrightarrow> is_hex_digit c \<or> c = CHR ''.'' \<or> c = CHR '':''"

text \<open>A reader consumes a prefix made of address characters.\<close>

definition ip_reader :: "(string \<Rightarrow> ('a \<times> string) option) \<Rightarrow> bool" where
  "ip_reader p \<longleftrightarrow> (\<forall>s v r. p s = Some (v, r) \<longrightarrow> (\<exists>u. s = u @ r \<and> list_all ip_char u))"

lemma ip_readerI: "(\<And>s v r. p s = Some (v, r) \<Longrightarrow> \<exists>u. s = u @ r \<and> list_all ip_char u) \<Longrightarrow> ip_reader p"
  by (auto simp: ip_reader_def)

lemma ip_readerD: "ip_reader p \<Longrightarrow> p s = Some (v, r) \<Longrightarrow> \<exists>u. s = u @ r \<and> list_all ip_char u"
  by (auto simp: ip_reader_def)

lemma ip_reader_number:
  assumes "\<And>c. is_digit c \<Longrightarrow> ip_char c"
  shows "ip_reader (read_number is_digit value radix n z limit)"
proof (rule ip_readerI)
  fix s v r assume "read_number is_digit value radix n z limit s = Some (v, r)"
  then have "r = drop (length (takeWhile is_digit s)) s"
    by (auto simp: read_number_def Let_def split: if_splits)
  then have "r = dropWhile is_digit s" by (simp only: dropWhile_eq_drop)
  then have "s = takeWhile is_digit s @ r" by simp
  moreover have "list_all ip_char (takeWhile is_digit s)"
    using assms by (auto simp: list_all_iff dest: set_takeWhileD)
  ultimately show "\<exists>u. s = u @ r \<and> list_all ip_char u" by blast
qed

lemma ip_reader_separator:
  assumes "ip_reader p" and "ip_char sep"
  shows "ip_reader (read_separator sep i p)"
proof (rule ip_readerI)
  fix s v r assume read: "read_separator sep i p s = Some (v, r)"
  show "\<exists>u. s = u @ r \<and> list_all ip_char u"
  proof (cases "i = 0")
    case True
    then show ?thesis using read ip_readerD [OF assms(1)] by (simp add: read_separator_def)
  next
    case False
    then obtain cs where "s = sep # cs" "p cs = Some (v, r)"
      using read by (auto simp: read_separator_def split: list.splits if_splits)
    moreover from this obtain u where "cs = u @ r" "list_all ip_char u"
      using ip_readerD [OF assms(1)] by blast
    ultimately show ?thesis using assms(2) by (intro exI [of _ "sep # u"]) simp
  qed
qed

lemma ip_reader_octet: "ip_reader (read_octet i)"
  unfolding read_octet_def
  by (intro ip_reader_separator ip_reader_number) (auto simp: ip_char_def is_hex_digit_def)

lemma ip_reader_ipv4: "ip_reader read_ipv4_addr"
proof (rule ip_readerI)
  fix s v r assume "read_ipv4_addr s = Some (v, r)"
  then obtain a s1 b s2 c s3 d where reads: "read_octet 0 s = Some (a, s1)" "read_octet 1 s1 = Some (b, s2)"
    "read_octet 2 s2 = Some (c, s3)" "read_octet 3 s3 = Some (d, r)"
    by (auto simp: read_ipv4_addr_def bind_eq_Some_conv)
  show "\<exists>u. s = u @ r \<and> list_all ip_char u"
    using reads [THEN ip_readerD [OF ip_reader_octet]]
    by clarify (rule exI [of _ "_ @ _ @ _ @ _"], simp)
qed

lemma ip_reader_hex: "ip_reader (read_separator (CHR '':'') i (read_number is_hex_digit hex_value 16 4 True 65536))"
  by (intro ip_reader_separator ip_reader_number) (auto simp: ip_char_def)

lemma ip_reader_v4_group: "ip_reader (read_separator (CHR '':'') i read_ipv4_addr)"
  by (intro ip_reader_separator ip_reader_ipv4) (simp add: ip_char_def)

lemma read_groups_chars: "read_groups i limit s = (gs, b, r) \<Longrightarrow> \<exists>u. s = u @ r \<and> list_all ip_char u"
proof (induction i limit s arbitrary: gs b r rule: read_groups.induct)
  case (1 i limit s)
  let ?v4 = "if i < limit - 1 then read_separator (CHR '':'') i read_ipv4_addr s else None"
  let ?hex = "read_separator (CHR '':'') i (read_number is_hex_digit hex_value 16 4 True 65536) s"
  consider "i \<ge> limit" | v s' where "\<not> i \<ge> limit" "?v4 = Some (v, s')"
    | "\<not> i \<ge> limit" "?v4 = None" "?hex = None"
    | g s' where "\<not> i \<ge> limit" "?v4 = None" "?hex = Some (g, s')"
    by (metis not_None_eq surj_pair)
  then show ?case
  proof cases
    case 2
    then have "read_separator (CHR '':'') i read_ipv4_addr s = Some (v, s')" by (auto split: if_splits)
    moreover have "r = s'" using 1(2) 2 by (simp add: read_groups.simps [of i limit s])
    ultimately show ?thesis using ip_readerD [OF ip_reader_v4_group] by blast
  next
    case 4
    obtain gs' b' r' where rec: "read_groups (i + 1) limit s' = (gs', b', r')" by (metis prod_cases3)
    have "r = r'" using 1(2) 4 rec by (simp add: read_groups.simps [of i limit s])
    moreover obtain u where "s' = u @ r'" "list_all ip_char u" using 1(1) [OF 4 refl rec] by blast
    moreover obtain w where "s = w @ s'" "list_all ip_char w" using ip_readerD [OF ip_reader_hex 4(3)] by blast
    ultimately show ?thesis by (intro exI [of _ "w @ u"]) simp
  qed (use 1(2) in \<open>simp_all add: read_groups.simps [of i limit s]\<close>)
qed

lemma read_ipv6_chars: "read_ipv6_addr s = Some (v, r) \<Longrightarrow> \<exists>u. s = u @ r \<and> list_all ip_char u"
proof -
  assume read: "read_ipv6_addr s = Some (v, r)"
  obtain gs b s1 where head: "read_groups 0 8 s = (gs, b, s1)" by (metis prod_cases3)
  from read_groups_chars [OF head] obtain u where u: "s = u @ s1" "list_all ip_char u" by blast
  show ?thesis
  proof (cases "length gs = 8")
    case True
    then have "r = s1" using read by (simp add: read_ipv6_addr_def head)
    then show ?thesis using u by blast
  next
    case False
    then obtain s2 where "strip_prefix s1 ''::'' = Some s2"
      and rest: "\<exists>ts b'. read_groups 0 (8 - (length gs + 1)) s2 = (ts, b', r)"
      using read by (auto simp: read_ipv6_addr_def head split: if_splits option.splits prod.splits)
    then have s1: "s1 = ''::'' @ s2" by (auto simp: strip_prefix_def starts_with_def prefix_def split: if_splits)
    then obtain w where "s2 = w @ r" "list_all ip_char w" using rest read_groups_chars by blast
    then show ?thesis using u s1 by (intro exI [of _ "u @ ''::'' @ w"]) (simp add: ip_char_def)
  qed
qed

lemma parse_ip_chars: "parse_ip s = Some ip \<Longrightarrow> list_all ip_char s"
  using ip_readerD [OF ip_reader_ipv4, of s] read_ipv6_chars [of s]
  by (fastforce simp: parse_ip_def split: option.splits list.splits prod.splits)

end
