(* ===== verification/Turn_Budget.thy ===== *)
theory Turn_Budget
  imports Ip_Addr
begin

text \<open>
  Time and round budgets of one turn: \<open>crates/cd-core/src/router.rs\<close> (\<open>RouterBudget\<close>,
  \<open>TurnDeadlinePlan\<close>), \<open>deadline_controls.rs\<close> (parsing, formatting and applying deadlines)
  and \<open>multi_stage_budget.rs\<close> (the reserve that protects the final synthesis).

  \<open>providers.rs\<close> gives the provider kinds, profiles and the configuration that selects one.

  Arguments of the model: the host of a profile's URL (crate \<open>url\<close>) is \<open>url_host\<close>, and
  Unicode lower-casing of a query is \<open>lowercase\<close>.
\<close>

section \<open>Router budget\<close>

datatype SourceKind = Memory | Files | Mcp | Sql | Wiki

record RouterBudget =
  max_sources :: usize
  max_tool_rounds :: usize
  max_results_per_source :: usize
  deadline_ms :: u64
  deadline_is_explicit :: bool
  order :: "SourceKind list"

definition default_order :: "SourceKind list" where
  "default_order = [Memory, Files, Mcp, Sql, Wiki]"

definition router_budget_default :: RouterBudget where
  "router_budget_default = \<lparr>max_sources = 3, max_tool_rounds = 12, max_results_per_source = 8,
     deadline_ms = 180000, deadline_is_explicit = False, order = default_order\<rparr>"

definition MIN_DEADLINE_MS :: u64 where "MIN_DEADLINE_MS = 500"
definition MAX_DEADLINE_MS :: u64 where "MAX_DEADLINE_MS = 600000"
definition STANDARD_DEADLINE_MS :: u64 where "STANDARD_DEADLINE_MS = 180000"
definition PATIENT_DEADLINE_MS :: u64 where "PATIENT_DEADLINE_MS = 300000"

definition sanitized :: "RouterBudget \<Rightarrow> RouterBudget" where
  "sanitized b =
     \<lparr>max_sources = clamp (max_sources b) 1 16,
      max_tool_rounds = clamp (max_tool_rounds b) 1 32,
      max_results_per_source = clamp (max_results_per_source b) 1 50,
      deadline_ms = clamp (deadline_ms b) MIN_DEADLINE_MS MAX_DEADLINE_MS,
      deadline_is_explicit = deadline_is_explicit b,
      order = (if order b = [] then default_order else order b)\<rparr>"

definition trail_step :: "RouterBudget \<Rightarrow> string" where
  "trail_step b = ''budget:sources='' @ show_nat (unat (max_sources b))
     @ '',rounds='' @ show_nat (unat (max_tool_rounds b))
     @ '',per_source='' @ show_nat (unat (max_results_per_source b))
     @ '',deadline='' @ show_nat (unat (deadline_ms b))
     @ ''ms,deadline_policy='' @ (if deadline_is_explicit b then ''explicit'' else ''adaptive'')"

subsection \<open>Ranking sources\<close>

fun source_cost :: "SourceKind \<Rightarrow> int" where
  "source_cost Memory = 100"
| "source_cost Files = 90"
| "source_cost Mcp = 50"
| "source_cost Sql = 40"
| "source_cost Wiki = 30"

fun position :: "('a \<Rightarrow> bool) \<Rightarrow> 'a list \<Rightarrow> nat option" where
  "position P [] = None"
| "position P (x # xs) = (if P x then Some 0 else map_option Suc (position P xs))"

text \<open>The bonus \<open>(len - pos) as i32\<close> truncates to 32 bits; the sum is exact, as it is for every
  preference list of fewer than \<open>2 ^ 31 - 180\<close> entries.\<close>

definition source_score :: "string \<Rightarrow> SourceKind list \<Rightarrow> SourceKind \<Rightarrow> int" where
  "source_score q pref k =
     source_cost k
     + (if (contains q ''table'' \<or> contains q ''schema'' \<or> contains q ''sql'') \<and> k = Sql then 80 else 0)
     + (if (contains q ''confluence'' \<or> contains q ''wiki'' \<or> contains q ''runbook'') \<and> k = Wiki
        then 40 else 0)
     + (case position (\<lambda>x. x = k) pref of
          Some pos \<Rightarrow> sint (word_of_nat (length pref - pos) :: 32 word) | None \<Rightarrow> 0)"

definition rank_sources ::
  "(string \<Rightarrow> string) \<Rightarrow> string \<Rightarrow> SourceKind list \<Rightarrow> RouterBudget \<Rightarrow> SourceKind list" where
  "rank_sources lowercase query available b =
     (let q = lowercase query;
          scored = map (\<lambda>k. (source_score q (order b) k, k)) available
      in map snd (take (unat (max_sources b)) (sort_key (\<lambda>sk. - fst sk) scored)))"

section \<open>Providers\<close>

datatype ProviderKind = Ollama | OpenAiCompatible | Anthropic | XaiGrokBuild

datatype ProviderDeadlinePreference = PreferAuto | PreferPatient | PreferStandard

record ProviderCapabilities =
  tools :: bool
  stream :: bool
  embeddings :: bool

definition chat_remote :: ProviderCapabilities where
  "chat_remote = \<lparr>tools = True, stream = True, embeddings = False\<rparr>"

definition local_full :: ProviderCapabilities where
  "local_full = \<lparr>tools = True, stream = True, embeddings = True\<rparr>"

record ProviderDescriptor =
  profile_id_slug :: string
  default_label :: string
  group_label :: string
  needs_api_key :: bool
  is_local :: bool
  default_base_url :: "string option"
  default_capabilities :: ProviderCapabilities

fun descriptor_for :: "ProviderKind \<Rightarrow> ProviderDescriptor" where
  "descriptor_for Ollama = \<lparr>profile_id_slug = ''ollama-local'', default_label = ''Ollama (local)'',
     group_label = ''Ollama'', needs_api_key = False, is_local = True,
     default_base_url = Some ''http://127.0.0.1:11434'', default_capabilities = local_full\<rparr>"
| "descriptor_for OpenAiCompatible = \<lparr>profile_id_slug = ''openai-compatible'',
     default_label = ''OpenAI-compatible gateway'', group_label = ''OpenAI-compatible'',
     needs_api_key = True, is_local = False, default_base_url = None,
     default_capabilities = chat_remote\<rparr>"
| "descriptor_for Anthropic = \<lparr>profile_id_slug = ''anthropic'', default_label = ''Anthropic'',
     group_label = ''Anthropic'', needs_api_key = True, is_local = False,
     default_base_url = Some ''https://api.anthropic.com'', default_capabilities = chat_remote\<rparr>"
| "descriptor_for XaiGrokBuild = \<lparr>profile_id_slug = ''xai-grok-build'',
     default_label = ''Grok Build session'', group_label = ''Grok Build'', needs_api_key = True,
     is_local = False, default_base_url = Some ''https://api.x.ai/v1'',
     default_capabilities = chat_remote\<rparr>"

definition all_provider_kinds :: "ProviderKind list" where
  "all_provider_kinds = [Ollama, OpenAiCompatible, Anthropic, XaiGrokBuild]"

record ProviderProfile =
  profile_id :: string
  label :: string
  kind :: ProviderKind
  base_url :: string
  api_key_ref :: "string option"
  chat_model :: string
  embedding_model :: "string option"
  embedding_base_url :: "string option"
  capabilities :: ProviderCapabilities
  local_only :: bool
  deadline_preference :: ProviderDeadlinePreference

definition ollama_local :: ProviderProfile where
  "ollama_local = \<lparr>profile_id = ''ollama-local'', label = ''Ollama (local)'', kind = Ollama,
     base_url = ''http://127.0.0.1:11434'', api_key_ref = None, chat_model = ''mistral'',
     embedding_model = Some ''nomic-embed-text'', embedding_base_url = None,
     capabilities = \<lparr>tools = True, stream = True, embeddings = True\<rparr>, local_only = True,
     deadline_preference = PreferAuto\<rparr>"

record ProviderConfig =
  active_id :: "string option"
  profiles :: "ProviderProfile list"

definition with_local_ollama :: ProviderConfig where
  "with_local_ollama = \<lparr>active_id = Some (profile_id ollama_local), profiles = [ollama_local]\<rparr>"

definition active :: "ProviderConfig \<Rightarrow> ProviderProfile option" where
  "active c = Option.bind (active_id c) (\<lambda>i. find (\<lambda>p. profile_id p = i) (profiles c))"

text \<open>\<open>iter_mut().find\<close> yields the first profile with the id.\<close>

fun set_tools :: "string \<Rightarrow> bool \<Rightarrow> ProviderProfile list \<Rightarrow> ProviderProfile list \<times> bool" where
  "set_tools i b [] = ([], False)"
| "set_tools i b (p # ps) =
     (if profile_id p = i then (p\<lparr>capabilities := (capabilities p)\<lparr>tools := b\<rparr>\<rparr> # ps, True)
      else (case set_tools i b ps of (qs, found) \<Rightarrow> (p # qs, found)))"

definition set_profile_tools_enabled :: "ProviderConfig \<Rightarrow> string \<Rightarrow> bool \<Rightarrow> ProviderConfig \<times> bool" where
  "set_profile_tools_enabled c i b =
     (case set_tools i b (profiles c) of (ps, found) \<Rightarrow> (c\<lparr>profiles := ps\<rparr>, found))"

section \<open>Deadline plan\<close>

datatype AgentPhase = ChoosingEvidence | RetrievingEvidence | SynthesizingAnswer

record TurnDeadlinePlan =
  total_ms :: u64
  choosing_ms :: u64
  retrieving_ms :: u64
  synthesizing_ms :: u64
  explicit :: bool

fun for_phase :: "TurnDeadlinePlan \<Rightarrow> AgentPhase \<Rightarrow> u64" where
  "for_phase p ChoosingEvidence = choosing_ms p"
| "for_phase p RetrievingEvidence = retrieving_ms p"
| "for_phase p SynthesizingAnswer = synthesizing_ms p"

text \<open>The match at the end of \<open>provider_prefers_patient_deadlines\<close>.\<close>

fun ip_is_private :: "IpAddr \<Rightarrow> bool" where
  "ip_is_private (V4 ip) = (v4_is_private ip \<or> v4_is_loopback ip \<or> v4_is_link_local ip)"
| "ip_is_private (V6 ip) = (v6_is_loopback ip \<or> v6_is_unique_local ip \<or> v6_is_unicast_link_local ip)"

definition provider_prefers_patient_deadlines ::
  "(string \<Rightarrow> string option) \<Rightarrow> ProviderProfile \<Rightarrow> bool" where
  "provider_prefers_patient_deadlines url_host profile =
     (case deadline_preference profile of
        PreferPatient \<Rightarrow> True
      | PreferStandard \<Rightarrow> False
      | PreferAuto \<Rightarrow>
          if kind profile = Ollama \<or> local_only profile then True
          else case url_host (base_url profile) of
            None \<Rightarrow> False
          | Some host \<Rightarrow>
              if to_ascii_lowercase host = ''localhost'' \<or> ends_with host ''.local''
                 \<or> ends_with host ''.lan'' \<or> ends_with host ''.internal'' \<or> ends_with host ''.corp''
                 \<or> ends_with host ''.intranet'' \<or> ends_with host ''.private''
              then True
              else (case parse_ip host of Some ip \<Rightarrow> ip_is_private ip | None \<Rightarrow> False))"

text \<open>The closure \<open>phase\<close>: \<open>u64::clamp\<close> panics when its bounds are crossed (\<open>None\<close>).\<close>

definition phase_ms :: "u64 \<Rightarrow> u64 \<Rightarrow> u64 \<Rightarrow> u64 option" where
  "phase_ms turn_ms numerator denominator =
     (let v = (case checked_div (saturating_mul turn_ms numerator) denominator of
                 Some q \<Rightarrow> q | None \<Rightarrow> turn_ms)
      in if 500 \<le> turn_ms then Some (clamp v 500 turn_ms) else None)"

definition plan_total :: "RouterBudget \<Rightarrow> bool \<Rightarrow> u64" where
  "plan_total budget slow_private =
     (if deadline_is_explicit budget then deadline_ms budget
      else if slow_private then 300000 else 180000)"

definition plan_for_profile ::
  "(string \<Rightarrow> string option) \<Rightarrow> RouterBudget \<Rightarrow> ProviderProfile
     \<Rightarrow> TurnDeadlinePlan option" where
  "plan_for_profile url_host budget0 profile =
     (let budget = sanitized budget0;
          slow_private = provider_prefers_patient_deadlines url_host profile;
          turn_ms = plan_total budget slow_private;
          fractions = (if slow_private then ((2, 5), (1, 3), (3, 5)) else ((3, 8), (3, 5), (5, 8)))
      in case fractions of ((cn, cd), (rn, rd), (sn, sd)) \<Rightarrow>
         Option.bind (phase_ms turn_ms cn cd) (\<lambda>c.
         Option.bind (phase_ms turn_ms rn rd) (\<lambda>r.
         Option.bind (phase_ms turn_ms sn sd) (\<lambda>s.
         Some \<lparr>total_ms = turn_ms, choosing_ms = c, retrieving_ms = r, synthesizing_ms = s,
               explicit = deadline_is_explicit budget\<rparr>))))"

section \<open>Deadline controls\<close>

datatype DeadlineParseError =
    DurationEmpty | InvalidNumber | InvalidUnit | Malformed | Overflow | OutOfRange u64

definition in_deadline_range :: "u64 \<Rightarrow> bool" where
  "in_deadline_range ms \<longleftrightarrow> MIN_DEADLINE_MS \<le> ms \<and> ms \<le> MAX_DEADLINE_MS"

definition parse_deadline_duration :: "string \<Rightarrow> (DeadlineParseError, u64) result" where
  "parse_deadline_duration input =
     (let raw = trim input;
          digits = takeWhile is_ascii_digit raw;
          rest = dropWhile is_ascii_digit raw
      in if raw = [] then Inl DurationEmpty
      else if hd raw = CHR ''+'' \<or> hd raw = CHR ''-'' then Inl InvalidNumber
      else if digits = [] then Inl InvalidNumber
      else if rest \<noteq> [] \<and> (hd rest = CHR ''.'' \<or> hd rest = CHR '','') then Inl InvalidNumber
      else and_then (ok_or Overflow (parse_u64 digits)) (\<lambda>magnitude.
      if magnitude = 0 then Inl InvalidNumber
      else
        (let unit = to_ascii_lowercase rest in
         if unit = [] then Inl InvalidUnit
         else and_then
           (if unit = ''ms'' then Inr magnitude
            else if unit = ''s'' then ok_or Overflow (checked_mul magnitude 1000)
            else if unit = ''m'' then ok_or Overflow (checked_mul magnitude 60000)
            else if list_ex is_whitespace (utf8_chars unit) then Inl Malformed
            else Inl InvalidUnit)
           (\<lambda>ms. if \<not> in_deadline_range ms then Inl (OutOfRange ms) else Inr ms))))"

definition format_deadline_ms :: "u64 \<Rightarrow> string" where
  "format_deadline_ms ms =
     (if ms > 0 \<and> ms mod 60000 = 0 then show_nat (unat (ms div 60000)) @ ''m''
      else if ms > 0 \<and> ms mod 1000 = 0 then show_nat (unat (ms div 1000)) @ ''s''
      else show_nat (unat ms) @ ''ms'')"

datatype DeadlinePolicyMode = AdaptiveMode | ExplicitMode

datatype DeadlinePreset = PresetAuto | PresetStandard | PresetPatient | PresetCustom

definition policy_mode :: "RouterBudget \<Rightarrow> DeadlinePolicyMode" where
  "policy_mode b = (if deadline_is_explicit b then ExplicitMode else AdaptiveMode)"

definition classify_preset :: "RouterBudget \<Rightarrow> DeadlinePreset" where
  "classify_preset b =
     (if \<not> deadline_is_explicit b then PresetAuto
      else if deadline_ms b = STANDARD_DEADLINE_MS then PresetStandard
      else if deadline_ms b = PATIENT_DEADLINE_MS then PresetPatient
      else PresetCustom)"

definition apply_auto_policy :: "RouterBudget \<Rightarrow> RouterBudget" where
  "apply_auto_policy b = b\<lparr>deadline_is_explicit := False\<rparr>"

definition apply_standard_preset :: "RouterBudget \<Rightarrow> RouterBudget" where
  "apply_standard_preset b = b\<lparr>deadline_ms := STANDARD_DEADLINE_MS, deadline_is_explicit := True\<rparr>"

definition apply_patient_preset :: "RouterBudget \<Rightarrow> RouterBudget" where
  "apply_patient_preset b = b\<lparr>deadline_ms := PATIENT_DEADLINE_MS, deadline_is_explicit := True\<rparr>"

definition apply_explicit_deadline_ms ::
  "RouterBudget \<Rightarrow> u64 \<Rightarrow> (DeadlineParseError, RouterBudget) result" where
  "apply_explicit_deadline_ms b ms =
     (if \<not> in_deadline_range ms then Inl (OutOfRange ms)
      else Inr (b\<lparr>deadline_ms := ms, deadline_is_explicit := True\<rparr>))"

definition apply_turn_override ::
  "RouterBudget \<Rightarrow> u64 \<Rightarrow> (DeadlineParseError, RouterBudget) result" where
  "apply_turn_override b ms = apply_explicit_deadline_ms b ms"

definition DEADLINE_STATUS_SCHEMA :: string where
  "DEADLINE_STATUS_SCHEMA = ''contextdesk.deadline.v1''"

record DeadlineStatus =
  schema :: string
  policy :: DeadlinePolicyMode
  status_deadline_ms :: u64
  deadline_human :: string
  status_is_explicit :: bool
  min_ms :: u64
  max_ms :: u64
  standard_ms :: u64
  patient_ms :: u64

definition deadline_status :: "RouterBudget \<Rightarrow> DeadlineStatus" where
  "deadline_status b = \<lparr>schema = DEADLINE_STATUS_SCHEMA, policy = policy_mode b,
     status_deadline_ms = deadline_ms b, deadline_human = format_deadline_ms (deadline_ms b),
     status_is_explicit = deadline_is_explicit b, min_ms = MIN_DEADLINE_MS,
     max_ms = MAX_DEADLINE_MS, standard_ms = STANDARD_DEADLINE_MS,
     patient_ms = PATIENT_DEADLINE_MS\<rparr>"

section \<open>Synthesis reserve\<close>

definition MULTI_STAGE_BUDGET_POLICY_V2 :: string where
  "MULTI_STAGE_BUDGET_POLICY_V2 = ''contextdesk.multi_stage_budget.v2''"

datatype AdmissionDenial = TimeReserve | RoundReserve | TurnCancelled | Deadline

record AdmissionSnapshot =
  remaining_total_ms :: "u64 option"
  used_rounds :: usize
  max_rounds :: usize
  cancelled :: bool

record SynthesisReserve =
  policy_id :: string
  time_reserve_ms :: u64
  round_reserve :: usize

definition synthesis_reserve :: "TurnDeadlinePlan \<Rightarrow> SynthesisReserve" where
  "synthesis_reserve plan =
     (if total_ms plan = 0 then \<lparr>policy_id = MULTI_STAGE_BUDGET_POLICY_V2, time_reserve_ms = 0, round_reserve = 1\<rparr>
      else
        (let half_turn = max (total_ms plan div 2) 1;
             time_reserve = (if half_turn \<ge> total_ms plan then saturating_sub (total_ms plan) 1
                             else half_turn)
         in \<lparr>policy_id = MULTI_STAGE_BUDGET_POLICY_V2, time_reserve_ms = time_reserve, round_reserve = 1\<rparr>))"

definition admit_candidate ::
  "AdmissionSnapshot \<Rightarrow> SynthesisReserve \<Rightarrow> (AdmissionDenial, unit) result" where
  "admit_candidate snapshot reserve =
     (if cancelled snapshot then Inl TurnCancelled
      else if remaining_total_ms snapshot = Some 0 then Inl Deadline
      else if saturating_add (saturating_add (used_rounds snapshot) 1) (round_reserve reserve)
           > max_rounds snapshot then Inl RoundReserve
      else case remaining_total_ms snapshot of
        Some remaining \<Rightarrow> if remaining \<le> time_reserve_ms reserve then Inl TimeReserve else Inr ()
      | None \<Rightarrow> Inr ())"

definition candidate_operation_cap_ms ::
  "u64 option \<Rightarrow> u64 \<Rightarrow> SynthesisReserve \<Rightarrow> u64 option" where
  "candidate_operation_cap_ms remaining phase_cap reserve =
     map_option (\<lambda>r. min (saturating_sub r (time_reserve_ms reserve)) phase_cap) remaining"

definition synthesis_operation_cap_ms :: "u64 option \<Rightarrow> u64 \<Rightarrow> u64 option" where
  "synthesis_operation_cap_ms remaining phase_cap = map_option (\<lambda>r. min r phase_cap) remaining"

definition can_run_comparison :: "usize \<Rightarrow> AdmissionSnapshot \<Rightarrow> bool" where
  "can_run_comparison draft_count snapshot =
     (if draft_count < 2 then False
      else if cancelled snapshot then False
      else if remaining_total_ms snapshot = Some 0 then False
      else \<not> saturating_add (used_rounds snapshot) 1 > max_rounds snapshot)"

section \<open>Bounds\<close>

lemma sanitized_deadline: "500 \<le> deadline_ms (sanitized b) \<and> deadline_ms (sanitized b) \<le> 600000"
  using clamp_bounds [of MIN_DEADLINE_MS MAX_DEADLINE_MS "deadline_ms b"]
  by (simp add: sanitized_def MIN_DEADLINE_MS_def MAX_DEADLINE_MS_def)

lemma plan_total_bounds:
  "500 \<le> plan_total (sanitized b) slow \<and> plan_total (sanitized b) slow \<le> 600000"
  using sanitized_deadline [of b] by (simp add: plan_total_def)

lemma phase_ms_bounds:
  "500 \<le> turn_ms \<Longrightarrow> \<exists>v. phase_ms turn_ms a d = Some v \<and> 500 \<le> v \<and> v \<le> turn_ms"
  using clamp_bounds [of 500 turn_ms] by (simp add: phase_ms_def Let_def)

lemma plan_for_profile_bounds:
  obtains p where "plan_for_profile url_host b profile = Some p"
    and "500 \<le> total_ms p" "total_ms p \<le> 600000" "\<And>ph. 500 \<le> for_phase p ph \<and> for_phase p ph \<le> total_ms p"
    and "explicit p = deadline_is_explicit b"
    and "deadline_is_explicit b \<Longrightarrow> total_ms p = clamp (deadline_ms b) 500 600000"
proof -
  let ?slow = "provider_prefers_patient_deadlines url_host profile"
  let ?t = "plan_total (sanitized b) ?slow"
  let ?f = "(if ?slow then ((2, 5), (1, 3), (3, 5)) else ((3, 8), (3, 5), (5, 8)))
      :: (u64 \<times> u64) \<times> (u64 \<times> u64) \<times> (u64 \<times> u64)"
  obtain cn cd rn rd sn sd where f: "?f = ((cn, cd), (rn, rd), (sn, sd))" by (metis surj_pair)
  have t: "500 \<le> ?t" "?t \<le> 600000" using plan_total_bounds by auto
  obtain c r q where v: "phase_ms ?t cn cd = Some c" "500 \<le> c \<and> c \<le> ?t"
    "phase_ms ?t rn rd = Some r" "500 \<le> r \<and> r \<le> ?t" "phase_ms ?t sn sd = Some q" "500 \<le> q \<and> q \<le> ?t"
    using phase_ms_bounds [OF t(1)] by metis
  let ?p = "\<lparr>total_ms = ?t, choosing_ms = c, retrieving_ms = r, synthesizing_ms = q,
      explicit = deadline_is_explicit b\<rparr>"
  show thesis
  proof (rule that [of ?p])
    show "plan_for_profile url_host b profile = Some ?p"
      using v f by (simp add: plan_for_profile_def Let_def sanitized_def split: if_splits)
    show "500 \<le> for_phase ?p ph \<and> for_phase ?p ph \<le> total_ms ?p" for ph
      using v by (cases ph) simp_all
    show "total_ms ?p = clamp (deadline_ms b) 500 600000" if "deadline_is_explicit b"
      using that by (simp add: plan_total_def sanitized_def MIN_DEADLINE_MS_def MAX_DEADLINE_MS_def)
  qed (use t in simp_all)
qed

section \<open>Printing and parsing durations\<close>

lemma ascii_digit_cases: "is_ascii_digit c \<Longrightarrow> c \<in> set ''0123456789''"
proof -
  assume "is_ascii_digit c"
  then have "(of_char c :: nat) \<in> set [48..<58]"
    unfolding set_upt is_ascii_digit_def atLeastLessThan_iff by linarith
  then have "char_of (of_char c :: nat) \<in> char_of ` set [48..<58]" by (rule imageI)
  moreover have "char_of ` set [48..<58 :: nat] = set ''0123456789''" by code_simp
  ultimately show ?thesis by (simp only: char_of_char)
qed

definition plain_char :: "char \<Rightarrow> bool" where
  "plain_char c \<longleftrightarrow> \<not> is_cont_byte c \<and> \<not> is_whitespace [c]"

lemma plain_digit: "is_ascii_digit c \<Longrightarrow> plain_char c"
proof -
  have "list_all plain_char ''0123456789''" by code_simp
  then show "is_ascii_digit c \<Longrightarrow> plain_char c"
    using ascii_digit_cases by (auto simp only: list_all_iff)
qed

lemma utf8_chars_plain: "list_all plain_char s \<Longrightarrow> utf8_chars s = map (\<lambda>c. [c]) s"
proof (induction s)
  case (Cons c s)
  then have "s = [] \<or> \<not> is_cont_byte (hd s)" by (cases s) (auto simp: plain_char_def)
  with Cons show ?case by (simp add: takeWhile_Nil dropWhile_id)
qed simp

lemma trim_plain: "list_all plain_char s \<Longrightarrow> trim s = s"
proof -
  assume s: "list_all plain_char s"
  let ?us = "map (\<lambda>c. [c]) s"
  have ws: "\<forall>u \<in> set ?us. \<not> is_whitespace u" using s by (auto simp: list_all_iff plain_char_def)
  then have "dropWhile is_whitespace ?us = ?us"
    by (intro dropWhile_id) (metis list.set_sel(1))
  moreover have "drop_end is_whitespace ?us = ?us"
    using ws by (intro drop_end_id) (metis last_in_set)
  ultimately have "trim s = concat ?us"
    by (simp only: trim_def utf8_chars_plain [OF s] trim_chars_def)
  then show ?thesis by simp
qed

lemma parse_number_unit:
  assumes "list_all plain_char unit" and "unit \<noteq> []" and "\<not> is_ascii_digit (hd unit)"
    and "hd unit \<noteq> CHR ''.''" and "hd unit \<noteq> CHR '',''" and "n \<noteq> 0"
  shows "parse_deadline_duration (show_nat (unat n) @ unit) =
     (let u = to_ascii_lowercase unit in and_then
        (if u = ''ms'' then Inr n
         else if u = ''s'' then ok_or Overflow (checked_mul n 1000)
         else if u = ''m'' then ok_or Overflow (checked_mul n 60000)
         else if list_ex is_whitespace (utf8_chars u) then Inl Malformed else Inl InvalidUnit)
        (\<lambda>ms. if \<not> in_deadline_range ms then Inl (OutOfRange ms) else Inr ms))"
proof -
  let ?d = "show_nat (unat n)"
  have digits: "list_all is_ascii_digit ?d" by (rule show_nat_digits)
  then have "list_all plain_char (?d @ unit)"
    using assms(1) plain_digit by (auto simp: list_all_iff)
  note trim = trim_plain [OF this]
  have tw: "takeWhile is_ascii_digit (?d @ unit) = ?d" "dropWhile is_ascii_digit (?d @ unit) = unit"
    using digits assms(2,3) by (auto simp: list_all_iff takeWhile_append2 dropWhile_append2
        takeWhile_Nil dropWhile_id)
  have "is_ascii_digit (hd ?d)" using digits by (cases ?d) auto
  then have hd: "hd ?d \<noteq> CHR ''+''" "hd ?d \<noteq> CHR ''-''" by (auto simp: is_ascii_digit_def)
  have "to_ascii_lowercase unit \<noteq> []" using assms(2) by (simp add: to_ascii_lowercase_def)
  then show ?thesis
    using assms hd by (simp add: parse_deadline_duration_def trim tw parse_u64_show_nat ok_or_def Let_def)
qed

lemma div_mult_exact: "ms mod k = 0 \<Longrightarrow> (ms div k) * k = ms" for ms k :: u64
  by (metis add.right_neutral div_mult_mod_eq)

lemma checked_mul_div:
  fixes ms k :: u64
  assumes "ms mod k = 0"
  shows "checked_mul (ms div k) k = Some ms"
proof -
  have "unat (ms div k) * unat k = unat ms div unat k * unat k" by (simp add: unat_div_distrib)
  also have "\<dots> \<le> unat ms" by simp
  also have "\<dots> < 2 ^ 64" using unsigned_less [of ms] by simp
  finally show ?thesis by (simp add: checked_mul_def div_mult_exact [OF assms])
qed

lemma format_parse_deadline:
  assumes "in_deadline_range ms"
  shows "parse_deadline_duration (format_deadline_ms ms) = Inr ms"
proof -
  have pos: "ms \<noteq> 0"
    using assms by (auto simp: in_deadline_range_def MIN_DEADLINE_MS_def)
  then have gt: "ms > 0" by (simp add: word_neq_0_conv)
  have units: "list_all plain_char ''m''" "list_all plain_char ''s''" "list_all plain_char ''ms''"
    by code_simp+
  have lower: "to_ascii_lowercase ''m'' = ''m''" "to_ascii_lowercase ''s'' = ''s''"
    "to_ascii_lowercase ''ms'' = ''ms''" by code_simp+
  have nodigit: "\<not> is_ascii_digit (CHR ''m'')" "\<not> is_ascii_digit (CHR ''s'')" by code_simp+
  have div: "ms div k \<noteq> 0" if "ms mod k = 0" for k
    using div_mult_exact [OF that] pos by auto
  consider "ms mod 60000 = 0" | "ms mod 60000 \<noteq> 0" "ms mod 1000 = 0" | "ms mod 60000 \<noteq> 0" "ms mod 1000 \<noteq> 0"
    by blast
  then show ?thesis
  proof cases
    case 1
    then show ?thesis
      using parse_number_unit [OF units(1), of "ms div 60000"] assms gt div [OF 1] checked_mul_div [OF 1]
      by (simp add: format_deadline_ms_def lower nodigit ok_or_def Let_def)
  next
    case 2
    then show ?thesis
      using parse_number_unit [OF units(2), of "ms div 1000"] assms gt div [OF 2(2)] checked_mul_div [OF 2(2)]
      by (simp add: format_deadline_ms_def lower nodigit ok_or_def Let_def)
  next
    case 3
    then show ?thesis
      using parse_number_unit [OF units(3), of ms] assms pos
      by (simp add: format_deadline_ms_def lower nodigit ok_or_def Let_def)
  qed
qed

lemma parse_deadline_range: "parse_deadline_duration input = Inr ms \<Longrightarrow> in_deadline_range ms"
  by (auto simp: parse_deadline_duration_def Let_def split: if_splits)

section \<open>The reserve survives every admitted candidate\<close>

lemma synthesis_reserve_bounds:
  "total_ms plan \<noteq> 0 \<Longrightarrow> time_reserve_ms (synthesis_reserve plan) < total_ms plan"
  "total_ms plan \<ge> 2 \<Longrightarrow> time_reserve_ms (synthesis_reserve plan) > 0"
  "round_reserve (synthesis_reserve plan) = 1"
proof -
  show "round_reserve (synthesis_reserve plan) = 1" by (simp add: synthesis_reserve_def Let_def)
  show "time_reserve_ms (synthesis_reserve plan) < total_ms plan" if "total_ms plan \<noteq> 0"
  proof -
    have "0 < unat (total_ms plan)" using that by (simp add: unat_gt_0)
    then show ?thesis using that
      by (auto simp: synthesis_reserve_def Let_def word_less_nat_alt unat_saturating_sub not_le
          word_le_nat_alt max_def unat_div_distrib)
  qed
  show "time_reserve_ms (synthesis_reserve plan) > 0" if "total_ms plan \<ge> 2"
    using that
    by (auto simp: synthesis_reserve_def Let_def word_less_nat_alt unat_saturating_sub word_le_nat_alt max_def)
qed

text \<open>
  The budget side of one iteration of the candidate loop in \<open>agent.rs\<close>: an admitted candidate is
  charged one round and runs for at most its operation cap; \<open>cost\<close> is the time the call would take.
\<close>

definition candidate_round ::
  "SynthesisReserve \<Rightarrow> u64 \<Rightarrow> AdmissionSnapshot \<Rightarrow> u64 \<Rightarrow> AdmissionSnapshot" where
  "candidate_round reserve phase_cap snapshot cost =
     (case admit_candidate snapshot reserve of
        Inl denial \<Rightarrow> snapshot
      | Inr u \<Rightarrow> snapshot\<lparr>used_rounds := saturating_add (used_rounds snapshot) 1,
          remaining_total_ms := map_option (\<lambda>r. r - (case candidate_operation_cap_ms
              (remaining_total_ms snapshot) phase_cap reserve of None \<Rightarrow> cost | Some cap \<Rightarrow> min cost cap))
            (remaining_total_ms snapshot)\<rparr>)"

definition reserve_kept :: "SynthesisReserve \<Rightarrow> usize \<Rightarrow> AdmissionSnapshot \<Rightarrow> bool" where
  "reserve_kept reserve rounds snapshot \<longleftrightarrow>
     max_rounds snapshot = rounds \<and> unat rounds < 2 ^ 64 - 1
     \<and> unat (used_rounds snapshot) + unat (round_reserve reserve) \<le> unat rounds
     \<and> (case remaining_total_ms snapshot of None \<Rightarrow> True | Some r \<Rightarrow> time_reserve_ms reserve \<le> r)"

lemma capped_time_left:
  fixes r :: u64
  assumes "reserve < r"
  shows "reserve \<le> r - min cost (min (saturating_sub r reserve) cap)"
proof -
  let ?d = "min cost (min (saturating_sub r reserve) cap)"
  have d: "unat ?d \<le> unat r - unat reserve"
    by (simp add: unat_saturating_sub min_def word_le_nat_alt)
  then have "?d \<le> r" by (simp add: word_le_nat_alt)
  then have "unat (r - ?d) = unat r - unat ?d" by (rule unat_sub)
  then show ?thesis using assms d unfolding word_le_nat_alt word_less_nat_alt by linarith
qed

lemma candidate_round_keeps:
  assumes inv: "reserve_kept reserve rounds snapshot"
  shows "reserve_kept reserve rounds (candidate_round reserve phase_cap snapshot cost)"
proof (cases "admit_candidate snapshot reserve")
  case (Inl denial)
  then show ?thesis using inv by (simp add: candidate_round_def)
next
  case (Inr u)
  let ?u = "unat (used_rounds snapshot)" and ?rr = "unat (round_reserve reserve)"
  have adm: "\<not> saturating_add (saturating_add (used_rounds snapshot) 1) (round_reserve reserve) > max_rounds snapshot"
    using Inr by (auto simp: admit_candidate_def split: if_splits)
  have time: "time_reserve_ms reserve < r" if "remaining_total_ms snapshot = Some r" for r
    using Inr that by (auto simp: admit_candidate_def not_le split: if_splits)
  have "min (min (?u + 1) (2 ^ 64 - 1) + ?rr) (2 ^ 64 - 1) \<le> unat rounds"
    using adm inv by (simp add: reserve_kept_def word_less_nat_alt unat_saturating_add not_less)
  moreover have small: "unat rounds < 2 ^ 64 - 1" "?u \<le> unat rounds"
    using inv by (simp_all add: reserve_kept_def)
  ultimately have "?u + 1 + ?rr \<le> unat rounds" by linarith
  moreover have "unat (saturating_add (used_rounds snapshot) 1) = ?u + 1"
    using small by (simp add: unat_saturating_add)
  ultimately show ?thesis
    using Inr inv time
    by (auto simp: reserve_kept_def candidate_round_def candidate_operation_cap_ms_def
        intro: capped_time_left split: option.splits)
qed

interpretation candidates: step_machine "candidate_round reserve phase_cap" "reserve_kept reserve rounds"
  for reserve phase_cap rounds
  by unfold_locales (rule candidate_round_keeps)

lemma candidate_round_cancelled [simp]:
  "cancelled (candidate_round reserve phase_cap snapshot cost) = cancelled snapshot"
  by (simp add: candidate_round_def split: sum.splits)

lemma candidate_rounds_cancelled [simp]:
  "cancelled (foldl (candidate_round reserve phase_cap) snapshot costs) = cancelled snapshot"
  by (induction costs arbitrary: snapshot) simp_all

lemma candidate_rounds_timed:
  "remaining_total_ms snapshot \<noteq> None
     \<Longrightarrow> remaining_total_ms (foldl (candidate_round reserve phase_cap) snapshot costs) \<noteq> None"
  by (induction costs arbitrary: snapshot) (auto simp: candidate_round_def split: sum.splits)

lemma reserve_kept_comparison:
  assumes "reserve_kept reserve rounds snapshot" and "0 < time_reserve_ms reserve"
    and "0 < round_reserve reserve" and "\<not> cancelled snapshot" and "2 \<le> draft_count"
  shows "can_run_comparison draft_count snapshot"
proof -
  have "0 < unat (round_reserve reserve)" using assms(3) by (simp add: unat_gt_0 word_neq_0_conv)
  then have "unat (used_rounds snapshot) + 1 \<le> unat (max_rounds snapshot)"
    using assms(1) by (auto simp: reserve_kept_def)
  then have "\<not> saturating_add (used_rounds snapshot) 1 > max_rounds snapshot"
    by (simp add: word_less_nat_alt unat_saturating_add not_less)
  moreover have "remaining_total_ms snapshot \<noteq> Some 0"
    using assms(1,2) by (auto simp: reserve_kept_def)
  ultimately show ?thesis using assms(4,5) by (auto simp: can_run_comparison_def)
qed

end
