(* ===== verification/Fast_Route.thy ===== *)
theory Fast_Route
  imports Fast_Prompt Turn_Budget Answer_Render
begin

text \<open>
  \<open>crates/cd-core/src/fast_triage/selection.rs\<close>, \<open>telemetry.rs\<close> and \<open>route.rs\<close>: selection of the fast
  route from persisted records and the bounded driver that calls the model. A backend is a function on
  the state of the world \<open>'w\<close>: given the messages it returns the streamed fragments, how the awaited
  call resolved, and the next world. The host's cancel flag and the elapsed time are read from the
  world. \<open>TimedOut\<close> and \<open>CancelObserved\<close> are the two ways the surrounding \<open>select!\<close> of
  \<open>within_turn_deadline\<close> ends a pending call.
\<close>

section \<open>Selection\<close>

datatype FastTriageWorkflowContract = HostGroundedSynthesisCompletePacket

datatype FastTriageRouteVerdict = Qualified | Unqualified | Inconclusive

record FastTriageRouteRecord =
  rr_profile_id :: string
  rr_model_id :: string
  rr_workflow_contract :: FastTriageWorkflowContract
  rr_verdict :: FastTriageRouteVerdict
  rr_contract_fingerprint :: string

record FastTriageRouteRequest =
  rq_enabled :: bool
  rq_profile_id :: "string option"
  rq_model_id :: "string option"
  rq_workflow_contract :: FastTriageWorkflowContract
  rq_contract_fingerprint :: string

datatype FastTriageRouteRejection =
    RouteDisabled | TurnIdentityUnknown | NoRecordForProfileModel | WorkflowContractMismatch
  | VerdictNotQualified | ContractFingerprintStale | PacketExceedsContextBudget

record FastTriageRoleBinding =
  rb_profile_id :: string
  rb_model_id :: string

record SelectedFastRoute =
  sel_role :: FastTriageRoleBinding
  sel_workflow_contract :: FastTriageWorkflowContract
  sel_contract_fingerprint :: string

datatype FastTriageRouteSelection = Selected SelectedFastRoute | NotSelected FastTriageRouteRejection

definition select_fast_triage_route ::
  "FastTriageRouteRecord list \<Rightarrow> FastTriageRouteRequest \<Rightarrow> FastTriageRouteSelection" where
  "select_fast_triage_route records request =
     (if \<not> rq_enabled request then NotSelected RouteDisabled
      else case (rq_profile_id request, rq_model_id request) of
        (Some pid, Some mid) \<Rightarrow>
          if trim pid = [] \<or> trim mid = [] then NotSelected TurnIdentityUnknown
          else
            (let for_pair = filter (\<lambda>r. rr_profile_id r = pid \<and> rr_model_id r = mid) records in
             if for_pair = [] then NotSelected NoRecordForProfileModel
             else
               (let for_contract = filter (\<lambda>r. rr_workflow_contract r = rq_workflow_contract request) for_pair in
                if for_contract = [] then NotSelected WorkflowContractMismatch
                else
                  (let qualified = filter (\<lambda>r. rr_verdict r = Qualified) for_contract in
                   if qualified = [] then NotSelected VerdictNotQualified
                   else if list_ex (\<lambda>r. rr_contract_fingerprint r \<noteq> rq_contract_fingerprint request) qualified
                   then NotSelected ContractFingerprintStale
                   else Selected \<lparr>sel_role = \<lparr>rb_profile_id = pid, rb_model_id = mid\<rparr>,
                          sel_workflow_contract = rq_workflow_contract request,
                          sel_contract_fingerprint = rq_contract_fingerprint request\<rparr>)))
      | _ \<Rightarrow> NotSelected TurnIdentityUnknown)"

section \<open>Telemetry\<close>

definition FAST_TRIAGE_TELEMETRY_SCHEMA_V1 :: string where
  "FAST_TRIAGE_TELEMETRY_SCHEMA_V1 = ''contextdesk.fast_triage.telemetry.v1''"

datatype FastTriageStage = Primary | Correction | Escalation

fun stage_str :: "FastTriageStage \<Rightarrow> string" where
  "stage_str Primary = ''primary''"
| "stage_str Correction = ''correction''"
| "stage_str Escalation = ''escalation''"

datatype FastTriageAttemptOutcome =
    AttemptAccepted | AttemptRejected | AttemptProviderFailed | AttemptDeadline | AttemptCancelled

fun attempt_outcome_str :: "FastTriageAttemptOutcome \<Rightarrow> string" where
  "attempt_outcome_str AttemptAccepted = ''accepted''"
| "attempt_outcome_str AttemptRejected = ''rejected''"
| "attempt_outcome_str AttemptProviderFailed = ''provider_failed''"
| "attempt_outcome_str AttemptDeadline = ''deadline''"
| "attempt_outcome_str AttemptCancelled = ''cancelled''"

record FastTriageAttemptTelemetry =
  at_stage :: FastTriageStage
  at_profile_id :: string
  at_model_id :: string
  at_terminal_state :: "FastTriageTerminalState option"
  at_reasoning_present :: bool
  at_reasoning_chars :: nat
  at_visible_chars :: nat
  at_tool_calls :: nat
  at_outcome :: FastTriageAttemptOutcome
  at_categories :: "FastTriageFailureCategory list"

datatype FastTriageEscalationState =
    EscNotRequested | EscNotConfigured | EscNotAuthorized | EscRequested | EscSucceeded | EscFailed
  | EscPacketIdentityChanged

record FastTriageEscalationTelemetry =
  esc_state :: FastTriageEscalationState
  esc_profile_id :: "string option"
  esc_model_id :: "string option"
  esc_packet_id :: "string option"

definition not_requested :: FastTriageEscalationTelemetry where
  "not_requested = \<lparr>esc_state = EscNotRequested, esc_profile_id = None, esc_model_id = None, esc_packet_id = None\<rparr>"

datatype FastTriageOutcomeLabel =
    LblNotSelected | LblVerifiedFastAnswer | LblVerifiedAfterCorrection | LblVerifiedAfterEscalation
  | LblPartialInconclusive | LblEscalationRequested | LblCancelled | LblDeadline | LblProviderFailed

definition is_verified :: "FastTriageOutcomeLabel \<Rightarrow> bool" where
  "is_verified l \<longleftrightarrow> l \<in> {LblVerifiedFastAnswer, LblVerifiedAfterCorrection, LblVerifiedAfterEscalation}"

record FastTriagePacketTelemetry =
  pt_packet_id :: string
  pt_candidate_count :: nat
  pt_evidence_row_count :: nat
  pt_independent_row_count :: nat
  pt_role_evidence :: FastTriageRoleEvidence
  pt_timeline_complete :: bool

definition from_packet :: "FastTriagePacketV1 \<Rightarrow> FastTriagePacketTelemetry" where
  "from_packet p =
     \<lparr>pt_packet_id = pk_packet_id p, pt_candidate_count = card (packet_candidate_ids p),
      pt_evidence_row_count = length (pk_rows p),
      pt_independent_row_count = length (filter (\<lambda>row. pr_scope row = ScopeIndependent) (pk_rows p)),
      pt_role_evidence = role_evidence p, pt_timeline_complete = pk_timeline_complete p\<rparr>"

record FastTriageTelemetryV1 =
  tl_schema :: string
  tl_route_selected :: bool
  tl_selection_rejection :: "FastTriageRouteRejection option"
  tl_workflow_contract :: FastTriageWorkflowContract
  tl_contract_fingerprint :: string
  tl_role :: "FastTriageRoleBinding option"
  tl_packet :: "FastTriagePacketTelemetry option"
  tl_attempts :: "FastTriageAttemptTelemetry list"
  tl_provider_attempts :: u32
  tl_correction_used :: bool
  tl_correction_category :: "FastTriageFailureCategory option"
  tl_validation_categories :: "FastTriageFailureCategory list"
  tl_escalation :: FastTriageEscalationTelemetry
  tl_deadline_ms :: u64
  tl_outcome :: FastTriageOutcomeLabel

section \<open>One attempt\<close>

definition FAST_TRIAGE_MAX_CORRECTIONS :: u8 where
  "FAST_TRIAGE_MAX_CORRECTIONS = 1"

definition FAST_TRIAGE_RESPONSE_CHAR_CAP :: nat where
  "FAST_TRIAGE_RESPONSE_CHAR_CAP = 32000"

record FastTriageFallback =
  fb_profile_id :: string
  fb_model_id :: string
  fb_authorized :: bool

record FastTriageBudget =
  bud_deadline_ms :: u64
  bud_context_char_budget :: nat
  bud_max_corrections :: u8

definition effective_corrections :: "FastTriageBudget \<Rightarrow> u8" where
  "effective_corrections b = min (bud_max_corrections b) FAST_TRIAGE_MAX_CORRECTIONS"

definition flat_plan :: "u64 \<Rightarrow> TurnDeadlinePlan" where
  "flat_plan ms = \<lparr>total_ms = ms, choosing_ms = ms, retrieving_ms = ms, synthesizing_ms = ms,
     explicit = ms > 0\<rparr>"

record BoundedStream =
  bs_text :: string
  bs_chars :: nat
  bs_exceeded :: bool

definition stream_new :: BoundedStream where
  "stream_new = \<lparr>bs_text = [], bs_chars = 0, bs_exceeded = False\<rparr>"

fun stream_chars :: "BoundedStream \<Rightarrow> string list \<Rightarrow> BoundedStream" where
  "stream_chars s [] = s"
| "stream_chars s (c # cs) =
     (if bs_chars s \<ge> FAST_TRIAGE_RESPONSE_CHAR_CAP then s\<lparr>bs_exceeded := True\<rparr>
      else stream_chars (s\<lparr>bs_text := bs_text s @ c, bs_chars := bs_chars s + 1\<rparr>) cs)"

definition stream_push :: "BoundedStream \<Rightarrow> string \<Rightarrow> BoundedStream" where
  "stream_push s fragment = (if bs_exceeded s then s else stream_chars s (utf8_chars fragment))"

definition stream_take :: "BoundedStream \<Rightarrow> string" where
  "stream_take s = (if bs_exceeded s then [] else bs_text s)"

record RunTelemetry =
  run_attempts :: "FastTriageAttemptTelemetry list"
  run_provider_attempts :: u32
  run_correction_used :: bool
  run_correction_category :: "FastTriageFailureCategory option"
  run_validation_categories :: "FastTriageFailureCategory list"
  run_escalation :: FastTriageEscalationTelemetry

definition run_new :: RunTelemetry where
  "run_new = \<lparr>run_attempts = [], run_provider_attempts = 0, run_correction_used = False,
     run_correction_category = None, run_validation_categories = [], run_escalation = not_requested\<rparr>"

datatype 'e AttemptResult =
    ResAccepted AnswerEnvelopeV1
  | ResRejected "FastTriageFailureCategory list"
  | ResCancelled
  | ResDeadline
  | ResProviderFailed 'e

text \<open>How an awaited provider call ends.\<close>

datatype 'e call_end = Completed "('e, ChatCompletion) result" | TimedOut | CancelObserved

type_synonym ('w, 'e) backend = "'w \<Rightarrow> ChatMessage list \<Rightarrow> (string list \<times> 'e call_end) \<times> 'w"

record 'w host =
  cancel_flag :: "'w \<Rightarrow> bool"
  elapsed_ns :: "'w \<Rightarrow> nat"

definition remaining_for_operation :: "TurnDeadlinePlan \<Rightarrow> AgentPhase \<Rightarrow> nat \<Rightarrow> nat option" where
  "remaining_for_operation plan phase elapsed =
     (if total_ms plan = 0 then None
      else Some (min (unat (total_ms plan) * 1000000 - elapsed) (unat (for_phase plan phase) * 1000000)))"

datatype TurnAwaitError = AwaitCancelled | AwaitDeadline

definition within_turn_deadline ::
  "'w host \<Rightarrow> TurnDeadlinePlan \<Rightarrow> ('w, 'e) backend \<Rightarrow> ChatMessage list \<Rightarrow> 'w
     \<Rightarrow> (TurnAwaitError, ('e, ChatCompletion) result) result \<times> string list \<times> 'w" where
  "within_turn_deadline host plan backend messages w =
     (if cancel_flag host w then (Inl AwaitCancelled, [], w)
      else if remaining_for_operation plan ChoosingEvidence (elapsed_ns host w) = Some 0
      then (Inl AwaitDeadline, [], w)
      else (case backend w messages of ((fragments, e), w') \<Rightarrow>
        ((case e of Completed r \<Rightarrow> Inr r | TimedOut \<Rightarrow> Inl AwaitDeadline | CancelObserved \<Rightarrow> Inl AwaitCancelled),
         fragments, w')))"

record FastTriageStageEvent =
  se_stage :: FastTriageStage
  se_started :: bool
  se_outcome :: "FastTriageAttemptOutcome option"
  se_detail :: string

definition started_event ::
  "(json \<Rightarrow> string) \<Rightarrow> FastTriageStage \<Rightarrow> FastTriageRoleBinding \<Rightarrow> FastTriagePacketV1 \<Rightarrow> RunTelemetry
     \<Rightarrow> FastTriageStageEvent" where
  "started_event J stage role packet run =
     \<lparr>se_stage = stage, se_started = True, se_outcome = None, se_detail = J (JObject
       [(''schema'', JString FAST_TRIAGE_TELEMETRY_SCHEMA_V1), (''stage'', JString (stage_str stage)),
        (''profile_id'', JString (rb_profile_id role)), (''model_id'', JString (rb_model_id role)),
        (''packet_id'', JString (pk_packet_id packet)),
        (''provider_attempts'', JNumber (show_nat (unat (run_provider_attempts run))))])\<rparr>"

definition emit_finished ::
  "(json \<Rightarrow> string) \<Rightarrow> FastTriageStage \<Rightarrow> FastTriageAttemptOutcome \<Rightarrow> FastTriagePacketV1 \<Rightarrow> RunTelemetry
     \<Rightarrow> FastTriageStageEvent" where
  "emit_finished J stage outcome packet run =
     \<lparr>se_stage = stage, se_started = False, se_outcome = Some outcome, se_detail = J (JObject
       [(''schema'', JString FAST_TRIAGE_TELEMETRY_SCHEMA_V1), (''stage'', JString (stage_str stage)),
        (''outcome'', JString (attempt_outcome_str outcome)), (''packet_id'', JString (pk_packet_id packet)),
        (''provider_attempts'', JNumber (show_nat (unat (run_provider_attempts run)))),
        (''validation_categories'', JArray (map (\<lambda>c. JString (failure_str c)) (run_validation_categories run)))])\<rparr>"

definition record_attempt ::
  "FastTriageStage \<Rightarrow> FastTriageRoleBinding \<Rightarrow> FastTriageTerminal option \<Rightarrow> FastTriageAttemptOutcome
     \<Rightarrow> FastTriageFailureCategory list \<Rightarrow> RunTelemetry \<Rightarrow> RunTelemetry" where
  "record_attempt stage role term outcome categories run =
     run\<lparr>run_validation_categories := categories,
         run_attempts := run_attempts run @ [\<lparr>at_stage = stage, at_profile_id = rb_profile_id role,
           at_model_id = rb_model_id role, at_terminal_state = map_option ft_state term,
           at_reasoning_present = (case term of None \<Rightarrow> False | Some t \<Rightarrow> reasoning_present t),
           at_reasoning_chars = (case term of None \<Rightarrow> 0 | Some t \<Rightarrow> reasoning_chars t),
           at_visible_chars = (case term of None \<Rightarrow> 0 | Some t \<Rightarrow> visible_chars t),
           at_tool_calls = (case term of None \<Rightarrow> 0 | Some t \<Rightarrow> length (ft_tool_calls t)),
           at_outcome = outcome, at_categories = categories\<rparr>]\<rparr>"

text \<open>The host's verdict on one terminal: an envelope, or the categories of the rejection.\<close>

definition judge_terminal ::
  "(string \<Rightarrow> ModelInvestigationAnswerV1 option) \<Rightarrow> FastTriagePacketV1 \<Rightarrow> FastTriageTerminal
     \<Rightarrow> (FastTriageFailureCategory list, AnswerEnvelopeV1) result" where
  "judge_terminal F packet t =
     (case ft_state t of
        EmptyVisible \<Rightarrow> Inl [FcEmptyVisibleAnswer]
      | MalformedTerminal \<Rightarrow> Inl [FcMalformedTerminal]
      | TypedObject \<Rightarrow>
          (let object = (case ft_typed_object t of None \<Rightarrow> [] | Some s \<Rightarrow> s) in
           case validate_fast_answer F object packet of
             Accepted envelope \<Rightarrow>
               if bind_ledger_digest (env_binding envelope) \<noteq> bind_ledger_digest (led_binding (pk_ledger packet))
               then Inl [FcPacketIdentityChanged] else Inr envelope
           | Rejected categories \<Rightarrow> Inl categories))"

record 'w route_state =
  rs_run :: RunTelemetry
  rs_events :: "FastTriageStageEvent list"
  rs_world :: 'w

definition end_attempt ::
  "(json \<Rightarrow> string) \<Rightarrow> FastTriagePacketV1 \<Rightarrow> FastTriageStage \<Rightarrow> FastTriageRoleBinding \<Rightarrow> FastTriageTerminal option
     \<Rightarrow> FastTriageAttemptOutcome \<Rightarrow> FastTriageFailureCategory list \<Rightarrow> 'w route_state \<Rightarrow> 'w route_state" where
  "end_attempt J packet stage role term outcome categories st =
     (let run = record_attempt stage role term outcome categories (rs_run st) in
      st\<lparr>rs_run := run, rs_events := rs_events st @ [emit_finished J stage outcome packet run]\<rparr>)"

definition run_attempt ::
  "(json \<Rightarrow> string) \<Rightarrow> (string \<Rightarrow> ModelInvestigationAnswerV1 option) \<Rightarrow> 'w host \<Rightarrow> TurnDeadlinePlan
     \<Rightarrow> FastTriagePacketV1 \<Rightarrow> ('w, 'e) backend \<Rightarrow> ChatMessage list \<Rightarrow> FastTriageStage \<Rightarrow> FastTriageRoleBinding
     \<Rightarrow> 'w route_state \<Rightarrow> 'e AttemptResult \<times> 'w route_state" where
  "run_attempt J F host plan packet backend messages stage role st0 =
     (let started = rs_events st0 @ [started_event J stage role packet (rs_run st0)];
          run = (rs_run st0)\<lparr>run_provider_attempts := saturating_add (run_provider_attempts (rs_run st0)) 1\<rparr>;
          (awaited, fragments, w) = within_turn_deadline host plan backend messages (rs_world st0);
          st = st0\<lparr>rs_run := run, rs_events := started, rs_world := w\<rparr>
      in case awaited of
           Inr (Inr completion) \<Rightarrow>
             (let term = terminal_parse completion (stream_take (foldl stream_push stream_new fragments)) in
              case judge_terminal F packet term of
                Inr envelope \<Rightarrow>
                  (ResAccepted envelope, end_attempt J packet stage role (Some term) AttemptAccepted [] st)
              | Inl categories \<Rightarrow>
                  (ResRejected categories, end_attempt J packet stage role (Some term) AttemptRejected categories st))
         | Inr (Inl e) \<Rightarrow>
             if cancel_flag host w
             then (ResCancelled, end_attempt J packet stage role None AttemptCancelled [] st)
             else (ResProviderFailed e, end_attempt J packet stage role None AttemptProviderFailed [] st)
         | Inl AwaitCancelled \<Rightarrow> (ResCancelled, end_attempt J packet stage role None AttemptCancelled [] st)
         | Inl AwaitDeadline \<Rightarrow> (ResDeadline, end_attempt J packet stage role None AttemptDeadline [] st))"

section \<open>The route\<close>

record FastTriageInputs =
  in_user_text :: string
  in_packet :: FastTriagePacketV1
  in_expected_packet_id :: "string option"
  in_enabled :: bool
  in_records :: "FastTriageRouteRecord list"
  in_profile_id :: "string option"
  in_model_id :: "string option"
  in_fallback :: "FastTriageFallback option"
  in_budget :: FastTriageBudget

datatype 'e FastTriageRouteOutcome =
    OutNotSelected FastTriageRouteRejection FastTriageTelemetryV1
  | OutVerified AnswerEnvelopeV1 string FastTriageTelemetryV1
  | OutPartial "FastTriageFailureCategory list" FastTriageTelemetryV1
  | OutEscalationRequested FastTriagePacketV1 "FastTriageFailureCategory list" FastTriageTelemetryV1
  | OutCancelled FastTriageTelemetryV1
  | OutDeadline FastTriageTelemetryV1
  | OutProviderFailed 'e FastTriageTelemetryV1

definition not_selected_telemetry ::
  "FastTriageRouteRejection \<Rightarrow> FastTriageWorkflowContract \<Rightarrow> string \<Rightarrow> u64 \<Rightarrow> FastTriageTelemetryV1" where
  "not_selected_telemetry rejection contract fingerprint deadline =
     \<lparr>tl_schema = FAST_TRIAGE_TELEMETRY_SCHEMA_V1, tl_route_selected = False,
      tl_selection_rejection = Some rejection, tl_workflow_contract = contract,
      tl_contract_fingerprint = fingerprint, tl_role = None, tl_packet = None, tl_attempts = [],
      tl_provider_attempts = 0, tl_correction_used = False, tl_correction_category = None,
      tl_validation_categories = [], tl_escalation = not_requested, tl_deadline_ms = deadline,
      tl_outcome = LblNotSelected\<rparr>"

text \<open>The closure \<open>finish\<close> of \<open>run_fast_triage_route\<close>.\<close>

definition finish_run ::
  "SelectedFastRoute \<Rightarrow> FastTriagePacketV1 \<Rightarrow> u64 \<Rightarrow> RunTelemetry \<Rightarrow> FastTriageOutcomeLabel \<Rightarrow> FastTriageTelemetryV1" where
  "finish_run selected packet deadline run outcome =
     \<lparr>tl_schema = FAST_TRIAGE_TELEMETRY_SCHEMA_V1, tl_route_selected = True, tl_selection_rejection = None,
      tl_workflow_contract = sel_workflow_contract selected,
      tl_contract_fingerprint = sel_contract_fingerprint selected, tl_role = Some (sel_role selected),
      tl_packet = Some (from_packet packet), tl_attempts = run_attempts run,
      tl_provider_attempts = run_provider_attempts run, tl_correction_used = run_correction_used run,
      tl_correction_category = run_correction_category run,
      tl_validation_categories = run_validation_categories run, tl_escalation = run_escalation run,
      tl_deadline_ms = deadline, tl_outcome = outcome\<rparr>"

text \<open>The loop over the primary attempt and its corrections: an early return of the route, or the
  categories of the last rejection.\<close>

fun attempt_loop ::
  "(FastTriageStage \<Rightarrow> ChatMessage list \<Rightarrow> 'w route_state \<Rightarrow> 'e AttemptResult \<times> 'w route_state)
     \<Rightarrow> (FastTriageFailureCategory option \<Rightarrow> ChatMessage list) \<Rightarrow> (AnswerEnvelopeV1 \<Rightarrow> string)
     \<Rightarrow> (RunTelemetry \<Rightarrow> FastTriageOutcomeLabel \<Rightarrow> FastTriageTelemetryV1)
     \<Rightarrow> nat list \<Rightarrow> FastTriageFailureCategory option \<Rightarrow> FastTriageFailureCategory list \<Rightarrow> 'w route_state
     \<Rightarrow> ('e FastTriageRouteOutcome \<times> 'w route_state) + (FastTriageFailureCategory list \<times> 'w route_state)" where
  "attempt_loop attempt messages render finish [] correction_category categories st = Inr (categories, st)"
| "attempt_loop attempt messages render finish (n # ns) correction_category categories st =
     (let stage = (if n = 0 then Primary else Correction);
          msgs = (if n = 0 then messages None else messages correction_category);
          st = (if stage = Correction
                then st\<lparr>rs_run := (rs_run st)\<lparr>run_correction_used := True, run_correction_category := correction_category\<rparr>\<rparr>
                else st)
      in case attempt stage msgs st of
           (ResAccepted envelope, st) \<Rightarrow>
             Inl (OutVerified envelope (render envelope)
               (finish (rs_run st) (if n = 0 then LblVerifiedFastAnswer else LblVerifiedAfterCorrection)), st)
         | (ResRejected rejected, st) \<Rightarrow>
             if list_ex is_host_side rejected
             then Inl (OutPartial rejected (finish (rs_run st) LblPartialInconclusive), st)
             else attempt_loop attempt messages render finish ns
               (case rejected of [] \<Rightarrow> None | c # _ \<Rightarrow> Some c) rejected st
         | (ResCancelled, st) \<Rightarrow> Inl (OutCancelled (finish (rs_run st) LblCancelled), st)
         | (ResDeadline, st) \<Rightarrow> Inl (OutDeadline (finish (rs_run st) LblDeadline), st)
         | (ResProviderFailed e, st) \<Rightarrow> Inl (OutProviderFailed e (finish (rs_run st) LblProviderFailed), st))"

definition set_escalation :: "FastTriageEscalationTelemetry \<Rightarrow> 'w route_state \<Rightarrow> 'w route_state" where
  "set_escalation esc st = st\<lparr>rs_run := (rs_run st)\<lparr>run_escalation := esc\<rparr>\<rparr>"

definition set_escalation_state :: "FastTriageEscalationState \<Rightarrow> 'w route_state \<Rightarrow> 'w route_state" where
  "set_escalation_state s st = set_escalation ((run_escalation (rs_run st))\<lparr>esc_state := s\<rparr>) st"

text \<open>The match on the fallback configuration and the one escalation attempt.\<close>

definition escalate ::
  "(('w, 'e) backend \<Rightarrow> FastTriageRoleBinding \<Rightarrow> ChatMessage list \<Rightarrow> 'w route_state \<Rightarrow> 'e AttemptResult \<times> 'w route_state)
     \<Rightarrow> (FastTriageFailureCategory option \<Rightarrow> ChatMessage list) \<Rightarrow> (AnswerEnvelopeV1 \<Rightarrow> string)
     \<Rightarrow> (RunTelemetry \<Rightarrow> FastTriageOutcomeLabel \<Rightarrow> FastTriageTelemetryV1) \<Rightarrow> FastTriagePacketV1
     \<Rightarrow> FastTriageFallback option \<Rightarrow> ('w, 'e) backend option \<Rightarrow> FastTriageFailureCategory list \<Rightarrow> 'w route_state
     \<Rightarrow> 'e FastTriageRouteOutcome \<times> 'w route_state" where
  "escalate attempt messages render finish packet fallback fallback_backend categories st =
     (let hand_back = (\<lambda>esc. let st = set_escalation esc st in
            (OutEscalationRequested packet categories (finish (rs_run st) LblEscalationRequested), st))
      in case fallback of
           None \<Rightarrow> hand_back \<lparr>esc_state = EscNotConfigured, esc_profile_id = None, esc_model_id = None, esc_packet_id = None\<rparr>
         | Some fb \<Rightarrow>
             (case (fb_authorized fb, fallback_backend) of
                (True, Some backend) \<Rightarrow>
                  (let st = set_escalation \<lparr>esc_state = EscRequested, esc_profile_id = Some (fb_profile_id fb),
                         esc_model_id = Some (fb_model_id fb), esc_packet_id = Some (pk_packet_id packet)\<rparr> st
                   in case attempt backend \<lparr>rb_profile_id = fb_profile_id fb, rb_model_id = fb_model_id fb\<rparr>
                          (messages (case categories of [] \<Rightarrow> None | c # _ \<Rightarrow> Some c)) st of
                        (ResAccepted envelope, st) \<Rightarrow>
                          (let st = set_escalation_state EscSucceeded st in
                           (OutVerified envelope (render envelope) (finish (rs_run st) LblVerifiedAfterEscalation), st))
                      | (ResRejected rejected, st) \<Rightarrow>
                          (let st = set_escalation_state EscFailed st in
                           (OutPartial rejected (finish (rs_run st) LblPartialInconclusive), st))
                      | (ResCancelled, st) \<Rightarrow>
                          (let st = set_escalation_state EscFailed st in (OutCancelled (finish (rs_run st) LblCancelled), st))
                      | (ResDeadline, st) \<Rightarrow>
                          (let st = set_escalation_state EscFailed st in (OutDeadline (finish (rs_run st) LblDeadline), st))
                      | (ResProviderFailed e, st) \<Rightarrow>
                          (let st = set_escalation_state EscFailed st in
                           (OutProviderFailed e (finish (rs_run st) LblProviderFailed), st)))
              | _ \<Rightarrow> hand_back \<lparr>esc_state = (if fb_authorized fb then EscNotConfigured else EscNotAuthorized),
                     esc_profile_id = Some (fb_profile_id fb), esc_model_id = Some (fb_model_id fb), esc_packet_id = None\<rparr>))"

definition route_request :: "(string \<Rightarrow> string) \<Rightarrow> FastTriageInputs \<Rightarrow> FastTriageRouteRequest" where
  "route_request H inputs =
     \<lparr>rq_enabled = in_enabled inputs, rq_profile_id = in_profile_id inputs, rq_model_id = in_model_id inputs,
      rq_workflow_contract = HostGroundedSynthesisCompletePacket,
      rq_contract_fingerprint = fast_triage_contract_fingerprint H\<rparr>"

definition run_fast_triage_route ::
  "(string \<Rightarrow> string) \<Rightarrow> (json \<Rightarrow> string) \<Rightarrow> (string \<Rightarrow> ModelInvestigationAnswerV1 option) \<Rightarrow> (string \<Rightarrow> bool) \<Rightarrow> string
     \<Rightarrow> 'w host \<Rightarrow> ('w, 'e) backend \<Rightarrow> ('w, 'e) backend option \<Rightarrow> FastTriageInputs \<Rightarrow> 'w
     \<Rightarrow> 'e FastTriageRouteOutcome \<times> 'w route_state" where
  "run_fast_triage_route H J F alnum nonce host primary fallback_backend inputs w =
     (let deadline = bud_deadline_ms (in_budget inputs);
          st = \<lparr>rs_run = run_new, rs_events = [], rs_world = w\<rparr>
      in case select_fast_triage_route (in_records inputs) (route_request H inputs) of
        NotSelected rejection \<Rightarrow>
          (OutNotSelected rejection (not_selected_telemetry rejection HostGroundedSynthesisCompletePacket
             (fast_triage_contract_fingerprint H) deadline), st)
      | Selected selected \<Rightarrow>
          (let packet = in_packet inputs; finish = finish_run selected packet deadline in
           if (case in_expected_packet_id inputs of None \<Rightarrow> False | Some e \<Rightarrow> e \<noteq> pk_packet_id packet)
           then (let st = st\<lparr>rs_run := (rs_run st)\<lparr>run_validation_categories := [FcPacketIdentityChanged]\<rparr>\<rparr> in
                 (OutPartial [FcPacketIdentityChanged] (finish (rs_run st) LblPartialInconclusive), st))
           else if cancel_flag host w then (OutCancelled (finish (rs_run st) LblCancelled), st)
           else
             (let evidence_block = fast_triage_evidence_block nonce packet;
                  messages = fast_triage_messages J (in_user_text inputs) packet evidence_block
              in if estimate_context_chars (messages None) > synthesis_packing_budget (bud_context_char_budget (in_budget inputs))
                 then (OutNotSelected PacketExceedsContextBudget
                         ((finish (rs_run st) LblNotSelected)\<lparr>tl_route_selected := False,
                            tl_selection_rejection := Some PacketExceedsContextBudget\<rparr>), st)
                 else
                   (let plan = flat_plan deadline;
                        render = render_answer_markdown alnum;
                        attempt = (\<lambda>backend role msgs stage. run_attempt J F host plan packet backend msgs stage role)
                    in case attempt_loop (\<lambda>stage msgs. attempt primary (sel_role selected) msgs stage) messages render finish
                              [0..<Suc (unat (effective_corrections (in_budget inputs)))] None [] st of
                         Inl early \<Rightarrow> early
                       | Inr (categories, st) \<Rightarrow>
                           escalate (\<lambda>backend role msgs. attempt backend role msgs Escalation) messages render finish packet
                             (in_fallback inputs) fallback_backend categories st))))"

end
