(* ===== verification/Fast_Properties.thy ===== *)
theory Fast_Properties
  imports Fast_Route
begin

text \<open>
  Properties of the fast-triage route: selection is exact, a verified outcome carries an answer that the
  host validated against the very packet it was given, and a run calls the model at most three times,
  the fallback at most once and only when it is configured and authorized, always with host-authored
  messages about the same packet.
\<close>

section \<open>One attempt\<close>

lemma from_raw_typed: "ft_state (from_raw raw fr calls) = TypedObject \<Longrightarrow> \<exists>object. ft_typed_object (from_raw raw fr calls) = Some object"
  by (auto simp: from_raw_def split: prod.splits option.splits if_splits)

definition typed_answer ::
  "(string \<Rightarrow> ModelInvestigationAnswerV1 option) \<Rightarrow> FastTriagePacketV1 \<Rightarrow> AnswerEnvelopeV1 \<Rightarrow> bool" where
  "typed_answer F packet envelope \<longleftrightarrow>
     (\<exists>completion streamed object. ft_typed_object (terminal_parse completion streamed) = Some object
        \<and> validate_fast_answer F object packet = Accepted envelope)"

lemma judge_accepts:
  assumes "judge_terminal F packet (terminal_parse completion streamed) = Inr envelope"
  shows "typed_answer F packet envelope"
proof -
  let ?t = "terminal_parse completion streamed"
  have state: "ft_state ?t = TypedObject"
    using assms by (auto simp: judge_terminal_def split: FastTriageTerminalState.splits)
  then obtain object where "ft_typed_object ?t = Some object"
    unfolding terminal_parse_def using from_raw_typed by blast
  moreover from this have "validate_fast_answer F object packet = Accepted envelope"
    using assms state by (auto simp: judge_terminal_def split: FastTriageValidation.splits if_splits)
  ultimately show ?thesis by (auto simp: typed_answer_def)
qed

lemma run_attempt_accepted:
  assumes "run_attempt J F host plan packet backend msgs stage role st0 = (ResAccepted envelope, st)"
  shows "typed_answer F packet envelope" and "\<exists>a. run_attempts (rs_run st) = run_attempts (rs_run st0) @ [a] \<and> at_outcome a = AttemptAccepted"
  using assms judge_accepts [of F packet]
  by (auto simp: run_attempt_def Let_def end_attempt_def record_attempt_def
      split: prod.splits sum.splits TurnAwaitError.splits if_splits)

section \<open>Calls\<close>

text \<open>Backends that write down every call, with a tag for the backend that was called.\<close>

type_synonym 'w logged_world = "'w \<times> (bool \<times> ChatMessage list) list"

definition logged :: "bool \<Rightarrow> ('w, 'e) backend \<Rightarrow> ('w logged_world, 'e) backend" where
  "logged tag backend wl msgs = (case backend (fst wl) msgs of (r, w) \<Rightarrow> (r, (w, snd wl @ [(tag, msgs)])))"

abbreviation calls :: "'w logged_world route_state \<Rightarrow> (bool \<times> ChatMessage list) list" where
  "calls st \<equiv> snd (rs_world st)"

definition counted :: "nat \<Rightarrow> 'w logged_world route_state \<Rightarrow> bool" where
  "counted k st \<longleftrightarrow> length (run_attempts (rs_run st)) \<le> k \<and> length (calls st) \<le> length (run_attempts (rs_run st))
     \<and> unat (run_provider_attempts (rs_run st)) = length (run_attempts (rs_run st))"

lemma within_deadline_calls:
  "within_turn_deadline host plan (logged tag backend) msgs wl = (r, frs, wl') \<Longrightarrow>
     snd wl' = snd wl \<or> snd wl' = snd wl @ [(tag, msgs)]"
  by (auto simp: within_turn_deadline_def logged_def split: if_splits prod.splits)

lemma end_attempt_fields:
  "rs_world (end_attempt J packet stage role t out cs st) = rs_world st"
  "length (run_attempts (rs_run (end_attempt J packet stage role t out cs st))) = Suc (length (run_attempts (rs_run st)))"
  "run_provider_attempts (rs_run (end_attempt J packet stage role t out cs st)) = run_provider_attempts (rs_run st)"
  by (simp_all add: end_attempt_def record_attempt_def Let_def)

text \<open>Every way an attempt ends, it is recorded once and made at most one call.\<close>

lemma run_attempt_shape:
  assumes "run_attempt J F host plan packet (logged tag backend) msgs stage role st0 = (r, st)"
  shows "(calls st = calls st0 \<or> calls st = calls st0 @ [(tag, msgs)])
    \<and> length (run_attempts (rs_run st)) = Suc (length (run_attempts (rs_run st0)))
    \<and> run_provider_attempts (rs_run st) = saturating_add (run_provider_attempts (rs_run st0)) 1"
proof -
  obtain awaited frs w where a: "within_turn_deadline host plan (logged tag backend) msgs (rs_world st0) = (awaited, frs, w)"
    by (metis prod_cases3)
  let ?st = "st0\<lparr>rs_run := (rs_run st0)\<lparr>run_provider_attempts := saturating_add (run_provider_attempts (rs_run st0)) 1\<rparr>,
      rs_events := rs_events st0 @ [started_event J stage role packet (rs_run st0)], rs_world := w\<rparr>"
  have "\<exists>t out cs. st = end_attempt J packet stage role t out cs ?st"
    using assms unfolding run_attempt_def Let_def a
    by (auto split: sum.splits TurnAwaitError.splits if_splits)
  then obtain t out cs where "st = end_attempt J packet stage role t out cs ?st" by blast
  with within_deadline_calls [OF a] show ?thesis by (simp add: end_attempt_fields)
qed

lemma run_attempt_counted:
  assumes "counted k st0" and "k < 100"
    and "run_attempt J F host plan packet (logged tag backend) msgs stage role st0 = (r, st)"
  shows "counted (Suc k) st"
proof -
  note shape = run_attempt_shape [OF assms(3)]
  have "unat (run_provider_attempts (rs_run st0)) < 100" using assms(1,2) by (simp add: counted_def)
  then have "unat (run_provider_attempts (rs_run st)) = Suc (unat (run_provider_attempts (rs_run st0)))"
    using shape by (simp add: unat_saturating_add)
  with shape assms(1) show ?thesis by (auto simp: counted_def)
qed

section \<open>The loop and the escalation\<close>

fun outcome_telemetry :: "'e FastTriageRouteOutcome \<Rightarrow> FastTriageTelemetryV1" where
  "outcome_telemetry (OutNotSelected _ t) = t"
| "outcome_telemetry (OutVerified _ _ t) = t"
| "outcome_telemetry (OutPartial _ t) = t"
| "outcome_telemetry (OutEscalationRequested _ _ t) = t"
| "outcome_telemetry (OutCancelled t) = t"
| "outcome_telemetry (OutDeadline t) = t"
| "outcome_telemetry (OutProviderFailed _ t) = t"

text \<open>What every outcome of the route satisfies: its telemetry is the final run's, and if it is
  verified, the answer was validated, rendered and recorded.\<close>

definition outcome_ok ::
  "(string \<Rightarrow> ModelInvestigationAnswerV1 option) \<Rightarrow> FastTriagePacketV1 \<Rightarrow> (AnswerEnvelopeV1 \<Rightarrow> string)
     \<Rightarrow> (RunTelemetry \<Rightarrow> FastTriageOutcomeLabel \<Rightarrow> FastTriageTelemetryV1)
     \<Rightarrow> 'e FastTriageRouteOutcome \<Rightarrow> 'w route_state \<Rightarrow> bool" where
  "outcome_ok F packet render finish out st \<longleftrightarrow>
     (\<exists>label. outcome_telemetry out = finish (rs_run st) label \<and> (is_verified label \<longleftrightarrow> (\<exists>e c t. out = OutVerified e c t)))
     \<and> (\<forall>envelope content t. out = OutVerified envelope content t \<longrightarrow>
          typed_answer F packet envelope \<and> content = render envelope
          \<and> run_attempts (rs_run st) \<noteq> [] \<and> at_outcome (last (run_attempts (rs_run st))) = AttemptAccepted)"

lemma loop_counted:
  fixes st :: "'w logged_world route_state"
  assumes "counted k st" and "k + length ns < 100"
    and attempt: "attempt = (\<lambda>stage msgs. run_attempt J F host plan packet (logged False primary) msgs stage role)"
    and res: "attempt_loop attempt messages render finish ns cc cats st = res"
    and st': "st' = (case res of Inl (out, s) \<Rightarrow> s | Inr (c, s) \<Rightarrow> s)"
  shows "counted (k + length ns) st' \<and> (\<exists>L. calls st' = calls st @ L \<and> length L \<le> length ns
      \<and> (\<forall>c \<in> set L. \<exists>category. c = (False, messages category)))"
  using assms(1,2) res st'
proof (induction ns arbitrary: k cc cats st)
  case (Cons n ns)
  let ?st = "if n = 0 then st else st\<lparr>rs_run := (rs_run st)\<lparr>run_correction_used := True, run_correction_category := cc\<rparr>\<rparr>"
  let ?m = "if n = 0 then messages None else messages cc"
  obtain r st1 where r: "attempt (if n = 0 then Primary else Correction) ?m ?st = (r, st1)" by (metis surj_pair)
  have "counted k ?st" "calls ?st = calls st" using Cons.prems(1) by (simp_all add: counted_def)
  then have c1: "counted (Suc k) st1"
    and s1: "calls st1 = calls st \<or> calls st1 = calls st @ [(False, ?m)]"
    using run_attempt_counted r Cons.prems(2) run_attempt_shape unfolding attempt by fastforce+
  show ?case
  proof (cases "\<exists>cs. r = ResRejected cs \<and> \<not> list_ex is_host_side cs")
    case False
    then have "st' = st1" using Cons.prems r by (cases r) (auto simp: Let_def split: if_splits)
    moreover have "counted (k + length (n # ns)) st1" using c1 by (auto simp: counted_def)
    moreover have "\<exists>L. calls st1 = calls st @ L \<and> length L \<le> length (n # ns) \<and> (\<forall>c \<in> set L. \<exists>category. c = (False, messages category))"
    proof (cases "calls st1 = calls st")
      case True then show ?thesis by (intro exI [of _ "[]"]) simp
    next
      case False with s1 show ?thesis by (intro exI [of _ "[(False, ?m)]"]) auto
    qed
    ultimately show ?thesis by simp
  next
    case True
    then obtain cs where cs: "r = ResRejected cs" "\<not> list_ex is_host_side cs" by blast
    then have rec: "attempt_loop attempt messages render finish ns (case cs of [] \<Rightarrow> None | c # _ \<Rightarrow> Some c) cs st1 = res"
      using Cons.prems(3) r by (auto simp: Let_def split: if_splits)
    from Cons.IH [OF c1 _ rec Cons.prems(4)] Cons.prems(2) obtain L where
      "counted (k + length (n # ns)) st'" "calls st' = calls st1 @ L" "length L \<le> length ns"
      "\<forall>c \<in> set L. \<exists>category. c = (False, messages category)" by auto
    with s1 show ?thesis
      by (cases "calls st1 = calls st") (auto intro: exI [of _ L] exI [of _ "(False, ?m) # L"])
  qed
qed auto

lemma loop_outcome:
  assumes attempt: "attempt = (\<lambda>stage msgs. run_attempt J F host plan packet primary msgs stage role)"
    and "attempt_loop attempt messages render finish ns cc cats st = Inl (out, st')"
  shows "outcome_ok F packet render finish out st'"
  using assms(2)
proof (induction ns arbitrary: cc cats st)
  case (Cons n ns)
  let ?st = "if n = 0 then st else st\<lparr>rs_run := (rs_run st)\<lparr>run_correction_used := True, run_correction_category := cc\<rparr>\<rparr>"
  let ?m = "if n = 0 then messages None else messages cc"
  obtain r st1 where r: "attempt (if n = 0 then Primary else Correction) ?m ?st = (r, st1)" by (metis surj_pair)
  show ?case
  proof (cases r)
    case (ResAccepted envelope)
    then have "out = OutVerified envelope (render envelope)
        (finish (rs_run st1) (if n = 0 then LblVerifiedFastAnswer else LblVerifiedAfterCorrection))" "st' = st1"
      using Cons.prems r by (auto simp: Let_def split: if_splits)
    moreover have "typed_answer F packet envelope"
      "\<exists>a. run_attempts (rs_run st1) = run_attempts (rs_run ?st) @ [a] \<and> at_outcome a = AttemptAccepted"
      using run_attempt_accepted [OF r [unfolded ResAccepted attempt]] by simp_all
    ultimately show ?thesis by (auto simp: outcome_ok_def is_verified_def)
  next
    case (ResRejected cs)
    then show ?thesis
      using Cons r by (cases "list_ex is_host_side cs") (auto simp: Let_def outcome_ok_def is_verified_def split: if_splits)
  qed (use Cons.prems r in \<open>auto simp: Let_def outcome_ok_def is_verified_def split: if_splits\<close>)
qed simp

lemma escalate_outcome:
  assumes attempt: "attempt = (\<lambda>backend role msgs. run_attempt J F host plan packet backend msgs Escalation role)"
    and "escalate attempt messages render finish packet fallback fb cats st = (out, st')"
  shows "outcome_ok F packet render finish out st'"
proof (cases "\<exists>f backend. fallback = Some f \<and> fb_authorized f \<and> fb = Some backend")
  case False
  then show ?thesis
    using assms(2)
    by (auto simp: escalate_def Let_def outcome_ok_def is_verified_def split: option.splits bool.splits)
next
  case True
  then obtain f backend where f: "fallback = Some f" "fb_authorized f" "fb = Some backend" by blast
  let ?st = "set_escalation \<lparr>esc_state = EscRequested, esc_profile_id = Some (fb_profile_id f),
      esc_model_id = Some (fb_model_id f), esc_packet_id = Some (pk_packet_id packet)\<rparr> st"
  obtain r st1 where r: "attempt backend \<lparr>rb_profile_id = fb_profile_id f, rb_model_id = fb_model_id f\<rparr>
      (messages (case cats of [] \<Rightarrow> None | c # _ \<Rightarrow> Some c)) ?st = (r, st1)" by (metis surj_pair)
  show ?thesis
  proof (cases r)
    case (ResAccepted envelope)
    note acc = run_attempt_accepted [OF r [unfolded ResAccepted attempt]]
    then show ?thesis
      using assms(2) f r ResAccepted
      by (auto simp: escalate_def Let_def outcome_ok_def is_verified_def set_escalation_state_def set_escalation_def)
  qed (use assms(2) f r in \<open>auto simp: escalate_def Let_def outcome_ok_def is_verified_def\<close>)
qed

text \<open>The fallback is called at most once, and only when it is configured, authorized and present.\<close>

lemma escalate_counted:
  fixes st :: "'w logged_world route_state"
  assumes "counted k st" and "k < 100"
    and attempt: "attempt = (\<lambda>backend role msgs. run_attempt J F host plan packet backend msgs Escalation role)"
    and "escalate attempt messages render finish packet fallback (map_option (logged True) fb) cats st = (out, st')"
  shows "counted (Suc k) st' \<and> (calls st' = calls st
    \<or> (\<exists>f category. fallback = Some f \<and> fb_authorized f \<and> calls st' = calls st @ [(True, messages category)]))"
proof (cases "\<exists>f backend. fallback = Some f \<and> fb_authorized f \<and> fb = Some backend")
  case False
  then have "rs_world st' = rs_world st \<and> run_attempts (rs_run st') = run_attempts (rs_run st)
      \<and> run_provider_attempts (rs_run st') = run_provider_attempts (rs_run st)"
    using assms(4)
    by (auto simp: escalate_def Let_def set_escalation_def split: option.splits bool.splits)
  then show ?thesis using assms(1) by (auto simp: counted_def)
next
  case True
  then obtain f backend where f: "fallback = Some f" "fb_authorized f" "fb = Some backend" by blast
  let ?st = "set_escalation \<lparr>esc_state = EscRequested, esc_profile_id = Some (fb_profile_id f),
      esc_model_id = Some (fb_model_id f), esc_packet_id = Some (pk_packet_id packet)\<rparr> st"
  let ?m = "messages (case cats of [] \<Rightarrow> None | c # _ \<Rightarrow> Some c)"
  obtain r st1 where r: "attempt (logged True backend) \<lparr>rb_profile_id = fb_profile_id f, rb_model_id = fb_model_id f\<rparr> ?m ?st = (r, st1)"
    by (metis surj_pair)
  have "counted k ?st" using assms(1) by (simp add: counted_def set_escalation_def)
  note c1 = run_attempt_counted [OF this assms(2) r [unfolded attempt]]
  note s1 = run_attempt_shape [OF r [unfolded attempt]]
  have "rs_world st' = rs_world st1 \<and> run_attempts (rs_run st') = run_attempts (rs_run st1)
      \<and> run_provider_attempts (rs_run st') = run_provider_attempts (rs_run st1)"
    using assms(4) f r
    by (cases r) (auto simp: escalate_def Let_def set_escalation_state_def set_escalation_def)
  with c1 s1 f show ?thesis by (auto simp: counted_def set_escalation_def)
qed

section \<open>Selection\<close>

definition matching :: "FastTriageRouteRecord \<Rightarrow> string \<Rightarrow> string \<Rightarrow> FastTriageWorkflowContract \<Rightarrow> bool" where
  "matching r pid mid contract \<longleftrightarrow> rr_profile_id r = pid \<and> rr_model_id r = mid \<and> rr_workflow_contract r = contract
     \<and> rr_verdict r = Qualified"

text \<open>The route is selected exactly on persisted evidence: enabled, profile and model known and not blank, a
  measured pass recorded for exactly this profile, model and workflow, and every such record measured
  against the running contract.\<close>

lemma select_iff:
  "select_fast_triage_route records request = Selected s \<longleftrightarrow>
     (\<exists>pid mid. rq_enabled request \<and> rq_profile_id request = Some pid \<and> rq_model_id request = Some mid
        \<and> trim pid \<noteq> [] \<and> trim mid \<noteq> []
        \<and> (\<exists>r \<in> set records. matching r pid mid (rq_workflow_contract request))
        \<and> (\<forall>r \<in> set records. matching r pid mid (rq_workflow_contract request) \<longrightarrow>
             rr_contract_fingerprint r = rq_contract_fingerprint request)
        \<and> s = \<lparr>sel_role = \<lparr>rb_profile_id = pid, rb_model_id = mid\<rparr>,
               sel_workflow_contract = rq_workflow_contract request,
               sel_contract_fingerprint = rq_contract_fingerprint request\<rparr>)"
proof (cases "rq_profile_id request"; cases "rq_model_id request")
  fix pid mid
  assume ids: "rq_profile_id request = Some pid" "rq_model_id request = Some mid"
  let ?q = "filter (\<lambda>r. matching r pid mid (rq_workflow_contract request)) records"
  have q: "filter (\<lambda>r. rr_verdict r = Qualified) (filter (\<lambda>r. rr_workflow_contract r = rq_workflow_contract request)
      (filter (\<lambda>r. rr_profile_id r = pid \<and> rr_model_id r = mid) records)) = ?q"
    by (simp add: matching_def conj_ac cong: filter_cong)
  have "select_fast_triage_route records request = Selected s \<longleftrightarrow> rq_enabled request \<and> trim pid \<noteq> [] \<and> trim mid \<noteq> []
      \<and> ?q \<noteq> [] \<and> \<not> list_ex (\<lambda>r. rr_contract_fingerprint r \<noteq> rq_contract_fingerprint request) ?q
      \<and> s = \<lparr>sel_role = \<lparr>rb_profile_id = pid, rb_model_id = mid\<rparr>,
               sel_workflow_contract = rq_workflow_contract request,
               sel_contract_fingerprint = rq_contract_fingerprint request\<rparr>"
    unfolding select_fast_triage_route_def ids Let_def q by (auto simp: q [symmetric] simp del: filter_filter)
  then show ?thesis using ids by (auto simp: list_ex_iff filter_empty_conv)
qed (auto simp: select_fast_triage_route_def)

section \<open>The route\<close>

abbreviation route_messages :: "(json \<Rightarrow> string) \<Rightarrow> string \<Rightarrow> FastTriageInputs \<Rightarrow> FastTriageFailureCategory option \<Rightarrow> ChatMessage list" where
  "route_messages J nonce inputs \<equiv>
     fast_triage_messages J (in_user_text inputs) (in_packet inputs) (fast_triage_evidence_block nonce (in_packet inputs))"

text \<open>The conditions under which the route talks to a model at all.\<close>

definition route_enters ::
  "(string \<Rightarrow> string) \<Rightarrow> (json \<Rightarrow> string) \<Rightarrow> string \<Rightarrow> 'w host \<Rightarrow> FastTriageInputs \<Rightarrow> 'w \<Rightarrow> SelectedFastRoute \<Rightarrow> bool" where
  "route_enters H J nonce host inputs w selected \<longleftrightarrow>
     select_fast_triage_route (in_records inputs) (route_request H inputs) = Selected selected
     \<and> in_expected_packet_id inputs \<in> {None, Some (pk_packet_id (in_packet inputs))}
     \<and> \<not> cancel_flag host w
     \<and> estimate_context_chars (route_messages J nonce inputs None)
         \<le> synthesis_packing_budget (bud_context_char_budget (in_budget inputs))"

lemma route_cases:
  assumes "run_fast_triage_route H J F alnum nonce host primary fb inputs w = (out, st)"
  obtains (idle) "rs_world st = w" "run_attempts (rs_run st) = []" "run_provider_attempts (rs_run st) = 0"
      "\<And>e c t. out \<noteq> OutVerified e c t" "tl_provider_attempts (outcome_telemetry out) = 0"
  | (enters) selected where "route_enters H J nonce host inputs w selected"
      "(case attempt_loop (\<lambda>stage msgs. run_attempt J F host (flat_plan (bud_deadline_ms (in_budget inputs))) (in_packet inputs) primary msgs stage (sel_role selected))
          (route_messages J nonce inputs) (render_answer_markdown alnum)
          (finish_run selected (in_packet inputs) (bud_deadline_ms (in_budget inputs)))
          [0..<Suc (unat (effective_corrections (in_budget inputs)))] None [] \<lparr>rs_run = run_new, rs_events = [], rs_world = w\<rparr> of
        Inl early \<Rightarrow> early
      | Inr (categories, st) \<Rightarrow>
          escalate (\<lambda>backend role msgs. run_attempt J F host (flat_plan (bud_deadline_ms (in_budget inputs))) (in_packet inputs) backend msgs Escalation role)
            (route_messages J nonce inputs) (render_answer_markdown alnum)
            (finish_run selected (in_packet inputs) (bud_deadline_ms (in_budget inputs))) (in_packet inputs)
            (in_fallback inputs) fb categories st) = (out, st)"
proof (cases "\<exists>selected. route_enters H J nonce host inputs w selected")
  case True
  then obtain selected where e: "route_enters H J nonce host inputs w selected" by blast
  show thesis
    by (rule enters [OF e])
      (use assms e in \<open>auto simp: run_fast_triage_route_def route_enters_def Let_def split: option.splits\<close>)
next
  case False
  show thesis
    by (rule idle)
      (use assms False in \<open>auto simp: run_fast_triage_route_def route_enters_def Let_def run_new_def not_selected_telemetry_def finish_run_def
        split: FastTriageRouteSelection.splits option.splits if_splits\<close>)
qed

lemma corrections_le: "unat (effective_corrections b) \<le> 1"
proof -
  have "effective_corrections b \<le> 1" by (simp add: effective_corrections_def FAST_TRIAGE_MAX_CORRECTIONS_def)
  then show ?thesis by (simp add: word_le_nat_alt)
qed

lemma route_verified:
  fixes primary :: "('w, 'e) backend"
  assumes "run_fast_triage_route H J F alnum nonce host primary fb inputs w = (OutVerified envelope content t, st)"
  shows "\<exists>selected. route_enters H J nonce host inputs w selected
    \<and> outcome_ok F (in_packet inputs) (render_answer_markdown alnum)
        (finish_run selected (in_packet inputs) (bud_deadline_ms (in_budget inputs))) (OutVerified envelope content t :: 'e FastTriageRouteOutcome) st"
  using assms
proof (cases rule: route_cases)
  case (enters selected)
  then show ?thesis
    by (auto split: sum.splits intro!: exI [of _ selected]
        dest: loop_outcome [OF refl] escalate_outcome [OF refl])
qed auto

text \<open>C10: A verified fast answer was validated by the host against the packet of this run. If the route ends
  verified, then the exact persisted evidence selected it, the packet had the expected id, the typed
  object of some terminal was accepted by the validator against this packet, the answer violates no
  category, the visible text is the rendering of that answer, and the telemetry names the selected model, this
  packet, a verified label and an accepted last attempt.\<close>

theorem route_verified_sound:
  fixes primary :: "('w, 'e) backend"
  assumes ledger: "ledger_new D b es = Inr (pk_ledger (in_packet inputs))"
    and run: "run_fast_triage_route H J F alnum nonce host primary fb inputs w = (OutVerified envelope content t, st)"
  shows "typed_answer F (in_packet inputs) envelope
    \<and> (\<forall>c. \<not> violates (in_packet inputs) (env_answer envelope) c)
    \<and> content = render_answer_markdown alnum envelope
    \<and> (\<exists>selected. select_fast_triage_route (in_records inputs) (route_request H inputs) = Selected selected
         \<and> tl_role t = Some (sel_role selected))
    \<and> in_expected_packet_id inputs \<in> {None, Some (pk_packet_id (in_packet inputs))}
    \<and> tl_packet t = Some (from_packet (in_packet inputs)) \<and> is_verified (tl_outcome t)
    \<and> tl_attempts t \<noteq> [] \<and> at_outcome (last (tl_attempts t)) = AttemptAccepted"
proof -
  obtain selected where e: "route_enters H J nonce host inputs w selected"
    and ok: "outcome_ok F (in_packet inputs) (render_answer_markdown alnum)
        (finish_run selected (in_packet inputs) (bud_deadline_ms (in_budget inputs))) (OutVerified envelope content t :: 'e FastTriageRouteOutcome) st"
    using route_verified [OF run] by blast
  obtain label where t: "t = finish_run selected (in_packet inputs) (bud_deadline_ms (in_budget inputs)) (rs_run st) label"
    "is_verified label" using ok by (auto simp: outcome_ok_def)
  have ans: "typed_answer F (in_packet inputs) envelope" using ok by (simp add: outcome_ok_def)
  then obtain object where "validate_fast_answer F object (in_packet inputs) = Accepted envelope" by (auto simp: typed_answer_def)
  then have "\<forall>c. \<not> violates (in_packet inputs) (env_answer envelope) c"
    unfolding validate_fast_answer_spec [OF ledger] by (auto split: sum.splits if_splits)
  with e ok t ans show ?thesis by (auto simp: outcome_ok_def route_enters_def finish_run_def)
qed

text \<open>C30: A run of the route makes at most three provider calls. Every call carries host-authored messages for
  the same question, packet and evidence block, differing only in the failure category; at most two go
  to the primary model, and a call to the fallback is the last one and happens only when a
  fallback is configured and authorized; no call is made unless the route was entered; and the
  telemetry reports at least as many provider attempts as calls were made, and at most three.\<close>

theorem route_calls_bounded:
  fixes primary :: "('w, 'e) backend"
  assumes run: "run_fast_triage_route H J F alnum nonce host (logged False primary) (map_option (logged True) fb) inputs (w, []) = (out, st)"
  shows "\<exists>L M. calls st = L @ M \<and> length L \<le> 2 \<and> length M \<le> 1
    \<and> (\<forall>c \<in> set L. \<exists>category. c = (False, route_messages J nonce inputs category))
    \<and> (\<forall>c \<in> set M. \<exists>category. c = (True, route_messages J nonce inputs category))
    \<and> (M \<noteq> [] \<longrightarrow> (\<exists>f. in_fallback inputs = Some f \<and> fb_authorized f))
    \<and> (L @ M \<noteq> [] \<longrightarrow> (\<exists>selected. route_enters H J nonce host inputs (w, []) selected))
    \<and> length (L @ M) \<le> unat (tl_provider_attempts (outcome_telemetry out))
    \<and> unat (tl_provider_attempts (outcome_telemetry out)) \<le> 3"
  using run
proof (cases rule: route_cases)
  case idle
  then show ?thesis by (intro exI [of _ "[]"]) simp
next
  case (enters selected)
  let ?st0 = "\<lparr>rs_run = run_new, rs_events = [], rs_world = (w, [])\<rparr> :: 'w logged_world route_state"
  let ?ns = "[0..<Suc (unat (effective_corrections (in_budget inputs)))]"
  let ?n = "length ?ns"
  have n: "?n \<le> 2" using corrections_le [of "in_budget inputs"] by simp
  have c0: "counted 0 ?st0" by (simp add: counted_def run_new_def)
  define res where "res = attempt_loop (\<lambda>stage msgs. run_attempt J F host (flat_plan (bud_deadline_ms (in_budget inputs))) (in_packet inputs) (logged False primary) msgs stage (sel_role selected))
      (route_messages J nonce inputs) (render_answer_markdown alnum)
      (finish_run selected (in_packet inputs) (bud_deadline_ms (in_budget inputs))) ?ns None [] ?st0"
  define st1 where "st1 = (case res of Inl (out, s) \<Rightarrow> s | Inr (c, s) \<Rightarrow> s)"
  have "counted (0 + ?n) st1 \<and> (\<exists>L. calls st1 = calls ?st0 @ L \<and> length L \<le> ?n
      \<and> (\<forall>c \<in> set L. \<exists>category. c = (False, route_messages J nonce inputs category)))"
    by (rule loop_counted [OF c0 _ refl res_def [symmetric] st1_def]) (use n in simp)
  then obtain L where c1: "counted ?n st1" and L: "calls st1 = L" "length L \<le> 2"
    "\<forall>c \<in> set L. \<exists>category. c = (False, route_messages J nonce inputs category)" using n by auto
  have tele: "tl_provider_attempts (outcome_telemetry out) = run_provider_attempts (rs_run st)"
    if "outcome_ok F (in_packet inputs) r (finish_run selected (in_packet inputs) d) out st" for r d
    using that by (auto simp: outcome_ok_def finish_run_def)
  have "\<exists>M. counted 3 st \<and> calls st = L @ M \<and> length M \<le> 1 \<and> (\<forall>c \<in> set M. \<exists>category. c = (True, route_messages J nonce inputs category))
      \<and> (M \<noteq> [] \<longrightarrow> (\<exists>f. in_fallback inputs = Some f \<and> fb_authorized f))
      \<and> tl_provider_attempts (outcome_telemetry out) = run_provider_attempts (rs_run st)"
  proof (cases res)
    case (Inl early)
    then have early: "early = (out, st)" using enters(2) unfolding res_def [symmetric] by simp
    then have "st = st1" using Inl by (simp add: st1_def)
    moreover have "counted 3 st1" using c1 n by (auto simp: counted_def)
    moreover have "outcome_ok F (in_packet inputs) (render_answer_markdown alnum)
        (finish_run selected (in_packet inputs) (bud_deadline_ms (in_budget inputs))) out st"
      using loop_outcome [OF refl] Inl early unfolding res_def by blast
    ultimately show ?thesis using L tele by (intro exI [of _ "[]"]) auto
  next
    case (Inr cs)
    obtain categories s where cs: "cs = (categories, s)" by (cases cs)
    then have "s = st1" using Inr by (simp add: st1_def)
    then have esc: "escalate (\<lambda>backend role msgs. run_attempt J F host (flat_plan (bud_deadline_ms (in_budget inputs))) (in_packet inputs) backend msgs Escalation role)
        (route_messages J nonce inputs) (render_answer_markdown alnum)
        (finish_run selected (in_packet inputs) (bud_deadline_ms (in_budget inputs))) (in_packet inputs)
        (in_fallback inputs) (map_option (logged True) fb) categories st1 = (out, st)"
      using enters(2) Inr cs unfolding res_def [symmetric] by simp
    have "?n < 100" using n by simp
    note step = escalate_counted [OF c1 this refl esc]
    have "counted 3 st" using step n by (auto simp: counted_def)
    moreover note tele [OF escalate_outcome [OF refl esc]]
    ultimately show ?thesis
      using step L(1) by (elim conjE disjE exE) (auto intro: exI [of _ "[]"])
  qed
  then obtain M where M: "counted 3 st" "calls st = L @ M" "length M \<le> 1"
    "\<forall>c \<in> set M. \<exists>category. c = (True, route_messages J nonce inputs category)"
    "M \<noteq> [] \<longrightarrow> (\<exists>f. in_fallback inputs = Some f \<and> fb_authorized f)"
    "tl_provider_attempts (outcome_telemetry out) = run_provider_attempts (rs_run st)" by blast
  then have "length (L @ M) \<le> unat (tl_provider_attempts (outcome_telemetry out))"
    "unat (tl_provider_attempts (outcome_telemetry out)) \<le> 3"
    by (simp_all add: counted_def)
  with M L enters(1) show ?thesis by blast
qed

section \<open>A run\<close>

definition sample_record :: FastTriageRouteRecord where
  "sample_record = \<lparr>rr_profile_id = ''p'', rr_model_id = ''m'', rr_workflow_contract = HostGroundedSynthesisCompletePacket,
     rr_verdict = Qualified, rr_contract_fingerprint = fast_triage_contract_fingerprint (\<lambda>x. x)\<rparr>"

definition sample_request :: FastTriageRouteRequest where
  "sample_request = \<lparr>rq_enabled = True, rq_profile_id = Some ''p'', rq_model_id = Some ''m'',
     rq_workflow_contract = HostGroundedSynthesisCompletePacket,
     rq_contract_fingerprint = fast_triage_contract_fingerprint (\<lambda>x. x)\<rparr>"

definition sample_selected :: SelectedFastRoute where
  "sample_selected = \<lparr>sel_role = \<lparr>rb_profile_id = ''p'', rb_model_id = ''m''\<rparr>,
     sel_workflow_contract = HostGroundedSynthesisCompletePacket,
     sel_contract_fingerprint = fast_triage_contract_fingerprint (\<lambda>x. x)\<rparr>"

lemma sample_ids: "trim ''p'' \<noteq> []" "trim ''m'' \<noteq> []"
  by code_simp+

definition cause_proposal :: ModelInvestigationAnswerV1 where
  "cause_proposal = \<lparr>mia_schema = SCHEMA_V1, mia_candidates =
     [\<lparr>md_candidate_id = ''g'', observations = [], symptoms = [], causal_candidates = [],
       initiating_causes = [\<lparr>mc_claim_id = ''k'', mc_text = ''boom'', mc_evidence_ids = [''e'']\<rparr>],
       competing_explanations = [], missing_evidence = []\<rparr>]\<rparr>"

definition sample_completion :: ChatCompletion where
  "sample_completion = \<lparr>cc_content = ''<think>hm</think>{}'', cc_tool_calls = [], cc_finish_reason = ''stop''\<rparr>"

definition sample_backend :: "(unit, unit) backend" where
  "sample_backend w msgs = (([], Completed (Inr sample_completion)), w)"

definition sample_host :: "'w host" where
  "sample_host = \<lparr>cancel_flag = (\<lambda>_. False), elapsed_ns = (\<lambda>_. 0)\<rparr>"

definition sample_route_inputs :: FastTriageInputs where
  "sample_route_inputs = \<lparr>in_user_text = ''why?'', in_packet = sample_packet, in_expected_packet_id = None,
     in_enabled = True, in_records = [sample_record], in_profile_id = Some ''p'', in_model_id = Some ''m'',
     in_fallback = None, in_budget = \<lparr>bud_deadline_ms = 0,
       bud_context_char_budget = 2 * estimate_context_chars (fast_triage_messages (\<lambda>_. []) ''why?'' sample_packet
         (fast_triage_evidence_block [] sample_packet) None),
       bud_max_corrections = 1\<rparr>\<rparr>"

lemma packing_budget_double: "n \<le> synthesis_packing_budget (2 * n)"
  by (auto simp: synthesis_packing_budget_def Let_def)

lemma sample_judged:
  "judge_terminal (\<lambda>_. Some cause_proposal) sample_packet (terminal_parse sample_completion [])
     = Inr (reference_envelope sample_ledger cause_proposal)"
  by code_simp

lemma sample_select: "select_fast_triage_route [sample_record] sample_request = Selected sample_selected"
  unfolding select_iff
  by (simp add: sample_ids sample_record_def sample_request_def sample_selected_def matching_def)

lemma sample_request_eq: "route_request (\<lambda>x. x) sample_route_inputs = sample_request"
  by (simp add: route_request_def sample_request_def sample_route_inputs_def)

lemma sample_attempt:
  assumes "\<forall>w msgs. \<exists>w'. b w msgs = (([], Completed (Inr sample_completion)), w')"
  shows "\<exists>st'. run_attempt J (\<lambda>_. Some cause_proposal) sample_host (flat_plan 0) sample_packet b msgs stage role st
    = (ResAccepted (reference_envelope sample_ledger cause_proposal), st')"
proof -
  obtain w' where "b (rs_world st) msgs = (([], Completed (Inr sample_completion)), w')" using assms by blast
  then have "within_turn_deadline sample_host (flat_plan 0) b msgs (rs_world st) = (Inr (Inr sample_completion), [], w')"
    by (simp add: within_turn_deadline_def sample_host_def remaining_for_operation_def flat_plan_def)
  then show ?thesis
    by (simp add: run_attempt_def Let_def stream_new_def stream_take_def sample_judged)
qed

text \<open>A model that answers with a valid object after a reasoning block.\<close>

lemma sample_run:
  assumes "\<forall>w msgs. \<exists>w'. b w msgs = (([], Completed (Inr sample_completion)), w')"
  shows "\<exists>t st. run_fast_triage_route (\<lambda>x. x) (\<lambda>_. []) (\<lambda>_. Some cause_proposal) alnum [] sample_host b fb sample_route_inputs w
    = (OutVerified (reference_envelope sample_ledger cause_proposal)
        (render_answer_markdown alnum (reference_envelope sample_ledger cause_proposal)) t, st)"
proof -
  let ?st = "\<lparr>rs_run = run_new, rs_events = [], rs_world = w\<rparr>"
  have fields: "in_records sample_route_inputs = [sample_record]" "in_packet sample_route_inputs = sample_packet"
    "in_expected_packet_id sample_route_inputs = None" "in_user_text sample_route_inputs = ''why?''"
    "bud_deadline_ms (in_budget sample_route_inputs) = 0"
    "bud_context_char_budget (in_budget sample_route_inputs) = 2 * estimate_context_chars
       (fast_triage_messages (\<lambda>_. []) ''why?'' sample_packet (fast_triage_evidence_block [] sample_packet) None)"
    by (simp_all add: sample_route_inputs_def)
  have ns: "[0..<Suc n] = 0 # [1..<Suc n]" for n by (simp add: upt_conv_Cons del: upt_Suc)
  obtain st' where "run_attempt (\<lambda>_. []) (\<lambda>_. Some cause_proposal) sample_host (flat_plan 0) sample_packet b
      (fast_triage_messages (\<lambda>_. []) ''why?'' sample_packet (fast_triage_evidence_block [] sample_packet) None) Primary
      (sel_role sample_selected) ?st = (ResAccepted (reference_envelope sample_ledger cause_proposal), st')"
    using sample_attempt [OF assms] by blast
  moreover have "\<not> cancel_flag sample_host w" by (simp add: sample_host_def)
  moreover have "\<not> estimate_context_chars m > synthesis_packing_budget (2 * estimate_context_chars m)" for m
    using packing_budget_double by (simp add: not_less)
  ultimately show ?thesis
    unfolding run_fast_triage_route_def Let_def fields sample_request_eq sample_select ns
    by simp
qed

theorem route_verified_sound_witness:
  "\<exists>t st. run_fast_triage_route (\<lambda>x. x) (\<lambda>_. []) (\<lambda>_. Some cause_proposal) (\<lambda>_. True) [] sample_host sample_backend None
       sample_route_inputs () = (OutVerified (reference_envelope sample_ledger cause_proposal)
         (render_answer_markdown (\<lambda>_. True) (reference_envelope sample_ledger cause_proposal)) t, st)
     \<and> is_verified (tl_outcome t) \<and> \<not> violates sample_packet (env_answer (reference_envelope sample_ledger cause_proposal)) FcRootUnsupported"
proof -
  have "ledger_new (\<lambda>x. x) sample_binding [sample_entry] = Inr (pk_ledger sample_packet)"
    unfolding sample_packet_ledger by code_simp
  then have ledger: "ledger_new (\<lambda>x. x) sample_binding [sample_entry] = Inr (pk_ledger (in_packet sample_route_inputs))"
    by (simp add: sample_route_inputs_def)
  have "\<forall>w msgs. \<exists>w'. sample_backend w msgs = (([], Completed (Inr sample_completion)), w')"
    by (simp add: sample_backend_def)
  from sample_run [OF this] obtain t st where
    run: "run_fast_triage_route (\<lambda>x. x) (\<lambda>_. []) (\<lambda>_. Some cause_proposal) (\<lambda>_. True) [] sample_host sample_backend None
       sample_route_inputs () = (OutVerified (reference_envelope sample_ledger cause_proposal)
         (render_answer_markdown (\<lambda>_. True) (reference_envelope sample_ledger cause_proposal)) t, st)" by blast
  from route_verified_sound [OF ledger run] run show ?thesis
    by (simp add: sample_route_inputs_def del: violates.simps)
qed

theorem route_calls_bounded_witness:
  "\<exists>t st. run_fast_triage_route (\<lambda>x. x) (\<lambda>_. []) (\<lambda>_. Some cause_proposal) (\<lambda>_. True) [] sample_host (logged False sample_backend)
       (map_option (logged True) None) sample_route_inputs ((), []) =
         (OutVerified (reference_envelope sample_ledger cause_proposal)
           (render_answer_markdown (\<lambda>_. True) (reference_envelope sample_ledger cause_proposal)) t, st)
     \<and> unat (tl_provider_attempts t) \<le> 3"
proof -
  have "\<forall>w msgs. \<exists>w'. logged False sample_backend w msgs = (([], Completed (Inr sample_completion)), w')"
    by (simp add: sample_backend_def logged_def)
  from sample_run [OF this] obtain t st where
    run: "run_fast_triage_route (\<lambda>x. x) (\<lambda>_. []) (\<lambda>_. Some cause_proposal) (\<lambda>_. True) [] sample_host
      (logged False sample_backend) (map_option (logged True) None) sample_route_inputs ((), []) =
         (OutVerified (reference_envelope sample_ledger cause_proposal)
           (render_answer_markdown (\<lambda>_. True) (reference_envelope sample_ledger cause_proposal)) t, st)" by blast
  with route_calls_bounded [OF run] show ?thesis by fastforce
qed

end
