(* ===== verification/Permissions.thy ===== *)
theory Permissions
  imports Rust_Strings
begin

text \<open>
  \<open>crates/cd-core/src/permissions.rs\<close>: permission requests, UI decisions, session grants and
  the question whether a tool may run without a prompt.  The specification of
  \<open>path_under_grant\<close> is on path components: a grant covers exactly the paths whose component
  list starts with the grant's.

  A fresh UUID is an argument of the request constructor.
\<close>

datatype ToolSideEffect = Read | SoftWrite | HardWrite

datatype PermissionDecision = Deny | AllowOnce | AllowSessionPath

record 'v PermissionRequest =
  pr_request_id :: string
  pr_tool_name :: string
  pr_side_effect :: ToolSideEffect
  pr_target :: string
  pr_reason :: string
  pr_preview :: string
  pr_arguments :: 'v
  pr_risk :: string
  pr_type_confirm_phrase :: "string option"

definition with_arguments ::
  "string \<Rightarrow> string \<Rightarrow> ToolSideEffect \<Rightarrow> string \<Rightarrow> string \<Rightarrow> string \<Rightarrow> string \<Rightarrow> 'v \<Rightarrow> 'v PermissionRequest" where
  "with_arguments uuid tool_name side_effect target reason preview risk arguments =
     \<lparr>pr_request_id = uuid, pr_tool_name = tool_name, pr_side_effect = side_effect,
      pr_target = target, pr_reason = reason, pr_preview = preview, pr_arguments = arguments,
      pr_risk = risk,
      pr_type_confirm_phrase =
        (if risk = ''remote'' \<or> risk = ''destructive'' then Some ''WRITE'' else None)\<rparr>"

record PermissionState =
  session_paths :: "string list"
  approved_tools :: "string list"

definition permission_default :: PermissionState where
  "permission_default = \<lparr>session_paths = [], approved_tools = []\<rparr>"

definition allow_session_path :: "string \<Rightarrow> PermissionState \<Rightarrow> PermissionState" where
  "allow_session_path p st =
     (if p \<notin> set (session_paths st) then st\<lparr>session_paths := session_paths st @ [p]\<rparr> else st)"

definition allow_session_tool :: "string \<Rightarrow> PermissionState \<Rightarrow> PermissionState" where
  "allow_session_tool t st =
     (if t \<notin> set (approved_tools st) then st\<lparr>approved_tools := approved_tools st @ [t]\<rparr> else st)"

definition path_under_grant :: "string \<Rightarrow> string \<Rightarrow> bool" where
  "path_under_grant path grant =
     (let path = trim_end_matches (trim path) (CHR ''/'');
          grant = trim_end_matches (trim grant) (CHR ''/'')
      in if grant = [] then False
         else if path = grant then True
         else starts_with path (grant @ ''/''))"

definition session_path_allowed :: "PermissionState \<Rightarrow> string \<Rightarrow> bool" where
  "session_path_allowed st path =
     (let path = trim path in list_ex (\<lambda>grant. path_under_grant path grant) (session_paths st))"

definition session_tool_allowed :: "PermissionState \<Rightarrow> string \<Rightarrow> bool" where
  "session_tool_allowed st tool_name \<longleftrightarrow> tool_name \<in> set (approved_tools st)"

definition is_confluence_write_target :: "string \<Rightarrow> bool" where
  "is_confluence_write_target target = starts_with (trim target) ''confluence://''"

definition is_harvest_target :: "string \<Rightarrow> bool" where
  "is_harvest_target target = starts_with (trim target) ''harvest://''"

definition is_destructive_memory_target :: "string \<Rightarrow> bool" where
  "is_destructive_memory_target target =
     (let t = trim target in starts_with t ''mem://retract/'' \<or> starts_with t ''mem://purge/'')"

definition destructive_memory_hard_write :: "ToolSideEffect \<Rightarrow> string \<Rightarrow> bool" where
  "destructive_memory_hard_write side_effect target \<longleftrightarrow>
     side_effect = HardWrite \<and> starts_with (trim target) ''mem://''"

definition may_execute_without_prompt :: "PermissionState \<Rightarrow> ToolSideEffect \<Rightarrow> string \<Rightarrow> bool" where
  "may_execute_without_prompt st side_effect target =
     (if starts_with target ''mcp__'' then side_effect = Read \<and> session_tool_allowed st target
      else if is_destructive_memory_target target then False
      else if is_harvest_target target then False
      else if is_confluence_write_target target then False
      else case side_effect of
        Read \<Rightarrow> True
      | SoftWrite \<Rightarrow> session_path_allowed st target
      | HardWrite \<Rightarrow>
          if destructive_memory_hard_write side_effect target then False
          else session_path_allowed st target)"

datatype decision_error = SessionPathNotAllowed | TypeConfirmRequired string

definition validate_decision ::
  "'v PermissionRequest \<Rightarrow> PermissionDecision \<Rightarrow> string option
     \<Rightarrow> (decision_error, PermissionDecision) result" where
  "validate_decision request decision typed_phrase =
     (if decision = Deny then Inr Deny
      else if decision = AllowSessionPath
         \<and> (is_confluence_write_target (pr_target request) \<or> is_harvest_target (pr_target request))
      then Inl SessionPathNotAllowed
      else case pr_type_confirm_phrase request of
        Some expected \<Rightarrow>
          (let got = trim (case typed_phrase of None \<Rightarrow> [] | Some p \<Rightarrow> p) in
           if got \<noteq> expected then Inl (TypeConfirmRequired expected) else Inr decision)
      | None \<Rightarrow> Inr decision)"

section \<open>Grants\<close>

text \<open>The targets no session grant may open, by their schemes.\<close>

definition protected_schemes :: "string list" where
  "protected_schemes = [''mem://retract/'', ''mem://purge/'', ''harvest://'', ''confluence://'']"

definition protected_target :: "string \<Rightarrow> bool" where
  "protected_target target \<longleftrightarrow> list_ex (\<lambda>scheme. prefix scheme (trim target)) protected_schemes"

lemma protected_target_iff:
  "protected_target target \<longleftrightarrow> is_destructive_memory_target target \<or> is_harvest_target target
     \<or> is_confluence_write_target target"
  by (auto simp: protected_target_def protected_schemes_def is_destructive_memory_target_def is_harvest_target_def
      is_confluence_write_target_def starts_with_def Let_def)

lemma set_allow_session_path [simp]:
  "set (session_paths (allow_session_path p st)) = insert p (set (session_paths st))"
  "approved_tools (allow_session_path p st) = approved_tools st"
  by (auto simp: allow_session_path_def)

lemma set_allow_session_tool [simp]:
  "set (approved_tools (allow_session_tool t st)) = insert t (set (approved_tools st))"
  "session_paths (allow_session_tool t st) = session_paths st"
  by (auto simp: allow_session_tool_def)

lemma path_under_grant_trim [simp]: "path_under_grant (trim path) grant = path_under_grant path grant"
  by (simp add: path_under_grant_def)

lemma session_path_allowed_iff:
  "session_path_allowed st path \<longleftrightarrow> (\<exists>grant \<in> set (session_paths st). path_under_grant path grant)"
  by (simp add: session_path_allowed_def list_ex_iff)

lemma write_without_prompt:
  "side_effect \<noteq> Read \<Longrightarrow> may_execute_without_prompt st side_effect target \<longleftrightarrow>
     \<not> starts_with target ''mcp__'' \<and> \<not> protected_target target
     \<and> \<not> destructive_memory_hard_write side_effect target
     \<and> (\<exists>grant \<in> set (session_paths st). path_under_grant target grant)"
  by (cases side_effect)
     (auto simp: may_execute_without_prompt_def protected_target_iff session_path_allowed_iff
       destructive_memory_hard_write_def)

lemma read_without_prompt:
  "may_execute_without_prompt st Read target \<longleftrightarrow>
     (if starts_with target ''mcp__'' then target \<in> set (approved_tools st)
      else \<not> protected_target target)"
  by (auto simp: may_execute_without_prompt_def protected_target_iff session_tool_allowed_def)

section \<open>Path components\<close>

fun split_on :: "'a \<Rightarrow> 'a list \<Rightarrow> 'a list list" where
  "split_on sep [] = [[]]"
| "split_on sep (c # cs) =
     (if c = sep then [] # split_on sep cs
      else case split_on sep cs of [] \<Rightarrow> [[c]] | w # ws \<Rightarrow> (c # w) # ws)"

lemma split_on_nonempty [simp]: "split_on sep cs \<noteq> []"
  by (induction sep cs rule: split_on.induct) (auto split: list.splits)

lemma split_on_append:
  "split_on sep (as @ sep # bs) = split_on sep as @ split_on sep bs"
  by (induction as) (auto split: list.splits)

lemma split_on_inject: "split_on sep as = split_on sep bs \<Longrightarrow> as = bs"
proof (induction as arbitrary: bs)
  case Nil
  then show ?case by (cases bs) (auto split: list.splits if_splits)
next
  case (Cons a as)
  then show ?case by (cases bs) (auto split: list.splits if_splits)
qed

lemma split_on_prefix:
  "prefix (split_on sep as) (split_on sep bs) \<longleftrightarrow> bs = as \<or> prefix (as @ [sep]) bs"
proof (induction as arbitrary: bs)
  case Nil
  then show ?case by (cases bs) (auto split: list.splits if_splits)
next
  case (Cons a as)
  show ?case
  proof (cases bs)
    case Nil
    then show ?thesis by (auto split: list.splits)
  next
    case bs: (Cons b bs')
    show ?thesis
      using Cons.IH [of bs'] bs by (auto split: list.splits if_splits)
  qed
qed

definition path_components :: "string \<Rightarrow> string list" where
  "path_components path = split_on (CHR ''/'') (trim_end_matches (trim path) (CHR ''/''))"

lemma path_under_grant_components:
  "path_under_grant path grant \<longleftrightarrow>
     path_components grant \<noteq> [[]] \<and> prefix (path_components grant) (path_components path)"
proof -
  have "split_on (CHR ''/'') s = [[]] \<longleftrightarrow> s = []" for s
    using split_on_inject [of "CHR ''/''" s "[]"] by auto
  then show ?thesis
    by (auto simp: path_under_grant_def path_components_def split_on_prefix starts_with_def Let_def)
qed

section \<open>Decisions\<close>

lemma validate_decision_ok:
  "validate_decision request decision typed = Inr d \<longleftrightarrow> d = decision
     \<and> (decision \<noteq> Deny \<longrightarrow>
          \<not> (decision = AllowSessionPath
             \<and> (is_confluence_write_target (pr_target request) \<or> is_harvest_target (pr_target request)))
          \<and> (\<forall>expected. pr_type_confirm_phrase request = Some expected \<longrightarrow>
               trim (case typed of None \<Rightarrow> [] | Some p \<Rightarrow> p) = expected))"
  by (auto simp: validate_decision_def Let_def split: option.splits)

end
