(* ===== verification/Permission_Gate.thy ===== *)
theory Permission_Gate
  imports Permissions
begin

text \<open>
  The permission gate of the tool host (\<open>crates/cd-core/src/tool_host.rs\<close>): the part of
  \<open>ToolHost::execute\<close> that decides whether a resolved call runs, prompts or is refused, and
  \<open>ToolHost::complete_permission\<close>, which records a decision of the user.  The state is the
  four fields of \<open>ToolHost\<close> the gate reads and writes.

  The history of a session is a list of events, newest first, built by the inductive relation
  \<open>gate_trace\<close>; the invariants relate the state to what the user decided, and the theorem is
  about every call that runs.

  Arguments of the model: the side-effect class of a tool (\<open>side_effect_for\<close>, a lookup in the
  tool registries) is \<open>side_of\<close>; the UUID, the reason and the preview text are arguments of
  the call.
\<close>

section \<open>The gate\<close>

definition may_auto_execute :: "ToolSideEffect \<Rightarrow> bool" where
  "may_auto_execute side \<longleftrightarrow> side = Read"

definition CONFLUENCE_CREATE_PAGE :: string where
  "CONFLUENCE_CREATE_PAGE = ''confluence_create_page''"
definition CONFLUENCE_UPDATE_PAGE :: string where
  "CONFLUENCE_UPDATE_PAGE = ''confluence_update_page''"

fun risk_for :: "ToolSideEffect \<Rightarrow> string \<Rightarrow> string" where
  "risk_for Read name = ''local''"
| "risk_for SoftWrite name = ''local''"
| "risk_for HardWrite name =
     (if name = CONFLUENCE_CREATE_PAGE \<or> name = CONFLUENCE_UPDATE_PAGE then ''remote''
      else ''destructive'')"

text \<open>\<open>resolve_write_target\<close>: the target of an MCP tool is its own name; for every other
  tool it is computed from the arguments (\<open>other\<close>).\<close>

definition write_target :: "string \<Rightarrow> string \<Rightarrow> string" where
  "write_target name other = (if starts_with name ''mcp__'' then name else other)"

record audit_row =
  au_tool :: string
  au_side :: ToolSideEffect
  au_target :: string
  au_outcome :: string
  au_detail :: string

record 'v gate_state =
  permissions :: PermissionState
  pending :: "string \<rightharpoonup> 'v PermissionRequest"
  approved_once :: "string \<rightharpoonup> string \<times> string"
  audit :: "audit_row list"

definition gate_init :: "'v gate_state" where
  "gate_init = \<lparr>permissions = permission_default, pending = Map.empty, approved_once = Map.empty,
     audit = []\<rparr>"

definition audit_log ::
  "string \<Rightarrow> ToolSideEffect \<Rightarrow> string \<Rightarrow> string \<Rightarrow> string \<Rightarrow> 'v gate_state \<Rightarrow> 'v gate_state" where
  "audit_log tool side target outcome detail st =
     st\<lparr>audit := audit st @ [\<lparr>au_tool = tool, au_side = side, au_target = target,
          au_outcome = outcome, au_detail = detail\<rparr>]\<rparr>"

definition consume_grant :: "string \<Rightarrow> string \<Rightarrow> string \<Rightarrow> 'v gate_state \<Rightarrow> 'v gate_state \<times> bool" where
  "consume_grant request_id name target st =
     (st\<lparr>approved_once := (approved_once st)(request_id := None)\<rparr>,
      case approved_once st request_id of
        Some (tool, tgt) \<Rightarrow> tool = name \<and> tgt = target
      | None \<Rightarrow> False)"

datatype 'v gate_outcome =
    Run
  | PermissionRequired "'v PermissionRequest"
  | InvalidGrant

definition needs_prompt :: "PermissionState \<Rightarrow> string \<Rightarrow> ToolSideEffect \<Rightarrow> string \<Rightarrow> bool" where
  "needs_prompt ps name side target \<longleftrightarrow>
     (let mcp_first_use = starts_with name ''mcp__'' \<and> \<not> session_tool_allowed ps name in
      mcp_first_use \<or> \<not> may_auto_execute side \<and> \<not> may_execute_without_prompt ps side target)"

record 'v gate_call =
  gc_uuid :: string
  gc_name :: string
  gc_other_target :: string
  gc_reason :: string
  gc_preview :: string
  gc_arguments :: 'v
  gc_granted_request_id :: "string option"

definition execute_gate ::
  "(string \<Rightarrow> ToolSideEffect) \<Rightarrow> 'v gate_call \<Rightarrow> 'v gate_state \<Rightarrow> 'v gate_state \<times> 'v gate_outcome" where
  "execute_gate side_of call st =
     (let name = gc_name call; side = side_of name; target = write_target name (gc_other_target call) in
      if needs_prompt (permissions st) name side target then
        (case gc_granted_request_id call of
           Some rid \<Rightarrow>
             (let (st1, ok) = consume_grant rid name target st in
              if \<not> ok then (st1, InvalidGrant)
              else if starts_with name ''mcp__'' \<and> side = Read
              then (st1\<lparr>permissions := allow_session_tool name (permissions st1)\<rparr>, Run)
              else (st1, Run))
         | None \<Rightarrow>
             (let req = with_arguments (gc_uuid call) name side target (gc_reason call)
                    (gc_preview call) (risk_for side name) (gc_arguments call);
                  st1 = st\<lparr>pending := (pending st)(pr_request_id req \<mapsto> req)\<rparr>
              in (audit_log name side target ''pending'' ''permission required'' st1,
                  PermissionRequired req)))
      else (st, Run))"

datatype completion_error =
    UnknownRequest
  | McpWriteNeedsAllowOnce
  | DecisionRejected decision_error

definition complete_permission ::
  "string \<Rightarrow> PermissionDecision \<Rightarrow> string option \<Rightarrow> 'v gate_state
     \<Rightarrow> 'v gate_state \<times> (completion_error, 'v PermissionRequest \<times> PermissionDecision) result" where
  "complete_permission request_id decision typed st =
     (case pending st request_id of
        None \<Rightarrow> (st, Inl UnknownRequest)
      | Some req \<Rightarrow>
          if decision = AllowSessionPath \<and> starts_with (pr_tool_name req) ''mcp__''
             \<and> pr_side_effect req \<noteq> Read
          then (st, Inl McpWriteNeedsAllowOnce)
          else
            (let st1 = st\<lparr>pending := (pending st)(request_id := None)\<rparr> in
             case validate_decision req decision typed of
               Inl err \<Rightarrow> (st1, Inl (DecisionRejected err))
             | Inr d \<Rightarrow>
                 ((case d of
                     Deny \<Rightarrow> audit_log (pr_tool_name req) (pr_side_effect req) (pr_target req)
                       ''denied'' (pr_reason req) st1
                   | AllowOnce \<Rightarrow> audit_log (pr_tool_name req) (pr_side_effect req) (pr_target req)
                       ''granted'' ''allow_once''
                       (st1\<lparr>approved_once := (approved_once st1)(request_id \<mapsto>
                          (pr_tool_name req, pr_target req))\<rparr>)
                   | AllowSessionPath \<Rightarrow> audit_log (pr_tool_name req) (pr_side_effect req)
                       (pr_target req) ''granted'' ''allow_session_path''
                       (st1\<lparr>permissions :=
                          (if starts_with (pr_tool_name req) ''mcp__''
                           then allow_session_tool (pr_tool_name req) (permissions st1)
                           else allow_session_path (pr_target req) (permissions st1))\<rparr>)),
                  Inr (req, d))))"

section \<open>Sessions\<close>

text \<open>\<open>Ran\<close> carries the grant a call consumed, if it consumed one.\<close>

datatype 'v gate_event =
    Prompted string "'v PermissionRequest"
  | Decided string "'v PermissionRequest" PermissionDecision "string option"
  | Ran string ToolSideEffect string "string option"

definition event_of_call ::
  "(string \<Rightarrow> ToolSideEffect) \<Rightarrow> 'v gate_call \<Rightarrow> 'v gate_state \<Rightarrow> 'v gate_event list" where
  "event_of_call side_of call st =
     (let name = gc_name call; side = side_of name; target = write_target name (gc_other_target call) in
      case snd (execute_gate side_of call st) of
        Run \<Rightarrow> [Ran name side target
          (if needs_prompt (permissions st) name side target then gc_granted_request_id call else None)]
      | PermissionRequired req \<Rightarrow> [Prompted (pr_request_id req) req]
      | InvalidGrant \<Rightarrow> [])"

inductive gate_trace ::
  "(string \<Rightarrow> ToolSideEffect) \<Rightarrow> 'v gate_state \<Rightarrow> 'v gate_event list \<Rightarrow> bool"
  for side_of where
  gate_start: "gate_trace side_of gate_init []"
| gate_call: "gate_trace side_of st hist \<Longrightarrow> execute_gate side_of call st = (st', outcome)
     \<Longrightarrow> gate_trace side_of st' (event_of_call side_of call st @ hist)"
| gate_decision: "gate_trace side_of st hist
     \<Longrightarrow> complete_permission request_id decision typed st = (st', Inr (req, d))
     \<Longrightarrow> gate_trace side_of st' (Decided request_id req d typed # hist)"
| gate_rejected: "gate_trace side_of st hist
     \<Longrightarrow> complete_permission request_id decision typed st = (st', Inl err)
     \<Longrightarrow> gate_trace side_of st' hist"

inductive_cases gate_trace_nonempty: "gate_trace side_of st (e # hist)"

section \<open>What the state remembers\<close>

text \<open>A request the gate issued under \<open>rid\<close>.\<close>

definition genuine :: "(string \<Rightarrow> ToolSideEffect) \<Rightarrow> 'v PermissionRequest \<Rightarrow> bool" where
  "genuine side_of req \<longleftrightarrow>
     pr_side_effect req = side_of (pr_tool_name req)
     \<and> pr_type_confirm_phrase req = (if pr_side_effect req = HardWrite then Some ''WRITE'' else None)
     \<and> (starts_with (pr_tool_name req) ''mcp__'' \<longrightarrow> pr_target req = pr_tool_name req)"

definition user_decided ::
  "'v gate_event list \<Rightarrow> string \<Rightarrow> 'v PermissionRequest \<Rightarrow> PermissionDecision \<Rightarrow> bool" where
  "user_decided hist rid req d \<longleftrightarrow> (\<exists>typed. Decided rid req d typed \<in> set hist)"

text \<open>The invariant, one clause per field: every grant in the state goes back to a decision of
  the user on a request the gate issued.\<close>

definition pending_ok :: "(string \<Rightarrow> ToolSideEffect) \<Rightarrow> 'v gate_state \<Rightarrow> 'v gate_event list \<Rightarrow> bool" where
  "pending_ok side_of st hist \<longleftrightarrow>
     (\<forall>rid req. pending st rid = Some req \<longrightarrow> genuine side_of req \<and> Prompted rid req \<in> set hist)"

definition decided_ok :: "(string \<Rightarrow> ToolSideEffect) \<Rightarrow> 'v gate_event list \<Rightarrow> bool" where
  "decided_ok side_of hist \<longleftrightarrow>
     (\<forall>rid req d typed. Decided rid req d typed \<in> set hist \<longrightarrow>
        genuine side_of req \<and> Prompted rid req \<in> set hist \<and> validate_decision req d typed = Inr d
        \<and> \<not> (d = AllowSessionPath \<and> starts_with (pr_tool_name req) ''mcp__'' \<and> pr_side_effect req \<noteq> Read))"

definition once_ok :: "'v gate_state \<Rightarrow> 'v gate_event list \<Rightarrow> bool" where
  "once_ok st hist \<longleftrightarrow>
     (\<forall>rid tool target. approved_once st rid = Some (tool, target) \<longrightarrow>
        (\<exists>req. user_decided hist rid req AllowOnce \<and> pr_tool_name req = tool \<and> pr_target req = target))"

definition paths_ok :: "PermissionState \<Rightarrow> 'v gate_event list \<Rightarrow> bool" where
  "paths_ok ps hist \<longleftrightarrow>
     (\<forall>path \<in> set (session_paths ps). \<exists>rid req. user_decided hist rid req AllowSessionPath
        \<and> pr_target req = path \<and> \<not> starts_with (pr_tool_name req) ''mcp__'')"

definition tools_ok :: "PermissionState \<Rightarrow> 'v gate_event list \<Rightarrow> bool" where
  "tools_ok ps hist \<longleftrightarrow>
     (\<forall>tool \<in> set (approved_tools ps). \<exists>rid req d. user_decided hist rid req d \<and> d \<noteq> Deny
        \<and> pr_tool_name req = tool)"

definition gate_inv :: "(string \<Rightarrow> ToolSideEffect) \<Rightarrow> 'v gate_state \<Rightarrow> 'v gate_event list \<Rightarrow> bool" where
  "gate_inv side_of st hist \<longleftrightarrow> pending_ok side_of st hist \<and> decided_ok side_of hist \<and> once_ok st hist
     \<and> paths_ok (permissions st) hist \<and> tools_ok (permissions st) hist"

lemma user_decided_append: "user_decided hist rid req d \<Longrightarrow> user_decided (es @ hist) rid req d"
  by (auto simp: user_decided_def)

lemma inv_append:
  "pending_ok side_of st hist \<Longrightarrow> pending_ok side_of st (es @ hist)"
  "once_ok st hist \<Longrightarrow> once_ok st (es @ hist)"
  "paths_ok ps hist \<Longrightarrow> paths_ok ps (es @ hist)"
  "tools_ok ps hist \<Longrightarrow> tools_ok ps (es @ hist)"
  "decided_ok side_of hist \<Longrightarrow> \<forall>e \<in> set es. \<not> (\<exists>rid req d typed. e = Decided rid req d typed)
     \<Longrightarrow> decided_ok side_of (es @ hist)"
  unfolding pending_ok_def once_ok_def paths_ok_def tools_ok_def decided_ok_def
  by (simp, meson user_decided_append, meson user_decided_append, meson user_decided_append, fastforce)

lemma inv_shrink:
  "once_ok st hist \<Longrightarrow> (\<And>rid v. approved_once st' rid = Some v \<Longrightarrow> approved_once st rid = Some v)
     \<Longrightarrow> once_ok st' hist"
  "pending_ok side_of st hist \<Longrightarrow> (\<And>rid req. pending st' rid = Some req \<Longrightarrow> pending st rid = Some req)
     \<Longrightarrow> pending_ok side_of st' hist"
  unfolding once_ok_def pending_ok_def by meson+

lemma with_arguments_genuine:
  "genuine side_of (with_arguments uuid name (side_of name) (write_target name other) reason preview
     (risk_for (side_of name) name) args)"
  by (cases "side_of name") (auto simp: genuine_def with_arguments_def write_target_def)

text \<open>What one call of the gate does.\<close>

lemma execute_gate_cases:
  assumes "execute_gate side_of call st = (st', outcome)"
  defines "name \<equiv> gc_name call" and "target \<equiv> write_target (gc_name call) (gc_other_target call)"
  obtains (auto) "\<not> needs_prompt (permissions st) name (side_of name) target" "st' = st" "outcome = Run"
    | (prompt) req where "genuine side_of req" "outcome = PermissionRequired req"
        "permissions st' = permissions st" "approved_once st' = approved_once st"
        "pending st' = (pending st)(pr_request_id req \<mapsto> req)"
    | (refused) "outcome = InvalidGrant" "permissions st' = permissions st" "pending st' = pending st"
        "\<And>rid v. approved_once st' rid = Some v \<Longrightarrow> approved_once st rid = Some v"
    | (granted) rid where "needs_prompt (permissions st) name (side_of name) target"
        "gc_granted_request_id call = Some rid" "approved_once st rid = Some (name, target)"
        "outcome = Run" "pending st' = pending st" "approved_once st' = (approved_once st)(rid := None)"
        "permissions st' = (if starts_with name ''mcp__'' \<and> side_of name = Read
           then allow_session_tool name (permissions st) else permissions st)"
proof (cases "needs_prompt (permissions st) name (side_of name) target")
  case False
  then have "st' = st" "outcome = Run"
    using assms(1) by (simp_all add: execute_gate_def name_def target_def Let_def)
  with False show ?thesis by (rule auto)
next
  case need: True
  show ?thesis
  proof (cases "gc_granted_request_id call")
    case None
    let ?req = "with_arguments (gc_uuid call) name (side_of name) target (gc_reason call)
        (gc_preview call) (risk_for (side_of name) name) (gc_arguments call)"
    have "genuine side_of ?req" unfolding target_def name_def by (rule with_arguments_genuine)
    then show ?thesis
      using assms(1) need None
      by (intro prompt [of ?req])
         (auto simp: execute_gate_def name_def target_def Let_def audit_log_def)
  next
    case (Some rid)
    show ?thesis
    proof (cases "approved_once st rid = Some (name, target)")
      case True
      then show ?thesis
        using assms(1) need Some
        by (intro granted [of rid])
           (auto simp: execute_gate_def name_def target_def Let_def consume_grant_def split: if_splits)
    next
      case False
      then have "st' = st\<lparr>approved_once := (approved_once st)(rid := None)\<rparr> \<and> outcome = InvalidGrant"
        using assms(1) need Some
        by (auto simp: execute_gate_def name_def target_def Let_def consume_grant_def
            split: option.splits prod.splits if_splits)
      then show ?thesis by (intro refused) (auto split: if_splits)
    qed
  qed
qed

lemma complete_permission_ok:
  assumes "complete_permission rid decision typed st = (st', Inr (req, d))"
  shows "pending st rid = Some req" and "validate_decision req d typed = Inr d"
    and "\<not> (d = AllowSessionPath \<and> starts_with (pr_tool_name req) ''mcp__'' \<and> pr_side_effect req \<noteq> Read)"
    and "pending st' = (pending st)(rid := None)"
    and "approved_once st' = (if d = AllowOnce
      then (approved_once st)(rid \<mapsto> (pr_tool_name req, pr_target req)) else approved_once st)"
    and "permissions st' = (if d \<noteq> AllowSessionPath then permissions st
      else if starts_with (pr_tool_name req) ''mcp__'' then allow_session_tool (pr_tool_name req) (permissions st)
      else allow_session_path (pr_target req) (permissions st))"
  using assms
  by (auto simp: complete_permission_def Let_def audit_log_def validate_decision_ok
      split: option.splits if_splits sum.splits PermissionDecision.splits)

lemma complete_permission_err:
  assumes "complete_permission rid decision typed st = (st', Inl err)"
  shows "permissions st' = permissions st" and "approved_once st' = approved_once st"
    and "pending st' r = Some q \<Longrightarrow> pending st r = Some q"
  using assms by (auto simp: complete_permission_def Let_def split: option.splits if_splits sum.splits)

lemma gate_inv_call:
  assumes inv: "gate_inv side_of st hist" and step: "execute_gate side_of call st = (st', outcome)"
  shows "gate_inv side_of st' (event_of_call side_of call st @ hist)"
proof -
  let ?es = "event_of_call side_of call st"
  have nd: "\<forall>e \<in> set ?es. \<not> (\<exists>rid req d typed. e = Decided rid req d typed)"
    by (auto simp: event_of_call_def Let_def split: gate_outcome.splits)
  have old: "pending_ok side_of st (?es @ hist)" "decided_ok side_of (?es @ hist)" "once_ok st (?es @ hist)"
    "paths_ok (permissions st) (?es @ hist)" "tools_ok (permissions st) (?es @ hist)"
    using inv nd by (simp_all add: gate_inv_def inv_append)
  show ?thesis
    using step
  proof (cases rule: execute_gate_cases)
    case auto
    then show ?thesis using old by (simp add: gate_inv_def)
  next
    case refused
    have "once_ok st' (?es @ hist)" by (rule inv_shrink(1) [OF old(3)]) (rule refused(4))
    moreover have "pending_ok side_of st' (?es @ hist)"
      by (rule inv_shrink(2) [OF old(1)]) (simp add: refused(3))
    ultimately show ?thesis using old refused(2) by (simp add: gate_inv_def)
  next
    case (prompt req)
    have "Prompted (pr_request_id req) req \<in> set ?es"
      using step prompt(2) by (simp add: event_of_call_def Let_def)
    then have "pending_ok side_of st' (?es @ hist)"
      using old(1) prompt(1,5) by (simp add: pending_ok_def)
    moreover have "once_ok st' (?es @ hist)" using old(3) prompt(4) by (simp add: once_ok_def)
    ultimately show ?thesis using old prompt(3) by (simp add: gate_inv_def)
  next
    case (granted rid)
    from old(3) granted(3) obtain req where
      "user_decided (?es @ hist) rid req AllowOnce" "pr_tool_name req = gc_name call"
      unfolding once_ok_def by blast
    then have "tools_ok (allow_session_tool (gc_name call) (permissions st)) (?es @ hist)"
      using old(5) PermissionDecision.distinct(2) unfolding tools_ok_def set_allow_session_tool by blast
    moreover have "once_ok st' (?es @ hist)"
      by (rule inv_shrink(1) [OF old(3)]) (simp add: granted(6) split: if_splits)
    moreover have "pending_ok side_of st' (?es @ hist)" using old(1) granted(5) by (simp add: pending_ok_def)
    ultimately show ?thesis
      using old granted(7) by (simp add: gate_inv_def paths_ok_def)
  qed
qed

lemma gate_inv_decision:
  assumes inv: "gate_inv side_of st hist"
    and step: "complete_permission rid decision typed st = (st', Inr (req, d))"
  shows "gate_inv side_of st' (Decided rid req d typed # hist)"
proof -
  note ok = complete_permission_ok [OF step]
  let ?h = "[Decided rid req d typed] @ hist"
  have old: "pending_ok side_of st ?h" "once_ok st ?h" "paths_ok (permissions st) ?h"
    "tools_ok (permissions st) ?h"
    using inv unfolding gate_inv_def by (simp_all only: inv_append)
  have new: "user_decided ?h rid req d" by (auto simp: user_decided_def)
  have "genuine side_of req \<and> Prompted rid req \<in> set hist"
    using inv ok(1) by (simp add: gate_inv_def pending_ok_def)
  then have "decided_ok side_of ?h"
    using inv ok(2,3) by (auto simp: gate_inv_def decided_ok_def)
  moreover have "pending_ok side_of st' ?h"
    by (rule inv_shrink(2) [OF old(1)]) (simp add: ok(4) split: if_splits)
  moreover have "once_ok st' ?h"
    using old(2) ok(5) new by (auto simp: once_ok_def split: if_splits)
  moreover have "paths_ok (permissions st') ?h"
    using old(3) ok(6) new by (auto simp: paths_ok_def split: if_splits)
  moreover have "tools_ok (permissions st') ?h"
    using old(4) ok(6) new by (auto simp: tools_ok_def split: if_splits)
  ultimately show ?thesis by (simp add: gate_inv_def)
qed

lemma gate_inv_reachable: "gate_trace side_of st hist \<Longrightarrow> gate_inv side_of st hist"
proof (induction rule: gate_trace.induct)
  case gate_start
  show ?case
    by (simp add: gate_inv_def gate_init_def pending_ok_def decided_ok_def once_ok_def paths_ok_def
        tools_ok_def permission_default_def)
next
  case (gate_call st hist call st' outcome)
  then show ?case using gate_inv_call by blast
next
  case (gate_decision st hist rid decision typed st' req d)
  then show ?case using gate_inv_decision by blast
next
  case (gate_rejected st hist rid decision typed st' err)
  then show ?case
    using complete_permission_err [OF gate_rejected.hyps(2)] inv_shrink
    unfolding gate_inv_def by metis
qed

section \<open>Grants are used at most once\<close>

fun uses_grant :: "string \<Rightarrow> 'v gate_event \<Rightarrow> bool" where
  "uses_grant g (Ran name side target used) \<longleftrightarrow> used = Some g"
| "uses_grant g _ \<longleftrightarrow> False"

fun allows_once :: "string \<Rightarrow> 'v gate_event \<Rightarrow> bool" where
  "allows_once g (Decided rid req d typed) \<longleftrightarrow> rid = g \<and> d = AllowOnce"
| "allows_once g _ \<longleftrightarrow> False"

fun prompts :: "string \<Rightarrow> 'v gate_event \<Rightarrow> bool" where
  "prompts g (Prompted rid req) \<longleftrightarrow> rid = g"
| "prompts g _ \<longleftrightarrow> False"

definition occurrences :: "('a \<Rightarrow> bool) \<Rightarrow> 'a list \<Rightarrow> nat" where
  "occurrences P xs = length (filter P xs)"

lemma occurrences_simps [simp]:
  "occurrences P [] = 0" "occurrences P (x # xs) = (if P x then 1 else 0) + occurrences P xs"
  "occurrences P (xs @ ys) = occurrences P xs + occurrences P ys"
  by (simp_all add: occurrences_def)

definition held :: "'a option \<Rightarrow> nat" where
  "held x = (if x = None then 0 else 1)"

lemma held_simps [simp]: "held None = 0" "held (Some x) = 1"
  by (simp_all add: held_def)

lemma grant_accounting:
  "gate_trace side_of st hist \<Longrightarrow>
     occurrences (uses_grant g) hist + held (approved_once st g) \<le> occurrences (allows_once g) hist
   \<and> occurrences (allows_once g) hist + held (pending st g) \<le> occurrences (prompts g) hist"
proof (induction rule: gate_trace.induct)
  case gate_start
  then show ?case by (simp add: gate_init_def)
next
  case (gate_call st hist call st' outcome)
  from gate_call.hyps(2) show ?case
  proof (cases rule: execute_gate_cases)
    case auto
    then have "event_of_call side_of call st = [Ran (gc_name call) (side_of (gc_name call))
        (write_target (gc_name call) (gc_other_target call)) None]"
      using gate_call.hyps(2) by (simp add: event_of_call_def Let_def)
    with auto gate_call.IH show ?thesis by simp
  next
    case (prompt req)
    then have "event_of_call side_of call st = [Prompted (pr_request_id req) req]"
      using gate_call.hyps(2) by (simp add: event_of_call_def Let_def)
    with prompt gate_call.IH show ?thesis by (auto simp: held_def)
  next
    case refused
    then have ev: "event_of_call side_of call st = []"
      using gate_call.hyps(2) by (simp add: event_of_call_def Let_def)
    have "held (approved_once st' g) \<le> held (approved_once st g)"
      using refused(4) [of g] by (cases "approved_once st' g") (auto simp: held_def)
    with ev refused(3) gate_call.IH show ?thesis by simp
  next
    case (granted rid)
    then have "event_of_call side_of call st = [Ran (gc_name call) (side_of (gc_name call))
        (write_target (gc_name call) (gc_other_target call)) (Some rid)]"
      using gate_call.hyps(2) by (simp add: event_of_call_def Let_def)
    with granted(3,5,6) gate_call.IH show ?thesis by (auto simp: held_def)
  qed
next
  case (gate_decision st hist rid decision typed st' req d)
  note ok = complete_permission_ok [OF gate_decision.hyps(2)]
  from ok(1,4,5) gate_decision.IH show ?case by (auto simp: held_def split: if_splits)
next
  case (gate_rejected st hist rid decision typed st' err)
  have "held (pending st' g) \<le> held (pending st g)"
    using complete_permission_err(3) [OF gate_rejected.hyps(2), of g]
    by (cases "pending st' g") (auto simp: held_def)
  then show ?case
    using complete_permission_err(2) [OF gate_rejected.hyps(2)] gate_rejected.IH by simp
qed

section \<open>Every call that runs was allowed\<close>

text \<open>\<open>allowed_by earlier\<close>: the decisions of the user that allow a call to run.\<close>

definition allowed_once_by :: "'v gate_event list \<Rightarrow> string \<Rightarrow> ToolSideEffect \<Rightarrow> string \<Rightarrow> string \<Rightarrow> bool" where
  "allowed_once_by earlier name side target g \<longleftrightarrow>
     (\<exists>req typed. Decided g req AllowOnce typed \<in> set earlier \<and> Prompted g req \<in> set earlier
        \<and> pr_tool_name req = name \<and> pr_target req = target \<and> pr_side_effect req = side
        \<and> (side = HardWrite \<longrightarrow> trim (case typed of None \<Rightarrow> [] | Some p \<Rightarrow> p) = ''WRITE''))"

definition allowed_by_session :: "'v gate_event list \<Rightarrow> ToolSideEffect \<Rightarrow> string \<Rightarrow> bool" where
  "allowed_by_session earlier side target \<longleftrightarrow>
     \<not> protected_target target \<and> \<not> destructive_memory_hard_write side target
     \<and> (\<exists>g req. user_decided earlier g req AllowSessionPath \<and> path_under_grant target (pr_target req))"

definition allowed :: "'v gate_event list \<Rightarrow> string \<Rightarrow> ToolSideEffect \<Rightarrow> string \<Rightarrow> string option \<Rightarrow> bool" where
  "allowed earlier name side target used \<longleftrightarrow>
     (side \<noteq> Read \<longrightarrow> (case used of Some g \<Rightarrow> allowed_once_by earlier name side target g
        | None \<Rightarrow> allowed_by_session earlier side target))
     \<and> (starts_with name ''mcp__'' \<longrightarrow>
          (\<exists>g req d. user_decided earlier g req d \<and> d \<noteq> Deny \<and> pr_tool_name req = name))"

fun all_allowed :: "'v gate_event list \<Rightarrow> bool" where
  "all_allowed [] \<longleftrightarrow> True"
| "all_allowed (Ran name side target used # hist) \<longleftrightarrow> allowed hist name side target used \<and> all_allowed hist"
| "all_allowed (_ # hist) \<longleftrightarrow> all_allowed hist"

lemma all_allowed_split: "all_allowed (later @ Ran name side target used # earlier) \<Longrightarrow>
    allowed earlier name side target used"
proof (induction later)
  case (Cons e later)
  then show ?case by (cases e) auto
qed simp

lemma run_auto_allowed:
  assumes inv: "gate_inv side_of st hist"
    and auto: "\<not> needs_prompt (permissions st) name (side_of name) target"
  shows "allowed hist name (side_of name) target None"
proof -
  have mcp: "starts_with name ''mcp__'' \<longrightarrow> session_tool_allowed (permissions st) name"
    using auto by (auto simp: needs_prompt_def)
  have tools: "\<exists>g req d. user_decided hist g req d \<and> d \<noteq> Deny \<and> pr_tool_name req = name"
    if "starts_with name ''mcp__''"
    using that mcp inv by (simp add: gate_inv_def tools_ok_def session_tool_allowed_def)
  have "allowed_by_session hist (side_of name) target" if wr: "side_of name \<noteq> Read"
  proof -
    have "may_execute_without_prompt (permissions st) (side_of name) target"
      using auto wr by (simp add: needs_prompt_def may_auto_execute_def Let_def)
    then obtain grant where "\<not> protected_target target" "\<not> destructive_memory_hard_write (side_of name) target"
      and grant: "grant \<in> set (session_paths (permissions st))" "path_under_grant target grant"
      unfolding write_without_prompt [OF wr] by blast
    moreover from inv grant(1) obtain g req where
      "user_decided hist g req AllowSessionPath" "pr_target req = grant"
      unfolding gate_inv_def paths_ok_def by blast
    ultimately show ?thesis using grant(2) unfolding allowed_by_session_def by blast
  qed
  with tools show ?thesis by (simp add: allowed_def)
qed

lemma run_granted_allowed:
  assumes inv: "gate_inv side_of st hist" and grant: "approved_once st g = Some (name, target)"
  shows "allowed hist name (side_of name) target (Some g)"
proof -
  from inv grant obtain req where dec: "user_decided hist g req AllowOnce"
    and req: "pr_tool_name req = name" "pr_target req = target"
    unfolding gate_inv_def once_ok_def by blast
  then obtain typed where typed: "Decided g req AllowOnce typed \<in> set hist" by (auto simp: user_decided_def)
  then have ok: "genuine side_of req" "Prompted g req \<in> set hist" "validate_decision req AllowOnce typed = Inr AllowOnce"
    using inv by (auto simp: gate_inv_def decided_ok_def)
  have "allowed_once_by hist name (side_of name) target g"
    unfolding allowed_once_by_def using typed ok req
    by (intro exI [of _ req] exI [of _ typed]) (auto simp: genuine_def validate_decision_ok)
  with dec req show ?thesis
    using PermissionDecision.distinct(2) unfolding allowed_def option.case by blast
qed

lemma trace_all_allowed: "gate_trace side_of st hist \<Longrightarrow> all_allowed hist"
proof (induction rule: gate_trace.induct)
  case (gate_call st hist call st' outcome)
  note inv = gate_inv_reachable [OF gate_call.hyps(1)]
  from gate_call.hyps(2) show ?case
  proof (cases rule: execute_gate_cases)
    case auto
    then have "event_of_call side_of call st = [Ran (gc_name call) (side_of (gc_name call))
        (write_target (gc_name call) (gc_other_target call)) None]"
      using gate_call.hyps(2) by (simp add: event_of_call_def Let_def)
    with run_auto_allowed [OF inv auto(1)] gate_call.IH show ?thesis by simp
  next
    case (prompt req)
    with gate_call.hyps(2) gate_call.IH show ?thesis by (simp add: event_of_call_def Let_def)
  next
    case refused
    with gate_call.hyps(2) gate_call.IH show ?thesis by (simp add: event_of_call_def Let_def)
  next
    case (granted rid)
    then have "event_of_call side_of call st = [Ran (gc_name call) (side_of (gc_name call))
        (write_target (gc_name call) (gc_other_target call)) (Some rid)]"
      using gate_call.hyps(2) by (simp add: event_of_call_def Let_def)
    with run_granted_allowed [OF inv granted(3)] gate_call.IH show ?thesis by simp
  qed
qed simp_all

end
