(* ===== verification/Permission_Properties.thy ===== *)
theory Permission_Properties
  imports Permission_Gate
begin

text \<open>
  The properties of permissions and of the permission gate, with a witness session: a
  destructive tool is called, prompts, is confirmed by typing the phrase, and runs once.
\<close>

section \<open>A session\<close>

definition wipe_side :: "string \<Rightarrow> ToolSideEffect" where
  "wipe_side name = (if name = ''wipe'' then HardWrite else SoftWrite)"

definition wipe_call :: "string option \<Rightarrow> unit gate_call" where
  "wipe_call granted = \<lparr>gc_uuid = ''r1'', gc_name = ''wipe'', gc_other_target = ''notes/a'',
     gc_reason = ''tool requested write'', gc_preview = ''wipe notes/a'', gc_arguments = (),
     gc_granted_request_id = granted\<rparr>"

definition wipe_request :: "unit PermissionRequest" where
  "wipe_request = with_arguments ''r1'' ''wipe'' HardWrite ''notes/a'' ''tool requested write''
     ''wipe notes/a'' ''destructive'' ()"

definition wipe_history :: "unit gate_event list" where
  "wipe_history = [Ran ''wipe'' HardWrite ''notes/a'' (Some ''r1''),
     Decided ''r1'' wipe_request AllowOnce (Some ''WRITE''), Prompted ''r1'' wipe_request]"

lemma wipe_needs_prompt: "needs_prompt permission_default ''wipe'' HardWrite ''notes/a''"
  by code_simp

lemma wipe_trace: "\<exists>st. gate_trace wipe_side st wipe_history"
proof -
  let ?st1 = "fst (execute_gate wipe_side (wipe_call None) gate_init)"
  let ?st2 = "fst (complete_permission ''r1'' AllowOnce (Some ''WRITE'') ?st1)"
  let ?st3 = "fst (execute_gate wipe_side (wipe_call (Some ''r1'')) ?st2)"
  have mcp: "\<not> starts_with ''wipe'' ''mcp__''" by code_simp
  have phrase: "trim ''WRITE'' = ''WRITE''" by code_simp
  note defs = execute_gate_def wipe_call_def wipe_side_def write_target_def mcp wipe_needs_prompt
    gate_init_def audit_log_def complete_permission_def with_arguments_def validate_decision_def
    consume_grant_def phrase event_of_call_def wipe_request_def CONFLUENCE_CREATE_PAGE_def
    CONFLUENCE_UPDATE_PAGE_def Let_def
  have ev1: "event_of_call wipe_side (wipe_call None) gate_init = [Prompted ''r1'' wipe_request]"
    by (simp add: defs)
  have t1: "gate_trace wipe_side ?st1 [Prompted ''r1'' wipe_request]"
    using gate_call [OF gate_start, of wipe_side "wipe_call None" ?st1] ev1
    by (metis append.right_neutral prod.collapse)
  have d: "complete_permission ''r1'' AllowOnce (Some ''WRITE'') ?st1 = (?st2, Inr (wipe_request, AllowOnce))"
    by (simp add: defs)
  have t2: "gate_trace wipe_side ?st2
      (Decided ''r1'' wipe_request AllowOnce (Some ''WRITE'') # [Prompted ''r1'' wipe_request])"
    by (rule gate_decision [OF t1 d])
  have ev3: "event_of_call wipe_side (wipe_call (Some ''r1'')) ?st2 =
      [Ran ''wipe'' HardWrite ''notes/a'' (Some ''r1'')]"
    by (simp add: defs)
  have "gate_trace wipe_side ?st3 wipe_history"
    using gate_call [OF t2, of "wipe_call (Some ''r1'')" ?st3] ev3
    by (metis append_Cons append_Nil prod.collapse wipe_history_def)
  then show ?thesis by blast
qed

section \<open>The gate\<close>

text \<open>C6: In every session, every write that runs was allowed by the user beforehand: either
  it consumed the one-time grant of a request that named this very tool and target (confirmed
  by typing WRITE if the tool is a hard write), or an earlier session grant covers its target
  and the target is not protected.  Every MCP tool that runs was approved by name.\<close>

theorem every_run_was_allowed:
  assumes "gate_trace side_of st hist" and "hist = later @ Ran name side target used # earlier"
  shows "(side \<noteq> Read \<longrightarrow> (case used of Some g \<Rightarrow> allowed_once_by earlier name side target g
        | None \<Rightarrow> allowed_by_session earlier side target))
     \<and> (starts_with name ''mcp__'' \<longrightarrow>
          (\<exists>g req d. user_decided earlier g req d \<and> d \<noteq> Deny \<and> pr_tool_name req = name))"
  using all_allowed_split trace_all_allowed [OF assms(1)] assms(2) unfolding allowed_def by blast

theorem every_run_was_allowed_witness:
  "allowed_once_by [Decided ''r1'' wipe_request AllowOnce (Some ''WRITE''), Prompted ''r1'' wipe_request]
     ''wipe'' HardWrite ''notes/a'' ''r1''"
proof -
  obtain st where t: "gate_trace wipe_side st wipe_history" using wipe_trace by blast
  have "wipe_history = [] @ Ran ''wipe'' HardWrite ''notes/a'' (Some ''r1'')
      # [Decided ''r1'' wipe_request AllowOnce (Some ''WRITE''), Prompted ''r1'' wipe_request]"
    by (simp add: wipe_history_def)
  from every_run_was_allowed [OF t this] show ?thesis by simp
qed

text \<open>C11: A one-time grant is used at most once: the calls that ran on a request id never
  outnumber the user's one-time approvals of it, and these never outnumber the prompts issued
  under it; since request ids are fresh UUIDs, each prompt allows at most one run.\<close>

theorem grant_used_at_most_once:
  assumes "gate_trace side_of st hist"
  shows "occurrences (uses_grant g) hist \<le> occurrences (allows_once g) hist
     \<and> occurrences (allows_once g) hist \<le> occurrences (prompts g) hist"
  using grant_accounting [OF assms, of g] by linarith

theorem grant_used_at_most_once_witness: "occurrences (uses_grant ''r1'') wipe_history \<le> 1"
proof -
  obtain st where t: "gate_trace wipe_side st wipe_history" using wipe_trace by blast
  have "occurrences (prompts ''r1'') wipe_history = 1" by (simp add: wipe_history_def)
  with grant_used_at_most_once [OF t, of "''r1''"] show ?thesis by linarith
qed

section \<open>Grants and decisions\<close>

text \<open>A path is under a grant exactly when the path components of the (trimmed) grant are
  a non-empty prefix of the path's components, so \<open>/tmp/a\<close> does not cover \<open>/tmp/ab\<close>.\<close>

theorem path_grant_is_component_prefix:
  "path_under_grant path grant \<longleftrightarrow>
     path_components grant \<noteq> [[]] \<and> prefix (path_components grant) (path_components path)"
  by (rule path_under_grant_components)


text \<open>Validation of a decision never changes it: it passes through exactly when it is a
  denial, or is no session grant for a Confluence or harvest target and the phrase the request
  asks for was typed (up to surrounding white space).\<close>

theorem decision_validation_exact:
  "validate_decision request decision typed = Inr d \<longleftrightarrow> d = decision
     \<and> (decision = Deny \<or>
          \<not> (decision = AllowSessionPath
             \<and> (is_confluence_write_target (pr_target request) \<or> is_harvest_target (pr_target request)))
          \<and> pr_type_confirm_phrase request
              \<in> {None, Some (trim (case typed of None \<Rightarrow> [] | Some p \<Rightarrow> p))})"
  unfolding validate_decision_ok by (cases "pr_type_confirm_phrase request") auto

theorem decision_validation_exact_witness:
  "validate_decision wipe_request AllowOnce (Some ''WRITE'') = Inr AllowOnce"
proof -
  have "trim ''WRITE'' = ''WRITE''" by code_simp
  then show ?thesis
    unfolding decision_validation_exact by (simp add: wipe_request_def with_arguments_def)
qed

end
