(* ===== verification/Audit_Log.thy ===== *)
theory Audit_Log
  imports Permissions Text_Lines
begin

text \<open>
  The audit log of tool calls, \<open>crates/cd-core/src/audit.rs\<close>: JSON lines linked by a SHA-256
  chain. The log file is its text (\<open>None\<close> when it does not exist), the tail is the hash
  guarded by the mutex. Appending may fail in the file system or on a poisoned lock
  (\<open>append_fault\<close>, with the number of bytes written before a failed write).

  Arguments of the model: \<open>to_json\<close> and \<open>from_json\<close> (crate \<open>serde_json\<close> on \<open>AuditEntry\<close>),
  \<open>sha256\<close> (crate \<open>sha2\<close>) and \<open>scrub\<close> (the secret scrubber of \<open>redact.rs\<close>, about which nothing
  is assumed). A timestamp is its serialized text. The file is UTF-8 and readable.
\<close>

section \<open>Entries and the hash of an entry\<close>

record AuditEntry =
  ae_at :: string
  ae_tool :: string
  ae_side_effect :: ToolSideEffect
  ae_target :: string
  ae_outcome :: string
  ae_detail :: string
  ae_bytes :: u64
  ae_prev_hash :: string
  ae_hash :: string

definition GENESIS :: string where
  "GENESIS = ''0000000000000000000000000000000000000000000000000000000000000000''"

definition hex_digit :: "nat \<Rightarrow> char" where
  "hex_digit n = ''0123456789abcdef'' ! n"

definition hex_encode :: "string \<Rightarrow> string" where
  "hex_encode bytes =
     concat (map (\<lambda>b. [hex_digit (of_char b div 16), hex_digit (of_char b mod 16)]) bytes)"

definition entry_hash :: "(AuditEntry \<Rightarrow> string) \<Rightarrow> (string \<Rightarrow> string) \<Rightarrow> AuditEntry \<Rightarrow> string" where
  "entry_hash to_json sha256 e =
     hex_encode (sha256 (ae_prev_hash e @ to_json (e\<lparr>ae_hash := []\<rparr>)))"

definition blank :: "string \<Rightarrow> bool" where
  "blank l \<longleftrightarrow> trim l = []"

section \<open>The log\<close>

record AuditLog =
  log_file :: "string option"
  tail :: string

datatype AuditError =
    AuditIo | TailLockPoisoned | LineJson nat | PrevHashMismatch nat | HashMismatch nat

datatype append_fault = CreateDirFault | LockFault | OpenFault | WriteFault nat

definition load_tail_hash :: "(string \<Rightarrow> AuditEntry option) \<Rightarrow> string option \<Rightarrow> string option" where
  "load_tail_hash from_json file =
     Option.bind file (\<lambda>text.
     Option.bind (find (\<lambda>l. \<not> blank l) (rev (split_lines text))) (\<lambda>l.
     Option.bind (from_json l) (\<lambda>e. if ae_hash e = [] then None else Some (ae_hash e))))"

definition audit_new :: "(string \<Rightarrow> AuditEntry option) \<Rightarrow> string option \<Rightarrow> AuditLog" where
  "audit_new from_json file =
     \<lparr>log_file = file,
      tail = (case load_tail_hash from_json file of Some h \<Rightarrow> h | None \<Rightarrow> GENESIS)\<rparr>"

definition sealed_entry ::
  "(AuditEntry \<Rightarrow> string) \<Rightarrow> (string \<Rightarrow> string) \<Rightarrow> (string \<Rightarrow> string) \<Rightarrow> string \<Rightarrow> AuditEntry \<Rightarrow> AuditEntry" where
  "sealed_entry to_json sha256 scrub prev entry =
     (let e = entry\<lparr>ae_target := scrub (ae_target entry), ae_detail := scrub (ae_detail entry),
                ae_outcome := scrub (ae_outcome entry), ae_tool := scrub (ae_tool entry),
                ae_prev_hash := prev, ae_hash := []\<rparr>
      in e\<lparr>ae_hash := hex_encode (sha256 (ae_prev_hash e @ to_json e))\<rparr>)"

definition append_entry ::
  "(AuditEntry \<Rightarrow> string) \<Rightarrow> (string \<Rightarrow> string) \<Rightarrow> (string \<Rightarrow> string) \<Rightarrow> append_fault option
     \<Rightarrow> AuditLog \<Rightarrow> AuditEntry \<Rightarrow> AuditLog \<times> (AuditError, unit) result" where
  "append_entry to_json sha256 scrub fault log entry =
     (if fault = Some CreateDirFault then (log, Inl AuditIo)
      else if fault = Some LockFault then (log, Inl TailLockPoisoned)
      else
        (let e = sealed_entry to_json sha256 scrub (tail log) entry;
             line = to_json e @ [CHR 0x0A];
             text = (case log_file log of None \<Rightarrow> [] | Some t \<Rightarrow> t)
         in case fault of
              Some OpenFault \<Rightarrow> (log, Inl AuditIo)
            | Some (WriteFault n) \<Rightarrow> (log\<lparr>log_file := Some (text @ take n line)\<rparr>, Inl AuditIo)
            | _ \<Rightarrow> (log\<lparr>log_file := Some (text @ line), tail := ae_hash e\<rparr>, Inr ())))"

definition log_call ::
  "(AuditEntry \<Rightarrow> string) \<Rightarrow> (string \<Rightarrow> string) \<Rightarrow> (string \<Rightarrow> string) \<Rightarrow> append_fault option \<Rightarrow> AuditLog
     \<Rightarrow> string \<Rightarrow> string \<Rightarrow> ToolSideEffect \<Rightarrow> string \<Rightarrow> string \<Rightarrow> string \<Rightarrow> u64
     \<Rightarrow> AuditLog \<times> (AuditError, unit) result" where
  "log_call to_json sha256 scrub fault log now tool side_effect target outcome detail bytes =
     append_entry to_json sha256 scrub fault log
       \<lparr>ae_at = now, ae_tool = tool, ae_side_effect = side_effect, ae_target = target,
        ae_outcome = outcome, ae_detail = detail, ae_bytes = bytes, ae_prev_hash = [], ae_hash = []\<rparr>"

fun verify_lines ::
  "(AuditEntry \<Rightarrow> string) \<Rightarrow> (string \<Rightarrow> AuditEntry option) \<Rightarrow> (string \<Rightarrow> string) \<Rightarrow> nat \<Rightarrow> string
     \<Rightarrow> string list \<Rightarrow> (AuditError, unit) result" where
  "verify_lines to_json from_json sha256 i prev [] = Inr ()"
| "verify_lines to_json from_json sha256 i prev (l # ls) =
     (if blank l then verify_lines to_json from_json sha256 (i + 1) prev ls
      else case from_json l of
        None \<Rightarrow> Inl (LineJson (i + 1))
      | Some e \<Rightarrow>
          if ae_prev_hash e \<noteq> prev then Inl (PrevHashMismatch (i + 1))
          else if entry_hash to_json sha256 e \<noteq> ae_hash e then Inl (HashMismatch (i + 1))
          else verify_lines to_json from_json sha256 (i + 1) (ae_hash e) ls)"

definition verify_chain ::
  "(AuditEntry \<Rightarrow> string) \<Rightarrow> (string \<Rightarrow> AuditEntry option) \<Rightarrow> (string \<Rightarrow> string) \<Rightarrow> AuditLog
     \<Rightarrow> (AuditError, unit) result" where
  "verify_chain to_json from_json sha256 log =
     (case log_file log of
        None \<Rightarrow> Inr ()
      | Some text \<Rightarrow> verify_lines to_json from_json sha256 0 GENESIS (split_lines text))"

section \<open>Specification: chains of entries\<close>

fun chain_ok :: "(AuditEntry \<Rightarrow> string) \<Rightarrow> (string \<Rightarrow> string) \<Rightarrow> string \<Rightarrow> AuditEntry list \<Rightarrow> bool" where
  "chain_ok to_json sha256 prev [] \<longleftrightarrow> True"
| "chain_ok to_json sha256 prev (e # es) \<longleftrightarrow>
     ae_prev_hash e = prev \<and> entry_hash to_json sha256 e = ae_hash e
     \<and> chain_ok to_json sha256 (ae_hash e) es"

definition chain_tail :: "string \<Rightarrow> AuditEntry list \<Rightarrow> string" where
  "chain_tail prev es = (if es = [] then prev else ae_hash (last es))"

definition line_entries :: "(string \<Rightarrow> AuditEntry option) \<Rightarrow> string list \<Rightarrow> AuditEntry option list" where
  "line_entries from_json ls = map from_json (filter (\<lambda>l. \<not> blank l) ls)"

definition log_entries :: "(string \<Rightarrow> AuditEntry option) \<Rightarrow> AuditLog \<Rightarrow> AuditEntry option list" where
  "log_entries from_json log =
     (case log_file log of None \<Rightarrow> [] | Some text \<Rightarrow> line_entries from_json (split_lines text))"

text \<open>What the log relies on of \<open>serde_json\<close>: compact output is an object on one line, and reading
  it back gives the entry.\<close>

definition json_contract :: "(AuditEntry \<Rightarrow> string) \<Rightarrow> (string \<Rightarrow> AuditEntry option) \<Rightarrow> bool" where
  "json_contract to_json from_json \<longleftrightarrow>
     (\<forall>e. from_json (to_json e) = Some e \<and> CHR 0x0A \<notin> set (to_json e)
        \<and> (\<exists>body. to_json e = CHR ''{'' # body @ [CHR ''}'']))"

lemma chain_ok_snoc [simp]:
  "chain_ok to_json sha256 prev (es @ [e]) \<longleftrightarrow>
     chain_ok to_json sha256 prev es \<and> ae_prev_hash e = chain_tail prev es
     \<and> entry_hash to_json sha256 e = ae_hash e"
  by (induction es arbitrary: prev) (auto simp: chain_tail_def)

lemma chain_ok_prefix: "chain_ok to_json sha256 prev (es @ fs) \<Longrightarrow> chain_ok to_json sha256 prev es"
  by (induction es arbitrary: prev) auto

lemma chain_tail_simps [simp]: "chain_tail prev [] = prev" "chain_tail prev (es @ [e]) = ae_hash e"
  by (simp_all add: chain_tail_def)

lemma verify_lines_iff:
  "verify_lines to_json from_json sha256 i prev ls = Inr () \<longleftrightarrow>
     (\<exists>es. line_entries from_json ls = map Some es \<and> chain_ok to_json sha256 prev es)"
proof (induction to_json from_json sha256 i prev ls rule: verify_lines.induct)
  case (2 to_json from_json sha256 i prev l ls)
  show ?case
  proof (cases "blank l")
    case True
    then show ?thesis using 2(1) by (simp add: line_entries_def)
  next
    case False
    show ?thesis
    proof (cases "from_json l")
      case None
      with False show ?thesis by (auto simp: line_entries_def)
    next
      case (Some e)
      let ?ok = "ae_prev_hash e = prev \<and> entry_hash to_json sha256 e = ae_hash e"
      have "verify_lines to_json from_json sha256 i prev (l # ls) = Inr () \<longleftrightarrow>
          ?ok \<and> verify_lines to_json from_json sha256 (i + 1) (ae_hash e) ls = Inr ()"
        using False Some by simp
      also have "\<dots> \<longleftrightarrow> ?ok \<and> (\<exists>es. line_entries from_json ls = map Some es \<and> chain_ok to_json sha256 (ae_hash e) es)"
        using 2(2) [OF False Some] by auto
      also have "\<dots> \<longleftrightarrow> (\<exists>es. Some e # line_entries from_json ls = map Some es \<and> chain_ok to_json sha256 prev es)"
        by (auto simp: Cons_eq_map_conv intro: exI [of _ "e # _"])
      finally show ?thesis
        using False Some by (simp add: line_entries_def)
    qed
  qed
qed (simp add: line_entries_def)

lemma verify_chain_iff:
  "verify_chain to_json from_json sha256 log = Inr () \<longleftrightarrow>
     (\<exists>es. log_entries from_json log = map Some es \<and> chain_ok to_json sha256 GENESIS es)"
  by (auto simp: verify_chain_def log_entries_def verify_lines_iff split: option.splits)

section \<open>Lines and the tail\<close>

lemma find_rev: "find P (rev xs) = (if filter P xs = [] then None else Some (last (filter P xs)))"
  by (induction xs rule: rev_induct) (auto simp: filter_empty_conv)

lemma load_tail_entries:
  assumes "log_entries from_json \<lparr>log_file = f, tail = t\<rparr> = map Some es"
    and "\<forall>e \<in> set es. ae_hash e \<noteq> []"
  shows "tail (audit_new from_json f) = chain_tail GENESIS es"
proof (cases f)
  case None
  then have "es = []" using assms(1) by (simp add: log_entries_def)
  then show ?thesis by (simp add: audit_new_def load_tail_hash_def None)
next
  case (Some content)
  let ?ls = "filter (\<lambda>l. \<not> blank l) (split_lines content)"
  have ls: "map from_json ?ls = map Some es"
    using assms(1) Some by (simp add: log_entries_def line_entries_def)
  show ?thesis
  proof (cases "?ls = []")
    case True
    with ls show ?thesis by (simp add: audit_new_def load_tail_hash_def Some find_rev)
  next
    case False
    with ls have "es \<noteq> []" by auto
    moreover have "last (map from_json ?ls) = last (map Some es)" by (simp only: ls)
    ultimately have "es \<noteq> []" "from_json (last ?ls) = Some (last es)"
      using False by (simp_all only: last_map list.map_disc_iff simp_thms)
    then show ?thesis
      using assms(2) False by (simp add: audit_new_def load_tail_hash_def Some find_rev chain_tail_def)
  qed
qed

lemma json_line:
  assumes "json_contract to_json from_json"
  shows "\<not> blank (to_json e)" "strip_cr (to_json e) = to_json e" "CHR 0x0A \<notin> set (to_json e)"
    "from_json (to_json e) = Some e"
proof -
  obtain body where body: "to_json e = CHR ''{'' # body @ [CHR ''}'']"
    using assms by (auto simp: json_contract_def)
  have "\<not> is_whitespace (CHR ''{'' # cs)" for cs
    by (simp add: is_whitespace_def whitespace_chars_def)
  then show "\<not> blank (to_json e)" by (simp add: blank_def body trim_empty_iff)
  show "strip_cr (to_json e) = to_json e" by (simp add: strip_cr_def body)
qed (use assms in \<open>auto simp: json_contract_def\<close>)

lemma hex_encode_Cons:
  "hex_encode (b # bs) = hex_digit (of_char b div 16) # hex_digit (of_char b mod 16) # hex_encode bs"
  by (simp add: hex_encode_def)

lemma hex_encode_length: "length (hex_encode bs) = 2 * length bs"
  by (induction bs) (simp_all add: hex_encode_def)

lemma hex_digit_inj: "m < 16 \<Longrightarrow> n < 16 \<Longrightarrow> hex_digit m = hex_digit n \<longleftrightarrow> m = n"
proof -
  have "distinct ''0123456789abcdef''" by code_simp
  then show "m < 16 \<Longrightarrow> n < 16 \<Longrightarrow> hex_digit m = hex_digit n \<longleftrightarrow> m = n"
    unfolding hex_digit_def by (subst nth_eq_iff_index_eq) simp_all
qed

lemma hex_encode_inj: "hex_encode xs = hex_encode ys \<Longrightarrow> xs = ys"
proof (induction xs arbitrary: ys)
  case (Cons x xs)
  then obtain y ys' where ys: "ys = y # ys'" by (cases ys) (auto simp: hex_encode_def)
  have "(of_char c :: nat) div 16 < 16" for c
    using nat_of_char_less_256 [of c] by (intro less_mult_imp_div_less) simp
  then have "(of_char x :: nat) div 16 = of_char y div 16" "(of_char x :: nat) mod 16 = of_char y mod 16"
    using Cons.prems by (simp_all add: ys hex_encode_Cons hex_digit_inj)
  then have "(of_char x :: nat) = of_char y" by (metis div_mult_mod_eq)
  then have "x = y" by simp
  with Cons show ?case by (simp add: ys hex_encode_Cons)
qed (auto simp: hex_encode_def)

section \<open>Appending\<close>

definition scrubbed :: "(string \<Rightarrow> string) \<Rightarrow> AuditEntry \<Rightarrow> AuditEntry" where
  "scrubbed scrub e = e\<lparr>ae_target := scrub (ae_target e), ae_detail := scrub (ae_detail e),
     ae_outcome := scrub (ae_outcome e), ae_tool := scrub (ae_tool e)\<rparr>"

definition payload :: "AuditEntry \<Rightarrow> AuditEntry" where
  "payload e = e\<lparr>ae_prev_hash := [], ae_hash := []\<rparr>"

text \<open>One append of a session: the entry and the fault it meets.\<close>

definition audit_step ::
  "(AuditEntry \<Rightarrow> string) \<Rightarrow> (string \<Rightarrow> string) \<Rightarrow> (string \<Rightarrow> string) \<Rightarrow> AuditLog
     \<Rightarrow> AuditEntry \<times> append_fault option \<Rightarrow> AuditLog" where
  "audit_step to_json sha256 scrub log x = fst (append_entry to_json sha256 scrub (snd x) log (fst x))"

definition no_partial_write :: "append_fault option \<Rightarrow> bool" where
  "no_partial_write fault \<longleftrightarrow> (\<forall>n. fault \<noteq> Some (WriteFault n))"

definition log_ok ::
  "(AuditEntry \<Rightarrow> string) \<Rightarrow> (string \<Rightarrow> AuditEntry option) \<Rightarrow> (string \<Rightarrow> string) \<Rightarrow> AuditLog \<Rightarrow> AuditEntry list \<Rightarrow> bool" where
  "log_ok to_json from_json sha256 log es \<longleftrightarrow>
     log_entries from_json log = map Some es \<and> chain_ok to_json sha256 GENESIS es
     \<and> tail log = chain_tail GENESIS es
     \<and> (case log_file log of None \<Rightarrow> True | Some text \<Rightarrow> newline_terminated text)"

lemma sealed_entry_facts:
  "ae_prev_hash (sealed_entry to_json sha256 scrub prev e) = prev"
  "entry_hash to_json sha256 (sealed_entry to_json sha256 scrub prev e)
     = ae_hash (sealed_entry to_json sha256 scrub prev e)"
  "payload (sealed_entry to_json sha256 scrub prev e) = payload (scrubbed scrub e)"
  by (simp_all add: sealed_entry_def entry_hash_def Let_def payload_def scrubbed_def)

lemma append_entry_ok:
  assumes json: "json_contract to_json from_json" and ok: "log_ok to_json from_json sha256 log es"
  shows "log_ok to_json from_json sha256 (audit_step to_json sha256 scrub log (e, None))
     (es @ [sealed_entry to_json sha256 scrub (tail log) e])"
proof -
  let ?e = "sealed_entry to_json sha256 scrub (tail log) e"
  let ?text = "case log_file log of None \<Rightarrow> [] | Some t \<Rightarrow> t"
  have content: "newline_terminated ?text" "line_entries from_json (split_lines ?text) = map Some es"
    using ok by (auto simp: log_ok_def log_entries_def line_entries_def newline_terminated_def
        split_lines.simps [of "[]"] split: option.splits)
  have "split_lines (to_json ?e @ [CHR 0x0A]) = [to_json ?e]"
    using split_lines_one json_line [OF json] by simp
  then have "line_entries from_json (split_lines (?text @ to_json ?e @ [CHR 0x0A])) = map Some (es @ [?e])"
    using content json_line [OF json] by (simp add: split_lines_append line_entries_def)
  then show ?thesis
    using ok by (simp add: log_ok_def audit_step_def append_entry_def Let_def sealed_entry_facts
        log_entries_def newline_terminated_def)
qed

lemma faulty_append_keeps:
  "no_partial_write fault \<Longrightarrow> fault \<noteq> None \<Longrightarrow> audit_step to_json sha256 scrub log (e, fault) = log"
  by (cases fault; cases "the fault")
    (auto simp: no_partial_write_def audit_step_def append_entry_def Let_def)

definition appended :: "(AuditEntry \<times> append_fault option) list \<Rightarrow> AuditEntry list" where
  "appended ops = map fst (filter (\<lambda>x. snd x = None) ops)"

lemma audit_run_ok:
  assumes "json_contract to_json from_json" and "\<forall>x \<in> set ops. no_partial_write (snd x)"
    and "log_ok to_json from_json sha256 log es"
  shows "\<exists>fs. log_ok to_json from_json sha256 (foldl (audit_step to_json sha256 scrub) log ops) (es @ fs)
     \<and> map payload fs = map (payload \<circ> scrubbed scrub) (appended ops)"
  using assms(2,3)
proof (induction ops arbitrary: log es)
  case Nil
  then show ?case by (intro exI [of _ "[]"]) (simp add: appended_def)
next
  case (Cons x ops)
  obtain e fault where x: "x = (e, fault)" by force
  show ?case
  proof (cases fault)
    case None
    let ?e = "sealed_entry to_json sha256 scrub (tail log) e"
    have "log_ok to_json from_json sha256 (audit_step to_json sha256 scrub log x) (es @ [?e])"
      using append_entry_ok [OF assms(1) Cons.prems(2)] by (simp add: x None)
    then obtain fs where "log_ok to_json from_json sha256
         (foldl (audit_step to_json sha256 scrub) (audit_step to_json sha256 scrub log x) ops) ((es @ [?e]) @ fs)"
      "map payload fs = map (payload \<circ> scrubbed scrub) (appended ops)"
      using Cons.IH Cons.prems(1) by force
    then show ?thesis
      by (intro exI [of _ "?e # fs"]) (simp add: x None appended_def sealed_entry_facts)
  next
    case (Some f)
    then have "audit_step to_json sha256 scrub log x = log"
      using Cons.prems(1) by (simp add: x faulty_append_keeps)
    then show ?thesis using Cons Some by (simp add: x appended_def)
  qed
qed

lemma chain_hashes:
  "chain_ok to_json sha256 prev es \<Longrightarrow> e \<in> set es \<Longrightarrow> ae_hash e = entry_hash to_json sha256 e"
  by (induction es arbitrary: prev) auto

lemma entry_hash_length: "\<forall>x. length (sha256 x) = 32 \<Longrightarrow> length (entry_hash to_json sha256 e) = 64"
  by (simp add: entry_hash_def hex_encode_length)

lemma log_ok_reopen:
  assumes "log_ok to_json from_json sha256 log es" and "\<forall>x. length (sha256 x) = 32"
  shows "audit_new from_json (log_file log) = log"
proof -
  have "\<forall>e \<in> set es. ae_hash e \<noteq> []"
    using assms chain_hashes [of to_json sha256 GENESIS es] entry_hash_length [OF assms(2), of to_json]
    by (metis list.size(3) log_ok_def zero_neq_numeral)
  then have "tail (audit_new from_json (log_file log)) = tail log"
    using load_tail_entries [of from_json "log_file log" "tail log" es] assms(1)
    by (simp add: log_ok_def log_entries_def)
  then show ?thesis by (simp add: audit_new_def)
qed

section \<open>The tail commits to the chain\<close>

definition hash_inputs :: "(AuditEntry \<Rightarrow> string) \<Rightarrow> AuditEntry list \<Rightarrow> string set" where
  "hash_inputs to_json es = (\<lambda>e. ae_prev_hash e @ to_json (e\<lparr>ae_hash := []\<rparr>)) ` set es"

lemma chain_tail_length:
  assumes "chain_ok to_json sha256 prev es" and "\<forall>x. length (sha256 x) = 32" and "length prev = 64"
  shows "length (chain_tail prev es) = 64"
  using assms chain_hashes [OF assms(1)] entry_hash_length [OF assms(2)]
  by (auto simp: chain_tail_def)

lemma same_hash_same_entry:
  assumes json: "json_contract to_json from_json"
    and hash: "ae_hash e = entry_hash to_json sha256 e" "ae_hash f = entry_hash to_json sha256 f"
    and same: "ae_hash e = ae_hash f"
    and inj: "inj_on sha256 (hash_inputs to_json [e, f])"
    and len: "length (ae_prev_hash e) = length (ae_prev_hash f)"
  shows "e = f"
proof -
  let ?in = "\<lambda>e. ae_prev_hash e @ to_json (e\<lparr>ae_hash := []\<rparr>)"
  have "hex_encode (sha256 (?in e)) = hex_encode (sha256 (?in f))"
    using trans [OF hash(1) [symmetric] trans [OF same hash(2)]] by (simp only: entry_hash_def)
  then have "sha256 (?in e) = sha256 (?in f)" by (rule hex_encode_inj)
  moreover have "?in e \<in> hash_inputs to_json [e, f]" "?in f \<in> hash_inputs to_json [e, f]"
    unfolding hash_inputs_def by (rule imageI, simp)+
  ultimately have "?in e = ?in f" by (rule inj_onD [OF inj])
  then have "to_json (e\<lparr>ae_hash := []\<rparr>) = to_json (f\<lparr>ae_hash := []\<rparr>)" using len by simp
  then have "e\<lparr>ae_hash := []\<rparr> = f\<lparr>ae_hash := []\<rparr>"
    using json_line(4) [OF json] by (metis option.inject)
  then have "(e\<lparr>ae_hash := []\<rparr>)\<lparr>ae_hash := ae_hash f\<rparr> = (f\<lparr>ae_hash := []\<rparr>)\<lparr>ae_hash := ae_hash f\<rparr>"
    by simp
  then show ?thesis using same by (cases e; cases f) simp
qed

lemma chain_tail_commits:
  assumes json: "json_contract to_json from_json" and sha: "\<forall>x. length (sha256 x) = 32"
    and "chain_ok to_json sha256 GENESIS es" "chain_ok to_json sha256 GENESIS fs"
    and "inj_on sha256 (hash_inputs to_json (es @ fs))"
    and "\<forall>e \<in> set es \<union> set fs. ae_hash e \<noteq> GENESIS"
    and "chain_tail GENESIS es = chain_tail GENESIS fs"
  shows "es = fs"
  using assms(3-)
proof (induction es arbitrary: fs rule: rev_induct)
  case Nil
  show ?case
  proof (rule ccontr)
    assume "[] \<noteq> fs"
    then have "last fs \<in> set fs" "ae_hash (last fs) = GENESIS" using Nil by (simp_all add: chain_tail_def)
    then show False using Nil by auto
  qed
next
  case (snoc e es)
  then have "fs \<noteq> []" by (auto simp: chain_tail_def)
  then obtain gs f where fs: "fs = gs @ [f]" by (metis rev_exhaust)
  have chains: "chain_ok to_json sha256 GENESIS es" "chain_ok to_json sha256 GENESIS gs"
    and links: "ae_prev_hash e = chain_tail GENESIS es" "ae_prev_hash f = chain_tail GENESIS gs"
    and hashes: "ae_hash e = entry_hash to_json sha256 e" "ae_hash f = entry_hash to_json sha256 f"
    using snoc.prems(1,2) by (simp_all add: fs)
  have "length GENESIS = 64" by (simp add: GENESIS_def)
  then have "length (ae_prev_hash e) = length (ae_prev_hash f)"
    using chain_tail_length [OF chains(1) sha] chain_tail_length [OF chains(2) sha] links by simp
  moreover have "inj_on sha256 (hash_inputs to_json [e, f])"
    using snoc.prems(3) by (rule inj_on_subset) (auto simp: hash_inputs_def fs)
  moreover have "ae_hash e = ae_hash f" using snoc.prems(5) by (simp add: fs)
  ultimately have ef: "e = f" by (intro same_hash_same_entry [OF json hashes])
  moreover have "es = gs"
  proof (rule snoc.IH [OF chains])
    show "inj_on sha256 (hash_inputs to_json (es @ gs))"
      using snoc.prems(3) by (rule inj_on_subset) (auto simp: hash_inputs_def fs)
  qed (use snoc.prems(4) links ef in \<open>auto simp: fs\<close>)
  ultimately show ?case by (simp add: fs)
qed

lemma verified_tail:
  assumes "log_entries from_json log = map Some es" and "chain_ok to_json sha256 GENESIS es"
    and "\<forall>x. length (sha256 x) = 32"
  shows "tail (audit_new from_json (log_file log)) = chain_tail GENESIS es"
proof (rule load_tail_entries)
  show "log_entries from_json \<lparr>log_file = log_file log, tail = []\<rparr> = map Some es"
    using assms(1) by (simp add: log_entries_def)
  show "\<forall>e \<in> set es. ae_hash e \<noteq> []"
    using chain_hashes [OF assms(2)] entry_hash_length [OF assms(3), of to_json]
    by (metis list.size(3) zero_neq_numeral)
qed

end
