(* ===== verification/Audit_Properties.thy ===== *)
theory Audit_Properties
  imports Audit_Log
begin

text \<open>
  Properties of the audit log. The witnesses use a concrete JSON-like encoding (fields in
  hexadecimal between commas) that meets \<open>json_contract\<close>, and a concrete 32-byte hash.
\<close>

section \<open>A concrete encoding\<close>

definition unhex_digit :: "char \<Rightarrow> nat" where
  "unhex_digit c = length (takeWhile (\<lambda>d. d \<noteq> c) ''0123456789abcdef'')"

fun unhex :: "string \<Rightarrow> string" where
  "unhex (a # b # cs) = char_of (16 * unhex_digit a + unhex_digit b) # unhex cs"
| "unhex _ = []"

function split_commas :: "string \<Rightarrow> string list" where
  "split_commas s =
     (case dropWhile (\<lambda>c. c \<noteq> CHR '','') s of
        [] \<Rightarrow> []
      | comma # rest \<Rightarrow> takeWhile (\<lambda>c. c \<noteq> CHR '','') s # split_commas rest)"
  by auto
termination
proof (relation "measure length")
  fix s comma rest assume "dropWhile (\<lambda>c. c \<noteq> CHR '','') s = comma # rest"
  then have "length (comma # rest) \<le> length s" by (metis length_dropWhile_le)
  then show "(rest, s) \<in> measure length" by simp
qed simp

declare split_commas.simps [simp del]

fun side_text :: "ToolSideEffect \<Rightarrow> string" where
  "side_text Read = ''r''"
| "side_text SoftWrite = ''s''"
| "side_text HardWrite = ''h''"

definition side_of :: "string \<Rightarrow> ToolSideEffect" where
  "side_of t = (if t = ''r'' then Read else if t = ''s'' then SoftWrite else HardWrite)"

definition demo_fields :: "AuditEntry \<Rightarrow> string list" where
  "demo_fields e = [ae_at e, ae_tool e, side_text (ae_side_effect e), ae_target e, ae_outcome e,
     ae_detail e, show_nat (unat (ae_bytes e)), ae_prev_hash e, ae_hash e]"

definition demo_json :: "AuditEntry \<Rightarrow> string" where
  "demo_json e = CHR ''{'' # concat (map (\<lambda>f. hex_encode f @ '','') (demo_fields e)) @ [CHR ''}'']"

definition demo_parse :: "string \<Rightarrow> AuditEntry option" where
  "demo_parse s =
     (case map unhex (split_commas (tl s)) of
        [at, tn, se, tg, oc, dt, n, ph, h] \<Rightarrow>
          map_option (\<lambda>b. \<lparr>ae_at = at, ae_tool = tn, ae_side_effect = side_of se, ae_target = tg,
            ae_outcome = oc, ae_detail = dt, ae_bytes = b, ae_prev_hash = ph, ae_hash = h\<rparr>) (parse_u64 n)
      | _ \<Rightarrow> None)"

definition demo_sha :: "string \<Rightarrow> string" where
  "demo_sha x = replicate 31 (CHR ''x'') @ [char_of (length x mod 256)]"

lemma unhex_digit_hex: "n < 16 \<Longrightarrow> unhex_digit (hex_digit n) = n"
proof -
  have "list_all (\<lambda>n. unhex_digit (hex_digit n) = n) [0..<16]" by code_simp
  then show "n < 16 \<Longrightarrow> unhex_digit (hex_digit n) = n" by (simp only: list_all_iff set_upt) simp
qed

lemma unhex_hex_encode: "unhex (hex_encode bs) = bs"
proof (induction bs)
  case (Cons b bs)
  have "(of_char b :: nat) div 16 < 16"
    using nat_of_char_less_256 [of b] by (intro less_mult_imp_div_less) simp
  then show ?case using Cons by (simp add: hex_encode_Cons unhex_digit_hex)
qed (simp add: hex_encode_def)

lemma hex_chars: "c \<in> set (hex_encode bs) \<Longrightarrow> c \<in> set ''0123456789abcdef''"
proof (induction bs)
  case (Cons b bs)
  have "(of_char b :: nat) div 16 < 16"
    using nat_of_char_less_256 [of b] by (intro less_mult_imp_div_less) simp
  then have "hex_digit (of_char b div 16) \<in> set ''0123456789abcdef''"
    "hex_digit (of_char b mod 16) \<in> set ''0123456789abcdef''"
    unfolding hex_digit_def by (intro nth_mem; simp)+
  moreover have "c = hex_digit (of_char b div 16) \<or> c = hex_digit (of_char b mod 16) \<or> c \<in> set (hex_encode bs)"
    using Cons.prems by (simp only: hex_encode_Cons list.set insert_iff)
  ultimately show ?case using Cons.IH by (elim disjE) (simp_all only:)
qed (simp add: hex_encode_def)

lemma hex_no_comma: "CHR '','' \<notin> set (hex_encode bs)" "CHR 0x0A \<notin> set (hex_encode bs)"
  using hex_chars [of "CHR '',''" bs] hex_chars [of "CHR 0x0A" bs] by auto

lemma split_commas_fields:
  "CHR '','' \<notin> set rest
     \<Longrightarrow> split_commas (concat (map (\<lambda>f. hex_encode f @ '','') fs) @ rest) = map hex_encode fs"
proof (induction fs)
  case Nil
  then have none: "dropWhile (\<lambda>c. c \<noteq> CHR '','') rest = []" by (auto simp: dropWhile_eq_Nil_conv)
  then show ?case by (subst split_commas.simps) (simp only: none list.map concat.simps append_Nil list.case)
next
  case (Cons f fs)
  let ?r = "concat (map (\<lambda>f. hex_encode f @ '','') fs) @ rest"
  have "dropWhile (\<lambda>c. c \<noteq> CHR '','') (hex_encode f @ CHR '','' # ?r) = CHR '','' # ?r"
    using hex_no_comma(1) [of f] by (subst dropWhile_append2) auto
  moreover have "takeWhile (\<lambda>c. c \<noteq> CHR '','') (hex_encode f @ CHR '','' # ?r) = hex_encode f"
    using hex_no_comma(1) [of f] by (subst takeWhile_append2) auto
  ultimately show ?case
    using Cons by (simp add: split_commas.simps [of "hex_encode f @ CHR '','' # ?r"])
qed

lemma demo_contract: "json_contract demo_json demo_parse"
  unfolding json_contract_def
proof (intro allI conjI)
  fix e :: AuditEntry
  have "side_of (side_text (ae_side_effect e)) = ae_side_effect e"
    by (cases "ae_side_effect e") (simp_all add: side_of_def)
  moreover have "map unhex (split_commas (tl (demo_json e))) = demo_fields e"
    using split_commas_fields [of "[CHR ''}'']" "demo_fields e"]
    by (simp add: demo_json_def comp_def unhex_hex_encode)
  ultimately show "demo_parse (demo_json e) = Some e"
    by (simp add: demo_parse_def demo_fields_def parse_u64_show_nat)
  show "CHR 0x0A \<notin> set (demo_json e)" by (auto simp: demo_json_def hex_no_comma)
  show "\<exists>body. demo_json e = CHR ''{'' # body @ [CHR ''}'']" by (auto simp: demo_json_def)
qed

lemma demo_sha_length: "\<forall>x. length (demo_sha x) = 32"
  by (simp add: demo_sha_def)

definition demo_entry :: "string \<Rightarrow> AuditEntry" where
  "demo_entry detail = \<lparr>ae_at = ''t'', ae_tool = ''search_kb'', ae_side_effect = Read,
     ae_target = ''/proj'', ae_outcome = ''allowed'', ae_detail = detail, ae_bytes = 12,
     ae_prev_hash = [], ae_hash = []\<rparr>"

section \<open>Properties\<close>

text \<open>C23: Starting from no log file, every sequence of appends, of which any may fail on the
  directory, the lock or the open, leaves a file that verifies, holds exactly the scrubbed entries
  of the successful appends in order, and reopens in the state the running log is in.\<close>

theorem audit_appends_verify:
  assumes "json_contract to_json from_json" and "\<forall>x. length (sha256 x) = 32"
    and "\<forall>x \<in> set ops. no_partial_write (snd x)"
    and "log = foldl (audit_step to_json sha256 scrub) (audit_new from_json None) ops"
  shows "verify_chain to_json from_json sha256 log = Inr ()
     \<and> audit_new from_json (log_file log) = log
     \<and> (\<exists>es. log_entries from_json log = map Some es
          \<and> map payload es = map (payload \<circ> scrubbed scrub) (appended ops))"
proof -
  have "log_ok to_json from_json sha256 (audit_new from_json None) []"
    by (simp add: log_ok_def audit_new_def load_tail_hash_def log_entries_def)
  from audit_run_ok [OF assms(1,3) this] obtain es where
    es: "log_ok to_json from_json sha256 log es" "map payload es = map (payload \<circ> scrubbed scrub) (appended ops)"
    unfolding assms(4) by auto
  then have "verify_chain to_json from_json sha256 log = Inr ()"
    by (auto simp: verify_chain_iff log_ok_def)
  with es log_ok_reopen [OF es(1) assms(2)] show ?thesis by (auto simp: log_ok_def)
qed

theorem audit_appends_verify_witness:
  "\<exists>log. log = foldl (audit_step demo_json demo_sha (\<lambda>s. s)) (audit_new demo_parse None)
       [(demo_entry ''ok'', None), (demo_entry ''no'', Some OpenFault), (demo_entry ''again'', None)]
     \<and> verify_chain demo_json demo_parse demo_sha log = Inr () \<and> audit_new demo_parse (log_file log) = log"
  using audit_appends_verify [OF demo_contract demo_sha_length _ refl,
      of "[(demo_entry ''ok'', None), (demo_entry ''no'', Some OpenFault), (demo_entry ''again'', None)]" "\<lambda>s. s"]
  by (simp add: no_partial_write_def)

text \<open>C12: The last hash commits to the whole log: two files that both verify and end in the same
  hash hold the same entries, unless SHA-256 collides on the hashed inputs or an entry hashes to
  the genesis value. So no edit, insertion, removal or reordering that keeps the tail passes.\<close>

theorem audit_tail_commits:
  assumes "json_contract to_json from_json" and "\<forall>x. length (sha256 x) = 32"
    and "verify_chain to_json from_json sha256 log1 = Inr ()"
    and "verify_chain to_json from_json sha256 log2 = Inr ()"
    and "log_entries from_json log1 = map Some es" and "log_entries from_json log2 = map Some fs"
    and "inj_on sha256 (hash_inputs to_json (es @ fs))"
    and "\<forall>e \<in> set es \<union> set fs. ae_hash e \<noteq> GENESIS"
    and "tail (audit_new from_json (log_file log1)) = tail (audit_new from_json (log_file log2))"
  shows "es = fs"
proof -
  have inj: "map Some xs = map Some ys \<longleftrightarrow> xs = ys" for xs ys :: "AuditEntry list"
    by (simp add: inj_map_eq_map)
  have chains: "chain_ok to_json sha256 GENESIS es" "chain_ok to_json sha256 GENESIS fs"
    using assms(3-6) by (auto simp: verify_chain_iff inj)
  have "chain_tail GENESIS es = chain_tail GENESIS fs"
    using verified_tail [OF assms(5) chains(1) assms(2)] verified_tail [OF assms(6) chains(2) assms(2)]
      assms(9) by simp
  then show ?thesis using chain_tail_commits [OF assms(1,2) chains assms(7,8)] by blast
qed

definition demo_log :: "string \<Rightarrow> AuditLog" where
  "demo_log detail = audit_step demo_json demo_sha (\<lambda>s. s) (audit_new demo_parse None) (demo_entry detail, None)"

definition demo_sealed :: "string \<Rightarrow> AuditEntry" where
  "demo_sealed detail = sealed_entry demo_json demo_sha (\<lambda>s. s) GENESIS (demo_entry detail)"

lemma demo_log_ok: "log_ok demo_json demo_parse demo_sha (demo_log d) [demo_sealed d]"
proof -
  have start: "log_ok demo_json demo_parse demo_sha (audit_new demo_parse None) []"
    by (simp add: log_ok_def audit_new_def load_tail_hash_def log_entries_def)
  have "tail (audit_new demo_parse None) = GENESIS" by (simp add: audit_new_def load_tail_hash_def)
  with append_entry_ok [OF demo_contract start, of "\<lambda>s. s" "demo_entry d"] show ?thesis
    by (simp add: demo_log_def demo_sealed_def)
qed

theorem audit_tail_commits_witness:
  "tail (audit_new demo_parse (log_file (demo_log ''a''))) \<noteq> tail (audit_new demo_parse (log_file (demo_log ''bb'')))"
proof
  assume same: "tail (audit_new demo_parse (log_file (demo_log ''a'')))
      = tail (audit_new demo_parse (log_file (demo_log ''bb'')))"
  note ok = demo_log_ok [of "''a''"] demo_log_ok [of "''bb''"]
  have v: "verify_chain demo_json demo_parse demo_sha (demo_log d) = Inr ()" for d
    using demo_log_ok [of d] unfolding verify_chain_iff log_ok_def by blast
  have e: "log_entries demo_parse (demo_log d) = map Some [demo_sealed d]" for d
    using demo_log_ok [of d] by (simp add: log_ok_def)
  have "inj_on demo_sha (hash_inputs demo_json ([demo_sealed ''a''] @ [demo_sealed ''bb'']))"
    by code_simp
  moreover have "\<forall>e \<in> set [demo_sealed ''a''] \<union> set [demo_sealed ''bb'']. ae_hash e \<noteq> GENESIS"
    by code_simp
  ultimately have "[demo_sealed ''a''] = [demo_sealed ''bb'']"
    using audit_tail_commits [OF demo_contract demo_sha_length v v e e] same by blast
  then have "ae_detail (demo_sealed ''a'') = ae_detail (demo_sealed ''bb'')" by simp
  then show False by (simp add: demo_sealed_def sealed_entry_def demo_entry_def Let_def)
qed

end
