(* ===== verification/Ssrf.thy ===== *)
theory Ssrf
  imports Ip_Addr
begin

text \<open>
  \<open>crates/cd-core/src/ssrf.rs\<close>: the policy for outbound provider requests. A URL is checked by
  syntax and literal address, host names are resolved and every address is checked, and the HTTP
  client is pinned to the checked addresses.

  Arguments of the model: \<open>parse_url\<close> (crate \<open>url\<close>; a URL is the record of what the program reads
  of it), the resolver behind the trait \<open>DnsResolver\<close>, and \<open>build\<close>, the construction of a \<open>reqwest\<close>
  client from its configuration. Error texts are constructors.
\<close>

section \<open>Policy and addresses\<close>

record SsrfPolicy =
  block_private :: bool
  allow_loopback :: bool

definition ssrf_default :: SsrfPolicy where
  "ssrf_default = \<lparr>block_private = True, allow_loopback = True\<rparr>"

definition ssrf_local_only :: SsrfPolicy where
  "ssrf_local_only = \<lparr>block_private = True, allow_loopback = True\<rparr>"

definition allow_private_networks :: SsrfPolicy where
  "allow_private_networks = \<lparr>block_private = False, allow_loopback = True\<rparr>"

datatype SsrfError =
    EmptyBaseUrl | InvalidUrl | UnsupportedScheme string | MissingHost | MissingPort
  | LoopbackHost | BlockedInternalHost string | BlockedMetadataHost
  | LoopbackAddress | InvalidDestination | BlockedMetadata | BlockedLinkLocal
  | BlockedPrivate IpAddr | NoAddresses string | DnsFailed string | HttpClient

definition is_cgnat :: "Ipv4Addr \<Rightarrow> bool" where
  "is_cgnat ip \<longleftrightarrow> octet 0 ip = 100 \<and> octet 1 ip AND 0xC0 = 0x40"

definition check_v4 :: "Ipv4Addr \<Rightarrow> SsrfPolicy \<Rightarrow> (SsrfError, unit) result" where
  "check_v4 ip policy =
     (if v4_is_loopback ip then (if allow_loopback policy then Inr () else Inl LoopbackAddress)
      else if v4_is_unspecified ip \<or> v4_is_broadcast ip then Inl InvalidDestination
      else if octets ip = [169, 254, 169, 254] then Inl BlockedMetadata
      else if v4_is_link_local ip then Inl BlockedLinkLocal
      else if block_private policy \<and> (v4_is_private ip \<or> is_cgnat ip) then Inl (BlockedPrivate (V4 ip))
      else Inr ())"

definition is_v6_link_local :: "Ipv6Addr \<Rightarrow> bool" where
  "is_v6_link_local ip \<longleftrightarrow> segment 0 ip AND 0xffc0 = 0xfe80"

definition check_v6 :: "Ipv6Addr \<Rightarrow> SsrfPolicy \<Rightarrow> (SsrfError, unit) result" where
  "check_v6 ip policy =
     (case to_ipv4_mapped ip of
        Some v4 \<Rightarrow> check_v4 v4 policy
      | None \<Rightarrow>
          if to_ipv4 ip \<noteq> None \<and> \<not> v6_is_loopback ip then check_v4 (the (to_ipv4 ip)) policy
          else if v6_is_loopback ip then (if allow_loopback policy then Inr () else Inl LoopbackAddress)
          else if v6_is_unspecified ip then Inl InvalidDestination
          else if block_private policy \<and> (v6_is_unique_local ip \<or> is_v6_link_local ip)
               then Inl (BlockedPrivate (V6 ip))
          else Inr ())"

fun check_ip :: "IpAddr \<Rightarrow> SsrfPolicy \<Rightarrow> (SsrfError, unit) result" where
  "check_ip (V4 ip) policy = check_v4 ip policy"
| "check_ip (V6 ip) policy = check_v6 ip policy"

section \<open>URLs\<close>

datatype Host = Domain string | HostIpv4 Ipv4Addr | HostIpv6 Ipv6Addr

record Url =
  url_text :: string
  url_scheme :: string
  url_host_str :: "string option"
  url_host :: "Host option"
  url_port :: "16 word option"

definition is_localhost_name :: "string \<Rightarrow> bool" where
  "is_localhost_name host_l \<longleftrightarrow> host_l = ''localhost'' \<or> ends_with host_l ''.localhost''"

definition check_host :: "Url \<Rightarrow> string \<Rightarrow> SsrfPolicy \<Rightarrow> (SsrfError, unit) result" where
  "check_host url host policy =
     (let host_l = to_ascii_lowercase host in
      if is_localhost_name host_l then (if allow_loopback policy then Inr () else Inl LoopbackHost)
      else case parse_ip host of
        Some ip \<Rightarrow> check_ip ip policy
      | None \<Rightarrow>
          (case url_host url of
             Some (HostIpv4 v4) \<Rightarrow> check_v4 v4 policy
           | Some (HostIpv6 v6) \<Rightarrow> check_v6 v6 policy
           | _ \<Rightarrow>
               if host_l = ''metadata.google.internal'' \<or> ends_with host_l ''.internal'' \<and> block_private policy
               then Inl (BlockedInternalHost host)
               else if host_l = ''169.254.169.254'' then Inl BlockedMetadataHost
               else Inr ()))"

definition validate_provider_url ::
  "(string \<Rightarrow> Url option) \<Rightarrow> string \<Rightarrow> SsrfPolicy \<Rightarrow> (SsrfError, Url) result" where
  "validate_provider_url parse_url raw0 policy =
     (let raw = trim raw0 in
      if raw = [] then Inl EmptyBaseUrl
      else and_then (ok_or InvalidUrl (parse_url raw)) (\<lambda>url.
      if url_scheme url \<noteq> ''http'' \<and> url_scheme url \<noteq> ''https'' then Inl (UnsupportedScheme (url_scheme url))
      else and_then (ok_or MissingHost (url_host_str url)) (\<lambda>host.
      and_then (check_host url host policy) (\<lambda>_. Inr url))))"

section \<open>Resolution\<close>

text \<open>The first address that fails the check decides the error.\<close>

fun check_all :: "IpAddr list \<Rightarrow> SsrfPolicy \<Rightarrow> (SsrfError, unit) result" where
  "check_all [] policy = Inr ()"
| "check_all (ip # ips) policy = and_then (check_ip ip policy) (\<lambda>_. check_all ips policy)"

definition LOCALHOST :: Ipv4Addr where
  "LOCALHOST = ipv4_new 127 0 0 1"

definition resolve_and_validate ::
  "(string \<Rightarrow> Url option) \<Rightarrow> Url \<Rightarrow> SsrfPolicy \<Rightarrow> (string \<Rightarrow> (SsrfError, IpAddr list) result)
     \<Rightarrow> (SsrfError, IpAddr list) result" where
  "resolve_and_validate parse_url url policy resolve =
     and_then (validate_provider_url parse_url (url_text url) policy) (\<lambda>_.
     and_then (ok_or MissingHost (url_host_str url)) (\<lambda>host.
     let host_l = to_ascii_lowercase host in
     case parse_ip host of
       Some ip \<Rightarrow> Inr [ip]
     | None \<Rightarrow>
         (case url_host url of
            Some (HostIpv4 v4) \<Rightarrow> Inr [V4 v4]
          | Some (HostIpv6 v6) \<Rightarrow> Inr [V6 v6]
          | _ \<Rightarrow>
              if is_localhost_name host_l then
                (if allow_loopback policy then Inr [V4 LOCALHOST] else Inl LoopbackHost)
              else and_then (resolve host) (\<lambda>ips.
                if ips = [] then Inl (NoAddresses host)
                else and_then (check_all ips policy) (\<lambda>_. Inr ips)))))"

text \<open>\<open>SystemResolver\<close> with the addresses \<open>ToSocketAddrs\<close> yields, and \<open>MapResolver\<close>. Sorting and
  de-duplicating is by the order of \<open>IpAddr\<close>: IPv4 before IPv6, then by value.\<close>

fun ip_key :: "IpAddr \<Rightarrow> nat" where
  "ip_key (V4 ip) = unat ip"
| "ip_key (V6 ip) = 2 ^ 32 + unat ip"

lemma ip_key_inj: "ip_key a = ip_key b \<Longrightarrow> a = b"
proof -
  have "unat x \<noteq> 4294967296 + n" for x :: Ipv4Addr and n using v4_lt [of x] by simp
  moreover from this have "4294967296 + n \<noteq> unat x" for x :: Ipv4Addr and n by metis
  ultimately show "ip_key a = ip_key b \<Longrightarrow> a = b" by (cases a; cases b) (auto simp: word_unat_eq_iff)
qed

instantiation IpAddr :: linorder
begin

definition less_eq_IpAddr :: "IpAddr \<Rightarrow> IpAddr \<Rightarrow> bool" where
  "less_eq_IpAddr a b \<longleftrightarrow> ip_key a \<le> ip_key b"

definition less_IpAddr :: "IpAddr \<Rightarrow> IpAddr \<Rightarrow> bool" where
  "less_IpAddr a b \<longleftrightarrow> ip_key a < ip_key b"

instance
  by standard (auto simp: less_eq_IpAddr_def less_IpAddr_def intro: ip_key_inj)

end

definition system_resolve ::
  "(string \<Rightarrow> IpAddr list option) \<Rightarrow> string \<Rightarrow> (SsrfError, IpAddr list) result" where
  "system_resolve lookup host =
     and_then (ok_or (DnsFailed host) (lookup host)) (\<lambda>addrs.
       if addrs = [] then Inl (NoAddresses host) else Inr (remdups_adj (sort addrs)))"

definition map_from_pairs :: "(string \<times> IpAddr list) list \<Rightarrow> string \<rightharpoonup> IpAddr list" where
  "map_from_pairs pairs = foldl (\<lambda>m (h, ips). m(to_ascii_lowercase h \<mapsto> ips)) Map.empty pairs"

definition map_resolve :: "(string \<rightharpoonup> IpAddr list) \<Rightarrow> string \<Rightarrow> (SsrfError, IpAddr list) result" where
  "map_resolve m host = ok_or (DnsFailed host) (m (to_ascii_lowercase host))"

section \<open>Pinned client\<close>

record ClientConfig =
  timeout_ms :: nat
  follow_redirects :: bool
  pinned :: "(string \<times> (IpAddr \<times> 16 word) list) option"
  no_proxy :: bool

fun ip_is_loopback :: "IpAddr \<Rightarrow> bool" where
  "ip_is_loopback (V4 v4) = v4_is_loopback v4"
| "ip_is_loopback (V6 v6) =
     (v6_is_loopback v6 \<or> (case to_ipv4_mapped v6 of Some v4 \<Rightarrow> v4_is_loopback v4 | None \<Rightarrow> False))"

definition host_is_loopback :: "string \<Rightarrow> bool" where
  "host_is_loopback host =
     (if is_localhost_name (to_ascii_lowercase host) then True
      else (case parse_ip host of Some ip \<Rightarrow> ip_is_loopback ip | None \<Rightarrow> False))"

definition destination_is_loopback :: "string \<Rightarrow> (IpAddr \<times> 16 word) list \<Rightarrow> bool" where
  "destination_is_loopback host sockets \<longleftrightarrow>
     host_is_loopback host \<or> (sockets \<noteq> [] \<and> list_all (\<lambda>s. ip_is_loopback (fst s)) sockets)"

definition pinned_config :: "string \<Rightarrow> (IpAddr \<times> 16 word) list \<Rightarrow> nat \<Rightarrow> ClientConfig" where
  "pinned_config host sockets timeout =
     \<lparr>timeout_ms = timeout, follow_redirects = False,
      pinned = (if parse_ip host = None \<and> to_ascii_lowercase host \<noteq> ''localhost''
                then Some (host, sockets) else None),
      no_proxy = destination_is_loopback host sockets\<rparr>"

definition build_pinned_client ::
  "(string \<Rightarrow> Url option) \<Rightarrow> (ClientConfig \<Rightarrow> 'c option) \<Rightarrow> Url \<Rightarrow> SsrfPolicy
     \<Rightarrow> (string \<Rightarrow> (SsrfError, IpAddr list) result) \<Rightarrow> nat \<Rightarrow> (SsrfError, 'c) result" where
  "build_pinned_client parse_url build url policy resolve timeout =
     and_then (resolve_and_validate parse_url url policy resolve) (\<lambda>ips.
     and_then (ok_or MissingHost (url_host_str url)) (\<lambda>host.
     and_then (ok_or MissingPort (url_port url)) (\<lambda>port.
     ok_or HttpClient (build (pinned_config host (map (\<lambda>ip. (ip, port)) ips) timeout)))))"

definition build_pinned_client_for_url ::
  "(string \<Rightarrow> Url option) \<Rightarrow> (ClientConfig \<Rightarrow> 'c option) \<Rightarrow> string \<Rightarrow> SsrfPolicy
     \<Rightarrow> (string \<Rightarrow> (SsrfError, IpAddr list) result) \<Rightarrow> nat \<Rightarrow> (SsrfError, Url \<times> 'c) result" where
  "build_pinned_client_for_url parse_url build raw policy resolve timeout =
     and_then (validate_provider_url parse_url raw policy) (\<lambda>url.
     and_then (build_pinned_client parse_url build url policy resolve timeout) (\<lambda>client. Inr (url, client)))"

section \<open>Specification: permitted addresses as CIDR blocks\<close>

definition permitted_v4 :: "SsrfPolicy \<Rightarrow> nat \<Rightarrow> bool" where
  "permitted_v4 policy n \<longleftrightarrow>
     (if in_block 32 (dotted 127 0 0 0) 8 n then allow_loopback policy
      else n \<noteq> 0 \<and> n \<noteq> dotted 255 255 255 255
        \<and> \<not> in_block 32 (dotted 169 254 0 0) 16 n
        \<and> (block_private policy \<longrightarrow>
             \<not> in_block 32 (dotted 10 0 0 0) 8 n \<and> \<not> in_block 32 (dotted 172 16 0 0) 12 n
             \<and> \<not> in_block 32 (dotted 192 168 0 0) 16 n \<and> \<not> in_block 32 (dotted 100 64 0 0) 10 n))"

text \<open>An IPv4-mapped (\<open>::ffff:a.b.c.d\<close>) or IPv4-compatible (\<open>::a.b.c.d\<close>) address is judged by
  the IPv4 address in it.\<close>

fun permitted :: "SsrfPolicy \<Rightarrow> IpAddr \<Rightarrow> bool" where
  "permitted policy (V4 ip) = permitted_v4 policy (unat ip)"
| "permitted policy (V6 ip) =
     (let n = unat ip in
      if n = 1 then allow_loopback policy
      else if n div 2 ^ 32 = 0 \<or> n div 2 ^ 32 = 0xffff then permitted_v4 policy (n mod 2 ^ 32)
      else block_private policy \<longrightarrow>
        \<not> in_block 128 (0xfc00 * 2 ^ 112) 7 n \<and> \<not> in_block 128 (0xfe80 * 2 ^ 112) 10 n)"

lemma octets_dotted:
  assumes "a < 256" "b < 256" "c < 256" "d < 256"
  shows "octets ip = [of_nat a, of_nat b, of_nat c, of_nat d] \<longleftrightarrow> unat ip = dotted a b c d"
proof -
  let ?n = "unat ip"
  have u: "unat (of_nat k :: u8) = k" if "k < 256" for k using that by (simp add: unat_of_nat)
  have hi: "?n div 16777216 = ?n div 256 div 256 div 256" "?n div 65536 = ?n div 256 div 256"
    by (simp_all flip: div_mult2_eq)
  have lt: "?n div 256 div 256 div 256 < 256"
    using v4_lt [of ip] by (simp add: flip: div_mult2_eq)
  have "octets ip = [of_nat a, of_nat b, of_nat c, of_nat d] \<longleftrightarrow>
      ?n div 256 div 256 div 256 = a \<and> ?n div 256 div 256 mod 256 = b \<and> ?n div 256 mod 256 = c \<and> ?n mod 256 = d"
    using assms lt by (simp add: octets_def word_unat_eq_iff unat_octet u hi)
  also have "\<dots> \<longleftrightarrow> ?n = dotted a b c d"
  proof
    assume "?n div 256 div 256 div 256 = a \<and> ?n div 256 div 256 mod 256 = b \<and> ?n div 256 mod 256 = c \<and> ?n mod 256 = d"
    then show "?n = dotted a b c d" unfolding dotted_def by (metis div_mult_mod_eq)
  next
    have step: "(x * 256 + d) div 256 = x" "(x * 256 + d) mod 256 = d" if "d < 256" for x d :: nat
      using that by simp_all
    assume "?n = dotted a b c d"
    then show "?n div 256 div 256 div 256 = a \<and> ?n div 256 div 256 mod 256 = b \<and> ?n div 256 mod 256 = c \<and> ?n mod 256 = d"
      by (simp only: dotted_def step assms)
  qed
  finally show ?thesis .
qed

lemma cgnat_block: "is_cgnat ip \<longleftrightarrow> in_block 32 (dotted 100 64 0 0) 10 (unat ip)"
proof -
  obtain q r where m: "unat ip div 65536 = 256 * q + r" "r < 256" "unat ip div 65536 div 256 = q"
    "unat ip div 65536 mod 256 = r" by (rule split_half)
  have hi: "unat ip div 16777216 = q" using m(3) by (simp flip: div_mult2_eq)
  have b: "unat (octet (Suc 0) ip) = r" by (simp add: unat_octet m(4))
  have "octet 1 ip AND 0xC0 = 0x40 \<longleftrightarrow> r div 64 = 1"
    unfolding mask_literals(1) by (subst masked_eq) (auto simp: b)
  then have "is_cgnat ip \<longleftrightarrow> q = 100 \<and> r div 64 = 1" by (simp add: is_cgnat_def octet_eqs hi)
  also have "\<dots> \<longleftrightarrow> 4 * q + r div 64 = 401"
    using digits_eq [of "r div 64" 4 1 q 100] m(2) by (simp add: less_mult_imp_div_less)
  also have "4 * q + r div 64 = unat ip div 4194304"
  proof -
    have "unat ip div 4194304 = (256 * q + r) div 64" unfolding m(1) [symmetric] by (simp flip: div_mult2_eq)
    also have "\<dots> = ((4 * q) * 64 + r) div 64" by simp
    also have "\<dots> = 4 * q + r div 64" by (simp only: div_mult_self3 [OF zero_neq_numeral [symmetric]])
    finally show ?thesis by simp
  qed
  finally show ?thesis by (simp add: in_block_def dotted_def)
qed

lemma check_v4_permitted: "check_v4 ip policy = Inr () \<longleftrightarrow> permitted_v4 policy (unat ip)"
proof -
  have bc: "v4_is_broadcast ip \<longleftrightarrow> unat ip = dotted 255 255 255 255"
    using octets_dotted [of 255 255 255 255 ip] by (simp add: v4_is_broadcast_def)
  have md: "octets ip = [169, 254, 169, 254] \<longleftrightarrow> unat ip = dotted 169 254 169 254"
    using octets_dotted [of 169 254 169 254 ip] by simp
  have ll: "in_block 32 (dotted 169 254 0 0) 16 (dotted 169 254 169 254)"
    by (simp add: in_block_def dotted_def)
  show ?thesis
    using ll by (auto simp: check_v4_def permitted_v4_def bc md v4_loopback_block v4_link_local_block
        v4_private_block cgnat_block v4_is_unspecified_def unat_eq_zero)
qed

lemma check_ip_permitted: "check_ip ip policy = Inr () \<longleftrightarrow> permitted policy ip"
proof (cases ip)
  case (V6 a)
  have one: "v6_is_loopback a \<longleftrightarrow> unat a = 1" by (simp add: v6_is_loopback_def word_unat_eq_iff)
  have zero: "v6_is_unspecified a \<longleftrightarrow> unat a = 0" by (simp add: v6_is_unspecified_def unat_eq_zero)
  have ll: "is_v6_link_local a \<longleftrightarrow> in_block 128 (0xfe80 * 2 ^ 112) 10 (unat a)"
    using v6_link_local_block [of a] by (simp add: is_v6_link_local_def v6_is_unicast_link_local_def)
  show ?thesis
    by (auto simp: V6 check_v6_def Let_def one zero ll v6_unique_local_block to_ipv4_mapped_iff to_ipv4_iff
        check_v4_permitted unat_v4_of_segments)
qed (simp add: check_v4_permitted)

section \<open>Resolved addresses are permitted\<close>

text \<open>What the check relies on of the \<open>url\<close> crate: the text of a URL parses back to the URL, and the
  host text of a URL with an address host is the address in its usual notation, possibly in
  brackets.\<close>

fun is_address_host :: "Host option \<Rightarrow> bool" where
  "is_address_host (Some (HostIpv4 a)) = True"
| "is_address_host (Some (HostIpv6 a)) = True"
| "is_address_host _ = False"

definition host_char :: "char \<Rightarrow> bool" where
  "host_char c \<longleftrightarrow> ip_char c \<or> c = CHR ''['' \<or> c = CHR '']''"

definition url_contract :: "(string \<Rightarrow> Url option) \<Rightarrow> bool" where
  "url_contract parse_url \<longleftrightarrow>
     (\<forall>raw url. parse_url raw = Some url \<longrightarrow>
        parse_url (trim (url_text url)) = Some url
        \<and> (is_address_host (url_host url) \<longrightarrow>
             (\<forall>host. url_host_str url = Some host \<longrightarrow> list_all host_char host)))"

lemma ascii_lower_l: "ascii_lower_byte c = CHR ''l'' \<Longrightarrow> c = CHR ''l'' \<or> c = CHR ''L''"
proof -
  assume l: "ascii_lower_byte c = CHR ''l''"
  show ?thesis
  proof (cases "65 \<le> (of_char c :: nat) \<and> (of_char c :: nat) \<le> 90")
    case True
    then have "of_char (char_of ((of_char c :: nat) + 32)) = (of_char CHR ''l'' :: nat)"
      using l by (simp add: ascii_lower_byte_def)
    then have "(of_char c :: nat) = of_char CHR ''L''" using True by simp
    then show ?thesis by (simp only: of_char_eq_iff simp_thms)
  qed (use l in \<open>auto simp: ascii_lower_byte_def split: if_splits\<close>)
qed

lemma host_char_lower: "host_char c \<Longrightarrow> ascii_lower_byte c \<noteq> CHR ''l''"
  by (auto simp: host_char_def ip_char_def is_hex_digit_def is_ascii_digit_def dest!: ascii_lower_l)

lemma address_not_localhost:
  assumes "list_all host_char host"
  shows "\<not> is_localhost_name (to_ascii_lowercase host)"
proof
  assume "is_localhost_name (to_ascii_lowercase host)"
  then have "CHR ''l'' \<in> set (to_ascii_lowercase host)"
    by (auto simp: is_localhost_name_def ends_with_def suffix_def)
  then obtain c where "c \<in> set host" "ascii_lower_byte c = CHR ''l''"
    by (auto simp: to_ascii_lowercase_def)
  then show False using assms host_char_lower by (auto simp: list_all_iff)
qed

lemma literal_not_localhost: "parse_ip host = Some ip \<Longrightarrow> \<not> is_localhost_name (to_ascii_lowercase host)"
  using parse_ip_chars [of host ip] by (intro address_not_localhost) (auto simp: list_all_iff host_char_def)

lemma localhost_permitted: "allow_loopback policy \<Longrightarrow> permitted policy (V4 LOCALHOST)"
proof -
  have "v4_is_loopback LOCALHOST" by code_simp
  then show "allow_loopback policy \<Longrightarrow> permitted policy (V4 LOCALHOST)"
    by (simp add: check_v4_def flip: check_ip_permitted)
qed

lemma check_all_permitted: "check_all ips policy = Inr u \<longleftrightarrow> (\<forall>ip \<in> set ips. permitted policy ip)"
  by (induction ips) (auto simp: check_ip_permitted [symmetric])

lemma check_host_permitted:
  assumes "check_host url host policy = Inr ()"
  shows "parse_ip host = Some ip \<Longrightarrow> permitted policy ip"
    and "\<lbrakk>parse_ip host = None; url_host url = Some (HostIpv4 v4); list_all host_char host\<rbrakk>
           \<Longrightarrow> permitted policy (V4 v4)"
    and "\<lbrakk>parse_ip host = None; url_host url = Some (HostIpv6 v6); list_all host_char host\<rbrakk>
           \<Longrightarrow> permitted policy (V6 v6)"
  using assms literal_not_localhost [of host] address_not_localhost [of host]
  by (auto simp: check_host_def Let_def simp flip: check_ip_permitted)

lemma resolved_permitted:
  assumes contract: "url_contract parse_url" and url: "parse_url raw = Some url"
    and res: "resolve_and_validate parse_url url policy resolve = Inr ips"
  shows "ips \<noteq> [] \<and> (\<forall>ip \<in> set ips. permitted policy ip)"
proof -
  have again: "parse_url (trim (url_text url)) = Some url" using contract url by (auto simp: url_contract_def)
  obtain host where host: "url_host_str url = Some host" and ok: "check_host url host policy = Inr ()"
    using res by (auto simp: resolve_and_validate_def validate_provider_url_def Let_def again split: if_splits)
  note chars = contract [unfolded url_contract_def, rule_format, OF url, THEN conjunct2, rule_format, OF _ host]
  show ?thesis
  proof (cases "parse_ip host")
    case (Some ip)
    then show ?thesis
      using res check_host_permitted(1) [OF ok Some] by (auto simp: resolve_and_validate_def host Let_def)
  next
    case None
    show ?thesis
    proof (cases "is_address_host (url_host url)")
      case True
      then show ?thesis
        using res check_host_permitted(2,3) [OF ok None _ chars [OF True]]
        by (cases "url_host url" rule: is_address_host.cases)
          (auto simp: resolve_and_validate_def host None Let_def)
    next
      case False
      then have "(if is_localhost_name (to_ascii_lowercase host)
            then if allow_loopback policy then Inr [V4 LOCALHOST] else Inl LoopbackHost
            else and_then (resolve host) (\<lambda>ips. if ips = [] then Inl (NoAddresses host)
              else and_then (check_all ips policy) (\<lambda>_. Inr ips))) = Inr ips"
        using res by (cases "url_host url" rule: is_address_host.cases)
          (auto simp: resolve_and_validate_def host None Let_def split: if_splits)
      then show ?thesis
        using localhost_permitted by (auto simp: check_all_permitted split: if_splits)
    qed
  qed
qed

section \<open>Properties\<close>

text \<open>C26: The address check implements the block policy: an address passes exactly when it is outside
  every forbidden CIDR block (unspecified, broadcast, link-local with the metadata service, and
  under \<open>block_private\<close> the private, carrier-grade NAT, unique-local and IPv6 link-local blocks);
  loopback passes by its own switch, and an IPv6 address with an embedded IPv4 address is judged
  by that address.\<close>

theorem ssrf_check_is_block_policy: "is_ok (check_ip ip policy) \<longleftrightarrow> permitted policy ip"
  using check_ip_permitted [of ip policy] by (auto simp: is_ok_iff)

text \<open>Loopback destinations as address blocks, and the addresses a destination stands for.\<close>

fun in_loopback_block :: "IpAddr \<Rightarrow> bool" where
  "in_loopback_block (V4 ip) \<longleftrightarrow> in_block 32 (dotted 127 0 0 0) 8 (unat ip)"
| "in_loopback_block (V6 ip) \<longleftrightarrow> unat ip = 1
     \<or> unat ip div 2 ^ 32 = 0xffff \<and> in_block 32 (dotted 127 0 0 0) 8 (unat ip mod 2 ^ 32)"

definition localhost_host :: "string \<Rightarrow> bool" where
  "localhost_host host \<longleftrightarrow> to_ascii_lowercase host = ''localhost'' \<or> (\<exists>p. to_ascii_lowercase host = p @ ''.localhost'')"

definition destination_addresses ::
  "(string \<Rightarrow> (SsrfError, IpAddr list) result) \<Rightarrow> Url \<Rightarrow> string \<Rightarrow> (SsrfError, IpAddr list) result" where
  "destination_addresses resolve url host =
     (case parse_ip host of
        Some ip \<Rightarrow> Inr [ip]
      | None \<Rightarrow>
          (case url_host url of
             Some (HostIpv4 v4) \<Rightarrow> Inr [V4 v4]
           | Some (HostIpv6 v6) \<Rightarrow> Inr [V6 v6]
           | _ \<Rightarrow> if localhost_host host then Inr [V4 0x7F000001] else resolve host))"

lemma ip_is_loopback_block: "ip_is_loopback ip \<longleftrightarrow> in_loopback_block ip"
proof (cases ip)
  case (V6 a)
  have "v6_is_loopback a \<longleftrightarrow> unat a = 1" by (simp add: v6_is_loopback_def word_unat_eq_iff)
  then show ?thesis by (auto simp: V6 to_ipv4_mapped_iff v4_loopback_block unat_v4_of_segments)
qed (simp add: v4_loopback_block)

lemma localhost_host_name: "is_localhost_name (to_ascii_lowercase host) \<longleftrightarrow> localhost_host host"
  by (auto simp: is_localhost_name_def localhost_host_def ends_with_def suffix_def)

lemma resolved_destination:
  assumes "resolve_and_validate parse_url url policy resolve = Inr ips" and "url_host_str url = Some host"
  shows "destination_addresses resolve url host = Inr ips"
proof -
  have local: "LOCALHOST = 0x7F000001" by code_simp
  show ?thesis
    using assms
    by (auto simp: resolve_and_validate_def destination_addresses_def Let_def local localhost_host_name
        split: option.splits Host.splits if_splits)
qed

text \<open>C25: A pinned client reaches permitted addresses only. Whatever the resolver answers, a client that is
  built has the given timeout and follows no redirects; all addresses its destination stands for (the literal address, the local
  host, or every answer of the resolver) are permitted by the policy; unless the host is a literal address
  or \<open>localhost\<close>, the client is pinned to exactly these addresses at the port of the URL; and it bypasses the proxy
  exactly when the destination is local: a \<open>localhost\<close> name, or loopback addresses only.\<close>

theorem pinned_client_vetted:
  assumes "url_contract parse_url"
    and "build_pinned_client_for_url parse_url build raw policy resolve timeout = Inr (url, client)"
  shows "\<exists>cfg host addrs port. build cfg = Some client \<and> url_host_str url = Some host \<and> url_port url = Some port
     \<and> timeout_ms cfg = timeout \<and> \<not> follow_redirects cfg
     \<and> destination_addresses resolve url host = Inr addrs
     \<and> addrs \<noteq> [] \<and> (\<forall>ip \<in> set addrs. permitted policy ip)
     \<and> pinned cfg = (if parse_ip host = None \<and> to_ascii_lowercase host \<noteq> ''localhost''
                      then Some (host, map (\<lambda>ip. (ip, port)) addrs) else None)
     \<and> (no_proxy cfg \<longleftrightarrow> localhost_host host \<or> (\<forall>ip \<in> set addrs. in_loopback_block ip))"
proof -
  obtain host ips port where
    url: "parse_url (trim raw) = Some url" "url_host_str url = Some host" "url_port url = Some port"
    and res: "resolve_and_validate parse_url url policy resolve = Inr ips"
    and client: "build (pinned_config host (map (\<lambda>ip. (ip, port)) ips) timeout) = Some client"
    using assms(2)
    by (auto simp: build_pinned_client_for_url_def build_pinned_client_def validate_provider_url_def
        Let_def split: if_splits)
  have vetted: "ips \<noteq> []" "\<forall>ip \<in> set ips. permitted policy ip"
    using resolved_permitted [OF assms(1) url(1) res] by auto
  have dest: "destination_addresses resolve url host = Inr ips" by (rule resolved_destination [OF res url(2)])
  have "destination_is_loopback host (map (\<lambda>ip. (ip, port)) ips)
      \<longleftrightarrow> localhost_host host \<or> (\<forall>ip \<in> set ips. in_loopback_block ip)"
    using dest vetted(1)
    by (auto simp: destination_is_loopback_def host_is_loopback_def localhost_host_name ip_is_loopback_block
        list_all_iff destination_addresses_def split: option.splits)
  with client url vetted dest show ?thesis
    by (intro exI [of _ "pinned_config host (map (\<lambda>ip. (ip, port)) ips) timeout"] exI [of _ host]
        exI [of _ ips] exI [of _ port])
      (simp add: pinned_config_def)
qed

definition demo_url :: Url where
  "demo_url = \<lparr>url_text = ''https://api.example.com/v1'', url_scheme = ''https'',
     url_host_str = Some ''api.example.com'', url_host = Some (Domain ''api.example.com''), url_port = Some 443\<rparr>"

definition demo_parse_url :: "string \<Rightarrow> Url option" where
  "demo_parse_url s = (if s = ''https://api.example.com/v1'' then Some demo_url else None)"

theorem pinned_client_vetted_witness:
  "\<exists>cfg. build_pinned_client_for_url demo_parse_url Some '' https://api.example.com/v1'' ssrf_default
       (map_resolve (map_from_pairs [(''API.example.com'', [V4 0x5DB8D822])])) 30000 = Inr (demo_url, cfg)
     \<and> \<not> follow_redirects cfg \<and> permitted ssrf_default (V4 0x5DB8D822)"
proof -
  let ?res = "map_resolve (map_from_pairs [(''API.example.com'', [V4 0x5DB8D822])])"
  let ?cfg = "pinned_config ''api.example.com'' [(V4 0x5DB8D822, 443)] 30000"
  have contract: "url_contract demo_parse_url"
  proof -
    have "trim ''https://api.example.com/v1'' = ''https://api.example.com/v1''" by code_simp
    then show ?thesis by (auto simp: url_contract_def demo_parse_url_def demo_url_def)
  qed
  have texts: "trim '' https://api.example.com/v1'' = ''https://api.example.com/v1''"
    "trim ''https://api.example.com/v1'' = ''https://api.example.com/v1''"
    "is_localhost_name (to_ascii_lowercase ''api.example.com'') = False"
    "?res ''api.example.com'' = Inr [V4 0x5DB8D822]"
    "check_all [V4 0x5DB8D822] ssrf_default = Inr ()"
    by code_simp+
  have name: "parse_ip ''api.example.com'' = None" by (simp add: ip_parse_defs)
  have host: "check_host demo_url ''api.example.com'' ssrf_default = Inr ()"
    by (simp add: check_host_def name is_localhost_name_def to_ascii_lowercase_def ascii_lower_byte_def
        ends_with_def suffix_def demo_url_def)
  note parts = texts name host
  have built: "build_pinned_client_for_url demo_parse_url Some '' https://api.example.com/v1'' ssrf_default
       ?res 30000 = Inr (demo_url, ?cfg)"
    using parts by (simp add: build_pinned_client_for_url_def build_pinned_client_def resolve_and_validate_def
        validate_provider_url_def demo_parse_url_def Let_def ok_or_def demo_url_def)
  from pinned_client_vetted [OF contract built] have "\<not> follow_redirects ?cfg" by auto
  moreover have "permitted ssrf_default (V4 0x5DB8D822)"
    using texts(5) unfolding check_all_permitted by simp
  ultimately show ?thesis using built by blast
qed

end
