(* ===== verification/Sse_Decoder.thy ===== *)
theory Sse_Decoder
  imports Text_Lines "HOL-Library.Sublist"
begin

text \<open>
  \<open>crates/cd-core/src/sse.rs\<close>: byte buffers for streaming HTTP bodies. The line decoder keeps raw
  bytes across network chunks and yields complete, strictly decoded lines under a bound; the body
  accumulator decodes one whole body. Lengths are natural numbers (a \<open>Vec\<close> holds fewer than
  \<open>2 ^ 63\<close> bytes, so the sums of the source do not wrap); an operation returns the new state with
  its result, also when it fails.

  The specification reads the whole stream at once: its terminated lines are good when they are
  within the bound and valid UTF-8, and the lines delivered are the good ones with the terminator
  stripped, whatever the chunk boundaries.
\<close>

section \<open>Line decoder\<close>

datatype SseError =
    LineTooLong | LineNotUtf8 | UnterminatedTooLong | TrailingNotUtf8 | BodyTooLarge | BodyNotUtf8

definition DEFAULT_MAX_BUFFERED_LINE_BYTES :: nat where
  "DEFAULT_MAX_BUFFERED_LINE_BYTES = 4 * 1024 * 1024"

definition decode_strict :: "string \<Rightarrow> SseError \<Rightarrow> (SseError, string) result" where
  "decode_strict bytes what = (if valid_utf8 bytes then Inr bytes else Inl what)"

record SseLineDecoder =
  pending :: string
  max_buffered_line_bytes :: nat

definition with_max_buffered_line_bytes :: "nat \<Rightarrow> SseLineDecoder" where
  "with_max_buffered_line_bytes n = \<lparr>pending = [], max_buffered_line_bytes = n\<rparr>"

definition sse_new :: SseLineDecoder where
  "sse_new = with_max_buffered_line_bytes DEFAULT_MAX_BUFFERED_LINE_BYTES"

text \<open>The loop of \<open>push\<close> on the pending bytes, with the lines collected so far.\<close>

function push_loop :: "nat \<Rightarrow> string \<Rightarrow> string list \<Rightarrow> string \<times> (SseError, string list) result" where
  "push_loop bound bytes acc =
     (case break_line bytes of
        Some (line, rest) \<Rightarrow>
          if length line > bound then (bytes, Inl LineTooLong)
          else (case decode_strict (strip_cr line) LineNotUtf8 of
                  Inl e \<Rightarrow> (rest, Inl e)
                | Inr text \<Rightarrow> push_loop bound rest (acc @ [text]))
      | None \<Rightarrow>
          if length bytes > bound then (bytes, Inl UnterminatedTooLong) else (bytes, Inr acc))"
  by auto
termination
  by (relation "measure (\<lambda>(bound, bytes, acc). length bytes)") (auto dest: break_line_shorter)

declare push_loop.simps [simp del]

definition sse_push :: "SseLineDecoder \<Rightarrow> string \<Rightarrow> SseLineDecoder \<times> (SseError, string list) result" where
  "sse_push d bytes =
     (case push_loop (max_buffered_line_bytes d) (pending d @ bytes) [] of
        (rest, r) \<Rightarrow> (d\<lparr>pending := rest\<rparr>, r))"

definition sse_finish :: "SseLineDecoder \<Rightarrow> (SseError, string option) result" where
  "sse_finish d =
     (if pending d = [] then Inr None
      else and_then (decode_strict (pending d) TrailingNotUtf8) (\<lambda>s. Inr (Some s)))"

section \<open>Body accumulator\<close>

record BoundedBodyAccumulator =
  body_bytes :: string
  max_bytes :: nat

definition with_max_bytes :: "nat \<Rightarrow> BoundedBodyAccumulator" where
  "with_max_bytes n = \<lparr>body_bytes = [], max_bytes = n\<rparr>"

definition body_new :: BoundedBodyAccumulator where
  "body_new = with_max_bytes DEFAULT_MAX_BUFFERED_LINE_BYTES"

definition body_push :: "BoundedBodyAccumulator \<Rightarrow> string \<Rightarrow> BoundedBodyAccumulator \<times> (SseError, unit) result" where
  "body_push b bytes =
     (if length (body_bytes b) + length bytes > max_bytes b then (b, Inl BodyTooLarge)
      else (b\<lparr>body_bytes := body_bytes b @ bytes\<rparr>, Inr ()))"

definition body_finish :: "BoundedBodyAccumulator \<Rightarrow> (SseError, string) result" where
  "body_finish b = decode_strict (body_bytes b) BodyNotUtf8"

section \<open>Streams\<close>

text \<open>A caller feeds the chunks in order, collects the lines and stops at the first error.\<close>

fun sse_feed :: "SseLineDecoder \<Rightarrow> string list \<Rightarrow> SseLineDecoder \<times> string list \<times> SseError option" where
  "sse_feed d [] = (d, [], None)"
| "sse_feed d (c # cs) =
     (case sse_push d c of
        (d', Inl e) \<Rightarrow> (d', [], Some e)
      | (d', Inr ls) \<Rightarrow> (case sse_feed d' cs of (d'', ls', e) \<Rightarrow> (d'', ls @ ls', e)))"

fun body_feed :: "BoundedBodyAccumulator \<Rightarrow> string list \<Rightarrow> (SseError, BoundedBodyAccumulator) result" where
  "body_feed b [] = Inr b"
| "body_feed b (c # cs) = (case body_push b c of (b', Inl e) \<Rightarrow> Inl e | (b', Inr u) \<Rightarrow> body_feed b' cs)"

definition good_line :: "nat \<Rightarrow> string \<Rightarrow> bool" where
  "good_line bound l \<longleftrightarrow> length l \<le> bound \<and> valid_utf8 (strip_cr l)"

definition good_stream :: "nat \<Rightarrow> string \<Rightarrow> bool" where
  "good_stream bound s \<longleftrightarrow>
     list_all (good_line bound) (fst (raw_split s)) \<and> length (snd (raw_split s)) \<le> bound"

definition stream_lines :: "nat \<Rightarrow> string \<Rightarrow> string list" where
  "stream_lines bound s = map strip_cr (takeWhile (good_line bound) (fst (raw_split s)))"

lemma push_loop_split:
  "(case push_loop bound bytes acc of
      (rest, Inr ls) \<Rightarrow> good_stream bound bytes \<and> rest = snd (raw_split bytes)
        \<and> ls = acc @ stream_lines bound bytes
    | (rest, Inl e) \<Rightarrow> \<not> good_stream bound bytes)"
proof (induction bound bytes acc rule: push_loop.induct)
  case (1 bound bytes acc)
  show ?case
  proof (cases "break_line bytes")
    case None
    then show ?thesis
      by (simp add: push_loop.simps [of bound bytes] good_stream_def stream_lines_def raw_split.simps [of bytes])
  next
    case (Some lr)
    obtain line rest where lr: "lr = (line, rest)" by force
    show ?thesis
    proof (cases "good_line bound line")
      case False
      then show ?thesis
        using Some lr by (auto simp: push_loop.simps [of bound bytes] good_stream_def good_line_def
            decode_strict_def raw_split.simps [of bytes] split: prod.splits)
    next
      case True
      then have step: "push_loop bound bytes acc = push_loop bound rest (acc @ [strip_cr line])"
        using Some lr by (simp add: push_loop.simps [of bound bytes] good_line_def decode_strict_def)
      have "good_stream bound bytes \<longleftrightarrow> good_stream bound rest"
        and "stream_lines bound bytes = strip_cr line # stream_lines bound rest"
        and "snd (raw_split bytes) = snd (raw_split rest)"
        using True Some lr
        by (auto simp: good_stream_def stream_lines_def raw_split.simps [of bytes] split: prod.splits)
      moreover have "case push_loop bound rest (acc @ [strip_cr line]) of
          (r, Inr ls) \<Rightarrow> good_stream bound rest \<and> r = snd (raw_split rest)
            \<and> ls = acc @ strip_cr line # stream_lines bound rest
        | (r, Inl e) \<Rightarrow> \<not> good_stream bound rest"
        using 1 [OF Some lr [symmetric]] True by (simp add: good_line_def decode_strict_def)
      ultimately show ?thesis unfolding step by (auto split: prod.splits sum.splits)
    qed
  qed
qed

lemma good_stream_append:
  assumes "good_stream bound a"
  shows "good_stream bound (a @ b) \<longleftrightarrow> good_stream bound (snd (raw_split a) @ b)"
    and "stream_lines bound (a @ b) = stream_lines bound a @ stream_lines bound (snd (raw_split a) @ b)"
    and "snd (raw_split (a @ b)) = snd (raw_split (snd (raw_split a) @ b))"
  using assms
  by (auto simp: good_stream_def stream_lines_def raw_split_append [of a b] list_all_iff
      takeWhile_append2 takeWhile_eq_all_conv [THEN iffD2] split: prod.splits)

lemma bad_stream_append:
  assumes "good_stream bound (a @ b)"
  shows "good_stream bound a"
proof -
  obtain ls r where a: "raw_split a = (ls, r)" by force
  have nl: "CHR 0x0A \<notin> set r" using a by (rule raw_split_rest)
  obtain ls' r' where b: "raw_split (r @ b) = (ls', r')" by force
  have good: "list_all (good_line bound) ls" "list_all (good_line bound) ls'" "length r' \<le> bound"
    using assms a b by (simp_all add: good_stream_def raw_split_append [of a b])
  have "length r \<le> bound"
  proof (cases "break_line (r @ b)")
    case None
    then have "r' = r @ b" using b by (simp add: raw_split.simps [of "r @ b"])
    then show ?thesis using good by simp
  next
    case (Some lr)
    obtain l rest where lr: "lr = (l, rest)" by force
    then obtain ms where "ls' = l # ms" using b Some by (auto simp: raw_split.simps [of "r @ b"] split: prod.splits)
    then have "length l \<le> bound" using good by (simp add: good_line_def)
    moreover have "length r \<le> length l"
    proof (rule ccontr)
      assume "\<not> length r \<le> length l"
      moreover have "r @ b = l @ CHR 0x0A # rest" using Some lr by (simp add: break_line_Some)
      ultimately have "CHR 0x0A \<in> set r" by (auto simp: append_eq_append_conv2 append_eq_Cons_conv)
      with nl show False by simp
    qed
    ultimately show ?thesis by simp
  qed
  then show ?thesis using good a by (simp add: good_stream_def)
qed

lemma stream_lines_prefix: "prefix (stream_lines bound a) (stream_lines bound (a @ b))"
proof -
  obtain ls r where a: "raw_split a = (ls, r)" by force
  obtain ls' r' where b: "raw_split (r @ b) = (ls', r')" by force
  have "takeWhile P (ls @ ls') = takeWhile P ls @ (if list_all P ls then takeWhile P ls' else [])" for P
    by (induction ls) auto
  then show ?thesis using a b by (simp add: stream_lines_def raw_split_append [of a b])
qed

lemma sse_push_spec:
  "case sse_push d c of
     (d', Inr ls) \<Rightarrow> good_stream (max_buffered_line_bytes d) (pending d @ c)
       \<and> d' = d\<lparr>pending := snd (raw_split (pending d @ c))\<rparr>
       \<and> ls = stream_lines (max_buffered_line_bytes d) (pending d @ c)
   | (d', Inl e) \<Rightarrow> \<not> good_stream (max_buffered_line_bytes d) (pending d @ c)"
  using push_loop_split [of "max_buffered_line_bytes d" "pending d @ c" "[]"]
  by (auto simp: sse_push_def split: prod.splits sum.splits)

lemma sse_feed_spec:
  assumes "CHR 0x0A \<notin> set (pending d)" and "length (pending d) \<le> max_buffered_line_bytes d"
  shows "case sse_feed d cs of
     (d', ls, None) \<Rightarrow> good_stream (max_buffered_line_bytes d) (pending d @ concat cs)
       \<and> d' = d\<lparr>pending := snd (raw_split (pending d @ concat cs))\<rparr>
       \<and> ls = stream_lines (max_buffered_line_bytes d) (pending d @ concat cs)
   | (d', ls, Some e) \<Rightarrow> \<not> good_stream (max_buffered_line_bytes d) (pending d @ concat cs)
       \<and> prefix ls (stream_lines (max_buffered_line_bytes d) (pending d @ concat cs))"
  using assms
proof (induction cs arbitrary: d)
  case Nil
  then have "break_line (pending d) = None" by (simp add: break_line_None)
  then show ?case using Nil by (simp add: good_stream_def stream_lines_def raw_split.simps)
next
  case (Cons c cs)
  let ?b = "max_buffered_line_bytes d" and ?p = "pending d @ c"
  obtain d1 r where push: "sse_push d c = (d1, r)" by force
  show ?case
  proof (cases r)
    case (Inl e)
    then have "\<not> good_stream ?b ?p" using sse_push_spec [of d c] push by simp
    then have "\<not> good_stream ?b (?p @ concat cs)" using bad_stream_append by blast
    then show ?thesis using push Inl by simp
  next
    case (Inr ls)
    then have good: "good_stream ?b ?p" and d1: "d1 = d\<lparr>pending := snd (raw_split ?p)\<rparr>"
      and ls: "ls = stream_lines ?b ?p"
      using sse_push_spec [of d c] push by simp_all
    have "CHR 0x0A \<notin> set (pending d1)" "length (pending d1) \<le> max_buffered_line_bytes d1"
      using good d1 raw_split_rest [of ?p] by (auto simp: good_stream_def intro: surjective_pairing)
    note IH = Cons.IH [OF this]
    obtain d2 ls' e where feed: "sse_feed d1 cs = (d2, ls', e)" by (metis prod_cases3)
    have "pending d @ concat (c # cs) = ?p @ concat cs" by simp
    then show ?thesis
      using IH feed push Inr good_stream_append [OF good, of "concat cs"] d1 ls
      by (cases e) (auto simp: append_assoc [symmetric] simp del: append_assoc)
  qed
qed

lemma body_feed_spec:
  "body_feed b cs =
     (if cs = [] \<or> length (body_bytes b) + length (concat cs) \<le> max_bytes b
      then Inr (b\<lparr>body_bytes := body_bytes b @ concat cs\<rparr>) else Inl BodyTooLarge)"
  by (induction cs arbitrary: b) (auto simp: body_push_def)

section \<open>Properties\<close>

text \<open>C27: Chunk boundaries are invisible. However a byte stream is cut into network chunks, the
  decoder fails exactly when the stream as a whole has an over-long line, a line that is not UTF-8
  or too many unterminated bytes; otherwise it delivers exactly the stream's lines and keeps exactly
  its unterminated rest. Before a failure it has delivered only good lines, in order.\<close>

theorem sse_chunking_invisible:
  assumes "sse_feed (with_max_buffered_line_bytes bound) chunks = (d, delivered, err)"
  shows "(err = None \<longleftrightarrow> good_stream bound (concat chunks))
     \<and> prefix delivered (stream_lines bound (concat chunks))
     \<and> (err = None \<longrightarrow> delivered = stream_lines bound (concat chunks)
          \<and> pending d = snd (raw_split (concat chunks)) \<and> length (pending d) \<le> bound)"
  using assms sse_feed_spec [of "with_max_buffered_line_bytes bound" chunks]
  by (cases err) (auto simp: with_max_buffered_line_bytes_def good_stream_def)

theorem sse_chunking_invisible_witness:
  "sse_feed (with_max_buffered_line_bytes 16) [''da'', ''ta: '', [CHR 0xC3], [CHR 0xA9, CHR 0x0D], [CHR 0x0A], ''x'']
     = (\<lparr>pending = ''x'', max_buffered_line_bytes = 16\<rparr>, [''data: '' @ [CHR 0xC3, CHR 0xA9]], None)
   \<and> good_stream 16 (concat [''da'', ''ta: '', [CHR 0xC3], [CHR 0xA9, CHR 0x0D], [CHR 0x0A], ''x''])"
proof -
  let ?cs = "[''da'', ''ta: '', [CHR 0xC3], [CHR 0xA9, CHR 0x0D], [CHR 0x0A], ''x'']"
  have run: "sse_feed (with_max_buffered_line_bytes 16) ?cs
     = (\<lparr>pending = ''x'', max_buffered_line_bytes = 16\<rparr>, [''data: '' @ [CHR 0xC3, CHR 0xA9]], None)"
    by code_simp
  from sse_chunking_invisible [OF run] run show ?thesis by blast
qed

end
