(* ===== verification/Tool_Names.thy ===== *)
theory Tool_Names
  imports Rust_Strings "HOL-Library.List_Lexorder" "HOL-Library.Char_ord"
begin

text \<open>
  \<open>normalize_tool_name\<close> and \<open>resolve_tool_name\<close> of \<open>crates/cd-core/src/tools.rs\<close>: a possibly garbled
  tool name of a model is cut to its leading identifier and matched against the catalog. The
  specification names the match by sets: exact, else longest known prefix, else unique extension.
\<close>

definition ident_char :: "string \<Rightarrow> bool" where
  "ident_char u \<longleftrightarrow>
     (case u of
        [c] \<Rightarrow> (let n = of_char c :: nat in 48 \<le> n \<and> n \<le> 57 \<or> 65 \<le> n \<and> n \<le> 90 \<or> 97 \<le> n \<and> n \<le> 122)
               \<or> c = CHR ''_''
      | _ \<Rightarrow> False)"

fun normalize_loop :: "bool \<Rightarrow> string list \<Rightarrow> string" where
  "normalize_loop started [] = []"
| "normalize_loop started (u # us) =
     (if u = ''<'' \<or> u = [CHR 0x0A] \<or> u = [CHR 0x0D] then []
      else if ident_char u then u @ normalize_loop True us
      else if started then []
      else normalize_loop started us)"

definition normalize_tool_name :: "string \<Rightarrow> string" where
  "normalize_tool_name raw =
     (let s = trim raw in if s = [] then [] else normalize_loop False (utf8_chars s))"

definition best_prefix :: "string \<Rightarrow> string list \<Rightarrow> string option" where
  "best_prefix n known =
     foldl (\<lambda>best k. if starts_with n k \<and> (case best of Some b \<Rightarrow> length k > length b | None \<Rightarrow> True)
                     then Some k else best) None known"

definition resolve_tool_name :: "string \<Rightarrow> string list \<Rightarrow> string option" where
  "resolve_tool_name raw known =
     (let n = normalize_tool_name raw in
      if n = [] then None
      else if n \<in> set known then Some n
      else case best_prefix n known of
        Some k \<Rightarrow> Some k
      | None \<Rightarrow>
          (let prefixes = remdups_adj (sort (filter (\<lambda>k. starts_with k n) known))
           in if length prefixes = 1 then Some (prefixes ! 0) else None))"

section \<open>Specification\<close>

definition tool_match :: "string \<Rightarrow> string set \<Rightarrow> string \<Rightarrow> bool" where
  "tool_match n known t \<longleftrightarrow>
     (if n \<in> known then t = n
      else if (\<exists>k \<in> known. prefix k n) then t \<in> known \<and> prefix t n \<and> (\<forall>k \<in> known. prefix k n \<longrightarrow> length k \<le> length t)
      else {k \<in> known. prefix n k} = {t})"

lemma best_prefix_snoc:
  "best_prefix n (known @ [k]) =
     (if prefix k n \<and> (case best_prefix n known of Some b \<Rightarrow> length k > length b | None \<Rightarrow> True)
      then Some k else best_prefix n known)"
  by (simp add: best_prefix_def starts_with_def)

lemma best_prefix_Nil [simp]: "best_prefix n [] = None"
  by (simp add: best_prefix_def)

lemma best_prefix_None: "best_prefix n known = None \<longleftrightarrow> (\<forall>k \<in> set known. \<not> prefix k n)"
  by (induction known rule: rev_induct) (auto simp: best_prefix_snoc split: option.splits)

lemma best_prefix_Some:
  "best_prefix n known = Some b \<Longrightarrow>
     b \<in> set known \<and> prefix b n \<and> (\<forall>k \<in> set known. prefix k n \<longrightarrow> length k \<le> length b)"
proof (induction known arbitrary: b rule: rev_induct)
  case (snoc k known)
  show ?case
  proof (cases "best_prefix n known")
    case None
    then have "\<forall>k \<in> set known. \<not> prefix k n" by (simp add: best_prefix_None)
    then show ?thesis using snoc.prems None by (auto simp: best_prefix_snoc split: if_splits)
  next
    case (Some a)
    then show ?thesis using snoc.IH [OF Some] snoc.prems by (fastforce simp: best_prefix_snoc split: if_splits)
  qed
qed simp

lemma longest_prefix_unique: "prefix a n \<Longrightarrow> prefix b n \<Longrightarrow> length a = length b \<Longrightarrow> a = b"
  by (metis prefix_length_prefix prefix_order.antisym order_refl)

lemma sorted_dedup_single:
  fixes xs :: "'a::linorder list"
  shows "length (remdups_adj (sort xs)) = 1 \<and> remdups_adj (sort xs) ! 0 = t \<longleftrightarrow> set xs = {t}"
proof
  assume "length (remdups_adj (sort xs)) = 1 \<and> remdups_adj (sort xs) ! 0 = t"
  then have "remdups_adj (sort xs) = [t]" by (cases "remdups_adj (sort xs)") auto
  then have "set (remdups_adj (sort xs)) = {t}" by simp
  then show "set xs = {t}" by simp
next
  assume set: "set xs = {t}"
  then have "sort xs = replicate (length xs) t" by (intro replicate_eqI) auto
  moreover have "xs \<noteq> []" using set by auto
  ultimately show "length (remdups_adj (sort xs)) = 1 \<and> remdups_adj (sort xs) ! 0 = t"
    by (simp add: remdups_adj_replicate)
qed

lemma normalize_loop_idents: "\<exists>us. normalize_loop b vs = concat us \<and> list_all ident_char us"
proof (induction b vs rule: normalize_loop.induct)
  case (2 started u us)
  show ?case
  proof (cases "(u = ''<'' \<or> u = [CHR 0x0A] \<or> u = [CHR 0x0D]) \<or> \<not> ident_char u")
    case False
    then obtain ws where "normalize_loop True us = concat ws" "list_all ident_char ws" using 2(1) by blast
    then show ?thesis using False by (intro exI [of _ "u # ws"]) simp
  next
    case True
    then show ?thesis using 2(2) by (auto intro: exI [of _ "[]"])
  qed
qed (auto intro: exI [of _ "[]"])

section \<open>Property\<close>

text \<open>C35: Tool-name resolution follows the catalog: a name resolves to \<open>t\<close> exactly when its normalized
  form is a non-empty run of identifier characters and \<open>t\<close> is the catalog entry equal to it, else the
  longest entry it extends, else the only entry that extends it. In particular no name outside the
  catalog is ever produced.\<close>

theorem tool_resolution_exact:
  "(resolve_tool_name raw known = Some t \<longleftrightarrow>
      normalize_tool_name raw \<noteq> [] \<and> tool_match (normalize_tool_name raw) (set known) t)
   \<and> (\<exists>us. normalize_tool_name raw = concat us \<and> list_all ident_char us)"
proof
  let ?n = "normalize_tool_name raw"
  have ext: "set (filter (\<lambda>k. starts_with k ?n) known) = {k \<in> set known. prefix ?n k}"
    by (auto simp: starts_with_def)
  show "resolve_tool_name raw known = Some t \<longleftrightarrow> ?n \<noteq> [] \<and> tool_match ?n (set known) t"
  proof (cases "?n = [] \<or> ?n \<in> set known")
    case True
    then show ?thesis by (auto simp: resolve_tool_name_def tool_match_def Let_def)
  next
    case False
    show ?thesis
    proof (cases "best_prefix ?n known")
      case None
      then have "\<not> (\<exists>k \<in> set known. prefix k ?n)" by (simp add: best_prefix_None)
      then show ?thesis
        using False None sorted_dedup_single [of "filter (\<lambda>k. starts_with k ?n) known" t]
        unfolding ext by (auto simp: resolve_tool_name_def tool_match_def Let_def)
    next
      case (Some b)
      note best = best_prefix_Some [OF Some]
      have "tool_match ?n (set known) t \<longleftrightarrow> t = b"
        using False best by (auto simp: tool_match_def) (metis le_antisym longest_prefix_unique)
      then show ?thesis using False Some by (auto simp: resolve_tool_name_def Let_def)
    qed
  qed
next
  show "\<exists>us. normalize_tool_name raw = concat us \<and> list_all ident_char us"
    using normalize_loop_idents by (auto simp: normalize_tool_name_def Let_def intro: exI [of _ "[]"])
qed

end
