(* ===== verification/Turn_Properties.thy ===== *)
theory Turn_Properties
  imports Turn_Budget "HOL-Library.Multiset"
begin

text \<open>
  Properties of the turn budgets: deadline plans are total and bounded, the deadline grammar
  round-trips, the synthesis reserve survives the candidate loop and sources are ranked.
\<close>

text \<open>For every router budget, stored or hand-edited, and every provider profile a deadline plan
  is computed without a \<open>clamp\<close> panic; the whole turn is between 0.5 s and 10 min, no phase exceeds
  the turn or drops under 0.5 s, and an explicit ceiling inside the range is kept to the millisecond.\<close>

theorem deadline_plan_bounded:
  "\<exists>plan. plan_for_profile url_host budget profile = Some plan
     \<and> 500 \<le> total_ms plan \<and> total_ms plan \<le> 600000
     \<and> (\<forall>phase. 500 \<le> for_phase plan phase \<and> for_phase plan phase \<le> total_ms plan)
     \<and> explicit plan = deadline_is_explicit budget
     \<and> (deadline_is_explicit budget \<longrightarrow> total_ms plan = clamp (deadline_ms budget) 500 600000)"
  by (rule plan_for_profile_bounds [of url_host budget profile]) blast

theorem deadline_plan_bounded_witness:
  "\<exists>plan. plan_for_profile (\<lambda>u. None)
       (router_budget_default\<lparr>deadline_ms := 90000, deadline_is_explicit := True\<rparr>) ollama_local = Some plan
     \<and> total_ms plan = 90000 \<and> synthesizing_ms plan \<le> 90000"
proof -
  let ?b = "router_budget_default\<lparr>deadline_ms := 90000, deadline_is_explicit := True\<rparr>"
  obtain plan where p: "plan_for_profile (\<lambda>u. None) ?b ollama_local = Some plan"
    and "\<forall>phase. 500 \<le> for_phase plan phase \<and> for_phase plan phase \<le> total_ms plan"
    and "deadline_is_explicit ?b \<longrightarrow> total_ms plan = clamp (deadline_ms ?b) 500 600000"
    using deadline_plan_bounded [of "\<lambda>u. None" ?b ollama_local] by blast
  then have "total_ms plan = 90000" "for_phase plan SynthesizingAnswer \<le> total_ms plan" by (simp, blast)
  with p show ?thesis by auto
qed

text \<open>Every duration in range prints to a text that parses back to the same number of
  milliseconds, and every text the parser accepts, however written, denotes a value in range.\<close>

theorem deadline_text_roundtrip:
  "(in_deadline_range ms \<longrightarrow> parse_deadline_duration (format_deadline_ms ms) = Inr ms)
   \<and> (parse_deadline_duration input = Inr v \<longrightarrow>
        in_deadline_range v \<and> parse_deadline_duration (format_deadline_ms v) = Inr v)"
  using format_parse_deadline parse_deadline_range by blast

theorem deadline_text_roundtrip_witness:
  "parse_deadline_duration ''90s'' = Inr 90000 \<and> in_deadline_range 90000
   \<and> parse_deadline_duration (format_deadline_ms 90000) = Inr 90000"
proof -
  have unit: "list_all plain_char ''s''" "show_nat (unat (90 :: u64)) = ''90''" "\<not> is_ascii_digit (CHR ''s'')"
    "to_ascii_lowercase ''s'' = ''s''" by code_simp+
  have p: "parse_deadline_duration ''90s'' = Inr 90000"
    using parse_number_unit [OF unit(1), of 90] unit(2-)
    by (simp add: ok_or_def checked_mul_def in_deadline_range_def MIN_DEADLINE_MS_def MAX_DEADLINE_MS_def)
  with deadline_text_roundtrip [of 90000 "''90s''" 90000] show ?thesis by blast
qed

text \<open>Applying a deadline never stores a value outside the range and changes nothing but the two
  deadline fields; the value applied is the ceiling of the next plan; a refusal names the value.\<close>

lemma explicit_deadline_effective:
  "apply_explicit_deadline_ms b ms =
     (if in_deadline_range ms then Inr (b\<lparr>deadline_ms := ms, deadline_is_explicit := True\<rparr>)
      else Inl (OutOfRange ms))
   \<and> (\<forall>b'. apply_explicit_deadline_ms b ms = Inr b' \<longrightarrow>
        (\<exists>plan. plan_for_profile url_host b' profile = Some plan
           \<and> total_ms plan = ms \<and> explicit plan) \<and> policy_mode b' = ExplicitMode)"
proof -
  have "\<exists>plan. plan_for_profile url_host b' profile = Some plan \<and> total_ms plan = ms \<and> explicit plan"
    if "apply_explicit_deadline_ms b ms = Inr b'" for b'
    by (rule plan_for_profile_bounds [of url_host b' profile])
      (use that in \<open>auto simp: apply_explicit_deadline_ms_def in_deadline_range_def MIN_DEADLINE_MS_def
        MAX_DEADLINE_MS_def split: if_splits\<close>)
  then show ?thesis
    by (auto simp: apply_explicit_deadline_ms_def policy_mode_def split: if_splits)
qed

text \<open>C36: The final comparison is protected. Start a turn with its planned time and any round ceiling
  a sanitized budget allows, and run any number of candidate calls of any duration through
  admission: time and rounds reserved for the comparison are still there afterwards, and with two
  drafts and no cancellation the comparison is allowed to run.\<close>

theorem synthesis_reserve_survives:
  assumes plan: "plan_for_profile url_host budget profile = Some plan"
    and start: "start = \<lparr>remaining_total_ms = Some (total_ms plan), used_rounds = 0,
          max_rounds = max_tool_rounds (sanitized budget), cancelled = False\<rparr>"
    and final: "final = foldl (candidate_round (synthesis_reserve plan) phase_cap) start costs"
    and drafts: "2 \<le> draft_count"
  shows "(\<exists>r. remaining_total_ms final = Some r \<and> 0 < time_reserve_ms (synthesis_reserve plan)
            \<and> time_reserve_ms (synthesis_reserve plan) \<le> r)
       \<and> unat (used_rounds final) + 1 \<le> unat (max_rounds final)
       \<and> can_run_comparison draft_count final"
proof -
  let ?r = "synthesis_reserve plan" and ?m = "max_tool_rounds (sanitized budget)"
  have total_ms: "500 \<le> total_ms plan"
    using plan plan_for_profile_bounds [of url_host budget profile] by fastforce
  then have big: "2 \<le> total_ms plan" "total_ms plan \<noteq> 0"
    by (auto simp: word_le_nat_alt)
  have m: "1 \<le> ?m \<and> ?m \<le> 32" using clamp_bounds [of 1 32 "max_tool_rounds budget"] by (simp add: sanitized_def)
  have "reserve_kept ?r ?m start"
    using m synthesis_reserve_bounds [of plan] big
    by (auto simp: reserve_kept_def start word_le_nat_alt word_less_nat_alt)
  then have kept: "reserve_kept ?r ?m final" unfolding final by (rule candidates.run_inv)
  have "\<not> cancelled final" by (simp add: final start)
  then have "can_run_comparison draft_count final"
    using reserve_kept_comparison [OF kept] synthesis_reserve_bounds [of plan] big drafts by auto
  moreover have "remaining_total_ms final \<noteq> None"
    unfolding final by (rule candidate_rounds_timed) (simp add: start)
  ultimately show ?thesis
    using kept synthesis_reserve_bounds [of plan] big
    by (auto simp: reserve_kept_def split: option.splits)
qed

theorem synthesis_reserve_survives_witness:
  "let start = \<lparr>remaining_total_ms = Some 300000, used_rounds = 0, max_rounds = 12, cancelled = False\<rparr>;
       reserve = \<lparr>policy_id = MULTI_STAGE_BUDGET_POLICY_V2, time_reserve_ms = 150000, round_reserve = 1\<rparr>
   in can_run_comparison 2 (foldl (candidate_round reserve 180000) start [100000, 100000, 50000, 7])"
proof -
  let ?plan = "\<lparr>total_ms = 300000, choosing_ms = 120000, retrieving_ms = 100000,
      synthesizing_ms = 180000, explicit = False\<rparr> :: TurnDeadlinePlan"
  have plan: "plan_for_profile (\<lambda>u. None) router_budget_default ollama_local = Some ?plan"
    by (simp add: plan_for_profile_def sanitized_def router_budget_default_def plan_total_def
        provider_prefers_patient_deadlines_def ollama_local_def phase_ms_def saturating_mul_def
        checked_div_def clamp_def Let_def)
  have reserve: "synthesis_reserve ?plan
     = \<lparr>policy_id = MULTI_STAGE_BUDGET_POLICY_V2, time_reserve_ms = 150000, round_reserve = 1\<rparr>"
    by (simp add: synthesis_reserve_def Let_def)
  have rounds: "max_tool_rounds (sanitized router_budget_default) = 12"
    by (simp add: sanitized_def router_budget_default_def clamp_def)
  show ?thesis
    using synthesis_reserve_survives [OF plan refl refl, of 2 180000 "[100000, 100000, 50000, 7]"]
    unfolding reserve rounds by (simp add: Let_def)
qed

text \<open>Ranking returns at most \<open>max_sources\<close> of the available sources, each as often as it is
  available, best score first, and never leaves out a source that scores above one it returns.\<close>

theorem rank_sources_top:
  "\<exists>rest. mset available = mset (rank_sources lowercase query available b) + mset rest
     \<and> length (rank_sources lowercase query available b) = min (length available) (unat (max_sources b))
     \<and> sorted_wrt (\<lambda>x y. source_score (lowercase query) (order b) y \<le> source_score (lowercase query) (order b) x)
         (rank_sources lowercase query available b)
     \<and> (\<forall>x \<in> set (rank_sources lowercase query available b). \<forall>y \<in> set rest.
          source_score (lowercase query) (order b) y \<le> source_score (lowercase query) (order b) x)"
proof -
  let ?f = "source_score (lowercase query) (order b)" and ?n = "unat (max_sources b)"
  let ?s = "sort_key (\<lambda>sk. - fst sk) (map (\<lambda>k. (?f k, k)) available)"
  define rest where "rest = map snd (drop ?n ?s)"
  have rank: "rank_sources lowercase query available b = map snd (take ?n ?s)"
    by (simp add: rank_sources_def Let_def)
  have scored: "fst p = ?f (snd p)" if "p \<in> set ?s" for p using that by auto
  have sorted: "sorted_wrt (\<lambda>p q. fst q \<le> fst p) (take ?n ?s @ drop ?n ?s)"
    using sorted_sort_key [of "\<lambda>sk. - fst sk" "map (\<lambda>k. (?f k, k)) available"] by (simp add: sorted_map append_take_drop_id)
  have split: "mset (map snd ?s) = mset (map snd (take ?n ?s)) + mset rest"
    unfolding rest_def by (metis append_take_drop_id map_append mset_append)
  have all: "mset (map snd ?s) = mset available" by (simp add: multiset.map_comp comp_def)
  have "sorted_wrt (\<lambda>x y. ?f y \<le> ?f x) (map snd (take ?n ?s))"
    unfolding sorted_wrt_map
  proof (rule sorted_wrt_mono_rel)
    show "sorted_wrt (\<lambda>p q. fst q \<le> fst p) (take ?n ?s)" using sorted by (simp only: sorted_wrt_append)
  qed (metis scored in_set_takeD)
  moreover have "\<forall>x \<in> set (map snd (take ?n ?s)). \<forall>y \<in> set rest. ?f y \<le> ?f x"
  proof (intro ballI)
    fix x y assume "x \<in> set (map snd (take ?n ?s))" "y \<in> set rest"
    then obtain p q where "p \<in> set (take ?n ?s)" "x = snd p" "q \<in> set (drop ?n ?s)" "y = snd q"
      by (auto simp: rest_def)
    moreover from this have "fst q \<le> fst p" using sorted by (simp only: sorted_wrt_append)
    ultimately show "?f y \<le> ?f x" by (metis scored in_set_takeD in_set_dropD)
  qed
  ultimately show ?thesis
    using split all unfolding rank by (intro exI [of _ rest]) (simp add: min.commute)
qed

theorem rank_sources_top_witness:
  "hd (rank_sources (\<lambda>q. q) ''show the sql schema'' default_order router_budget_default) = Sql
   \<and> length (rank_sources (\<lambda>q. q) ''show the sql schema'' default_order router_budget_default) = 3"
proof -
  have "unat (max_sources router_budget_default) = 3" "length default_order = 5" by code_simp+
  moreover have "hd (rank_sources (\<lambda>q. q) ''show the sql schema'' default_order router_budget_default) = Sql"
    by code_simp
  ultimately show ?thesis
    using rank_sources_top [where available = default_order and lowercase = "\<lambda>q. q"
        and query = "''show the sql schema''" and b = router_budget_default]
    by auto
qed

end
