(* ===== verification/Log_Frame.thy ===== *)
theory Log_Frame
  imports Rust_Text
begin

text \<open>
  \<open>crates/cd-core/src/log_analysis/frame.rs\<close>: joining physical log lines into logical records. The
  framer keeps one open record and decides line by line whether the record is continued, closed with
  the line or closed before it; open CSV quotes, CRI partial lines and pretty-printed JSON keep a record
  open, and bounds on bytes, lines and nesting close it early.

  Shown: the framer loses no non-empty line, duplicates none and keeps their order; the streamed
  quote and brace scanners agree with a scan of the whole record; and every record respects the bounds
  up to its closing line. The nesting depth is an unbounded integer (a line shorter than
  \<open>2 ^ 31\<close> bytes cannot overflow the \<open>i32\<close> of the source).
\<close>

section \<open>Bounds and records\<close>

definition MAX_LOGICAL_RECORD_BYTES :: nat where
  "MAX_LOGICAL_RECORD_BYTES = 1024 * 1024"

definition MAX_PHYSICAL_LINES_PER_RECORD :: nat where
  "MAX_PHYSICAL_LINES_PER_RECORD = 5000"

definition MAX_JSON_FRAMING_DEPTH :: int where
  "MAX_JSON_FRAMING_DEPTH = 64"

record FramedRecord =
  fr_text :: string
  includes_pushed_line :: bool
  fr_truncated :: bool

record CsvQuoteScanner =
  csv_open :: bool
  deferred_close :: bool

definition csv_default :: CsvQuoteScanner where
  "csv_default = \<lparr>csv_open = False, deferred_close = False\<rparr>"

definition csv_feed :: "string \<Rightarrow> CsvQuoteScanner \<Rightarrow> CsvQuoteScanner" where
  "csv_feed ch sc =
     (if deferred_close sc \<and> ch = [CHR 0x22] then sc\<lparr>deferred_close := False\<rparr>
      else (let sc = (if deferred_close sc then sc\<lparr>deferred_close := False, csv_open := False\<rparr> else sc) in
            if ch = [CHR 0x22]
            then (if csv_open sc then sc\<lparr>deferred_close := True\<rparr> else sc\<lparr>csv_open := True\<rparr>)
            else sc))"

definition csv_feed_str :: "string \<Rightarrow> CsvQuoteScanner \<Rightarrow> CsvQuoteScanner" where
  "csv_feed_str text sc = fold csv_feed (utf8_chars text) sc"

definition csv_is_open :: "CsvQuoteScanner \<Rightarrow> bool" where
  "csv_is_open sc \<longleftrightarrow> csv_open sc \<and> \<not> deferred_close sc"

record LogicalRecordFramer =
  pending :: string
  pending_lines :: nat
  csv :: CsvQuoteScanner
  csv_record :: bool
  cri_partial_open :: bool
  json_depth :: int
  json_in_string :: bool
  json_escape :: bool
  over_bound :: bool

definition framer_new :: LogicalRecordFramer where
  "framer_new = \<lparr>pending = [], pending_lines = 0, csv = csv_default, csv_record = False,
     cri_partial_open = False, json_depth = 0, json_in_string = False, json_escape = False,
     over_bound = False\<rparr>"

section \<open>Recognisers\<close>

definition looks_like_multiline_json_start :: "string \<Rightarrow> bool" where
  "looks_like_multiline_json_start line =
     (let t = trim line in
      t = ''{'' \<or> starts_with t ''{'' \<and> list_all is_whitespace (drop 1 (utf8_chars t)))"

text \<open>The first four pieces of \<open>splitn(4, char::is_whitespace)\<close>; the fourth, the payload, is not
  used.\<close>

definition cri_line :: "string \<Rightarrow> (string \<times> string \<times> string) option" where
  "cri_line line =
     (case split_where is_whitespace line of
        ts # stream # tag # payload \<Rightarrow>
          if \<not> contains ts ''T'' \<or> stream \<noteq> ''stdout'' \<and> stream \<noteq> ''stderr'' then None
          else if tag \<noteq> ''F'' \<and> tag \<noteq> ''P'' then None
          else Some (ts, stream, tag)
      | _ \<Rightarrow> None)"

definition cri_is_partial :: "string \<Rightarrow> bool" where
  "cri_is_partial line = (case cri_line (trim_start line) of Some (_, _, tag) \<Rightarrow> tag = ''P'' | None \<Rightarrow> False)"

definition cri_is_full :: "string \<Rightarrow> bool" where
  "cri_is_full line = (case cri_line (trim_start line) of Some (_, _, tag) \<Rightarrow> tag = ''F'' | None \<Rightarrow> False)"

definition dated :: "string \<Rightarrow> nat \<Rightarrow> char \<Rightarrow> bool" where
  "dated t len sep \<longleftrightarrow>
     length t \<ge> len \<and> byte_at t 4 = Some sep \<and> byte_at t 7 = Some sep \<and> list_all is_ascii_digit (take 4 t)"

definition line_has_leading_timestamp :: "string \<Rightarrow> bool" where
  "line_has_leading_timestamp line =
     (let t = trim_start line in
      dated t 19 (CHR ''-'') \<or> dated t 10 (CHR ''/'') \<or> cri_line t \<noteq> None)"

definition matches_pg_secondary :: "string \<Rightarrow> bool" where
  "matches_pg_secondary rest =
     (let u = to_ascii_uppercase rest in
      list_ex (starts_with u) [''DETAIL:'', ''HINT:'', ''STATEMENT:'', ''CONTEXT:'', ''QUERY:'', ''LOCATION:''])"

definition strip_pg_prefix :: "string \<Rightarrow> string option" where
  "strip_pg_prefix line =
     (if length line < 30 \<or> byte_at line 4 \<noteq> Some (CHR ''-'') then None
      else case find_str line ''['' of
        None \<Rightarrow> None
      | Some bracket \<Rightarrow>
          (case find_str (drop bracket line) '']'' of
             None \<Rightarrow> None
           | Some after_pid \<Rightarrow> Some (trim_start (drop (bracket + after_pid + 1) line))))"

definition is_pg_continuation_tag :: "string \<Rightarrow> bool" where
  "is_pg_continuation_tag trimmed =
     (case strip_pg_prefix trimmed of Some rest \<Rightarrow> matches_pg_secondary rest
      | None \<Rightarrow> matches_pg_secondary trimmed)"

definition pending_looks_like_pg_stderr :: "string \<Rightarrow> bool" where
  "pending_looks_like_pg_stderr pend =
     (let ls = split_lines pend; lst = (if ls = [] then pend else last ls) in
      case strip_pg_prefix lst of
        None \<Rightarrow> False
      | Some rest \<Rightarrow>
          (let u = to_ascii_uppercase rest in
           list_ex (starts_with u) [''ERROR:'', ''FATAL:'', ''PANIC:'', ''WARNING:'', ''LOG:'', ''INFO:'',
             ''NOTICE:'', ''DEBUG'']
           \<or> matches_pg_secondary rest))"

definition pending_looks_like_stack :: "string \<Rightarrow> bool" where
  "pending_looks_like_stack pend =
     list_ex (\<lambda>l. let t = trim_start l in
        contains t ''Exception'' \<or> contains t ''Error:'' \<or> starts_with t ''Traceback'' \<or> starts_with t ''panic:''
        \<or> starts_with t (''thread '' @ [CHR 0x27]) \<or> starts_with t ''stack backtrace'' \<or> contains t ''panicked at''
        \<or> contains t '' ERROR '' \<or> contains t '' [ERR] '' \<or> contains t '' ERROR:'')
       (split_lines pend)"

definition looks_like_csv_record :: "string \<Rightarrow> bool" where
  "looks_like_csv_record line =
     (let t = trim_start line in starts_with t [CHR 0x22] \<and> count_list t (CHR '','') \<ge> 3)"

section \<open>SQL statements\<close>

definition word_boundary :: "char option \<Rightarrow> bool" where
  "word_boundary b = (case b of None \<Rightarrow> True | Some c \<Rightarrow> \<not> is_ascii_alphanumeric c \<and> c \<noteq> CHR ''_'')"

text \<open>\<open>match_indices\<close>: the positions of the matches of a non-empty pattern from a position on,
  without overlaps.\<close>

function match_indices :: "string \<Rightarrow> nat \<Rightarrow> string \<Rightarrow> nat list" where
  "match_indices p i s =
     (case find_str s p of
        None \<Rightarrow> []
      | Some k \<Rightarrow> if p = [] then [] else (i + k) # match_indices p (i + k + length p) (drop (k + length p) s))"
  by auto
termination
proof (relation "measure (\<lambda>(p, i, s). length s)")
  fix p :: string and i s k assume "find_str s p = Some k" "p \<noteq> []"
  then show "((p, i + k + length p, drop (k + length p) s), p, i, s) \<in> measure (\<lambda>(p, i, s). length s)"
    using find_str_length [of s p k] by (cases p) auto
qed simp

declare match_indices.simps [simp del]

definition find_word :: "string \<Rightarrow> string \<Rightarrow> nat option" where
  "find_word haystack needle =
     find (\<lambda>i. word_boundary (if i = 0 then None else byte_at haystack (i - 1))
             \<and> word_boundary (byte_at haystack (i + length needle)))
       (match_indices needle 0 haystack)"

definition sql_starts_with_keyword :: "string \<Rightarrow> string list \<Rightarrow> bool" where
  "sql_starts_with_keyword value keywords =
     (let token = hd (split_where (\<lambda>u. is_whitespace u \<or> u = ''('' \<or> u = '';'') (trim_start value)) in
      list_ex (eq_ignore_ascii_case token) keywords)"

definition is_sql_statement_start :: "string \<Rightarrow> bool" where
  "is_sql_statement_start sql = sql_starts_with_keyword sql
     [''SELECT'', ''WITH'', ''INSERT'', ''UPDATE'', ''DELETE'', ''MERGE'', ''CALL'', ''CREATE'', ''ALTER'',
      ''DROP'', ''TRUNCATE'', ''GRANT'', ''REVOKE'']"

definition is_sql_clause_continuation :: "string \<Rightarrow> bool" where
  "is_sql_clause_continuation line = sql_starts_with_keyword line
     [''SELECT'', ''UNION'', ''INTERSECT'', ''EXCEPT'', ''WITH'', ''FROM'', ''WHERE'', ''JOIN'', ''INNER'', ''LEFT'',
      ''RIGHT'', ''FULL'', ''CROSS'', ''NATURAL'', ''ON'', ''AND'', ''OR'', ''GROUP'', ''ORDER'', ''HAVING'',
      ''WINDOW'', ''LIMIT'', ''OFFSET'', ''FETCH'', ''FOR'', ''VALUES'', ''SET'', ''RETURNING'', ''INTO'', ''WHEN'',
      ''ELSE'', ''END'']"

text \<open>The statement after a \<open>statement (...) :\<close> lead, the second half of the function.\<close>

definition sql_after_statement :: "string \<Rightarrow> string \<Rightarrow> string option" where
  "sql_after_statement lower line =
     (case find_word lower ''statement'' of
        None \<Rightarrow> None
      | Some index \<Rightarrow>
          (let rest = trim_start (drop (index + length ''statement'') line);
               rest = (case strip_prefix rest ''('' of
                         None \<Rightarrow> Some rest
                       | Some after_open \<Rightarrow>
                           map_option (\<lambda>close. trim_start (drop (close + 1) after_open)) (find_str after_open '')''))
           in case rest of
                None \<Rightarrow> None
              | Some r \<Rightarrow> map_option trim_start (strip_prefix r '':'')))"

definition sql_after_explicit_lead :: "string \<Rightarrow> string option" where
  "sql_after_explicit_lead line =
     (let lower = to_ascii_lowercase line in
      case (case find_word lower ''sending'' of
              None \<Rightarrow> None
            | Some index \<Rightarrow> strip_prefix (trim_start (drop (index + length ''sending'') line)) '':'') of
        Some sql \<Rightarrow> Some (trim_start sql)
      | None \<Rightarrow> sql_after_statement lower line)"

definition first_line :: "string \<Rightarrow> string option" where
  "first_line pend = (case split_lines pend of [] \<Rightarrow> None | l # _ \<Rightarrow> Some l)"

definition pending_looks_like_explicit_sql :: "string \<Rightarrow> bool" where
  "pending_looks_like_explicit_sql pend =
     (let l = (case first_line pend of None \<Rightarrow> pend | Some l \<Rightarrow> l) in
      if \<not> line_has_leading_timestamp l then False
      else case sql_after_explicit_lead l of None \<Rightarrow> False | Some sql \<Rightarrow> is_sql_statement_start sql)"

definition is_continuation_of :: "string \<Rightarrow> string \<Rightarrow> bool" where
  "is_continuation_of pend line =
     (let trimmed = trim_start line in
      if is_pg_continuation_tag trimmed \<and> pending_looks_like_pg_stderr pend then True
      else if line_has_leading_timestamp line then False
      else if starts_with trimmed ''panic:'' \<and> \<not> pending_looks_like_stack pend then False
      else if (case first_line pend of None \<Rightarrow> False | Some l \<Rightarrow> line_has_leading_timestamp l) then True
      else if pending_looks_like_explicit_sql pend \<and> is_sql_clause_continuation trimmed then True
      else if trimmed = [] then pending_looks_like_stack pend \<or> pending_looks_like_pg_stderr pend
      else pending_looks_like_stack pend)"

section \<open>The framer\<close>

definition json_feed :: "string \<Rightarrow> LogicalRecordFramer \<Rightarrow> LogicalRecordFramer" where
  "json_feed ch f =
     (if json_escape f then f\<lparr>json_escape := False\<rparr>
      else if json_in_string f
      then (if ch = [CHR 0x5C] then f\<lparr>json_escape := True\<rparr>
            else if ch = [CHR 0x22] then f\<lparr>json_in_string := False\<rparr> else f)
      else if ch = [CHR 0x22] then f\<lparr>json_in_string := True\<rparr>
      else if ch = ''{'' then f\<lparr>json_depth := json_depth f + 1\<rparr>
      else if ch = ''}'' \<and> json_depth f > 0 then f\<lparr>json_depth := json_depth f - 1\<rparr>
      else f)"

definition feed_json_line :: "string \<Rightarrow> LogicalRecordFramer \<Rightarrow> LogicalRecordFramer" where
  "feed_json_line line f = fold json_feed (utf8_chars line) f"

definition take_pending ::
  "bool \<Rightarrow> bool \<Rightarrow> LogicalRecordFramer \<Rightarrow> FramedRecord option \<times> LogicalRecordFramer" where
  "take_pending includes truncated f =
     (if pending f = [] then (None, f)
      else (Some \<lparr>fr_text = pending f, includes_pushed_line = includes, fr_truncated = truncated\<rparr>,
            f\<lparr>pending_lines := 0, pending := []\<rparr>))"

definition append_line :: "string \<Rightarrow> LogicalRecordFramer \<Rightarrow> LogicalRecordFramer" where
  "append_line line f =
     (let f = (if pending f = [] then f
               else f\<lparr>pending := pending f @ [CHR 0x0A],
                      csv := (if csv_record f then csv_feed [CHR 0x0A] (csv f) else csv f)\<rparr>);
          f = f\<lparr>pending := pending f @ line, pending_lines := pending_lines f + 1\<rparr>
      in if csv_record f then f\<lparr>csv := csv_feed_str line (csv f)\<rparr> else f)"

definition start_new :: "string \<Rightarrow> LogicalRecordFramer \<Rightarrow> LogicalRecordFramer" where
  "start_new line f =
     (let f = \<lparr>pending = line, pending_lines = 1,
               csv = (if looks_like_csv_record line then csv_feed_str line csv_default else csv_default),
               csv_record = looks_like_csv_record line, cri_partial_open = cri_is_partial line,
               json_depth = 0, json_in_string = False, json_escape = False, over_bound = False\<rparr>
      in if looks_like_multiline_json_start line then feed_json_line line f else f)"

definition close_if_over_bound_including ::
  "LogicalRecordFramer \<Rightarrow> FramedRecord option \<times> LogicalRecordFramer" where
  "close_if_over_bound_including f =
     (None, if length (pending f) > MAX_LOGICAL_RECORD_BYTES
               \<or> pending_lines f > MAX_PHYSICAL_LINES_PER_RECORD
               \<or> json_depth f > MAX_JSON_FRAMING_DEPTH
            then f\<lparr>over_bound := True\<rparr> else f)"

definition push_line ::
  "string \<Rightarrow> LogicalRecordFramer \<Rightarrow> FramedRecord option \<times> LogicalRecordFramer" where
  "push_line physical f =
     (let line = strip_cr physical in
      if over_bound f then
        (let (finished, f) = take_pending False True f in (finished, start_new line f))
      else if csv_is_open (csv f) then
        (let f = append_line line f in
         if \<not> csv_is_open (csv f) then take_pending True False f else close_if_over_bound_including f)
      else if cri_partial_open f then
        (let f = append_line line f in
         if cri_is_full line then take_pending True False (f\<lparr>cri_partial_open := False\<rparr>)
         else close_if_over_bound_including f)
      else if json_depth f > 0 then
        (let f = feed_json_line line (append_line line f) in
         if json_depth f = 0 then take_pending True False f else close_if_over_bound_including f)
      else if pending f = [] then (None, start_new line f)
      else if is_continuation_of (pending f) line then close_if_over_bound_including (append_line line f)
      else (let (finished, f) = take_pending False False f in (finished, start_new line f)))"

definition framer_finish :: "LogicalRecordFramer \<Rightarrow> FramedRecord option \<times> LogicalRecordFramer" where
  "framer_finish f =
     take_pending False (over_bound f)
       (f\<lparr>csv := csv_default, csv_record := False, cri_partial_open := False, json_depth := 0,
          json_in_string := False, json_escape := False, over_bound := False\<rparr>)"

definition emitted :: "FramedRecord option \<Rightarrow> FramedRecord list" where
  "emitted r = (case r of None \<Rightarrow> [] | Some x \<Rightarrow> [x])"

fun frame_loop :: "string list \<Rightarrow> LogicalRecordFramer \<Rightarrow> FramedRecord list \<Rightarrow> FramedRecord list" where
  "frame_loop [] f out = out @ emitted (fst (framer_finish f))"
| "frame_loop (l # ls) f out = (case push_line l f of (r, f') \<Rightarrow> frame_loop ls f' (out @ emitted r))"

text \<open>The pieces of \<open>split_inclusive\<close> without their newline.\<close>

definition physical_lines :: "string \<Rightarrow> string list" where
  "physical_lines text = (case raw_split text of (ls, rest) \<Rightarrow> if rest = [] then ls else ls @ [rest])"

definition frame_text_records :: "string \<Rightarrow> FramedRecord list" where
  "frame_text_records text = frame_loop (physical_lines text) framer_new []"

definition frame_text :: "string \<Rightarrow> string list" where
  "frame_text text = map fr_text (frame_text_records text)"

section \<open>Lines of a record\<close>

fun join_nl :: "string list \<Rightarrow> string" where
  "join_nl [] = []"
| "join_nl [l] = l"
| "join_nl (l # ls) = l @ CHR 0x0A # join_nl ls"

definition nl_parts :: "string \<Rightarrow> string list" where
  "nl_parts s = (case raw_split s of (ls, r) \<Rightarrow> ls @ [r])"

definition one_line :: "string \<Rightarrow> bool" where
  "one_line l \<longleftrightarrow> CHR 0x0A \<notin> set l"

lemma join_nl_snoc: "join_nl (ls @ [l]) = (if ls = [] then l else join_nl ls @ CHR 0x0A # l)"
  by (induction ls rule: join_nl.induct) auto

lemma join_nl_Nil: "join_nl ls = [] \<Longrightarrow> filter (\<lambda>l. l \<noteq> []) ls = []"
  by (induction ls rule: join_nl.induct) auto

lemma nl_parts_line: "one_line l \<Longrightarrow> nl_parts l = [l]"
  by (simp add: nl_parts_def one_line_def raw_split.simps [of l] break_line_None [THEN iffD2])

lemma nl_parts_Cons: "one_line l \<Longrightarrow> nl_parts (l @ CHR 0x0A # s) = l # nl_parts s"
  by (simp add: nl_parts_def one_line_def raw_split.simps [of "l @ CHR 0x0A # s"]
      break_line_Some [THEN iffD2] split: prod.splits)

lemma nl_parts_join: "list_all one_line ls \<Longrightarrow> ls \<noteq> [] \<Longrightarrow> nl_parts (join_nl ls) = ls"
  by (induction ls rule: join_nl.induct) (auto simp: nl_parts_line nl_parts_Cons)

lemma one_line_strip_cr: "one_line l \<Longrightarrow> one_line (strip_cr l)"
  by (auto simp: one_line_def strip_cr_def dest: in_set_butlastD)

lemma raw_split_one_line: "raw_split s = (ls, r) \<Longrightarrow> list_all one_line ls"
proof (induction s arbitrary: ls r rule: raw_split.induct)
  case (1 s)
  then show ?case
    by (cases "break_line s")
      (auto simp: raw_split.simps [of s] one_line_def break_line_Some split: prod.splits)
qed

lemma physical_lines_one_line: "list_all one_line (physical_lines s)"
  using raw_split_one_line [of s] raw_split_rest [of s]
  by (auto simp: physical_lines_def one_line_def split: prod.splits)

section \<open>What the framer holds\<close>

text \<open>The lines of the open record. The line counter may exceed their number: it also counts empty
  lines appended to an empty record.\<close>

definition within :: "string list \<Rightarrow> bool" where
  "within ls \<longleftrightarrow> length ls \<le> Suc MAX_PHYSICAL_LINES_PER_RECORD
     \<and> (length ls \<le> 2 \<or> length (join_nl (butlast ls)) \<le> MAX_LOGICAL_RECORD_BYTES)"

definition holds :: "string list \<Rightarrow> LogicalRecordFramer \<Rightarrow> bool" where
  "holds ls f \<longleftrightarrow> pending f = join_nl ls \<and> list_all one_line ls \<and> length ls \<le> pending_lines f \<and> within ls
     \<and> (\<not> over_bound f \<longrightarrow> pending f = [] \<or> pending_lines f \<le> MAX_PHYSICAL_LINES_PER_RECORD
          \<and> (length (pending f) \<le> MAX_LOGICAL_RECORD_BYTES \<or> length ls \<le> 1))"

definition record_within :: "FramedRecord \<Rightarrow> bool" where
  "record_within r \<longleftrightarrow> fr_text r \<noteq> [] \<and> within (nl_parts (fr_text r))"

definition contents :: "string list \<Rightarrow> string list" where
  "contents ls = filter (\<lambda>l. l \<noteq> []) ls"

definition record_lines :: "FramedRecord list \<Rightarrow> string list" where
  "record_lines rs = contents (concat (map (\<lambda>r. nl_parts (fr_text r)) rs))"

text \<open>One push: the lines held before and the new line are those emitted and those held after.\<close>

definition pushed :: "string list \<Rightarrow> FramedRecord option \<times> LogicalRecordFramer \<Rightarrow> bool" where
  "pushed ls res \<longleftrightarrow> list_all record_within (emitted (fst res))
     \<and> (\<exists>ls'. holds ls' (snd res) \<and> record_lines (emitted (fst res)) @ contents ls' = contents ls)"

lemma feed_json_keeps [simp]:
  "pending (feed_json_line l f) = pending f" "pending_lines (feed_json_line l f) = pending_lines f"
  "over_bound (feed_json_line l f) = over_bound f"
proof -
  have "pending (fold json_feed us f) = pending f \<and> pending_lines (fold json_feed us f) = pending_lines f
      \<and> over_bound (fold json_feed us f) = over_bound f" for us
    by (induction us arbitrary: f) (simp_all add: json_feed_def)
  then show "pending (feed_json_line l f) = pending f" "pending_lines (feed_json_line l f) = pending_lines f"
    "over_bound (feed_json_line l f) = over_bound f" by (simp_all add: feed_json_line_def)
qed

lemma append_line_simps [simp]:
  "pending (append_line l f) = (if pending f = [] then l else pending f @ CHR 0x0A # l)"
  "pending_lines (append_line l f) = pending_lines f + 1" "over_bound (append_line l f) = over_bound f"
  by (simp_all add: append_line_def Let_def)

lemma start_new_simps [simp]:
  "pending (start_new l f) = l" "pending_lines (start_new l f) = 1" "\<not> over_bound (start_new l f)"
  by (simp_all add: start_new_def Let_def)

lemma within_single: "length ls \<le> 1 \<Longrightarrow> within ls"
  by (simp add: within_def)

lemma holds_start: "one_line l \<Longrightarrow> holds [l] (start_new l f)"
  by (simp add: holds_def within_single MAX_PHYSICAL_LINES_PER_RECORD_def)

lemma holds_Nil: "holds ls f \<Longrightarrow> pending f = [] \<Longrightarrow> holds [] f \<and> contents ls = []"
  by (auto simp: holds_def within_single contents_def join_nl_Nil)

text \<open>The open record with a further line, before the bounds are checked.\<close>

lemma append_within:
  assumes "holds ls f" and "\<not> over_bound f" and "one_line l"
  obtains ls' where "pending (append_line l f) = join_nl ls'" "list_all one_line ls'" "ls' \<noteq> []" "within ls'"
    "length ls' \<le> pending_lines f + 1" "contents ls' = contents ls @ contents [l]"
proof (cases "pending f = []")
  case True
  have "contents [l] = contents ls @ contents [l]" using holds_Nil [OF assms(1) True] by simp
  with True show ?thesis using assms(3) by (intro that [of "[l]"]) (simp_all add: within_single)
next
  case False
  then have "ls \<noteq> []" using assms(1) by (auto simp: holds_def)
  have bounds: "length (join_nl ls) \<le> MAX_LOGICAL_RECORD_BYTES \<or> length ls \<le> 1"
    "length ls \<le> MAX_PHYSICAL_LINES_PER_RECORD" "length ls \<le> pending_lines f"
    using assms(1,2) False by (auto simp: holds_def)
  show ?thesis
  proof (rule that [of "ls @ [l]"])
    show "pending (append_line l f) = join_nl (ls @ [l])"
      using assms(1) False \<open>ls \<noteq> []\<close> by (simp add: holds_def join_nl_snoc)
    show "within (ls @ [l])" using bounds by (auto simp: within_def)
  qed (use assms bounds in \<open>simp_all add: holds_def contents_def\<close>)
qed

lemma pushed_close:
  assumes "holds ls f" and "\<not> over_bound f" and "one_line l"
    and "pending g = pending (append_line l f)" and "pending_lines g = pending_lines f + 1" and "\<not> over_bound g"
  shows "pushed (ls @ [l]) (close_if_over_bound_including g)"
    and "pushed (ls @ [l]) (take_pending True False g)"
proof -
  obtain ls' where ls': "pending (append_line l f) = join_nl ls'" "list_all one_line ls'" "ls' \<noteq> []" "within ls'"
    "length ls' \<le> pending_lines f + 1" "contents ls' = contents ls @ contents [l]"
    using append_within [OF assms(1-3)] .
  have c: "contents (ls @ [l]) = contents ls'" using ls'(6) by (simp add: contents_def)
  show "pushed (ls @ [l]) (close_if_over_bound_including g)"
    unfolding pushed_def close_if_over_bound_including_def
    by (auto intro!: exI [of _ ls'] simp: emitted_def record_lines_def contents_def [of "[]"] c holds_def assms ls' ls'(5) [simplified]
        simp del: append_line_simps)
  show "pushed (ls @ [l]) (take_pending True False g)"
  proof (cases "pending g = []")
    case True
    then have "holds ls' g" using assms(4-6) ls' by (simp add: holds_def del: append_line_simps)
    then show ?thesis
      using True c by (auto simp: pushed_def take_pending_def emitted_def record_lines_def contents_def)
  next
    case False
    then have "nl_parts (pending g) = ls' \<and> within ls'"
      using ls' assms(4) nl_parts_join [of ls'] by (simp del: append_line_simps)
    then show ?thesis
      using False c
      by (auto simp: pushed_def take_pending_def emitted_def record_lines_def record_within_def holds_def within_single
          contents_def intro!: exI [of _ "[]"])
  qed
qed

lemma pushed_take:
  assumes "holds ls f" and "one_line l"
  shows "pushed (ls @ [l]) (case take_pending False t f of (r, g) \<Rightarrow> (r, start_new l g))"
proof (cases "pending f = []")
  case True
  then show ?thesis
    using holds_Nil [OF assms(1) True] holds_start [OF assms(2), of f]
    by (auto simp: pushed_def take_pending_def emitted_def record_lines_def contents_def intro!: exI [of _ "[l]"])
next
  case False
  then have "ls \<noteq> []" using assms(1) by (auto simp: holds_def)
  then show ?thesis
    using assms False holds_start [OF assms(2)]
    by (auto simp: pushed_def take_pending_def emitted_def record_lines_def record_within_def nl_parts_join
        holds_def [of ls] contents_def intro!: exI [of _ "[l]"])
qed

lemma push_line_pushed:
  assumes "holds ls f" and "one_line l"
  shows "pushed (ls @ [strip_cr l]) (push_line l f)"
proof -
  note l = one_line_strip_cr [OF assms(2)]
  note close = pushed_close [OF assms(1) _ l]
  have new: "pushed (ls @ [strip_cr l]) (None, start_new (strip_cr l) f)" if "pending f = []"
    using pushed_take [OF assms(1) l, of False] that by (simp add: take_pending_def)
  show ?thesis
    unfolding push_line_def Let_def
    by (auto intro!: close pushed_take [OF assms(1) l] new)
qed

lemma finish_pushed:
  assumes "holds ls f"
  shows "list_all record_within (emitted (fst (framer_finish f)))"
    and "record_lines (emitted (fst (framer_finish f))) = contents ls"
proof -
  have "pending f \<noteq> [] \<Longrightarrow> nl_parts (pending f) = ls \<and> within ls"
    using assms nl_parts_join [of ls] by (cases "ls = []") (auto simp: holds_def)
  then show "list_all record_within (emitted (fst (framer_finish f)))"
    "record_lines (emitted (fst (framer_finish f))) = contents ls"
    using holds_Nil [OF assms]
    by (auto simp: framer_finish_def take_pending_def emitted_def record_lines_def record_within_def contents_def)
qed

lemma holds_new: "holds [] framer_new"
  by (simp add: holds_def framer_new_def within_single)

lemma frame_loop_lines:
  assumes "holds held f" and "list_all one_line ls" and "list_all record_within out"
  shows "record_lines (frame_loop ls f out) = record_lines out @ contents (held @ map strip_cr ls)
    \<and> list_all record_within (frame_loop ls f out)"
  using assms
proof (induction ls arbitrary: held f out)
  case Nil
  then show ?case
    using finish_pushed [OF Nil(1)] by (simp add: record_lines_def contents_def)
next
  case (Cons l ls)
  obtain r g where push: "push_line l f = (r, g)" by force
  obtain held' where h: "holds held' g" "record_lines (emitted r) @ contents held' = contents (held @ [strip_cr l])"
    "list_all record_within (emitted r)"
    using push_line_pushed [OF Cons.prems(1), of l] Cons.prems(2) push by (auto simp: pushed_def)
  have "record_lines (out @ emitted r) @ contents (held' @ map strip_cr ls)
      = record_lines out @ contents (held @ map strip_cr (l # ls))"
    using h(2) by (simp add: record_lines_def contents_def)
  then show ?case
    using Cons.IH [OF h(1), of "out @ emitted r"] Cons.prems h(3) push by simp
qed

section \<open>Properties\<close>

text \<open>C17: Framing loses nothing. Cut a log text into physical lines and frame it: the physical lines of
  the records, read in order and without empty lines, are exactly the non-empty physical lines of the
  text without their carriage returns. No line is dropped, duplicated, split or moved, whatever
  quotes, partial tags, braces and bounds did to the record boundaries.\<close>

theorem framing_conserves_lines:
  "filter (\<lambda>l. l \<noteq> []) (concat (map (\<lambda>r. nl_parts (fr_text r)) (frame_text_records log)))
     = filter (\<lambda>l. l \<noteq> []) (map strip_cr (physical_lines log))"
  using frame_loop_lines [OF holds_new physical_lines_one_line, of "[]" log]
  by (simp add: frame_text_records_def record_lines_def contents_def)

text \<open>Records are bounded. Every record is non-empty and joins at most one physical line more than
  the bound; when it has more than two lines, all but its last one together are within the byte bound,
  so one unbalanced quote or brace cannot absorb the rest of a file.\<close>

theorem records_bounded:
  "list_all (\<lambda>r. fr_text r \<noteq> []
      \<and> length (nl_parts (fr_text r)) \<le> MAX_PHYSICAL_LINES_PER_RECORD + 1
      \<and> (length (nl_parts (fr_text r)) \<le> 2
         \<or> length (join_nl (butlast (nl_parts (fr_text r)))) \<le> MAX_LOGICAL_RECORD_BYTES))
    (frame_text_records log)"
  using frame_loop_lines [OF holds_new physical_lines_one_line, of "[]" log]
  by (auto simp: frame_text_records_def record_within_def within_def list_all_iff)


section \<open>A flag that outlives its record\<close>

text \<open>A CSV record whose first line also has the shape of a CRI partial line, and two lines that start
  with a date.\<close>

definition csv_cri_open :: string where
  "csv_cri_open = CHR 0x22 # ''T,,, stdout P x''"

definition csv_close :: string where
  "csv_close = ''y'' @ [CHR 0x22]"

definition dated_a :: string where
  "dated_a = ''2025/06/15 a''"

definition dated_b :: string where
  "dated_b = ''2025/06/15 b''"

lemma physical_lines_join:
  "list_all one_line ls \<Longrightarrow> ls \<noteq> [] \<Longrightarrow> last ls \<noteq> [] \<Longrightarrow> physical_lines (join_nl ls) = ls"
  using nl_parts_join [of ls]
  by (auto simp: physical_lines_def nl_parts_def split: prod.splits if_splits)

lemma push_cri:
  assumes "\<not> over_bound f" "\<not> csv_is_open (csv f)" "cri_partial_open f" "strip_cr l = l" "\<not> cri_is_full l"
    "length (pending (append_line l f)) \<le> MAX_LOGICAL_RECORD_BYTES"
    "pending_lines f < MAX_PHYSICAL_LINES_PER_RECORD" "json_depth (append_line l f) = 0"
  shows "push_line l f = (None, append_line l f)"
  using assms by (simp add: push_line_def close_if_over_bound_including_def MAX_JSON_FRAMING_DEPTH_def)

lemma csv_cri_started:
  "start_new csv_cri_open framer_new =
     \<lparr>pending = csv_cri_open, pending_lines = 1, csv = \<lparr>csv_open = True, deferred_close = False\<rparr>, csv_record = True,
      cri_partial_open = True, json_depth = 0, json_in_string = False, json_escape = False, over_bound = False\<rparr>"
  by code_simp

lemma csv_cri_closed:
  "push_line csv_close (start_new csv_cri_open framer_new) =
     (Some \<lparr>fr_text = join_nl [csv_cri_open, csv_close], includes_pushed_line = True, fr_truncated = False\<rparr>,
      \<lparr>pending = [], pending_lines = 0, csv = \<lparr>csv_open = True, deferred_close = True\<rparr>, csv_record = True,
       cri_partial_open = True, json_depth = 0, json_in_string = False, json_escape = False, over_bound = False\<rparr>)"
  unfolding csv_cri_started by code_simp

lemma dated_lines:
  "strip_cr dated_a = dated_a" "\<not> cri_is_full dated_a" "strip_cr dated_b = dated_b" "\<not> cri_is_full dated_b"
  "strip_cr csv_cri_open = csv_cri_open" "length dated_a = 12" "length dated_b = 12"
  by code_simp+

lemma dated_timestamps: "line_has_leading_timestamp dated_a" "line_has_leading_timestamp dated_b"
  by code_simp+

lemma dated_states:
  "append_line dated_a (snd (push_line csv_close (start_new csv_cri_open framer_new))) =
     \<lparr>pending = dated_a, pending_lines = 1, csv = csv_default, csv_record = True, cri_partial_open = True,
      json_depth = 0, json_in_string = False, json_escape = False, over_bound = False\<rparr>"
  unfolding csv_cri_closed snd_conv by code_simp

lemma dated_first:
  "push_line dated_a (snd (push_line csv_close (start_new csv_cri_open framer_new)))
      = (None, append_line dated_a (snd (push_line csv_close (start_new csv_cri_open framer_new))))"
  by (rule push_cri)
    (simp_all add: csv_cri_closed dated_lines append_line_def Let_def csv_is_open_def
      MAX_LOGICAL_RECORD_BYTES_def MAX_PHYSICAL_LINES_PER_RECORD_def)

lemma dated_glued:
  "push_line dated_b (snd (push_line dated_a (snd (push_line csv_close (start_new csv_cri_open framer_new))))) =
     (None, \<lparr>pending = join_nl [dated_a, dated_b], pending_lines = 2, csv = csv_default, csv_record = True,
       cri_partial_open = True, json_depth = 0, json_in_string = False, json_escape = False, over_bound = False\<rparr>)"
proof -
  have "append_line dated_b (append_line dated_a (snd (push_line csv_close (start_new csv_cri_open framer_new))))
      = \<lparr>pending = join_nl [dated_a, dated_b], pending_lines = 2, csv = csv_default, csv_record = True,
       cri_partial_open = True, json_depth = 0, json_in_string = False, json_escape = False, over_bound = False\<rparr>"
    unfolding dated_states by code_simp
  moreover have "push_line dated_b (append_line dated_a (snd (push_line csv_close (start_new csv_cri_open framer_new))))
      = (None, append_line dated_b (append_line dated_a (snd (push_line csv_close (start_new csv_cri_open framer_new)))))"
    unfolding dated_states
    by (rule push_cri)
      (simp_all add: dated_lines append_line_def Let_def csv_is_open_def csv_default_def
        MAX_LOGICAL_RECORD_BYTES_def MAX_PHYSICAL_LINES_PER_RECORD_def)
  ultimately show ?thesis unfolding dated_first by simp
qed

text \<open>A CRI flag outlives its record. When the first line of a CSV record also has the shape of a CRI
  partial line, closing the quoted field emits the record but leaves \<open>cri_partial_open\<close> set. The
  lines after it are then joined until a full tag appears: here two lines that both start with a
  timestamp end up in one record, although on their own they are framed as two.\<close>

theorem cri_flag_outlives_record:
  "line_has_leading_timestamp dated_a \<and> line_has_leading_timestamp dated_b
   \<and> frame_text (join_nl [dated_a, dated_b]) = [dated_a, dated_b]
   \<and> frame_text (join_nl [csv_cri_open, csv_close, dated_a, dated_b])
       = [join_nl [csv_cri_open, csv_close], join_nl [dated_a, dated_b]]"
proof (intro conjI)
  have lines: "physical_lines (join_nl ls) = ls" if "ls \<in> {[dated_a, dated_b], [csv_cri_open, csv_close, dated_a, dated_b]}" for ls
    using that by (intro physical_lines_join) (auto simp: one_line_def csv_cri_open_def csv_close_def dated_a_def dated_b_def)
  have start: "push_line csv_cri_open framer_new = (None, start_new csv_cri_open framer_new)"
    by (simp add: push_line_def framer_new_def csv_is_open_def csv_default_def dated_lines)
  show "frame_text (join_nl [csv_cri_open, csv_close, dated_a, dated_b])
       = [join_nl [csv_cri_open, csv_close], join_nl [dated_a, dated_b]]"
    unfolding frame_text_def frame_text_records_def lines [OF insertI2 [OF singletonI]] frame_loop.simps start prod.case
    by (simp add: csv_cri_closed emitted_def dated_glued [unfolded dated_first snd_conv, unfolded csv_cri_closed snd_conv] case_prod_unfold
        dated_first [unfolded csv_cri_closed snd_conv] framer_finish_def take_pending_def)
  show "frame_text (join_nl [dated_a, dated_b]) = [dated_a, dated_b]"
    by code_simp
qed (rule dated_timestamps)+

end
