(* ===== verification/Core_Error.thy ===== *)
theory Core_Error
  imports Rust_Text
begin

text \<open>
  The error type of \<open>cd-core\<close> (\<open>crates/cd-core/src/error.rs\<close>) and operations on strings that several
  log components share: cutting at a separator string, joining, taking characters, and lossy UTF-8
  decoding.
\<close>

section \<open>Errors\<close>

text \<open>The payloads of \<open>Io\<close> and \<open>Serde\<close> are foreign error values, of which only the text is used.\<close>

datatype CoreError =
    Cancelled
  | Config string
  | Policy string
  | Io string
  | Serde string
  | ProviderHttp string nat string string
  | Message string

fun core_error_display :: "CoreError \<Rightarrow> string" where
  "core_error_display Cancelled = ''ingest cancelled''"
| "core_error_display (Config s) = ''config: '' @ s"
| "core_error_display (Policy s) = ''policy denied: '' @ s"
| "core_error_display (Io s) = ''io: '' @ s"
| "core_error_display (Serde s) = ''serde: '' @ s"
| "core_error_display (ProviderHttp operation status status_line body) =
     operation @ '' HTTP '' @ status_line @ '': '' @ body"
| "core_error_display (Message s) = s"

section \<open>Strings\<close>

definition take_chars :: "nat \<Rightarrow> string \<Rightarrow> string" where
  "take_chars n s = concat (take n (utf8_chars s))"

fun join_with :: "string \<Rightarrow> string list \<Rightarrow> string" where
  "join_with sep [] = []"
| "join_with sep [x] = x"
| "join_with sep (x # xs) = x @ sep @ join_with sep xs"

text \<open>\<open>str::split\<close> with a non-empty string pattern.\<close>

function split_str :: "string \<Rightarrow> string \<Rightarrow> string list" where
  "split_str sep s =
     (if sep = [] then [s]
      else case find_str s sep of
        None \<Rightarrow> [s]
      | Some i \<Rightarrow> take i s # split_str sep (drop (i + length sep) s))"
  by auto
termination
proof (relation "measure (\<lambda>(sep, s). length s)")
  fix sep s :: string and i
  assume "sep \<noteq> []" "find_str s sep = Some i"
  then have "0 < length sep" "i + length sep \<le> length s" using find_str_length by auto
  then show "((sep, drop (i + length sep) s), sep, s) \<in> measure (\<lambda>(sep, s). length s)"
    unfolding in_measure prod.case length_drop by linarith
qed simp

declare split_str.simps [simp del]

fun try_map :: "('a \<Rightarrow> ('e, 'b) result) \<Rightarrow> 'a list \<Rightarrow> ('e, 'b list) result" where
  "try_map f [] = Inr []"
| "try_map f (x # xs) = and_then (f x) (\<lambda>y. and_then (try_map f xs) (\<lambda>ys. Inr (y # ys)))"

lemma try_map_Inr: "try_map f xs = Inr ys \<Longrightarrow> list_all2 (\<lambda>x y. f x = Inr y) xs ys"
  by (induction xs arbitrary: ys) auto

lemma prefix_take_chars: "prefix (take_chars n s) s"
proof -
  have "s = concat (take n (utf8_chars s)) @ concat (drop n (utf8_chars s))"
    by (metis append_take_drop_id concat_append concat_utf8_chars)
  then show ?thesis unfolding take_chars_def prefix_def by blast
qed

lemma set_take_chars: "set (take_chars n s) \<subseteq> set s"
  by (rule set_mono_prefix [OF prefix_take_chars])

lemma contains_of_prefix: "prefix p s \<Longrightarrow> contains p w \<Longrightarrow> contains s w"
  unfolding contains_def by (meson prefix_imp_sublist sublist_order.order_trans)

text \<open>Words and separators: a word without the separator's first byte lies in one piece.\<close>

lemma contains_cut: "contains (a @ c # b) w \<Longrightarrow> c \<notin> set w \<Longrightarrow> contains a w \<or> contains b w"
proof -
  assume "contains (a @ c # b) w" "c \<notin> set w"
  then obtain ps ss where split: "a @ c # b = ps @ w @ ss" by (auto simp: contains_def sublist_def)
  then consider us where "a = ps @ us" "us @ c # b = w @ ss" | us where "ps = a @ us" "c # b = us @ w @ ss"
    by (auto simp: append_eq_append_conv2)
  then show ?thesis
  proof cases
    case 1
    then consider vs where "us = w @ vs" | vs where "w = us @ vs" "c # b = vs @ ss"
      by (auto simp: append_eq_append_conv2)
    then show ?thesis
    proof cases
      case (2 vs)
      then have "vs = []" using \<open>c \<notin> set w\<close> by (cases vs) auto
      with 2 1 show ?thesis by (auto simp: contains_def intro: sublist_appendI [of _ _ "[]", simplified])
    qed (use 1 in \<open>auto simp: contains_def sublist_def\<close>)
  next
    case (2 us)
    then show ?thesis
    proof (cases us)
      case Nil
      then have "w = []" using 2 \<open>c \<notin> set w\<close> by (cases w) auto
      then show ?thesis by (simp add: contains_def)
    qed (auto simp: contains_def sublist_def)
  qed
qed

lemma contains_join:
  assumes "contains (join_with sep xs) w" and "w \<noteq> []" and "sep \<noteq> []" and "set sep \<inter> set w = {}"
  shows "\<exists>x \<in> set xs. contains x w"
  using assms(1)
proof (induction xs rule: induct_list012)
  case (3 x y ys)
  obtain c sep' where sep: "sep = c # sep'" using assms(3) by (cases sep) auto
  have "contains x w \<or> contains (sep' @ join_with sep (y # ys)) w"
    using "3.prems" assms(4) contains_cut [of x c "sep' @ join_with sep (y # ys)" w] by (auto simp: sep)
  then have "contains x w \<or> contains (join_with sep (y # ys)) w"
    using contains_skip [of w sep' "join_with sep (y # ys)"] assms(2,4) by (auto simp: sep)
  then show ?case using "3.IH" by auto
qed (use assms in \<open>auto simp: contains_def\<close>)

lemma find_str_first:
  "sep \<noteq> [] \<Longrightarrow> hd sep \<notin> set a \<Longrightarrow> find_str (a @ sep @ b) sep = Some (length a)"
proof (induction a)
  case Nil
  then show ?case by (cases sep) simp_all
next
  case (Cons c a)
  then show ?case by (cases sep) (auto simp: prefix_Cons)
qed

lemma split_join:
  assumes "xs \<noteq> []" and "list_all (\<lambda>x. hd sep \<notin> set x) xs" and "sep \<noteq> []"
  shows "split_str sep (join_with sep xs) = xs"
  using assms(1,2)
proof (induction xs rule: induct_list012)
  case (2 x)
  then have "find_str x sep = None"
    using contains_subset [of x sep] hd_in_set [OF assms(3)] by (auto simp: find_str_None)
  then show ?case by (simp add: split_str.simps [of sep x])
next
  case (3 x y ys)
  have "find_str (x @ sep @ join_with sep (y # ys)) sep = Some (length x)"
    using "3.prems" assms(3) by (intro find_str_first) simp_all
  then show ?case
    using 3 assms(3) by (simp add: split_str.simps [of sep "x @ sep @ join_with sep (y # ys)"])
qed simp

end
