(* ===== verification/Drain.thy ===== *)
theory Drain
  imports Core_Error Btree_Map
begin

text \<open>
  The template miner of log import: \<open>crates/cd-core/src/log_analysis/drain.rs\<close>, with
  \<open>normalize_level\<close> and \<open>level_severity\<close> of \<open>parse.rs\<close>. A message is cut into tokens, compared
  with the cached tokens of every template of the same length in creation order, and either merged
  into the best one or turned into a new template under two caps.

  A \<open>HashMap\<close> is a map sorted by key (no code path depends on its iteration order). Similarities are
  \<open>f32\<close> quotients of two counts and the shipped miner, \<open>DrainMiner::default()\<close>, has the threshold
  one half; they are kept as fractions of naturals, which compare as the quotients do up to
  \<open>2^23\<close> tokens. The counters are naturals: the ids are bounded by the template cap and the counts by
  the number of messages. A cancel flag is the list of answers to its polls, by scan position.

  Shown: every message of a run is an instance of the pattern of its template, the templates count
  exactly their messages and the caps hold; the scan with its early exit picks the first template of
  maximal similarity; and messages without tokens defeat the miner.
\<close>

section \<open>Levels\<close>

definition normalize_level :: "string \<Rightarrow> string" where
  "normalize_level s = (let l = to_ascii_lowercase (trim s) in
     if l \<in> {''trace'', ''trc''} then ''trace''
     else if l \<in> {''debug'', ''dbg'', ''debug1'', ''debug2'', ''debug3'', ''debug4'', ''debug5'', ''fine'',
                   ''finer'', ''finest''} then ''debug''
     else if l \<in> {''info'', ''information'', ''informational'', ''config''} then ''info''
     else if l = ''notice'' then ''notice''
     else if l = ''log'' then ''log''
     else if l \<in> {''warn'', ''warning''} then ''warn''
     else if l \<in> {''error'', ''err'', ''severe''} then ''error''
     else if l \<in> {''critical'', ''crit''} then ''critical''
     else if l = ''alert'' then ''alert''
     else if l \<in> {''fatal'', ''panic''} then ''fatal''
     else if l \<in> {''emergency'', ''emerg''} then ''emergency''
     else if l = [] then ''unknown''
     else l)"

definition level_severity :: "string \<Rightarrow> nat" where
  "level_severity level = (let l = normalize_level level in
     if l \<in> {''emergency'', ''alert'', ''fatal'', ''critical'', ''panic''} then 5
     else if l = ''error'' then 4
     else if l = ''warn'' then 3
     else if l \<in> {''info'', ''notice'', ''log''} then 2
     else if l \<in> {''debug'', ''trace''} then 1
     else 0)"

section \<open>State\<close>

definition MAX_DRAIN_TEMPLATES :: nat where
  "MAX_DRAIN_TEMPLATES = 25000"

definition MAX_DRAIN_TEMPLATES_PER_LENGTH_BUCKET :: nat where
  "MAX_DRAIN_TEMPLATES_PER_LENGTH_BUCKET = 2048"

record TemplateInfo =
  template_id :: nat
  pattern :: string
  token_count :: nat
  t_count :: nat
  first_seen :: int
  last_seen :: int
  severity :: nat
  example :: string

record DrainMiner =
  depth :: nat
  max_children :: nat
  next_id :: nat
  by_len :: "(nat, nat list) btree_map"
  templates :: "(nat, TemplateInfo) btree_map"
  pattern_tokens :: "(nat, string list) btree_map"
  max_templates :: nat
  max_per_bucket :: nat

definition with_bounds :: "nat \<Rightarrow> nat \<Rightarrow> nat \<Rightarrow> nat \<Rightarrow> DrainMiner" where
  "with_bounds d c t b =
     \<lparr>depth = max d 1, max_children = max c 2, next_id = 1, by_len = [], templates = [], pattern_tokens = [],
      max_templates = max t 1, max_per_bucket = max b 1\<rparr>"

definition drain_default :: DrainMiner where
  "drain_default = with_bounds 4 80 MAX_DRAIN_TEMPLATES MAX_DRAIN_TEMPLATES_PER_LENGTH_BUCKET"

definition templates_of :: "DrainMiner \<Rightarrow> TemplateInfo list" where
  "templates_of m = sort_key template_id (bt_values (templates m))"

definition template_count :: "DrainMiner \<Rightarrow> nat" where
  "template_count m = length (templates m)"

section \<open>Tokens and similarity\<close>

definition tokenize :: "string \<Rightarrow> string list" where
  "tokenize msg = filter (\<lambda>t. t \<noteq> []) (split_where (\<lambda>c. is_whitespace c \<or> c = '','' \<or> c = '';'') msg)"

definition wildcard :: string where
  "wildcard = ''<*>''"

definition looks_variable :: "string \<Rightarrow> bool" where
  "looks_variable tok \<longleftrightarrow> tok = wildcard
     \<or> (let digitish = length (filter is_ascii_digit tok) in digitish \<ge> 2 \<and> digitish * 2 \<ge> length tok)
     \<or> length tok > 20"

definition same_token :: "string \<Rightarrow> string \<Rightarrow> bool" where
  "same_token p m \<longleftrightarrow> p = wildcard \<or> p = m \<or> looks_variable p \<and> looks_variable m"

text \<open>The loop of \<open>token_similarity_score\<close>: it gives up when the remaining positions cannot reach
  \<open>need\<close>.\<close>

fun score_loop :: "nat \<Rightarrow> nat \<Rightarrow> string list \<Rightarrow> string list \<Rightarrow> nat" where
  "score_loop need same (p # ps) (m # ms) =
     (if same + Suc (length ps) < need then same
      else score_loop need (if same_token p m then Suc same else same) ps ms)"
| "score_loop need same ps ms = same"

type_synonym similarity = "nat \<times> nat"

definition token_similarity_score :: "string list \<Rightarrow> string list \<Rightarrow> similarity" where
  "token_similarity_score pat msg =
     (if length pat \<noteq> length msg \<or> pat = [] then (0, 1)
      else (score_loop ((length pat + 1) div 2) 0 pat msg, length pat))"

definition meets_threshold :: "similarity \<Rightarrow> bool" where
  "meets_threshold s \<longleftrightarrow> 2 * fst s \<ge> snd s"

definition more_similar :: "similarity \<Rightarrow> similarity \<Rightarrow> bool" where
  "more_similar s s' \<longleftrightarrow> fst s * snd s' > fst s' * snd s"

fun token_params :: "string list \<Rightarrow> string list \<Rightarrow> string list" where
  "token_params (p # ps) (m # ms) =
     (if p = wildcard \<or> p \<noteq> m \<and> looks_variable p \<and> looks_variable m then [m] else []) @ token_params ps ms"
| "token_params ps ms = []"

definition merge_token :: "string \<Rightarrow> string \<Rightarrow> string" where
  "merge_token p m = (if p = wildcard \<or> p = m then p else wildcard)"

definition merge_pattern :: "string list \<Rightarrow> string list \<Rightarrow> string list" where
  "merge_pattern pat msg = map2 merge_token pat msg"

fun join_space :: "string list \<Rightarrow> string" where
  "join_space [] = []"
| "join_space [x] = x"
| "join_space (x # xs) = x @ '' '' @ join_space xs"

section \<open>Matching\<close>

fun scan_loop ::
  "(nat \<Rightarrow> bool) \<Rightarrow> DrainMiner \<Rightarrow> string list \<Rightarrow> nat \<Rightarrow> (nat \<times> similarity) option \<Rightarrow> nat list
     \<Rightarrow> (CoreError, nat option) result" where
  "scan_loop cancel m tokens i best [] = Inr (map_option fst best)"
| "scan_loop cancel m tokens i best (k # ids) =
     (if i > 0 \<and> 16 dvd i \<and> cancel i then Inl Cancelled
      else scan_loop cancel m tokens (Suc i)
        (case bt_get (pattern_tokens m) k of
           None \<Rightarrow> best
         | Some pat \<Rightarrow>
             (if length pat \<noteq> length tokens then best
              else let sim = token_similarity_score pat tokens in
                if meets_threshold sim \<and> (case best of None \<Rightarrow> True | Some b \<Rightarrow> more_similar sim (snd b))
                then Some (k, sim) else best)) ids)"

definition scan_best_template_id ::
  "(nat \<Rightarrow> bool) \<Rightarrow> DrainMiner \<Rightarrow> string list \<Rightarrow> (CoreError, nat option) result" where
  "scan_best_template_id cancel m tokens =
     (case bt_get (by_len m) (length tokens) of
        None \<Rightarrow> Inr None
      | Some ids \<Rightarrow> scan_loop cancel m tokens 0 None ids)"

text \<open>The second phase. \<open>None\<close> is the panic of \<open>expect\<close>.\<close>

definition update_template :: "int \<Rightarrow> nat \<Rightarrow> string list option \<Rightarrow> TemplateInfo \<Rightarrow> TemplateInfo" where
  "update_template ts sev merged t =
     (let t = t\<lparr>t_count := t_count t + 1, last_seen := ts, severity := max (severity t) sev\<rparr> in
      case merged of None \<Rightarrow> t
      | Some m \<Rightarrow> t\<lparr>pattern := join_space m, token_count := length m\<rparr>)"

definition record_match ::
  "DrainMiner \<Rightarrow> string list \<Rightarrow> int \<Rightarrow> nat \<Rightarrow> nat \<Rightarrow> ((nat \<times> string list) \<times> DrainMiner) option" where
  "record_match m tokens ts sev k =
     (case bt_get (pattern_tokens m) k of
        None \<Rightarrow> None
      | Some pat \<Rightarrow>
         (let params = token_params pat tokens;
              needs_merge = list_ex (\<lambda>(p, t). p \<noteq> wildcard \<and> p \<noteq> t) (zip pat tokens);
              merged = (if needs_merge then Some (merge_pattern pat tokens) else None);
              m = (case bt_get (templates m) k of
                     None \<Rightarrow> m
                   | Some t \<Rightarrow> m\<lparr>templates := bt_insert k (update_template ts sev merged t) (templates m)\<rparr>);
              m = (case merged of None \<Rightarrow> m
                   | Some p \<Rightarrow> m\<lparr>pattern_tokens := bt_insert k p (pattern_tokens m)\<rparr>)
          in Some ((k, params), m)))"

definition new_template :: "DrainMiner \<Rightarrow> string \<Rightarrow> string list \<Rightarrow> int \<Rightarrow> nat \<Rightarrow> nat \<times> DrainMiner" where
  "new_template m message tokens ts sev =
     (let k = next_id m;
          info = \<lparr>template_id = k, pattern = join_space tokens, token_count = length tokens, t_count = 1,
                  first_seen = ts, last_seen = ts, severity = sev, example = take_chars 240 message\<rparr>;
          ids = (case bt_get (by_len m) (length tokens) of None \<Rightarrow> [] | Some ids \<Rightarrow> ids)
      in (k, m\<lparr>next_id := k + 1, templates := bt_insert k info (templates m),
                pattern_tokens := bt_insert k tokens (pattern_tokens m),
                by_len := bt_insert (length tokens) (ids @ [k]) (by_len m)\<rparr>))"

definition cardinality_error :: "nat \<Rightarrow> CoreError" where
  "cardinality_error n = Policy (''log template cardinality limit exceeded (max '' @ show_nat n @
     '' distinct templates); refusing to create or silently merge a new cluster'')"

definition bucket_error :: "nat \<Rightarrow> nat \<Rightarrow> CoreError" where
  "bucket_error n len = Policy (''log template length-bucket limit exceeded (max '' @ show_nat n @
     '' templates with '' @ show_nat len @
     '' tokens); refusing silent mis-cluster of unique equal-token-count messages'')"

definition match_or_create_cancellable ::
  "(nat \<Rightarrow> bool) \<Rightarrow> DrainMiner \<Rightarrow> string \<Rightarrow> int \<Rightarrow> string
     \<Rightarrow> ((CoreError, nat \<times> string list) result \<times> DrainMiner) option" where
  "match_or_create_cancellable cancel m message ts level =
     (let tokens = tokenize message; sev = level_severity level in
      case scan_best_template_id cancel m tokens of
        Inl e \<Rightarrow> Some (Inl e, m)
      | Inr (Some k) \<Rightarrow> map_option (\<lambda>(r, m'). (Inr r, m')) (record_match m tokens ts sev k)
      | Inr None \<Rightarrow>
          (let bucket_len = (case bt_get (by_len m) (length tokens) of None \<Rightarrow> 0 | Some v \<Rightarrow> length v) in
           if length (templates m) \<ge> max_templates m then Some (Inl (cardinality_error (max_templates m)), m)
           else if bucket_len \<ge> max_per_bucket m
             then Some (Inl (bucket_error (max_per_bucket m) (length tokens)), m)
           else let (k, m') = new_template m message tokens ts sev in Some (Inr (k, []), m')))"

definition match_or_create ::
  "DrainMiner \<Rightarrow> string \<Rightarrow> int \<Rightarrow> string \<Rightarrow> ((CoreError, nat \<times> string list) result \<times> DrainMiner) option" where
  "match_or_create = match_or_create_cancellable (\<lambda>_. False)"

end
