(* ===== verification/Drain_Properties.thy ===== *)
theory Drain_Properties
  imports Drain
begin

text \<open>
  The template miner against its specifications: the scan with its early exit picks the first
  template of maximal similarity, and a run keeps templates, caches, buckets and the messages it
  accepted consistent.
\<close>

section \<open>The early exit loses nothing\<close>

definition same_count :: "string list \<Rightarrow> string list \<Rightarrow> nat" where
  "same_count pat msg = length (filter (\<lambda>(p, m). same_token p m) (zip pat msg))"

lemma same_count_Cons [simp]:
  "same_count (p # ps) (m # ms) = (if same_token p m then Suc (same_count ps ms) else same_count ps ms)"
  by (simp add: same_count_def)

lemma same_count_Nil [simp]: "same_count [] ms = 0" "same_count ps [] = 0"
  by (simp_all add: same_count_def)

lemma same_count_le: "same_count ps ms \<le> length ps"
  unfolding same_count_def by (metis length_filter_le length_zip min.boundedE)

lemma score_loop_le: "score_loop need same ps ms \<le> same + same_count ps ms"
proof (induction need same ps ms rule: score_loop.induct)
  case (1 need same p ps m ms)
  then show ?case by (cases "same_token p m") auto
qed auto

lemma score_loop_exact: "need \<le> same + same_count ps ms \<Longrightarrow> score_loop need same ps ms = same + same_count ps ms"
proof (induction need same ps ms rule: score_loop.induct)
  case (1 need same p ps m ms)
  have "\<not> same + Suc (length ps) < need"
    using "1.prems" same_count_le [of ps ms] by (simp split: if_splits)
  then show ?case using 1 by (cases "same_token p m") auto
qed auto

definition eligible :: "string list \<Rightarrow> string list \<Rightarrow> bool" where
  "eligible pat msg \<longleftrightarrow> length pat = length msg \<and> pat \<noteq> [] \<and> length pat \<le> 2 * same_count pat msg"

lemma meets_iff_eligible:
  "length pat = length msg \<Longrightarrow> meets_threshold (token_similarity_score pat msg) \<longleftrightarrow> eligible pat msg"
  using score_loop_le [of "(length pat + 1) div 2" 0 pat msg]
    score_loop_exact [of "(length pat + 1) div 2" 0 pat msg]
  by (cases "(length pat + 1) div 2 \<le> same_count pat msg")
    (auto simp: meets_threshold_def token_similarity_score_def eligible_def)

lemma score_of_eligible:
  "eligible pat msg \<Longrightarrow> token_similarity_score pat msg = (same_count pat msg, length pat)"
  using score_loop_exact [of "(length pat + 1) div 2" 0 pat msg]
  by (auto simp: token_similarity_score_def eligible_def)

section \<open>The first maximum\<close>

text \<open>A loop that replaces its candidate only by a strictly larger one finds the first maximum.\<close>

definition first_max :: "('a \<Rightarrow> bool) \<Rightarrow> ('a \<Rightarrow> nat) \<Rightarrow> 'a list \<Rightarrow> 'a option" where
  "first_max C v xs = find (\<lambda>k. C k \<and> list_all (\<lambda>j. C j \<longrightarrow> v j \<le> v k) xs) xs"

definition max_step :: "('a \<Rightarrow> bool) \<Rightarrow> ('a \<Rightarrow> nat) \<Rightarrow> 'a \<Rightarrow> 'a option \<Rightarrow> 'a option" where
  "max_step C v x b = (if C x \<and> (case b of None \<Rightarrow> True | Some k \<Rightarrow> v k < v x) then Some x else b)"

lemma find_split: "xs = ys @ k # zs \<Longrightarrow> P k \<Longrightarrow> \<forall>y \<in> set ys. \<not> P y \<Longrightarrow> find P xs = Some k"
  by (induction ys arbitrary: xs) auto

lemma fold_max_step:
  "case fold (max_step C v) xs None of
     None \<Rightarrow> \<forall>j \<in> set xs. \<not> C j
   | Some k \<Rightarrow> \<exists>ys zs. xs = ys @ k # zs \<and> C k \<and> (\<forall>j \<in> set ys. C j \<longrightarrow> v j < v k) \<and> (\<forall>j \<in> set zs. C j \<longrightarrow> v j \<le> v k)"
proof (induction xs rule: rev_induct)
  case Nil
  then show ?case by simp
next
  case (snoc x xs)
  show ?case
  proof (cases "fold (max_step C v) xs None")
    case None
    then show ?thesis using snoc by (fastforce simp: max_step_def [of _ _ x])
  next
    case (Some k)
    then obtain ys zs where split: "xs = ys @ k # zs" "C k" "\<forall>j \<in> set ys. C j \<longrightarrow> v j < v k"
      "\<forall>j \<in> set zs. C j \<longrightarrow> v j \<le> v k" using snoc by auto
    show ?thesis
    proof (cases "C x \<and> v k < v x")
      case True
      then have step: "fold (max_step C v) (xs @ [x]) None = Some x" using Some by (simp add: max_step_def)
      have "\<forall>j \<in> set xs. C j \<longrightarrow> v j < v x" using split True by force
      then show ?thesis unfolding step using True by (auto intro: exI [of _ xs])
    next
      case False
      then have step: "fold (max_step C v) (xs @ [x]) None = Some k" using Some by (auto simp: max_step_def)
      have "xs @ [x] = ys @ k # (zs @ [x])" "\<forall>j \<in> set (zs @ [x]). C j \<longrightarrow> v j \<le> v k" using split False by auto
      then show ?thesis unfolding step option.case using split(2,3) by blast
    qed
  qed
qed

lemma fold_max_step_first: "fold (max_step C v) xs None = first_max C v xs"
proof (cases "fold (max_step C v) xs None")
  case None
  then show ?thesis
    using fold_max_step [where C = C and v = v and xs = xs] by (auto simp: first_max_def find_None_iff2)
next
  case (Some k)
  then obtain ys zs where "xs = ys @ k # zs" "C k" "\<forall>j \<in> set ys. C j \<longrightarrow> v j < v k"
    "\<forall>j \<in> set zs. C j \<longrightarrow> v j \<le> v k" using fold_max_step [where C = C and v = v and xs = xs] by auto
  then have "first_max C v xs = Some k"
    unfolding first_max_def by (intro find_split [of _ ys _ zs]) (auto simp: list_all_iff not_le less_imp_le)
  with Some show ?thesis by simp
qed

lemma first_max_candidates:
  "first_max C v xs = find (\<lambda>k. list_all (\<lambda>j. v j \<le> v k) (filter C xs)) (filter C xs)"
proof -
  have "find (\<lambda>k. C k \<and> P k) ys = find P (filter C ys)" for P ys by (induction ys) auto
  then show ?thesis by (simp add: first_max_def list_all_iff Ball_def imp_conjL)
qed

lemma first_max_Some: "first_max C v xs = Some k \<Longrightarrow> k \<in> set xs \<and> C k"
  by (auto simp: first_max_def find_Some_iff)

section \<open>The scan\<close>

definition toks :: "DrainMiner \<Rightarrow> nat \<Rightarrow> string list" where
  "toks m k = (case bt_get (pattern_tokens m) k of None \<Rightarrow> [] | Some p \<Rightarrow> p)"

definition bucket :: "DrainMiner \<Rightarrow> nat \<Rightarrow> nat list" where
  "bucket m n = (case bt_get (by_len m) n of None \<Rightarrow> [] | Some ids \<Rightarrow> ids)"

definition best_template :: "DrainMiner \<Rightarrow> string list \<Rightarrow> nat option" where
  "best_template m tokens =
     first_max (\<lambda>k. eligible (toks m k) tokens) (\<lambda>k. same_count (toks m k) tokens) (bucket m (length tokens))"

definition scored :: "DrainMiner \<Rightarrow> string list \<Rightarrow> nat option \<Rightarrow> (nat \<times> similarity) option" where
  "scored m tokens = map_option (\<lambda>k. (k, (same_count (toks m k) tokens, length tokens)))"

lemma eligible_Nil [simp]: "\<not> eligible [] tokens"
  by (simp add: eligible_def)

lemma eligible_tokens: "eligible p tokens \<Longrightarrow> length p = length tokens \<and> 0 < length tokens"
  by (auto simp: eligible_def)

lemma scan_step:
  "(case bt_get (pattern_tokens m) k of
      None \<Rightarrow> scored m tokens b
    | Some pat \<Rightarrow>
        (if length pat \<noteq> length tokens then scored m tokens b
         else let sim = token_similarity_score pat tokens in
           if meets_threshold sim \<and> (case scored m tokens b of None \<Rightarrow> True | Some b \<Rightarrow> more_similar sim (snd b))
           then Some (k, sim) else scored m tokens b))
   = scored m tokens (max_step (\<lambda>k. eligible (toks m k) tokens) (\<lambda>k. same_count (toks m k) tokens) k b)"
proof (cases "eligible (toks m k) tokens")
  case True
  then obtain pat where pat: "bt_get (pattern_tokens m) k = Some pat" "toks m k = pat"
    by (cases "bt_get (pattern_tokens m) k") (simp_all add: toks_def)
  then show ?thesis
    using True meets_iff_eligible [of pat tokens] score_of_eligible [of pat tokens] eligible_tokens [of pat tokens]
    by (cases b) (simp_all add: scored_def max_step_def more_similar_def)
next
  case False
  then show ?thesis
    using meets_iff_eligible by (auto simp: toks_def max_step_def split: option.splits)
qed

lemma scan_loop_max:
  "scan_loop cancel m tokens i (scored m tokens b) ids \<in> {Inl Cancelled,
     Inr (fold (max_step (\<lambda>k. eligible (toks m k) tokens) (\<lambda>k. same_count (toks m k) tokens)) ids b)}"
proof (induction ids arbitrary: i b)
  case Nil
  then show ?case by (cases b) (simp_all add: scored_def)
next
  case (Cons k ids)
  then show ?case unfolding scan_loop.simps(2) scan_step fold_simps by (auto simp del: fold_simps)
qed

lemma scan_loop_uncancelled:
  "scan_loop (\<lambda>_. False) m tokens i b ids \<noteq> Inl e"
  by (induction ids arbitrary: i b) simp_all

lemma scan_best:
  "scan_best_template_id cancel m tokens \<in> {Inl Cancelled, Inr (best_template m tokens)}"
  using scan_loop_max [of cancel m tokens 0 None]
  by (auto simp: scan_best_template_id_def best_template_def fold_max_step_first bucket_def scored_def
      first_max_def split: option.splits)

lemma scan_best_uncancelled:
  "scan_best_template_id (\<lambda>_. False) m tokens = Inr (best_template m tokens)"
  using scan_best [of "\<lambda>_. False" m tokens]
  by (auto simp: scan_best_template_id_def scan_loop_uncancelled split: option.splits)

section \<open>A run\<close>

type_synonym drain_event = "(nat \<Rightarrow> bool) \<times> string \<times> int \<times> string"
type_synonym drain_result = "(CoreError, nat \<times> string list) result"

text \<open>The calls of one import, with the messages and their results.\<close>

fun drain_run :: "drain_event list \<Rightarrow> DrainMiner \<Rightarrow> ((string \<times> drain_result) list \<times> DrainMiner) option" where
  "drain_run [] m = Some ([], m)"
| "drain_run ((cancel, msg, ts, level) # es) m =
     (case match_or_create_cancellable cancel m msg ts level of
        None \<Rightarrow> None
      | Some (r, m') \<Rightarrow> map_option (\<lambda>(log, m''). ((msg, r) # log, m'')) (drain_run es m'))"

definition assigned_to :: "nat \<Rightarrow> string \<times> drain_result \<Rightarrow> bool" where
  "assigned_to k e = (case snd e of Inl _ \<Rightarrow> False | Inr (k', _) \<Rightarrow> k' = k)"

definition covers :: "string list \<Rightarrow> string list \<Rightarrow> bool" where
  "covers pat msg \<longleftrightarrow> list_all2 (\<lambda>p t. p = wildcard \<or> p = t) pat msg"

lemma covers_refl [simp]: "covers ts ts"
  by (simp add: covers_def list_all2_same)

lemma covers_merge:
  "length p = length ts \<Longrightarrow> covers (merge_pattern p ts) ts"
  "length p = length ts \<Longrightarrow> covers p old \<Longrightarrow> covers (merge_pattern p ts) old"
  by (auto simp: covers_def merge_pattern_def merge_token_def list_all2_conv_all_nth)

lemma covers_no_merge:
  "length p = length ts \<Longrightarrow> \<not> list_ex (\<lambda>(p, t). p \<noteq> wildcard \<and> p \<noteq> t) (zip p ts) \<Longrightarrow> covers p ts"
  by (auto simp: covers_def list_all2_iff list_ex_iff)

text \<open>The template of an id agrees with its cached tokens and with the messages assigned to it.\<close>

definition template_ok :: "(string \<times> drain_result) list \<Rightarrow> DrainMiner \<Rightarrow> nat \<Rightarrow> bool" where
  "template_ok log m k \<longleftrightarrow> (\<exists>t. bt_get (templates m) k = Some t \<and> template_id t = k
     \<and> pattern t = join_space (toks m k) \<and> token_count t = length (toks m k)
     \<and> t_count t = length (filter (assigned_to k) log)
     \<and> list_all (\<lambda>e. covers (toks m k) (tokenize (fst e))) (filter (assigned_to k) log))"

definition ids :: "DrainMiner \<Rightarrow> nat list" where
  "ids m = [1..<next_id m]"

definition bucket_ok :: "DrainMiner \<Rightarrow> nat \<Rightarrow> bool" where
  "bucket_ok m n \<longleftrightarrow> bucket m n = filter (\<lambda>k. length (toks m k) = n) (ids m) \<and> length (bucket m n) \<le> max_per_bucket m"

definition drain_ok :: "(string \<times> drain_result) list \<Rightarrow> DrainMiner \<Rightarrow> bool" where
  "drain_ok log m \<longleftrightarrow> bt_wf (by_len m) \<and> bt_wf (templates m) \<and> bt_wf (pattern_tokens m) \<and> 1 \<le> next_id m
     \<and> dom (bt_get (templates m)) = set (ids m) \<and> dom (bt_get (pattern_tokens m)) = set (ids m)
     \<and> (\<forall>n. bucket_ok m n)
     \<and> next_id m \<le> max_templates m + 1 \<and> (\<forall>k \<in> set (ids m). template_ok log m k)
     \<and> (\<forall>k. k \<notin> set (ids m) \<longrightarrow> filter (assigned_to k) log = [])"

lemma bt_length: "bt_wf m \<Longrightarrow> length m = card (dom (bt_get m))"
  using distinct_card [OF bt_wf_distinct, of m] bt.keys_dom [of m] by (simp add: bt_keys_def)

lemma drain_ok_count: "drain_ok log m \<Longrightarrow> length (templates m) = next_id m - 1"
  by (simp add: drain_ok_def bt_length ids_def)

lemma drain_ok_new: "drain_ok [] (with_bounds d c t b)"
  by (simp add: drain_ok_def with_bounds_def bt_wf_def bt_get_def [abs_def] bucket_ok_def bucket_def ids_def)

lemma filter_assigned_snoc:
  "filter (assigned_to k) (log @ [(msg, Inr (k', ps))]) =
     (if k' = k then filter (assigned_to k) log @ [(msg, Inr (k', ps))] else filter (assigned_to k) log)"
  by (simp add: assigned_to_def)

lemma drain_ok_dom:
  assumes "drain_ok log m" and "k \<in> set (ids m)"
  shows "\<exists>p. bt_get (pattern_tokens m) k = Some p" and "\<exists>t. bt_get (templates m) k = Some t"
  using assms unfolding drain_ok_def by blast+

lemma record_match_ok:
  assumes ok: "drain_ok log m" and k: "k \<in> set (ids m)" and len: "length (toks m k) = length (tokenize msg)"
  obtains params m' where "record_match m (tokenize msg) ts sev k = Some ((k, params), m')"
    "drain_ok (log @ [(msg, Inr (k, params))]) m'"
proof -
  obtain pat where pat: "bt_get (pattern_tokens m) k = Some pat" "toks m k = pat"
    using drain_ok_dom(1) [OF ok k] by (auto simp: toks_def)
  obtain t where t: "bt_get (templates m) k = Some t" using drain_ok_dom(2) [OF ok k] by auto
  define needs where "needs \<longleftrightarrow> list_ex (\<lambda>(p, t). p \<noteq> wildcard \<and> p \<noteq> t) (zip pat (tokenize msg))"
  define merged where "merged = (if needs then Some (merge_pattern pat (tokenize msg)) else None)"
  define pat' where "pat' = (if needs then merge_pattern pat (tokenize msg) else pat)"
  define params where "params = token_params pat (tokenize msg)"
  define m1 where "m1 = m\<lparr>templates := bt_insert k (update_template ts sev merged t) (templates m)\<rparr>"
  define m' where "m' = (case merged of None \<Rightarrow> m1
    | Some p \<Rightarrow> m1\<lparr>pattern_tokens := bt_insert k p (pattern_tokens m1)\<rparr>)"
  have run: "record_match m (tokenize msg) ts sev k = Some ((k, params), m')"
    unfolding record_match_def Let_def pat(1) t option.case
    by (simp add: m'_def m1_def params_def merged_def needs_def)
  have same: "next_id m' = next_id m" "by_len m' = by_len m" "max_templates m' = max_templates m"
    "max_per_bucket m' = max_per_bucket m" "templates m' = bt_insert k (update_template ts sev merged t) (templates m)"
    "ids m' = ids m" "bucket m' = bucket m"
    by (simp_all add: m'_def m1_def ids_def bucket_def [abs_def] split: option.splits)
  have wf: "bt_wf (templates m)" "bt_wf (pattern_tokens m)" using ok by (simp_all add: drain_ok_def)
  have tokens: "bt_wf (pattern_tokens m')" "bt_get (pattern_tokens m') = (bt_get (pattern_tokens m))(k \<mapsto> pat')"
    using wf pat by (auto simp: m'_def m1_def merged_def pat'_def bt_wf_insert bt_get_insert)
  then have toks': "toks m' = (toks m)(k := pat')" by (auto simp: toks_def fun_eq_iff)
  have length: "length pat' = length pat"
    using len pat by (simp add: pat'_def merge_pattern_def)
  have covered: "covers pat' (tokenize msg)" "covers pat old \<Longrightarrow> covers pat' old" for old
    using covers_merge [of pat "tokenize msg"] covers_no_merge [of pat "tokenize msg"] len pat
    by (auto simp: pat'_def needs_def)
  have upd: "pattern (update_template ts sev merged t) = (if needs then join_space pat' else pattern t)"
    "token_count (update_template ts sev merged t) = (if needs then length pat' else token_count t)"
    "template_id (update_template ts sev merged t) = template_id t"
    "t_count (update_template ts sev merged t) = Suc (t_count t)"
    by (simp_all add: update_template_def merged_def pat'_def)
  have "drain_ok (log @ [(msg, Inr (k, params))]) m'"
  proof -
    have "template_ok (log @ [(msg, Inr (k, params))]) m' j" if "j \<in> set (ids m)" for j
    proof -
      have "template_ok log m j" using ok that by (simp add: drain_ok_def)
      then show ?thesis
        unfolding template_ok_def filter_assigned_snoc same(5) toks' bt_get_insert [OF wf(1)]
        using t pat(2) covered length upd by (cases "j = k") (auto simp: list_all_iff pat'_def)
    qed
    moreover have "dom (bt_get (templates m')) = set (ids m)" "dom (bt_get (pattern_tokens m')) = set (ids m)"
      using ok k by (simp_all add: same(5) tokens(2) bt_get_insert [OF wf(1)] drain_ok_def insert_absorb)
    moreover have "bucket_ok m' n" for n
    proof -
      have "filter (\<lambda>j. length (toks m' j) = n) (ids m) = filter (\<lambda>j. length (toks m j) = n) (ids m)"
        using length pat(2) by (intro filter_cong) (auto simp: toks')
      moreover have "bucket_ok m n" using ok by (simp add: drain_ok_def)
      ultimately show ?thesis unfolding bucket_ok_def same by metis
    qed
    ultimately show ?thesis
      using ok k bt_wf_insert [OF wf(1)] tokens(1) unfolding drain_ok_def filter_assigned_snoc same by auto
  qed
  with run show thesis by (rule that)
qed

lemma new_template_ok:
  assumes ok: "drain_ok log m" and room: "length (templates m) < max_templates m"
    "length (bucket m (length (tokenize msg))) < max_per_bucket m"
    and run: "new_template m msg (tokenize msg) ts sev = (k, m')"
  shows "drain_ok (log @ [(msg, Inr (k, []))]) m'"
proof -
  let ?tokens = "tokenize msg"
  have wf: "bt_wf (by_len m)" "bt_wf (templates m)" "bt_wf (pattern_tokens m)" "1 \<le> next_id m"
    using ok by (simp_all add: drain_ok_def)
  obtain info where same: "k = next_id m" "next_id m' = Suc k" "max_templates m' = max_templates m" "max_per_bucket m' = max_per_bucket m"
    "templates m' = bt_insert k info (templates m)" "pattern_tokens m' = bt_insert k ?tokens (pattern_tokens m)"
    "by_len m' = bt_insert (length ?tokens) (bucket m (length ?tokens) @ [k]) (by_len m)"
    and info: "template_id info = k" "pattern info = join_space ?tokens" "token_count info = length ?tokens" "t_count info = 1"
    using run by (auto simp: new_template_def Let_def bucket_def)
  have ids': "ids m' = ids m @ [k]" "k \<notin> set (ids m)" using wf(4) by (simp_all add: ids_def same(1,2))
  have toks': "toks m' = (toks m)(k := ?tokens)"
    by (auto simp: toks_def fun_eq_iff same(6) bt_get_insert [OF wf(3)])
  have bucket': "bucket m' = (bucket m)(length ?tokens := bucket m (length ?tokens) @ [k])"
    by (auto simp: bucket_def fun_eq_iff same(7) bt_get_insert [OF wf(1)])
  have new: "filter (assigned_to k) log = []" using ok ids'(2) by (simp add: drain_ok_def)
  have "template_ok (log @ [(msg, Inr (k, []))]) m' j" if "j \<in> set (ids m')" for j
  proof (cases "j = k")
    case True
    then show ?thesis
      using new info unfolding template_ok_def filter_assigned_snoc toks' same(5) bt_get_insert [OF wf(2)] by simp
  next
    case False
    then have "template_ok log m j" using ok that ids' by (simp add: drain_ok_def)
    then show ?thesis
      using False unfolding template_ok_def filter_assigned_snoc toks' same(5) bt_get_insert [OF wf(2)] by simp
  qed
  moreover have "dom (bt_get (templates m')) = set (ids m')" "dom (bt_get (pattern_tokens m')) = set (ids m')"
    using ok by (simp_all add: ids' same(5,6) bt_get_insert wf drain_ok_def)
  moreover have "bucket_ok m' n" for n
  proof -
    have "filter (\<lambda>j. length (toks m' j) = n) (ids m) = filter (\<lambda>j. length (toks m j) = n) (ids m)"
      using ids'(2) by (intro filter_cong) (auto simp: toks')
    moreover have "bucket_ok m n" using ok by (simp add: drain_ok_def)
    ultimately show ?thesis using room(2) by (auto simp: bucket_ok_def bucket' ids'(1) toks' same(4))
  qed
  moreover have "next_id m' \<le> max_templates m' + 1"
    using room(1) drain_ok_count [OF ok] same(1-3) wf(4) by simp
  ultimately show ?thesis
    using ok ids' wf unfolding drain_ok_def filter_assigned_snoc
    by (auto simp: same(2,4-7) bt_wf_insert)
qed

lemma match_or_create_ok:
  assumes ok: "drain_ok log m"
  obtains r m' where "match_or_create_cancellable cancel m msg ts level = Some (r, m')"
    "drain_ok (log @ [(msg, r)]) m'" "\<And>e. r = Inl e \<Longrightarrow> m' = m"
proof -
  let ?tokens = "tokenize msg"
  have error: "drain_ok (log @ [(msg, Inl e)]) m" for e
    using ok by (simp add: drain_ok_def template_ok_def assigned_to_def)
  have scan: "scan_best_template_id cancel m ?tokens \<in> {Inl Cancelled, Inr (best_template m ?tokens)}"
    by (rule scan_best)
  consider "scan_best_template_id cancel m ?tokens = Inl Cancelled"
    | k where "scan_best_template_id cancel m ?tokens = Inr (Some k)" "best_template m ?tokens = Some k"
    | "scan_best_template_id cancel m ?tokens = Inr None"
    using scan by (cases "best_template m ?tokens") auto
  then show thesis
  proof cases
    case 1
    then show thesis by (intro that [of "Inl Cancelled" m] error) (simp_all add: match_or_create_cancellable_def)
  next
    case (2 k)
    have "k \<in> set (bucket m (length ?tokens))" using 2(2) first_max_Some unfolding best_template_def by fastforce
    moreover have "bucket_ok m (length ?tokens)" using ok by (simp add: drain_ok_def)
    ultimately have "k \<in> set (ids m)" "length (toks m k) = length ?tokens" by (simp_all add: bucket_ok_def)
    then obtain params m' where "record_match m ?tokens ts (level_severity level) k = Some ((k, params), m')"
      "drain_ok (log @ [(msg, Inr (k, params))]) m'" by (rule record_match_ok [OF ok])
    then show thesis
      by (intro that [of "Inr (k, params)" m']) (simp_all add: match_or_create_cancellable_def 2(1))
  next
    case 3
    obtain k m' where new: "new_template m msg ?tokens ts (level_severity level) = (k, m')" by force
    show thesis
      using that error new_template_ok [OF ok _ _ new] 3 new
      by (cases "max_templates m \<le> length (templates m)"; cases "max_per_bucket m \<le> length (bucket m (length ?tokens))")
        (auto simp: match_or_create_cancellable_def bucket_def split: option.splits)
  qed
qed

lemma drain_run_ok:
  assumes "drain_ok log m"
  obtains log' m' where "drain_run es m = Some (log', m')" "drain_ok (log @ log') m'"
  using assms
proof (induction es arbitrary: log m thesis)
  case Nil
  then show ?case by simp
next
  case (Cons e es)
  obtain cancel msg ts level where e: "e = (cancel, msg, ts, level)" by (cases e)
  obtain r m1 where step: "match_or_create_cancellable cancel m msg ts level = Some (r, m1)"
    "drain_ok (log @ [(msg, r)]) m1" by (rule match_or_create_ok [OF Cons.prems(2)])
  obtain log' m' where "drain_run es m1 = Some (log', m')" "drain_ok ((log @ [(msg, r)]) @ log') m'"
    by (rule Cons.IH [OF _ step(2)])
  then show ?case by (intro Cons.prems(1) [of "(msg, r) # log'" m']) (simp_all add: e step(1))
qed

lemma caps_kept:
  assumes "match_or_create_cancellable cancel m msg ts level = Some (r, m')"
  shows "max_templates m' = max_templates m \<and> max_per_bucket m' = max_per_bucket m"
  using assms
  by (auto simp: match_or_create_cancellable_def record_match_def new_template_def Let_def
      split: sum.splits option.splits if_splits)

lemma drain_run_caps:
  "drain_run es m = Some (log, m') \<Longrightarrow> max_templates m' = max_templates m \<and> max_per_bucket m' = max_per_bucket m
     \<and> map fst log = map (fst \<circ> snd) es"
proof (induction es m arbitrary: log m' rule: drain_run.induct)
  case (2 cancel msg ts level es m)
  then show ?case by (fastforce split: option.splits dest: caps_kept)
qed simp

lemma bt_get_member: "bt_wf m \<Longrightarrow> (k, v) \<in> set m \<Longrightarrow> bt_get m k = Some v"
  using bt_wf_distinct [of m] by (simp add: bt_get_def)

text \<open>What the invariant says about messages, templates and caps.\<close>

lemma drain_ok_covers:
  assumes ok: "drain_ok log m" and log: "(msg, Inr (k, ps)) \<in> set log"
  shows "\<exists>pat. bt_get (pattern_tokens m) k = Some pat \<and> covers pat (tokenize msg)"
proof -
  have mem: "(msg, Inr (k, ps)) \<in> set (filter (assigned_to k) log)" using log by (simp add: assigned_to_def)
  have k: "k \<in> set (ids m)"
  proof (rule ccontr)
    assume "k \<notin> set (ids m)"
    then have "filter (assigned_to k) log = []" using ok by (simp add: drain_ok_def)
    with mem show False by simp
  qed
  then have "template_ok log m k" using ok by (simp add: drain_ok_def)
  then have "covers (toks m k) (tokenize msg)" using mem by (fastforce simp: template_ok_def list_all_iff)
  then show ?thesis using drain_ok_dom(1) [OF ok k] by (auto simp: toks_def)
qed

lemma drain_ok_info:
  assumes ok: "drain_ok log m" and mem: "(k, i) \<in> set (templates m)"
  shows "template_id i = k \<and> pattern i = join_space (toks m k) \<and> t_count i = length (filter (assigned_to k) log)"
proof -
  have get: "bt_get (templates m) k = Some i" using ok bt_get_member mem by (auto simp: drain_ok_def)
  then have "k \<in> set (ids m)" using ok by (auto simp: drain_ok_def)
  then have "template_ok log m k" using ok by (simp add: drain_ok_def)
  with get show ?thesis by (auto simp: template_ok_def)
qed

lemma drain_ok_bucket:
  assumes ok: "drain_ok log m" and mem: "(n, ks) \<in> set (by_len m)"
  shows "length ks \<le> max_per_bucket m"
proof -
  have "bt_get (by_len m) n = Some ks" using ok bt_get_member mem by (auto simp: drain_ok_def)
  moreover have "bucket_ok m n" using ok by (simp add: drain_ok_def)
  ultimately show ?thesis by (auto simp: bucket_ok_def bucket_def)
qed

lemma drain_ok_cap: "drain_ok log m \<Longrightarrow> template_count m \<le> max_templates m"
  using drain_ok_count [of log m] by (auto simp: drain_ok_def template_count_def)

section \<open>Messages without tokens\<close>

lemma tokenless_unmatched: "best_template m [] = None"
  by (simp add: best_template_def first_max_def find_None_iff eligible_def)

lemma tokenless_step:
  assumes ok: "drain_ok log m" and none: "tokenize msg = []"
  shows "match_or_create m msg ts level =
    (if max_templates m \<le> length (templates m) then Some (Inl (cardinality_error (max_templates m)), m)
     else if max_per_bucket m \<le> length (bucket m 0) then Some (Inl (bucket_error (max_per_bucket m) 0), m)
     else case new_template m msg [] ts (level_severity level) of (k, m') \<Rightarrow> Some (Inr (k, []), m'))"
  using none
  by (simp add: match_or_create_def match_or_create_cancellable_def scan_best_uncancelled tokenless_unmatched Let_def
      bucket_def split: option.splits)

lemma tokenless_run:
  assumes "drain_ok log m" and "tokenize msg = []"
    and "length (templates m) + n \<le> max_templates m" and "length (bucket m 0) + n \<le> max_per_bucket m"
  obtains log' log'' m' where "drain_run (replicate n (\<lambda>_. False, msg, ts, level)) m = Some (log', m')"
    "length (templates m') = length (templates m) + n" "length (bucket m' 0) = length (bucket m 0) + n"
    "drain_ok log'' m'"
  using assms
proof (induction n arbitrary: log m thesis)
  case 0
  then show ?case by simp
next
  case (Suc n)
  obtain k m1 where new: "new_template m msg [] ts (level_severity level) = (k, m1)" by force
  have step: "match_or_create_cancellable (\<lambda>_. False) m msg ts level = Some (Inr (k, []), m1)"
    using tokenless_step [OF Suc.prems(2,3), of ts level] Suc.prems(4,5) new by (simp add: match_or_create_def)
  have ok: "drain_ok (log @ [(msg, Inr (k, []))]) m1"
    using match_or_create_ok [OF Suc.prems(2), of "\<lambda>_. False" msg ts level] step by auto
  have wf: "bt_wf (by_len m)" using Suc.prems(2) by (simp add: drain_ok_def)
  have "1 \<le> next_id m" using Suc.prems(2) by (simp add: drain_ok_def)
  then have "length (templates m1) = length (templates m) + 1"
    using drain_ok_count [OF Suc.prems(2)] drain_ok_count [OF ok] new by (auto simp: new_template_def Let_def)
  moreover have "length (bucket m1 0) = length (bucket m 0) + 1"
    using new by (auto simp: new_template_def Let_def bucket_def bt_get_insert [OF wf] split: option.splits)
  ultimately have room: "length (templates m1) + n \<le> max_templates m1" "length (bucket m1 0) + n \<le> max_per_bucket m1"
    and grown: "length (templates m1) + n = length (templates m) + Suc n" "length (bucket m1 0) + n = length (bucket m 0) + Suc n"
    using Suc.prems(4,5) caps_kept [OF step] by simp_all
  show ?case
  proof (rule Suc.IH [OF _ ok Suc.prems(3) room])
    fix log' m' log''
    assume "drain_run (replicate n (\<lambda>_. False, msg, ts, level)) m1 = Some (log', m')"
      "length (templates m') = length (templates m1) + n" "length (bucket m' 0) = length (bucket m1 0) + n"
      "drain_ok log'' m'"
    then show thesis
      using grown by (intro Suc.prems(1) [of "(msg, Inr (k, [])) # log'" m' log'']) (simp_all add: step)
  qed
qed

section \<open>Repeated messages\<close>

lemma covers_same_count: "covers p ts \<Longrightarrow> same_count p ts = length p"
  unfolding covers_def by (induction p ts rule: list_all2_induct) (auto simp: same_token_def)

lemma repeat_accepted:
  assumes ok: "drain_ok log m" and log: "(msg, Inr (k, ps)) \<in> set log" and tokens: "tokenize msg \<noteq> []"
  shows "\<exists>r m'. match_or_create m msg ts level = Some (Inr r, m')"
proof -
  obtain pat where pat: "bt_get (pattern_tokens m) k = Some pat" "covers pat (tokenize msg)"
    using drain_ok_covers [OF ok log] by blast
  have len: "length pat = length (tokenize msg)" using pat(2) by (simp add: covers_def list_all2_lengthD)
  have "k \<in> set (ids m)" using ok pat(1) by (auto simp: drain_ok_def)
  moreover have "bucket_ok m (length (tokenize msg))" using ok by (simp add: drain_ok_def)
  ultimately have k: "k \<in> set (bucket m (length (tokenize msg)))" "toks m k = pat"
    using pat(1) len by (simp_all add: bucket_ok_def toks_def)
  have "eligible (toks m k) (tokenize msg)"
    using covers_same_count [OF pat(2)] len tokens by (auto simp: eligible_def k(2))
  then obtain j where j: "best_template m (tokenize msg) = Some j"
    using fold_max_step [where C = "\<lambda>k. eligible (toks m k) (tokenize msg)" and v = "\<lambda>k. same_count (toks m k) (tokenize msg)"
        and xs = "bucket m (length (tokenize msg))"] k(1)
    by (cases "best_template m (tokenize msg)") (auto simp: best_template_def fold_max_step_first)
  obtain r m' where "match_or_create_cancellable (\<lambda>_. False) m msg ts level = Some (r, m')"
    by (rule match_or_create_ok [OF ok])
  then have step: "match_or_create m msg ts level = Some (r, m')" by (simp add: match_or_create_def)
  have "r \<noteq> Inl e" for e
    using step j by (auto simp: match_or_create_def match_or_create_cancellable_def scan_best_uncancelled Let_def)
  with step show ?thesis by (cases r) auto
qed

section \<open>Properties\<close>

text \<open>C16: A template is what its messages share. Run the miner on any sequence of messages, with any
  caps and any moments of cancellation: it never panics; every message it accepted is an instance of
  the pattern its template has at the end, position by position up to wildcards; every template shows
  its cached tokens and counts exactly the messages assigned to it; and neither the number of
  templates nor any length bucket exceeds its cap.\<close>

theorem drain_run_faithful:
  "case drain_run es (with_bounds d c t b) of
     None \<Rightarrow> False
   | Some (log, m) \<Rightarrow>
       map fst log = map (fst \<circ> snd) es
       \<and> list_all (\<lambda>(msg, r). case r of Inl _ \<Rightarrow> True
           | Inr (k, _) \<Rightarrow> (case bt_get (pattern_tokens m) k of None \<Rightarrow> False | Some pat \<Rightarrow> covers pat (tokenize msg))) log
       \<and> list_all (\<lambda>(k, info). template_id info = k \<and> pattern info = join_space (toks m k)
           \<and> t_count info = length (filter (assigned_to k) log)) (templates m)
       \<and> template_count m \<le> max t 1 \<and> list_all (\<lambda>(n, ks). length ks \<le> max b 1) (by_len m)"
proof -
  obtain log m where run: "drain_run es (with_bounds d c t b) = Some (log, m)" and ok: "drain_ok log m"
    by (metis drain_run_ok [OF drain_ok_new] append_Nil)
  have caps: "max_templates m = max t 1" "max_per_bucket m = max b 1" "map fst log = map (fst \<circ> snd) es"
    using drain_run_caps [OF run] by (simp_all add: with_bounds_def)
  have buckets: "length ks \<le> max b 1" if "(n, ks) \<in> set (by_len m)" for n ks
    using drain_ok_bucket [OF ok that] caps(2) by simp
  show ?thesis
    using caps(1,3) drain_ok_cap [OF ok] drain_ok_covers [OF ok] drain_ok_info [OF ok] buckets
    by (auto simp: run list_all_iff template_count_def split: sum.splits option.splits) fastforce+
qed

text \<open>Similarity counted in full: the positions where the template has a wildcard or the token itself,
  or where both tokens look like variable values.\<close>

definition shared_tokens :: "string list \<Rightarrow> string list \<Rightarrow> nat" where
  "shared_tokens pat msg = length (filter (\<lambda>(p, t). p = ''<*>'' \<or> p = t \<or> looks_variable p \<and> looks_variable t) (zip pat msg))"

lemma shared_same: "shared_tokens = same_count"
  by (simp add: fun_eq_iff shared_tokens_def same_count_def same_token_def wildcard_def)

text \<open>C39: The early exit is exact. Scanning a length bucket with scores that give up early selects the
  first template in creation order among those of maximal similarity, counted in full, that share at
  least half of the tokens; with no such template it selects none.\<close>

theorem scan_selects_first_best:
  "scan_best_template_id (\<lambda>_. False) m tokens =
     (let candidates = filter (\<lambda>k. length (toks m k) = length tokens \<and> tokens \<noteq> []
            \<and> length tokens \<le> 2 * shared_tokens (toks m k) tokens) (bucket m (length tokens))
      in Inr (find (\<lambda>k. list_all (\<lambda>j. shared_tokens (toks m j) tokens \<le> shared_tokens (toks m k) tokens) candidates) candidates))"
proof -
  have "(length pat = length tokens \<and> tokens \<noteq> [] \<and> length tokens \<le> 2 * same_count pat tokens) = eligible pat tokens" for pat
    by (auto simp: eligible_def)
  then show ?thesis by (simp add: scan_best_uncancelled best_template_def first_max_candidates Let_def shared_same)
qed

text \<open>C38: What was accepted once is accepted again. After any run, a message with at least one token that
  was accepted before is accepted whenever it comes back, even when every cap has been reached: the
  caps only refuse new shapes.\<close>

theorem drain_accepts_repeats:
  "case drain_run es (with_bounds d c t b) of
     None \<Rightarrow> False
   | Some (log, m) \<Rightarrow>
       list_all (\<lambda>(msg, _). case match_or_create m msg ts level of Some (Inr _, _) \<Rightarrow> True | _ \<Rightarrow> False)
         (filter (\<lambda>(msg, r). is_ok r \<and> tokenize msg \<noteq> []) log)"
proof -
  obtain log m where run: "drain_run es (with_bounds d c t b) = Some (log, m)" and ok: "drain_ok log m"
    by (metis drain_run_ok [OF drain_ok_new] append_Nil)
  have "\<exists>r' m'. match_or_create m msg ts level = Some (Inr r', m')"
    if "(msg, r) \<in> set log" "is_ok r" "tokenize msg \<noteq> []" for msg r
    using that repeat_accepted [OF ok] by (cases r) auto
  then show ?thesis by (fastforce simp: run list_all_iff)
qed

text \<open>Messages without tokens defeat the miner. A message of separators only, such as an empty CSV
  row, has no tokens and similarity zero with everything, itself included: each copy makes a template
  of its own, and after as many copies as a bucket may hold the next one is rejected with a policy
  error, which ends the import.\<close>

theorem tokenless_messages_fill_bucket:
  "\<exists>log m. drain_run (replicate 2048 (\<lambda>_. False, '',,,'', 0, ''info'')) drain_default = Some (log, m)
     \<and> template_count m = 2048
     \<and> match_or_create m '',,,'' 0 ''info'' = Some (Inl (bucket_error 2048 0), m)"
proof -
  have none: "tokenize '',,,'' = []" by code_simp
  have ok: "drain_ok [] drain_default" unfolding drain_default_def by (rule drain_ok_new)
  have start: "length (templates drain_default) + 2048 \<le> max_templates drain_default"
    "length (bucket drain_default 0) + 2048 \<le> max_per_bucket drain_default"
    by (simp_all add: drain_default_def with_bounds_def MAX_DRAIN_TEMPLATES_def bucket_def bt_get_def
        MAX_DRAIN_TEMPLATES_PER_LENGTH_BUCKET_def)
  obtain log' log'' m where run: "drain_run (replicate 2048 (\<lambda>_. False, '',,,'', 0, ''info'')) drain_default = Some (log', m)"
    and sizes: "length (templates m) = 2048" "length (bucket m 0) = 2048" and ok': "drain_ok log'' m"
    by (rule tokenless_run [OF ok none start, where ts = 0 and level = "''info''"])
      (simp add: drain_default_def with_bounds_def bucket_def bt_get_def)
  have "max_templates m = 25000" "max_per_bucket m = 2048"
    using drain_run_caps [OF run]
    by (simp_all add: drain_default_def with_bounds_def MAX_DRAIN_TEMPLATES_def MAX_DRAIN_TEMPLATES_PER_LENGTH_BUCKET_def)
  then have "match_or_create m '',,,'' 0 ''info'' = Some (Inl (bucket_error 2048 0), m)"
    using tokenless_step [OF ok' none] sizes by simp
  with run sizes show ?thesis by (auto simp: template_count_def)
qed

end
