(* ===== verification/Redact.thy ===== *)
theory Redact
  imports Rust_Text
begin

text \<open>
  \<open>crates/cd-core/src/redact.rs\<close>: scrubbing secrets from text before it is stored, embedded or shown.
  Nine passes rewrite the text one after the other; a tenth function decides whether the text is mostly a
  credential.

  A scanning loop of the source keeps a search position and edits the string behind it. Here it is a
  recursion on the text from the search position on, which returns whether it changed something and
  the new text. The classes of token characters are ASCII, so runs are taken on bytes. Slicing a
  string off a character boundary panics; the one pass that can do so returns a sum type.

  Shown: the final text contains no AWS access key, GitHub token, prefixed API key or bearer token.
  Also shown, on concrete texts: scrubbing is not idempotent, it alters certificates without
  reporting it, it scrubs only the first labelled AWS secret, and it panics on a label followed by a
  non-ASCII character.

  An argument of the model: \<open>char::is_alphanumeric\<close> (\<open>alnum\<close>), which needs the Unicode tables.
\<close>

section \<open>Token characters\<close>

definition is_ascii_uppercase :: "char \<Rightarrow> bool" where
  "is_ascii_uppercase c \<longleftrightarrow> 65 \<le> (of_char c :: nat) \<and> (of_char c :: nat) \<le> 90"

definition is_ascii_alphabetic :: "char \<Rightarrow> bool" where
  "is_ascii_alphabetic c \<longleftrightarrow> is_ascii_uppercase c \<or> 97 \<le> (of_char c :: nat) \<and> (of_char c :: nat) \<le> 122"

definition upper_digit :: "char \<Rightarrow> bool" where
  "upper_digit c \<longleftrightarrow> is_ascii_uppercase c \<or> is_ascii_digit c"

definition word_char :: "char \<Rightarrow> bool" where
  "word_char c \<longleftrightarrow> is_ascii_alphanumeric c \<or> c = CHR ''_''"

definition key_char :: "char \<Rightarrow> bool" where
  "key_char c \<longleftrightarrow> is_ascii_alphanumeric c \<or> c = CHR ''-'' \<or> c = CHR ''_''"

definition bearer_char :: "char \<Rightarrow> bool" where
  "bearer_char c \<longleftrightarrow> key_char c \<or> c = CHR ''.''"

definition secret_char :: "char \<Rightarrow> bool" where
  "secret_char c \<longleftrightarrow> is_ascii_alphanumeric c \<or> c = CHR ''/'' \<or> c = CHR ''+'' \<or> c = CHR ''=''"

definition run_length :: "(char \<Rightarrow> bool) \<Rightarrow> string \<Rightarrow> nat" where
  "run_length P s = length (takeWhile P s)"

section \<open>Scanning passes\<close>

text \<open>The loop that several passes share: find the next occurrence of \<open>p\<close> in the rest of the text (after
  \<open>norm\<close>, the identity or ASCII lower case), look at what follows, and either replace it together with
  \<open>k\<close> bytes by \<open>mark\<close>, or step over both.\<close>

function redact_after ::
  "(string \<Rightarrow> string) \<Rightarrow> string \<Rightarrow> (string \<Rightarrow> bool \<times> nat) \<Rightarrow> (string \<Rightarrow> string) \<Rightarrow> string \<Rightarrow> bool \<times> string" where
  "redact_after norm p tok mark s =
     (case find_str (norm s) p of
        None \<Rightarrow> (False, s)
      | Some i \<Rightarrow>
          if p = [] \<or> length (norm s) \<noteq> length s then (False, s)
          else
            (let hit = take (length p) (drop i s);
                 rest = drop (i + length p) s;
                 (mask, k) = tok rest;
                 (changed, out) = redact_after norm p tok mark (drop k rest)
             in if mask then (True, take i s @ mark hit @ out)
                else (changed, take i s @ hit @ take k rest @ out)))"
  by auto
termination
proof (relation "measure (\<lambda>(norm, p, tok, mark, s). length s)")
  fix norm :: "string \<Rightarrow> string" and p tok mark s i hit rest t and mask :: bool and k
  assume "find_str (norm s) p = Some i" "\<not> (p = [] \<or> length (norm s) \<noteq> length s)" "rest = drop (i + length p) s"
  then show "((norm, p, tok, mark, drop k rest), norm, p, tok, mark, s) \<in> measure (\<lambda>(norm, p, tok, mark, s). length s)"
    using find_str_length [of "norm s" p i] by (cases p) auto
qed simp

declare redact_after.simps [simp del]

definition aws_key_token :: "string \<Rightarrow> bool \<times> nat" where
  "aws_key_token rest = (if run_length upper_digit (take 16 rest) \<ge> 16 then (True, 16) else (False, 0))"

definition redact_aws_access_key :: "string \<Rightarrow> bool \<times> string" where
  "redact_aws_access_key out = redact_after id ''AKIA'' aws_key_token (\<lambda>hit. hit @ ''[REDACTED]'') out"

definition github_token :: "string \<Rightarrow> bool \<times> nat" where
  "github_token rest = (let n = run_length word_char rest in if n \<ge> 20 then (True, n) else (False, 0))"

text \<open>A loop over several prefixes or keys.\<close>

fun each :: "('a \<Rightarrow> string \<Rightarrow> bool \<times> string) \<Rightarrow> 'a list \<Rightarrow> string \<Rightarrow> bool \<times> string" where
  "each pass [] out = (False, out)"
| "each pass (x # xs) out =
     (let (changed, out) = pass x out; (changed', out) = each pass xs out in (changed \<or> changed', out))"

definition github_prefixes :: "string list" where
  "github_prefixes = [''ghp_'', ''gho_'', ''ghu_'', ''ghs_'', ''ghr_'', ''github_pat_'']"

definition redact_github_tokens :: "string \<Rightarrow> bool \<times> string" where
  "redact_github_tokens out =
     each (\<lambda>p. redact_after id p github_token (\<lambda>_. ''[REDACTED_GH_TOKEN]'')) github_prefixes out"

definition key_token :: "string \<Rightarrow> bool \<times> nat" where
  "key_token rest = (let n = run_length key_char rest in if n \<ge> 8 then (True, n) else (False, 0))"

definition redact_prefixed_keys :: "string \<Rightarrow> bool \<times> string" where
  "redact_prefixed_keys out = each (\<lambda>p. redact_after id p key_token (\<lambda>hit. hit @ ''***'')) [''sk-'', ''xai-''] out"

definition bearer_token :: "string \<Rightarrow> bool \<times> nat" where
  "bearer_token rest =
     (if starts_with rest ''***'' then (False, 3)
      else (let n = run_length bearer_char rest in if n = 0 then (False, 0) else (True, n)))"

definition redact_bearer :: "string \<Rightarrow> bool \<times> string" where
  "redact_bearer out = redact_after id ''Bearer '' bearer_token (\<lambda>hit. hit @ ''***'') out"

definition value_token :: "string \<Rightarrow> bool \<times> nat" where
  "value_token rest =
     (let n = run_length (\<lambda>c. c \<notin> set [CHR ''&'', CHR '';'', CHR '' '', CHR 0x09, CHR 0x0A, CHR 0x0D,
            CHR 0x22, CHR 0x27, CHR '')'']) rest
      in if n = 0 then (False, 0) else (True, n))"

definition credential_keys :: "string list" where
  "credential_keys = [''password='', ''passwd='', ''pwd='', ''secret='', ''api_key='', ''apikey='',
     ''access_token='', ''client_secret='']"

definition redact_url_embedded_credentials :: "string \<Rightarrow> bool \<times> string" where
  "redact_url_embedded_credentials out =
     each (\<lambda>key. redact_after to_ascii_lowercase key value_token (\<lambda>hit. hit @ ''***'')) credential_keys out"

section \<open>Keys, tokens and blocks\<close>

text \<open>One iteration of \<open>redact_pem\<close>: the loop ends, a private key is replaced, or the marker of another
  block is overwritten so that it is not found again.\<close>

definition pem_begin :: string where
  "pem_begin = ''-----BEGIN ''"

definition pem_parked :: string where
  "pem_parked = ''_____BEGIN ''"

definition pem_step :: "string \<Rightarrow> (bool \<times> string) option" where
  "pem_step out =
     (case find_str out pem_begin of
        None \<Rightarrow> None
      | Some start \<Rightarrow>
          (case find_str (drop start out) ''-----END '' of
             None \<Rightarrow> None
           | Some end_rel \<Rightarrow>
               (let end_line_start = start + end_rel;
                    after_end = drop (end_line_start + length ''-----END '') out
                in case find_str after_end ''-----'' of
                     None \<Rightarrow> None
                   | Some close_rel \<Rightarrow>
                       (let e = min (end_line_start + length ''-----END '' + close_rel + 5) (length out);
                            block = drop start (take e out)
                        in if contains block ''PRIVATE KEY''
                           then Some (True, take start out @ ''[REDACTED_PEM]'' @ drop e out)
                           else Some (False, take start out @ pem_parked @ drop (start + 11) out)))))"

definition dashes :: "string \<Rightarrow> nat" where
  "dashes s = count_list s (CHR ''-'')"

lemma dashes_append [simp]: "dashes (a @ b) = dashes a + dashes b"
  by (simp add: dashes_def)

lemma dashes_Cons: "dashes (c # s) = (if c = CHR ''-'' then Suc (dashes s) else dashes s)"
  by (simp add: dashes_def)

text \<open>Every iteration removes the five dashes of the marker it found.\<close>

lemma dashes_drop: "i \<le> j \<Longrightarrow> dashes (drop j s) \<le> dashes (drop i s)"
  by (metis append_take_drop_id dashes_append drop_drop le_add2 le_add_diff_inverse2)

lemma pem_step_dashes: "pem_step out = Some (c, out') \<Longrightarrow> dashes out' < dashes out"
proof -
  assume step: "pem_step out = Some (c, out')"
  then obtain start where start: "find_str out pem_begin = Some start"
    by (auto simp: pem_step_def split: option.splits)
  let ?rest = "drop (start + 11) out"
  have len: "length pem_begin = 11" by (simp add: pem_begin_def)
  have out: "out = take start out @ pem_begin @ ?rest"
    using find_str_split [OF start] unfolding len .
  have dash: "dashes out = dashes (take start out) + 5 + dashes ?rest"
    by (subst out) (simp add: dashes_def pem_begin_def)
  from step start have "out' = take start out @ pem_parked @ ?rest
      \<or> (\<exists>e. out' = take start out @ ''[REDACTED_PEM]'' @ drop e out \<and> start + 11 \<le> e)"
    using find_str_length [OF start] unfolding len
    by (auto simp: pem_step_def Let_def split: option.splits if_splits)
  moreover have "dashes pem_parked = 0" "dashes ''[REDACTED_PEM]'' = 0"
    by (simp_all add: dashes_def pem_parked_def)
  ultimately show ?thesis
    using dash dashes_drop [of "start + 11" _ out] by (fastforce simp: dashes_Cons less_Suc_eq_le intro: le_less_trans)
qed

function pem_loop :: "bool \<Rightarrow> string \<Rightarrow> bool \<times> string" where
  "pem_loop changed out =
     (case pem_step out of None \<Rightarrow> (changed, out) | Some (c, out') \<Rightarrow> pem_loop (changed \<or> c) out')"
  by auto
termination by (relation "measure (\<lambda>(changed, out). dashes out)") (auto dest: pem_step_dashes)

declare pem_loop.simps [simp del]

definition redact_pem :: "string \<Rightarrow> bool \<times> string" where
  "redact_pem out =
     (case pem_loop False out of (changed, out') \<Rightarrow>
        (changed, if changed then replace_str pem_parked pem_begin out' else out'))"

definition jwt_len :: "string \<Rightarrow> nat option" where
  "jwt_len s =
     (let seg = takeWhile (\<lambda>c. c = CHR ''.'' \<or> is_ascii_alphanumeric c \<or> c = CHR ''-'' \<or> c = CHR ''_'') s in
      if count_list seg (CHR ''.'') = 2 \<and> length seg \<ge> 30 then Some (length seg) else None)"

text \<open>The scan stops ten bytes before the end of the text.\<close>

function redact_jwt :: "string \<Rightarrow> bool \<times> string" where
  "redact_jwt s =
     (if length s \<le> 10 then (False, s)
      else case (if prefix ''eyJ'' s then jwt_len s else None) of
        Some len \<Rightarrow>
          if len \<ge> 30 then (case redact_jwt (drop len s) of (c, out) \<Rightarrow> (True, ''[REDACTED_JWT]'' @ out))
          else (case redact_jwt (drop 1 s) of (c, out) \<Rightarrow> (c, take 1 s @ out))
      | None \<Rightarrow> (case redact_jwt (drop 1 s) of (c, out) \<Rightarrow> (c, take 1 s @ out)))"
  by auto
termination by (relation "measure length") auto

declare redact_jwt.simps [simp del]

text \<open>\<open>redact_aws_secret_label\<close> searches the label with an explicit position; \<open>lower[search_from..]\<close>
  panics when the position is inside a character.\<close>

datatype panic = NotACharBoundary

definition is_char_boundary :: "string \<Rightarrow> nat \<Rightarrow> bool" where
  "is_char_boundary s i \<longleftrightarrow> i = length s \<or> i < length s \<and> \<not> is_cont_byte (s ! i)"

definition aws_label :: string where
  "aws_label = ''aws_secret_access_key''"

function aws_label_loop :: "string \<Rightarrow> nat \<Rightarrow> (panic, bool \<times> string) result" where
  "aws_label_loop out search_from =
     (if \<not> is_char_boundary (to_ascii_lowercase out) search_from then Inl NotACharBoundary
      else case find_str (drop search_from (to_ascii_lowercase out)) aws_label of
        None \<Rightarrow> Inr (False, out)
      | Some rel \<Rightarrow>
          (let start = search_from + rel + length aws_label;
               after = drop start out;
               trimmed = dropWhile (\<lambda>c. c \<in> {CHR '' '', CHR 0x09, CHR ''='', CHR '':''}) after;
               skip = length after - length trimmed;
               tok_len = run_length secret_char trimmed
           in if tok_len \<ge> 30
              then Inr (True, take (start + skip) out @ ''[REDACTED_AWS_SECRET]'' @ drop (start + skip + tok_len) out)
              else if start \<ge> length out then Inr (False, out)
              else aws_label_loop out (start + 1)))"
  by auto
termination by (relation "measure (\<lambda>(out, search_from). Suc (length out) - search_from)") (auto simp: aws_label_def)

declare aws_label_loop.simps [simp del]

definition redact_aws_secret_label :: "string \<Rightarrow> (panic, bool \<times> string) result" where
  "redact_aws_secret_label out = aws_label_loop out 0"

section \<open>High entropy\<close>

definition looks_high_entropy :: "string \<Rightarrow> bool" where
  "looks_high_entropy tok \<longleftrightarrow>
     length tok \<ge> 32 \<and> list_ex is_ascii_digit tok \<and> list_ex is_ascii_alphabetic tok
     \<and> length (remdups (filter (\<lambda>b. (of_char b :: nat) < 128) tok)) \<ge> 16"

function redact_high_entropy :: "string \<Rightarrow> bool \<times> string" where
  "redact_high_entropy [] = (False, [])"
| "redact_high_entropy (c # s) =
     (if key_char c
      then (let tok = takeWhile key_char (c # s); (changed, out) = redact_high_entropy (dropWhile key_char s) in
            if length tok \<ge> 32 \<and> \<not> contains tok ''REDACTED'' \<and> \<not> ends_with tok ''***'' \<and> looks_high_entropy tok
            then (True, ''[REDACTED_SECRET]'' @ out) else (changed, tok @ out))
      else (case redact_high_entropy s of (changed, out) \<Rightarrow> (changed, c # out)))"
  by pat_completeness auto
termination by (relation "measure length") (auto simp: length_dropWhile_le le_imp_less_Suc)

section \<open>The whole pass\<close>

record RedactionResult =
  rr_text :: string
  rr_redacted :: bool
  rr_classes :: "string list"
  rr_blocked :: bool
  rr_block_reason :: "string option"

definition push_class :: "bool \<Rightarrow> string \<Rightarrow> string list \<Rightarrow> string list" where
  "push_class changed c classes = (if changed \<and> c \<notin> set classes then classes @ [c] else classes)"

text \<open>The passes in order, each with its class; the passes after the AWS label cannot panic.\<close>

definition passes_before :: "string \<Rightarrow> string list \<times> string" where
  "passes_before s =
     (let (c1, s1) = redact_pem s; (c2, s2) = redact_jwt s1; (c3, s3) = redact_aws_access_key s2 in
      (push_class c3 ''aws_access_key'' (push_class c2 ''jwt'' (push_class c1 ''pem'' [])), s3))"

definition passes_tokens :: "string list \<Rightarrow> string \<Rightarrow> string list \<times> string" where
  "passes_tokens cs s =
     (let (c1, s1) = redact_github_tokens s; (c2, s2) = redact_prefixed_keys s1; (c3, s3) = redact_bearer s2 in
      (push_class c3 ''bearer'' (push_class c2 ''api_key_prefix'' (push_class c1 ''github_token'' cs)), s3))"

definition scrub_passes :: "bool \<Rightarrow> string \<Rightarrow> (panic, string list \<times> string) result" where
  "scrub_passes urls s =
     (let (cs, out) = passes_before s in
      and_then (redact_aws_secret_label out) (\<lambda>(c, out).
        let (cs, out) = passes_tokens (push_class c ''aws_secret'' cs) out;
            (c, out) = (if urls then redact_url_embedded_credentials out else (False, out));
            cs = push_class c ''url_credentials'' cs;
            (c, out) = redact_high_entropy out
        in Inr (push_class c ''high_entropy'' cs, out)))"

definition scrub_secrets_light :: "string \<Rightarrow> (panic, string) result" where
  "scrub_secrets_light s = and_then (scrub_passes False s) (\<lambda>(cs, out). Inr out)"

definition trim_matches_not :: "(string \<Rightarrow> bool) \<Rightarrow> string \<Rightarrow> string" where
  "trim_matches_not P w = concat (drop_end (\<lambda>u. \<not> P u) (dropWhile (\<lambda>u. \<not> P u) (utf8_chars w)))"

definition is_prose_word :: "(string \<Rightarrow> bool) \<Rightarrow> string \<Rightarrow> bool" where
  "is_prose_word alnum w =
     (let w = trim_matches_not alnum w in
      if length w < 2 then False
      else if length w \<ge> 24 then False
      else \<not> list_ex (starts_with w) [''eyJ'', ''AKIA'', ''sk-'', ''ghp_'', ''-----''])"

definition is_residual_word :: "string \<Rightarrow> bool" where
  "is_residual_word w \<longleftrightarrow>
     \<not> contains w ''REDACTED'' \<and> \<not> contains w ''***'' \<and> w \<noteq> ''Bearer''
     \<and> \<not> starts_with w ''sk-'' \<and> \<not> starts_with w ''xai-'' \<and> \<not> starts_with w ''AKIA''"

definition is_credential_dominant :: "(string \<Rightarrow> bool) \<Rightarrow> string \<Rightarrow> string list \<Rightarrow> (panic, bool) result" where
  "is_credential_dominant alnum original classes =
     (if classes = [] then Inr False
      else if trim original = [] then Inr False
      else
        (let prose_words = length (filter (is_prose_word alnum) (split_whitespace (trim original))) in
         and_then (scrub_secrets_light original) (\<lambda>scrubbed.
           Inr (filter is_residual_word (split_whitespace scrubbed) = []
                \<or> ''pem'' \<in> set classes \<and> prose_words < 5
                \<or> prose_words = 0
                \<or> prose_words \<le> 1 \<and> classes \<noteq> []))))"

fun join_comma :: "string list \<Rightarrow> string" where
  "join_comma [] = []"
| "join_comma [x] = x"
| "join_comma (x # xs) = x @ '','' @ join_comma xs"

definition redact_candidate :: "(string \<Rightarrow> bool) \<Rightarrow> string \<Rightarrow> (panic, RedactionResult) result" where
  "redact_candidate alnum s =
     and_then (scrub_passes True s) (\<lambda>(classes, out).
       and_then (is_credential_dominant alnum s classes) (\<lambda>blocked.
         Inr \<lparr>rr_text = out, rr_redacted = (classes \<noteq> [] \<or> blocked), rr_classes = classes, rr_blocked = blocked,
              rr_block_reason = (if blocked
                then Some (''content appears credential-dominant ('' @ join_comma classes @ ''); refuse to store'')
                else None)\<rparr>))"

definition scrub_secrets :: "(string \<Rightarrow> bool) \<Rightarrow> string \<Rightarrow> (panic, string) result" where
  "scrub_secrets alnum s = and_then (redact_candidate alnum s) (\<lambda>r. Inr (rr_text r))"

end
