(* ===== verification/Log_Redact.thy ===== *)
theory Log_Redact
  imports Core_Error Redact_Properties
begin

text \<open>
  Redaction on log import: \<open>crates/cd-core/src/log_analysis/redact_log.rs\<close>, with
  \<open>String::from_utf8_lossy\<close> of the standard library. A record is decoded, scrubbed as a whole, and only
  then bounded for storage.
\<close>

section \<open>Lossy decoding\<close>

text \<open>The length of the maximal invalid subpart at the start of a byte string that does not start with
  a well-formed sequence.\<close>

definition second_of_three :: "char \<Rightarrow> char \<Rightarrow> bool" where
  "second_of_three c d \<longleftrightarrow> c = CHR 0xE0 \<and> byte_in 0xA0 0xBF d \<or> c = CHR 0xED \<and> byte_in 0x80 0x9F d
     \<or> (byte_in 0xE1 0xEC c \<or> byte_in 0xEE 0xEF c) \<and> byte_in 0x80 0xBF d"

definition second_of_four :: "char \<Rightarrow> char \<Rightarrow> bool" where
  "second_of_four c d \<longleftrightarrow> c = CHR 0xF0 \<and> byte_in 0x90 0xBF d \<or> c = CHR 0xF4 \<and> byte_in 0x80 0x8F d
     \<or> byte_in 0xF1 0xF3 c \<and> byte_in 0x80 0xBF d"

fun bad_len :: "string \<Rightarrow> nat" where
  "bad_len (c # d # cs) =
     (if second_of_three c d then 2
      else if second_of_four c d then (if conts 1 cs then 3 else 2)
      else 1)"
| "bad_len s = 1"

definition replacement_char :: string where
  "replacement_char = [CHR 0xEF, CHR 0xBF, CHR 0xBD]"

function from_utf8_lossy :: "string \<Rightarrow> string" where
  "from_utf8_lossy s =
     (if s = [] then []
      else if utf8_len s > 0 then take (utf8_len s) s @ from_utf8_lossy (drop (utf8_len s) s)
      else replacement_char @ from_utf8_lossy (drop (bad_len s) s))"
  by auto
termination
proof (relation "measure length")
  fix s :: string
  assume "s \<noteq> []"
  moreover have "0 < bad_len s" by (cases s rule: bad_len.cases) auto
  ultimately show "(drop (bad_len s) s, s) \<in> measure length" by simp
qed auto

declare from_utf8_lossy.simps [simp del]

lemma from_utf8_lossy_Nil [simp]: "from_utf8_lossy [] = []"
  by (simp add: from_utf8_lossy.simps)

lemma from_utf8_lossy_eq_Nil [simp]: "from_utf8_lossy s = [] \<longleftrightarrow> s = []"
  by (subst from_utf8_lossy.simps) (auto simp: replacement_char_def)

lemma from_utf8_lossy_valid: "valid_utf8 s \<Longrightarrow> from_utf8_lossy s = s"
proof (induction s rule: from_utf8_lossy.induct)
  case (1 s)
  show ?case
  proof (cases "s = []")
    case False
    then have "utf8_len s \<noteq> 0" "valid_utf8 (drop (utf8_len s) s)"
      using 1(3) by (simp_all add: valid_utf8.simps [of s] split: if_splits)
    then show ?thesis using 1(1) False by (simp add: from_utf8_lossy.simps [of s])
  qed simp
qed

text \<open>A line break ends every sequence, well-formed or not.\<close>

lemma byte_in_newline: "lo > 10 \<Longrightarrow> \<not> byte_in lo hi (CHR 0x0A)"
  by (simp add: byte_in_def)

lemma conts_newline: "conts n (a @ CHR 0x0A # b) = conts n a"
  by (induction n a rule: conts.induct) (auto simp: byte_in_newline)

lemma utf8_len_newline:
  assumes "a \<noteq> []"
  shows "utf8_len (a @ CHR 0x0A # b) = utf8_len a"
proof (cases a rule: utf8_len.cases)
  case (2 c)
  then show ?thesis by (simp add: byte_in_newline)
next
  case (3 c d cs)
  have cons: "conts n (d # cs @ CHR 0x0A # b) = conts n (d # cs)" for n
    using conts_newline [of n "d # cs" b] by simp
  show ?thesis by (simp only: 3 append_Cons utf8_len.simps cons conts_newline)
qed (use assms in simp)

lemma bad_len_newline:
  assumes "a \<noteq> []"
  shows "bad_len (a @ CHR 0x0A # b) = bad_len a"
proof -
  obtain c as where a: "a = c # as" using assms by (cases a) simp_all
  show ?thesis
  proof (cases as)
    case Nil
    then show ?thesis using a by (simp add: second_of_three_def second_of_four_def byte_in_newline)
  next
    case (Cons d cs)
    then show ?thesis using a by (simp only: append_Cons bad_len.simps conts_newline)
  qed
qed

lemma conts_length: "conts n s \<Longrightarrow> n \<le> length s"
  by (induction n s rule: conts.induct) auto

lemma utf8_len_le: "utf8_len s \<le> length s"
  by (cases s rule: utf8_len.cases) (auto dest: conts_length)

lemma bad_len_le: "s \<noteq> [] \<Longrightarrow> bad_len s \<le> length s"
  by (cases s rule: bad_len.cases) (auto dest: conts_length)

lemma from_utf8_lossy_newline:
  "from_utf8_lossy (a @ CHR 0x0A # b) = from_utf8_lossy a @ CHR 0x0A # from_utf8_lossy b"
proof (induction a rule: from_utf8_lossy.induct)
  case (1 a)
  show ?case
  proof (cases "a = []")
    case True
    have "utf8_len (CHR 0x0A # b) = 1" by (cases b) (simp_all add: byte_in_def)
    then show ?thesis using True by (simp add: from_utf8_lossy.simps [of "CHR 0x0A # b"])
  next
    case False
    show ?thesis
      using 1 False utf8_len_le [of a] bad_len_le [OF False]
      by (simp add: from_utf8_lossy.simps [of "a @ CHR 0x0A # b"] from_utf8_lossy.simps [of a]
          utf8_len_newline [OF False] bad_len_newline [OF False])
  qed
qed

section \<open>Records\<close>

definition MAX_ORIGINAL_REDACTED_BYTES :: nat where
  "MAX_ORIGINAL_REDACTED_BYTES = 64 * 1024"

record RedactedOriginal =
  ro_text :: string
  source_byte_count :: nat
  redacted_char_count :: nat
  ro_truncated :: bool
  encoding_normalized :: bool
  redaction_applied :: bool

record PreparedOriginal =
  parser_text :: string
  stored :: RedactedOriginal

definition strip_lf :: "string \<Rightarrow> string" where
  "strip_lf s = (if s \<noteq> [] \<and> last s = CHR 0x0A then butlast s else s)"

fun boundary_before :: "string \<Rightarrow> nat \<Rightarrow> nat" where
  "boundary_before s 0 = 0"
| "boundary_before s (Suc e) = (if is_char_boundary s (Suc e) then Suc e else boundary_before s e)"

definition truncate_utf8_bytes :: "string \<Rightarrow> nat \<Rightarrow> string \<times> bool" where
  "truncate_utf8_bytes v max_bytes =
     (if length v \<le> max_bytes then (v, False) else (take (boundary_before v max_bytes) v, True))"

definition prepare_original_record :: "(string \<Rightarrow> bool) \<Rightarrow> string \<Rightarrow> (panic, PreparedOriginal) result" where
  "prepare_original_record alnum raw_record =
     (let normalized = strip_cr (strip_lf raw_record) in
      and_then (redact_candidate alnum (from_utf8_lossy normalized)) (\<lambda>redaction.
        let (kept, truncated) = truncate_utf8_bytes (rr_text redaction) MAX_ORIGINAL_REDACTED_BYTES in
        Inr \<lparr>parser_text = rr_text redaction,
             stored = \<lparr>ro_text = kept, source_byte_count = length normalized,
                       redacted_char_count = char_count (rr_text redaction), ro_truncated = truncated,
                       encoding_normalized = (\<not> valid_utf8 normalized),
                       redaction_applied = (rr_redacted redaction \<or> rr_blocked redaction)\<rparr>\<rparr>))"

definition redact_params :: "(string \<Rightarrow> bool) \<Rightarrow> string list \<Rightarrow> (panic, string list) result" where
  "redact_params alnum params =
     try_map (\<lambda>p. and_then (redact_candidate alnum p) (\<lambda>r.
       Inr (if rr_blocked r then ''[REDACTED_CREDENTIAL]'' else rr_text r))) params"

definition redact_message :: "(string \<Rightarrow> bool) \<Rightarrow> string \<Rightarrow> (panic, string) result" where
  "redact_message alnum message =
     and_then (redact_candidate alnum message) (\<lambda>r.
       Inr (if rr_blocked r then ''[REDACTED_CREDENTIAL_DOMINANT]'' else rr_text r))"

section \<open>What is stored is scrubbed\<close>

text \<open>Text without any token of the known kinds.\<close>

definition token_free :: "string \<Rightarrow> bool" where
  "token_free s \<longleftrightarrow> (\<forall>w. secret_word w \<longrightarrow> \<not> contains s w)"

lemma token_free_prefix: "token_free s \<Longrightarrow> prefix q s \<Longrightarrow> token_free q"
  unfolding token_free_def using contains_of_prefix by blast

lemma redact_candidate_token_free:
  assumes "redact_candidate alnum s = Inr r"
  shows "token_free (rr_text r)"
proof -
  obtain cs out where "scrub_passes True s = Inr (cs, out)" and out: "rr_text r = out"
    using assms by (auto simp: redact_candidate_def)
  then obtain s1 c s2 where passes: "redact_aws_secret_label (snd (redact_aws_access_key s1)) = Inr (c, s2)"
    "out = snd (redact_high_entropy (snd (redact_url_embedded_credentials (snd (redact_bearer
       (snd (redact_prefixed_keys (snd (redact_github_tokens s2)))))))))"
    by (elim scrub_passes_cases)
  show ?thesis
    unfolding token_free_def secret_word_def out using scrubbed_clean [OF passes] by (auto split: prod.splits)
qed

lemma token_freeI: "list_all (\<lambda>k. \<not> contains s (fst k)) secret_kinds \<Longrightarrow> token_free s"
proof -
  assume free: "list_all (\<lambda>k. \<not> contains s (fst k)) secret_kinds"
  have "contains (p @ t) p" for p t by (simp add: contains_def)
  with free show ?thesis
    unfolding token_free_def secret_word_def by (fastforce simp: list_all_iff dest: contains_trans)
qed

lemma placeholders_token_free:
  "token_free ''[REDACTED_CREDENTIAL]''" "token_free ''[REDACTED_CREDENTIAL_DOMINANT]''"
  by (rule token_freeI, code_simp)+

lemma redact_message_token_free: "redact_message alnum m = Inr out \<Longrightarrow> token_free out"
  using redact_candidate_token_free placeholders_token_free by (auto simp: redact_message_def)

lemma redact_params_token_free: "redact_params alnum ps = Inr out \<Longrightarrow> list_all token_free out"
  using redact_candidate_token_free placeholders_token_free
  by (induction ps arbitrary: out) (auto simp: redact_params_def)

lemma boundary_before_le: "boundary_before s e \<le> e"
  by (induction e) auto

lemma truncate_utf8_bytes_prefix:
  "prefix (fst (truncate_utf8_bytes v n)) v" "length (fst (truncate_utf8_bytes v n)) \<le> n"
  using boundary_before_le [of v n] by (auto simp: truncate_utf8_bytes_def take_is_prefix)

lemma prepare_original_token_free:
  assumes "prepare_original_record alnum raw = Inr p"
  shows "token_free (parser_text p)" "token_free (ro_text (stored p))"
    "length (ro_text (stored p)) \<le> MAX_ORIGINAL_REDACTED_BYTES"
proof -
  obtain r where r: "redact_candidate alnum (from_utf8_lossy (strip_cr (strip_lf raw))) = Inr r" "parser_text p = rr_text r"
    "ro_text (stored p) = fst (truncate_utf8_bytes (rr_text r) MAX_ORIGINAL_REDACTED_BYTES)"
    using assms by (auto simp: prepare_original_record_def Let_def case_prod_unfold)
  show "token_free (parser_text p)" using redact_candidate_token_free [OF r(1)] r(2) by simp
  then show "token_free (ro_text (stored p))"
    using token_free_prefix truncate_utf8_bytes_prefix(1) r(2,3) by metis
  show "length (ro_text (stored p)) \<le> MAX_ORIGINAL_REDACTED_BYTES"
    unfolding r(3) by (rule truncate_utf8_bytes_prefix)
qed

end
