(* ===== verification/Import_Outcome.thy ===== *)
theory Import_Outcome
  imports Log_Redact Btree_Map Byte_Codes "HOL-Library.Product_Lexorder"
begin

text \<open>
  The result contract of log import: \<open>crates/cd-core/src/log_analysis/import_outcome.rs\<close>, with
  \<open>redact_basename\<close> and \<open>progress_basename\<close> of \<open>process_progress.rs\<close> and the counting methods of
  \<open>IngestStats\<close> (\<open>ingest.rs\<close>). Counters are naturals; they saturate at \<open>2^64 - 1\<close> in the code,
  which no run reaches. A scrub that panics (see the theory of the scrubber) is an \<open>Inl\<close>.

  Not modelled: \<open>to_json\<close> and \<open>render_summary\<close>, and the ratio of \<open>IngestStats\<close>, a float nothing
  depends on.
\<close>

section \<open>Member annotations\<close>

definition MEMBER_ANNOTATION_MARKER :: string where
  "MEMBER_ANNOTATION_MARKER = ''[member=''"

definition MEMBER_ANNOTATION_OPEN :: string where
  "MEMBER_ANNOTATION_OPEN = '' [member=''"

definition MEMBER_ANNOTATION_CLOSE :: char where
  "MEMBER_ANNOTATION_CLOSE = CHR '']''"

text \<open>Encoding and decoding treat only ASCII characters specially, so they are given on bytes.\<close>

definition encode_char :: "char \<Rightarrow> string" where
  "encode_char c = (if c = CHR ''%'' then ''%25'' else if c = CHR ''['' then ''%5B''
     else if c = CHR '']'' then ''%5D'' else [c])"

definition encode_member_identity :: "string \<Rightarrow> string" where
  "encode_member_identity identity = concat (map encode_char identity)"

definition from_hex :: "char \<Rightarrow> nat option" where
  "from_hex c = (let n = of_char c :: nat in
     if 48 \<le> n \<and> n \<le> 57 then Some (n - 48)
     else if 65 \<le> n \<and> n \<le> 70 then Some (n - 65 + 10)
     else if 97 \<le> n \<and> n \<le> 102 then Some (n - 97 + 10)
     else None)"

fun decode_member_identity :: "string \<Rightarrow> string option" where
  "decode_member_identity [] = Some []"
| "decode_member_identity (c # rest) =
     (if c = CHR ''%'' then
        (case rest of
           h # l # rest' \<Rightarrow>
             (case (from_hex h, from_hex l) of
                (Some hi, Some lo) \<Rightarrow>
                  (let decoded = 16 * hi + lo in
                   if decoded \<in> {0x25, 0x5B, 0x5D}
                   then map_option (\<lambda>out. char_of decoded # out) (decode_member_identity rest') else None)
              | _ \<Rightarrow> None)
         | _ \<Rightarrow> None)
      else if c = CHR ''['' \<or> c = CHR '']'' then None
      else map_option (\<lambda>out. c # out) (decode_member_identity rest))"

definition annotate_member :: "string \<Rightarrow> string \<Rightarrow> string" where
  "annotate_member message identity =
     (if contains message MEMBER_ANNOTATION_MARKER \<or> identity = [] then message
      else message @ MEMBER_ANNOTATION_OPEN @ encode_member_identity identity @ [MEMBER_ANNOTATION_CLOSE])"

definition member_annotation :: "string \<Rightarrow> string option" where
  "member_annotation message =
     (case find_str message MEMBER_ANNOTATION_OPEN of
        None \<Rightarrow> None
      | Some open_at \<Rightarrow>
          (let rest = drop (open_at + length MEMBER_ANNOTATION_OPEN) message in
           case find_str rest [MEMBER_ANNOTATION_CLOSE] of
             None \<Rightarrow> None
           | Some e \<Rightarrow>
               (if e = 0 then None
                else if contains (drop (e + 1) rest) MEMBER_ANNOTATION_MARKER then None
                else decode_member_identity (take e rest))))"

definition strip_member_annotation :: "string \<Rightarrow> string" where
  "strip_member_annotation message =
     (case find_str message MEMBER_ANNOTATION_MARKER of
        None \<Rightarrow> message
      | Some at \<Rightarrow>
          (let cut = (if at > 0 \<and> byte_at message (at - 1) = Some (CHR '' '') then at - 1 else at)
           in trim_end (take cut message)))"

section \<open>Classes and codes\<close>

datatype ImportOutcomeClass = Complete | Partial | Rejected

fun class_as_str :: "ImportOutcomeClass \<Rightarrow> string" where
  "class_as_str Complete = ''complete''"
| "class_as_str Partial = ''partial''"
| "class_as_str Rejected = ''rejected''"

definition class_published :: "ImportOutcomeClass \<Rightarrow> bool" where
  "class_published c \<longleftrightarrow> c \<in> {Complete, Partial}"

datatype ImportDefectSeverity = Fatal | Degraded

fun severity_as_str :: "ImportDefectSeverity \<Rightarrow> string" where
  "severity_as_str Fatal = ''fatal''"
| "severity_as_str Degraded = ''degraded''"

datatype ImportDefectCode =
    ArchiveUnreadable
  | NestedArchiveStagingFailed
  | ArchiveDepthExceeded
  | ArchiveMemberUnstable
  | MemberMetadataFailed
  | MemberOpenFailed
  | MemberReadFailed
  | MemberTooLarge
  | MemberBinary
  | MemberEmpty
  | MemberSymlink
  | MemberNonRegular
  | MalformedStructuredRecord
  | Unclassified

fun code_as_str :: "ImportDefectCode \<Rightarrow> string" where
  "code_as_str ArchiveUnreadable = ''archive_unreadable''"
| "code_as_str NestedArchiveStagingFailed = ''nested_archive_staging_failed''"
| "code_as_str ArchiveDepthExceeded = ''archive_depth_exceeded''"
| "code_as_str ArchiveMemberUnstable = ''archive_member_unstable''"
| "code_as_str MemberMetadataFailed = ''member_metadata_failed''"
| "code_as_str MemberOpenFailed = ''member_open_failed''"
| "code_as_str MemberReadFailed = ''member_read_failed''"
| "code_as_str MemberTooLarge = ''member_too_large''"
| "code_as_str MemberBinary = ''member_binary''"
| "code_as_str MemberEmpty = ''member_empty''"
| "code_as_str MemberSymlink = ''member_symlink''"
| "code_as_str MemberNonRegular = ''member_non_regular''"
| "code_as_str MalformedStructuredRecord = ''malformed_structured_record''"
| "code_as_str Unclassified = ''unclassified''"

definition from_ingest_reason :: "string \<Rightarrow> ImportDefectCode option" where
  "from_ingest_reason reason =
     (if reason \<in> {''directory'', ''hidden'', ''not_selected''} then None
      else case map_of
        [(''read_failed'', MemberReadFailed), (''open_failed'', MemberOpenFailed),
         (''metadata_failed'', MemberMetadataFailed), (''too_large'', MemberTooLarge), (''binary'', MemberBinary),
         (''empty'', MemberEmpty), (''symlink'', MemberSymlink), (''non_regular'', MemberNonRegular),
         (''archive_unreadable'', ArchiveUnreadable), (''nested_archive_staging_failed'', NestedArchiveStagingFailed),
         (''archive_depth_exceeded'', ArchiveDepthExceeded), (''archive_member_unstable'', ArchiveMemberUnstable),
         (''malformed_structured_record'', MalformedStructuredRecord)] reason of
          Some code \<Rightarrow> Some code
        | None \<Rightarrow> Some Unclassified)"

text \<open>The derived orders follow the order of declaration.\<close>

fun severity_rank :: "ImportDefectSeverity \<Rightarrow> nat" where
  "severity_rank Fatal = 0"
| "severity_rank Degraded = 1"

fun code_rank :: "ImportDefectCode \<Rightarrow> nat" where
  "code_rank ArchiveUnreadable = 0"
| "code_rank NestedArchiveStagingFailed = 1"
| "code_rank ArchiveDepthExceeded = 2"
| "code_rank ArchiveMemberUnstable = 3"
| "code_rank MemberMetadataFailed = 4"
| "code_rank MemberOpenFailed = 5"
| "code_rank MemberReadFailed = 6"
| "code_rank MemberTooLarge = 7"
| "code_rank MemberBinary = 8"
| "code_rank MemberEmpty = 9"
| "code_rank MemberSymlink = 10"
| "code_rank MemberNonRegular = 11"
| "code_rank MalformedStructuredRecord = 12"
| "code_rank Unclassified = 13"

instantiation ImportDefectSeverity :: linorder
begin

definition less_eq_ImportDefectSeverity :: "ImportDefectSeverity \<Rightarrow> ImportDefectSeverity \<Rightarrow> bool" where
  "a \<le> b \<longleftrightarrow> severity_rank a \<le> severity_rank b"

definition less_ImportDefectSeverity :: "ImportDefectSeverity \<Rightarrow> ImportDefectSeverity \<Rightarrow> bool" where
  "a < b \<longleftrightarrow> severity_rank a < severity_rank b"

instance
proof
  fix a b :: ImportDefectSeverity
  assume "a \<le> b" "b \<le> a"
  then show "a = b" by (cases a; cases b) (simp_all add: less_eq_ImportDefectSeverity_def)
qed (auto simp: less_eq_ImportDefectSeverity_def less_ImportDefectSeverity_def)

end

instantiation ImportDefectCode :: linorder
begin

definition less_eq_ImportDefectCode :: "ImportDefectCode \<Rightarrow> ImportDefectCode \<Rightarrow> bool" where
  "a \<le> b \<longleftrightarrow> code_rank a \<le> code_rank b"

definition less_ImportDefectCode :: "ImportDefectCode \<Rightarrow> ImportDefectCode \<Rightarrow> bool" where
  "a < b \<longleftrightarrow> code_rank a < code_rank b"

instance
proof
  fix a b :: ImportDefectCode
  assume "a \<le> b" "b \<le> a"
  then show "a = b" by (cases a; cases b) (simp_all add: less_eq_ImportDefectCode_def)
qed (auto simp: less_eq_ImportDefectCode_def less_ImportDefectCode_def)

end

section \<open>Locators\<close>

definition MAX_LOG_INGEST_EVIDENCE_BASENAME_CHARS :: nat where
  "MAX_LOG_INGEST_EVIDENCE_BASENAME_CHARS = 96"

definition MAX_LOCATOR_ARCHIVE_CHAIN :: nat where
  "MAX_LOCATOR_ARCHIVE_CHAIN = 4"

definition MAX_LOCATOR_PATH_SEGMENTS :: nat where
  "MAX_LOCATOR_PATH_SEGMENTS = 8"

definition ARCHIVE_MEMBER_SEPARATOR :: string where
  "ARCHIVE_MEMBER_SEPARATOR = ''!/''"

definition resembles_private_host :: "string \<Rightarrow> bool" where
  "resembles_private_host v = (let lower = to_ascii_lowercase v in
     list_ex (\<lambda>suffix. ends_with lower suffix \<or> contains lower (suffix @ ''.'') \<or> contains lower (suffix @ ''-''))
       [''.internal'', ''.corp'', ''.intranet'', ''.local'', ''.lan'', ''.private'', ''.ies''])"

definition path_sep :: "string \<Rightarrow> bool" where
  "path_sep u \<longleftrightarrow> u = ''/'' \<or> u = [CHR 0x5C]"

text \<open>A character is its UTF-8 group; an ASCII character is recognised by its first byte.\<close>

definition kept_char :: "string \<Rightarrow> bool" where
  "kept_char u \<longleftrightarrow> \<not> is_control u \<and> hd u \<notin> {CHR ''/'', CHR 0x5C, CHR ''!''}"

definition redacted_basename :: string where
  "redacted_basename = ''[REDACTED_BASENAME]''"

definition redact_basename :: "(string \<Rightarrow> bool) \<Rightarrow> string \<Rightarrow> (panic, string) result" where
  "redact_basename alnum source =
     (let leaf = (case find (\<lambda>c. c \<noteq> []) (rev (split_where path_sep source)) of None \<Rightarrow> ''item'' | Some l \<Rightarrow> l) in
      and_then (redact_candidate alnum leaf) (\<lambda>redaction.
        let safe = (if rr_blocked redaction then redacted_basename else rr_text redaction);
            safe = trim (concat (filter kept_char (utf8_chars safe)));
            safe = (if safe = [] \<or> resembles_private_host safe then redacted_basename else safe)
        in Inr (take_chars MAX_LOG_INGEST_EVIDENCE_BASENAME_CHARS safe)))"

text \<open>\<open>Path::file_name\<close> and \<open>progress_basename\<close> on a Unix path.\<close>

definition progress_basename :: "string \<Rightarrow> string" where
  "progress_basename path =
     (let parts = filter (\<lambda>c. c \<noteq> [] \<and> c \<noteq> ''.'') (split_where (\<lambda>u. u = ''/'') path) in
      if parts = [] \<or> last parts = ''..'' then ''item'' else last parts)"

definition forbid_member_marker :: "string \<Rightarrow> string" where
  "forbid_member_marker component =
     (if contains component MEMBER_ANNOTATION_MARKER then redacted_basename else component)"

definition is_absolute_path :: "string \<Rightarrow> bool" where
  "is_absolute_path v \<longleftrightarrow> starts_with v ''/'' \<or> starts_with v [CHR 0x5C]
     \<or> (byte_at v 1 = Some (CHR '':'') \<and> is_ascii_alphabetic (v ! 0))"

definition ellipsis :: string where
  "ellipsis = [CHR 0xE2, CHR 0x80, CHR 0xA6]"

definition redact_component :: "(string \<Rightarrow> bool) \<Rightarrow> string \<Rightarrow> (panic, string) result" where
  "redact_component alnum s = and_then (redact_basename alnum s) (\<lambda>b. Inr (forbid_member_marker b))"

definition redact_portable_path :: "(string \<Rightarrow> bool) \<Rightarrow> string \<Rightarrow> (panic, string) result" where
  "redact_portable_path alnum level =
     (if is_absolute_path level then redact_component alnum level
      else and_then (try_map (redact_component alnum)
             (filter (\<lambda>s. s \<noteq> [] \<and> s \<noteq> ''.'') (split_where path_sep level))) (\<lambda>segments.
        if segments = [] then redact_component alnum level
        else Inr (join_with ''/''
          (if length segments > MAX_LOCATOR_PATH_SEGMENTS
           then ellipsis # drop (length segments - MAX_LOCATOR_PATH_SEGMENTS) segments else segments))))"

record SourceLocator =
  sl_identity :: string
  archive_chain :: "string list"
  sl_member :: string
  archive_depth :: nat

definition locator_of_levels :: "string list \<Rightarrow> SourceLocator" where
  "locator_of_levels levels =
     (let chain = butlast levels;
          leaf_path = last levels;
          member = (case find (\<lambda>s. s \<noteq> []) (rev (split_where (\<lambda>u. u = ''/'') leaf_path)) of
                      None \<Rightarrow> leaf_path | Some s \<Rightarrow> s);
          trimmed = (if length chain > MAX_LOCATOR_ARCHIVE_CHAIN
                     then hd chain # drop (length chain - (MAX_LOCATOR_ARCHIVE_CHAIN - 1)) chain else chain)
      in \<lparr>sl_identity = join_with ARCHIVE_MEMBER_SEPARATOR (trimmed @ [leaf_path]), archive_chain = trimmed,
          sl_member = member, archive_depth = length chain\<rparr>)"

definition from_identity :: "(string \<Rightarrow> bool) \<Rightarrow> string \<Rightarrow> (panic, SourceLocator) result" where
  "from_identity alnum identity =
     and_then (try_map (redact_portable_path alnum) (split_str ARCHIVE_MEMBER_SEPARATOR identity)) (\<lambda>levels.
       Inr (locator_of_levels levels))"

definition is_nested :: "SourceLocator \<Rightarrow> bool" where
  "is_nested l \<longleftrightarrow> archive_depth l > 0"

section \<open>The defect ledger\<close>

definition MAX_IMPORT_DEFECTS :: nat where
  "MAX_IMPORT_DEFECTS = 64"

record RecordLocation =
  rl_line :: nat
  byte_offset :: nat

record ImportDefect =
  d_code :: ImportDefectCode
  d_severity :: ImportDefectSeverity
  d_source :: SourceLocator
  d_location :: "RecordLocation option"
  occurrences :: nat

record DefectLedger =
  dl_entries :: "ImportDefect list"
  dl_counts :: "(string, nat) btree_map"
  dl_truncated :: bool
  malformed_records :: nat

definition defect_ledger_new :: DefectLedger where
  "defect_ledger_new = \<lparr>dl_entries = [], dl_counts = [], dl_truncated = False, malformed_records = 0\<rparr>"

text \<open>\<open>*map.entry(key).or_insert(0) += 1\<close>.\<close>

definition bump :: "string \<Rightarrow> (string, nat) btree_map \<Rightarrow> (string, nat) btree_map" where
  "bump key m = bt_insert key (Suc (case bt_get m key of None \<Rightarrow> 0 | Some n \<Rightarrow> n)) m"

definition ledger_is_empty :: "DefectLedger \<Rightarrow> bool" where
  "ledger_is_empty l \<longleftrightarrow> dl_entries l = [] \<and> dl_counts l = []"

definition ledger_push ::
  "(string \<Rightarrow> bool) \<Rightarrow> ImportDefectCode \<Rightarrow> ImportDefectSeverity \<Rightarrow> string \<Rightarrow> RecordLocation option \<Rightarrow> DefectLedger
     \<Rightarrow> (panic, DefectLedger) result" where
  "ledger_push alnum code severity identity location l =
     (let l = l\<lparr>dl_counts := bump (code_as_str code) (dl_counts l)\<rparr> in
      if length (dl_entries l) \<ge> MAX_IMPORT_DEFECTS then Inr (l\<lparr>dl_truncated := True\<rparr>)
      else and_then (from_identity alnum identity) (\<lambda>locator.
        Inr (l\<lparr>dl_entries := dl_entries l @
          [\<lparr>d_code = code, d_severity = severity, d_source = locator, d_location = location, occurrences = 1\<rparr>]\<rparr>)))"

text \<open>\<open>entries.iter_mut().find(..)\<close> and the update of what it found.\<close>

fun coalesce :: "ImportDefectCode \<Rightarrow> SourceLocator \<Rightarrow> ImportDefect list \<Rightarrow> ImportDefect list option" where
  "coalesce code locator [] = None"
| "coalesce code locator (d # ds) =
     (if d_code d = code \<and> d_source d = locator then Some (d\<lparr>occurrences := occurrences d + 1\<rparr> # ds)
      else map_option ((#) d) (coalesce code locator ds))"

definition ledger_push_coalescing ::
  "(string \<Rightarrow> bool) \<Rightarrow> ImportDefectCode \<Rightarrow> ImportDefectSeverity \<Rightarrow> string \<Rightarrow> RecordLocation option \<Rightarrow> DefectLedger
     \<Rightarrow> (panic, DefectLedger) result" where
  "ledger_push_coalescing alnum code severity identity location l =
     (let l = l\<lparr>dl_counts := bump (code_as_str code) (dl_counts l)\<rparr> in
      and_then (from_identity alnum identity) (\<lambda>locator.
        case coalesce code locator (dl_entries l) of
          Some entries \<Rightarrow> Inr (l\<lparr>dl_entries := entries\<rparr>)
        | None \<Rightarrow>
            if length (dl_entries l) \<ge> MAX_IMPORT_DEFECTS then Inr (l\<lparr>dl_truncated := True\<rparr>)
            else Inr (l\<lparr>dl_entries := dl_entries l @
              [\<lparr>d_code = code, d_severity = severity, d_source = locator, d_location = location, occurrences = 1\<rparr>]\<rparr>)))"

definition record_ingest_reason ::
  "(string \<Rightarrow> bool) \<Rightarrow> string \<Rightarrow> string \<Rightarrow> DefectLedger \<Rightarrow> (panic, DefectLedger) result" where
  "record_ingest_reason alnum reason identity l =
     (case from_ingest_reason reason of
        None \<Rightarrow> Inr l
      | Some code \<Rightarrow> ledger_push alnum code Degraded identity None l)"

definition record_fatal ::
  "(string \<Rightarrow> bool) \<Rightarrow> ImportDefectCode \<Rightarrow> string \<Rightarrow> RecordLocation option \<Rightarrow> DefectLedger \<Rightarrow> (panic, DefectLedger) result" where
  "record_fatal alnum code identity location l = ledger_push alnum code Fatal identity location l"

definition record_malformed_structured_record ::
  "(string \<Rightarrow> bool) \<Rightarrow> string \<Rightarrow> RecordLocation \<Rightarrow> DefectLedger \<Rightarrow> (panic, DefectLedger) result" where
  "record_malformed_structured_record alnum identity location l =
     ledger_push_coalescing alnum MalformedStructuredRecord Degraded identity (Some location)
       (l\<lparr>malformed_records := malformed_records l + 1\<rparr>)"

definition defect_key :: "ImportDefect \<Rightarrow> ImportDefectSeverity \<times> ImportDefectCode \<times> string \<times> nat \<times> nat" where
  "defect_key d =
     (case d_location d of
        None \<Rightarrow> (d_severity d, d_code d, sl_identity (d_source d), 0, 0)
      | Some l \<Rightarrow> (d_severity d, d_code d, sl_identity (d_source d), rl_line l, byte_offset l))"

definition ledger_finish ::
  "ImportDefectSeverity \<Rightarrow> DefectLedger \<Rightarrow> ImportDefect list \<times> (string, nat) btree_map \<times> bool" where
  "ledger_finish terminal l =
     (let defects = (if terminal = Degraded then map (\<lambda>d. d\<lparr>d_severity := Degraded\<rparr>) (dl_entries l) else dl_entries l)
      in (sort_key defect_key defects, dl_counts l, dl_truncated l))"

section \<open>Statistics of a run\<close>

definition MAX_EXCLUSION_EXAMPLES :: nat where
  "MAX_EXCLUSION_EXAMPLES = 20"

record IngestStats =
  st_files :: nat
  discovered_files :: nat
  excluded_files :: nat
  failed_files :: nat
  ignored_files :: nat
  exclusion_counts :: "(string, nat) btree_map"
  exclusion_examples :: "string list"
  st_partial :: bool
  st_lines :: nat
  st_templates :: nat
  st_embedded :: nat
  st_source_bytes :: nat
  corpus_bytes :: nat
  level_counts :: "(string, nat) btree_map"
  ts_min :: "int option"
  ts_max :: "int option"
  format_counts :: "(string, nat) btree_map"
  timestamp_provenance_counts :: "(string, nat) btree_map"
  active_timestamp_basis_counts :: "(string, nat) btree_map"
  defects :: DefectLedger

definition stats_default :: IngestStats where
  "stats_default =
     \<lparr>st_files = 0, discovered_files = 0, excluded_files = 0, failed_files = 0, ignored_files = 0,
      exclusion_counts = [], exclusion_examples = [], st_partial = False, st_lines = 0, st_templates = 0,
      st_embedded = 0, st_source_bytes = 0, corpus_bytes = 0, level_counts = [], ts_min = None, ts_max = None,
      format_counts = [], timestamp_provenance_counts = [], active_timestamp_basis_counts = [],
      defects = defect_ledger_new\<rparr>"

definition record_omission_detail ::
  "(string \<Rightarrow> bool) \<Rightarrow> string \<Rightarrow> string \<Rightarrow> IngestStats \<Rightarrow> (panic, IngestStats) result" where
  "record_omission_detail alnum reason source st =
     (let st = st\<lparr>exclusion_counts := bump reason (exclusion_counts st)\<rparr> in
      and_then
        (if length (exclusion_examples st) < MAX_EXCLUSION_EXAMPLES
         then and_then (redact_message alnum (progress_basename source)) (\<lambda>safe.
                Inr (st\<lparr>exclusion_examples := exclusion_examples st @ [reason @ '': '' @ safe]\<rparr>))
         else Inr st)
        (\<lambda>st. and_then (record_ingest_reason alnum reason source (defects st)) (\<lambda>l. Inr (st\<lparr>defects := l\<rparr>))))"

definition record_omission ::
  "(string \<Rightarrow> bool) \<Rightarrow> string \<Rightarrow> string \<Rightarrow> IngestStats \<Rightarrow> (panic, IngestStats) result" where
  "record_omission alnum reason source st =
     and_then (record_omission_detail alnum reason source st) (\<lambda>st. Inr (st\<lparr>st_partial := True\<rparr>))"

definition stats_discover :: "IngestStats \<Rightarrow> IngestStats" where
  "stats_discover st = st\<lparr>discovered_files := discovered_files st + 1\<rparr>"

definition stats_imported :: "IngestStats \<Rightarrow> IngestStats" where
  "stats_imported st = st\<lparr>st_files := st_files st + 1\<rparr>"

definition stats_excluded ::
  "(string \<Rightarrow> bool) \<Rightarrow> string \<Rightarrow> string \<Rightarrow> IngestStats \<Rightarrow> (panic, IngestStats) result" where
  "stats_excluded alnum reason source st =
     record_omission alnum reason source (st\<lparr>excluded_files := excluded_files st + 1\<rparr>)"

definition stats_failed ::
  "(string \<Rightarrow> bool) \<Rightarrow> string \<Rightarrow> string \<Rightarrow> IngestStats \<Rightarrow> (panic, IngestStats) result" where
  "stats_failed alnum reason source st =
     record_omission alnum reason source (st\<lparr>failed_files := failed_files st + 1\<rparr>)"

definition stats_ignored ::
  "(string \<Rightarrow> bool) \<Rightarrow> string \<Rightarrow> string \<Rightarrow> IngestStats \<Rightarrow> (panic, IngestStats) result" where
  "stats_ignored alnum reason source st =
     record_omission_detail alnum reason source (st\<lparr>ignored_files := ignored_files st + 1\<rparr>)"

definition stats_reject ::
  "(string \<Rightarrow> bool) \<Rightarrow> ImportDefectCode \<Rightarrow> string \<Rightarrow> IngestStats \<Rightarrow> (panic, IngestStats) result" where
  "stats_reject alnum code identity st =
     and_then (record_fatal alnum code identity None (defects st)) (\<lambda>l. Inr (st\<lparr>defects := l\<rparr>))"

section \<open>Reports\<close>

record ImportOutcomeCounts =
  sources_discovered :: nat
  sources_imported :: nat
  sources_failed :: nat
  sources_excluded :: nat
  sources_ignored :: nat
  records_imported :: nat
  records_malformed :: nat

record ImportOutcomeReport =
  ior_class :: ImportOutcomeClass
  ior_published :: bool
  ior_corpus_id :: "string option"
  ior_counts :: ImportOutcomeCounts
  ior_defects :: "ImportDefect list"
  ior_defect_counts :: "(string, nat) btree_map"
  defects_truncated :: bool
  manifest_digest :: string

definition counts_from :: "IngestStats \<Rightarrow> DefectLedger \<Rightarrow> ImportOutcomeCounts" where
  "counts_from st l =
     \<lparr>sources_discovered = discovered_files st, sources_imported = st_files st, sources_failed = failed_files st,
      sources_excluded = excluded_files st, sources_ignored = ignored_files st, records_imported = st_lines st,
      records_malformed = malformed_records l\<rparr>"

definition be_u64 :: "nat \<Rightarrow> string" where
  "be_u64 n = rev (le_bytes 8 n)"

definition be_u32 :: "nat \<Rightarrow> string" where
  "be_u32 n = rev (le_bytes 4 n)"

definition defect_bytes :: "ImportDefect \<Rightarrow> string" where
  "defect_bytes d =
     code_as_str (d_code d) @ [CHR 0x00] @ severity_as_str (d_severity d) @ [CHR 0x00]
     @ sl_identity (d_source d) @ [CHR 0x00]
     @ (case d_location d of None \<Rightarrow> be_u64 0 @ be_u64 0 | Some l \<Rightarrow> be_u64 (rl_line l) @ be_u64 (byte_offset l))
     @ be_u64 (occurrences d)"

text \<open>The digest: SHA-256 (an argument, in hexadecimal) of the classified content.\<close>

definition manifest_bytes :: "ImportOutcomeReport \<Rightarrow> string" where
  "manifest_bytes r =
     ''contextdesk.import_outcome.v1'' @ [CHR 0x00] @ be_u32 1 @ class_as_str (ior_class r)
     @ [if ior_published r then CHR 0x01 else CHR 0x00]
     @ concat (map be_u64 [sources_discovered (ior_counts r), sources_imported (ior_counts r),
         sources_failed (ior_counts r), sources_excluded (ior_counts r), sources_ignored (ior_counts r),
         records_imported (ior_counts r), records_malformed (ior_counts r)])
     @ concat (map defect_bytes (ior_defects r))
     @ concat (map (\<lambda>(code, n). code @ [CHR 0x00] @ be_u64 n) (ior_defect_counts r))"

definition compute_manifest_digest :: "(string \<Rightarrow> string) \<Rightarrow> ImportOutcomeReport \<Rightarrow> string" where
  "compute_manifest_digest sha256 r = ''sha256:'' @ sha256 (manifest_bytes r)"

definition assemble ::
  "(string \<Rightarrow> string) \<Rightarrow> ImportOutcomeClass \<Rightarrow> string option \<Rightarrow> ImportOutcomeCounts
     \<Rightarrow> ImportDefect list \<times> (string, nat) btree_map \<times> bool \<Rightarrow> ImportOutcomeReport" where
  "assemble sha256 cls corpus_id counts finished =
     (case finished of (ds, dcounts, truncated) \<Rightarrow>
       let r = \<lparr>ior_class = cls, ior_published = class_published cls,
                ior_corpus_id = (if class_published cls then corpus_id else None), ior_counts = counts,
                ior_defects = ds, ior_defect_counts = dcounts, defects_truncated = truncated,
                manifest_digest = []\<rparr>
       in r\<lparr>manifest_digest := compute_manifest_digest sha256 r\<rparr>)"

definition report_published ::
  "(string \<Rightarrow> string) \<Rightarrow> string \<Rightarrow> IngestStats \<Rightarrow> DefectLedger \<Rightarrow> ImportOutcomeReport" where
  "report_published sha256 corpus_id st l =
     (let counts = counts_from st l;
          finished = ledger_finish Degraded l;
          cls = (if fst finished = [] \<and> fst (snd finished) = [] \<and> sources_failed counts = 0
                    \<and> sources_excluded counts = 0 \<and> records_malformed counts = 0 \<and> \<not> st_partial st
                 then Complete else Partial)
      in assemble sha256 cls (Some corpus_id) counts finished)"

definition report_rejected :: "(string \<Rightarrow> string) \<Rightarrow> IngestStats \<Rightarrow> DefectLedger \<Rightarrow> ImportOutcomeReport" where
  "report_rejected sha256 st l =
     assemble sha256 Rejected None ((counts_from st l)\<lparr>sources_imported := 0, records_imported := 0\<rparr>)
       (ledger_finish Fatal l)"

fun rejection_code :: "CoreError \<Rightarrow> ImportDefectCode" where
  "rejection_code (Policy _) = ArchiveUnreadable"
| "rejection_code _ = Unclassified"

definition rejected_without_locator ::
  "(string \<Rightarrow> bool) \<Rightarrow> (string \<Rightarrow> string) \<Rightarrow> CoreError \<Rightarrow> (panic, ImportOutcomeReport) result" where
  "rejected_without_locator alnum sha256 err =
     and_then (record_fatal alnum (rejection_code err) ''[import root]'' None defect_ledger_new) (\<lambda>l.
       Inr (report_rejected sha256 stats_default l))"

definition rejected_from_error ::
  "(string \<Rightarrow> bool) \<Rightarrow> (string \<Rightarrow> string) \<Rightarrow> CoreError \<Rightarrow> (panic, ImportOutcomeReport) result" where
  "rejected_from_error alnum sha256 err =
     (case member_annotation (core_error_display err) of
        None \<Rightarrow> rejected_without_locator alnum sha256 err
      | Some identity \<Rightarrow>
          and_then (record_fatal alnum ArchiveUnreadable identity None defect_ledger_new) (\<lambda>l.
            Inr (report_rejected sha256 stats_default l)))"

definition invariants_hold :: "ImportOutcomeReport \<Rightarrow> bool" where
  "invariants_hold r =
     (case ior_class r of
        Complete \<Rightarrow> ior_published r \<and> ior_corpus_id r \<noteq> None \<and> ior_defects r = [] \<and> ior_defect_counts r = []
          \<and> sources_failed (ior_counts r) = 0 \<and> sources_excluded (ior_counts r) = 0
          \<and> records_malformed (ior_counts r) = 0
      | Partial \<Rightarrow> ior_published r \<and> ior_corpus_id r \<noteq> None
      | Rejected \<Rightarrow> \<not> ior_published r \<and> ior_corpus_id r = None \<and> sources_imported (ior_counts r) = 0
          \<and> records_imported (ior_counts r) = 0)"

text \<open>\<open>outcome_from_ingest\<close>: the report of a finished run is its corpus id and statistics.\<close>

definition outcome_from_ingest ::
  "(string \<Rightarrow> bool) \<Rightarrow> (string \<Rightarrow> string) \<Rightarrow> (CoreError, string \<times> IngestStats) result \<Rightarrow> IngestStats
     \<Rightarrow> (panic, ImportOutcomeReport) result" where
  "outcome_from_ingest alnum sha256 res aborted =
     (case res of
        Inr (corpus_id, st) \<Rightarrow> Inr (report_published sha256 corpus_id st (defects st))
      | Inl err \<Rightarrow>
          if ledger_is_empty (defects aborted) then rejected_without_locator alnum sha256 err
          else Inr (report_rejected sha256 aborted (defects aborted)))"

definition operator_import_error ::
  "(string \<Rightarrow> bool) \<Rightarrow> (string \<Rightarrow> string) \<Rightarrow> CoreError \<Rightarrow> (panic, string) result" where
  "operator_import_error alnum sha256 err =
     (let raw = core_error_display err; sealed = strip_member_annotation raw in
      if member_annotation raw = None then Inr sealed
      else and_then (rejected_from_error alnum sha256 err) (\<lambda>rejected.
        case ior_defects rejected of
          d # _ \<Rightarrow>
            if \<not> contains (sl_identity (d_source d)) MEMBER_ANNOTATION_MARKER
            then Inr (sealed @ '' (failing member: '' @ sl_identity (d_source d) @ '')'') else Inr sealed
        | [] \<Rightarrow> Inr sealed))"

end
