(* ===== verification/Import_Properties.thy ===== *)
theory Import_Properties
  imports Import_Outcome
begin

text \<open>
  The import result contract: annotations are read back exactly and never reach the operator, a locator
  has exactly the levels it lists, only a run without any loss is complete, and what a full ledger
  loses.
\<close>

section \<open>Annotations\<close>

lemma escaped_chars: "char_of (93 :: nat) = CHR '']''" "char_of (91 :: nat) = CHR ''[''" "char_of (37 :: nat) = CHR ''%''"
  by code_simp+

lemma decode_encode: "decode_member_identity (encode_member_identity s) = Some s"
proof (induction s)
  case (Cons c s)
  then show ?case
    by (simp add: encode_member_identity_def encode_char_def from_hex_def Let_def escaped_chars)
qed (simp add: encode_member_identity_def)

lemma encode_closed: "CHR '']'' \<notin> set (encode_member_identity s)"
  by (auto simp: encode_member_identity_def encode_char_def split: if_splits)

lemma encode_eq_Nil [simp]: "encode_member_identity s = [] \<longleftrightarrow> s = []"
proof -
  have "encode_char c \<noteq> []" for c by (simp add: encode_char_def)
  then show ?thesis by (cases s) (simp_all add: encode_member_identity_def)
qed

lemma open_marker: "MEMBER_ANNOTATION_OPEN = CHR '' '' # MEMBER_ANNOTATION_MARKER"
  by (simp add: MEMBER_ANNOTATION_OPEN_def MEMBER_ANNOTATION_MARKER_def)

lemma marker_chars:
  "CHR '' '' \<notin> set MEMBER_ANNOTATION_MARKER" "hd MEMBER_ANNOTATION_MARKER \<notin> set (tl MEMBER_ANNOTATION_MARKER)"
  "MEMBER_ANNOTATION_MARKER \<noteq> []" "CHR ''!'' \<notin> set MEMBER_ANNOTATION_MARKER" "CHR ''/'' \<notin> set MEMBER_ANNOTATION_MARKER"
  "CHR '')'' \<notin> set MEMBER_ANNOTATION_MARKER"
  by (simp_all add: MEMBER_ANNOTATION_MARKER_def)

lemma contains_Nil [simp]: "contains [] w \<longleftrightarrow> w = []"
  by (simp add: contains_def)

lemma contains_Cons_marker: "contains s (c # w) \<Longrightarrow> contains s w"
  unfolding contains_def by (meson sublist_Cons_right sublist_order.order_refl sublist_order.order_trans)

lemma annotation_read_back:
  assumes "\<not> contains msg MEMBER_ANNOTATION_MARKER" and "identity \<noteq> []"
  shows "member_annotation (annotate_member msg identity) = Some identity"
proof -
  have "\<not> contains msg MEMBER_ANNOTATION_OPEN" using assms(1) contains_Cons_marker open_marker by metis
  then have first: "find_str (msg @ MEMBER_ANNOTATION_OPEN @ rest) MEMBER_ANNOTATION_OPEN = Some (length msg)" for rest
    by (subst find_str_unique) (simp_all add: open_marker marker_chars)
  have close: "find_str (encode_member_identity identity @ [MEMBER_ANNOTATION_CLOSE] @ []) [MEMBER_ANNOTATION_CLOSE]
      = Some (length (encode_member_identity identity))"
    using encode_closed by (intro find_str_first) (simp_all add: MEMBER_ANNOTATION_CLOSE_def)
  show ?thesis
    using assms close
    by (simp add: annotate_member_def member_annotation_def first decode_encode marker_chars)
qed

lemma find_str_before: "find_str s p = Some i \<Longrightarrow> p \<noteq> [] \<Longrightarrow> \<not> contains (take i s) p"
proof (induction s p arbitrary: i rule: find_str.induct)
  case (2 c s p)
  show ?case
  proof (cases "prefix p (c # s)")
    case False
    then obtain j where j: "find_str s p = Some j" "i = Suc j" using "2.prems" by auto
    have "\<not> prefix p (c # take j s)"
      using False by (metis take_Suc_Cons take_is_prefix prefix_order.order_trans)
    then show ?thesis using 2 j False by (simp add: contains_def sublist_Cons_right)
  qed (use 2 in simp)
qed (auto split: if_splits)

lemma prefix_trim_end: "prefix (trim_end s) s"
proof -
  have "prefix (concat (drop_end P xs)) (concat xs)" for P and xs :: "string list"
    by (metis append_take_drop_id concat_append prefix_def drop_end_def rev_rev_ident rev_append takeWhile_dropWhile_id)
  then show ?thesis unfolding trim_end_def by (metis concat_utf8_chars)
qed

lemma strip_sealed: "\<not> contains (strip_member_annotation s) MEMBER_ANNOTATION_MARKER"
proof (cases "find_str s MEMBER_ANNOTATION_MARKER")
  case None
  then have "strip_member_annotation s = s" by (simp add: strip_member_annotation_def)
  with None show ?thesis by (simp add: find_str_None)
next
  case (Some at)
  define cut where "cut = (if at > 0 \<and> byte_at s (at - 1) = Some (CHR '' '') then at - 1 else at)"
  have "prefix (trim_end (take cut s)) (take at s)"
    using prefix_trim_end [of "take cut s"] take_is_prefix [of cut "take at s"]
    by (auto simp: cut_def min_def split: if_splits intro: prefix_order.order_trans)
  then show ?thesis
    using find_str_before [OF Some] marker_chars(3) contains_of_prefix Some
    by (auto simp: strip_member_annotation_def cut_def Let_def)
qed

lemma annotation_stripped:
  assumes "\<not> contains msg MEMBER_ANNOTATION_MARKER" and "identity \<noteq> []"
  shows "strip_member_annotation (annotate_member msg identity) = trim_end msg"
proof -
  have free: "\<not> contains (msg @ '' '') MEMBER_ANNOTATION_MARKER"
    using assms(1) contains_cut [of msg "CHR '' ''" "[]"] marker_chars by auto
  have "find_str ((msg @ '' '') @ MEMBER_ANNOTATION_MARKER @ rest) MEMBER_ANNOTATION_MARKER = Some (length msg + 1)" for rest
    using find_str_unique [OF marker_chars(2,3), of "msg @ '' ''" rest] free by simp
  then show ?thesis
    using assms by (simp add: annotate_member_def strip_member_annotation_def open_marker byte_at_def nth_append)
qed

section \<open>Locators\<close>

lemma set_concat_filter: "c \<in> set (concat (filter P us)) \<Longrightarrow> \<exists>u \<in> set us. P u \<and> c \<in> set u"
  by auto

lemma cont_byte_exclamation: "\<not> is_cont_byte (CHR ''!'')"
  by code_simp

lemma kept_exclamation: "CHR ''!'' \<notin> set (concat (filter kept_char (utf8_chars s)))"
proof
  assume "CHR ''!'' \<in> set (concat (filter kept_char (utf8_chars s)))"
  then obtain u where u: "u \<in> set (utf8_chars s)" "kept_char u" "CHR ''!'' \<in> set u" by auto
  from u(2) have "hd u \<noteq> CHR ''!''" by (simp add: kept_char_def)
  with u(3) have "CHR ''!'' \<in> set (tl u)" by (metis list.sel(1,3) list.set_cases set_ConsD)
  then show False using utf8_chars_tail [OF u(1)] cont_byte_exclamation by (auto simp: list_all_iff)
qed

lemma redact_basename_exclamation: "redact_basename alnum s = Inr b \<Longrightarrow> CHR ''!'' \<notin> set b"
proof -
  assume "redact_basename alnum s = Inr b"
  then obtain safe where b: "b = take_chars MAX_LOG_INGEST_EVIDENCE_BASENAME_CHARS
      (if trim (concat (filter kept_char (utf8_chars safe))) = [] \<or> resembles_private_host (trim (concat (filter kept_char (utf8_chars safe))))
       then redacted_basename else trim (concat (filter kept_char (utf8_chars safe))))"
    by (auto simp: redact_basename_def Let_def)
  have "CHR ''!'' \<notin> set redacted_basename" by (simp add: redacted_basename_def)
  moreover have "CHR ''!'' \<notin> set (trim (concat (filter kept_char (utf8_chars safe))))"
    using kept_exclamation set_trim by blast
  ultimately show ?thesis
    unfolding b using set_take_chars by (auto simp del: set_concat split: if_splits)
qed

text \<open>A level of a locator: no exclamation mark and no annotation marker.\<close>

definition clean_level :: "string \<Rightarrow> bool" where
  "clean_level s \<longleftrightarrow> CHR ''!'' \<notin> set s \<and> \<not> contains s MEMBER_ANNOTATION_MARKER"

lemma clean_constants: "clean_level redacted_basename" "clean_level ellipsis"
  unfolding clean_level_def by code_simp+

lemma redact_component_clean: "redact_component alnum s = Inr b \<Longrightarrow> clean_level b"
  using redact_basename_exclamation clean_constants(1)
  by (auto simp: redact_component_def forbid_member_marker_def clean_level_def split: if_splits)

lemma join_clean:
  "list_all clean_level xs \<Longrightarrow> sep \<in> {''/'', ''!/''} \<Longrightarrow> \<not> contains (join_with sep xs) MEMBER_ANNOTATION_MARKER"
  using contains_join [of sep xs MEMBER_ANNOTATION_MARKER] marker_chars by (auto simp: clean_level_def list_all_iff)

lemma join_exclamation: "list_all clean_level xs \<Longrightarrow> CHR ''!'' \<notin> set (join_with ''/'' xs)"
  by (induction xs rule: induct_list012) (auto simp: clean_level_def)

lemma redact_portable_path_clean:
  assumes "redact_portable_path alnum level = Inr s"
  shows "clean_level s"
proof -
  have joined: "clean_level (join_with ''/'' xs)" if "list_all clean_level xs" for xs
    using join_clean [OF that] join_exclamation [OF that] by (simp add: clean_level_def)
  have segments: "list_all clean_level ys" if "try_map (redact_component alnum) xs = Inr ys" for xs ys
    using try_map_Inr [OF that] redact_component_clean
    by (induction xs ys rule: list_all2_induct) auto
  have dropped: "list_all clean_level (ellipsis # drop n ys)" if "list_all clean_level ys" for n ys
    using that clean_constants(2) by (auto simp: list_all_iff dest: in_set_dropD)
  show ?thesis
  proof (cases "is_absolute_path level")
    case True
    then show ?thesis using assms redact_component_clean by (simp add: redact_portable_path_def)
  next
    case False
    then obtain ys where ys: "try_map (redact_component alnum)
        (filter (\<lambda>s. s \<noteq> [] \<and> s \<noteq> ''.'') (split_where path_sep level)) = Inr ys"
      and res: "(if ys = [] then redact_component alnum level
        else Inr (join_with ''/'' (if length ys > MAX_LOCATOR_PATH_SEGMENTS
          then ellipsis # drop (length ys - MAX_LOCATOR_PATH_SEGMENTS) ys else ys))) = Inr s"
      using assms by (auto simp: redact_portable_path_def)
    show ?thesis
      using res redact_component_clean [of alnum level s] joined [OF segments [OF ys]] joined [OF dropped [OF segments [OF ys]]]
      by (auto split: if_splits)
  qed
qed

lemma split_str_Nil: "split_str sep s \<noteq> []"
  by (subst split_str.simps) (simp split: option.splits)

lemma try_map_length: "try_map f xs = Inr ys \<Longrightarrow> length ys = length xs"
  using try_map_Inr list_all2_lengthD by fastforce

lemma from_identity_levels:
  assumes "from_identity alnum identity = Inr l"
  obtains leaf where "list_all clean_level (archive_chain l @ [leaf])" "sl_identity l = join_with ''!/'' (archive_chain l @ [leaf])"
    "length (archive_chain l) \<le> MAX_LOCATOR_ARCHIVE_CHAIN" "archive_depth l + 1 = length (split_str ''!/'' identity)"
proof -
  obtain levels where tried: "try_map (redact_portable_path alnum) (split_str ''!/'' identity) = Inr levels"
    and l: "l = locator_of_levels levels"
    using assms by (auto simp: from_identity_def ARCHIVE_MEMBER_SEPARATOR_def)
  have clean: "list_all clean_level levels"
    using try_map_Inr [OF tried] redact_portable_path_clean
    by (induction rule: list_all2_induct) auto
  have "levels \<noteq> []" using try_map_length [OF tried] split_str_Nil [of "''!/''" identity] by auto
  define chain where "chain = butlast levels"
  have parts: "list_all clean_level chain" "clean_level (last levels)" "length levels = length chain + 1"
    using clean \<open>levels \<noteq> []\<close> by (auto simp: chain_def list_all_iff dest: in_set_butlastD)
  have chain_l: "archive_chain l = (if length chain > MAX_LOCATOR_ARCHIVE_CHAIN
      then hd chain # drop (length chain - (MAX_LOCATOR_ARCHIVE_CHAIN - 1)) chain else chain)"
    and rest: "sl_identity l = join_with ''!/'' (archive_chain l @ [last levels])" "archive_depth l = length chain"
    by (simp_all add: l locator_of_levels_def chain_def Let_def ARCHIVE_MEMBER_SEPARATOR_def)
  have "list_all clean_level (archive_chain l)"
    using parts(1) in_set_dropD [of _ _ chain] hd_in_set [of chain]
    by (cases "chain = []") (auto simp: chain_l list_all_iff)
  moreover have "length (archive_chain l) \<le> MAX_LOCATOR_ARCHIVE_CHAIN"
    by (simp add: chain_l MAX_LOCATOR_ARCHIVE_CHAIN_def)
  ultimately show thesis
    using that [of "last levels"] parts rest try_map_length [OF tried] by simp
qed

section \<open>The operator's message\<close>

lemma member_suffix_sealed:
  assumes "\<not> contains s MEMBER_ANNOTATION_MARKER" and "\<not> contains identity MEMBER_ANNOTATION_MARKER"
  shows "\<not> contains (s @ '' (failing member: '' @ identity @ '')'') MEMBER_ANNOTATION_MARKER"
proof
  assume "contains (s @ '' (failing member: '' @ identity @ '')'') MEMBER_ANNOTATION_MARKER"
  then have "contains ''(failing'' MEMBER_ANNOTATION_MARKER \<or> contains ''member:'' MEMBER_ANNOTATION_MARKER
      \<or> contains (identity @ '')'') MEMBER_ANNOTATION_MARKER"
    using contains_cut [of s "CHR '' ''" "''(failing member: '' @ identity @ '')''"]
      contains_cut [of "''(failing''" "CHR '' ''" "''member: '' @ identity @ '')''"]
      contains_cut [of "''member:''" "CHR '' ''" "identity @ '')''"] assms(1) marker_chars(1) by auto
  moreover have "\<not> contains ''(failing'' MEMBER_ANNOTATION_MARKER" "\<not> contains ''member:'' MEMBER_ANNOTATION_MARKER"
    by code_simp+
  moreover have "\<not> contains (identity @ '')'') MEMBER_ANNOTATION_MARKER"
    using contains_cut [of identity "CHR '')''" "[]"] assms(2) marker_chars by auto
  ultimately show False by blast
qed

section \<open>Completeness\<close>

text \<open>What a run does to its statistics, besides the counters of the records.\<close>

datatype stats_step =
    Discover
  | Imported
  | Excluded string string
  | Failed string string
  | Ignored string string
  | Malformed string RecordLocation
  | Reject ImportDefectCode string

fun stats_apply :: "(string \<Rightarrow> bool) \<Rightarrow> IngestStats \<Rightarrow> stats_step \<Rightarrow> (panic, IngestStats) result" where
  "stats_apply alnum st Discover = Inr (stats_discover st)"
| "stats_apply alnum st Imported = Inr (stats_imported st)"
| "stats_apply alnum st (Excluded reason source) = stats_excluded alnum reason source st"
| "stats_apply alnum st (Failed reason source) = stats_failed alnum reason source st"
| "stats_apply alnum st (Ignored reason source) = stats_ignored alnum reason source st"
| "stats_apply alnum st (Malformed identity loc) =
     and_then (record_malformed_structured_record alnum identity loc (defects st)) (\<lambda>l. Inr (st\<lparr>defects := l\<rparr>))"
| "stats_apply alnum st (Reject code identity) = stats_reject alnum code identity st"

text \<open>Steps that lose nothing: intentional filtering by one of three reasons.\<close>

fun lossless :: "stats_step \<Rightarrow> bool" where
  "lossless Discover \<longleftrightarrow> True"
| "lossless Imported \<longleftrightarrow> True"
| "lossless (Ignored reason source) \<longleftrightarrow> reason \<in> {''directory'', ''hidden'', ''not_selected''}"
| "lossless _ \<longleftrightarrow> False"

definition clean_stats :: "IngestStats \<Rightarrow> bool" where
  "clean_stats st \<longleftrightarrow> dl_entries (defects st) = [] \<and> dl_counts (defects st) = [] \<and> failed_files st = 0
     \<and> excluded_files st = 0 \<and> malformed_records (defects st) = 0 \<and> \<not> st_partial st"

lemma bump_nonempty: "bump k m \<noteq> []"
proof -
  have "k \<in> set (map fst (bump k m))" unfolding bump_def bt_insert_keys by simp
  then show ?thesis by auto
qed

lemma ledger_push_counts:
  "ledger_push alnum code sev identity loc l = Inr l' \<Longrightarrow> dl_counts l' \<noteq> []"
  by (auto simp: ledger_push_def Let_def bump_nonempty split: if_splits)

lemma ledger_coalesce_counts:
  "ledger_push_coalescing alnum code sev identity loc l = Inr l' \<Longrightarrow> dl_counts l' \<noteq> []"
  by (auto simp: ledger_push_coalescing_def Let_def bump_nonempty split: if_splits option.splits)

lemma ignored_reasons: "from_ingest_reason reason = None \<longleftrightarrow> reason \<in> {''directory'', ''hidden'', ''not_selected''}"
  by (simp add: from_ingest_reason_def split: option.splits)

lemma omission_detail:
  assumes "record_omission_detail alnum reason source st = Inr st'"
  shows "excluded_files st' = excluded_files st" "failed_files st' = failed_files st" "st_partial st' = st_partial st"
    "from_ingest_reason reason = None \<Longrightarrow> defects st' = defects st"
    "from_ingest_reason reason \<noteq> None \<Longrightarrow> dl_counts (defects st') \<noteq> []"
  using assms ledger_push_counts
  by (fastforce simp: record_omission_detail_def record_ingest_reason_def Let_def split: if_splits option.splits)+

lemma step_clean:
  assumes "stats_apply alnum st step = Inr st'"
  shows "clean_stats st' \<longleftrightarrow> clean_stats st \<and> lossless step"
proof (cases step)
  case (Excluded reason source)
  then show ?thesis
    using assms omission_detail(1) [of alnum reason source]
    by (auto simp: stats_excluded_def record_omission_def clean_stats_def)
next
  case (Failed reason source)
  then show ?thesis
    using assms omission_detail(2) [of alnum reason source]
    by (auto simp: stats_failed_def record_omission_def clean_stats_def)
next
  case (Ignored reason source)
  then have "record_omission_detail alnum reason source (st\<lparr>ignored_files := ignored_files st + 1\<rparr>) = Inr st'"
    using assms by (simp add: stats_ignored_def)
  from omission_detail [OF this] show ?thesis
    using Ignored ignored_reasons [of reason] by (cases "from_ingest_reason reason = None") (auto simp: clean_stats_def)
next
  case (Malformed identity loc)
  then show ?thesis
    using assms ledger_coalesce_counts by (fastforce simp: record_malformed_structured_record_def clean_stats_def)
next
  case (Reject code identity)
  then show ?thesis
    using assms ledger_push_counts by (fastforce simp: stats_reject_def record_fatal_def clean_stats_def)
qed (use assms in \<open>auto simp: stats_discover_def stats_imported_def clean_stats_def\<close>)

lemma run_clean:
  "try_fold (stats_apply alnum) st steps = Inr st' \<Longrightarrow> clean_stats st' \<longleftrightarrow> clean_stats st \<and> list_all lossless steps"
proof (induction steps arbitrary: st)
  case (Cons step steps)
  then obtain st1 where "stats_apply alnum st step = Inr st1" "try_fold (stats_apply alnum) st1 steps = Inr st'"
    by (auto split: sum.splits)
  with Cons.IH step_clean show ?case by fastforce
qed simp

lemma class_of_stats:
  "ior_class (report_published sha256 corpus_id st (defects st)) = (if clean_stats st then Complete else Partial)"
  by (auto simp: report_published_def assemble_def ledger_finish_def Let_def clean_stats_def counts_from_def
      simp flip: set_empty2)

section \<open>A full ledger\<close>

lemma push_full:
  "MAX_IMPORT_DEFECTS \<le> length (dl_entries l) \<Longrightarrow>
     ledger_push alnum code sev identity loc l = Inr (l\<lparr>dl_counts := bump (code_as_str code) (dl_counts l), dl_truncated := True\<rparr>)"
  by (simp add: ledger_push_def Let_def)

text \<open>Entries that all report the same degraded member.\<close>

definition only_reports :: "string \<Rightarrow> ImportDefect list \<Rightarrow> bool" where
  "only_reports identity ds \<longleftrightarrow> list_all (\<lambda>d. d_severity d = Degraded \<and> sl_identity (d_source d) = identity) ds"

lemma excluded_step:
  assumes "from_identity alnum identity = Inr loc" and "sl_identity loc = identity"
    and "redact_message alnum (progress_basename identity) = Inr name"
    and "length (dl_entries (defects st)) < MAX_IMPORT_DEFECTS" and "only_reports identity (dl_entries (defects st))"
  obtains st' where "stats_apply alnum st (Excluded ''binary'' identity) = Inr st'"
    "length (dl_entries (defects st')) = Suc (length (dl_entries (defects st)))"
    "only_reports identity (dl_entries (defects st'))"
proof -
  have "from_ingest_reason ''binary'' = Some MemberBinary" by code_simp
  then show thesis
    using assms that
    by (cases "length (exclusion_examples st) < MAX_EXCLUSION_EXAMPLES")
      (auto simp: stats_excluded_def record_omission_def record_omission_detail_def record_ingest_reason_def
        ledger_push_def Let_def only_reports_def)
qed

lemma excluded_times:
  assumes "from_identity alnum identity = Inr loc" and "sl_identity loc = identity"
    and "redact_message alnum (progress_basename identity) = Inr name"
    and "length (dl_entries (defects st)) + n \<le> MAX_IMPORT_DEFECTS" and "only_reports identity (dl_entries (defects st))"
  obtains st' where "try_fold (stats_apply alnum) st (replicate n (Excluded ''binary'' identity)) = Inr st'"
    "length (dl_entries (defects st')) = length (dl_entries (defects st)) + n"
    "only_reports identity (dl_entries (defects st'))"
  using assms(4,5)
proof (induction n arbitrary: st thesis)
  case (Suc n)
  have "length (dl_entries (defects st)) < MAX_IMPORT_DEFECTS" using Suc.prems(2) by simp
  then obtain st1 where st1: "stats_apply alnum st (Excluded ''binary'' identity) = Inr st1"
    "length (dl_entries (defects st1)) = Suc (length (dl_entries (defects st)))"
    "only_reports identity (dl_entries (defects st1))"
    using excluded_step [OF assms(1-3) _ Suc.prems(3)] by blast
  then have "length (dl_entries (defects st1)) + n \<le> MAX_IMPORT_DEFECTS" using Suc.prems(2) by simp
  from Suc.IH [OF _ this st1(3)] obtain st' where
    "try_fold (stats_apply alnum) st1 (replicate n (Excluded ''binary'' identity)) = Inr st'"
    "length (dl_entries (defects st')) = length (dl_entries (defects st1)) + n"
    "only_reports identity (dl_entries (defects st'))" by blast
  then show ?case using st1 by (intro Suc.prems(1) [of st']) simp_all
qed simp

lemma rejected_defects: "ior_defects (report_rejected sha256 st l) = sort_key defect_key (dl_entries l)"
  by (simp add: report_rejected_def assemble_def ledger_finish_def Let_def)

section \<open>Properties\<close>

text \<open>C37: A failing member's identity survives the error message. Annotating a message that carries no
  marker with a non-empty identity is read back exactly, whatever brackets and percent signs the
  member name has; a second annotation changes nothing, so the innermost one stays; and stripping
  returns the original message up to trailing white space.\<close>

theorem annotation_roundtrip:
  assumes "\<not> contains msg MEMBER_ANNOTATION_MARKER" and "identity \<noteq> []"
  shows "member_annotation (annotate_member msg identity) = Some identity
    \<and> annotate_member (annotate_member msg identity) outer = annotate_member msg identity
    \<and> strip_member_annotation (annotate_member msg identity) = trim_end msg"
proof -
  have "contains (annotate_member msg identity) MEMBER_ANNOTATION_MARKER"
    using assms by (simp add: annotate_member_def open_marker contains_def sublist_def) (metis append.assoc append_Cons append_Nil)
  then have "annotate_member (annotate_member msg identity) outer = annotate_member msg identity"
    by (simp add: annotate_member_def [of "annotate_member msg identity"])
  then show ?thesis using annotation_read_back [OF assms] annotation_stripped [OF assms] by simp
qed

theorem annotation_roundtrip_witness:
  "member_annotation (annotate_member ''zip open'' ''a[member=x].zip'') = Some ''a[member=x].zip''
   \<and> strip_member_annotation (annotate_member ''zip open'' ''a[member=x].zip'') = ''zip open''"
proof -
  have "\<not> contains ''zip open'' MEMBER_ANNOTATION_MARKER" by code_simp
  moreover have "trim_end ''zip open'' = ''zip open''" by code_simp
  ultimately show ?thesis using annotation_roundtrip [of "''zip open''" "''a[member=x].zip''"] by simp
qed

text \<open>The operator never sees the transport marker, whatever the error and whatever names an archive
  has.\<close>

theorem operator_error_sealed:
  "case operator_import_error alnum sha256 err of
     Inl _ \<Rightarrow> True
   | Inr out \<Rightarrow> \<not> contains out MEMBER_ANNOTATION_MARKER"
  using strip_sealed member_suffix_sealed [OF strip_sealed]
  by (auto simp: operator_import_error_def Let_def and_then_def split: sum.splits list.splits)

text \<open>A locator has the levels it lists. For every source identity, the reported identity splits at
  \<open>!/\<close> into exactly the listed archive containers and one leaf, so that no scrubbed name can forge a
  level; at most four containers are listed, the depth counts all of the source's levels, and the
  annotation marker does not occur.\<close>

theorem locator_levels:
  "case from_identity alnum identity of
     Inl _ \<Rightarrow> True
   | Inr l \<Rightarrow> butlast (split_str ''!/'' (sl_identity l)) = archive_chain l
       \<and> length (archive_chain l) \<le> MAX_LOCATOR_ARCHIVE_CHAIN
       \<and> archive_depth l + 1 = length (split_str ''!/'' identity)
       \<and> \<not> contains (sl_identity l) MEMBER_ANNOTATION_MARKER"
proof (cases "from_identity alnum identity")
  case (Inr l)
  from Inr obtain leaf where leaf: "list_all clean_level (archive_chain l @ [leaf])"
    "sl_identity l = join_with ''!/'' (archive_chain l @ [leaf])" "length (archive_chain l) \<le> MAX_LOCATOR_ARCHIVE_CHAIN"
    "archive_depth l + 1 = length (split_str ''!/'' identity)" by (rule from_identity_levels)
  have "list_all (\<lambda>x. hd ''!/'' \<notin> set x) (archive_chain l @ [leaf])"
    using leaf(1) by (auto simp: clean_level_def list_all_iff)
  then have "split_str ''!/'' (sl_identity l) = archive_chain l @ [leaf]"
    unfolding leaf(2) by (intro split_join) simp_all
  then show ?thesis using leaf Inr join_clean [OF leaf(1), of "''!/''"] by simp
qed simp

text \<open>C14: Complete means nothing was lost. For every sequence of discoveries, imports, exclusions,
  failures, intentional omissions, malformed records and rejections, the published report is complete
  exactly when each step was a discovery, an import, or an omission for one of the three intentional
  reasons; in every other case it is partial; and the report satisfies its own invariants.\<close>

theorem outcome_complete_iff:
  "case try_fold (stats_apply alnum) stats_default steps of
     Inl _ \<Rightarrow> True
   | Inr st \<Rightarrow>
       (let r = report_published sha256 corpus_id st (defects st) in
        ior_class r = (if list_all lossless steps then Complete else Partial) \<and> invariants_hold r)"
proof (cases "try_fold (stats_apply alnum) stats_default steps")
  case (Inr st)
  have "clean_stats stats_default" by (simp add: clean_stats_def stats_default_def defect_ledger_new_def)
  then have cls: "ior_class (report_published sha256 corpus_id st (defects st)) = (if list_all lossless steps then Complete else Partial)"
    using run_clean [OF Inr] by (simp add: class_of_stats)
  have "invariants_hold (report_published sha256 corpus_id st (defects st))"
    by (auto simp: invariants_hold_def report_published_def assemble_def Let_def class_published_def split: prod.splits)
  with cls Inr show ?thesis by (simp add: Let_def)
qed simp

text \<open>A full ledger forgets what stopped the run. After 64 excluded members the ledger has no room for
  the defect that aborts the import: the rejected report lists only degraded defects, none of them
  about the archive that stopped it.\<close>

theorem full_ledger_forgets_fatal:
  "\<exists>st r. try_fold (stats_apply ascii_alnum) stats_default
       (replicate 64 (Excluded ''binary'' ''a.log'') @ [Reject ArchiveUnreadable ''b.zip'']) = Inr st
     \<and> outcome_from_ingest ascii_alnum sha256 (Inl err) st = Inr r
     \<and> ior_class r = Rejected \<and> length (ior_defects r) = 64
     \<and> list_all (\<lambda>d. d_severity d = Degraded \<and> sl_identity (d_source d) = ''a.log'') (ior_defects r)"
proof -
  obtain loc where loc: "from_identity ascii_alnum ''a.log'' = Inr loc" "sl_identity loc = ''a.log''"
  proof -
    have "from_identity ascii_alnum ''a.log''
        = Inr \<lparr>sl_identity = ''a.log'', archive_chain = [], sl_member = ''a.log'', archive_depth = 0\<rparr>" by code_simp
    then show thesis using that by simp
  qed
  have name: "redact_message ascii_alnum (progress_basename ''a.log'') = Inr ''a.log''" by code_simp
  have start: "length (dl_entries (defects stats_default)) + 64 \<le> MAX_IMPORT_DEFECTS"
    "only_reports ''a.log'' (dl_entries (defects stats_default))"
    by (simp_all add: stats_default_def defect_ledger_new_def MAX_IMPORT_DEFECTS_def only_reports_def)
  obtain st where st: "try_fold (stats_apply ascii_alnum) stats_default (replicate 64 (Excluded ''binary'' ''a.log'')) = Inr st"
    "length (dl_entries (defects st)) = 64" "only_reports ''a.log'' (dl_entries (defects st))"
    using excluded_times [OF loc name start] by (auto simp: stats_default_def defect_ledger_new_def)
  define l where "l = (defects st)\<lparr>dl_counts := bump ''archive_unreadable'' (dl_counts (defects st)), dl_truncated := True\<rparr>"
  have "stats_apply ascii_alnum st (Reject ArchiveUnreadable ''b.zip'') = Inr (st\<lparr>defects := l\<rparr>)"
    using push_full [of "defects st"] st(2)
    by (simp add: stats_reject_def record_fatal_def MAX_IMPORT_DEFECTS_def l_def and_then_def)
  then have run: "try_fold (stats_apply ascii_alnum) stats_default
      (replicate 64 (Excluded ''binary'' ''a.log'') @ [Reject ArchiveUnreadable ''b.zip'']) = Inr (st\<lparr>defects := l\<rparr>)"
    by (simp add: try_fold_append st(1))
  have "outcome_from_ingest ascii_alnum sha256 (Inl err) (st\<lparr>defects := l\<rparr>) = Inr (report_rejected sha256 (st\<lparr>defects := l\<rparr>) l)"
    by (simp add: outcome_from_ingest_def ledger_is_empty_def l_def bump_nonempty)
  moreover have "ior_class (report_rejected sha256 (st\<lparr>defects := l\<rparr>) l) = Rejected"
    by (simp add: report_rejected_def assemble_def Let_def split: prod.splits)
  moreover have "only_reports ''a.log'' (ior_defects (report_rejected sha256 (st\<lparr>defects := l\<rparr>) l))"
    "length (ior_defects (report_rejected sha256 (st\<lparr>defects := l\<rparr>) l)) = 64"
    using st(2,3) by (simp_all add: rejected_defects l_def only_reports_def list_all_iff)
  ultimately show ?thesis using run unfolding only_reports_def by blast
qed

end
