(* ===== verification/Log_Ingest.thy ===== *)
theory Log_Ingest
  imports Log_Frame Drain_Properties Import_Properties
begin

text \<open>
  The streaming core of log import: \<open>read_bounded_line\<close>, \<open>ingest_lines_from_reader\<close>,
  \<open>finished_raw_for_completion\<close> and \<open>ingest_framed_record\<close> of
  \<open>crates/cd-core/src/log_analysis/ingest.rs\<close>, with the timestamp vocabulary of \<open>parse.rs\<close> and the
  event of \<open>store.rs\<close>. It drives the components of the other log theories: physical lines go to
  the framer, raw records to the scrubber, messages to the template miner, defects to the ledger.

  Arguments of the model, collected in \<open>ingest_env\<close>: the line parser (\<open>parse_line_with_fingerprint\<close>;
  the theorems hold for every parser), the JSON check of \<open>serde_json\<close>, the store behind
  \<open>push_ingested_events\<close>, SHA-256, \<open>char::is_alphanumeric\<close>, the limits, and the cancel flag. The flag may
  be raised at any time: it is a function of the program points at which it is polled. A reader is the
  sequence of its \<open>fill_buf\<close> results. Progress events, timers and the confidence aggregator only
  observe and are left out. Integers are naturals: every one is bounded by the member size limit.
\<close>

section \<open>Timestamps, parsed lines and events\<close>

datatype TimestampProvenance = ExplicitWallClock | UnresolvedLocal | ProvenanceOrderOnly | ProvenanceLegacyUnknown

fun provenance_storage_str :: "TimestampProvenance \<Rightarrow> string" where
  "provenance_storage_str ExplicitWallClock = ''explicit_wall''"
| "provenance_storage_str UnresolvedLocal = ''unresolved_local''"
| "provenance_storage_str ProvenanceOrderOnly = ''order_only''"
| "provenance_storage_str ProvenanceLegacyUnknown = ''legacy_unknown''"

definition provenance_from_storage_str :: "string option \<Rightarrow> TimestampProvenance option" where
  "provenance_from_storage_str v =
     (if v = Some ''explicit_wall'' then Some ExplicitWallClock
      else if v = Some ''unresolved_local'' then Some UnresolvedLocal
      else if v = Some ''order_only'' then Some ProvenanceOrderOnly
      else if v = Some ''legacy_unknown'' \<or> v = None then Some ProvenanceLegacyUnknown
      else None)"

datatype ActiveTimestampBasis = ExplicitWall | ResolvedLocal | BasisOrderOnly | BasisLegacyUnknown

fun basis_storage_str :: "ActiveTimestampBasis \<Rightarrow> string" where
  "basis_storage_str ExplicitWall = ''explicit_wall''"
| "basis_storage_str ResolvedLocal = ''resolved_local''"
| "basis_storage_str BasisOrderOnly = ''order_only''"
| "basis_storage_str BasisLegacyUnknown = ''legacy_unknown''"

definition basis_from_storage_str :: "string option \<Rightarrow> ActiveTimestampBasis option" where
  "basis_from_storage_str v =
     (if v = Some ''explicit_wall'' then Some ExplicitWall
      else if v = Some ''resolved_local'' then Some ResolvedLocal
      else if v = Some ''order_only'' then Some BasisOrderOnly
      else if v = Some ''legacy_unknown'' \<or> v = None then Some BasisLegacyUnknown
      else None)"

datatype LogFormat = Json | Logfmt | Syslog | Plain

fun format_key :: "LogFormat \<Rightarrow> string" where
  "format_key Json = ''json''"
| "format_key Logfmt = ''logfmt''"
| "format_key Syslog = ''syslog''"
| "format_key Plain = ''plain''"

record ParsedLine =
  pl_ts :: "int option"
  pl_timestamp_provenance :: TimestampProvenance
  pl_active_timestamp_basis :: ActiveTimestampBasis
  pl_unresolved_local_timestamp :: "string option"
  pl_level :: string
  pl_service :: "string option"
  pl_host :: "string option"
  pl_trace_id :: "string option"
  pl_message :: string
  pl_raw :: string
  pl_format :: LogFormat

record LogEvent =
  le_seq :: nat
  le_ts :: int
  le_timestamp_provenance :: TimestampProvenance
  le_active_timestamp_basis :: ActiveTimestampBasis
  le_unresolved_local_timestamp :: "string option"
  le_level :: string
  le_service :: "string option"
  le_host :: "string option"
  le_template_id :: nat
  le_params :: "string list"
  le_trace_id :: "string option"
  le_message :: string
  le_source :: string

record IngestedLogEvent =
  ie_event :: LogEvent
  ie_original :: RedactedOriginal

section \<open>Environment and state\<close>

datatype instant = AtLine nat | AtRead nat nat | AtScan nat nat

datatype read_error_kind = InvalidData | Interrupted | OtherKind

datatype fill = Chunk string | ReadError read_error_kind string

record ingest_env =
  env_alnum :: "string \<Rightarrow> bool"
  env_parse :: "string \<Rightarrow> nat \<Rightarrow> ParsedLine"
  env_is_json :: "string \<Rightarrow> bool"
  env_persist :: "IngestedLogEvent list \<Rightarrow> IngestedLogEvent list \<Rightarrow> CoreError option"
  env_sha256 :: "string \<Rightarrow> string"
  env_cancelled :: "instant \<Rightarrow> bool"
  max_line_bytes :: nat
  max_file_bytes :: nat

record ingest_state =
  ig_miner :: DrainMiner
  ig_stats :: IngestStats
  ig_seq :: nat
  ig_batch :: "IngestedLogEvent list"
  ig_corpus :: "IngestedLogEvent list"

definition ingest_new :: ingest_state where
  "ingest_new = \<lparr>ig_miner = drain_default, ig_stats = stats_default, ig_seq = 0, ig_batch = [], ig_corpus = []\<rparr>"

text \<open>How a call can end other than normally.\<close>

datatype stop = Err CoreError | Panic

section \<open>Bounded lines\<close>

fun fill_weight :: "fill \<Rightarrow> nat" where
  "fill_weight (Chunk s) = Suc (length s)"
| "fill_weight (ReadError _ _) = 1"

definition reader_weight :: "fill list \<Rightarrow> nat" where
  "reader_weight fills = sum_list (map fill_weight fills)"

definition consume :: "nat \<Rightarrow> string \<Rightarrow> fill list \<Rightarrow> fill list" where
  "consume n available rest = (if n < length available then Chunk (drop n available) # rest else rest)"

definition through_newline :: "string \<Rightarrow> nat" where
  "through_newline available =
     (case find_str available [CHR 0x0A] of None \<Rightarrow> length available | Some position \<Rightarrow> position + 1)"

definition line_limit_error :: "nat \<Rightarrow> CoreError" where
  "line_limit_error n = Policy (''raw log line-length limit exceeded (>'' @ show_nat n @ '' bytes)'')"

fun read_error :: "read_error_kind \<Rightarrow> string \<Rightarrow> CoreError" where
  "read_error InvalidData e = Policy e"
| "read_error Interrupted e = Message e"
| "read_error OtherKind e = Message (''raw log source read failed: '' @ e)"

lemma through_newline_bounds: "s \<noteq> [] \<Longrightarrow> 0 < through_newline s \<and> through_newline s \<le> length s"
  by (auto simp: through_newline_def dest: find_str_length split: option.splits)

lemma consume_weight:
  assumes "available \<noteq> []"
  shows "reader_weight (consume (through_newline available) available rest) < reader_weight (Chunk available # rest)"
  using through_newline_bounds [OF assms] by (auto simp: consume_def reader_weight_def)

function read_bounded_line ::
  "ingest_env \<Rightarrow> nat \<Rightarrow> nat \<Rightarrow> fill list \<Rightarrow> string \<Rightarrow> nat \<Rightarrow> (CoreError, nat) result \<times> fill list \<times> string" where
  "read_bounded_line env line poll fills out acc =
     (if env_cancelled env (AtRead line poll) then (Inl Cancelled, fills, out)
      else case fills of
        [] \<Rightarrow> (Inr acc, [], out)
      | ReadError kind e # rest \<Rightarrow> (Inl (read_error kind e), rest, out)
      | Chunk available # rest \<Rightarrow>
          (if available = [] then (Inr acc, fills, out)
           else if length out + through_newline available > max_line_bytes env
           then (Inl (line_limit_error (max_line_bytes env)), fills, out)
           else
             (let n = through_newline available;
                  out' = out @ take n available;
                  fills' = consume n available rest
              in if available ! (n - 1) = CHR 0x0A then (Inr (acc + n), fills', out')
                 else read_bounded_line env line (Suc poll) fills' out' (acc + n))))"
  by pat_completeness auto
termination
  by (relation "measure (\<lambda>(env, line, poll, fills, out, acc). reader_weight fills)") (auto intro: consume_weight)

declare read_bounded_line.simps [simp del]

section \<open>Raw bytes beside the framer\<close>

definition finished_raw_for_completion :: "string \<Rightarrow> string \<Rightarrow> bool \<Rightarrow> string \<times> string" where
  "finished_raw_for_completion pending_raw physical_bytes includes_current =
     (if includes_current
      then ((if pending_raw = [] then physical_bytes else pending_raw @ CHR 0x0A # physical_bytes), [])
      else (pending_raw, physical_bytes))"

text \<open>One physical line: the finished raw record, if any, with the framer and the open raw bytes.\<close>

definition frame_raw_line ::
  "string \<Rightarrow> LogicalRecordFramer \<times> string \<Rightarrow> string option \<times> LogicalRecordFramer \<times> string" where
  "frame_raw_line physical_bytes fr =
     (case fr of (framer, pending_raw) \<Rightarrow>
       case push_line (from_utf8_lossy physical_bytes) framer of
         (Some logical, framer') \<Rightarrow>
           (case finished_raw_for_completion pending_raw physical_bytes (includes_pushed_line logical) of
              (finished, pending_raw') \<Rightarrow> (Some finished, framer', pending_raw'))
       | (None, framer') \<Rightarrow>
           (None, framer', (if pending_raw = [] then physical_bytes else pending_raw @ CHR 0x0A # physical_bytes)))"

section \<open>One record\<close>

definition min_opt :: "int option \<Rightarrow> int \<Rightarrow> int option" where
  "min_opt m t = Some (case m of None \<Rightarrow> t | Some m \<Rightarrow> min m t)"

definition max_opt :: "int option \<Rightarrow> int \<Rightarrow> int option" where
  "max_opt m t = Some (case m of None \<Rightarrow> t | Some m \<Rightarrow> max m t)"

definition count_parsed :: "ParsedLine \<Rightarrow> IngestStats \<Rightarrow> IngestStats" where
  "count_parsed parsed st =
     st\<lparr>timestamp_provenance_counts :=
          bump (provenance_storage_str (pl_timestamp_provenance parsed)) (timestamp_provenance_counts st),
        active_timestamp_basis_counts :=
          bump (basis_storage_str (pl_active_timestamp_basis parsed)) (active_timestamp_basis_counts st),
        format_counts := bump (format_key (pl_format parsed)) (format_counts st)\<rparr>"

definition count_time :: "int \<Rightarrow> string \<Rightarrow> IngestStats \<Rightarrow> IngestStats" where
  "count_time ts level st =
     st\<lparr>ts_min := min_opt (ts_min st) ts, ts_max := max_opt (ts_max st) ts,
        level_counts := bump (to_ascii_lowercase level) (level_counts st)\<rparr>"

definition event_of ::
  "ParsedLine \<Rightarrow> nat \<Rightarrow> int \<Rightarrow> nat \<Rightarrow> string list \<Rightarrow> string \<Rightarrow> string \<Rightarrow> RedactedOriginal \<Rightarrow> IngestedLogEvent" where
  "event_of parsed seq ts tid params msg source original =
     \<lparr>ie_event =
        \<lparr>le_seq = seq, le_ts = ts, le_timestamp_provenance = pl_timestamp_provenance parsed,
         le_active_timestamp_basis = pl_active_timestamp_basis parsed,
         le_unresolved_local_timestamp = pl_unresolved_local_timestamp parsed, le_level = pl_level parsed,
         le_service = pl_service parsed, le_host = pl_host parsed, le_template_id = tid, le_params = params,
         le_trace_id = pl_trace_id parsed, le_message = msg, le_source = source\<rparr>,
      ie_original = original\<rparr>"

text \<open>The tail of \<open>ingest_framed_record\<close>: the event joins the batch, and a full batch is stored.\<close>

definition push_event :: "ingest_env \<Rightarrow> IngestedLogEvent \<Rightarrow> ingest_state \<Rightarrow> (stop, unit) result \<times> ingest_state" where
  "push_event env ev st =
     (let st = st\<lparr>ig_batch := ig_batch st @ [ev], ig_seq := ig_seq st + 1,
                  ig_stats := (ig_stats st)\<lparr>st_lines := st_lines (ig_stats st) + 1\<rparr>\<rparr> in
      if length (ig_batch st) \<ge> 256
      then (case env_persist env (ig_corpus st) (ig_batch st) of
              Some e \<Rightarrow> (Inl (Err e), st)
            | None \<Rightarrow> (Inr (), st\<lparr>ig_corpus := ig_corpus st @ ig_batch st, ig_batch := []\<rparr>))
      else (Inr (), st))"

definition ingest_framed_record ::
  "ingest_env \<Rightarrow> string \<Rightarrow> string \<Rightarrow> ingest_state \<Rightarrow> (stop, unit) result \<times> ingest_state" where
  "ingest_framed_record env source logical_bytes st =
     (if length logical_bytes > max_line_bytes env then (Inl (Err (line_limit_error (max_line_bytes env))), st)
      else case prepare_original_record (env_alnum env) logical_bytes of
        Inl _ \<Rightarrow> (Inl Panic, st)
      | Inr prepared \<Rightarrow>
          if trim (parser_text prepared) = [] then (Inr (), st)
          else
            (let parsed = env_parse env (parser_text prepared) (ig_seq st);
                 st = st\<lparr>ig_stats := count_parsed parsed (ig_stats st)\<rparr> in
             case redact_message (env_alnum env) (pl_message parsed) of
               Inl _ \<Rightarrow> (Inl Panic, st)
             | Inr msg \<Rightarrow>
                 (let ts = (case pl_ts parsed of Some t \<Rightarrow> t | None \<Rightarrow> int (ig_seq st));
                      st = st\<lparr>ig_stats := count_time ts (pl_level parsed) (ig_stats st)\<rparr> in
                  case match_or_create_cancellable (\<lambda>i. env_cancelled env (AtScan (ig_seq st) i)) (ig_miner st)
                         msg ts (pl_level parsed) of
                    None \<Rightarrow> (Inl Panic, st)
                  | Some (Inl e, miner) \<Rightarrow> (Inl (Err e), st\<lparr>ig_miner := miner\<rparr>)
                  | Some (Inr (tid, params), miner) \<Rightarrow>
                      (let st = st\<lparr>ig_miner := miner\<rparr> in
                       case redact_params (env_alnum env) params of
                         Inl _ \<Rightarrow> (Inl Panic, st)
                       | Inr params \<Rightarrow>
                           push_event env (event_of parsed (ig_seq st) ts tid params msg source (stored prepared)) st))))"

section \<open>One member\<close>

definition is_json_lines_source :: "string \<Rightarrow> bool" where
  "is_json_lines_source identity =
     (let leaf = (case find (\<lambda>c. c \<noteq> []) (rev (split_where path_sep identity)) of None \<Rightarrow> [] | Some l \<Rightarrow> l);
          lower = to_ascii_lowercase leaf
      in ends_with lower ''.jsonl'' \<or> ends_with lower ''.ndjson'')"

definition on_ledger ::
  "(DefectLedger \<Rightarrow> (panic, DefectLedger) result) \<Rightarrow> ingest_state \<Rightarrow> (panic, ingest_state) result" where
  "on_ledger f st =
     and_then (f (defects (ig_stats st))) (\<lambda>l. Inr (st\<lparr>ig_stats := (ig_stats st)\<lparr>defects := l\<rparr>\<rparr>))"

definition check_json_line ::
  "ingest_env \<Rightarrow> string \<Rightarrow> string \<Rightarrow> nat \<Rightarrow> nat \<Rightarrow> ingest_state \<Rightarrow> (panic, ingest_state) result" where
  "check_json_line env source physical line offset st =
     (if is_json_lines_source source \<and> trim physical \<noteq> [] \<and> \<not> env_is_json env (trim physical)
      then on_ledger (record_malformed_structured_record (env_alnum env) source
             \<lparr>rl_line = line, byte_offset = offset\<rparr>) st
      else Inr st)"

record IngestSourceDigest =
  sd_source :: string
  content_digest :: string
  byte_length :: nat

text \<open>What the loop carries besides the shared state: the bytes hashed so far, the number of bytes
  and of physical lines read, the framer and the open raw record.\<close>

record member_cursor =
  mc_hashed :: string
  mc_read :: nat
  mc_line :: nat
  mc_frame :: "LogicalRecordFramer \<times> string"

definition cursor_new :: member_cursor where
  "cursor_new = \<lparr>mc_hashed = [], mc_read = 0, mc_line = 0, mc_frame = (framer_new, [])\<rparr>"

definition file_limit_error :: "nat \<Rightarrow> nat \<Rightarrow> CoreError" where
  "file_limit_error n limit =
     Policy (''raw log member actual-byte limit exceeded ('' @ show_nat n @ '' > '' @ show_nat limit @ '')'')"

definition finish_member ::
  "ingest_env \<Rightarrow> string \<Rightarrow> member_cursor \<Rightarrow> ingest_state \<Rightarrow> (stop, IngestSourceDigest) result \<times> ingest_state" where
  "finish_member env source c st =
     (let (r, st) = (case framer_finish (fst (mc_frame c)) of
            (Some _, _) \<Rightarrow> ingest_framed_record env source (snd (mc_frame c)) st
          | (None, _) \<Rightarrow> (Inr (), st)) in
      case r of
        Inl e \<Rightarrow> (Inl e, st)
      | Inr _ \<Rightarrow> (Inr \<lparr>sd_source = source, content_digest = ''sha256:'' @ env_sha256 env (mc_hashed c),
                      byte_length = mc_read c\<rparr>, st))"

text \<open>The body of the loop for a line of \<open>n > 0\<close> bytes.\<close>

definition ingest_line ::
  "ingest_env \<Rightarrow> string \<Rightarrow> string \<Rightarrow> nat \<Rightarrow> member_cursor \<Rightarrow> ingest_state \<Rightarrow> (stop, member_cursor) result \<times> ingest_state" where
  "ingest_line env source raw_line n c st =
     (let line = mc_line c + 1; read = mc_read c + n in
      if read > max_file_bytes env then (Inl (Err (file_limit_error read (max_file_bytes env))), st)
      else
        (let st = st\<lparr>ig_stats := (ig_stats st)\<lparr>st_source_bytes := st_source_bytes (ig_stats st) + n\<rparr>\<rparr>;
             physical_bytes = strip_cr (strip_lf raw_line) in
         case check_json_line env source (from_utf8_lossy physical_bytes) line (mc_read c) st of
           Inl _ \<Rightarrow> (Inl Panic, st)
         | Inr st \<Rightarrow>
             (case frame_raw_line physical_bytes (mc_frame c) of
                (record, frame) \<Rightarrow>
                  (let c = \<lparr>mc_hashed = mc_hashed c @ raw_line, mc_read = read, mc_line = line, mc_frame = frame\<rparr> in
                   case record of
                     None \<Rightarrow> (Inr c, st)
                   | Some finished \<Rightarrow>
                       (case ingest_framed_record env source finished st of
                          (Inl e, st) \<Rightarrow> (Inl e, st)
                        | (Inr _, st) \<Rightarrow> (Inr c, st))))))"

text \<open>The bytes of a reader up to its end, if it gets there without a read error.\<close>

fun source_bytes :: "fill list \<Rightarrow> string option" where
  "source_bytes [] = Some []"
| "source_bytes (Chunk s # rest) = (if s = [] then Some [] else map_option ((@) s) (source_bytes rest))"
| "source_bytes (ReadError _ _ # rest) = None"

lemma source_bytes_consume:
  assumes "s \<noteq> []"
  shows "source_bytes (Chunk s # rest) = map_option ((@) (take n s)) (source_bytes (consume n s rest))"
proof (cases "n < length s")
  case True
  then have "source_bytes (consume n s rest) = map_option ((@) (drop n s)) (source_bytes rest)"
    by (simp add: consume_def)
  then show ?thesis using assms by (simp add: option.map_comp comp_def flip: append_assoc)
qed (use assms in \<open>simp add: consume_def\<close>)

lemma read_line:
  assumes "read_bounded_line env line poll fills out acc = (Inr n, fills', out')"
  shows "\<exists>t. out' = out @ t \<and> n = acc + length t \<and> source_bytes fills = map_option ((@) t) (source_bytes fills')
    \<and> reader_weight fills' + (if t = [] then 0 else 1) \<le> reader_weight fills \<and> (t = [] \<longrightarrow> source_bytes fills' = Some [])"
  using assms
proof (induction env line poll fills out acc arbitrary: n fills' out' rule: read_bounded_line.induct)
  case (1 env line poll fills out acc)
  note run = "1.prems" [unfolded read_bounded_line.simps [of env line poll fills]]
  consider "fills = []" | k e rest where "fills = ReadError k e # rest" | rest where "fills = Chunk [] # rest"
    | s rest where "fills = Chunk s # rest" "s \<noteq> []" by (metis fill.exhaust neq_Nil_conv)
  then show ?case
  proof cases
    case (4 s rest)
    let ?n = "through_newline s" and ?rest = "consume (through_newline s) s rest"
    have n: "0 < ?n" "?n \<le> length s" using through_newline_bounds [OF 4(2)] by simp_all
    have bytes: "source_bytes fills = map_option ((@) (take ?n s)) (source_bytes ?rest)"
      unfolding 4(1) by (rule source_bytes_consume [OF 4(2)])
    have weight: "reader_weight ?rest < reader_weight fills" unfolding 4(1) by (rule consume_weight [OF 4(2)])
    have go: "\<not> env_cancelled env (AtRead line poll)" "\<not> max_line_bytes env < length out + ?n"
      using run 4 by (auto split: if_splits)
    show ?thesis
    proof (cases "s ! (?n - 1) = CHR 0x0A")
      case True
      then have "n = acc + ?n" "fills' = ?rest" "out' = out @ take ?n s" using run 4 go by (simp_all add: Let_def)
      then show ?thesis using bytes weight n 4(2) by (intro exI [of _ "take ?n s"]) simp
    next
      case False
      then have rec: "read_bounded_line env line (Suc poll) ?rest (out @ take ?n s) (acc + ?n) = (Inr n, fills', out')"
        using run 4 go by (simp add: Let_def)
      from "1.IH" [OF go(1) 4(1) refl 4(2) go(2) refl refl refl False this] obtain t where t:
        "out' = (out @ take ?n s) @ t" "n = (acc + ?n) + length t" "source_bytes ?rest = map_option ((@) t) (source_bytes fills')"
        "reader_weight fills' + (if t = [] then 0 else 1) \<le> reader_weight ?rest" by blast
      show ?thesis
        using t bytes weight n 4(2)
        by (intro exI [of _ "take ?n s @ t"]) (auto simp: option.map_comp comp_def)
    qed
  qed (use run in \<open>auto split: if_splits\<close>)
qed

lemma read_progress:
  "read_bounded_line env line 0 fills [] 0 = (Inr (Suc n), fills', raw) \<Longrightarrow> reader_weight fills' < reader_weight fills"
  using read_line [of env line 0 fills "[]" 0] by (fastforce split: if_splits)

function ingest_loop ::
  "ingest_env \<Rightarrow> string \<Rightarrow> fill list \<Rightarrow> member_cursor \<Rightarrow> ingest_state
     \<Rightarrow> (stop, IngestSourceDigest) result \<times> ingest_state" where
  "ingest_loop env source fills c st =
     (if env_cancelled env (AtLine (mc_line c)) then (Inl (Err Cancelled), st)
      else case read_bounded_line env (mc_line c) 0 fills [] 0 of
        (Inl e, _) \<Rightarrow>
          (if e = Cancelled then (Inl (Err Cancelled), st)
           else case on_ledger (record_fatal (env_alnum env) MemberReadFailed source
                    (Some \<lparr>rl_line = mc_line c + 1, byte_offset = mc_read c\<rparr>)) st of
             Inl _ \<Rightarrow> (Inl Panic, st)
           | Inr st \<Rightarrow> (Inl (Err e), st))
      | (Inr 0, _) \<Rightarrow> finish_member env source c st
      | (Inr (Suc n), fills', raw_line) \<Rightarrow>
          (case ingest_line env source raw_line (Suc n) c st of
             (Inl e, st) \<Rightarrow> (Inl e, st)
           | (Inr c, st) \<Rightarrow> ingest_loop env source fills' c st))"
  by pat_completeness auto
termination
  by (relation "measure (\<lambda>(env, source, fills, c, st). reader_weight fills)") (auto intro: read_progress [OF sym])

declare ingest_loop.simps [simp del]

definition ingest_lines_from_reader ::
  "ingest_env \<Rightarrow> string \<Rightarrow> fill list \<Rightarrow> ingest_state \<Rightarrow> (stop, IngestSourceDigest) result \<times> ingest_state" where
  "ingest_lines_from_reader env source fills st = ingest_loop env source fills cursor_new st"

end
