(* ===== verification/Ingest_Properties.thy ===== *)
theory Ingest_Properties
  imports Log_Ingest
begin

text \<open>
  The streaming import end to end: the raw bytes of a record are those of the framed text, the events
  are numbered without gaps, scrubbed and instances of their templates, and the digest of a member
  covers all of its bytes.
\<close>

section \<open>Raw records and framed records\<close>

definition joined :: "string \<Rightarrow> string \<Rightarrow> string" where
  "joined p l = (if p = [] then l else p @ CHR 0x0A # l)"

definition follows_push :: "string \<Rightarrow> string \<Rightarrow> FramedRecord option \<times> LogicalRecordFramer \<Rightarrow> bool" where
  "follows_push p l res =
     (case fst res of
        None \<Rightarrow> pending (snd res) = joined p l
      | Some r \<Rightarrow> if includes_pushed_line r then fr_text r = joined p l \<and> pending (snd res) = []
                  else fr_text r = p \<and> pending (snd res) = l)"

lemma pending_append [simp]: "pending (append_line l f) = joined (pending f) l"
  by (simp add: joined_def)

lemma follows_take_including:
  "pending g = joined p l \<Longrightarrow> follows_push p l (take_pending True t g)"
  by (auto simp: follows_push_def take_pending_def)

lemma follows_take_before:
  "pending f = p \<Longrightarrow> follows_push p l (case take_pending False t f of (r, g) \<Rightarrow> (r, start_new l g))"
  by (auto simp: follows_push_def take_pending_def joined_def)

lemma follows_close: "pending g = joined p l \<Longrightarrow> follows_push p l (close_if_over_bound_including g)"
  by (auto simp: follows_push_def close_if_over_bound_including_def)

lemma push_line_follows: "follows_push (pending f) (strip_cr l) (push_line l f)"
  unfolding push_line_def Let_def
  by (auto intro!: follows_take_including follows_take_before follows_close simp del: append_line_simps)
     (auto simp: follows_push_def joined_def)

lemma lossy_joined: "from_utf8_lossy (joined p l) = joined (from_utf8_lossy p) (from_utf8_lossy l)"
  by (simp add: joined_def from_utf8_lossy_newline)

text \<open>One line keeps the open raw bytes and the framer's pending text together.\<close>

lemma frame_raw_line_step:
  assumes "pending f = from_utf8_lossy raw" and "strip_cr (from_utf8_lossy bytes) = from_utf8_lossy bytes"
    and "push_line (from_utf8_lossy bytes) f = (r, f')" and "frame_raw_line bytes (f, raw) = (out, f'', raw')"
  shows "f'' = f' \<and> pending f' = from_utf8_lossy raw'
    \<and> map_option from_utf8_lossy out = map_option fr_text r"
  using push_line_follows [of f "from_utf8_lossy bytes"] assms lossy_joined [of raw bytes]
  by (auto simp: frame_raw_line_def finished_raw_for_completion_def follows_push_def joined_def
      split: option.splits if_splits prod.splits)

text \<open>All records of a member whose physical lines are given.\<close>

fun raw_records :: "string list \<Rightarrow> LogicalRecordFramer \<times> string \<Rightarrow> string list" where
  "raw_records [] fr = (case framer_finish (fst fr) of (Some _, _) \<Rightarrow> [snd fr] | (None, _) \<Rightarrow> [])"
| "raw_records (l # ls) fr =
     (case frame_raw_line l fr of (out, fr') \<Rightarrow> (case out of None \<Rightarrow> [] | Some x \<Rightarrow> [x]) @ raw_records ls fr')"

lemma frame_loop_out: "frame_loop ls f out = out @ frame_loop ls f []"
proof (induction ls arbitrary: f out)
  case (Cons l ls)
  obtain r g where "push_line l f = (r, g)" by force
  then show ?case using Cons [of g "out @ emitted r"] Cons [of g "emitted r"] by simp
qed simp

lemma raw_records_framed:
  assumes "pending f = from_utf8_lossy raw" and "list_all (\<lambda>l. strip_cr (from_utf8_lossy l) = from_utf8_lossy l) ls"
  shows "map from_utf8_lossy (raw_records ls (f, raw)) = map fr_text (frame_loop (map from_utf8_lossy ls) f [])"
  using assms
proof (induction ls arbitrary: f raw)
  case Nil
  then show ?case by (auto simp: framer_finish_def take_pending_def emitted_def)
next
  case (Cons l ls)
  obtain r g where push: "push_line (from_utf8_lossy l) f = (r, g)" by force
  obtain out g' raw' where step: "frame_raw_line l (f, raw) = (out, g', raw')" by (metis prod_cases3)
  have "g' = g \<and> pending g = from_utf8_lossy raw' \<and> map_option from_utf8_lossy out = map_option fr_text r"
    using frame_raw_line_step [OF Cons.prems(1) _ push step] Cons.prems(2) by simp
  then show ?case
    using Cons.IH [of g raw'] Cons.prems(2) frame_loop_out [of "map from_utf8_lossy ls" g "emitted r"]
    by (auto simp: push step emitted_def split: option.splits)
qed

section \<open>The invariant of the shared state\<close>

definition events :: "ingest_state \<Rightarrow> IngestedLogEvent list" where
  "events st = ig_corpus st @ ig_batch st"

definition event_scrubbed :: "IngestedLogEvent \<Rightarrow> bool" where
  "event_scrubbed ev \<longleftrightarrow> token_free (le_message (ie_event ev)) \<and> list_all token_free (le_params (ie_event ev))
     \<and> token_free (ro_text (ie_original ev)) \<and> length (ro_text (ie_original ev)) \<le> MAX_ORIGINAL_REDACTED_BYTES"

definition accepted :: "(string \<times> drain_result) list \<Rightarrow> (string \<times> nat) list" where
  "accepted log = concat (map (\<lambda>(msg, r). case r of Inl _ \<Rightarrow> [] | Inr (k, _) \<Rightarrow> [(msg, k)]) log)"

lemma accepted_member: "(msg, k) \<in> set (accepted log) \<Longrightarrow> \<exists>ps. (msg, Inr (k, ps)) \<in> set log"
  by (auto simp: accepted_def split: sum.splits)

lemma accepted_count: "length (filter (assigned_to k) log) = length (filter (\<lambda>x. snd x = k) (accepted log))"
  by (induction log) (auto simp: accepted_def assigned_to_def split: sum.splits)

definition templated :: "IngestedLogEvent \<Rightarrow> string \<times> nat" where
  "templated ev = (le_message (ie_event ev), le_template_id (ie_event ev))"

definition ingest_ok :: "ingest_state \<Rightarrow> bool" where
  "ingest_ok st \<longleftrightarrow> map (le_seq \<circ> ie_event) (events st) = [0..<ig_seq st] \<and> st_lines (ig_stats st) = ig_seq st
     \<and> list_all event_scrubbed (events st)
     \<and> (\<exists>log. drain_ok log (ig_miner st) \<and> accepted log = map templated (events st))"

text \<open>Statistics other than the number of records do not matter.\<close>

lemma ingest_ok_stats:
  "st_lines s = st_lines (ig_stats st) \<Longrightarrow> ingest_ok (st\<lparr>ig_stats := s\<rparr>) \<longleftrightarrow> ingest_ok st"
  by (simp add: ingest_ok_def events_def)

lemma count_lines [simp]:
  "st_lines (count_parsed p s) = st_lines s" "st_lines (count_time t l s) = st_lines s"
  by (simp_all add: count_parsed_def count_time_def)

lemma push_event_ok:
  assumes "map (le_seq \<circ> ie_event) (events st) = [0..<ig_seq st]" "st_lines (ig_stats st) = ig_seq st"
    "list_all event_scrubbed (events st)" "drain_ok log (ig_miner st)" "accepted log = map templated (events st) @ [templated ev]"
    "le_seq (ie_event ev) = ig_seq st" "event_scrubbed ev"
  shows "ingest_ok (snd (push_event env ev st))"
proof -
  obtain st' where st': "snd (push_event env ev st) = st'" "events st' = events st @ [ev]" "ig_seq st' = Suc (ig_seq st)"
    "st_lines (ig_stats st') = Suc (st_lines (ig_stats st))" "ig_miner st' = ig_miner st"
    by (auto simp: push_event_def events_def Let_def split: option.splits)
  show ?thesis
    unfolding st'(1) ingest_ok_def st'(2-5) using assms by auto
qed

text \<open>A record that does not panic is refused or blank and changes only statistics, is refused by the
  miner, or becomes an event.\<close>

lemma framed_record_cases:
  assumes run: "ingest_framed_record env source bytes st = (r, st')" and np: "r \<noteq> Inl Panic"
  obtains "st' = st"
  | prepared parsed msg ts st1 where
      "prepare_original_record (env_alnum env) bytes = Inr prepared"
      "redact_message (env_alnum env) (pl_message parsed) = Inr msg"
      "st1 = st\<lparr>ig_stats := count_time ts (pl_level parsed) (count_parsed parsed (ig_stats st))\<rparr>"
      "case match_or_create_cancellable (\<lambda>i. env_cancelled env (AtScan (ig_seq st) i)) (ig_miner st) msg ts (pl_level parsed) of
         None \<Rightarrow> False
       | Some (Inl e, miner) \<Rightarrow> st' = st1\<lparr>ig_miner := miner\<rparr>
       | Some (Inr (tid, params), miner) \<Rightarrow> (\<exists>params'. redact_params (env_alnum env) params = Inr params'
           \<and> st' = snd (push_event env (event_of parsed (ig_seq st) ts tid params' msg source (stored prepared)) (st1\<lparr>ig_miner := miner\<rparr>)))"
proof (cases "length bytes > max_line_bytes env")
  case True
  then show thesis using run that(1) by (simp add: ingest_framed_record_def)
next
  case False
  then obtain prepared where prepared: "prepare_original_record (env_alnum env) bytes = Inr prepared"
    using run np by (cases "prepare_original_record (env_alnum env) bytes") (auto simp: ingest_framed_record_def)
  show thesis
  proof (cases "trim (parser_text prepared) = []")
    case True
    then show thesis using run that(1) prepared False by (simp add: ingest_framed_record_def)
  next
    case nonempty: False
    define parsed where "parsed = env_parse env (parser_text prepared) (ig_seq st)"
    define ts where "ts = (case pl_ts parsed of Some t \<Rightarrow> t | None \<Rightarrow> int (ig_seq st))"
    obtain msg where msg: "redact_message (env_alnum env) (pl_message parsed) = Inr msg"
      using run np False prepared nonempty
      by (cases "redact_message (env_alnum env) (pl_message parsed)")
        (auto simp: ingest_framed_record_def parsed_def Let_def)
    have eq: "ingest_framed_record env source bytes st =
      (let st1 = st\<lparr>ig_stats := count_time ts (pl_level parsed) (count_parsed parsed (ig_stats st))\<rparr> in
       case match_or_create_cancellable (\<lambda>i. env_cancelled env (AtScan (ig_seq st) i)) (ig_miner st) msg ts (pl_level parsed) of
         None \<Rightarrow> (Inl Panic, st1)
       | Some (Inl e, miner) \<Rightarrow> (Inl (Err e), st1\<lparr>ig_miner := miner\<rparr>)
       | Some (Inr (tid, params), miner) \<Rightarrow>
           (case redact_params (env_alnum env) params of
              Inl _ \<Rightarrow> (Inl Panic, st1\<lparr>ig_miner := miner\<rparr>)
            | Inr params' \<Rightarrow> push_event env (event_of parsed (ig_seq st) ts tid params' msg source (stored prepared))
                (st1\<lparr>ig_miner := miner\<rparr>)))"
      using False prepared nonempty msg unfolding ingest_framed_record_def Let_def
      by (cases "pl_ts parsed")
        (simp_all add: ts_def flip: parsed_def cong: option.case_cong sum.case_cong prod.case_cong)
    show thesis
      using run np unfolding eq Let_def
      by (intro that(2) [OF prepared msg refl, of ts]) (auto split: option.splits sum.splits)
  qed
qed

lemma framed_record_ok:
  assumes ok: "ingest_ok st" and run: "ingest_framed_record env source bytes st = (r, st')" and np: "r \<noteq> Inl Panic"
  shows "ingest_ok st'"
  using run np
proof (cases rule: framed_record_cases)
  case (2 prepared parsed msg ts st1)
  let ?cancel = "\<lambda>i. env_cancelled env (AtScan (ig_seq st) i)"
  have st1: "ingest_ok st1" "events st1 = events st" "ig_miner st1 = ig_miner st" "ig_seq st1 = ig_seq st"
    using ok by (simp_all add: 2(3) ingest_ok_stats events_def)
  then obtain log where log: "drain_ok log (ig_miner st)" "accepted log = map templated (events st)"
    by (auto simp: ingest_ok_def)
  obtain res miner where match: "match_or_create_cancellable ?cancel (ig_miner st) msg ts (pl_level parsed) = Some (res, miner)"
    and drain: "drain_ok (log @ [(msg, res)]) miner" and same: "\<And>e. res = Inl e \<Longrightarrow> miner = ig_miner st"
    using match_or_create_ok [OF log(1), where cancel = ?cancel and msg = msg and ts = ts and level = "pl_level parsed"]
    by blast
  show ?thesis
  proof (cases res)
    case (Inl e)
    then have "st' = st1\<lparr>ig_miner := ig_miner st1\<rparr>" using 2(4) match same st1(3) by simp
    then show ?thesis using st1(1) by (simp add: ingest_ok_def events_def)
  next
    case (Inr acc)
    obtain tid params where acc: "acc = (tid, params)" by (cases acc)
    then obtain params' where params: "redact_params (env_alnum env) params = Inr params'"
      and st': "st' = snd (push_event env (event_of parsed (ig_seq st) ts tid params' msg source (stored prepared)) (st1\<lparr>ig_miner := miner\<rparr>))"
      using 2(4) match Inr by auto
    let ?ev = "event_of parsed (ig_seq st) ts tid params' msg source (stored prepared)"
    have "event_scrubbed ?ev"
      using redact_message_token_free [OF 2(2)] redact_params_token_free [OF params] prepare_original_token_free [OF 2(1)]
      by (simp add: event_scrubbed_def event_of_def)
    moreover have "accepted (log @ [(msg, res)]) = map templated (events st1) @ [templated ?ev]"
      using log(2) st1(2) by (simp add: accepted_def Inr acc templated_def event_of_def)
    moreover have "events (st1\<lparr>ig_miner := miner\<rparr>) = events st1" by (simp add: events_def)
    moreover have "le_seq (ie_event ?ev) = ig_seq st" by (simp add: event_of_def)
    ultimately show ?thesis
      using st1(1,4) drain unfolding st'
      by (intro push_event_ok [where log = "log @ [(msg, res)]"]) (simp_all add: ingest_ok_def)
  qed
qed (use ok in simp)

section \<open>Members\<close>

lemma on_ledger_ok: "ingest_ok st \<Longrightarrow> on_ledger f st = Inr st' \<Longrightarrow> ingest_ok st'"
  by (auto simp: on_ledger_def ingest_ok_stats)

lemma ingest_line_ok:
  assumes ok: "ingest_ok st" and run: "ingest_line env source raw n c st = (r, st')" and np: "r \<noteq> Inl Panic"
  shows "ingest_ok st'"
proof -
  let ?st1 = "st\<lparr>ig_stats := (ig_stats st)\<lparr>st_source_bytes := st_source_bytes (ig_stats st) + n\<rparr>\<rparr>"
  have ok1: "ingest_ok ?st1" using ok by (simp add: ingest_ok_stats)
  have check: "ingest_ok st2" if "check_json_line env source p l off ?st1 = Inr st2" for p l off st2
    using that ok1 on_ledger_ok by (auto simp: check_json_line_def split: if_splits)
  show ?thesis
    using run np ok check framed_record_ok
    by (fastforce simp: ingest_line_def Let_def split: if_splits sum.splits prod.splits option.splits)
qed

lemma finish_member_ok:
  assumes "ingest_ok st" and "finish_member env source c st = (r, st')" and "r \<noteq> Inl Panic"
  shows "ingest_ok st'"
  using assms framed_record_ok
  by (fastforce simp: finish_member_def Let_def split: sum.splits prod.splits option.splits)

lemma ingest_loop_ok:
  assumes "ingest_ok st" and "ingest_loop env source fills c st = (r, st')" and "r \<noteq> Inl Panic"
  shows "ingest_ok st'"
  using assms
proof (induction env source fills c st arbitrary: r st' rule: ingest_loop.induct)
  case (1 env source fills c st)
  note run = "1.prems"(2) [unfolded ingest_loop.simps [of env source fills c st]]
  show ?case
  proof (cases "read_bounded_line env (mc_line c) 0 fills [] 0")
    case read: (fields res fills' raw)
    consider "env_cancelled env (AtLine (mc_line c))"
      | e where "res = Inl e" "\<not> env_cancelled env (AtLine (mc_line c))"
      | "res = Inr 0" "\<not> env_cancelled env (AtLine (mc_line c))"
      | n where "res = Inr (Suc n)" "\<not> env_cancelled env (AtLine (mc_line c))"
      by (metis not0_implies_Suc old.sum.exhaust)
    then show ?thesis
    proof cases
      case 1
      then show ?thesis using run "1.prems"(1) by simp
    next
      case (2 e)
      then have "st' = st \<or> (\<exists>loc. on_ledger (record_fatal (env_alnum env) MemberReadFailed source loc) st = Inr st')"
        using run read "1.prems"(3) by (auto split: if_splits sum.splits)
      then show ?thesis using "1.prems"(1) on_ledger_ok by blast
    next
      case 3
      then show ?thesis using run read finish_member_ok [OF "1.prems"(1) _ "1.prems"(3)] by simp
    next
      case (4 n)
      note n = 4(1) and nc = 4(2)
      obtain r1 st1 where line: "ingest_line env source raw (Suc n) c st = (r1, st1)" by force
      show ?thesis
      proof (cases r1)
        case (Inl e)
        then show ?thesis using run read n nc line ingest_line_ok [OF "1.prems"(1) line] "1.prems"(3) by auto
      next
        case (Inr c')
        have "ingest_ok st1" using ingest_line_ok [OF "1.prems"(1) line] Inr by simp
        then show ?thesis
          using "1.IH" [OF nc read [symmetric] n refl refl line [symmetric] Inr _ _ "1.prems"(3)] run read n nc line Inr by simp
      qed
    qed
  qed
qed

text \<open>The members of one import, in the order in which they are read.\<close>

fun ingest_members ::
  "ingest_env \<Rightarrow> (string \<times> fill list) list \<Rightarrow> ingest_state \<Rightarrow> (stop, IngestSourceDigest list) result \<times> ingest_state" where
  "ingest_members env [] st = (Inr [], st)"
| "ingest_members env ((source, fills) # ms) st =
     (case ingest_lines_from_reader env source fills st of
        (Inl e, st) \<Rightarrow> (Inl e, st)
      | (Inr d, st) \<Rightarrow>
          (case ingest_members env ms st of
             (Inl e, st) \<Rightarrow> (Inl e, st)
           | (Inr ds, st) \<Rightarrow> (Inr (d # ds), st)))"

lemma ingest_members_ok:
  "ingest_ok st \<Longrightarrow> ingest_members env ms st = (r, st') \<Longrightarrow> r \<noteq> Inl Panic \<Longrightarrow> ingest_ok st'"
proof (induction env ms st arbitrary: r st' rule: ingest_members.induct)
  case (2 env source fills ms st)
  obtain r1 st1 where one: "ingest_loop env source fills cursor_new st = (r1, st1)" by force
  have ok1: "r1 \<noteq> Inl Panic \<Longrightarrow> ingest_ok st1" using ingest_loop_ok [OF "2.prems"(1) one] .
  show ?case
  proof (cases r1)
    case (Inl e)
    then show ?thesis using "2.prems" one ok1 by (auto simp: ingest_lines_from_reader_def)
  next
    case (Inr d)
    obtain r2 st2 where rest: "ingest_members env ms st1 = (r2, st2)" by force
    have "r2 \<noteq> Inl Panic \<Longrightarrow> ingest_ok st2"
      using "2.IH" [OF one [folded ingest_lines_from_reader_def, symmetric] Inr _ rest] ok1 Inr by simp
    then show ?thesis
      using "2.prems" one Inr rest by (cases r2) (auto simp: ingest_lines_from_reader_def)
  qed
qed simp

lemma ingest_ok_new: "ingest_ok ingest_new"
  using drain_ok_new
  by (auto simp: ingest_ok_def ingest_new_def events_def stats_default_def drain_default_def accepted_def intro: exI [of _ "[]"])

section \<open>The digest\<close>

lemma ingest_line_cursor:
  "ingest_line env source raw n c st = (Inr c', st') \<Longrightarrow> mc_hashed c' = mc_hashed c @ raw \<and> mc_read c' = mc_read c + n"
  by (auto simp: ingest_line_def Let_def split: if_splits sum.splits prod.splits option.splits)

lemma ingest_loop_digest:
  assumes "ingest_loop env source fills c st = (Inr d, st')" and "mc_read c = length (mc_hashed c)"
  shows "\<exists>bs. source_bytes fills = Some bs \<and> byte_length d = length (mc_hashed c @ bs)
    \<and> content_digest d = ''sha256:'' @ env_sha256 env (mc_hashed c @ bs) \<and> sd_source d = source"
  using assms
proof (induction env source fills c st arbitrary: rule: ingest_loop.induct)
  case (1 env source fills c st)
  note run = "1.prems"(1) [unfolded ingest_loop.simps [of env source fills c st]]
  show ?case
  proof (cases "read_bounded_line env (mc_line c) 0 fills [] 0")
    case read: (fields res fills' raw)
    consider "res = Inr 0" "\<not> env_cancelled env (AtLine (mc_line c))"
      | n c' st1 where "res = Inr (Suc n)" "\<not> env_cancelled env (AtLine (mc_line c))"
          "ingest_line env source raw (Suc n) c st = (Inr c', st1)" "ingest_loop env source fills' c' st1 = (Inr d, st')"
      using run read by (auto split: if_splits sum.splits prod.splits nat.splits)
    then show ?thesis
    proof cases
      case 1
      then have "source_bytes fills = Some []" using read read_line by fastforce
      moreover have "finish_member env source c st = (Inr d, st')" using run read 1 by simp
      ultimately show ?thesis
        using "1.prems"(2) by (auto simp: finish_member_def Let_def split: sum.splits prod.splits option.splits)
    next
      case (2 n c' st1)
      have raw: "length raw = Suc n" "source_bytes fills = map_option ((@) raw) (source_bytes fills')"
        using read_line [of env "mc_line c" 0 fills "[]" 0] read 2(1) by auto
      have c': "mc_hashed c' = mc_hashed c @ raw" "mc_read c' = length (mc_hashed c')"
        using ingest_line_cursor [OF 2(3)] "1.prems"(2) raw(1) by simp_all
      from "1.IH" [OF 2(2) read [symmetric] 2(1) refl refl 2(3) [symmetric] refl 2(4) c'(2)] show ?thesis
        using raw(2) c'(1) by auto
    qed
  qed
qed

section \<open>Known tokens\<close>

definition no_known_token :: "string \<Rightarrow> bool" where
  "no_known_token s \<longleftrightarrow>
     \<not> (\<exists>t. length t = 16 \<and> list_all upper_digit t \<and> contains s (''AKIA'' @ t))
     \<and> \<not> (\<exists>p \<in> {''ghp_'', ''gho_'', ''ghu_'', ''ghs_'', ''ghr_'', ''github_pat_''}. \<exists>t. length t = 20 \<and> list_all word_char t \<and> contains s (p @ t))
     \<and> \<not> (\<exists>p \<in> {''sk-'', ''xai-''}. \<exists>t. length t = 8 \<and> list_all key_char t \<and> contains s (p @ t))
     \<and> \<not> (\<exists>c. bearer_char c \<and> contains s (''Bearer '' @ [c]))"

lemma token_free_known:
  assumes "token_free s"
  shows "no_known_token s"
proof -
  have free: "\<not> contains s (p @ t)" if "(p, P, n) \<in> set secret_kinds" "length t = n" "list_all P t" for p P n t
    using assms that unfolding token_free_def secret_word_def by blast
  show ?thesis
    unfolding no_known_token_def github_prefix_set
    using free [of "''AKIA''" upper_digit 16] free [of _ word_char 20] free [of "''sk-''" key_char 8]
      free [of "''xai-''" key_char 8] free [of "''Bearer ''" bearer_char 1 "[_]"]
    by (auto simp: secret_kinds_def)
qed

section \<open>Properties\<close>

text \<open>C13: The raw bytes of a record are the bytes of its framed text. The importer accumulates undecoded
  bytes beside the framer, which sees decoded lines, and relies on the framer to say whether a
  completed record includes the current line. For every sequence of physical lines that do not still
  end in a carriage return, decoding the raw records gives exactly the framed records, in order: no
  repetition of lines, blank line, invalid byte, quote, tag or bound lets the two run apart.\<close>

theorem raw_records_follow_framer:
  assumes "list_all (\<lambda>l. strip_cr (from_utf8_lossy l) = from_utf8_lossy l) ls"
  shows "map from_utf8_lossy (raw_records ls (framer_new, [])) = map fr_text (frame_loop (map from_utf8_lossy ls) framer_new [])"
  using raw_records_framed [OF _ assms, of framer_new "[]"] by (simp add: framer_new_def)

theorem raw_records_follow_framer_witness:
  "list_all (\<lambda>l. strip_cr (from_utf8_lossy l) = from_utf8_lossy l) [''a'', ''a'', [CHR 0xFF]]
   \<and> map from_utf8_lossy (raw_records [''a'', ''a'', [CHR 0xFF]] (framer_new, []))
       = map fr_text (frame_loop [''a'', ''a'', replacement_char] framer_new [])"
proof -
  have "list_all (\<lambda>l. strip_cr (from_utf8_lossy l) = from_utf8_lossy l) [''a'', ''a'', [CHR 0xFF]]" by code_simp
  moreover have "map from_utf8_lossy [''a'', ''a'', [CHR 0xFF]] = [''a'', ''a'', replacement_char]" by code_simp
  ultimately show ?thesis using raw_records_follow_framer [of "[''a'', ''a'', [CHR 0xFF]]"] by simp
qed

text \<open>C7: Every imported event is accounted for. After any number of members, read from any chunks with
  any read errors, with any parser, store and moments of cancellation, and whether the import
  succeeded or stopped with an error: the events, stored and batched, are numbered from zero without
  gaps, their number is the reported number of records, each message is an instance of the pattern of
  its template, and each template counts exactly its events. (A scrub that panics ends the process.)\<close>

theorem ingest_accounts_for_events:
  "case ingest_members env members ingest_new of (r, st) \<Rightarrow>
     r = Inl Panic \<or>
     map (le_seq \<circ> ie_event) (events st) = [0..<ig_seq st] \<and> st_lines (ig_stats st) = ig_seq st
     \<and> list_all (\<lambda>ev. covers (toks (ig_miner st) (le_template_id (ie_event ev))) (tokenize (le_message (ie_event ev)))) (events st)
     \<and> list_all (\<lambda>(k, info). t_count info = length (filter (\<lambda>ev. le_template_id (ie_event ev) = k) (events st)))
         (templates (ig_miner st))"
proof -
  obtain r st where run: "ingest_members env members ingest_new = (r, st)" by force
  show ?thesis
  proof (cases "r = Inl Panic")
    case False
    have ok: "ingest_ok st" by (rule ingest_members_ok [OF ingest_ok_new run False])
    then obtain log where log: "drain_ok log (ig_miner st)" "accepted log = map templated (events st)"
      by (auto simp: ingest_ok_def)
    have "covers (toks (ig_miner st) (le_template_id (ie_event ev))) (tokenize (le_message (ie_event ev)))"
      if "ev \<in> set (events st)" for ev
      using accepted_member [of "le_message (ie_event ev)" _ log] drain_ok_covers [OF log(1)] that log(2)
      by (fastforce simp: templated_def toks_def)
    moreover have "t_count info = length (filter (\<lambda>ev. le_template_id (ie_event ev) = k) (events st))"
      if "(k, info) \<in> set (templates (ig_miner st))" for k info
      using drain_ok_info [OF log(1) that] accepted_count [of k log] log(2)
      by (simp add: filter_map comp_def templated_def)
    ultimately show ?thesis using ok by (auto simp: run ingest_ok_def list_all_iff)
  qed (simp add: run)
qed

text \<open>C8: Nothing imported carries a known token. Under the same conditions, no message, no parameter and no
  stored original of any event contains an AWS access key id, a GitHub token, a prefixed API key or a
  bearer token, whatever the source bytes are and whatever the parser extracts from them; and no
  stored original exceeds its bound.\<close>

theorem ingest_stores_no_token:
  "case ingest_members env members ingest_new of (r, st) \<Rightarrow>
     r = Inl Panic \<or>
     list_all (\<lambda>ev. list_all no_known_token (le_message (ie_event ev) # ro_text (ie_original ev) # le_params (ie_event ev))
       \<and> length (ro_text (ie_original ev)) \<le> MAX_ORIGINAL_REDACTED_BYTES) (events st)"
proof -
  obtain r st where run: "ingest_members env members ingest_new = (r, st)" by force
  show ?thesis
  proof (cases "r = Inl Panic")
    case False
    have "ingest_ok st" by (rule ingest_members_ok [OF ingest_ok_new run False])
    then have "list_all event_scrubbed (events st)" by (simp add: ingest_ok_def)
    then show ?thesis
      using token_free_known by (auto simp: run event_scrubbed_def list_all_iff)
  qed (simp add: run)
qed

text \<open>The digest of a member covers the member. When a member is imported to its end, the digest is
  that of all of its bytes, in order, and the reported length is their number: a digest is never
  issued for a member whose reading failed part-way.\<close>

theorem member_digest_covers_source:
  "case ingest_lines_from_reader env source fills st of
     (Inl _, _) \<Rightarrow> True
   | (Inr d, _) \<Rightarrow>
       (case source_bytes fills of
          None \<Rightarrow> False
        | Some bs \<Rightarrow> byte_length d = length bs \<and> content_digest d = ''sha256:'' @ env_sha256 env bs \<and> sd_source d = source)"
  using ingest_loop_digest [of env source fills cursor_new st]
  by (auto simp: ingest_lines_from_reader_def cursor_new_def split: sum.splits prod.splits option.splits)

end
