(* ===== verification/Share_Safe.thy ===== *)
theory Share_Safe
  imports Redact
begin

text \<open>
  Diagnostics that leave the machine: \<open>opaque_absolute_paths\<close> of \<open>crates/cd-core/src/turn_trace.rs\<close> and
  the \<open>ShareSafeRedactionPolicy\<close> of \<open>redact.rs\<close>. Shown: no known absolute root survives the path
  redaction, and a failure summary is one of finitely many fixed sentences unless the input is already
  a host-authored summary.

  The regular expressions (crate \<open>regex\<close>) are arguments: a pattern is its \<open>replace_all\<close> function.
\<close>

section \<open>Paths\<close>

definition is_ascii_whitespace :: "char \<Rightarrow> bool" where
  "is_ascii_whitespace c \<longleftrightarrow> c \<in> {CHR '' '', CHR 0x09, CHR 0x0A, CHR 0x0C, CHR 0x0D}"

definition path_stop :: "char \<Rightarrow> bool" where
  "path_stop c \<longleftrightarrow> is_ascii_whitespace c
     \<or> c \<in> {CHR 0x22, CHR 0x27, CHR '','', CHR '')'', CHR ''}'', CHR '']'', CHR ''{'', CHR ''[''}"

definition known_roots :: "string list" where
  "known_roots = [''/Users/'', ''/home/'', ''/var/'', ''/tmp/'', ''/private/'', ''/opt/'', ''/etc/'',
     ''/Library/'', ''/System/'', ''/Applications/'', ''/Volumes/'', ''/root/'']"

definition path_run :: "nat \<Rightarrow> string \<Rightarrow> nat" where
  "path_run n s = n + length (takeWhile (\<lambda>c. \<not> path_stop c) (drop n s))"

definition take_absolute_path_len :: "string \<Rightarrow> nat option" where
  "take_absolute_path_len s =
     (case s of
        [] \<Rightarrow> None
      | b0 # _ \<Rightarrow>
          if length s \<ge> 3 \<and> is_ascii_alphabetic b0 \<and> s ! 1 = CHR '':'' \<and> (s ! 2 = CHR 0x5C \<or> s ! 2 = CHR ''/'')
          then Some (path_run 3 s)
          else if b0 = CHR ''/'' then
            (if length s > 1 \<and> s ! 1 = CHR ''/'' then None
             else (let e = path_run 1 s in
                   if e > 1 \<and> (list_ex (starts_with s) known_roots \<or> count_list (take e s) (CHR ''/'') \<ge> 2)
                   then Some e else None))
          else None)"

definition is_separator :: "char \<Rightarrow> bool" where
  "is_separator c \<longleftrightarrow> c = CHR ''/'' \<or> c = CHR 0x5C"

text \<open>The last piece of \<open>rsplit\<close>, unless it is empty or has a colon.\<close>

definition path_basename :: "string \<Rightarrow> string option" where
  "path_basename path =
     (let base = rev (takeWhile (\<lambda>c. \<not> is_separator c) (rev path)) in
      if base \<noteq> [] \<and> \<not> contains base '':'' then Some base else None)"

definition path_mark :: "string \<Rightarrow> string" where
  "path_mark path = ''[local-path]'' @
     (case path_basename path of
        None \<Rightarrow> []
      | Some base \<Rightarrow>
          if base \<noteq> [] \<and> base \<noteq> drop_end is_separator (dropWhile is_separator path) then CHR ''/'' # base else [])"

text \<open>The loop: a path is replaced as a whole, any other character is copied.\<close>

function opaque_absolute_paths :: "string \<Rightarrow> string" where
  "opaque_absolute_paths rest =
     (case take_absolute_path_len rest of
        Some e \<Rightarrow> path_mark (take e rest) @ opaque_absolute_paths (drop e rest)
      | None \<Rightarrow>
          (case utf8_chars rest of
             [] \<Rightarrow> []
           | ch # _ \<Rightarrow> ch @ opaque_absolute_paths (drop (length ch) rest)))"
  by auto
termination
proof (relation "measure length")
  fix rest e assume "take_absolute_path_len rest = Some e"
  then show "(drop e rest, rest) \<in> measure length"
    by (cases rest) (auto simp: take_absolute_path_len_def path_run_def Let_def split: if_splits)
next
  fix rest ch chs assume "utf8_chars rest = ch # chs"
  then show "(drop (length ch) rest, rest) \<in> measure length"
    using utf8_chars_nonempty [of ch rest] by (cases rest) auto
qed simp

declare opaque_absolute_paths.simps [simp del]

section \<open>The policy\<close>

definition MAX_SHARE_SAFE_DIAGNOSTIC_CHARS :: nat where
  "MAX_SHARE_SAFE_DIAGNOSTIC_CHARS = 240"

definition truncate_diagnostic_chars :: "string \<Rightarrow> string" where
  "truncate_diagnostic_chars value =
     (let us = utf8_chars value in
      concat (take MAX_SHARE_SAFE_DIAGNOSTIC_CHARS us)
      @ (if drop MAX_SHARE_SAFE_DIAGNOSTIC_CHARS us \<noteq> [] then [CHR 0xE2, CHR 0x80, CHR 0xA6] else []))"

record share_patterns =
  authorization_value :: "string \<Rightarrow> string \<Rightarrow> string"
  bearer_value :: "string \<Rightarrow> string \<Rightarrow> string"
  http_endpoint :: "string \<Rightarrow> string \<Rightarrow> string"
  literal_case_insensitive :: "string \<Rightarrow> string \<Rightarrow> string \<Rightarrow> string"

definition policy_new :: "string list \<Rightarrow> string list" where
  "policy_new private_identifiers = filter (\<lambda>v. v \<noteq> []) (map trim private_identifiers)"

definition redact_text ::
  "(string \<Rightarrow> bool) \<Rightarrow> share_patterns \<Rightarrow> string list \<Rightarrow> string \<Rightarrow> (panic, string) result" where
  "redact_text alnum re identifiers raw =
     and_then (scrub_secrets alnum raw) (\<lambda>out.
       let out = authorization_value re ''[credential-redacted]'' out;
           out = bearer_value re ''[credential-redacted]'' out;
           out = http_endpoint re ''[endpoint-redacted]'' out;
           out = opaque_absolute_paths out;
           out = fold (\<lambda>identifier. literal_case_insensitive re identifier ''[identity-redacted]'') identifiers out
       in Inr (truncate_diagnostic_chars out))"

definition contains_any :: "string \<Rightarrow> string list \<Rightarrow> bool" where
  "contains_any haystack needles = list_ex (contains haystack) needles"

definition failure_category :: "string \<Rightarrow> string" where
  "failure_category lower =
     (if contains_any lower [''cancelled'', ''canceled'', ''interrupted''] then ''cancelled''
      else if contains_any lower [''timed out'', ''timeout'', ''deadline''] then ''timeout''
      else if contains_any lower [''401'', ''403'', ''unauthorized'', ''forbidden'', ''authentication'', ''authorization'',
        ''api-key'', ''api_key'', ''api key'', ''bearer''] then ''authentication''
      else if contains_any lower [''404'', ''not found'', ''unknown model'', ''unknown route''] then ''model_or_route_not_found''
      else if contains_any lower [''429'', ''rate limit'', ''rate-limit'', ''quota''] then ''rate_limited''
      else if contains_any lower [''parse'', ''decode'', ''invalid json'', ''invalid response'', ''schema'',
        ''unexpected response''] then ''invalid_response''
      else if contains_any lower [''connection'', ''connect'', ''dns'', ''socket'', ''transport'', ''tls'', ''request failed'']
      then ''transport''
      else if contains_any lower [''500'', ''502'', ''503'', ''504'', ''upstream'', ''internal server''] then ''upstream''
      else if contains_any lower [''cleanup'', ''was not removed'', ''failed to write'', ''failed to read'', ''i/o'']
      then ''local_io''
      else if contains lower ''diagnostic_fault'' then ''diagnostic_fault''
      else if contains lower ''tool_called='' \<and> contains lower ''grounding='' then ''host_grounding_refused''
      else if contains_any lower [''no visible terminal answer'', ''empty visible answer'', ''empty_terminal_answer'']
      then ''empty_terminal_answer''
      else if contains_any lower [''contract'', ''marker'', ''expected'', ''failed_dimensions'', ''scorer'', ''answer'',
        ''cites_current''] then ''response_contract''
      else ''provider_error'')"

definition category_summary :: "string \<Rightarrow> string" where
  "category_summary category = ''failure category: '' @ category @ ''; raw provider detail omitted''"

definition host_authored :: "string \<Rightarrow> bool" where
  "host_authored raw \<longleftrightarrow>
     starts_with raw ''failure category: '' \<and> ends_with raw ''; raw provider detail omitted''
     \<or> contains raw ''typed_v1=absent; multi_stage_events=''
     \<or> contains raw ''typed_v1 passed='' \<and> contains raw ''failed_dimensions=[''"

definition failure_summary ::
  "(string \<Rightarrow> bool) \<Rightarrow> share_patterns \<Rightarrow> string list \<Rightarrow> string \<Rightarrow> (panic, string) result" where
  "failure_summary alnum re identifiers raw =
     (if host_authored raw then redact_text alnum re identifiers raw
      else Inr (category_summary (failure_category (to_ascii_lowercase raw))))"

section \<open>Known roots do not survive\<close>

lemma path_len_stops:
  assumes "take_absolute_path_len s = Some e"
  shows "drop e s = [] \<or> path_stop (hd (drop e s))"
proof -
  have "e = path_run 3 s \<or> e = path_run 1 s"
    using assms by (auto simp: take_absolute_path_len_def Let_def split: list.splits if_splits)
  then obtain n where e: "e = path_run n s" by blast
  have "drop e s = dropWhile (\<lambda>c. \<not> path_stop c) (drop n s)"
    unfolding e path_run_def dropWhile_eq_drop drop_drop by (simp add: add.commute)
  then show ?thesis using hd_dropWhile [of "\<lambda>c. \<not> path_stop c" "drop n s"] by auto
qed

lemma stop_is_copied: "path_stop c \<Longrightarrow> take_absolute_path_len (c # s) = None"
  by (auto simp: take_absolute_path_len_def path_stop_def is_ascii_whitespace_def is_ascii_alphabetic_def is_ascii_uppercase_def)

lemma opaque_hd:
  assumes "s = [] \<or> path_stop (hd s)"
  shows "opaque_absolute_paths s = [] \<or> path_stop (hd (opaque_absolute_paths s))"
proof (cases s)
  case Nil
  then show ?thesis by (simp add: opaque_absolute_paths.simps take_absolute_path_len_def)
next
  case (Cons c s')
  then show ?thesis
    using assms stop_is_copied [of c s'] by (simp add: opaque_absolute_paths.simps [of "c # s'"])
qed

lemma path_mark_hd: "path_mark p = CHR ''['' # tl (path_mark p)"
  by (simp add: path_mark_def)

lemma opaque_prefix: "CHR ''['' \<notin> set w \<Longrightarrow> prefix w (opaque_absolute_paths s) \<Longrightarrow> prefix w s"
proof (induction s arbitrary: w rule: opaque_absolute_paths.induct)
  case (1 s)
  show ?case
  proof (cases "take_absolute_path_len s")
    case (Some e)
    then have "prefix w (CHR ''['' # tl (path_mark (take e s)) @ opaque_absolute_paths (drop e s))"
      using "1.prems" by (subst (asm) opaque_absolute_paths.simps, subst (asm) path_mark_hd) simp
    then have "w = []" using "1.prems"(1) by (cases w) auto
    then show ?thesis by simp
  next
    case None
    show ?thesis
    proof (cases "utf8_chars s")
      case (Cons ch chs)
      have s: "s = ch @ drop (length ch) s" using arg_cong [OF Cons, of concat] by simp
      have "prefix w (ch @ opaque_absolute_paths (drop (length ch) s))"
        using "1.prems"(2) None Cons by (simp add: opaque_absolute_paths.simps [of s])
      then have "prefix w (ch @ drop (length ch) s)"
        using "1.IH"(1) [OF None Cons] "1.prems"(1) by (auto simp: prefix_append)
      then show ?thesis using s by simp
    qed (use "1.prems" None in \<open>simp add: opaque_absolute_paths.simps [of "[]"]\<close>)
  qed
qed

definition root_shape :: "string \<Rightarrow> bool" where
  "root_shape r \<longleftrightarrow> count_list r (CHR ''/'') = 2 \<and> prefix ''/'' r \<and> length r > 2 \<and> r ! 1 \<noteq> CHR ''/''
     \<and> list_all (\<lambda>c. \<not> path_stop c \<and> \<not> is_cont_byte c) r"

lemma roots_shape: "list_all root_shape known_roots"
  unfolding root_shape_def known_roots_def by code_simp

lemma root_is_path:
  assumes "root \<in> set known_roots" "prefix root s"
  shows "take_absolute_path_len s \<noteq> None"
proof -
  have "root_shape root" using assms(1) roots_shape by (simp add: list_all_iff)
  with assms(2) obtain c r z where s: "s = CHR ''/'' # c # r @ z" and root: "root = CHR ''/'' # c # r"
    and c: "c \<noteq> CHR ''/''" "\<not> path_stop c"
    by (cases root; cases "tl root") (auto simp: root_shape_def prefix_def)
  have "list_ex (starts_with s) known_roots"
    using assms by (auto simp: list_ex_iff starts_with_def)
  then show ?thesis
    using c by (simp add: s take_absolute_path_len_def path_run_def is_ascii_alphabetic_def is_ascii_uppercase_def Let_def)
qed

lemma mark_slashes: "count_list (path_mark p) (CHR ''/'') \<le> 1"
proof -
  have "CHR ''/'' \<notin> set base" if "path_basename p = Some base" for base
    using that by (auto simp: path_basename_def Let_def is_separator_def split: if_splits dest: set_takeWhileD)
  then show ?thesis by (auto simp: path_mark_def count_list_0_iff split: option.splits)
qed

lemma count_list_contains: "contains s w \<Longrightarrow> count_list w c \<le> count_list s c"
  by (auto simp: contains_def sublist_def)

lemma opaque_no_root:
  assumes root: "root \<in> set known_roots"
  shows "\<not> contains (opaque_absolute_paths s) root"
proof (induction s rule: opaque_absolute_paths.induct)
  case (1 s)
  have shape: "root_shape root" using root roots_shape by (simp add: list_all_iff)
  then have plain: "\<not> path_stop c" "\<not> is_cont_byte c" if "c \<in> set root" for c
    using that by (auto simp: root_shape_def list_all_iff)
  show ?case
  proof (cases "take_absolute_path_len s")
    case (Some e)
    let ?m = "path_mark (take e s)" and ?o = "opaque_absolute_paths (drop e s)"
    have "\<not> contains ?m root"
      using count_list_contains [of ?m root "CHR ''/''"] mark_slashes [of "take e s"] shape by (auto simp: root_shape_def)
    moreover have "\<not> contains ?o root" using "1.IH"(2) [OF Some] .
    moreover have False if xy: "root = x @ y" "suffix x ?m" "prefix y ?o" for x y
    proof (cases y)
      case Nil
      then have "contains ?m root" using xy by (simp add: contains_def suffix_imp_sublist)
      with \<open>\<not> contains ?m root\<close> show False by simp
    next
      case (Cons c y')
      then have "hd ?o = c" and "?o \<noteq> []" using xy(3) by (auto simp: prefix_def)
      then have "path_stop c" using opaque_hd [OF path_len_stops [OF Some]] by auto
      then show False using plain(1) [of c] xy(1) Cons by simp
    qed
    ultimately have "\<not> contains (?m @ ?o) root"
      by (auto simp: contains_def sublist_append)
    then show ?thesis using Some by (simp add: opaque_absolute_paths.simps [of s])
  next
    case None
    show ?thesis
    proof (cases "utf8_chars s")
      case (Cons ch chs)
      let ?o = "opaque_absolute_paths (drop (length ch) s)"
      obtain c cs where ch: "ch = c # cs" using utf8_chars_nonempty [of ch s] Cons by (cases ch) auto
      have out: "opaque_absolute_paths s = c # cs @ ?o" using None Cons ch by (simp add: opaque_absolute_paths.simps [of s])
      have cont: "set root \<inter> set cs = {}"
        using utf8_chars_tail [of ch s] Cons ch plain(2) by (auto simp: list_all_iff)
      have ne: "root \<noteq> []" and br: "CHR ''['' \<notin> set root" using shape plain(1) by (auto simp: root_shape_def path_stop_def)
      have "\<not> contains (cs @ ?o) root"
        using "1.IH"(1) [OF None Cons] contains_skip [OF cont ne] by simp
      moreover have "\<not> prefix root (c # cs @ ?o)"
        using opaque_prefix [OF br, of s] root_is_path [OF root, of s] None out by auto
      ultimately show ?thesis unfolding out by (auto simp: contains_def sublist_Cons_right)
    qed (use None shape in \<open>auto simp: opaque_absolute_paths.simps [of "[]"] contains_def root_shape_def\<close>)
  qed
qed

section \<open>Properties\<close>

text \<open>No home or system root leaves the machine. After path redaction the text contains none of the
  twelve known absolute roots, wherever they stood in the input.\<close>

theorem paths_opaque: "list_all (\<lambda>root. \<not> contains (opaque_absolute_paths s) root) known_roots"
  using opaque_no_root by (simp add: list_all_iff)

text \<open>A failure summary carries no text of the provider: it is one of fourteen sentences.\<close>

theorem failure_summary_fixed:
  assumes "\<not> host_authored raw"
  shows "failure_summary alnum re identifiers raw \<in> (Inr \<circ> category_summary) `
    {''cancelled'', ''timeout'', ''authentication'', ''model_or_route_not_found'', ''rate_limited'', ''invalid_response'',
     ''transport'', ''upstream'', ''local_io'', ''diagnostic_fault'', ''host_grounding_refused'', ''empty_terminal_answer'',
     ''response_contract'', ''provider_error''}"
  using assms unfolding failure_summary_def failure_category_def by simp

end
