(* ===== verification/Multi_Contracts.thy ===== *)
theory Multi_Contracts
  imports Answer_Render
begin

text \<open>
  \<open>crates/cd-core/src/multi_model/mod.rs\<close> and \<open>contracts.rs\<close>: the vocabulary of the multi-model
  pipeline and the contracts between its stages. An investigator proposes findings for one candidate, a
  reviewer proposes gaps and contradictions between candidates; the host turns a proposal into a
  validated value or refuses it. Shown: both validators accept exactly the proposals that meet a
  loop-free contract and return exactly the value it determines, and the Markdown projection of a
  review does not depend on the order of the report.

  Decoding a proposal (\<open>serde_json::from_str\<close>) is the argument \<open>F\<close>.
\<close>

section \<open>Vocabulary\<close>

datatype MultiModelMode = ModeSingle | ModeReview | ModeContributions

fun mode_str :: "MultiModelMode \<Rightarrow> string" where
  "mode_str ModeSingle = ''single''"
| "mode_str ModeReview = ''review''"
| "mode_str ModeContributions = ''contributions''"

datatype InvestigationRole = Investigator | Reviewer | CausalSynthesizer | Synthesizer

fun role_str :: "InvestigationRole \<Rightarrow> string" where
  "role_str Investigator = ''investigator''"
| "role_str Reviewer = ''reviewer''"
| "role_str CausalSynthesizer = ''causal_synthesizer''"
| "role_str Synthesizer = ''synthesizer''"

record RoleBinding =
  rb_role :: InvestigationRole
  rb_profile :: string
  rb_model :: string
  rb_semantic_attempts :: u8

datatype ExecutedMode = RanSingle | RanReview | RanReviewDegraded | RanContributions

fun executed_str :: "ExecutedMode \<Rightarrow> string" where
  "executed_str RanSingle = ''single''"
| "executed_str RanReview = ''review''"
| "executed_str RanReviewDegraded = ''review_degraded''"
| "executed_str RanContributions = ''contributions''"

datatype DegradationReason =
    ReviewerUnconfigured | ReviewerUnqualified | ReviewerEgressNotAcknowledged
  | ReviewerRemoteForbiddenLocalOnly | BudgetRoundsInsufficient | BudgetUsageInsufficient
  | ReviewerProviderFailed | ReviewerDeadline | ReviewerSemanticInvalid | ReviewNotEligible

fun degradation_str :: "DegradationReason \<Rightarrow> string" where
  "degradation_str ReviewerUnconfigured = ''reviewer_unconfigured''"
| "degradation_str ReviewerUnqualified = ''reviewer_unqualified''"
| "degradation_str ReviewerEgressNotAcknowledged = ''reviewer_egress_not_acknowledged''"
| "degradation_str ReviewerRemoteForbiddenLocalOnly = ''reviewer_remote_forbidden_local_only''"
| "degradation_str BudgetRoundsInsufficient = ''budget_rounds_insufficient''"
| "degradation_str BudgetUsageInsufficient = ''budget_usage_insufficient''"
| "degradation_str ReviewerProviderFailed = ''reviewer_provider_failed''"
| "degradation_str ReviewerDeadline = ''reviewer_deadline''"
| "degradation_str ReviewerSemanticInvalid = ''reviewer_semantic_invalid''"
| "degradation_str ReviewNotEligible = ''not_eligible''"

fun degradation_detail :: "DegradationReason \<Rightarrow> string" where
  "degradation_detail ReviewerUnconfigured =
     ''no reviewer model configured; answered with the single-model path''"
| "degradation_detail ReviewerUnqualified =
     ''reviewer model is not measured-qualified for structured output; '' @
     ''answered with the single-model path''"
| "degradation_detail ReviewerEgressNotAcknowledged =
     ''reviewer uses a remote provider and remote review was not acknowledged; '' @
     ''answered with the single-model path''"
| "degradation_detail ReviewerRemoteForbiddenLocalOnly =
     ''reviewer uses a remote provider but this turn is pinned local-only; '' @
     ''answered with the single-model path''"
| "degradation_detail BudgetRoundsInsufficient =
     ''the turn's model-call budget could not fit a reviewer call; '' @
     ''answered without review''"
| "degradation_detail BudgetUsageInsufficient =
     ''the turn's usage budget could not fit a reviewer call; answered without review''"
| "degradation_detail ReviewerProviderFailed = ''the reviewer provider failed; answered without review''"
| "degradation_detail ReviewerDeadline = ''the reviewer call ran out of time; answered without review''"
| "degradation_detail ReviewerSemanticInvalid =
     ''the reviewer output failed host validation; answered without review''"
| "degradation_detail ReviewNotEligible =
     ''fewer than two candidates were eligible; used the single-model path''"

record MultiModelBudget =
  max_total_provider_rounds :: u32
  max_semantic_corrections_per_stage :: u8
  mm_context_char_budget :: nat
  mm_deadline_ms :: u64
  max_context_chars_total :: "u64 option"

definition DEFAULT_CONTEXT_CHAR_BUDGET :: nat where
  "DEFAULT_CONTEXT_CHAR_BUDGET = 120000"

definition budget_default :: MultiModelBudget where
  "budget_default = \<lparr>max_total_provider_rounds = 12, max_semantic_corrections_per_stage = 1,
     mm_context_char_budget = DEFAULT_CONTEXT_CHAR_BUDGET, mm_deadline_ms = 0,
     max_context_chars_total = None\<rparr>"

datatype StageOutcomeKind =
    SoCompleted | SoSemanticInvalid | SoProviderFailed | SoDeadline | SoCancelled | SoBudgetExhausted
  | SoSkipped

fun stage_outcome_str :: "StageOutcomeKind \<Rightarrow> string" where
  "stage_outcome_str SoCompleted = ''completed''"
| "stage_outcome_str SoSemanticInvalid = ''semantic_invalid''"
| "stage_outcome_str SoProviderFailed = ''provider_failed''"
| "stage_outcome_str SoDeadline = ''deadline''"
| "stage_outcome_str SoCancelled = ''cancelled''"
| "stage_outcome_str SoBudgetExhausted = ''budget_exhausted''"
| "stage_outcome_str SoSkipped = ''skipped''"

record StageTelemetry =
  sg_role :: InvestigationRole
  sg_profile_id :: string
  sg_model :: string
  sg_provider_rounds :: u32
  sg_semantic_corrections :: u8
  sg_context_chars_sent :: u64
  sg_outcome :: StageOutcomeKind

record MultiModelTurnTelemetry =
  mt_schema :: string
  mt_configured_mode :: MultiModelMode
  mt_executed_mode :: ExecutedMode
  mt_degradation :: "DegradationReason option"
  mt_stages :: "StageTelemetry list"
  mt_total_provider_rounds :: u32
  mt_total_context_chars_sent :: u64

definition MULTI_MODEL_TELEMETRY_SCHEMA_V1 :: string where
  "MULTI_MODEL_TELEMETRY_SCHEMA_V1 = ''contextdesk.multi_model.telemetry.v1''"

section \<open>Identifiers\<close>

text \<open>An identifier that a later prompt may print plainly.\<close>

definition is_inert_id :: "string \<Rightarrow> bool" where
  "is_inert_id i \<longleftrightarrow> i \<noteq> []
     \<and> \<not> list_ex (\<lambda>c. is_control c \<or> is_line_boundary c \<or> is_bidi_formatting_control c) (utf8_chars i)"

section \<open>Candidate findings\<close>

definition CANDIDATE_FINDING_SCHEMA_V1 :: string where
  "CANDIDATE_FINDING_SCHEMA_V1 = ''contextdesk.multi_model.candidate_finding.v1''"

definition REVIEW_SCHEMA_V1 :: string where
  "REVIEW_SCHEMA_V1 = ''contextdesk.multi_model.review.v1''"

record ModelCandidateFindingV1 =
  mf_schema :: string
  mf_candidate_id :: string
  mf_observations :: "ModelClaimV1 list"
  mf_symptoms :: "ModelClaimV1 list"
  mf_causal_candidates :: "ModelClaimV1 list"
  mf_missing_evidence :: "ModelClaimV1 list"

record CandidateFindingV1 =
  fi_candidate_id :: string
  fi_claims :: "InvestigationClaimV1 list"
  fi_citations :: "CanonicalCitationV1 list"
  fi_role_binding :: RoleBinding

definition finding_sections :: "ModelCandidateFindingV1 \<Rightarrow> (ClaimKind \<times> ModelClaimV1 list) list" where
  "finding_sections p =
     [(Observation, mf_observations p), (Symptom, mf_symptoms p),
      (CausalCandidate, mf_causal_candidates p), (MissingEvidence, mf_missing_evidence p)]"

definition finding_evidence_step ::
  "HostEvidenceLedger \<Rightarrow> string \<Rightarrow> string set \<times> citation_map \<Rightarrow> string
     \<Rightarrow> (ValidationError, string set \<times> citation_map) result" where
  "finding_evidence_step l cand acc i =
     (let (seen, citations) = acc in
      if i \<in> seen then Inl DuplicateId
      else case ledger_get l i of
        None \<Rightarrow> Inl UnknownEvidence
      | Some entry \<Rightarrow>
          if he_candidate_id entry \<noteq> cand then Inl WrongScope
          else if he_corpus_id entry \<noteq> bind_corpus_id (led_binding l)
             \<or> he_revision entry \<noteq> bind_revision (led_binding l) then Inl WrongRevision
          else Inr (insert i seen, or_insert i (canonical_citation entry) citations))"

definition supported_claim :: "string \<Rightarrow> ClaimKind \<Rightarrow> ModelClaimV1 \<Rightarrow> InvestigationClaimV1" where
  "supported_claim cand kind c =
     \<lparr>claim_id = mc_claim_id c, claim_kind = kind, claim_text = mc_text c,
      claim_candidate_id = cand, claim_evidence_ids = mc_evidence_ids c, claim_status = Supported\<rparr>"

record finding_state =
  fs_claim_ids :: "string set"
  fs_citations :: citation_map
  fs_claims :: "InvestigationClaimV1 list"

definition finding_claim_step ::
  "HostEvidenceLedger \<Rightarrow> string \<Rightarrow> ClaimKind \<Rightarrow> finding_state \<Rightarrow> ModelClaimV1
     \<Rightarrow> (ValidationError, finding_state) result" where
  "finding_claim_step l cand kind st c =
     (if \<not> is_inert_id (mc_claim_id c) then Inl Schema
      else if mc_claim_id c = [] \<or> mc_claim_id c \<in> fs_claim_ids st then Inl DuplicateId
      else if mc_evidence_ids c = [] \<and> kind \<noteq> MissingEvidence then Inl EmptyEvidence
      else and_then (try_fold (finding_evidence_step l cand) ({}, fs_citations st) (mc_evidence_ids c))
        (\<lambda>(seen, citations).
          Inr \<lparr>fs_claim_ids = insert (mc_claim_id c) (fs_claim_ids st), fs_citations = citations,
               fs_claims = fs_claims st @ [supported_claim cand kind c]\<rparr>))"

definition validate_candidate_finding ::
  "(string \<Rightarrow> ModelCandidateFindingV1 option) \<Rightarrow> string \<Rightarrow> HostEvidenceLedger \<Rightarrow> string \<Rightarrow> RoleBinding
     \<Rightarrow> (ValidationError, CandidateFindingV1) result" where
  "validate_candidate_finding F raw l cand role_binding =
     and_then (ok_or Parse (F raw)) (\<lambda>proposal.
     if mf_schema proposal \<noteq> CANDIDATE_FINDING_SCHEMA_V1 then Inl Schema
     else if mf_candidate_id proposal \<noteq> cand then Inl WrongScope
     else and_then
       (try_fold (\<lambda>st ks. try_fold (finding_claim_step l cand (fst ks)) st (snd ks))
          \<lparr>fs_claim_ids = {}, fs_citations = [], fs_claims = []\<rparr> (finding_sections proposal)) (\<lambda>st.
     Inr \<lparr>fi_candidate_id = cand, fi_claims = fs_claims st, fi_citations = bt_values (fs_citations st),
          fi_role_binding = role_binding\<rparr>))"

section \<open>Reviews\<close>

record ModelGapV1 =
  mg_gap_id :: string
  mg_candidate_id :: string
  mg_text :: string
  mg_related_evidence_ids :: "string list"

record ModelContradictionV1 =
  mx_contradiction_id :: string
  mx_candidate_a :: string
  mx_claim_a_id :: string
  mx_candidate_b :: string
  mx_claim_b_id :: string
  mx_text :: string
  mx_evidence_ids :: "string list"

record ModelReviewReportV1 =
  mr_schema :: string
  mr_evidence_gaps :: "ModelGapV1 list"
  mr_contradictions :: "ModelContradictionV1 list"

record ReviewGap =
  rg_gap_id :: string
  rg_candidate_id :: string
  rg_text :: string
  rg_evidence_ids :: "string list"

record ReviewContradiction =
  rx_contradiction_id :: string
  rx_candidate_a :: string
  rx_claim_a_id :: string
  rx_candidate_b :: string
  rx_claim_b_id :: string
  rx_text :: string
  rx_evidence_ids :: "string list"

record ReviewReportV1 =
  rv_gaps :: "ReviewGap list"
  rv_contradictions :: "ReviewContradiction list"
  rv_role_binding :: RoleBinding

type_synonym KnownClaims = "(string \<times> string) set"

text \<open>One evidence id of a gap or contradiction; \<open>in_scope\<close> is the test on its candidate.\<close>

definition review_evidence_step ::
  "HostEvidenceLedger \<Rightarrow> (string \<Rightarrow> bool) \<Rightarrow> string set \<Rightarrow> string \<Rightarrow> (ValidationError, string set) result" where
  "review_evidence_step l in_scope seen i =
     (if i \<in> seen then Inl DuplicateId
      else case ledger_get l i of
        None \<Rightarrow> Inl UnknownEvidence
      | Some entry \<Rightarrow>
          if \<not> in_scope (he_candidate_id entry) then Inl WrongScope
          else if he_corpus_id entry \<noteq> bind_corpus_id (led_binding l)
             \<or> he_revision entry \<noteq> bind_revision (led_binding l) then Inl WrongRevision
          else Inr (insert i seen))"

definition review_gap :: "ModelGapV1 \<Rightarrow> ReviewGap" where
  "review_gap g = \<lparr>rg_gap_id = mg_gap_id g, rg_candidate_id = mg_candidate_id g, rg_text = mg_text g,
     rg_evidence_ids = mg_related_evidence_ids g\<rparr>"

definition review_contradiction :: "ModelContradictionV1 \<Rightarrow> ReviewContradiction" where
  "review_contradiction c = \<lparr>rx_contradiction_id = mx_contradiction_id c, rx_candidate_a = mx_candidate_a c,
     rx_claim_a_id = mx_claim_a_id c, rx_candidate_b = mx_candidate_b c, rx_claim_b_id = mx_claim_b_id c,
     rx_text = mx_text c, rx_evidence_ids = mx_evidence_ids c\<rparr>"

definition gap_step ::
  "HostEvidenceLedger \<Rightarrow> string set \<times> ReviewGap list \<Rightarrow> ModelGapV1
     \<Rightarrow> (ValidationError, string set \<times> ReviewGap list) result" where
  "gap_step l acc g =
     (let (ids, gaps) = acc in
      if \<not> is_inert_id (mg_gap_id g) then Inl Schema
      else if mg_gap_id g = [] \<or> mg_gap_id g \<in> ids then Inl DuplicateId
      else if mg_candidate_id g \<notin> ledger_candidate_ids l then Inl WrongScope
      else and_then (try_fold (review_evidence_step l (\<lambda>c. c = mg_candidate_id g)) {} (mg_related_evidence_ids g))
        (\<lambda>_. Inr (insert (mg_gap_id g) ids, gaps @ [review_gap g])))"

definition contradiction_step ::
  "HostEvidenceLedger \<Rightarrow> KnownClaims \<Rightarrow> string set \<times> ReviewContradiction list \<Rightarrow> ModelContradictionV1
     \<Rightarrow> (ValidationError, string set \<times> ReviewContradiction list) result" where
  "contradiction_step l known acc c =
     (let (ids, contradictions) = acc in
      if \<not> is_inert_id (mx_contradiction_id c) then Inl Schema
      else if mx_contradiction_id c = [] \<or> mx_contradiction_id c \<in> ids then Inl DuplicateId
      else if mx_candidate_a c = mx_candidate_b c \<or> mx_candidate_a c \<notin> ledger_candidate_ids l
         \<or> mx_candidate_b c \<notin> ledger_candidate_ids l then Inl WrongScope
      else if (mx_candidate_a c, mx_claim_a_id c) \<notin> known then Inl WrongScope
      else if (mx_candidate_b c, mx_claim_b_id c) \<notin> known then Inl WrongScope
      else and_then (try_fold (review_evidence_step l (\<lambda>k. k = mx_candidate_a c \<or> k = mx_candidate_b c)) {}
                       (mx_evidence_ids c))
        (\<lambda>_. Inr (insert (mx_contradiction_id c) ids, contradictions @ [review_contradiction c])))"

definition validate_review_report ::
  "(string \<Rightarrow> ModelReviewReportV1 option) \<Rightarrow> string \<Rightarrow> HostEvidenceLedger \<Rightarrow> KnownClaims \<Rightarrow> RoleBinding
     \<Rightarrow> (ValidationError, ReviewReportV1) result" where
  "validate_review_report F raw l known role_binding =
     and_then (ok_or Parse (F raw)) (\<lambda>proposal.
     if mr_schema proposal \<noteq> REVIEW_SCHEMA_V1 then Inl Schema
     else and_then (try_fold (gap_step l) ({}, []) (mr_evidence_gaps proposal)) (\<lambda>(ids, gaps).
     and_then (try_fold (contradiction_step l known) (ids, []) (mr_contradictions proposal)) (\<lambda>(_, contradictions).
     Inr \<lparr>rv_gaps = gaps, rv_contradictions = contradictions, rv_role_binding = role_binding\<rparr>)))"

section \<open>Projection of a review\<close>

definition sorted_ids :: "string list \<Rightarrow> string list" where
  "sorted_ids ids = remdups_adj (sort ids)"

definition render_gap :: "ReviewGap \<Rightarrow> string" where
  "render_gap g =
     ''- '' @ literal_span (rg_gap_id g) @ '' (candidate '' @ literal_span (rg_candidate_id g) @ ''): ''
     @ literal_span (rg_text g)
     @ (let ev = sorted_ids (rg_evidence_ids g) in
        if ev \<noteq> [] then '' '' @ em_dash @ '' relates '' @ join '', '' (map literal_span ev) else [])
     @ nl"

definition render_contradiction :: "ReviewContradiction \<Rightarrow> string" where
  "render_contradiction c =
     ''- '' @ literal_span (rx_contradiction_id c) @ '': candidate '' @ literal_span (rx_candidate_a c)
     @ '' claim '' @ literal_span (rx_claim_a_id c) @ '' vs candidate '' @ literal_span (rx_candidate_b c)
     @ '' claim '' @ literal_span (rx_claim_b_id c) @ '' '' @ em_dash @ '' '' @ literal_span (rx_text c)
     @ (let ev = sorted_ids (rx_evidence_ids c) in
        if ev \<noteq> [] then '' '' @ em_dash @ '' cites '' @ join '', '' (map literal_span ev) else [])
     @ nl"

definition render_review_markdown :: "ReviewReportV1 \<Rightarrow> string" where
  "render_review_markdown report =
     (let rb = rv_role_binding report;
          gaps = sort_key rg_gap_id (rv_gaps report);
          contradictions = sort_key rx_contradiction_id (rv_contradictions report)
      in ''## Review'' @ nl @ nl
         @ ''- Reviewer: role '' @ role_str (rb_role rb) @ '' '' @ middle_dot @ '' profile ''
         @ literal_span (rb_profile rb) @ '' '' @ middle_dot @ '' model '' @ literal_span (rb_model rb) @ nl
         @ nl @ ''**Evidence gaps**'' @ nl @ nl
         @ (if gaps = [] then ''- none reported'' @ nl else concat (map render_gap gaps))
         @ nl @ ''**Contradictions**'' @ nl @ nl
         @ (if contradictions = [] then ''- none reported'' @ nl
            else concat (map render_contradiction contradictions)))"

section \<open>What the validators accept\<close>

text \<open>A cited row is in the ledger, in scope and of the ledger's snapshot.\<close>

definition citable :: "HostEvidenceLedger \<Rightarrow> (string \<Rightarrow> bool) \<Rightarrow> string \<Rightarrow> bool" where
  "citable l in_scope i \<longleftrightarrow>
     (case ledger_get l i of None \<Rightarrow> False
      | Some e \<Rightarrow> in_scope (he_candidate_id e) \<and> he_corpus_id e = bind_corpus_id (led_binding l)
          \<and> he_revision e = bind_revision (led_binding l))"

lemma review_evidence_loop:
  "is_ok (try_fold (review_evidence_step l in_scope) seen ids)
     \<longleftrightarrow> distinct ids \<and> set ids \<inter> seen = {} \<and> list_all (citable l in_scope) ids"
  by (induction ids arbitrary: seen)
     (auto simp: review_evidence_step_def citable_def split: option.splits)

lemma finding_evidence_observation: "finding_evidence_step l cand = evidence_step l Observation cand"
  by (auto simp: fun_eq_iff finding_evidence_step_def evidence_step_def ledger_get_def split: option.splits)

lemma evidence_ok_citable: "evidence_ok l Observation cand i \<longleftrightarrow> citable l (\<lambda>c. c = cand) i"
  by (simp add: evidence_ok_def citable_def ledger_get_def split: option.splits)

definition finding_claims :: "ModelCandidateFindingV1 \<Rightarrow> (ClaimKind \<times> ModelClaimV1) list" where
  "finding_claims p = concat (map (\<lambda>(kind, claims). map (Pair kind) claims) (finding_sections p))"

definition finding_claim_ok :: "HostEvidenceLedger \<Rightarrow> string \<Rightarrow> ClaimKind \<times> ModelClaimV1 \<Rightarrow> bool" where
  "finding_claim_ok l cand kc \<longleftrightarrow> is_inert_id (mc_claim_id (snd kc))
     \<and> (mc_evidence_ids (snd kc) = [] \<longrightarrow> fst kc = MissingEvidence)
     \<and> distinct (mc_evidence_ids (snd kc)) \<and> list_all (citable l (\<lambda>c. c = cand)) (mc_evidence_ids (snd kc))"

definition finding_ok :: "HostEvidenceLedger \<Rightarrow> string \<Rightarrow> ModelCandidateFindingV1 \<Rightarrow> bool" where
  "finding_ok l cand p \<longleftrightarrow> mf_schema p = CANDIDATE_FINDING_SCHEMA_V1 \<and> mf_candidate_id p = cand
     \<and> list_all (finding_claim_ok l cand) (finding_claims p) \<and> distinct (map cid (finding_claims p))"

definition reference_finding ::
  "HostEvidenceLedger \<Rightarrow> string \<Rightarrow> RoleBinding \<Rightarrow> ModelCandidateFindingV1 \<Rightarrow> CandidateFindingV1" where
  "reference_finding l cand role_binding p =
     \<lparr>fi_candidate_id = cand, fi_claims = map (\<lambda>(kind, c). supported_claim cand kind c) (finding_claims p),
      fi_citations = map canonical_citation
        (filter (\<lambda>e. \<exists>kc \<in> set (finding_claims p). he_evidence_id e \<in> set (mc_evidence_ids (snd kc))) (ledger_entries l)),
      fi_role_binding = role_binding\<rparr>"

lemma finding_section_loop:
  "try_fold (\<lambda>st ks. try_fold (finding_claim_step l cand (fst ks)) st (snd ks)) st secs =
     try_fold (\<lambda>st kc. finding_claim_step l cand (fst kc) st (snd kc)) st
       (concat (map (\<lambda>(kind, claims). map (Pair kind) claims) secs))"
  by (induction secs arbitrary: st) (auto simp: try_fold_append try_fold_map split: sum.splits)

lemma finding_claim_step_cases:
  assumes "citations_for l cited (fs_citations st)"
  shows "case finding_claim_step l cand (fst kc) st (snd kc) of
      Inl err \<Rightarrow> \<not> (finding_claim_ok l cand kc \<and> cid kc \<notin> fs_claim_ids st)
    | Inr st' \<Rightarrow> finding_claim_ok l cand kc \<and> cid kc \<notin> fs_claim_ids st
        \<and> citations_for l (cited \<union> set (mc_evidence_ids (snd kc))) (fs_citations st')
        \<and> fs_claim_ids st' = insert (cid kc) (fs_claim_ids st)
        \<and> fs_claims st' = fs_claims st @ [supported_claim cand (fst kc) (snd kc)]"
proof -
  note loop = evidence_loop [OF assms, where kind = Observation and cand = cand and ids = "{}"
      and eids = "mc_evidence_ids (snd kc)"]
  have inert: "is_inert_id i \<Longrightarrow> i \<noteq> []" for i by (simp add: is_inert_id_def)
  show ?thesis
  proof (cases "try_fold (evidence_step l Observation cand) ({}, fs_citations st) (mc_evidence_ids (snd kc))")
    case (Inl err)
    then show ?thesis using loop
      by (auto simp: finding_claim_step_def finding_claim_ok_def finding_evidence_observation
          evidence_ok_citable [abs_def] split: if_splits)
  next
    case (Inr r)
    then show ?thesis using loop
      by (cases r) (auto simp: finding_claim_step_def finding_claim_ok_def finding_evidence_observation
          evidence_ok_citable [abs_def] dest: inert)
  qed
qed

lemma finding_claims_loop:
  assumes "citations_for l cited (fs_citations st)"
  shows "case try_fold (\<lambda>st kc. finding_claim_step l cand (fst kc) st (snd kc)) st kcs of
      Inl err \<Rightarrow> \<not> (list_all (finding_claim_ok l cand) kcs \<and> distinct (map cid kcs)
        \<and> set (map cid kcs) \<inter> fs_claim_ids st = {})
    | Inr st' \<Rightarrow> list_all (finding_claim_ok l cand) kcs \<and> distinct (map cid kcs)
        \<and> set (map cid kcs) \<inter> fs_claim_ids st = {}
        \<and> citations_for l (cited \<union> (\<Union>kc \<in> set kcs. set (mc_evidence_ids (snd kc)))) (fs_citations st')
        \<and> fs_claims st' = fs_claims st @ map (\<lambda>(kind, c). supported_claim cand kind c) kcs"
  using assms
proof (induction kcs arbitrary: st cited)
  case Nil
  then show ?case by simp
next
  case (Cons kc kcs)
  note step = finding_claim_step_cases [OF Cons.prems, of cand kc]
  show ?case
  proof (cases "finding_claim_step l cand (fst kc) st (snd kc)")
    case (Inl err)
    then show ?thesis using step by auto
  next
    case (Inr st1)
    then have cit: "citations_for l (cited \<union> set (mc_evidence_ids (snd kc))) (fs_citations st1)"
      using step by simp
    from Cons.IH [OF cit] show ?thesis
      using Inr step
      by (cases "try_fold (\<lambda>st kc. finding_claim_step l cand (fst kc) st (snd kc)) st1 kcs")
         (auto simp: Un_assoc split_beta)
  qed
qed

lemma candidate_finding_iff:
  assumes "ledger_wf l"
  shows "validate_candidate_finding F raw l cand role_binding = Inr f \<longleftrightarrow>
     (\<exists>p. F raw = Some p \<and> finding_ok l cand p \<and> f = reference_finding l cand role_binding p)"
proof (cases "F raw")
  case None
  then show ?thesis by (simp add: validate_candidate_finding_def ok_or_def)
next
  case (Some p)
  let ?st = "\<lparr>fs_claim_ids = {}, fs_citations = [], fs_claims = []\<rparr>"
  let ?U = "\<Union>kc \<in> set (finding_claims p). set (mc_evidence_ids (snd kc))"
  have cit: "citations_for l {} (fs_citations ?st)" by (simp add: citations_for_def bt_wf_def bt_get_def)
  note loop = finding_claims_loop [OF cit, where cand = cand and kcs = "finding_claims p", simplified]
  have mem: "(\<exists>kc \<in> set (finding_claims p). i \<in> set (mc_evidence_ids (snd kc))) \<longleftrightarrow> i \<in> ?U" for i by auto
  show ?thesis
  proof (cases "try_fold (\<lambda>st kc. finding_claim_step l cand (fst kc) st (snd kc)) ?st (finding_claims p)")
    case (Inl err)
    then show ?thesis using loop Some
      by (auto simp: validate_candidate_finding_def ok_or_def finding_section_loop finding_claims_def [symmetric]
          finding_ok_def)
  next
    case (Inr st)
    then have ok: "list_all (finding_claim_ok l cand) (finding_claims p)" "distinct (map cid (finding_claims p))"
      and c: "citations_for l ?U (fs_citations st)"
      and claims: "fs_claims st = map (\<lambda>(kind, c). supported_claim cand kind c) (finding_claims p)"
      using loop by simp_all
    have "bt_values (fs_citations st) = map canonical_citation
        (filter (\<lambda>e. \<exists>kc \<in> set (finding_claims p). he_evidence_id e \<in> set (mc_evidence_ids (snd kc))) (ledger_entries l))"
      unfolding citations_values [OF assms c] mem ..
    then show ?thesis using Inr Some ok claims
      by (auto simp: validate_candidate_finding_def ok_or_def finding_section_loop finding_claims_def [symmetric]
          finding_ok_def reference_finding_def)
  qed
qed

section \<open>Reviews\<close>

definition gap_ok :: "HostEvidenceLedger \<Rightarrow> ModelGapV1 \<Rightarrow> bool" where
  "gap_ok l g \<longleftrightarrow> is_inert_id (mg_gap_id g) \<and> mg_candidate_id g \<in> ledger_candidate_ids l
     \<and> distinct (mg_related_evidence_ids g)
     \<and> list_all (citable l (\<lambda>c. c = mg_candidate_id g)) (mg_related_evidence_ids g)"

definition contradiction_ok :: "HostEvidenceLedger \<Rightarrow> KnownClaims \<Rightarrow> ModelContradictionV1 \<Rightarrow> bool" where
  "contradiction_ok l known c \<longleftrightarrow> is_inert_id (mx_contradiction_id c)
     \<and> mx_candidate_a c \<noteq> mx_candidate_b c
     \<and> {mx_candidate_a c, mx_candidate_b c} \<subseteq> ledger_candidate_ids l
     \<and> {(mx_candidate_a c, mx_claim_a_id c), (mx_candidate_b c, mx_claim_b_id c)} \<subseteq> known
     \<and> distinct (mx_evidence_ids c)
     \<and> list_all (citable l (\<lambda>k. k = mx_candidate_a c \<or> k = mx_candidate_b c)) (mx_evidence_ids c)"

definition review_ids :: "ModelReviewReportV1 \<Rightarrow> string list" where
  "review_ids p = map mg_gap_id (mr_evidence_gaps p) @ map mx_contradiction_id (mr_contradictions p)"

definition review_ok :: "HostEvidenceLedger \<Rightarrow> KnownClaims \<Rightarrow> ModelReviewReportV1 \<Rightarrow> bool" where
  "review_ok l known p \<longleftrightarrow> mr_schema p = REVIEW_SCHEMA_V1 \<and> list_all (gap_ok l) (mr_evidence_gaps p)
     \<and> list_all (contradiction_ok l known) (mr_contradictions p) \<and> distinct (review_ids p)"

text \<open>A loop that collects one record per item and refuses repeated ids: it succeeds exactly when every
  item passes and the ids are new.\<close>

lemma collecting_loop:
  assumes pass: "\<And>ids out x. P x \<Longrightarrow> key x \<notin> ids \<Longrightarrow> f (ids, out) x = Inr (insert (key x) ids, out @ [g x])"
    and fail: "\<And>ids out x. \<not> (P x \<and> key x \<notin> ids) \<Longrightarrow> \<exists>e. f (ids, out) x = Inl e"
  shows "case try_fold f (ids, out) xs of
      Inl err \<Rightarrow> \<not> (list_all P xs \<and> distinct (map key xs) \<and> set (map key xs) \<inter> ids = {})
    | Inr (ids', out') \<Rightarrow> list_all P xs \<and> distinct (map key xs) \<and> set (map key xs) \<inter> ids = {}
        \<and> ids' = ids \<union> set (map key xs) \<and> out' = out @ map g xs"
proof (induction xs arbitrary: ids out)
  case Nil
  then show ?case by simp
next
  case (Cons x xs)
  show ?case
  proof (cases "P x \<and> key x \<notin> ids")
    case True
    then show ?thesis
      using Cons.IH [of "insert (key x) ids" "out @ [g x]"] by (auto simp: pass split: sum.splits)
  next
    case False
    then show ?thesis using fail [OF False, of out] by auto
  qed
qed

lemma review_evidence_fail:
  "\<not> (distinct ids \<and> list_all (citable l in_scope) ids) \<Longrightarrow>
     \<exists>e. try_fold (review_evidence_step l in_scope) {} ids = Inl e"
  using review_evidence_loop [of l in_scope "{}" ids]
  by (cases "try_fold (review_evidence_step l in_scope) {} ids") auto

lemma review_evidence_pass:
  "distinct ids \<and> list_all (citable l in_scope) ids \<Longrightarrow>
     \<exists>s. try_fold (review_evidence_step l in_scope) {} ids = Inr s"
  using review_evidence_loop [of l in_scope "{}" ids]
  by (cases "try_fold (review_evidence_step l in_scope) {} ids") auto

lemma gap_loop:
  "case try_fold (gap_step l) (ids, out) gs of
      Inl err \<Rightarrow> \<not> (list_all (gap_ok l) gs \<and> distinct (map mg_gap_id gs) \<and> set (map mg_gap_id gs) \<inter> ids = {})
    | Inr (ids', out') \<Rightarrow> list_all (gap_ok l) gs \<and> distinct (map mg_gap_id gs) \<and> set (map mg_gap_id gs) \<inter> ids = {}
        \<and> ids' = ids \<union> set (map mg_gap_id gs) \<and> out' = out @ map review_gap gs"
proof (rule collecting_loop)
  fix ids out g
  show "gap_step l (ids, out) g = Inr (insert (mg_gap_id g) ids, out @ [review_gap g])"
    if "gap_ok l g" "mg_gap_id g \<notin> ids"
    using that review_evidence_pass [of "mg_related_evidence_ids g" l "\<lambda>c. c = mg_candidate_id g"]
    by (auto simp: gap_step_def gap_ok_def is_inert_id_def)
  show "\<exists>e. gap_step l (ids, out) g = Inl e" if "\<not> (gap_ok l g \<and> mg_gap_id g \<notin> ids)"
    using that review_evidence_fail [of "mg_related_evidence_ids g" l "\<lambda>c. c = mg_candidate_id g"]
    by (auto simp: gap_step_def gap_ok_def)
qed

lemma contradiction_loop:
  "case try_fold (contradiction_step l known) (ids, out) cs of
      Inl err \<Rightarrow> \<not> (list_all (contradiction_ok l known) cs \<and> distinct (map mx_contradiction_id cs)
        \<and> set (map mx_contradiction_id cs) \<inter> ids = {})
    | Inr (ids', out') \<Rightarrow> list_all (contradiction_ok l known) cs \<and> distinct (map mx_contradiction_id cs)
        \<and> set (map mx_contradiction_id cs) \<inter> ids = {}
        \<and> ids' = ids \<union> set (map mx_contradiction_id cs) \<and> out' = out @ map review_contradiction cs"
proof (rule collecting_loop)
  fix ids out c
  note ev = review_evidence_pass [of "mx_evidence_ids c" l "\<lambda>k. k = mx_candidate_a c \<or> k = mx_candidate_b c"]
    review_evidence_fail [of "mx_evidence_ids c" l "\<lambda>k. k = mx_candidate_a c \<or> k = mx_candidate_b c"]
  show "contradiction_step l known (ids, out) c = Inr (insert (mx_contradiction_id c) ids, out @ [review_contradiction c])"
    if "contradiction_ok l known c" "mx_contradiction_id c \<notin> ids"
    using that ev(1) by (auto simp: contradiction_step_def contradiction_ok_def is_inert_id_def)
  show "\<exists>e. contradiction_step l known (ids, out) c = Inl e"
    if "\<not> (contradiction_ok l known c \<and> mx_contradiction_id c \<notin> ids)"
    using that ev(2) by (auto simp: contradiction_step_def contradiction_ok_def)
qed

lemma review_report_iff:
  "validate_review_report F raw l known role_binding = Inr report \<longleftrightarrow>
     (\<exists>p. F raw = Some p \<and> review_ok l known p
        \<and> report = \<lparr>rv_gaps = map review_gap (mr_evidence_gaps p),
             rv_contradictions = map review_contradiction (mr_contradictions p), rv_role_binding = role_binding\<rparr>)"
proof (cases "F raw")
  case None
  then show ?thesis by (simp add: validate_review_report_def ok_or_def)
next
  case (Some p)
  note gaps = gap_loop [where l = l and ids = "{}" and out = "[]" and gs = "mr_evidence_gaps p"]
  show ?thesis
  proof (cases "try_fold (gap_step l) ({}, []) (mr_evidence_gaps p)")
    case (Inl e)
    then show ?thesis using gaps Some
      by (auto simp: validate_review_report_def ok_or_def review_ok_def review_ids_def)
  next
    case (Inr st)
    note rest = contradiction_loop [where l = l and known = known and ids = "set (map mg_gap_id (mr_evidence_gaps p))"
      and out = "[]" and cs = "mr_contradictions p"]
    have st: "st = (set (map mg_gap_id (mr_evidence_gaps p)), map review_gap (mr_evidence_gaps p))"
      using gaps Inr by (cases st) auto
    show ?thesis
    proof (cases "try_fold (contradiction_step l known) (set (map mg_gap_id (mr_evidence_gaps p)), []) (mr_contradictions p)")
      case fail: (Inl e)
      then show ?thesis using gaps rest Some Inr st
        by (auto simp: validate_review_report_def ok_or_def review_ok_def review_ids_def)
    next
      case pass: (Inr st')
      then show ?thesis using gaps rest Some Inr st
        by (cases st') (auto simp: validate_review_report_def ok_or_def review_ok_def review_ids_def)
    qed
  qed
qed

text \<open>A report whose gaps and contradictions are listed in another order is shown as the
  same text.\<close>

lemma render_review_perm:
  assumes "distinct (map rg_gap_id gaps)" and "distinct (map rx_contradiction_id cs)"
    and "mset gaps = mset gaps'" and "mset cs = mset cs'"
  shows "render_review_markdown \<lparr>rv_gaps = gaps, rv_contradictions = cs, rv_role_binding = rb\<rparr>
    = render_review_markdown \<lparr>rv_gaps = gaps', rv_contradictions = cs', rv_role_binding = rb\<rparr>"
  using sort_key_perm [OF assms(1,3)] sort_key_perm [OF assms(2,4)] by (simp add: render_review_markdown_def)

end
