(* ===== verification/Causal_Synthesis.thy ===== *)
theory Causal_Synthesis
  imports Multi_Contracts "HOL-Library.Product_Lexorder"
begin

text \<open>
  \<open>crates/cd-core/src/multi_model/causal_synthesis.rs\<close>: the host-bounded causal contract. The host
  states which relations a model may propose (slots), which evidence belongs to which claim
  (identities) and which kinds must be present; a proposal is accepted only inside that topology.
  Shown: construction and validation are characterised without loops, and an accepted proposal never
  moves evidence between claims or promotes recovery, unrelated or decoy evidence.

  Decoding is the argument \<open>F\<close>: the proposal, or whether the decoder's message contains
  \<open>unknown field\<close>. \<open>J\<close> prints JSON.
\<close>

section \<open>Types\<close>

definition CAUSAL_SYNTHESIS_SCHEMA_V1 :: string where
  "CAUSAL_SYNTHESIS_SCHEMA_V1 = ''contextdesk.multi_model.causal_synthesis.v1''"

datatype CausalRelationKind =
    InitiatingTrigger | PropagatedSymptom | UnrelatedCompeting | Recovery | Disconfirmation

fun relation_kind_str :: "CausalRelationKind \<Rightarrow> string" where
  "relation_kind_str InitiatingTrigger = ''initiating_trigger''"
| "relation_kind_str PropagatedSymptom = ''propagated_symptom''"
| "relation_kind_str UnrelatedCompeting = ''unrelated_competing''"
| "relation_kind_str Recovery = ''recovery''"
| "relation_kind_str Disconfirmation = ''disconfirmation''"

text \<open>The derived order: the order of declaration.\<close>

fun kind_rank :: "CausalRelationKind \<Rightarrow> nat" where
  "kind_rank InitiatingTrigger = 0"
| "kind_rank PropagatedSymptom = 1"
| "kind_rank UnrelatedCompeting = 2"
| "kind_rank Recovery = 3"
| "kind_rank Disconfirmation = 4"

lemma kind_rank_inject: "kind_rank a = kind_rank b \<longleftrightarrow> a = b"
  by (cases a; cases b) simp_all

instantiation CausalRelationKind :: linorder
begin

definition less_eq_CausalRelationKind :: "CausalRelationKind \<Rightarrow> CausalRelationKind \<Rightarrow> bool" where
  "less_eq_CausalRelationKind a b \<longleftrightarrow> kind_rank a \<le> kind_rank b"

definition less_CausalRelationKind :: "CausalRelationKind \<Rightarrow> CausalRelationKind \<Rightarrow> bool" where
  "less_CausalRelationKind a b \<longleftrightarrow> kind_rank a < kind_rank b"

instance
  by standard (auto simp: less_eq_CausalRelationKind_def less_CausalRelationKind_def
      dest: antisym simp: kind_rank_inject [symmetric])

end

datatype CausalSynthesisError =
    CsParse | CsSchema | CsUnknownField | CsDuplicateId | CsForeignIdentity | CsUnknownClaim | CsWrongScope
  | CsCrossCorpus | CsWrongRevision | CsFalseUnion | CsDecoyPromotion | CsRecoveryAsCause
  | CsMissingTrigger | CsMissingSymptom | CsMissingDisproof | CsEmptyEvidence | CsUnsafeIdentity
  | CsInvalidBinding | CsEmptyTopology | CsTopologyViolation

fun synthesis_error_str :: "CausalSynthesisError \<Rightarrow> string" where
  "synthesis_error_str CsParse = ''parse''"
| "synthesis_error_str CsSchema = ''schema''"
| "synthesis_error_str CsUnknownField = ''unknown_field''"
| "synthesis_error_str CsDuplicateId = ''duplicate_id''"
| "synthesis_error_str CsForeignIdentity = ''foreign_identity''"
| "synthesis_error_str CsUnknownClaim = ''unknown_claim''"
| "synthesis_error_str CsWrongScope = ''wrong_scope''"
| "synthesis_error_str CsCrossCorpus = ''cross_corpus''"
| "synthesis_error_str CsWrongRevision = ''wrong_revision''"
| "synthesis_error_str CsFalseUnion = ''false_union''"
| "synthesis_error_str CsDecoyPromotion = ''decoy_promotion''"
| "synthesis_error_str CsRecoveryAsCause = ''recovery_as_cause''"
| "synthesis_error_str CsMissingTrigger = ''missing_trigger''"
| "synthesis_error_str CsMissingSymptom = ''missing_symptom''"
| "synthesis_error_str CsMissingDisproof = ''missing_disproof''"
| "synthesis_error_str CsEmptyEvidence = ''empty_evidence''"
| "synthesis_error_str CsUnsafeIdentity = ''unsafe_identity''"
| "synthesis_error_str CsInvalidBinding = ''invalid_binding''"
| "synthesis_error_str CsEmptyTopology = ''empty_topology''"
| "synthesis_error_str CsTopologyViolation = ''topology_violation''"

record HostCausalIdentityV1 =
  hi_candidate_id :: string
  hi_claim_id :: string
  hi_evidence_id :: string
  hi_corpus_id :: string
  hi_revision :: LogSnapshotRevisionV1

record HostCausalSlotV1 =
  sl_kind :: CausalRelationKind
  sl_candidate_id :: string
  sl_claim_id :: string

text \<open>The order of slots is that of their fields.\<close>

type_synonym slot_key = "CausalRelationKind \<times> string \<times> string"
type_synonym slot_set = "(slot_key, HostCausalSlotV1) btree_map"

definition slot_key :: "HostCausalSlotV1 \<Rightarrow> slot_key" where
  "slot_key s = (sl_kind s, sl_candidate_id s, sl_claim_id s)"

record HostCausalClassesV1 =
  recovery_evidence_ids :: "string set"
  unrelated_evidence_ids :: "string set"
  decoy_evidence_ids :: "string set"

record HostCausalTopologyV1 =
  tp_corpus_id :: string
  tp_revision :: LogSnapshotRevisionV1
  tp_identities :: "(string, HostCausalIdentityV1) btree_map"
  tp_admitted_candidates :: "string set"
  tp_admitted_claims :: "(string \<times> string) set"
  tp_allowed_slots :: slot_set
  tp_required_kinds :: "CausalRelationKind set"
  tp_classes :: HostCausalClassesV1

section \<open>Construction\<close>

record admission =
  ad_identities :: "(string, HostCausalIdentityV1) btree_map"
  ad_candidates :: "string set"
  ad_claims :: "(string \<times> string) set"

definition admit_identity ::
  "admission \<Rightarrow> HostCausalIdentityV1 \<Rightarrow> (CausalSynthesisError, admission) result" where
  "admit_identity ad i =
     (if \<not> is_inert_id (hi_candidate_id i) \<or> \<not> is_inert_id (hi_claim_id i) \<or> \<not> is_inert_id (hi_evidence_id i)
      then Inl CsUnsafeIdentity
      else if bt_get (ad_identities ad) (hi_evidence_id i) \<noteq> None then Inl CsDuplicateId
      else Inr \<lparr>ad_identities = bt_insert (hi_evidence_id i) i (ad_identities ad),
                ad_candidates = insert (hi_candidate_id i) (ad_candidates ad),
                ad_claims = insert (hi_candidate_id i, hi_claim_id i) (ad_claims ad)\<rparr>)"

definition admit_slot ::
  "(string \<times> string) set \<Rightarrow> slot_set \<Rightarrow> HostCausalSlotV1 \<Rightarrow> (CausalSynthesisError, slot_set) result" where
  "admit_slot claims slots s =
     (if \<not> is_inert_id (sl_candidate_id s) \<or> \<not> is_inert_id (sl_claim_id s) then Inl CsUnsafeIdentity
      else if (sl_candidate_id s, sl_claim_id s) \<notin> claims then Inl CsUnknownClaim
      else if bt_get slots (slot_key s) \<noteq> None then Inl CsDuplicateId
      else Inr (bt_insert (slot_key s) s slots))"

definition topology_try_new ::
  "string \<Rightarrow> LogSnapshotRevisionV1 \<Rightarrow> HostCausalIdentityV1 list \<Rightarrow> HostCausalSlotV1 list
     \<Rightarrow> CausalRelationKind list \<Rightarrow> HostCausalClassesV1 \<Rightarrow> (CausalSynthesisError, HostCausalTopologyV1) result" where
  "topology_try_new corpus revision identities slots required classes =
     (if trim corpus = [] then Inl CsInvalidBinding
      else if identities = [] \<or> slots = [] \<or> required = [] then Inl CsEmptyTopology
      else and_then (try_fold admit_identity \<lparr>ad_identities = [], ad_candidates = {}, ad_claims = {}\<rparr> identities) (\<lambda>ad.
      and_then (try_fold (admit_slot (ad_claims ad)) [] slots) (\<lambda>allowed.
      Inr \<lparr>tp_corpus_id = corpus, tp_revision = revision, tp_identities = ad_identities ad,
           tp_admitted_candidates = ad_candidates ad, tp_admitted_claims = ad_claims ad,
           tp_allowed_slots = allowed, tp_required_kinds = set required, tp_classes = classes\<rparr>)))"

definition prompt_manifest :: "(json \<Rightarrow> string) \<Rightarrow> HostCausalTopologyV1 \<Rightarrow> string" where
  "prompt_manifest J t = J (JObject
     [(''schema'', JString ''contextdesk.multi_model.causal_topology_prompt.v1''),
      (''allowed_relations'', JArray (map (\<lambda>slot. JObject
         [(''kind'', JString (relation_kind_str (sl_kind slot))),
          (''candidate_id'', JString (sl_candidate_id slot)),
          (''claim_id'', JString (sl_claim_id slot)),
          (''evidence_ids'', JArray (map (\<lambda>i. JString (hi_evidence_id i))
             (filter (\<lambda>i. hi_candidate_id i = sl_candidate_id slot \<and> hi_claim_id i = sl_claim_id slot)
               (bt_values (tp_identities t)))))]) (bt_values (tp_allowed_slots t)))),
      (''required_kinds'', JArray (map (\<lambda>k. JString (relation_kind_str k))
         (filter (\<lambda>k. k \<in> tp_required_kinds t) [InitiatingTrigger, PropagatedSymptom, Disconfirmation])))])"

section \<open>Proposals\<close>

record ModelCausalRelationV1 =
  mrel_kind :: CausalRelationKind
  mrel_candidate_id :: string
  mrel_claim_id :: string
  mrel_evidence_ids :: "string list"
  mrel_note :: string

record ModelCausalSynthesisV1 =
  mcs_schema :: string
  mcs_relations :: "ModelCausalRelationV1 list"

record CausalRelationV1 =
  rel_kind :: CausalRelationKind
  rel_candidate_id :: string
  rel_claim_id :: string
  rel_evidence_ids :: "string list"
  rel_model_note :: string

record CausalSynthesisV1 =
  cs_schema :: string
  cs_corpus_id :: string
  cs_revision :: LogSnapshotRevisionV1
  cs_relations :: "CausalRelationV1 list"

text \<open>What the decoder reports: a proposal, or whether its message mentions an unknown field.\<close>

type_synonym causal_decoder = "string \<Rightarrow> (bool, ModelCausalSynthesisV1) result"

definition parse_proposal ::
  "causal_decoder \<Rightarrow> string \<Rightarrow> (CausalSynthesisError, ModelCausalSynthesisV1) result" where
  "parse_proposal F raw =
     (case F raw of Inr proposal \<Rightarrow> Inr proposal
      | Inl unknown_field \<Rightarrow> Inl (if unknown_field then CsUnknownField else CsParse))"

definition relation_evidence_step ::
  "HostCausalTopologyV1 \<Rightarrow> ModelCausalRelationV1 \<Rightarrow> string set \<Rightarrow> string
     \<Rightarrow> (CausalSynthesisError, string set) result" where
  "relation_evidence_step t rel seen eid =
     (if \<not> is_inert_id eid then Inl CsUnsafeIdentity
      else if eid \<in> seen then Inl CsDuplicateId
      else case bt_get (tp_identities t) eid of
        None \<Rightarrow> Inl CsForeignIdentity
      | Some i \<Rightarrow>
          if hi_candidate_id i \<noteq> mrel_candidate_id rel then Inl CsWrongScope
          else if hi_claim_id i \<noteq> mrel_claim_id rel then Inl CsUnknownClaim
          else if hi_corpus_id i \<noteq> tp_corpus_id t then Inl CsCrossCorpus
          else if hi_revision i \<noteq> tp_revision t then Inl CsWrongRevision
          else if eid \<in> recovery_evidence_ids (tp_classes t) \<and> mrel_kind rel = InitiatingTrigger
          then Inl CsRecoveryAsCause
          else if (eid \<in> unrelated_evidence_ids (tp_classes t) \<or> eid \<in> decoy_evidence_ids (tp_classes t))
             \<and> mrel_kind rel \<noteq> UnrelatedCompeting
          then Inl CsDecoyPromotion
          else Inr (insert eid seen))"

record synthesis_state =
  ss_seen_slots :: "slot_key set"
  ss_seen_claim_pairs :: "(string \<times> string) set"
  ss_present_kinds :: "CausalRelationKind set"
  ss_relations :: "CausalRelationV1 list"

definition host_relation :: "ModelCausalRelationV1 \<Rightarrow> CausalRelationV1" where
  "host_relation rel = \<lparr>rel_kind = mrel_kind rel, rel_candidate_id = mrel_candidate_id rel,
     rel_claim_id = mrel_claim_id rel, rel_evidence_ids = mrel_evidence_ids rel, rel_model_note = mrel_note rel\<rparr>"

definition relation_step ::
  "HostCausalTopologyV1 \<Rightarrow> synthesis_state \<Rightarrow> ModelCausalRelationV1
     \<Rightarrow> (CausalSynthesisError, synthesis_state) result" where
  "relation_step t st rel =
     (let pair = (mrel_candidate_id rel, mrel_claim_id rel);
          slot = (mrel_kind rel, mrel_candidate_id rel, mrel_claim_id rel) in
      if \<not> is_inert_id (mrel_candidate_id rel) \<or> \<not> is_inert_id (mrel_claim_id rel) then Inl CsUnsafeIdentity
      else if mrel_candidate_id rel \<notin> tp_admitted_candidates t then Inl CsFalseUnion
      else if pair \<notin> tp_admitted_claims t then Inl CsUnknownClaim
      else if bt_get (tp_allowed_slots t) slot = None then Inl CsTopologyViolation
      else if slot \<in> ss_seen_slots st then Inl CsDuplicateId
      else if pair \<in> ss_seen_claim_pairs st then Inl CsDuplicateId
      else if mrel_evidence_ids rel = [] then Inl CsEmptyEvidence
      else and_then (try_fold (relation_evidence_step t rel) {} (mrel_evidence_ids rel)) (\<lambda>_.
        Inr \<lparr>ss_seen_slots = insert slot (ss_seen_slots st),
             ss_seen_claim_pairs = insert pair (ss_seen_claim_pairs st),
             ss_present_kinds = insert (mrel_kind rel) (ss_present_kinds st),
             ss_relations = ss_relations st @ [host_relation rel]\<rparr>))"

definition missing_kind ::
  "HostCausalTopologyV1 \<Rightarrow> CausalRelationKind set \<Rightarrow> CausalRelationKind \<Rightarrow> CausalSynthesisError
     \<Rightarrow> (CausalSynthesisError, unit) result" where
  "missing_kind t present kind err =
     ensure (\<not> (kind \<in> tp_required_kinds t \<and> kind \<notin> present)) err"

definition validate_causal_synthesis ::
  "causal_decoder \<Rightarrow> string \<Rightarrow> HostCausalTopologyV1 \<Rightarrow> (CausalSynthesisError, CausalSynthesisV1) result" where
  "validate_causal_synthesis F raw t =
     and_then (parse_proposal F raw) (\<lambda>proposal.
     if mcs_schema proposal \<noteq> CAUSAL_SYNTHESIS_SCHEMA_V1 then Inl CsSchema
     else if mcs_relations proposal = [] then Inl CsEmptyEvidence
     else and_then (try_fold (relation_step t)
         \<lparr>ss_seen_slots = {}, ss_seen_claim_pairs = {}, ss_present_kinds = {}, ss_relations = []\<rparr>
         (mcs_relations proposal)) (\<lambda>st.
     and_then (try_all
         [missing_kind t (ss_present_kinds st) InitiatingTrigger CsMissingTrigger,
          missing_kind t (ss_present_kinds st) PropagatedSymptom CsMissingSymptom,
          missing_kind t (ss_present_kinds st) Disconfirmation CsMissingDisproof]) (\<lambda>_.
     Inr \<lparr>cs_schema = CAUSAL_SYNTHESIS_SCHEMA_V1, cs_corpus_id = tp_corpus_id t, cs_revision = tp_revision t,
          cs_relations = ss_relations st\<rparr>)))"

section \<open>What a topology is\<close>

definition identity_inert :: "HostCausalIdentityV1 \<Rightarrow> bool" where
  "identity_inert i \<longleftrightarrow> is_inert_id (hi_candidate_id i) \<and> is_inert_id (hi_claim_id i) \<and> is_inert_id (hi_evidence_id i)"

definition identity_pair :: "HostCausalIdentityV1 \<Rightarrow> string \<times> string" where
  "identity_pair i = (hi_candidate_id i, hi_claim_id i)"

definition slot_pair :: "HostCausalSlotV1 \<Rightarrow> string \<times> string" where
  "slot_pair s = (sl_candidate_id s, sl_claim_id s)"

lemma slot_key_inject: "slot_key s = slot_key s' \<longleftrightarrow> s = s'"
  by (cases s; cases s') (simp add: slot_key_def)

lemma admit_identities:
  assumes "bt_wf (ad_identities ad)"
  shows "try_fold admit_identity ad is = Inr ad' \<longleftrightarrow>
     list_all identity_inert is \<and> distinct (map hi_evidence_id is)
     \<and> (\<forall>i \<in> set is. bt_get (ad_identities ad) (hi_evidence_id i) = None)
     \<and> ad' = \<lparr>ad_identities = fold (\<lambda>i. bt_insert (hi_evidence_id i) i) is (ad_identities ad),
              ad_candidates = ad_candidates ad \<union> hi_candidate_id ` set is,
              ad_claims = ad_claims ad \<union> identity_pair ` set is\<rparr>"
  using assms
proof (induction "is" arbitrary: ad)
  case Nil
  then show ?case by auto
next
  case (Cons i "is")
  let ?ad = "\<lparr>ad_identities = bt_insert (hi_evidence_id i) i (ad_identities ad),
    ad_candidates = insert (hi_candidate_id i) (ad_candidates ad),
    ad_claims = insert (hi_candidate_id i, hi_claim_id i) (ad_claims ad)\<rparr>"
  show ?case
  proof (cases "identity_inert i \<and> bt_get (ad_identities ad) (hi_evidence_id i) = None")
    case True
    then have "admit_identity ad i = Inr ?ad" by (simp add: admit_identity_def identity_inert_def)
    moreover note Cons.IH [of ?ad]
    moreover have "(\<forall>j \<in> set is. bt_get (bt_insert (hi_evidence_id i) i (ad_identities ad)) (hi_evidence_id j) = None)
        \<longleftrightarrow> hi_evidence_id i \<notin> hi_evidence_id ` set is \<and> (\<forall>j \<in> set is. bt_get (ad_identities ad) (hi_evidence_id j) = None)"
      by (auto simp: bt_get_insert [OF Cons.prems] image_iff)
    ultimately show ?thesis using True Cons.prems by (auto simp: bt_wf_insert identity_pair_def)
  next
    case False
    then show ?thesis by (auto simp: admit_identity_def identity_inert_def)
  qed
qed

lemma admit_slots:
  assumes "bt_wf slots"
  shows "try_fold (admit_slot claims) slots ss = Inr slots' \<longleftrightarrow>
     list_all (\<lambda>s. is_inert_id (sl_candidate_id s) \<and> is_inert_id (sl_claim_id s) \<and> slot_pair s \<in> claims) ss
     \<and> distinct (map slot_key ss) \<and> (\<forall>s \<in> set ss. bt_get slots (slot_key s) = None)
     \<and> slots' = fold (\<lambda>s. bt_insert (slot_key s) s) ss slots"
  using assms
proof (induction ss arbitrary: slots)
  case Nil
  then show ?case by auto
next
  case (Cons s ss)
  show ?case
  proof (cases "is_inert_id (sl_candidate_id s) \<and> is_inert_id (sl_claim_id s) \<and> slot_pair s \<in> claims
      \<and> bt_get slots (slot_key s) = None")
    case True
    then have "admit_slot claims slots s = Inr (bt_insert (slot_key s) s slots)"
      by (simp add: admit_slot_def slot_pair_def)
    moreover have "(\<forall>r \<in> set ss. bt_get (bt_insert (slot_key s) s slots) (slot_key r) = None)
        \<longleftrightarrow> slot_key s \<notin> slot_key ` set ss \<and> (\<forall>r \<in> set ss. bt_get slots (slot_key r) = None)"
      by (auto simp: bt_get_insert [OF Cons.prems] image_iff)
    ultimately show ?thesis
      using True Cons.IH [OF bt_wf_insert [OF Cons.prems], of "slot_key s" s] by auto
  next
    case False
    then show ?thesis by (auto simp: admit_slot_def slot_pair_def)
  qed
qed

lemma topology_try_new_iff:
  "topology_try_new corpus revision identities slots required classes = Inr t \<longleftrightarrow>
     nonblank corpus \<and> identities \<noteq> [] \<and> slots \<noteq> [] \<and> required \<noteq> []
     \<and> list_all identity_inert identities \<and> distinct (map hi_evidence_id identities)
     \<and> list_all (\<lambda>s. is_inert_id (sl_candidate_id s) \<and> is_inert_id (sl_claim_id s)
          \<and> slot_pair s \<in> identity_pair ` set identities) slots
     \<and> distinct (map slot_key slots)
     \<and> t = \<lparr>tp_corpus_id = corpus, tp_revision = revision,
          tp_identities = map (\<lambda>i. (hi_evidence_id i, i)) (sort_key hi_evidence_id identities),
          tp_admitted_candidates = hi_candidate_id ` set identities,
          tp_admitted_claims = identity_pair ` set identities,
          tp_allowed_slots = map (\<lambda>s. (slot_key s, s)) (sort_key slot_key slots),
          tp_required_kinds = set required, tp_classes = classes\<rparr>"
proof -
  let ?ad = "\<lparr>ad_identities = [], ad_candidates = {}, ad_claims = {}\<rparr>"
  have wf: "bt_wf ([] :: ('k::linorder, 'v) btree_map)" by (simp add: bt_wf_def)
  have ids: "try_fold admit_identity ?ad identities = Inr ad \<longleftrightarrow>
      list_all identity_inert identities \<and> distinct (map hi_evidence_id identities)
      \<and> ad = \<lparr>ad_identities = map (\<lambda>i. (hi_evidence_id i, i)) (sort_key hi_evidence_id identities),
           ad_candidates = hi_candidate_id ` set identities, ad_claims = identity_pair ` set identities\<rparr>" for ad
    using admit_identities [of ?ad identities ad] fold_insert_sort [of hi_evidence_id identities "\<lambda>i. i"]
    by (auto simp: wf bt_get_def)
  have slots: "try_fold (admit_slot claims) [] slots = Inr allowed \<longleftrightarrow>
      list_all (\<lambda>s. is_inert_id (sl_candidate_id s) \<and> is_inert_id (sl_claim_id s) \<and> slot_pair s \<in> claims) slots
      \<and> distinct (map slot_key slots) \<and> allowed = map (\<lambda>s. (slot_key s, s)) (sort_key slot_key slots)" for claims allowed
    using admit_slots [OF wf, of claims slots allowed] fold_insert_sort [of slot_key slots "\<lambda>s. s"]
    by (auto simp: bt_get_def)
  show ?thesis
    unfolding topology_try_new_def nonblank_def by (auto simp: ids slots)
qed

section \<open>What is accepted\<close>

definition identity_ok :: "HostCausalTopologyV1 \<Rightarrow> ModelCausalRelationV1 \<Rightarrow> string \<Rightarrow> bool" where
  "identity_ok t rel eid \<longleftrightarrow> is_inert_id eid
     \<and> (case bt_get (tp_identities t) eid of None \<Rightarrow> False
        | Some i \<Rightarrow> hi_candidate_id i = mrel_candidate_id rel \<and> hi_claim_id i = mrel_claim_id rel
            \<and> hi_corpus_id i = tp_corpus_id t \<and> hi_revision i = tp_revision t)
     \<and> (eid \<in> recovery_evidence_ids (tp_classes t) \<longrightarrow> mrel_kind rel \<noteq> InitiatingTrigger)
     \<and> (eid \<in> unrelated_evidence_ids (tp_classes t) \<union> decoy_evidence_ids (tp_classes t)
          \<longrightarrow> mrel_kind rel = UnrelatedCompeting)"

definition relation_pair :: "ModelCausalRelationV1 \<Rightarrow> string \<times> string" where
  "relation_pair rel = (mrel_candidate_id rel, mrel_claim_id rel)"

definition relation_ok :: "HostCausalTopologyV1 \<Rightarrow> ModelCausalRelationV1 \<Rightarrow> bool" where
  "relation_ok t rel \<longleftrightarrow> is_inert_id (mrel_candidate_id rel) \<and> is_inert_id (mrel_claim_id rel)
     \<and> mrel_candidate_id rel \<in> tp_admitted_candidates t \<and> relation_pair rel \<in> tp_admitted_claims t
     \<and> bt_get (tp_allowed_slots t) (mrel_kind rel, relation_pair rel) \<noteq> None
     \<and> mrel_evidence_ids rel \<noteq> [] \<and> distinct (mrel_evidence_ids rel)
     \<and> list_all (identity_ok t rel) (mrel_evidence_ids rel)"

definition synthesis_ok :: "HostCausalTopologyV1 \<Rightarrow> ModelCausalSynthesisV1 \<Rightarrow> bool" where
  "synthesis_ok t p \<longleftrightarrow> mcs_schema p = CAUSAL_SYNTHESIS_SCHEMA_V1 \<and> mcs_relations p \<noteq> []
     \<and> list_all (relation_ok t) (mcs_relations p) \<and> distinct (map relation_pair (mcs_relations p))
     \<and> tp_required_kinds t \<inter> {InitiatingTrigger, PropagatedSymptom, Disconfirmation}
         \<subseteq> mrel_kind ` set (mcs_relations p)"

definition reference_synthesis :: "HostCausalTopologyV1 \<Rightarrow> ModelCausalSynthesisV1 \<Rightarrow> CausalSynthesisV1" where
  "reference_synthesis t p = \<lparr>cs_schema = CAUSAL_SYNTHESIS_SCHEMA_V1, cs_corpus_id = tp_corpus_id t,
     cs_revision = tp_revision t, cs_relations = map host_relation (mcs_relations p)\<rparr>"

lemma relation_evidence_loop:
  "is_ok (try_fold (relation_evidence_step t rel) seen eids) \<longleftrightarrow>
     distinct eids \<and> set eids \<inter> seen = {} \<and> list_all (identity_ok t rel) eids"
  by (induction eids arbitrary: seen)
     (auto simp: relation_evidence_step_def identity_ok_def split: option.splits)

lemma relation_step_ok:
  assumes "ss_seen_slots st \<subseteq> {(k, pair). pair \<in> ss_seen_claim_pairs st}"
  shows "relation_step t st rel = Inr st' \<longleftrightarrow> relation_ok t rel \<and> relation_pair rel \<notin> ss_seen_claim_pairs st
     \<and> st' = \<lparr>ss_seen_slots = insert (mrel_kind rel, relation_pair rel) (ss_seen_slots st),
             ss_seen_claim_pairs = insert (relation_pair rel) (ss_seen_claim_pairs st),
             ss_present_kinds = insert (mrel_kind rel) (ss_present_kinds st),
             ss_relations = ss_relations st @ [host_relation rel]\<rparr>"
  using assms relation_evidence_loop [of t rel "{}" "mrel_evidence_ids rel"]
  by (cases "try_fold (relation_evidence_step t rel) {} (mrel_evidence_ids rel)")
     (auto simp: relation_step_def relation_ok_def relation_pair_def Let_def)

lemma relations_loop:
  assumes "ss_seen_slots st \<subseteq> {(k, pair). pair \<in> ss_seen_claim_pairs st}"
  shows "try_fold (relation_step t) st rels = Inr st' \<longleftrightarrow>
     list_all (relation_ok t) rels \<and> distinct (map relation_pair rels)
     \<and> relation_pair ` set rels \<inter> ss_seen_claim_pairs st = {}
     \<and> st' = \<lparr>ss_seen_slots = ss_seen_slots st \<union> (\<lambda>rel. (mrel_kind rel, relation_pair rel)) ` set rels,
             ss_seen_claim_pairs = ss_seen_claim_pairs st \<union> relation_pair ` set rels,
             ss_present_kinds = ss_present_kinds st \<union> mrel_kind ` set rels,
             ss_relations = ss_relations st @ map host_relation rels\<rparr>"
  using assms
proof (induction rels arbitrary: st)
  case Nil
  then show ?case by auto
next
  case (Cons rel rels)
  let ?st = "\<lparr>ss_seen_slots = insert (mrel_kind rel, relation_pair rel) (ss_seen_slots st),
             ss_seen_claim_pairs = insert (relation_pair rel) (ss_seen_claim_pairs st),
             ss_present_kinds = insert (mrel_kind rel) (ss_present_kinds st),
             ss_relations = ss_relations st @ [host_relation rel]\<rparr>"
  note step = relation_step_ok [OF Cons.prems, of t rel]
  show ?case
  proof (cases "relation_ok t rel \<and> relation_pair rel \<notin> ss_seen_claim_pairs st")
    case True
    then have "relation_step t st rel = Inr ?st" by (simp add: step)
    moreover have "ss_seen_slots ?st \<subseteq> {(k, pair). pair \<in> ss_seen_claim_pairs ?st}" using Cons.prems by auto
    note Cons.IH [OF this]
    ultimately show ?thesis using True by auto
  next
    case False
    then have "relation_step t st rel \<noteq> Inr s" for s by (simp add: step)
    then have "\<exists>e. relation_step t st rel = Inl e" by (metis sum.exhaust)
    with False show ?thesis by auto
  qed
qed

lemma causal_synthesis_iff:
  "validate_causal_synthesis F raw t = Inr s \<longleftrightarrow>
     (\<exists>p. F raw = Inr p \<and> synthesis_ok t p \<and> s = reference_synthesis t p)"
proof -
  let ?st = "\<lparr>ss_seen_slots = {}, ss_seen_claim_pairs = {}, ss_present_kinds = {}, ss_relations = []\<rparr>"
  note loop = relations_loop [of ?st t]
  show ?thesis
    by (auto simp: validate_causal_synthesis_def parse_proposal_def loop synthesis_ok_def reference_synthesis_def
        missing_kind_def split: sum.splits)
qed

end
