(* ===== verification/Causal_Topology.thy ===== *)
theory Causal_Topology
  imports Causal_Synthesis Fast_Neighborhood
begin

text \<open>
  \<open>crates/cd-core/src/multi_model/causal_topology.rs\<close>: how the host derives the causal topology from
  validated findings, the evidence ledger and its own classification of the rows. Every supported and
  known claim is assigned one relation kind from the rows it cites; decoys are emission_ok first, then
  recoveries, then the rest; contradictions may add disconfirmation slots. Shown in this theory: what an
  emission_ok slot and identity are backed by, and the order independence of the assignment.
\<close>

section \<open>Types\<close>

datatype CausalTopologyDeriveError =
    CtWrongRevision | CtInvalidBinding | CtInsufficientHostProof | CtContestedReview | CtUnsafeIdentity
  | CtDuplicateId

fun derive_error_str :: "CausalTopologyDeriveError \<Rightarrow> string" where
  "derive_error_str CtWrongRevision = ''wrong_revision''"
| "derive_error_str CtInvalidBinding = ''invalid_binding''"
| "derive_error_str CtInsufficientHostProof = ''insufficient_host_proof''"
| "derive_error_str CtContestedReview = ''contested_review''"
| "derive_error_str CtUnsafeIdentity = ''unsafe_identity''"
| "derive_error_str CtDuplicateId = ''duplicate_id''"

record HostEvidenceClassV1 =
  hc_evidence_id :: string
  hc_scope :: FastTriageEvidenceScope
  hc_category :: FastTriageEvidenceCategory
  hc_chronology_ordinal :: "u64 option"
  hc_frequency :: "u64 option"

record HostCausalTopologyInput =
  ti_binding :: AnswerBindingV1
  ti_ledger :: HostEvidenceLedger
  ti_findings :: "CandidateFindingV1 list"
  ti_known_claims :: KnownClaims
  ti_contradictions :: "ReviewContradiction list"
  ti_recovery_evidence_ids :: "string set"
  ti_classifications :: "HostEvidenceClassV1 list"

record ClaimAssignment =
  as_kind :: CausalRelationKind
  as_evidence_ids :: "string list"
  as_decoy :: bool

type_synonym class_index = "(string, HostEvidenceClassV1) btree_map"
type_synonym assignments = "(string \<times> string, ClaimAssignment) btree_map"

section \<open>Classification\<close>

definition index_step ::
  "class_index \<Rightarrow> HostEvidenceClassV1 \<Rightarrow> (CausalTopologyDeriveError, class_index) result" where
  "index_step m c =
     (if bt_get m (hc_evidence_id c) \<noteq> None then Inl CtDuplicateId else Inr (bt_insert (hc_evidence_id c) c m))"

definition index_classifications ::
  "HostEvidenceClassV1 list \<Rightarrow> (CausalTopologyDeriveError, class_index) result" where
  "index_classifications classifications = try_fold index_step [] classifications"

definition class_of :: "class_index \<Rightarrow> string \<Rightarrow> HostEvidenceClassV1" where
  "class_of m i =
     (case bt_get m i of Some c \<Rightarrow> c
      | None \<Rightarrow> \<lparr>hc_evidence_id = i, hc_scope = ScopeCandidate, hc_category = IndependentNoise,
                 hc_chronology_ordinal = None, hc_frequency = None\<rparr>)"

definition is_independent_or_noise :: "HostEvidenceClassV1 \<Rightarrow> bool" where
  "is_independent_or_noise c \<longleftrightarrow> hc_scope c = ScopeIndependent \<or> hc_category c = IndependentNoise"

definition is_positional_chronology :: "HostEvidenceClassV1 \<Rightarrow> bool" where
  "is_positional_chronology c \<longleftrightarrow> hc_category c \<in> {PrecedingSameSource, FollowingSameSource}"

section \<open>Claims\<close>

definition pair_step ::
  "(string \<times> string) set \<Rightarrow> InvestigationClaimV1 \<Rightarrow> (CausalTopologyDeriveError, (string \<times> string) set) result" where
  "pair_step seen c =
     (if (claim_candidate_id c, claim_id c) \<in> seen then Inl CtDuplicateId
      else Inr (insert (claim_candidate_id c, claim_id c) seen))"

definition ensure_unique_claim_pairs ::
  "CandidateFindingV1 list \<Rightarrow> (CausalTopologyDeriveError, (string \<times> string) set) result" where
  "ensure_unique_claim_pairs findings =
     try_fold (\<lambda>seen f. try_fold pair_step seen (fi_claims f)) {} findings"

definition validated_entry ::
  "HostEvidenceLedger \<Rightarrow> AnswerBindingV1 \<Rightarrow> InvestigationClaimV1 \<Rightarrow> string \<Rightarrow> HostEvidenceEntry option" where
  "validated_entry l binding c i =
     (case ledger_get l i of
        None \<Rightarrow> None
      | Some e \<Rightarrow>
          if he_candidate_id e \<noteq> claim_candidate_id c then None
          else if he_corpus_id e \<noteq> bind_corpus_id binding \<or> he_revision e \<noteq> bind_revision binding then None
          else Some e)"

fun find_claim :: "CandidateFindingV1 list \<Rightarrow> string \<Rightarrow> string \<Rightarrow> InvestigationClaimV1 option" where
  "find_claim [] cand cl = None"
| "find_claim (f # fs) cand cl =
     (case find (\<lambda>c. claim_candidate_id c = cand \<and> claim_id c = cl) (fi_claims f) of
        Some c \<Rightarrow> Some c
      | None \<Rightarrow> find_claim fs cand cl)"

record sorted_evidence =
  poison_independent :: bool
  independent_ids :: "string list"
  recovery_ids :: "string list"
  symptom_ids :: "string list"
  trigger_ids :: "string list"
  unrelated_ids :: "string list"
  all_valid :: "string list"

definition sort_evidence_step ::
  "HostEvidenceLedger \<Rightarrow> AnswerBindingV1 \<Rightarrow> string set \<Rightarrow> class_index \<Rightarrow> InvestigationClaimV1
     \<Rightarrow> string \<Rightarrow> sorted_evidence \<Rightarrow> sorted_evidence" where
  "sort_evidence_step l binding recovery index c i st =
     (case validated_entry l binding c i of
        None \<Rightarrow> st
      | Some entry \<Rightarrow>
          if \<not> is_inert_id (he_evidence_id entry) then st
          else
            (let cls = class_of index i;
                 eid = he_evidence_id entry;
                 st = st\<lparr>all_valid := all_valid st @ [eid]\<rparr> in
             if is_independent_or_noise cls
             then st\<lparr>poison_independent := True, independent_ids := independent_ids st @ [eid]\<rparr>
             else if eid \<in> recovery then st\<lparr>recovery_ids := recovery_ids st @ [eid]\<rparr>
             else if claim_kind c = Symptom \<and> hc_scope cls = ScopeCandidate
             then st\<lparr>symptom_ids := symptom_ids st @ [eid]\<rparr>
             else if is_positional_chronology cls \<or> hc_category cls = Propagation
             then (if claim_kind c = CompetingExplanation then st\<lparr>unrelated_ids := unrelated_ids st @ [eid]\<rparr> else st)
             else if hc_scope cls = ScopeCandidate \<and> claim_kind c \<noteq> Symptom
                \<and> (claim_kind c = CausalCandidate \<or> he_role entry = RoleCause)
             then st\<lparr>trigger_ids := trigger_ids st @ [eid]\<rparr>
             else if claim_kind c = CompetingExplanation then st\<lparr>unrelated_ids := unrelated_ids st @ [eid]\<rparr>
             else st))"

definition assign_claim ::
  "CandidateFindingV1 \<Rightarrow> InvestigationClaimV1 \<Rightarrow> HostEvidenceLedger \<Rightarrow> AnswerBindingV1 \<Rightarrow> KnownClaims
     \<Rightarrow> string set \<Rightarrow> class_index \<Rightarrow> ClaimAssignment option" where
  "assign_claim f c l binding known recovery index =
     (if fi_candidate_id f \<noteq> claim_candidate_id c then None
      else if (claim_candidate_id c, claim_id c) \<notin> known then None
      else if claim_status c \<noteq> Supported then None
      else if \<not> is_inert_id (claim_candidate_id c) \<or> \<not> is_inert_id (claim_id c) then None
      else
        (let st = fold (sort_evidence_step l binding recovery index c) (claim_evidence_ids c)
               \<lparr>poison_independent = False, independent_ids = [], recovery_ids = [], symptom_ids = [],
                trigger_ids = [], unrelated_ids = [], all_valid = []\<rparr> in
         if poison_independent st
         then Some \<lparr>as_kind = UnrelatedCompeting,
                    as_evidence_ids = (if independent_ids st = [] then all_valid st else independent_ids st),
                    as_decoy = True\<rparr>
         else if recovery_ids st \<noteq> []
         then Some \<lparr>as_kind = Recovery, as_evidence_ids = recovery_ids st, as_decoy = False\<rparr>
         else if symptom_ids st \<noteq> []
         then Some \<lparr>as_kind = PropagatedSymptom, as_evidence_ids = symptom_ids st, as_decoy = False\<rparr>
         else if trigger_ids st \<noteq> []
         then Some \<lparr>as_kind = InitiatingTrigger, as_evidence_ids = trigger_ids st, as_decoy = False\<rparr>
         else if unrelated_ids st \<noteq> []
         then Some \<lparr>as_kind = UnrelatedCompeting, as_evidence_ids = unrelated_ids st, as_decoy = False\<rparr>
         else None))"

definition assign_claims ::
  "HostEvidenceLedger \<Rightarrow> AnswerBindingV1 \<Rightarrow> KnownClaims \<Rightarrow> string set \<Rightarrow> class_index
     \<Rightarrow> CandidateFindingV1 list \<Rightarrow> assignments" where
  "assign_claims l binding known recovery index findings =
     fold (\<lambda>f. fold (\<lambda>c m. case assign_claim f c l binding known recovery index of
         None \<Rightarrow> m
       | Some a \<Rightarrow> bt_insert (claim_candidate_id c, claim_id c) a m) (fi_claims f)) findings []"

section \<open>Emission\<close>

record derivation =
  dv_identities :: "(string, HostCausalIdentityV1) btree_map"
  dv_slots :: slot_set
  dv_classes :: HostCausalClassesV1

fun identity_matches_kind :: "CausalRelationKind \<Rightarrow> InvestigationClaimV1 \<Rightarrow> HostEvidenceEntry \<Rightarrow> bool" where
  "identity_matches_kind Recovery c e = True"
| "identity_matches_kind PropagatedSymptom c e = (claim_kind c = Symptom)"
| "identity_matches_kind InitiatingTrigger c e = (claim_kind c = CausalCandidate \<or> he_role e = RoleCause)"
| "identity_matches_kind UnrelatedCompeting c e = True"
| "identity_matches_kind Disconfirmation c e = False"

definition identity_matches_assignment ::
  "ClaimAssignment \<Rightarrow> InvestigationClaimV1 \<Rightarrow> HostEvidenceEntry \<Rightarrow> bool" where
  "identity_matches_assignment a c e \<longleftrightarrow> as_decoy a \<or> identity_matches_kind (as_kind a) c e"

definition classify_evidence :: "ClaimAssignment \<Rightarrow> string \<Rightarrow> HostCausalClassesV1 \<Rightarrow> HostCausalClassesV1" where
  "classify_evidence a i cl =
     (case as_kind a of
        Recovery \<Rightarrow> cl\<lparr>recovery_evidence_ids := insert i (recovery_evidence_ids cl)\<rparr>
      | UnrelatedCompeting \<Rightarrow>
          (let cl = cl\<lparr>unrelated_evidence_ids := insert i (unrelated_evidence_ids cl)\<rparr> in
           if as_decoy a then cl\<lparr>decoy_evidence_ids := insert i (decoy_evidence_ids cl)\<rparr> else cl)
      | _ \<Rightarrow> cl)"

definition host_identity :: "string \<Rightarrow> string \<Rightarrow> string \<Rightarrow> HostEvidenceEntry \<Rightarrow> HostCausalIdentityV1" where
  "host_identity cand cl i e = \<lparr>hi_candidate_id = cand, hi_claim_id = cl, hi_evidence_id = i,
     hi_corpus_id = he_corpus_id e, hi_revision = he_revision e\<rparr>"

text \<open>One evidence id of an assignment; the flag says that the slot has evidence.\<close>

definition emit_evidence_step ::
  "HostEvidenceLedger \<Rightarrow> string \<Rightarrow> string \<Rightarrow> ClaimAssignment \<Rightarrow> InvestigationClaimV1
     \<Rightarrow> derivation \<times> bool \<Rightarrow> string \<Rightarrow> (CausalTopologyDeriveError, derivation \<times> bool) result" where
  "emit_evidence_step l cand cl a c acc i =
     (let (d, admitted) = acc in
      case ledger_get l i of
        None \<Rightarrow> Inr (d, admitted)
      | Some e \<Rightarrow>
          if \<not> identity_matches_assignment a c e then Inr (d, admitted)
          else case bt_get (dv_identities d) i of
            Some existing \<Rightarrow>
              if hi_candidate_id existing \<noteq> cand \<or> hi_claim_id existing \<noteq> cl then Inl CtDuplicateId
              else Inr (d, True)
          | None \<Rightarrow>
              Inr (d\<lparr>dv_identities := bt_insert i (host_identity cand cl i e) (dv_identities d),
                     dv_classes := classify_evidence a i (dv_classes d)\<rparr>, True))"

definition slot_of :: "CausalRelationKind \<Rightarrow> string \<Rightarrow> string \<Rightarrow> HostCausalSlotV1" where
  "slot_of kind cand cl = \<lparr>sl_kind = kind, sl_candidate_id = cand, sl_claim_id = cl\<rparr>"

definition insert_slot :: "HostCausalSlotV1 \<Rightarrow> derivation \<Rightarrow> derivation" where
  "insert_slot s d = d\<lparr>dv_slots := bt_insert (slot_key s) s (dv_slots d)\<rparr>"

definition emit_step ::
  "HostEvidenceLedger \<Rightarrow> CandidateFindingV1 list \<Rightarrow> (ClaimAssignment \<Rightarrow> bool)
     \<Rightarrow> derivation \<Rightarrow> (string \<times> string) \<times> ClaimAssignment \<Rightarrow> (CausalTopologyDeriveError, derivation) result" where
  "emit_step l findings inc d entry =
     (case entry of ((cand, cl), a) \<Rightarrow>
        if \<not> inc a then Inr d
        else case find_claim findings cand cl of
          None \<Rightarrow> Inr d
        | Some c \<Rightarrow>
            and_then (try_fold (emit_evidence_step l cand cl a c) (d, False) (as_evidence_ids a)) (\<lambda>(d, admitted).
            Inr (if admitted then insert_slot (slot_of (as_kind a) cand cl) d else d)))"

definition emit_assignments ::
  "assignments \<Rightarrow> CandidateFindingV1 list \<Rightarrow> HostEvidenceLedger \<Rightarrow> (ClaimAssignment \<Rightarrow> bool)
     \<Rightarrow> derivation \<Rightarrow> (CausalTopologyDeriveError, derivation) result" where
  "emit_assignments m findings l inc d = try_fold (emit_step l findings inc) d m"

section \<open>Disconfirmation\<close>

definition disconfirmation_evidence ::
  "ReviewContradiction \<Rightarrow> string \<Rightarrow> string \<Rightarrow> CandidateFindingV1 list \<Rightarrow> HostEvidenceLedger \<Rightarrow> AnswerBindingV1
     \<Rightarrow> string list" where
  "disconfirmation_evidence x cand cl findings l binding =
     (case find_claim findings cand cl of
        None \<Rightarrow> []
      | Some c \<Rightarrow> filter (\<lambda>i. i \<in> set (claim_evidence_ids c)
          \<and> (case ledger_get l i of None \<Rightarrow> False
             | Some e \<Rightarrow> he_candidate_id e = cand \<and> he_corpus_id e = bind_corpus_id binding
                 \<and> he_revision e = bind_revision binding)) (rx_evidence_ids x))"

definition disconfirm_evidence_step ::
  "HostEvidenceLedger \<Rightarrow> AnswerBindingV1 \<Rightarrow> string \<times> string \<Rightarrow> derivation \<times> bool \<Rightarrow> string
     \<Rightarrow> (CausalTopologyDeriveError, derivation \<times> bool) result" where
  "disconfirm_evidence_step l binding pair acc i =
     (let (d, admitted) = acc in
      case bt_get (dv_identities d) i of
        Some existing \<Rightarrow>
          if hi_candidate_id existing = fst pair \<and> hi_claim_id existing = snd pair then Inr (d, True)
          else Inl CtDuplicateId
      | None \<Rightarrow>
          (case ledger_get l i of
             None \<Rightarrow> Inr (d, admitted)
           | Some e \<Rightarrow>
               if he_candidate_id e \<noteq> fst pair \<or> he_corpus_id e \<noteq> bind_corpus_id binding
                  \<or> he_revision e \<noteq> bind_revision binding then Inr (d, admitted)
               else if \<not> is_inert_id i \<or> \<not> is_inert_id (fst pair) \<or> \<not> is_inert_id (snd pair)
               then Inl CtUnsafeIdentity
               else Inr (d\<lparr>dv_identities := bt_insert i (host_identity (fst pair) (snd pair) i e) (dv_identities d)\<rparr>,
                         True)))"

definition disconfirm_pair_step ::
  "CandidateFindingV1 list \<Rightarrow> HostEvidenceLedger \<Rightarrow> AnswerBindingV1 \<Rightarrow> ReviewContradiction
     \<Rightarrow> derivation \<Rightarrow> string \<times> string \<Rightarrow> (CausalTopologyDeriveError, derivation) result" where
  "disconfirm_pair_step findings l binding x d pair =
     and_then (try_fold (disconfirm_evidence_step l binding pair) (d, False)
         (disconfirmation_evidence x (fst pair) (snd pair) findings l binding)) (\<lambda>(d, admitted).
     Inr (if admitted then insert_slot (slot_of Disconfirmation (fst pair) (snd pair)) d else d))"

definition admit_disconfirmation ::
  "ReviewContradiction list \<Rightarrow> KnownClaims \<Rightarrow> CandidateFindingV1 list \<Rightarrow> HostEvidenceLedger \<Rightarrow> AnswerBindingV1
     \<Rightarrow> derivation \<Rightarrow> (CausalTopologyDeriveError, derivation) result" where
  "admit_disconfirmation contradictions known findings l binding d =
     try_fold (\<lambda>d x.
       let pair_a = (rx_candidate_a x, rx_claim_a_id x); pair_b = (rx_candidate_b x, rx_claim_b_id x) in
       if fst pair_a = fst pair_b then Inr d
       else if pair_a \<notin> known \<or> pair_b \<notin> known then Inr d
       else try_fold (disconfirm_pair_step findings l binding x) d [pair_a, pair_b]) d contradictions"

section \<open>The topology\<close>

fun map_try_new :: "CausalSynthesisError \<Rightarrow> CausalTopologyDeriveError" where
  "map_try_new CsEmptyTopology = CtInsufficientHostProof"
| "map_try_new CsUnknownClaim = CtInsufficientHostProof"
| "map_try_new CsInvalidBinding = CtInvalidBinding"
| "map_try_new CsUnsafeIdentity = CtUnsafeIdentity"
| "map_try_new CsDuplicateId = CtDuplicateId"
| "map_try_new CsWrongRevision = CtWrongRevision"
| "map_try_new CsCrossCorpus = CtWrongRevision"
| "map_try_new _ = CtInsufficientHostProof"

definition required_kinds :: "HostCausalSlotV1 list \<Rightarrow> CausalRelationKind list" where
  "required_kinds slots = bt_keys (fold (\<lambda>s. bt_insert (sl_kind s) ()) slots [])"

text \<open>The three passes over the assignments and the contradictions.\<close>

definition derive_slots ::
  "HostCausalTopologyInput \<Rightarrow> class_index \<Rightarrow> (CausalTopologyDeriveError, derivation) result" where
  "derive_slots input index =
     (let binding = ti_binding input; l = ti_ledger input; findings = ti_findings input;
          m = assign_claims l binding (ti_known_claims input) (ti_recovery_evidence_ids input) index findings;
          d0 = \<lparr>dv_identities = [], dv_slots = [],
                dv_classes = \<lparr>recovery_evidence_ids = {}, unrelated_evidence_ids = {}, decoy_evidence_ids = {}\<rparr>\<rparr> in
      and_then (emit_assignments m findings l as_decoy d0) (\<lambda>d1.
      and_then (emit_assignments m findings l (\<lambda>a. as_kind a = Recovery \<and> \<not> as_decoy a) d1) (\<lambda>d2.
      and_then (emit_assignments m findings l (\<lambda>a. \<not> as_decoy a \<and> as_kind a \<noteq> Recovery) d2) (\<lambda>d3.
      admit_disconfirmation (ti_contradictions input) (ti_known_claims input) findings l binding d3))))"

definition derive_host_causal_topology ::
  "HostCausalTopologyInput \<Rightarrow> (CausalTopologyDeriveError, HostCausalTopologyV1) result" where
  "derive_host_causal_topology input =
     (let binding = ti_binding input; ledger_binding = led_binding (ti_ledger input) in
      if bind_corpus_id binding \<noteq> bind_corpus_id ledger_binding \<or> bind_revision binding \<noteq> bind_revision ledger_binding
      then Inl CtWrongRevision
      else if bind_session_id binding \<noteq> bind_session_id ledger_binding
         \<or> bind_turn_id binding \<noteq> bind_turn_id ledger_binding
         \<or> bind_ledger_digest binding \<noteq> bind_ledger_digest ledger_binding
      then Inl CtInvalidBinding
      else
        and_then (index_classifications (ti_classifications input)) (\<lambda>index.
        and_then (ensure_unique_claim_pairs (ti_findings input)) (\<lambda>_.
        and_then (derive_slots input index) (\<lambda>d.
          let slots = bt_values (dv_slots d) in
          if \<not> list_ex (\<lambda>s. sl_kind s = InitiatingTrigger) slots
             \<or> \<not> list_ex (\<lambda>s. sl_kind s = PropagatedSymptom) slots
          then Inl CtInsufficientHostProof
          else map_err map_try_new
            (topology_try_new (bind_corpus_id binding) (bind_revision binding) (bt_values (dv_identities d)) slots
               (required_kinds slots) (dv_classes d))))))"

section \<open>Indexes\<close>

lemma index_loop:
  "bt_wf m \<Longrightarrow> try_fold index_step m cs = Inr m' \<longleftrightarrow>
     distinct (map hc_evidence_id cs) \<and> (\<forall>c \<in> set cs. bt_get m (hc_evidence_id c) = None)
     \<and> m' = fold (\<lambda>c. bt_insert (hc_evidence_id c) c) cs m"
proof (induction cs arbitrary: m)
  case Nil
  then show ?case by auto
next
  case (Cons c cs)
  note IH = Cons.IH [OF bt_wf_insert [OF Cons.prems], of "hc_evidence_id c" c]
  show ?case
    by (cases "bt_get m (hc_evidence_id c)")
       (auto simp: index_step_def [of m c] IH bt_get_insert [OF Cons.prems] image_iff split: if_splits)
qed

lemma index_classifications_iff:
  "index_classifications cs = Inr m \<longleftrightarrow> distinct (map hc_evidence_id cs)
     \<and> m = map (\<lambda>c. (hc_evidence_id c, c)) (sort_key hc_evidence_id cs)"
  unfolding index_classifications_def using index_loop [of "[]" cs m] fold_insert_sort [of hc_evidence_id cs "\<lambda>c. c"]
  by (auto simp: bt_wf_def bt_get_def)

lemma index_get:
  assumes "index_classifications cs = Inr m"
  shows "bt_get m i = Some c \<longleftrightarrow> c \<in> set cs \<and> hc_evidence_id c = i"
proof -
  note m = assms [unfolded index_classifications_iff]
  have "distinct (map fst m)" using m sort_key_strict [of hc_evidence_id cs]
    by (simp add: comp_def strict_sorted_iff)
  then show ?thesis using m map_of_eq_Some_iff [of m i c] by (auto simp: bt_get_def)
qed

abbreviation claim_pair :: "InvestigationClaimV1 \<Rightarrow> string \<times> string" where
  "claim_pair c \<equiv> (claim_candidate_id c, claim_id c)"

definition all_claims :: "CandidateFindingV1 list \<Rightarrow> InvestigationClaimV1 list" where
  "all_claims findings = concat (map fi_claims findings)"

lemma pair_loop:
  "try_fold pair_step seen cs = Inr seen' \<longleftrightarrow>
     distinct (map claim_pair cs) \<and> claim_pair ` set cs \<inter> seen = {} \<and> seen' = seen \<union> claim_pair ` set cs"
  by (induction cs arbitrary: seen) (auto simp: pair_step_def split: if_splits)

lemma try_fold_concat: "try_fold (\<lambda>s x. try_fold f s (g x)) s xs = try_fold f s (concat (map g xs))"
  by (induction xs arbitrary: s) (auto simp: try_fold_append split: sum.splits)

lemma unique_pairs_iff:
  "ensure_unique_claim_pairs findings = Inr seen \<longleftrightarrow>
     distinct (map claim_pair (all_claims findings)) \<and> seen = claim_pair ` set (all_claims findings)"
  by (auto simp: ensure_unique_claim_pairs_def try_fold_concat pair_loop all_claims_def)

lemma distinct_pair_same:
  "distinct (map claim_pair cs) \<Longrightarrow> c \<in> set cs \<Longrightarrow> c' \<in> set cs \<Longrightarrow> claim_pair c = claim_pair c' \<Longrightarrow> c = c'"
  by (auto simp: distinct_map dest: inj_onD)

lemma find_claim_find:
  "find_claim findings cand cl = find (\<lambda>c. claim_pair c = (cand, cl)) (all_claims findings)"
proof (induction findings)
  case Nil
  then show ?case by (simp add: all_claims_def)
next
  case (Cons f fs)
  have app: "find P (xs @ ys) = (case find P xs of None \<Rightarrow> find P ys | Some x \<Rightarrow> Some x)"
    for P and xs ys :: "InvestigationClaimV1 list" by (induction xs) auto
  show ?case using Cons by (simp add: all_claims_def app split: option.splits)
qed

lemma find_claim_iff:
  assumes "distinct (map claim_pair (all_claims findings))"
  shows "find_claim findings cand cl = Some c \<longleftrightarrow> c \<in> set (all_claims findings) \<and> claim_pair c = (cand, cl)"
proof
  assume "find_claim findings cand cl = Some c"
  then show "c \<in> set (all_claims findings) \<and> claim_pair c = (cand, cl)"
    unfolding find_claim_find by (auto simp: find_Some_iff)
next
  assume c: "c \<in> set (all_claims findings) \<and> claim_pair c = (cand, cl)"
  then obtain c' where f: "find (\<lambda>c. claim_pair c = (cand, cl)) (all_claims findings) = Some c'"
    by (cases "find (\<lambda>c. claim_pair c = (cand, cl)) (all_claims findings)") (auto simp: find_None_iff)
  then have "c' \<in> set (all_claims findings)" "claim_pair c' = (cand, cl)" by (auto simp: find_Some_iff)
  with distinct_pair_same [OF assms] c have "c' = c" by simp
  with f show "find_claim findings cand cl = Some c" by (simp add: find_claim_find)
qed

section \<open>Routing of evidence\<close>

text \<open>Where the loop over the evidence of a claim files one row.\<close>

datatype evidence_route = ToIndependent | ToRecovery | ToSymptom | ToTrigger | ToUnrelated | ToNowhere

definition class_route ::
  "bool \<Rightarrow> ClaimKind \<Rightarrow> EvidenceRole \<Rightarrow> HostEvidenceClassV1 \<Rightarrow> evidence_route" where
  "class_route recovered kind role cls =
     (if is_independent_or_noise cls then ToIndependent
      else if recovered then ToRecovery
      else if kind = Symptom \<and> hc_scope cls = ScopeCandidate then ToSymptom
      else if \<not> is_positional_chronology cls \<and> hc_category cls \<noteq> Propagation
         \<and> hc_scope cls = ScopeCandidate \<and> kind \<noteq> Symptom \<and> (kind = CausalCandidate \<or> role = RoleCause) then ToTrigger
      else if kind = CompetingExplanation then ToUnrelated
      else ToNowhere)"

definition evidence_route ::
  "HostEvidenceLedger \<Rightarrow> AnswerBindingV1 \<Rightarrow> string set \<Rightarrow> class_index \<Rightarrow> InvestigationClaimV1
     \<Rightarrow> string \<Rightarrow> evidence_route option" where
  "evidence_route l binding recovery index c i =
     (case validated_entry l binding c i of
        None \<Rightarrow> None
      | Some e \<Rightarrow> if \<not> is_inert_id i then None
          else Some (class_route (i \<in> recovery) (claim_kind c) (he_role e) (class_of index i)))"

definition routed :: "(string \<Rightarrow> evidence_route option) \<Rightarrow> string list \<Rightarrow> evidence_route \<Rightarrow> string list" where
  "routed r ids x = filter (\<lambda>i. r i = Some x) ids"

lemma ledger_keyed: "ledger_wf l \<Longrightarrow> ledger_get l i = Some e \<Longrightarrow> he_evidence_id e = i"
  by (auto simp: ledger_wf_def ledger_get_def bt_get_def dest!: map_of_SomeD)

fun file_evidence :: "evidence_route \<Rightarrow> string \<Rightarrow> sorted_evidence \<Rightarrow> sorted_evidence" where
  "file_evidence ToIndependent i st = st\<lparr>poison_independent := True, independent_ids := independent_ids st @ [i]\<rparr>"
| "file_evidence ToRecovery i st = st\<lparr>recovery_ids := recovery_ids st @ [i]\<rparr>"
| "file_evidence ToSymptom i st = st\<lparr>symptom_ids := symptom_ids st @ [i]\<rparr>"
| "file_evidence ToTrigger i st = st\<lparr>trigger_ids := trigger_ids st @ [i]\<rparr>"
| "file_evidence ToUnrelated i st = st\<lparr>unrelated_ids := unrelated_ids st @ [i]\<rparr>"
| "file_evidence ToNowhere i st = st"

lemma sort_evidence_step_eq:
  assumes "ledger_wf l"
  shows "sort_evidence_step l binding recovery index c i st =
     (case evidence_route l binding recovery index c i of None \<Rightarrow> st
      | Some x \<Rightarrow> file_evidence x i (st\<lparr>all_valid := all_valid st @ [i]\<rparr>))"
proof (cases "validated_entry l binding c i")
  case None
  then show ?thesis by (simp add: sort_evidence_step_def evidence_route_def)
next
  case (Some e)
  then have "he_evidence_id e = i"
    using ledger_keyed [OF assms, of i] by (auto simp: validated_entry_def split: option.splits if_splits)
  with Some show ?thesis
    by (simp add: sort_evidence_step_def evidence_route_def class_route_def Let_def)
qed

lemma sort_evidence_fold:
  assumes "ledger_wf l" and r: "r = evidence_route l binding recovery index c"
  shows "fold (sort_evidence_step l binding recovery index c) ids st =
     st\<lparr>poison_independent := poison_independent st \<or> routed r ids ToIndependent \<noteq> [],
        independent_ids := independent_ids st @ routed r ids ToIndependent,
        recovery_ids := recovery_ids st @ routed r ids ToRecovery,
        symptom_ids := symptom_ids st @ routed r ids ToSymptom,
        trigger_ids := trigger_ids st @ routed r ids ToTrigger,
        unrelated_ids := unrelated_ids st @ routed r ids ToUnrelated,
        all_valid := all_valid st @ filter (\<lambda>i. r i \<noteq> None) ids\<rparr>"
proof (induction ids arbitrary: st)
  case Nil
  then show ?case by (simp add: routed_def)
next
  case (Cons i ids)
  note step = sort_evidence_step_eq [OF assms(1), of binding recovery index c i st, folded r]
  show ?case
  proof (cases "r i")
    case None
    then show ?thesis using Cons.IH [of st] by (simp add: step routed_def)
  next
    case (Some x)
    then show ?thesis
      using Cons.IH [of "file_evidence x i (st\<lparr>all_valid := all_valid st @ [i]\<rparr>)"]
      by (cases x) (simp_all add: step routed_def)
  qed
qed

definition assignment_of :: "(string \<Rightarrow> evidence_route option) \<Rightarrow> string list \<Rightarrow> ClaimAssignment option" where
  "assignment_of r ids =
     (let pick = (\<lambda>kind x decoy. \<lparr>as_kind = kind, as_evidence_ids = routed r ids x, as_decoy = decoy\<rparr>) in
      if routed r ids ToIndependent \<noteq> [] then Some (pick UnrelatedCompeting ToIndependent True)
      else if routed r ids ToRecovery \<noteq> [] then Some (pick Recovery ToRecovery False)
      else if routed r ids ToSymptom \<noteq> [] then Some (pick PropagatedSymptom ToSymptom False)
      else if routed r ids ToTrigger \<noteq> [] then Some (pick InitiatingTrigger ToTrigger False)
      else if routed r ids ToUnrelated \<noteq> [] then Some (pick UnrelatedCompeting ToUnrelated False)
      else None)"

definition admissible_claim :: "KnownClaims \<Rightarrow> CandidateFindingV1 \<Rightarrow> InvestigationClaimV1 \<Rightarrow> bool" where
  "admissible_claim known f c \<longleftrightarrow> fi_candidate_id f = claim_candidate_id c \<and> claim_pair c \<in> known
     \<and> claim_status c = Supported \<and> is_inert_id (claim_candidate_id c) \<and> is_inert_id (claim_id c)"

lemma assign_claim_eq:
  "ledger_wf l \<Longrightarrow> assign_claim f c l binding known recovery index =
     (if admissible_claim known f c
      then assignment_of (evidence_route l binding recovery index c) (claim_evidence_ids c) else None)"
  by (simp add: assign_claim_def admissible_claim_def sort_evidence_fold [OF _ refl] assignment_of_def Let_def)

fun route_of_kind :: "CausalRelationKind \<Rightarrow> bool \<Rightarrow> evidence_route" where
  "route_of_kind Recovery d = ToRecovery"
| "route_of_kind PropagatedSymptom d = ToSymptom"
| "route_of_kind InitiatingTrigger d = ToTrigger"
| "route_of_kind UnrelatedCompeting d = (if d then ToIndependent else ToUnrelated)"
| "route_of_kind Disconfirmation d = ToNowhere"

lemma assignment_of_Some:
  "assignment_of r ids = Some a \<Longrightarrow> as_evidence_ids a = routed r ids (route_of_kind (as_kind a) (as_decoy a))
     \<and> as_evidence_ids a \<noteq> [] \<and> as_kind a \<noteq> Disconfirmation \<and> (as_decoy a \<longrightarrow> as_kind a = UnrelatedCompeting)"
  by (auto simp: assignment_of_def Let_def split: if_splits)

section \<open>Assignments\<close>

definition claim_entries :: "CandidateFindingV1 list \<Rightarrow> (CandidateFindingV1 \<times> InvestigationClaimV1) list" where
  "claim_entries findings = concat (map (\<lambda>f. map (Pair f) (fi_claims f)) findings)"

lemma claim_entries_claims: "map snd (claim_entries findings) = all_claims findings"
  by (induction findings) (simp_all add: claim_entries_def all_claims_def comp_def)

lemma claim_entries_mem: "(f, c) \<in> set (claim_entries findings) \<longleftrightarrow> f \<in> set findings \<and> c \<in> set (fi_claims f)"
  by (auto simp: claim_entries_def)

abbreviation entry_pair :: "CandidateFindingV1 \<times> InvestigationClaimV1 \<Rightarrow> string \<times> string" where
  "entry_pair fc \<equiv> claim_pair (snd fc)"

lemma fold_optional_insert:
  "fold (\<lambda>x m. case g x of None \<Rightarrow> m | Some a \<Rightarrow> bt_insert (k x) a m) xs m =
     fold (\<lambda>x. bt_insert (k x) (the (g x))) (filter (\<lambda>x. g x \<noteq> None) xs) m"
  by (induction xs arbitrary: m) (auto split: option.splits)

lemma fold_nested: "fold (\<lambda>f. fold (h f) (g f)) fs m =
     fold (\<lambda>fc. h (fst fc) (snd fc)) (concat (map (\<lambda>f. map (Pair f) (g f)) fs)) m"
  by (induction fs arbitrary: m) (simp_all add: fold_map comp_def)

lemma distinct_entries:
  assumes "distinct (map claim_pair (all_claims findings))"
  shows "distinct (map entry_pair (filter P (claim_entries findings)))"
proof -
  have "map entry_pair (claim_entries findings) = map claim_pair (map snd (claim_entries findings))" by simp
  then have "distinct (map entry_pair (claim_entries findings))" using assms by (simp only: claim_entries_claims)
  then show ?thesis by (rule distinct_map_filter)
qed

lemma assign_claims_eq:
  assumes "distinct (map claim_pair (all_claims findings))"
  shows "assign_claims l binding known recovery index findings =
     map (\<lambda>fc. (entry_pair fc, the (assign_claim (fst fc) (snd fc) l binding known recovery index)))
       (sort_key entry_pair (filter (\<lambda>fc. assign_claim (fst fc) (snd fc) l binding known recovery index \<noteq> None)
         (claim_entries findings)))"
proof -
  let ?g = "\<lambda>fc. assign_claim (fst fc) (snd fc) l binding known recovery index"
  have "assign_claims l binding known recovery index findings =
      fold (\<lambda>fc m. case ?g fc of None \<Rightarrow> m | Some a \<Rightarrow> bt_insert (entry_pair fc) a m) (claim_entries findings) []"
    unfolding assign_claims_def fold_nested claim_entries_def ..
  then show ?thesis
    unfolding fold_optional_insert by (rule trans) (rule fold_insert_sort [OF distinct_entries [OF assms]])
qed

lemma assign_claims_get:
  assumes "distinct (map claim_pair (all_claims findings))"
  shows "bt_wf (assign_claims l binding known recovery index findings)"
    and "bt_get (assign_claims l binding known recovery index findings) pair = Some a \<longleftrightarrow>
      (\<exists>f \<in> set findings. \<exists>c \<in> set (fi_claims f). claim_pair c = pair
         \<and> assign_claim f c l binding known recovery index = Some a)"
proof -
  let ?m = "assign_claims l binding known recovery index findings"
  show wf: "bt_wf ?m"
    using sort_key_strict [OF distinct_entries [OF assms], of "\<lambda>fc. assign_claim (fst fc) (snd fc) l binding known recovery index \<noteq> None"]
    unfolding assign_claims_eq [OF assms] by (simp add: bt_wf_def comp_def)
  have "bt_get ?m pair = Some a \<longleftrightarrow> (pair, a) \<in> set ?m"
    using map_of_eq_Some_iff [OF bt_wf_distinct [OF wf]] by (simp add: bt_get_def)
  also have "\<dots> \<longleftrightarrow> (\<exists>fc \<in> set (claim_entries findings). entry_pair fc = pair
      \<and> assign_claim (fst fc) (snd fc) l binding known recovery index = Some a)"
    unfolding assign_claims_eq [OF assms] by (simp add: image_iff Bex_def) (metis option.sel)
  also have "\<dots> \<longleftrightarrow> (\<exists>f \<in> set findings. \<exists>c \<in> set (fi_claims f). claim_pair c = pair
      \<and> assign_claim f c l binding known recovery index = Some a)"
    by (auto simp: claim_entries_mem Bex_def)
  finally show "bt_get ?m pair = Some a \<longleftrightarrow> (\<exists>f \<in> set findings. \<exists>c \<in> set (fi_claims f). claim_pair c = pair
      \<and> assign_claim f c l binding known recovery index = Some a)" .
qed

section \<open>What the passes emit\<close>

text \<open>Every identity and every slot comes from an assignment of its claim, and the evidence classes
  contain only evidence of assignments of their kind.\<close>

definition emission_ok :: "HostEvidenceLedger \<Rightarrow> assignments \<Rightarrow> derivation \<Rightarrow> bool" where
  "emission_ok l m d \<longleftrightarrow> bt_wf (dv_identities d) \<and> bt_wf (dv_slots d)
     \<and> (\<forall>i idn. bt_get (dv_identities d) i = Some idn \<longrightarrow>
          (\<exists>a e. bt_get m (identity_pair idn) = Some a \<and> i \<in> set (as_evidence_ids a) \<and> ledger_get l i = Some e
             \<and> idn = host_identity (hi_candidate_id idn) (hi_claim_id idn) i e))
     \<and> (\<forall>k s. bt_get (dv_slots d) k = Some s \<longrightarrow> slot_key s = k
          \<and> (\<exists>a. bt_get m (slot_pair s) = Some a \<and> as_kind a = sl_kind s)
          \<and> (\<exists>i idn. bt_get (dv_identities d) i = Some idn \<and> identity_pair idn = slot_pair s))
     \<and> (\<forall>i \<in> recovery_evidence_ids (dv_classes d). \<exists>idn a. bt_get (dv_identities d) i = Some idn
          \<and> bt_get m (identity_pair idn) = Some a \<and> as_kind a = Recovery)
     \<and> (\<forall>i \<in> unrelated_evidence_ids (dv_classes d) \<union> decoy_evidence_ids (dv_classes d).
          \<exists>idn a. bt_get (dv_identities d) i = Some idn
            \<and> bt_get m (identity_pair idn) = Some a \<and> as_kind a = UnrelatedCompeting)"

definition has_evidence :: "derivation \<Rightarrow> string \<times> string \<Rightarrow> bool" where
  "has_evidence d pair \<longleftrightarrow> (\<exists>i idn. bt_get (dv_identities d) i = Some idn \<and> identity_pair idn = pair)"

lemma classify_evidence_sets:
  "recovery_evidence_ids (classify_evidence a i cl) = (if as_kind a = Recovery then insert i else id) (recovery_evidence_ids cl)"
  "unrelated_evidence_ids (classify_evidence a i cl) \<union> decoy_evidence_ids (classify_evidence a i cl)
     = (if as_kind a = UnrelatedCompeting then insert i else id) (unrelated_evidence_ids cl \<union> decoy_evidence_ids cl)"
  by (auto simp: classify_evidence_def Let_def split: CausalRelationKind.splits)

lemma identity_pair_host: "identity_pair (host_identity cand cl i e) = (cand, cl)"
  by (simp add: identity_pair_def host_identity_def)

lemma emitted_identity:
  assumes em: "emission_ok l m d" and a: "bt_get m (cand, cl) = Some a" "i \<in> set (as_evidence_ids a)"
    and e: "ledger_get l i = Some e" and new: "bt_get (dv_identities d) i = None"
  shows "emission_ok l m (d\<lparr>dv_identities := bt_insert i (host_identity cand cl i e) (dv_identities d),
    dv_classes := classify_evidence a i (dv_classes d)\<rparr>)"
proof -
  let ?h = "host_identity cand cl i e"
  let ?d = "d\<lparr>dv_identities := bt_insert i ?h (dv_identities d), dv_classes := classify_evidence a i (dv_classes d)\<rparr>"
  have wf: "bt_wf (dv_identities d)" using em by (simp add: emission_ok_def)
  have cls: "dv_classes ?d = classify_evidence a i (dv_classes d)" by simp
  have get: "bt_get (dv_identities ?d) j = (if j = i then Some ?h else bt_get (dv_identities d) j)" for j
    by (simp add: bt_get_insert [OF wf])
  have keep: "bt_get (dv_identities ?d) j = Some idn" if "bt_get (dv_identities d) j = Some idn" for j idn
    using that new get [of j] by (metis option.distinct(1))
  have h: "identity_pair ?h = (cand, cl)" "hi_candidate_id ?h = cand" "hi_claim_id ?h = cl"
    by (simp_all add: host_identity_def identity_pair_def)
  have ids: "\<exists>a e. bt_get m (identity_pair idn) = Some a \<and> j \<in> set (as_evidence_ids a) \<and> ledger_get l j = Some e
      \<and> idn = host_identity (hi_candidate_id idn) (hi_claim_id idn) j e"
    if "bt_get (dv_identities ?d) j = Some idn" for j idn
  proof (cases "j = i")
    case True
    then have "idn = ?h" using that get [of j] by simp
    then show ?thesis using True a e h by auto
  next
    case False
    then have "bt_get (dv_identities d) j = Some idn" using that get [of j] by simp
    then show ?thesis using em by (simp add: emission_ok_def)
  qed
  have slots: "slot_key s = k \<and> (\<exists>a. bt_get m (slot_pair s) = Some a \<and> as_kind a = sl_kind s)
      \<and> (\<exists>j idn. bt_get (dv_identities ?d) j = Some idn \<and> identity_pair idn = slot_pair s)"
    if "bt_get (dv_slots ?d) k = Some s" for k s
  proof -
    have "bt_get (dv_slots d) k = Some s" using that by simp
    then show ?thesis using em keep unfolding emission_ok_def by metis
  qed
  have classes: "\<exists>idn a. bt_get (dv_identities ?d) j = Some idn \<and> bt_get m (identity_pair idn) = Some a \<and> as_kind a = k"
    if "j = i \<and> as_kind a = k \<or> (\<exists>idn a. bt_get (dv_identities d) j = Some idn
        \<and> bt_get m (identity_pair idn) = Some a \<and> as_kind a = k)" for j k
    using that a(1) keep h(1) get [of i] by metis
  have "\<exists>idn a. bt_get (dv_identities ?d) j = Some idn \<and> bt_get m (identity_pair idn) = Some a \<and> as_kind a = Recovery"
    if "j \<in> recovery_evidence_ids (dv_classes ?d)" for j
    using that em by (intro classes) (auto simp: classify_evidence_sets emission_ok_def split: if_splits)
  moreover have "\<exists>idn a. bt_get (dv_identities ?d) j = Some idn \<and> bt_get m (identity_pair idn) = Some a
      \<and> as_kind a = UnrelatedCompeting"
    if "j \<in> unrelated_evidence_ids (dv_classes ?d) \<union> decoy_evidence_ids (dv_classes ?d)" for j
  proof (rule classes)
    have "j \<in> (if as_kind a = UnrelatedCompeting then insert i else id)
        (unrelated_evidence_ids (dv_classes d) \<union> decoy_evidence_ids (dv_classes d))"
      using that unfolding cls classify_evidence_sets(2) .
    then show "j = i \<and> as_kind a = UnrelatedCompeting \<or> (\<exists>idn a. bt_get (dv_identities d) j = Some idn
        \<and> bt_get m (identity_pair idn) = Some a \<and> as_kind a = UnrelatedCompeting)"
      using em by (auto simp: emission_ok_def split: if_splits)
  qed
  moreover have "bt_wf (dv_identities ?d)" "bt_wf (dv_slots ?d)"
    using em by (simp_all add: emission_ok_def bt_wf_insert)
  ultimately show ?thesis unfolding emission_ok_def [of l m ?d] using ids slots by blast
qed

lemma emit_evidence_keeps:
  assumes "emit_evidence_step l cand cl a c (d, admitted) i = Inr (d', admitted')"
    and "emission_ok l m d \<and> (admitted \<longrightarrow> has_evidence d (cand, cl))"
    and "bt_get m (cand, cl) = Some a" "i \<in> set (as_evidence_ids a)"
  shows "emission_ok l m d' \<and> (admitted' \<longrightarrow> has_evidence d' (cand, cl))"
proof (cases "ledger_get l i")
  case None
  then show ?thesis using assms by (simp add: emit_evidence_step_def)
next
  case (Some e)
  show ?thesis
  proof (cases "bt_get (dv_identities d) i")
    case (Some existing)
    then show ?thesis using assms \<open>ledger_get l i = Some e\<close>
      by (auto simp: emit_evidence_step_def has_evidence_def identity_pair_def split: if_splits)
  next
    case None
    note new = emitted_identity [OF _ assms(3,4) Some None]
    have "has_evidence (d\<lparr>dv_identities := bt_insert i (host_identity cand cl i e) (dv_identities d),
        dv_classes := classify_evidence a i (dv_classes d)\<rparr>) (cand, cl)" if "bt_wf (dv_identities d)"
      unfolding has_evidence_def using that
      by (intro exI [of _ i] exI [of _ "host_identity cand cl i e"]) (simp add: bt_get_insert identity_pair_host)
    moreover have "bt_wf (dv_identities d)" using assms(2) by (simp add: emission_ok_def)
    ultimately show ?thesis using assms new Some None
      by (auto simp: emit_evidence_step_def split: if_splits)
  qed
qed

lemma emitted_slot:
  assumes "emission_ok l m d" "bt_get m (cand, cl) = Some a" "has_evidence d (cand, cl)"
  shows "emission_ok l m (insert_slot (slot_of (as_kind a) cand cl) d)"
proof -
  let ?s = "slot_of (as_kind a) cand cl"
  have wf: "bt_wf (dv_slots d)" using assms(1) by (simp add: emission_ok_def)
  have "slot_pair ?s = (cand, cl)" "sl_kind ?s = as_kind a" by (simp_all add: slot_of_def slot_pair_def)
  with assms wf show ?thesis
    unfolding emission_ok_def insert_slot_def has_evidence_def
    by (simp add: bt_get_insert bt_wf_insert)
qed

lemma emit_step_keeps:
  assumes "emit_step l findings inc d ((cand, cl), a) = Inr d'" and "emission_ok l m d" and "bt_get m (cand, cl) = Some a"
  shows "emission_ok l m d'"
proof (cases "inc a \<and> find_claim findings cand cl \<noteq> None")
  case False
  then show ?thesis using assms by (auto simp: emit_step_def split: option.splits)
next
  case True
  then obtain c where c: "find_claim findings cand cl = Some c" by auto
  with True assms(1) obtain d1 admitted where
    loop: "try_fold (emit_evidence_step l cand cl a c) (d, False) (as_evidence_ids a) = Inr (d1, admitted)"
    and d': "d' = (if admitted then insert_slot (slot_of (as_kind a) cand cl) d1 else d1)"
    by (auto simp: emit_step_def)
  have "case (d1, admitted) of (d, adm) \<Rightarrow> emission_ok l m d \<and> (adm \<longrightarrow> has_evidence d (cand, cl))"
    by (rule try_fold_invariant [OF loop]) (use assms(2,3) emit_evidence_keeps in \<open>auto\<close>)
  then show ?thesis using d' emitted_slot [OF _ assms(3)] by auto
qed

lemma emit_assignments_keeps:
  assumes "emit_assignments m findings l inc d = Inr d'" and "emission_ok l m d" and "bt_wf m"
  shows "emission_ok l m d'"
proof (rule try_fold_invariant [where I = "emission_ok l m", OF assms(1) [unfolded emit_assignments_def] assms(2)])
  fix d x t
  assume "emission_ok l m d" "x \<in> set m" "emit_step l findings inc d x = Inr t"
  moreover obtain cand cl a where "x = ((cand, cl), a)" by (metis prod.exhaust)
  moreover from this \<open>x \<in> set m\<close> have "bt_get m (cand, cl) = Some a"
    using bt_wf_distinct [OF assms(3)] by (simp add: bt_get_def)
  ultimately show "emission_ok l m t" using emit_step_keeps by blast
qed

end
