(* ===== verification/Review_Pipeline.thy ===== *)
theory Review_Pipeline
  imports Review_Prompt
begin

text \<open>
  \<open>crates/cd-core/src/multi_model/pipeline.rs\<close>, second half: the driver of one stage and the reviewed
  pipeline. Each stage is driven by a backend as in the fast route; the progress callback is the list of
  the events it was called with. A cancellation or deadline that falls between the guard before a call
  and the call itself is a call that ends with \<open>CancelObserved\<close> or \<open>TimedOut\<close>. Counters are machine
  words with the saturating operations of the code.
\<close>

section \<open>Data\<close>

record ('w, 'e) MultiModelBackends =
  bk_investigator :: "('w, 'e) backend"
  bk_reviewer :: "('w, 'e) backend"
  bk_synthesizer :: "('w, 'e) backend"

record MultiModelRoleIds =
  investigator_profile :: string
  investigator_model :: string
  reviewer_profile :: string
  reviewer_model :: string
  synthesizer_profile :: string
  synthesizer_model :: string

record StageProgressEvent =
  pe_role :: InvestigationRole
  pe_started :: bool
  pe_outcome :: "StageOutcomeKind option"
  pe_candidate_id :: "string option"
  pe_detail :: string

datatype 'e MultiModelOutcome =
    MmCompleted AnswerEnvelopeV1 string "ReviewReportV1 option" MultiModelTurnTelemetry
  | MmFailedClosed string MultiModelTurnTelemetry
  | MmNotEligible
  | MmCancelled
  | MmDeadline
  | MmProviderFailed 'e

record ReviewPipelineInputs =
  rp_user_text :: string
  rp_candidates :: "BroadLogTriageCandidate list"
  rp_comparison_context :: "BroadLogTriageComparisonContext option"
  rp_causal_packet :: "FastTriagePacketV1 option"
  rp_binding :: AnswerBindingV1
  rp_budget :: MultiModelBudget
  rp_role_ids :: MultiModelRoleIds
  rp_deadline_ms :: u64

text \<open>What the run takes from outside: the digest, the JSON printer and decoders, the character
  classes of the renderer, and the nonces of each prompt that is built.\<close>

record review_codecs =
  co_digest :: "string \<Rightarrow> string"
  co_print :: "json \<Rightarrow> string"
  co_alphanumeric :: "string \<Rightarrow> bool"
  co_finding :: "string \<Rightarrow> ModelCandidateFindingV1 option"
  co_review :: "string \<Rightarrow> ModelReviewReportV1 option"
  co_causal :: causal_decoder
  co_answer :: "string \<Rightarrow> ModelInvestigationAnswerV1 option"
  co_nonce :: "nat \<Rightarrow> nat \<Rightarrow> string"

text \<open>The locals of the run, with the events emitted, the number of prompts built and the world.\<close>

record 'w review_state =
  vs_stages :: "StageTelemetry list"
  vs_used_rounds :: u32
  vs_used_chars :: u64
  vs_events :: "StageProgressEvent list"
  vs_builds :: nat
  vs_world :: 'w

section \<open>One stage\<close>

record stage_usage =
  us_rounds :: u32
  us_corrections :: u8
  us_chars :: u64

datatype ('e, 'a) CallResult =
    CrOk 'a stage_usage
  | CrSemanticInvalid stage_usage
  | CrProvider 'e stage_usage
  | CrDeadline stage_usage
  | CrBudgetExhausted stage_usage
  | CrCancelled stage_usage

definition message_chars :: "ChatMessage list \<Rightarrow> u64" where
  "message_chars messages = of_nat (estimate_context_chars messages)"

definition remaining_turn_chars :: "u64 option \<Rightarrow> u64 \<Rightarrow> u64 option" where
  "remaining_turn_chars limit used = map_option (\<lambda>l. saturating_sub l used) limit"

definition deadline_reached :: "'w host \<Rightarrow> TurnDeadlinePlan \<Rightarrow> 'w \<Rightarrow> bool" where
  "deadline_reached host plan w \<longleftrightarrow> remaining_for_operation plan ChoosingEvidence (elapsed_ns host w) = Some 0"

record ('w, 'e, 'a) stage =
  st_backend :: "('w, 'e) backend"
  st_build :: "nat \<Rightarrow> bool \<Rightarrow> ChatMessage list"
  st_validate :: "string \<Rightarrow> 'a option"
  st_max_corrections :: u8
  st_max_rounds :: u32
  st_per_call :: nat
  st_remaining :: "u64 option"

text \<open>One iteration of the loop of \<open>drive_stage\<close>: it returns, or goes on with a correction.\<close>

definition drive_step ::
  "'w host \<Rightarrow> TurnDeadlinePlan \<Rightarrow> ('w, 'e, 'a) stage \<Rightarrow> stage_usage \<Rightarrow> nat \<Rightarrow> 'w
     \<Rightarrow> (('e, 'a) CallResult \<times> nat \<times> 'w) + (stage_usage \<times> nat \<times> 'w)" where
  "drive_step host plan s u n w =
     (if us_rounds u \<ge> st_max_rounds s then Inl (CrSemanticInvalid u, n, w)
      else let messages = st_build s n (us_corrections u > 0); est = message_chars messages in
      if unat est > st_per_call s then Inl (CrBudgetExhausted u, Suc n, w)
      else if (case st_remaining s of None \<Rightarrow> False | Some r \<Rightarrow> saturating_add (us_chars u) est > r)
      then Inl (CrBudgetExhausted u, Suc n, w)
      else if cancel_flag host w then Inl (CrCancelled u, Suc n, w)
      else if deadline_reached host plan w then Inl (CrDeadline u, Suc n, w)
      else let u = u\<lparr>us_rounds := saturating_add (us_rounds u) 1, us_chars := saturating_add (us_chars u) est\<rparr> in
      case within_turn_deadline host plan (st_backend s) messages w of (awaited, fragments, w) \<Rightarrow>
      (case awaited of
         Inr (Inr completion) \<Rightarrow>
           (let content = (if trim (cc_content completion) = [] then concat fragments else cc_content completion) in
            case st_validate s content of
              Some value \<Rightarrow> Inl (CrOk value u, Suc n, w)
            | None \<Rightarrow>
                if us_corrections u \<ge> st_max_corrections s then Inl (CrSemanticInvalid u, Suc n, w)
                else Inr (u\<lparr>us_corrections := saturating_add (us_corrections u) 1\<rparr>, Suc n, w))
       | Inr (Inl e) \<Rightarrow>
           if cancel_flag host w then Inl (CrCancelled u, Suc n, w) else Inl (CrProvider e u, Suc n, w)
       | Inl AwaitCancelled \<Rightarrow> Inl (CrCancelled u, Suc n, w)
       | Inl AwaitDeadline \<Rightarrow> Inl (CrDeadline u, Suc n, w)))"

text \<open>What an iteration that goes on has spent.\<close>

lemma drive_step_continues:
  assumes "drive_step host plan s u n w = Inr (u', n', w')"
  shows "us_rounds u < st_max_rounds s" and "us_rounds u' = saturating_add (us_rounds u) 1"
    and "us_chars u' = saturating_add (us_chars u) (message_chars (st_build s n (us_corrections u > 0)))"
    and "us_corrections u < st_max_corrections s" and "us_corrections u' = saturating_add (us_corrections u) 1"
  using assms
  by (auto simp: drive_step_def Let_def not_le
      split: if_splits prod.splits sum.splits option.splits TurnAwaitError.splits)

lemma saturating_Suc:
  fixes a b :: "'a::len word"
  assumes "a < b"
  shows "unat (saturating_add a 1) = Suc (unat a)"
proof -
  have "unat a < unat b" using assms by (simp add: word_less_nat_alt)
  moreover have "unat b < 2 ^ LENGTH('a)" by (rule unsigned_less)
  ultimately have "Suc (unat a) \<le> 2 ^ LENGTH('a) - 1" by linarith
  then show ?thesis by (simp add: unat_saturating_add)
qed

function drive_loop ::
  "'w host \<Rightarrow> TurnDeadlinePlan \<Rightarrow> ('w, 'e, 'a) stage \<Rightarrow> stage_usage \<Rightarrow> nat \<Rightarrow> 'w
     \<Rightarrow> ('e, 'a) CallResult \<times> nat \<times> 'w" where
  "drive_loop host plan s u n w =
     (case drive_step host plan s u n w of
        Inl result \<Rightarrow> result
      | Inr (u, n, w) \<Rightarrow> drive_loop host plan s u n w)"
  by pat_completeness auto
termination
proof (relation "measure (\<lambda>(host, plan, s, u, n, w). unat (st_max_rounds s) - unat (us_rounds u))", goal_cases)
  case (2 host plan s u n w t u' t' n' w')
  then have step: "drive_step host plan s u n w = Inr (u', n', w')" by simp
  then show ?case
    using drive_step_continues(1,2) [OF step]
    by (simp add: saturating_Suc [OF drive_step_continues(1) [OF step]] word_less_nat_alt)
qed simp

declare drive_loop.simps [simp del]

definition drive_stage ::
  "'w host \<Rightarrow> TurnDeadlinePlan \<Rightarrow> ('w, 'e, 'a) stage \<Rightarrow> nat \<Rightarrow> 'w \<Rightarrow> ('e, 'a) CallResult \<times> nat \<times> 'w" where
  "drive_stage host plan s n w = drive_loop host plan s \<lparr>us_rounds = 0, us_corrections = 0, us_chars = 0\<rparr> n w"

section \<open>Bookkeeping\<close>

definition role_binding :: "InvestigationRole \<Rightarrow> string \<Rightarrow> string \<Rightarrow> u8 \<Rightarrow> RoleBinding" where
  "role_binding role profile model corrections =
     \<lparr>rb_role = role, rb_profile = profile, rb_model = model, rb_semantic_attempts = corrections\<rparr>"

fun role_profile :: "MultiModelRoleIds \<Rightarrow> InvestigationRole \<Rightarrow> string" where
  "role_profile ids Investigator = investigator_profile ids"
| "role_profile ids Reviewer = reviewer_profile ids"
| "role_profile ids CausalSynthesizer = synthesizer_profile ids"
| "role_profile ids Synthesizer = synthesizer_profile ids"

fun role_model :: "MultiModelRoleIds \<Rightarrow> InvestigationRole \<Rightarrow> string" where
  "role_model ids Investigator = investigator_model ids"
| "role_model ids Reviewer = reviewer_model ids"
| "role_model ids CausalSynthesizer = synthesizer_model ids"
| "role_model ids Synthesizer = synthesizer_model ids"

definition emit_event ::
  "InvestigationRole \<Rightarrow> bool \<Rightarrow> StageOutcomeKind option \<Rightarrow> string option \<Rightarrow> string \<Rightarrow> 'w review_state \<Rightarrow> 'w review_state" where
  "emit_event role started outcome candidate detail st =
     st\<lparr>vs_events := vs_events st @ [\<lparr>pe_role = role, pe_started = started, pe_outcome = outcome,
          pe_candidate_id = candidate, pe_detail = detail\<rparr>]\<rparr>"

definition push_stage ::
  "MultiModelRoleIds \<Rightarrow> InvestigationRole \<Rightarrow> stage_usage \<Rightarrow> StageOutcomeKind \<Rightarrow> 'w review_state \<Rightarrow> 'w review_state" where
  "push_stage ids role u outcome st =
     st\<lparr>vs_stages := vs_stages st @ [\<lparr>sg_role = role, sg_profile_id = role_profile ids role,
          sg_model = role_model ids role, sg_provider_rounds = us_rounds u,
          sg_semantic_corrections = us_corrections u, sg_context_chars_sent = us_chars u,
          sg_outcome = outcome\<rparr>]\<rparr>"

definition charge :: "stage_usage \<Rightarrow> 'w review_state \<Rightarrow> 'w review_state" where
  "charge u st = st\<lparr>vs_used_rounds := saturating_add (vs_used_rounds st) (us_rounds u),
                    vs_used_chars := saturating_add (vs_used_chars st) (us_chars u)\<rparr>"

text \<open>A stage that ends and lets the run go on: it is charged, recorded and reported.\<close>

definition close_stage ::
  "MultiModelRoleIds \<Rightarrow> InvestigationRole \<Rightarrow> string option \<Rightarrow> stage_usage \<Rightarrow> StageOutcomeKind \<Rightarrow> string
     \<Rightarrow> 'w review_state \<Rightarrow> 'w review_state" where
  "close_stage ids role candidate u outcome detail st =
     emit_event role False (Some outcome) candidate detail (push_stage ids role u outcome (charge u st))"

definition no_usage :: stage_usage where
  "no_usage = \<lparr>us_rounds = 0, us_corrections = 0, us_chars = 0\<rparr>"

definition record_causal_stage_without_call ::
  "MultiModelRoleIds \<Rightarrow> StageOutcomeKind \<Rightarrow> string \<Rightarrow> 'w review_state \<Rightarrow> 'w review_state" where
  "record_causal_stage_without_call ids outcome detail st =
     emit_event CausalSynthesizer False (Some outcome) None detail (push_stage ids CausalSynthesizer no_usage outcome st)"

definition emit_skip :: "MultiModelRoleIds \<Rightarrow> DegradationReason \<Rightarrow> 'w review_state \<Rightarrow> 'w review_state" where
  "emit_skip ids reason st =
     emit_event Reviewer False (Some SoSkipped) None (degradation_detail reason)
       (push_stage ids Reviewer no_usage SoSkipped st)"

definition emit_terminal_stage ::
  "InvestigationRole \<Rightarrow> string option \<Rightarrow> StageOutcomeKind \<Rightarrow> string \<Rightarrow> stage_usage \<Rightarrow> 'w review_state \<Rightarrow> 'w review_state" where
  "emit_terminal_stage role candidate k verb u st =
     emit_event role False (Some k) candidate
       (verb @ '' after '' @ show_nat (unat (us_rounds u)) @ '' provider attempt(s), ''
        @ show_nat (unat (us_corrections u)) @ '' correction(s), '' @ show_nat (unat (us_chars u)) @ '' char(s)'') st"

definition deadline_outcome ::
  "InvestigationRole \<Rightarrow> string option \<Rightarrow> stage_usage \<Rightarrow> 'w review_state \<Rightarrow> 'e MultiModelOutcome \<times> 'w review_state" where
  "deadline_outcome role candidate u st =
     (MmDeadline, emit_terminal_stage role candidate SoDeadline ''turn deadline reached'' u st)"

definition cancelled_outcome ::
  "InvestigationRole \<Rightarrow> string option \<Rightarrow> stage_usage \<Rightarrow> 'w review_state \<Rightarrow> 'e MultiModelOutcome \<times> 'w review_state" where
  "cancelled_outcome role candidate u st =
     (MmCancelled, emit_terminal_stage role candidate SoCancelled ''turn cancelled'' u st)"

definition provider_failed_outcome ::
  "InvestigationRole \<Rightarrow> string option \<Rightarrow> 'e \<Rightarrow> stage_usage \<Rightarrow> 'w review_state \<Rightarrow> 'e MultiModelOutcome \<times> 'w review_state" where
  "provider_failed_outcome role candidate e u st =
     (MmProviderFailed e, emit_terminal_stage role candidate SoProviderFailed ''provider failed'' u st)"

definition finalize_telemetry ::
  "ExecutedMode \<Rightarrow> DegradationReason option \<Rightarrow> 'w review_state \<Rightarrow> MultiModelTurnTelemetry" where
  "finalize_telemetry executed degradation st =
     \<lparr>mt_schema = MULTI_MODEL_TELEMETRY_SCHEMA_V1, mt_configured_mode = ModeReview, mt_executed_mode = executed,
      mt_degradation = degradation, mt_stages = vs_stages st, mt_total_provider_rounds = vs_used_rounds st,
      mt_total_context_chars_sent = vs_used_chars st\<rparr>"

definition stage_budget :: "MultiModelBudget \<Rightarrow> u32 \<Rightarrow> u32 \<Rightarrow> u32" where
  "stage_budget budget used reserve =
     min (ucast (max_semantic_corrections_per_stage budget) + 1)
       (saturating_sub (saturating_sub (max_total_provider_rounds budget) used) reserve)"

definition packing :: "ReviewPipelineInputs \<Rightarrow> nat" where
  "packing inputs = synthesis_packing_budget (mm_context_char_budget (rp_budget inputs))"

text \<open>Drive a stage from the state of the run: the prompts it builds and its calls happen in the world.\<close>

definition run_stage ::
  "'w host \<Rightarrow> ReviewPipelineInputs \<Rightarrow> ('w, 'e) backend \<Rightarrow> (nat \<Rightarrow> bool \<Rightarrow> ChatMessage list) \<Rightarrow> (string \<Rightarrow> 'a option)
     \<Rightarrow> u32 \<Rightarrow> u64 option \<Rightarrow> 'w review_state \<Rightarrow> ('e, 'a) CallResult \<times> 'w review_state" where
  "run_stage host inputs backend build validate rounds remaining st =
     (case drive_stage host (flat_plan (rp_deadline_ms inputs))
        \<lparr>st_backend = backend, st_build = build, st_validate = validate,
         st_max_corrections = max_semantic_corrections_per_stage (rp_budget inputs), st_max_rounds = rounds,
         st_per_call = packing inputs, st_remaining = remaining\<rparr> (vs_builds st) (vs_world st) of
        (result, n, w) \<Rightarrow> (result, st\<lparr>vs_builds := n, vs_world := w\<rparr>))"

section \<open>Investigators\<close>

datatype 'e investigator_step =
    InvContinue
  | InvBreak
  | InvAccepted CandidateFindingV1
  | InvReturn "'e MultiModelOutcome"

text \<open>What follows from the result of one candidate's stage.\<close>

fun after_investigator ::
  "MultiModelRoleIds \<Rightarrow> string \<Rightarrow> ('e, CandidateFindingV1) CallResult \<times> 'w review_state
     \<Rightarrow> 'e investigator_step \<times> 'w review_state" where
  "after_investigator ids gid (CrOk value u, st) =
     (let value = value\<lparr>fi_role_binding := (fi_role_binding value)\<lparr>rb_semantic_attempts := us_corrections u\<rparr>\<rparr> in
      if fi_claims value = []
      then (InvContinue, close_stage ids Investigator (Some gid) u SoSemanticInvalid
              ''candidate finding contained no claims'' st)
      else (InvAccepted value, close_stage ids Investigator (Some gid) u SoCompleted
              (show_nat (length (fi_claims value)) @ '' claim(s) validated'') st))"
| "after_investigator ids gid (CrSemanticInvalid u, st) =
     (InvContinue, close_stage ids Investigator (Some gid) u SoSemanticInvalid
        ''candidate finding failed host validation'' st)"
| "after_investigator ids gid (CrBudgetExhausted u, st) =
     (InvContinue, close_stage ids Investigator (Some gid) u SoBudgetExhausted
        ''candidate exceeded the character budget'' st)"
| "after_investigator ids gid (CrProvider e u, st) =
     (case provider_failed_outcome Investigator (Some gid) e u st of (out, st) \<Rightarrow> (InvReturn out, st))"
| "after_investigator ids gid (CrDeadline u, st) =
     (case deadline_outcome Investigator (Some gid) u st of (out, st) \<Rightarrow> (InvReturn out, st))"
| "after_investigator ids gid (CrCancelled u, st) =
     (case cancelled_outcome Investigator (Some gid) u st of (out, st) \<Rightarrow> (InvReturn out, st))"

definition accept_finding ::
  "review_codecs \<Rightarrow> MultiModelRoleIds \<Rightarrow> HostEvidenceLedger \<Rightarrow> string \<Rightarrow> string \<Rightarrow> CandidateFindingV1 option" where
  "accept_finding co ids l gid content =
     (case validate_candidate_finding (co_finding co) content l gid
        (role_binding Investigator (investigator_profile ids) (investigator_model ids) 0) of
        Inl _ \<Rightarrow> None | Inr f \<Rightarrow> Some f)"

definition investigate_candidate ::
  "review_codecs \<Rightarrow> 'w host \<Rightarrow> ('w, 'e) MultiModelBackends \<Rightarrow> ReviewPipelineInputs \<Rightarrow> BroadLogTriageCandidate
     \<Rightarrow> 'w review_state \<Rightarrow> 'e investigator_step \<times> 'w review_state" where
  "investigate_candidate co host backends inputs c st =
     (case candidate_ledger (co_digest co) c (rp_binding inputs) of
        None \<Rightarrow> (InvContinue, st)
      | Some l \<Rightarrow>
          (let build = (\<lambda>n. investigator_messages (co_nonce co n) (rp_user_text inputs) c l);
               first = message_chars (build (vs_builds st) False);
               st = st\<lparr>vs_builds := Suc (vs_builds st)\<rparr>
           in if unat first > packing inputs then (InvContinue, st)
              else let rounds = stage_budget (rp_budget inputs) (vs_used_rounds st) 1 in
              if rounds = 0 then (InvBreak, st)
              else after_investigator (rp_role_ids inputs) (bc_group_id c)
                (run_stage host inputs (bk_investigator backends) build
                   (accept_finding co (rp_role_ids inputs) l (bc_group_id c)) rounds
                   (remaining_turn_chars (max_context_chars_total (rp_budget inputs)) (vs_used_chars st))
                   (emit_event Investigator True None (Some (bc_group_id c)) ''investigating candidate'' st))))"

fun investigate ::
  "review_codecs \<Rightarrow> 'w host \<Rightarrow> ('w, 'e) MultiModelBackends \<Rightarrow> ReviewPipelineInputs \<Rightarrow> BroadLogTriageCandidate list
     \<Rightarrow> CandidateFindingV1 list \<Rightarrow> BroadLogTriageCandidate list \<Rightarrow> 'w review_state
     \<Rightarrow> ('e MultiModelOutcome \<times> 'w review_state)
        + (CandidateFindingV1 list \<times> BroadLogTriageCandidate list \<times> 'w review_state)" where
  "investigate co host backends inputs [] findings accepted st = Inr (findings, accepted, st)"
| "investigate co host backends inputs (c # cs) findings accepted st =
     (case investigate_candidate co host backends inputs c st of
        (InvReturn out, st) \<Rightarrow> Inl (out, st)
      | (InvBreak, st) \<Rightarrow> Inr (findings, accepted, st)
      | (InvContinue, st) \<Rightarrow> investigate co host backends inputs cs findings accepted st
      | (InvAccepted f, st) \<Rightarrow> investigate co host backends inputs cs (findings @ [f]) (accepted @ [c]) st)"

section \<open>Review\<close>

record review_choice =
  ch_executed :: ExecutedMode
  ch_degradation :: "DegradationReason option"
  ch_review :: "ReviewReportV1 option"

definition degraded :: "DegradationReason \<Rightarrow> review_choice" where
  "degraded reason = \<lparr>ch_executed = RanReviewDegraded, ch_degradation = Some reason, ch_review = None\<rparr>"

definition degrade_review ::
  "MultiModelRoleIds \<Rightarrow> StageOutcomeKind \<Rightarrow> DegradationReason \<Rightarrow> stage_usage \<Rightarrow> 'w review_state
     \<Rightarrow> review_choice \<times> 'w review_state" where
  "degrade_review ids outcome reason u st =
     (degraded reason, close_stage ids Reviewer None u outcome (degradation_detail reason) st)"

fun after_reviewer ::
  "MultiModelRoleIds \<Rightarrow> ('e, ReviewReportV1) CallResult \<times> 'w review_state
     \<Rightarrow> ('e MultiModelOutcome \<times> 'w review_state) + (review_choice \<times> 'w review_state)" where
  "after_reviewer ids (CrOk value u, st) =
     (let value = value\<lparr>rv_role_binding := (rv_role_binding value)\<lparr>rb_semantic_attempts := us_corrections u\<rparr>\<rparr> in
      Inr (\<lparr>ch_executed = RanReview, ch_degradation = None, ch_review = Some value\<rparr>,
        close_stage ids Reviewer None u SoCompleted
          (show_nat (length (rv_gaps value)) @ '' gap(s), '' @ show_nat (length (rv_contradictions value))
           @ '' contradiction(s)'') st))"
| "after_reviewer ids (CrCancelled u, st) = Inl (cancelled_outcome Reviewer None u st)"
| "after_reviewer ids (CrDeadline u, st) = Inl (deadline_outcome Reviewer None u st)"
| "after_reviewer ids (CrProvider e u, st) =
     Inr (degrade_review ids SoProviderFailed ReviewerProviderFailed u st)"
| "after_reviewer ids (CrSemanticInvalid u, st) =
     Inr (degrade_review ids SoSemanticInvalid ReviewerSemanticInvalid u st)"
| "after_reviewer ids (CrBudgetExhausted u, st) =
     Inr (degrade_review ids SoBudgetExhausted BudgetUsageInsufficient u st)"

definition accept_review ::
  "review_codecs \<Rightarrow> MultiModelRoleIds \<Rightarrow> HostEvidenceLedger \<Rightarrow> KnownClaims \<Rightarrow> string \<Rightarrow> ReviewReportV1 option" where
  "accept_review co ids l known content =
     (case validate_review_report (co_review co) content l known
        (role_binding Reviewer (reviewer_profile ids) (reviewer_model ids) 0) of
        Inl _ \<Rightarrow> None | Inr r \<Rightarrow> Some r)"

definition review_stage ::
  "review_codecs \<Rightarrow> 'w host \<Rightarrow> ('w, 'e) MultiModelBackends \<Rightarrow> ReviewPipelineInputs \<Rightarrow> CandidateFindingV1 list
     \<Rightarrow> HostEvidenceLedger \<Rightarrow> 'w review_state
     \<Rightarrow> ('e MultiModelOutcome \<times> 'w review_state) + (review_choice \<times> 'w review_state)" where
  "review_stage co host backends inputs findings l st =
     (let causal_reserve = (if rp_causal_packet inputs = None then 0 else 1);
          rounds = stage_budget (rp_budget inputs) (vs_used_rounds st) (1 + causal_reserve)
      in if \<not> rounds > 0
         then Inr (degraded BudgetRoundsInsufficient, emit_skip (rp_role_ids inputs) BudgetRoundsInsufficient st)
         else after_reviewer (rp_role_ids inputs)
           (run_stage host inputs (bk_reviewer backends)
              (\<lambda>n. reviewer_messages (co_print co) (co_nonce co n) (rp_user_text inputs) findings l)
              (accept_review co (rp_role_ids inputs) l (known_claims findings)) rounds
              (remaining_turn_chars (max_context_chars_total (rp_budget inputs)) (vs_used_chars st))
              (emit_event Reviewer True None None ''reviewing candidate findings'' st)))"

section \<open>Causal synthesis\<close>

text \<open>The topology of the run, or why the stage is not called.\<close>

definition choose_topology ::
  "ReviewPipelineInputs \<Rightarrow> HostEvidenceLedger \<Rightarrow> CandidateFindingV1 list \<Rightarrow> ReviewReportV1 option \<Rightarrow> 'w review_state
     \<Rightarrow> HostCausalTopologyV1 option \<times> 'w review_state" where
  "choose_topology inputs l findings review st =
     (case rp_causal_packet inputs of
        None \<Rightarrow> (None, record_causal_stage_without_call (rp_role_ids inputs) SoSkipped
                  ''causal packet unavailable; final answer remains causal-neutral'' st)
      | Some packet \<Rightarrow>
          (case causal_topology packet l findings review of
             Inr topology \<Rightarrow> (Some topology, st)
           | Inl e \<Rightarrow> (None, record_causal_stage_without_call (rp_role_ids inputs)
               (if e = CtInsufficientHostProof \<or> e = CtContestedReview then SoSkipped else SoSemanticInvalid)
               (''causal topology withheld ('' @ derive_error_str e @ ''); final answer remains causal-neutral'') st)))"

fun after_causal ::
  "MultiModelRoleIds \<Rightarrow> ('e, CausalSynthesisV1) CallResult \<times> 'w review_state
     \<Rightarrow> ('e MultiModelOutcome \<times> 'w review_state) + (CausalSynthesisV1 option \<times> 'w review_state)" where
  "after_causal ids (CrOk value u, st) =
     Inr (Some value, close_stage ids CausalSynthesizer None u SoCompleted
       ''host-bounded causal relationships validated'' st)"
| "after_causal ids (CrSemanticInvalid u, st) =
     Inr (None, close_stage ids CausalSynthesizer None u SoSemanticInvalid
       ''causal proposal withheld; final answer remains causal-neutral'' st)"
| "after_causal ids (CrBudgetExhausted u, st) =
     Inr (None, close_stage ids CausalSynthesizer None u SoBudgetExhausted
       ''causal proposal withheld; final answer remains causal-neutral'' st)"
| "after_causal ids (CrProvider e u, st) =
     Inr (None, close_stage ids CausalSynthesizer None u SoProviderFailed
       ''causal provider call failed; final answer remains causal-neutral'' st)"
| "after_causal ids (CrDeadline u, st) = Inl (deadline_outcome CausalSynthesizer None u st)"
| "after_causal ids (CrCancelled u, st) = Inl (cancelled_outcome CausalSynthesizer None u st)"

definition accept_causal :: "review_codecs \<Rightarrow> HostCausalTopologyV1 \<Rightarrow> string \<Rightarrow> CausalSynthesisV1 option" where
  "accept_causal co topology content =
     (case validate_causal_synthesis (co_causal co) content topology of Inl _ \<Rightarrow> None | Inr c \<Rightarrow> Some c)"

definition causal_stage ::
  "review_codecs \<Rightarrow> 'w host \<Rightarrow> ('w, 'e) MultiModelBackends \<Rightarrow> ReviewPipelineInputs \<Rightarrow> CandidateFindingV1 list
     \<Rightarrow> ReviewReportV1 option \<Rightarrow> HostEvidenceLedger \<Rightarrow> string list \<Rightarrow> HostCausalTopologyV1 \<Rightarrow> 'w review_state
     \<Rightarrow> ('e MultiModelOutcome \<times> 'w review_state) + (CausalSynthesisV1 option \<times> 'w review_state)" where
  "causal_stage co host backends inputs findings review l candidate_ids topology st =
     (let rounds = stage_budget (rp_budget inputs) (vs_used_rounds st) 1;
          n = vs_builds st;
          reserve = message_chars (synthesizer_messages (co_print co) (co_nonce co n) (rp_user_text inputs)
                      findings review l candidate_ids False);
          allowance = map_option (\<lambda>remaining. saturating_sub remaining reserve)
            (remaining_turn_chars (max_context_chars_total (rp_budget inputs)) (vs_used_chars st));
          build = (\<lambda>n. causal_synthesis_messages (co_print co) (co_nonce co n) (rp_user_text inputs) findings review topology);
          initial = message_chars (build (Suc n) False);
          fit = (case allowance of None \<Rightarrow> True | Some a \<Rightarrow> initial \<le> a);
          st = st\<lparr>vs_builds := Suc (Suc n)\<rparr>
      in if rounds = 0 \<or> \<not> fit
         then Inr (None, record_causal_stage_without_call (rp_role_ids inputs) SoSkipped
           (if rounds = 0 then ''causal validation skipped to preserve final-answer round budget''
            else ''causal validation skipped to preserve final-answer character budget'') st)
         else after_causal (rp_role_ids inputs)
           (run_stage host inputs (bk_synthesizer backends) build (accept_causal co topology) rounds allowance
              (emit_event CausalSynthesizer True None None ''validating host-bounded causal relationships'' st)))"

definition causal_phase ::
  "review_codecs \<Rightarrow> 'w host \<Rightarrow> ('w, 'e) MultiModelBackends \<Rightarrow> ReviewPipelineInputs \<Rightarrow> CandidateFindingV1 list
     \<Rightarrow> ReviewReportV1 option \<Rightarrow> HostEvidenceLedger \<Rightarrow> string list \<Rightarrow> 'w review_state
     \<Rightarrow> ('e MultiModelOutcome \<times> 'w review_state) + (CausalSynthesisV1 option \<times> 'w review_state)" where
  "causal_phase co host backends inputs findings review l candidate_ids st =
     (case choose_topology inputs l findings review st of
        (None, st) \<Rightarrow> Inr (None, st)
      | (Some topology, st) \<Rightarrow> causal_stage co host backends inputs findings review l candidate_ids topology st)"

section \<open>Final answer\<close>

definition accept_answer ::
  "review_codecs \<Rightarrow> HostEvidenceLedger \<Rightarrow> CausalSynthesisV1 option \<Rightarrow> string \<Rightarrow> AnswerEnvelopeV1 option" where
  "accept_answer co l causal content =
     (case validate_model_answer (co_answer co) content l of
        Inl _ \<Rightarrow> None
      | Inr env \<Rightarrow> if ans_root_cause_established (env_answer env) \<and> causal = None then None else Some env)"

fun after_synthesis ::
  "review_codecs \<Rightarrow> MultiModelRoleIds \<Rightarrow> review_choice \<Rightarrow> ('e, AnswerEnvelopeV1) CallResult \<times> 'w review_state
     \<Rightarrow> 'e MultiModelOutcome \<times> 'w review_state" where
  "after_synthesis co ids ch (CrOk value u, st) =
     (let st = close_stage ids Synthesizer None u SoCompleted ''final answer validated'' st;
          envelope = value\<lparr>env_semantic_attempts := us_corrections u\<rparr>
      in (MmCompleted envelope (render_answer_markdown (co_alphanumeric co) envelope)
            (if ch_executed ch = RanReview then ch_review ch else None)
            (finalize_telemetry (ch_executed ch) (ch_degradation ch) st), st))"
| "after_synthesis co ids ch (CrSemanticInvalid u, st) =
     (let st = close_stage ids Synthesizer None u SoSemanticInvalid ''final synthesis failed host validation'' st
      in (MmFailedClosed ''final synthesis failed host validation''
            (finalize_telemetry (ch_executed ch) (ch_degradation ch) st), st))"
| "after_synthesis co ids ch (CrBudgetExhausted u, st) =
     (let st = close_stage ids Synthesizer None u SoBudgetExhausted ''synthesis exceeded the character budget'' st
      in (MmFailedClosed ''synthesis prompt exceeded the whole-turn character ceiling''
            (finalize_telemetry (ch_executed ch) (ch_degradation ch) st), st))"
| "after_synthesis co ids ch (CrProvider e u, st) = provider_failed_outcome Synthesizer None e u st"
| "after_synthesis co ids ch (CrDeadline u, st) = deadline_outcome Synthesizer None u st"
| "after_synthesis co ids ch (CrCancelled u, st) = cancelled_outcome Synthesizer None u st"

definition synthesis_phase ::
  "review_codecs \<Rightarrow> 'w host \<Rightarrow> ('w, 'e) MultiModelBackends \<Rightarrow> ReviewPipelineInputs \<Rightarrow> CandidateFindingV1 list
     \<Rightarrow> review_choice \<Rightarrow> HostEvidenceLedger \<Rightarrow> string list \<Rightarrow> CausalSynthesisV1 option \<Rightarrow> 'w review_state
     \<Rightarrow> 'e MultiModelOutcome \<times> 'w review_state" where
  "synthesis_phase co host backends inputs findings ch l candidate_ids causal st =
     (case final_causal_ledger (co_digest co) l causal of
        None \<Rightarrow> (MmFailedClosed ''validated causal roles could not be bound to the final ledger''
                  (finalize_telemetry (ch_executed ch) (ch_degradation ch) st), st)
      | Some final_ledger \<Rightarrow>
          (let rounds = stage_budget (rp_budget inputs) (vs_used_rounds st) 0 in
           if rounds = 0
           then (MmFailedClosed ''round budget exhausted before synthesis''
             (finalize_telemetry (ch_executed ch)
               (case ch_degradation ch of None \<Rightarrow> Some BudgetRoundsInsufficient | Some r \<Rightarrow> Some r) st), st)
           else after_synthesis co (rp_role_ids inputs) ch
             (run_stage host inputs (bk_synthesizer backends)
                (\<lambda>n. synthesizer_messages (co_print co) (co_nonce co n) (rp_user_text inputs) findings (ch_review ch)
                   final_ledger candidate_ids)
                (accept_answer co final_ledger causal) rounds
                (remaining_turn_chars (max_context_chars_total (rp_budget inputs)) (vs_used_chars st))
                (emit_event Synthesizer True None None ''synthesizing final answer'' st))))"

section \<open>The pipeline\<close>

definition fresh_state :: "'w \<Rightarrow> 'w review_state" where
  "fresh_state w = \<lparr>vs_stages = [], vs_used_rounds = 0, vs_used_chars = 0, vs_events = [], vs_builds = 0, vs_world = w\<rparr>"

definition eligible_candidates :: "ReviewPipelineInputs \<Rightarrow> BroadLogTriageCandidate list" where
  "eligible_candidates inputs = filter (\<lambda>c. bc_evidence c \<noteq> []) (rp_candidates inputs)"

text \<open>The stages after the investigators.\<close>

definition compare_findings ::
  "review_codecs \<Rightarrow> 'w host \<Rightarrow> ('w, 'e) MultiModelBackends \<Rightarrow> ReviewPipelineInputs \<Rightarrow> CandidateFindingV1 list
     \<Rightarrow> BroadLogTriageCandidate list \<Rightarrow> 'w review_state \<Rightarrow> 'e MultiModelOutcome \<times> 'w review_state" where
  "compare_findings co host backends inputs findings accepted st =
     (if length findings < 2
      then (MmFailedClosed ''fewer than two candidate findings passed host validation''
              (finalize_telemetry RanSingle None st), st)
      else case union_ledger (co_digest co) accepted (rp_comparison_context inputs) (rp_binding inputs) of
        None \<Rightarrow> (MmFailedClosed ''host evidence ledger was invalid'' (finalize_telemetry RanSingle None st), st)
      | Some l \<Rightarrow>
          (let candidate_ids = sorted_list_of_set (ledger_candidate_ids l) in
           case review_stage co host backends inputs findings l st of
             Inl out \<Rightarrow> out
           | Inr (ch, st) \<Rightarrow>
               (case causal_phase co host backends inputs findings (ch_review ch) l candidate_ids st of
                  Inl out \<Rightarrow> out
                | Inr (causal, st) \<Rightarrow>
                    synthesis_phase co host backends inputs findings ch l candidate_ids causal st)))"

definition run_review_pipeline ::
  "review_codecs \<Rightarrow> 'w host \<Rightarrow> ('w, 'e) MultiModelBackends \<Rightarrow> ReviewPipelineInputs \<Rightarrow> 'w
     \<Rightarrow> 'e MultiModelOutcome \<times> 'w review_state" where
  "run_review_pipeline co host backends inputs w =
     (let candidates = eligible_candidates inputs; st = fresh_state w in
      if length candidates < 2 then (MmNotEligible, st)
      else if max_total_provider_rounds (rp_budget inputs) < 3 then (MmNotEligible, st)
      else case investigate co host backends inputs candidates [] [] st of
        Inl out \<Rightarrow> out
      | Inr (findings, accepted, st) \<Rightarrow> compare_findings co host backends inputs findings accepted st)"

definition render_outcome_review :: "ReviewReportV1 \<Rightarrow> string" where
  "render_outcome_review review = render_review_markdown review"

end
