(* ===== verification/Review_Budget.thy ===== *)
theory Review_Budget
  imports Review_Pipeline
begin

text \<open>
  The budget of the reviewed pipeline. Backends are metered: the world carries the list of the prompts that
  were really sent. Shown for every run, whatever the models answer and however it ends: the number of
  prompts and their characters stay within the ceilings of the turn, the reported rounds are the prompts
  sent, and the round reserved for the final answer is never spent by another stage.
\<close>

section \<open>Metered stages\<close>

type_synonym 'w metered = "'w \<times> ChatMessage list list"

definition metered :: "('w, 'e) backend \<Rightarrow> ('w metered, 'e) backend" where
  "metered backend wl msgs = (case backend (fst wl) msgs of (r, w) \<Rightarrow> (r, (w, snd wl @ [msgs])))"

lemma metered_call:
  assumes "\<not> cancel_flag host wl" "\<not> deadline_reached host plan wl"
    and "within_turn_deadline host plan (metered b) msgs wl = (r, frs, wl')"
  shows "snd wl' = snd wl @ [msgs]"
  using assms by (auto simp: within_turn_deadline_def deadline_reached_def metered_def split: prod.splits)

fun usage_of :: "('e, 'a) CallResult \<Rightarrow> stage_usage" where
  "usage_of (CrOk v u) = u"
| "usage_of (CrSemanticInvalid u) = u"
| "usage_of (CrProvider e u) = u"
| "usage_of (CrDeadline u) = u"
| "usage_of (CrBudgetExhausted u) = u"
| "usage_of (CrCancelled u) = u"

abbreviation sent_chars :: "ChatMessage list list \<Rightarrow> nat" where
  "sent_chars calls \<equiv> sum_list (map (\<lambda>m. unat (message_chars m)) calls)"

text \<open>What a stage has spent on the prompts it sent; characters are counted with saturation.\<close>

definition spent :: "('w, 'e, 'a) stage \<Rightarrow> stage_usage \<Rightarrow> ChatMessage list list \<Rightarrow> bool" where
  "spent s u calls \<longleftrightarrow> unat (us_rounds u) = length calls \<and> us_rounds u \<le> st_max_rounds s
     \<and> (\<forall>m \<in> set calls. unat (message_chars m) \<le> st_per_call s)
     \<and> unat (us_chars u) = min (sent_chars calls) (2 ^ 64 - 1)
     \<and> (\<forall>r. st_remaining s = Some r \<longrightarrow> us_chars u \<le> r)"

lemma spent_send:
  assumes "spent s u calls" "us_rounds u < st_max_rounds s" "unat (message_chars m) \<le> st_per_call s"
    and "\<forall>r. st_remaining s = Some r \<longrightarrow> saturating_add (us_chars u) (message_chars m) \<le> r"
    and "us_rounds u' = saturating_add (us_rounds u) 1" "us_chars u' = saturating_add (us_chars u) (message_chars m)"
  shows "spent s u' (calls @ [m])"
  using assms saturating_Suc [OF assms(2)]
  by (auto simp: spent_def unat_saturating_add word_le_nat_alt word_less_nat_alt min_def)

lemma drive_step_spent:
  assumes "st_backend s = metered b" and "spent s u calls" and "snd wl = log @ calls"
  shows "case drive_step host plan s u n wl of
      Inl (r, n', wl') \<Rightarrow> \<exists>calls'. spent s (usage_of r) calls' \<and> snd wl' = log @ calls'
    | Inr (u', n', wl') \<Rightarrow> \<exists>calls'. spent s u' calls' \<and> snd wl' = log @ calls'"
proof -
  let ?m = "st_build s n (us_corrections u > 0)"
  consider (stop) "\<exists>r n'. drive_step host plan s u n wl = Inl (r, n', wl) \<and> usage_of r = u"
    | (send) "us_rounds u < st_max_rounds s" "unat (message_chars ?m) \<le> st_per_call s"
        "\<forall>r. st_remaining s = Some r \<longrightarrow> saturating_add (us_chars u) (message_chars ?m) \<le> r"
        "\<not> cancel_flag host wl" "\<not> deadline_reached host plan wl"
    by (fastforce simp: drive_step_def Let_def not_le split: if_splits option.splits)
  then show ?thesis
  proof cases
    case stop
    then show ?thesis using assms(2,3) by auto
  next
    case send
    have sp: "spent s u' (calls @ [?m])"
      if "us_rounds u' = saturating_add (us_rounds u) 1" "us_chars u' = saturating_add (us_chars u) (message_chars ?m)" for u'
      by (rule spent_send [OF assms(2) send(1,2,3) that])
    obtain a frs wl' where w: "within_turn_deadline host plan (metered b) ?m wl = (a, frs, wl')" by (metis prod_cases3)
    have "snd wl' = log @ calls @ [?m]" using metered_call [OF send(4,5) w] assms(3) by simp
    with sp w show ?thesis
      unfolding drive_step_def Let_def assms(1) using send
      by (auto split: sum.splits option.splits TurnAwaitError.splits intro!: exI [of _ "calls @ [?m]"])
  qed
qed

lemma drive_loop_spent:
  assumes "st_backend s = metered b" and "spent s u calls" and "snd wl = log @ calls"
    and "drive_loop host plan s u n wl = (r, n', wl')"
  shows "\<exists>calls'. spent s (usage_of r) calls' \<and> snd wl' = log @ calls'"
  using assms
proof (induction host plan s u n wl arbitrary: calls rule: drive_loop.induct)
  case (1 host plan s u n wl)
  note step = drive_step_spent [OF "1.prems"(1-3), of host plan n]
  show ?case
  proof (cases "drive_step host plan s u n wl")
    case (Inl x)
    with "1.prems"(4) step show ?thesis by (auto simp: drive_loop.simps [of host plan s u n wl])
  next
    case (Inr x)
    obtain u' n1 wl1 where x: "x = (u', n1, wl1)" by (metis prod_cases3)
    with Inr step obtain calls1 where "spent s u' calls1" "snd wl1 = log @ calls1" by auto
    from "1.IH" [OF Inr x [symmetric] refl "1.prems"(1) this] "1.prems"(4) Inr x show ?thesis
      by (simp add: drive_loop.simps [of host plan s u n wl])
  qed
qed

lemma drive_stage_spent:
  assumes "drive_stage host plan s n wl = (r, n', wl')" and "st_backend s = metered b"
  shows "\<exists>calls. spent s (usage_of r) calls \<and> snd wl' = snd wl @ calls"
proof -
  have "spent s \<lparr>us_rounds = 0, us_corrections = 0, us_chars = 0\<rparr> []" by (simp add: spent_def)
  from drive_loop_spent [OF assms(2) this, of wl "snd wl"] assms(1) show ?thesis by (simp add: drive_stage_def)
qed

section \<open>The account of a run\<close>

definition metered_backends :: "('w, 'e) MultiModelBackends \<Rightarrow> ('w metered, 'e) MultiModelBackends" where
  "metered_backends b = \<lparr>bk_investigator = metered (bk_investigator b), bk_reviewer = metered (bk_reviewer b),
     bk_synthesizer = metered (bk_synthesizer b)\<rparr>"

lemma metered_backends_simps [simp]:
  "bk_investigator (metered_backends b) = metered (bk_investigator b)"
  "bk_reviewer (metered_backends b) = metered (bk_reviewer b)"
  "bk_synthesizer (metered_backends b) = metered (bk_synthesizer b)"
  by (simp_all add: metered_backends_def)

text \<open>The prompts that were sent stay within the ceilings, with \<open>reserve\<close> rounds left.\<close>

definition affordable :: "ReviewPipelineInputs \<Rightarrow> nat \<Rightarrow> ChatMessage list list \<Rightarrow> bool" where
  "affordable inputs reserve calls \<longleftrightarrow>
     length calls + reserve \<le> unat (max_total_provider_rounds (rp_budget inputs))
     \<and> (\<forall>m \<in> set calls. unat (message_chars m) \<le> packing inputs)
     \<and> (\<forall>limit. max_context_chars_total (rp_budget inputs) = Some limit \<longrightarrow>
          min (sent_chars calls) (2 ^ 64 - 1) \<le> unat limit)"

text \<open>The counters of the run are those of the prompts sent.\<close>

definition accounted :: "ReviewPipelineInputs \<Rightarrow> nat \<Rightarrow> 'w metered review_state \<Rightarrow> bool" where
  "accounted inputs reserve st \<longleftrightarrow> affordable inputs reserve (snd (vs_world st))
     \<and> unat (vs_used_rounds st) = length (snd (vs_world st))
     \<and> unat (vs_used_chars st) = min (sent_chars (snd (vs_world st))) (2 ^ 64 - 1)
     \<and> sum_list (map (\<lambda>row. unat (sg_provider_rounds row)) (vs_stages st)) = length (snd (vs_world st))"

lemma accounted_bookkeeping [simp]:
  "accounted inputs k (emit_event role started outcome cand detail st) = accounted inputs k st"
  "accounted inputs k (st\<lparr>vs_builds := n\<rparr>) = accounted inputs k st"
  "accounted inputs k (record_causal_stage_without_call ids oc detail st) = accounted inputs k st"
  "accounted inputs k (emit_skip ids reason st) = accounted inputs k st"
  by (simp_all add: accounted_def emit_event_def record_causal_stage_without_call_def emit_skip_def
      push_stage_def no_usage_def)

lemma accounted_less: "accounted inputs k st \<Longrightarrow> j \<le> k \<Longrightarrow> accounted inputs j st"
  by (auto simp: accounted_def affordable_def)

lemma stage_budget_le:
  "unat (stage_budget budget used reserve) \<le> unat (max_total_provider_rounds budget) - unat used - unat reserve"
  by (simp add: stage_budget_def min_def word_le_nat_alt unat_saturating_sub)

lemma stage_budget_pos:
  assumes "unat used + unat reserve < unat (max_total_provider_rounds budget)"
  shows "stage_budget budget used reserve \<noteq> 0"
proof -
  have "unat (saturating_sub (saturating_sub (max_total_provider_rounds budget) used) reserve) \<noteq> 0"
    using assms by (simp add: unat_saturating_sub)
  moreover have "unat (ucast (max_semantic_corrections_per_stage budget) + 1 :: u32) \<noteq> 0"
  proof -
    have "unat (max_semantic_corrections_per_stage budget) < 2 ^ LENGTH(8)" by (rule unsigned_less)
    then have "unat (ucast (max_semantic_corrections_per_stage budget) :: u32) < 2 ^ 8"
      by (simp add: unsigned_ucast_eq take_bit_nat_eq_self)
    then show ?thesis by (simp add: unat_word_ariths)
  qed
  ultimately show ?thesis unfolding stage_budget_def min_def by (auto simp: unat_eq_0)
qed

text \<open>A stage that was given rounds and characters of the run leaves the run within its ceilings, and once
  it is charged the account is balanced.\<close>

lemma run_stage_accounted:
  assumes run: "run_stage host inputs (metered b) build validate rounds remaining st = (r, st')"
    and acc: "accounted inputs k st" and rounds: "unat rounds + unat (vs_used_rounds st) + k \<le> unat (max_total_provider_rounds (rp_budget inputs))"
    and remaining: "\<forall>limit. max_context_chars_total (rp_budget inputs) = Some limit \<longrightarrow>
      (\<exists>a. remaining = Some a \<and> a \<le> saturating_sub limit (vs_used_chars st))"
  shows "affordable inputs k (snd (vs_world st'))"
    and "accounted inputs k (close_stage ids role cand (usage_of r) outcome detail st')"
proof -
  let ?s = "\<lparr>st_backend = metered b, st_build = build, st_validate = validate,
         st_max_corrections = max_semantic_corrections_per_stage (rp_budget inputs), st_max_rounds = rounds,
         st_per_call = packing inputs, st_remaining = remaining\<rparr>"
  let ?old = "snd (vs_world st)"
  obtain n w where d: "drive_stage host (flat_plan (rp_deadline_ms inputs)) ?s (vs_builds st) (vs_world st) = (r, n, w)"
    and st': "st' = st\<lparr>vs_builds := n, vs_world := w\<rparr>"
    using run by (auto simp: run_stage_def split: prod.splits)
  from drive_stage_spent [OF d, of b] obtain calls
    where sp: "spent ?s (usage_of r) calls" and w: "snd w = ?old @ calls" by auto
  have old: "unat (vs_used_rounds st) = length ?old" "affordable inputs k ?old"
    "unat (vs_used_chars st) = min (sent_chars ?old) (2 ^ 64 - 1)"
    "sum_list (map (\<lambda>row. unat (sg_provider_rounds row)) (vs_stages st)) = length ?old"
    using acc by (simp_all add: accounted_def)
  have len: "length ?old + length calls + k \<le> unat (max_total_provider_rounds (rp_budget inputs))"
    using sp rounds old(1) by (simp add: spent_def word_le_nat_alt)
  have chars: "unat (vs_used_chars st) + unat (us_chars (usage_of r)) \<le> unat limit"
    if "max_context_chars_total (rp_budget inputs) = Some limit" for limit
  proof -
    obtain a where a: "remaining = Some a" "a \<le> saturating_sub limit (vs_used_chars st)" using remaining \<open>_ = Some limit\<close> by auto
    then have "us_chars (usage_of r) \<le> a" using sp by (simp add: spent_def)
    with a(2) have "unat (us_chars (usage_of r)) \<le> unat limit - unat (vs_used_chars st)"
      by (simp add: word_le_nat_alt unat_saturating_sub)
    moreover have "unat (vs_used_chars st) \<le> unat limit" using old(2,3) that by (auto simp: affordable_def)
    ultimately show ?thesis by linarith
  qed
  have sum: "min (sent_chars (?old @ calls)) (2 ^ 64 - 1) = min (unat (vs_used_chars st) + unat (us_chars (usage_of r))) (2 ^ 64 - 1)"
    using old(3) sp by (simp add: spent_def min_def)
  have total: "min (sent_chars (?old @ calls)) (2 ^ 64 - 1) \<le> unat limit"
    if "max_context_chars_total (rp_budget inputs) = Some limit" for limit
    unfolding sum using chars [OF that] by (rule min.coboundedI1)
  show aff: "affordable inputs k (snd (vs_world st'))"
    using old(2) len sp total w unfolding affordable_def st' by (auto simp: spent_def)
  have "length ?old + length calls < 2 ^ 32"
    using len unsigned_less [of "max_total_provider_rounds (rp_budget inputs)", where ?'a = nat] by simp
  then show "accounted inputs k (close_stage ids role cand (usage_of r) outcome detail st')"
    using aff old sp w
    by (simp add: accounted_def close_stage_def emit_event_def push_stage_def charge_def st' unat_saturating_add spent_def sum)
qed

section \<open>The account over the stages\<close>

fun telemetry_of :: "'e MultiModelOutcome \<Rightarrow> MultiModelTurnTelemetry option" where
  "telemetry_of (MmCompleted env content review t) = Some t"
| "telemetry_of (MmFailedClosed reason t) = Some t"
| "telemetry_of _ = None"

definition settled :: "ReviewPipelineInputs \<Rightarrow> 'e MultiModelOutcome \<times> 'w metered review_state \<Rightarrow> bool" where
  "settled inputs res \<longleftrightarrow> affordable inputs 0 (snd (vs_world (snd res)))
     \<and> (\<forall>t. telemetry_of (fst res) = Some t \<longrightarrow> accounted inputs 0 (snd res)
          \<and> mt_total_provider_rounds t = vs_used_rounds (snd res)
          \<and> mt_total_context_chars_sent t = vs_used_chars (snd res) \<and> mt_stages t = vs_stages (snd res))
     \<and> (\<forall>t. fst res \<noteq> MmFailedClosed ''round budget exhausted before synthesis'' t)"

lemma settled_terminal [simp]:
  "settled inputs (deadline_outcome role cand u st) = affordable inputs 0 (snd (vs_world st))"
  "settled inputs (cancelled_outcome role cand u st) = affordable inputs 0 (snd (vs_world st))"
  "settled inputs (provider_failed_outcome role cand e u st) = affordable inputs 0 (snd (vs_world st))"
  by (simp_all add: settled_def deadline_outcome_def cancelled_outcome_def provider_failed_outcome_def
      emit_terminal_stage_def emit_event_def)

lemma settled_failed:
  assumes "accounted inputs k st" and "reason \<noteq> ''round budget exhausted before synthesis''"
  shows "settled inputs (MmFailedClosed reason (finalize_telemetry executed degradation st), st)"
  using assms accounted_less [OF assms(1), of 0] by (simp add: settled_def finalize_telemetry_def accounted_def)

lemma affordable_less: "affordable inputs k calls \<Longrightarrow> j \<le> k \<Longrightarrow> affordable inputs j calls"
  by (auto simp: affordable_def)

lemma stage_rounds_fit:
  assumes "accounted inputs k st" and "k \<le> unat reserve"
  shows "unat (stage_budget (rp_budget inputs) (vs_used_rounds st) reserve) + unat (vs_used_rounds st) + k
     \<le> unat (max_total_provider_rounds (rp_budget inputs))"
proof -
  have "unat (vs_used_rounds st) + k \<le> unat (max_total_provider_rounds (rp_budget inputs))"
    using assms(1) by (simp add: accounted_def affordable_def)
  with stage_budget_le [of "rp_budget inputs" "vs_used_rounds st" reserve] assms(2) show ?thesis by linarith
qed

lemma stage_chars_fit:
  "\<forall>limit. max_context_chars_total (rp_budget inputs) = Some limit \<longrightarrow>
     (\<exists>a. remaining_turn_chars (max_context_chars_total (rp_budget inputs)) used = Some a \<and> a \<le> saturating_sub limit used)"
  by (simp add: remaining_turn_chars_def)

text \<open>The interface between a stage and the run: what is done with the result of the stage must be in order once
  the prompts are affordable and the stage, when it is closed, is accounted for. Then driving the stage on a share of the
  budget is in order, whatever the backend and the models do.\<close>

locale stage_end =
  fixes inputs :: ReviewPipelineInputs and role :: InvestigationRole and cand :: "string option" and k :: nat
    and conclude :: "('e, 'a) CallResult \<times> 'w metered review_state \<Rightarrow> 'r" and in_order :: "'r \<Rightarrow> bool"
  assumes concluded: "affordable inputs 0 (snd (vs_world st)) \<Longrightarrow>
    (\<And>outcome detail. accounted inputs k (close_stage (rp_role_ids inputs) role cand (usage_of r) outcome detail st)) \<Longrightarrow>
    in_order (conclude (r, st))"
begin

lemma driven:
  assumes acc: "accounted inputs k st" and counters: "vs_used_rounds st = used" "vs_used_chars st = chars"
    and reserve: "k \<le> unat reserve"
    and remaining: "\<forall>limit. max_context_chars_total (rp_budget inputs) = Some limit \<longrightarrow>
      (\<exists>a. remaining = Some a \<and> a \<le> saturating_sub limit chars)"
  shows "in_order (conclude (run_stage host inputs (metered b) build validate
    (stage_budget (rp_budget inputs) used reserve) remaining (emit_event role True None cand detail st)))"
proof -
  let ?st = "emit_event role True None cand detail st"
  have st: "accounted inputs k ?st" "vs_used_rounds ?st = used" "vs_used_chars ?st = chars"
    using acc counters by (simp, simp_all add: emit_event_def)
  obtain r st' where r: "run_stage host inputs (metered b) build validate
      (stage_budget (rp_budget inputs) used reserve) remaining ?st = (r, st')" by (metis surj_pair)
  note ok = run_stage_accounted [OF r st(1), unfolded st(2,3),
      OF stage_rounds_fit [OF acc reserve, unfolded counters] remaining]
  show ?thesis unfolding r by (rule concluded) (use ok affordable_less [of inputs k] in auto)
qed

end

text \<open>A step of the loop over the candidates, and a phase that either returns from the run or goes on with a choice.\<close>

definition stepped :: "ReviewPipelineInputs \<Rightarrow> 'e investigator_step \<times> 'w metered review_state \<Rightarrow> bool" where
  "stepped inputs x = (case fst x of InvReturn out \<Rightarrow> settled inputs (out, snd x) | _ \<Rightarrow> accounted inputs 1 (snd x))"

definition carried ::
  "ReviewPipelineInputs \<Rightarrow> ('e MultiModelOutcome \<times> 'w metered review_state) + ('c \<times> 'w metered review_state) \<Rightarrow> bool" where
  "carried inputs x = (case x of Inl res \<Rightarrow> settled inputs res | Inr y \<Rightarrow> accounted inputs 1 (snd y))"

lemma carried_simps [simp]:
  "carried inputs (Inl res) = settled inputs res"
  "carried inputs (Inr (c, st)) = accounted inputs 1 st"
  by (simp_all add: carried_def)

interpretation investigator_end: stage_end inputs Investigator "Some gid" 1 "after_investigator (rp_role_ids inputs) gid" "stepped inputs"
  for inputs gid
proof unfold_locales
  fix st :: "'w metered review_state" and r :: "('e, CandidateFindingV1) CallResult"
  assume "affordable inputs 0 (snd (vs_world st))"
    and "\<And>outcome detail. accounted inputs 1 (close_stage (rp_role_ids inputs) Investigator (Some gid) (usage_of r) outcome detail st)"
  then show "stepped inputs (after_investigator (rp_role_ids inputs) gid (r, st))"
    by (cases r) (auto simp: stepped_def Let_def settled_def deadline_outcome_def cancelled_outcome_def
        provider_failed_outcome_def emit_terminal_stage_def emit_event_def)
qed

interpretation reviewer_end: stage_end inputs Reviewer None 1 "after_reviewer (rp_role_ids inputs)" "carried inputs" for inputs
proof unfold_locales
  fix st :: "'w metered review_state" and r :: "('e, ReviewReportV1) CallResult"
  assume "affordable inputs 0 (snd (vs_world st))"
    and "\<And>outcome detail. accounted inputs 1 (close_stage (rp_role_ids inputs) Reviewer None (usage_of r) outcome detail st)"
  then show "carried inputs (after_reviewer (rp_role_ids inputs) (r, st))"
    by (cases r) (auto simp: Let_def degrade_review_def)
qed

interpretation causal_end: stage_end inputs CausalSynthesizer None 1 "after_causal (rp_role_ids inputs)" "carried inputs" for inputs
proof unfold_locales
  fix st :: "'w metered review_state" and r :: "('e, CausalSynthesisV1) CallResult"
  assume "affordable inputs 0 (snd (vs_world st))"
    and "\<And>outcome detail. accounted inputs 1 (close_stage (rp_role_ids inputs) CausalSynthesizer None (usage_of r) outcome detail st)"
  then show "carried inputs (after_causal (rp_role_ids inputs) (r, st))" by (cases r) auto
qed

interpretation synthesis_end: stage_end inputs Synthesizer None 0 "after_synthesis co (rp_role_ids inputs) ch" "settled inputs" for inputs co ch
proof unfold_locales
  fix st :: "'w metered review_state" and r :: "('e, AnswerEnvelopeV1) CallResult"
  assume aff: "affordable inputs 0 (snd (vs_world st))"
    and close: "\<And>outcome detail. accounted inputs 0 (close_stage (rp_role_ids inputs) Synthesizer None (usage_of r) outcome detail st)"
  show "settled inputs (after_synthesis co (rp_role_ids inputs) ch (r, st))"
  proof (cases r)
    case (CrOk env u)
    have "accounted inputs 0 (close_stage (rp_role_ids inputs) Synthesizer None u SoCompleted ''final answer validated'' st)"
      using close by (simp add: CrOk)
    then show ?thesis by (simp add: CrOk settled_def Let_def finalize_telemetry_def accounted_def)
  qed (use aff close in \<open>simp_all add: Let_def settled_failed [where k = 0]\<close>)
qed

lemma if_intro:
  assumes "c \<Longrightarrow> P x" and "\<not> c \<Longrightarrow> P y"
  shows "P (if c then x else y)"
  using assms by simp

lemma investigate_candidate_accounted:
  assumes acc: "accounted inputs 1 st"
  shows "stepped inputs (investigate_candidate co host (metered_backends b) inputs c st)"
proof (cases "candidate_ledger (co_digest co) c (rp_binding inputs)")
  case None
  then show ?thesis using acc by (simp add: investigate_candidate_def stepped_def)
next
  case (Some l)
  have skip: "stepped inputs (InvContinue, st\<lparr>vs_builds := n\<rparr>)" "stepped inputs (InvBreak, st\<lparr>vs_builds := n\<rparr>)" for n
    using acc by (simp_all add: stepped_def)
  have acc': "accounted inputs 1 (st\<lparr>vs_builds := n\<rparr>)" for n using acc by simp
  show ?thesis
    unfolding investigate_candidate_def Some option.case Let_def metered_backends_simps
    by (intro if_intro [where P = "stepped inputs"] skip investigator_end.driven [OF acc' refl refl _ stage_chars_fit]) simp
qed

lemma investigate_accounted:
  assumes "accounted inputs 1 st"
  shows "case investigate co host (metered_backends b) inputs cs findings accepted st of
      Inl res \<Rightarrow> settled inputs res
    | Inr (findings', accepted', st') \<Rightarrow> accounted inputs 1 st'"
  using assms
proof (induction cs arbitrary: findings accepted st)
  case Nil
  then show ?case by simp
next
  case (Cons c cs)
  obtain x st' where x: "investigate_candidate co host (metered_backends b) inputs c st = (x, st')" by (metis surj_pair)
  have step: "stepped inputs (x, st')" using investigate_candidate_accounted [OF Cons.prems, of co host b c] x by simp
  then show ?case
    using Cons.IH [of st'] x by (cases x) (simp_all add: stepped_def)
qed

lemma review_stage_accounted:
  assumes acc: "accounted inputs 1 st"
  shows "carried inputs (review_stage co host (metered_backends b) inputs findings l st)"
  unfolding review_stage_def Let_def metered_backends_simps
proof (rule if_intro [where P = "carried inputs"])
  show "carried inputs (Inr (degraded BudgetRoundsInsufficient, emit_skip (rp_role_ids inputs) BudgetRoundsInsufficient st))"
    using acc by simp
qed (rule reviewer_end.driven [OF acc refl refl _ stage_chars_fit], simp)

lemma causal_stage_accounted:
  assumes acc: "accounted inputs 1 st"
  shows "carried inputs (causal_stage co host (metered_backends b) inputs findings review l candidate_ids topology st)"
proof -
  have chars: "\<forall>limit. max_context_chars_total (rp_budget inputs) = Some limit \<longrightarrow>
      (\<exists>a. map_option (\<lambda>remaining. saturating_sub remaining reserve)
          (remaining_turn_chars (max_context_chars_total (rp_budget inputs)) (vs_used_chars st)) = Some a
        \<and> a \<le> saturating_sub limit (vs_used_chars st))" for reserve
    by (auto simp: remaining_turn_chars_def word_le_nat_alt unat_saturating_sub)
  show ?thesis
    unfolding causal_stage_def Let_def metered_backends_simps
    by (rule if_intro [where P = "carried inputs"]) (use acc in simp, rule causal_end.driven [OF _ _ _ _ chars], use acc in simp_all)
qed

lemma causal_phase_accounted:
  assumes "accounted inputs 1 st"
  shows "carried inputs (causal_phase co host (metered_backends b) inputs findings review l candidate_ids st)"
  using assms
  by (simp add: causal_phase_def choose_topology_def causal_stage_accounted [OF assms] split: option.split sum.split)

lemma synthesis_phase_settled:
  assumes acc: "accounted inputs 1 st"
  shows "settled inputs (synthesis_phase co host (metered_backends b) inputs findings ch l candidate_ids causal st)"
proof (cases "final_causal_ledger (co_digest co) l causal")
  case None
  then show ?thesis unfolding synthesis_phase_def None option.case by (intro settled_failed [OF acc]) simp
next
  case (Some lf)
  have acc0: "accounted inputs 0 st" by (rule accounted_less [OF acc]) simp
  have "stage_budget (rp_budget inputs) (vs_used_rounds st) 0 \<noteq> 0"
    using acc by (intro stage_budget_pos) (simp add: accounted_def affordable_def)
  then show ?thesis
    unfolding synthesis_phase_def Some option.case Let_def metered_backends_simps
    by (simp only: if_False) (rule synthesis_end.driven [OF acc0 refl refl _ stage_chars_fit], simp)
qed

lemma run_settled:
  fixes w :: 'w
  shows "settled inputs (run_review_pipeline co host (metered_backends b) inputs (w, []))"
proof -
  let ?st = "fresh_state (w, []) :: 'w metered review_state"
  have start: "accounted inputs 1 ?st" if "\<not> max_total_provider_rounds (rp_budget inputs) < 3"
    using that by (simp add: accounted_def affordable_def fresh_state_def word_less_nat_alt)
  have compare: "settled inputs (compare_findings co host (metered_backends b) inputs findings accepted st)"
    if acc: "accounted inputs 1 st" for findings accepted st
  proof -
    have synth: "settled inputs (case causal_phase co host (metered_backends b) inputs findings review l ids st1 of
          Inl out \<Rightarrow> out
        | Inr (causal, st) \<Rightarrow> synthesis_phase co host (metered_backends b) inputs findings ch l ids causal st)"
      if "accounted inputs 1 st1" for ch review l ids st1
      using causal_phase_accounted [OF that, of co host b findings review l ids]
      by (cases "causal_phase co host (metered_backends b) inputs findings review l ids st1")
         (auto simp: synthesis_phase_settled)
    have "settled inputs (case review_stage co host (metered_backends b) inputs findings l st of
             Inl out \<Rightarrow> out
           | Inr (ch, st) \<Rightarrow>
               (case causal_phase co host (metered_backends b) inputs findings (ch_review ch) l ids st of
                  Inl out \<Rightarrow> out
                | Inr (causal, st) \<Rightarrow> synthesis_phase co host (metered_backends b) inputs findings ch l ids causal st))" for l ids
      using review_stage_accounted [OF acc, of co host b findings l] synth
      by (cases "review_stage co host (metered_backends b) inputs findings l st") auto
    then show ?thesis
      unfolding compare_findings_def Let_def
      by (cases "union_ledger (co_digest co) accepted (rp_comparison_context inputs) (rp_binding inputs)")
         (simp_all add: settled_failed [OF acc, simplified])
  qed
  have "settled inputs (MmNotEligible, ?st)" by (simp add: settled_def affordable_def fresh_state_def)
  then show ?thesis
    using start investigate_accounted [of inputs ?st co host b "eligible_candidates inputs" "[]" "[]"] compare
    by (auto simp: run_review_pipeline_def Let_def split: sum.splits)
qed

end
