(* ===== verification/Causal_Properties.thy ===== *)
theory Causal_Properties
  imports Causal_Topology
begin

text \<open>
  What the causal contract guarantees: the accepted relations of a derived topology are backed by
  validated claims and by the host's own classification of the cited rows; order, chronology and
  frequency have no influence; without contradictions a derived topology can always be filled.
\<close>

section \<open>Derived topologies\<close>

lemma keyed_sorted:
  assumes "bt_wf m" and "\<And>k v. (k, v) \<in> set m \<Longrightarrow> key v = k"
  shows "map (\<lambda>v. (key v, v)) (sort_key key (bt_values m)) = m"
proof -
  have "map key (bt_values m) = map fst m" using assms(2) by (auto simp: bt_values_def)
  then have "sorted (map key (bt_values m))"
    using assms(1) by (simp only: bt_wf_def strict_sorted_iff)
  then have "sort_key key (bt_values m) = bt_values m" by (intro properties_for_sort_key) simp_all
  then show ?thesis using assms(2) by (auto simp: bt_values_def intro!: map_idI)
qed

lemma fold_insert_keys: "set (bt_keys (fold (\<lambda>x. bt_insert (k x) (g x)) xs m)) = set (bt_keys m) \<union> k ` set xs"
  by (induction xs arbitrary: m) (auto simp: bt_keys_def bt_insert_keys simp del: set_map)

lemma required_kinds_set: "set (required_kinds slots) = sl_kind ` set slots"
  unfolding required_kinds_def fold_insert_keys by (simp add: bt_keys_def)

definition assigned :: "HostCausalTopologyInput \<Rightarrow> class_index \<Rightarrow> assignments" where
  "assigned input index = assign_claims (ti_ledger input) (ti_binding input) (ti_known_claims input)
     (ti_recovery_evidence_ids input) index (ti_findings input)"

definition derived_from ::
  "HostCausalTopologyInput \<Rightarrow> class_index \<Rightarrow> derivation \<Rightarrow> HostCausalTopologyV1 \<Rightarrow> bool" where
  "derived_from input index d t \<longleftrightarrow>
     index_classifications (ti_classifications input) = Inr index
     \<and> distinct (map claim_pair (all_claims (ti_findings input)))
     \<and> emission_ok (ti_ledger input) (assigned input index) d
     \<and> list_all identity_inert (bt_values (dv_identities d))
     \<and> (\<exists>s. bt_get (dv_slots d) (slot_key s) = Some s \<and> sl_kind s = InitiatingTrigger)
     \<and> (\<exists>s. bt_get (dv_slots d) (slot_key s) = Some s \<and> sl_kind s = PropagatedSymptom)
     \<and> bind_corpus_id (ti_binding input) = bind_corpus_id (led_binding (ti_ledger input))
     \<and> bind_revision (ti_binding input) = bind_revision (led_binding (ti_ledger input))
     \<and> t = \<lparr>tp_corpus_id = bind_corpus_id (ti_binding input), tp_revision = bind_revision (ti_binding input),
          tp_identities = dv_identities d,
          tp_admitted_candidates = hi_candidate_id ` set (bt_values (dv_identities d)),
          tp_admitted_claims = identity_pair ` set (bt_values (dv_identities d)),
          tp_allowed_slots = dv_slots d,
          tp_required_kinds = sl_kind ` set (bt_values (dv_slots d)), tp_classes = dv_classes d\<rparr>"

lemma emittedD:
  assumes "emission_ok l m d"
  shows "bt_get (dv_identities d) i = Some idn \<Longrightarrow>
      \<exists>a e. bt_get m (identity_pair idn) = Some a \<and> i \<in> set (as_evidence_ids a) \<and> ledger_get l i = Some e
        \<and> idn = host_identity (hi_candidate_id idn) (hi_claim_id idn) i e"
    and "bt_get (dv_slots d) k = Some s \<Longrightarrow> slot_key s = k
      \<and> (\<exists>a. bt_get m (slot_pair s) = Some a \<and> as_kind a = sl_kind s)
      \<and> (\<exists>i idn. bt_get (dv_identities d) i = Some idn \<and> identity_pair idn = slot_pair s)"
    and "i \<in> recovery_evidence_ids (dv_classes d) \<Longrightarrow> \<exists>idn a. bt_get (dv_identities d) i = Some idn
      \<and> bt_get m (identity_pair idn) = Some a \<and> as_kind a = Recovery"
    and "i \<in> unrelated_evidence_ids (dv_classes d) \<union> decoy_evidence_ids (dv_classes d) \<Longrightarrow>
      \<exists>idn a. bt_get (dv_identities d) i = Some idn \<and> bt_get m (identity_pair idn) = Some a
        \<and> as_kind a = UnrelatedCompeting"
  using assms unfolding emission_ok_def by blast+

lemma emitted_keyed:
  assumes "emission_ok l m d"
  shows "(i, idn) \<in> set (dv_identities d) \<Longrightarrow> hi_evidence_id idn = i"
    and "(k, s) \<in> set (dv_slots d) \<Longrightarrow> slot_key s = k"
proof -
  have get: "bt_get n k = Some v" if "(k, v) \<in> set n" "bt_wf n" for n :: "('k::linorder, 'v) btree_map" and k v
    unfolding bt_get_def by (rule map_of_is_SomeI [OF bt_wf_distinct [OF that(2)] that(1)])
  show "hi_evidence_id idn = i" if "(i, idn) \<in> set (dv_identities d)"
  proof -
    have "bt_get (dv_identities d) i = Some idn" using get [OF that] assms by (simp add: emission_ok_def)
    then obtain e where "idn = host_identity (hi_candidate_id idn) (hi_claim_id idn) i e"
      using emittedD(1) [OF assms] by blast
    then show ?thesis by (metis HostCausalIdentityV1.select_convs(3) host_identity_def)
  qed
  show "slot_key s = k" if "(k, s) \<in> set (dv_slots d)"
    using get [OF that] assms emittedD(2) [OF assms] unfolding emission_ok_def by blast
qed

lemma emitted_empty:
  "emission_ok l m \<lparr>dv_identities = [], dv_slots = [],
     dv_classes = \<lparr>recovery_evidence_ids = {}, unrelated_evidence_ids = {}, decoy_evidence_ids = {}\<rparr>\<rparr>"
  by (simp add: emission_ok_def bt_wf_def bt_get_def)

lemma derive_slots_emitted:
  assumes "derive_slots input index = Inr d" and "ti_contradictions input = []"
    and "distinct (map claim_pair (all_claims (ti_findings input)))"
  shows "emission_ok (ti_ledger input) (assigned input index) d"
proof -
  have wf: "bt_wf (assigned input index)" unfolding assigned_def by (rule assign_claims_get(1) [OF assms(3)])
  from assms(1,2) show ?thesis
    unfolding derive_slots_def Let_def assigned_def [symmetric]
    by (auto simp: admit_disconfirmation_def dest!: emit_assignments_keeps [OF _ _ wf] intro: emitted_empty)
qed

lemma derive_topology_ok:
  assumes "derive_host_causal_topology input = Inr t" and "ti_contradictions input = []"
  shows "\<exists>index d. derived_from input index d t"
proof -
  from assms(1) obtain index seen d where
    index: "index_classifications (ti_classifications input) = Inr index"
    and uniq: "ensure_unique_claim_pairs (ti_findings input) = Inr seen"
    and d: "derive_slots input index = Inr d"
    and kinds: "list_ex (\<lambda>s. sl_kind s = InitiatingTrigger) (bt_values (dv_slots d))"
      "list_ex (\<lambda>s. sl_kind s = PropagatedSymptom) (bt_values (dv_slots d))"
    and bind: "bind_corpus_id (ti_binding input) = bind_corpus_id (led_binding (ti_ledger input))"
      "bind_revision (ti_binding input) = bind_revision (led_binding (ti_ledger input))"
    and new: "topology_try_new (bind_corpus_id (ti_binding input)) (bind_revision (ti_binding input))
      (bt_values (dv_identities d)) (bt_values (dv_slots d)) (required_kinds (bt_values (dv_slots d))) (dv_classes d) = Inr t"
    by (auto simp: derive_host_causal_topology_def Let_def split: if_splits)
  have distinct: "distinct (map claim_pair (all_claims (ti_findings input)))" using uniq by (simp add: unique_pairs_iff)
  have em: "emission_ok (ti_ledger input) (assigned input index) d" by (rule derive_slots_emitted [OF d assms(2) distinct])
  then have wf: "bt_wf (dv_identities d)" "bt_wf (dv_slots d)" by (simp_all add: emission_ok_def)
  have ids: "map (\<lambda>i. (hi_evidence_id i, i)) (sort_key hi_evidence_id (bt_values (dv_identities d))) = dv_identities d"
    by (rule keyed_sorted [OF wf(1) emitted_keyed(1) [OF em]])
  have slots: "map (\<lambda>s. (slot_key s, s)) (sort_key slot_key (bt_values (dv_slots d))) = dv_slots d"
    by (rule keyed_sorted [OF wf(2) emitted_keyed(2) [OF em]])
  have slot: "bt_get (dv_slots d) (slot_key s) = Some s" if "s \<in> set (bt_values (dv_slots d))" for s
    using that emitted_keyed(2) [OF em] bt_wf_distinct [OF wf(2)] by (force simp: bt_values_def bt_get_def)
  have "derived_from input index d t"
    unfolding derived_from_def using index distinct em bind kinds slot new
    by (auto simp: topology_try_new_iff ids slots required_kinds_set list_ex_iff)
  then show ?thesis by blast
qed

section \<open>Backing of accepted relations\<close>

text \<open>An accepted relation fills one slot of the topology, and each row it cites is a row of the slot's own
  assignment: the claim was validated and known, and the host filed the row under that kind.\<close>

definition backed ::
  "HostCausalTopologyInput \<Rightarrow> class_index \<Rightarrow> CausalRelationKind \<Rightarrow> string \<times> string \<Rightarrow> string \<Rightarrow> bool" where
  "backed input index kind pair i \<longleftrightarrow>
     (\<exists>f \<in> set (ti_findings input). \<exists>c \<in> set (fi_claims f). \<exists>decoy.
        admissible_claim (ti_known_claims input) f c \<and> claim_pair c = pair \<and> i \<in> set (claim_evidence_ids c)
        \<and> evidence_route (ti_ledger input) (ti_binding input) (ti_recovery_evidence_ids input) index c i
            = Some (route_of_kind kind decoy))"

lemma assigned_backed:
  assumes "ledger_wf (ti_ledger input)" "distinct (map claim_pair (all_claims (ti_findings input)))"
    and "bt_get (assigned input index) pair = Some a" "i \<in> set (as_evidence_ids a)"
  shows "backed input index (as_kind a) pair i" "as_kind a \<noteq> Disconfirmation"
proof -
  let ?r = "evidence_route (ti_ledger input) (ti_binding input) (ti_recovery_evidence_ids input) index"
  obtain f c where fc: "f \<in> set (ti_findings input)" "c \<in> set (fi_claims f)" "claim_pair c = pair"
    "admissible_claim (ti_known_claims input) f c"
    and a: "assignment_of (?r c) (claim_evidence_ids c) = Some a"
    using assms(3) unfolding assigned_def assign_claims_get(2) [OF assms(2)] assign_claim_eq [OF assms(1)]
    by (auto split: if_splits)
  note ev = assignment_of_Some [OF a]
  with assms(4) have "i \<in> set (claim_evidence_ids c)" "?r c i = Some (route_of_kind (as_kind a) (as_decoy a))"
    by (simp_all add: routed_def)
  with fc show "backed input index (as_kind a) pair i" unfolding backed_def by blast
  show "as_kind a \<noteq> Disconfirmation" using ev by simp
qed

lemma relation_backed:
  assumes t: "derived_from input index d t" and wf: "ledger_wf (ti_ledger input)"
    and s: "validate_causal_synthesis F raw t = Inr s" and rel: "rel \<in> set (cs_relations s)"
    and i: "i \<in> set (rel_evidence_ids rel)"
  shows "backed input index (rel_kind rel) (rel_candidate_id rel, rel_claim_id rel) i"
proof -
  obtain p where p: "synthesis_ok t p" "s = reference_synthesis t p" using s by (auto simp: causal_synthesis_iff)
  with rel obtain q where q: "q \<in> set (mcs_relations p)" "rel = host_relation q"
    by (auto simp: reference_synthesis_def)
  have em: "emission_ok (ti_ledger input) (assigned input index) d"
    and uniq: "distinct (map claim_pair (all_claims (ti_findings input)))"
    and fields: "tp_identities t = dv_identities d" "tp_allowed_slots t = dv_slots d"
    using t by (simp_all add: derived_from_def)
  have ok: "relation_ok t q" using p(1) q(1) by (auto simp: synthesis_ok_def list_all_iff)
  then obtain slot where slot: "bt_get (dv_slots d) (mrel_kind q, relation_pair q) = Some slot"
    by (auto simp: relation_ok_def fields)
  obtain idn where idn: "bt_get (dv_identities d) i = Some idn" "identity_pair idn = relation_pair q"
    using ok i q(2) by (auto simp: relation_ok_def identity_ok_def list_all_iff fields host_relation_def
        identity_pair_def relation_pair_def split: option.splits)
  have key: "slot_key slot = (mrel_kind q, relation_pair q)" using emittedD(2) [OF em slot] by simp
  then have sp: "slot_pair slot = relation_pair q" "sl_kind slot = mrel_kind q"
    by (simp_all add: slot_key_def slot_pair_def relation_pair_def)
  then obtain a where a: "bt_get (assigned input index) (relation_pair q) = Some a" "as_kind a = mrel_kind q"
    using emittedD(2) [OF em slot] by auto
  have "i \<in> set (as_evidence_ids a)" using emittedD(1) [OF em idn(1)] idn(2) a(1) by auto
  from assigned_backed(1) [OF wf uniq a(1) this] a(2) show ?thesis
    by (simp add: q(2) host_relation_def relation_pair_def)
qed

lemma backed_trigger:
  assumes "backed input index InitiatingTrigger pair i"
    and "index_classifications (ti_classifications input) = Inr index"
  shows "\<exists>f \<in> set (ti_findings input). \<exists>c \<in> set (fi_claims f). \<exists>e. \<exists>cls \<in> set (ti_classifications input).
    claim_pair c = pair \<and> claim_status c = Supported \<and> i \<in> set (claim_evidence_ids c)
    \<and> ledger_get (ti_ledger input) i = Some e \<and> he_candidate_id e = fst pair
    \<and> claim_kind c \<noteq> Symptom \<and> (claim_kind c = CausalCandidate \<or> he_role e = RoleCause)
    \<and> hc_evidence_id cls = i \<and> hc_scope cls = ScopeCandidate
    \<and> hc_category cls \<in> {Focus, CrossSourceTemporal, TraceLinked} \<and> i \<notin> ti_recovery_evidence_ids input"
proof -
  obtain f c decoy where fc: "f \<in> set (ti_findings input)" "c \<in> set (fi_claims f)"
    "admissible_claim (ti_known_claims input) f c" "claim_pair c = pair" "i \<in> set (claim_evidence_ids c)"
    and route: "evidence_route (ti_ledger input) (ti_binding input) (ti_recovery_evidence_ids input) index c i = Some ToTrigger"
    using assms(1) by (auto simp: backed_def)
  then obtain e where e: "validated_entry (ti_ledger input) (ti_binding input) c i = Some e"
    and cr: "class_route (i \<in> ti_recovery_evidence_ids input) (claim_kind c) (he_role e) (class_of index i) = ToTrigger"
    by (auto simp: evidence_route_def split: option.splits if_splits)
  have cat: "hc_scope (class_of index i) = ScopeCandidate"
    "hc_category (class_of index i) \<in> {Focus, CrossSourceTemporal, TraceLinked}"
    "i \<notin> ti_recovery_evidence_ids input" "claim_kind c \<noteq> Symptom" "claim_kind c = CausalCandidate \<or> he_role e = RoleCause"
    using cr by (cases "hc_category (class_of index i)";
        auto simp: class_route_def is_independent_or_noise_def is_positional_chronology_def split: if_splits)+
  from cat(2) obtain cls where cls: "bt_get index i = Some cls" "class_of index i = cls"
    by (cases "bt_get index i") (auto simp: class_of_def)
  have "cls \<in> set (ti_classifications input)" "hc_evidence_id cls = i"
    using cls(1) index_get [OF assms(2)] by auto
  moreover have "ledger_get (ti_ledger input) i = Some e" "he_candidate_id e = fst pair"
    using e fc(4) by (auto simp: validated_entry_def split: option.splits if_splits)
  ultimately show ?thesis using fc cat cls unfolding admissible_claim_def
    by (intro bexI [of _ f] bexI [of _ c] exI [of _ e] bexI [of _ cls]) simp_all
qed

text \<open>An accepted trigger is backed by the host. For a topology derived without contradictions from a ledger the
  host built, every row that an accepted initiating trigger cites is a ledger row of the relation's candidate,
  cited by a supported claim with exactly that id which is a causal candidate (or whose row the host labelled a
  cause), and the host classified the row itself: in candidate scope, selected, clock-comparable or
  trace-linked. Noise, rows known by position only, propagated rows and recoveries never get there.\<close>

lemma accepted_trigger:
  assumes "ledger_new H b es = Inr (ti_ledger input)" and "ti_contradictions input = []"
    and "derive_host_causal_topology input = Inr t" and "validate_causal_synthesis F raw t = Inr s"
    and "rel \<in> set (cs_relations s)" "rel_kind rel = InitiatingTrigger" "i \<in> set (rel_evidence_ids rel)"
  shows "\<exists>f \<in> set (ti_findings input). \<exists>c \<in> set (fi_claims f). \<exists>e. \<exists>cls \<in> set (ti_classifications input).
    claim_pair c = (rel_candidate_id rel, rel_claim_id rel) \<and> claim_status c = Supported \<and> i \<in> set (claim_evidence_ids c)
    \<and> ledger_get (ti_ledger input) i = Some e \<and> he_candidate_id e = rel_candidate_id rel
    \<and> claim_kind c \<noteq> Symptom \<and> (claim_kind c = CausalCandidate \<or> he_role e = RoleCause)
    \<and> hc_evidence_id cls = i \<and> hc_scope cls = ScopeCandidate
    \<and> hc_category cls \<in> {Focus, CrossSourceTemporal, TraceLinked} \<and> i \<notin> ti_recovery_evidence_ids input"
proof -
  obtain index d where t: "derived_from input index d t" using derive_topology_ok [OF assms(3,2)] by blast
  from relation_backed [OF t ledger_new_wf(1) [OF assms(1)] assms(4,5,7)] assms(6)
  have "backed input index InitiatingTrigger (rel_candidate_id rel, rel_claim_id rel) i" by simp
  from backed_trigger [OF this] t show ?thesis by (simp add: derived_from_def)
qed

section \<open>Filling a topology\<close>

definition propose :: "HostCausalSlotV1 \<Rightarrow> string \<Rightarrow> ModelCausalRelationV1" where
  "propose s i = \<lparr>mrel_kind = sl_kind s, mrel_candidate_id = sl_candidate_id s, mrel_claim_id = sl_claim_id s,
     mrel_evidence_ids = [i], mrel_note = []\<rparr>"

lemma slot_can_be_filled:
  assumes t: "derived_from input index d t" and wf: "ledger_wf (ti_ledger input)"
    and slot: "bt_get (dv_slots d) (slot_key s) = Some s"
  shows "\<exists>i. relation_ok t (propose s i)"
    and "\<exists>a. bt_get (assigned input index) (slot_pair s) = Some a \<and> as_kind a = sl_kind s"
proof -
  have em: "emission_ok (ti_ledger input) (assigned input index) d"
    and uniq: "distinct (map claim_pair (all_claims (ti_findings input)))"
    and inert: "list_all identity_inert (bt_values (dv_identities d))"
    and corpus: "bind_corpus_id (ti_binding input) = bind_corpus_id (led_binding (ti_ledger input))"
      "bind_revision (ti_binding input) = bind_revision (led_binding (ti_ledger input))"
    and fields: "t = \<lparr>tp_corpus_id = bind_corpus_id (ti_binding input), tp_revision = bind_revision (ti_binding input),
          tp_identities = dv_identities d,
          tp_admitted_candidates = hi_candidate_id ` set (bt_values (dv_identities d)),
          tp_admitted_claims = identity_pair ` set (bt_values (dv_identities d)),
          tp_allowed_slots = dv_slots d,
          tp_required_kinds = sl_kind ` set (bt_values (dv_slots d)), tp_classes = dv_classes d\<rparr>"
    using t by (simp_all add: derived_from_def)
  show a: "\<exists>a. bt_get (assigned input index) (slot_pair s) = Some a \<and> as_kind a = sl_kind s"
    using emittedD(2) [OF em slot] by blast
  obtain i idn where idn: "bt_get (dv_identities d) i = Some idn" "identity_pair idn = slot_pair s"
    using emittedD(2) [OF em slot] by blast
  then obtain e where e: "ledger_get (ti_ledger input) i = Some e"
    "idn = host_identity (hi_candidate_id idn) (hi_claim_id idn) i e"
    using emittedD(1) [OF em idn(1)] by blast
  have mem: "idn \<in> set (bt_values (dv_identities d))"
    using idn(1) by (force simp: bt_values_def bt_get_def dest: map_of_SomeD)
  have rev: "he_corpus_id e = bind_corpus_id (led_binding (ti_ledger input))"
    "he_revision e = bind_revision (led_binding (ti_ledger input))"
    using wf e(1) by (auto simp: ledger_wf_def ledger_get_def bt_get_def dest!: map_of_SomeD)
  have i: "hi_evidence_id idn = i" "hi_corpus_id idn = he_corpus_id e" "hi_revision idn = he_revision e"
    using e(2) by (metis HostCausalIdentityV1.select_convs(3-5) host_identity_def)+
  have not_class: "i \<notin> recovery_evidence_ids (dv_classes d)" if "sl_kind s = InitiatingTrigger"
    using emittedD(3) [OF em, of i] a idn that by auto
  have not_decoy: "i \<notin> unrelated_evidence_ids (dv_classes d) \<union> decoy_evidence_ids (dv_classes d)"
    if "sl_kind s \<noteq> UnrelatedCompeting"
    using emittedD(4) [OF em, of i] a idn that by auto
  have "identity_inert idn" using inert mem by (simp add: list_all_iff)
  then have "relation_ok t (propose s i)"
    using idn mem slot not_class not_decoy rev corpus i
    by (auto simp: relation_ok_def identity_ok_def propose_def fields relation_pair_def slot_pair_def identity_pair_def
        identity_inert_def slot_key_def image_iff intro: bexI [of _ idn])
  then show "\<exists>i. relation_ok t (propose s i)" ..
qed

lemma topology_can_be_filled:
  assumes t: "derived_from input index d t" and wf: "ledger_wf (ti_ledger input)"
  shows "\<exists>p. synthesis_ok t p"
proof -
  obtain sT sS where slots: "bt_get (dv_slots d) (slot_key sT) = Some sT" "sl_kind sT = InitiatingTrigger"
    "bt_get (dv_slots d) (slot_key sS) = Some sS" "sl_kind sS = PropagatedSymptom"
    using t by (auto simp: derived_from_def)
  obtain i j where rel: "relation_ok t (propose sT i)" "relation_ok t (propose sS j)"
    using slot_can_be_filled(1) [OF t wf] slots by blast
  have "slot_pair sT \<noteq> slot_pair sS"
    using slot_can_be_filled(2) [OF t wf slots(1)] slot_can_be_filled(2) [OF t wf slots(3)] slots by auto
  then have pairs: "relation_pair (propose sT i) \<noteq> relation_pair (propose sS j)"
    by (simp add: relation_pair_def propose_def slot_pair_def)
  have "sl_kind s \<noteq> Disconfirmation" if "s \<in> set (bt_values (dv_slots d))" for s
  proof -
    have em: "emission_ok (ti_ledger input) (assigned input index) d"
      and uniq: "distinct (map claim_pair (all_claims (ti_findings input)))" using t by (simp_all add: derived_from_def)
    then have "bt_get (dv_slots d) (slot_key s) = Some s"
      using that emitted_keyed(2) [OF em] bt_wf_distinct [of "dv_slots d"]
      by (force simp: emission_ok_def bt_values_def bt_get_def)
    from emittedD(2) [OF em this] obtain a i idn where
      "bt_get (assigned input index) (slot_pair s) = Some a" "as_kind a = sl_kind s"
      "bt_get (dv_identities d) i = Some idn" "identity_pair idn = slot_pair s" by blast
    moreover from this have "i \<in> set (as_evidence_ids a)" using emittedD(1) [OF em] by fastforce
    ultimately show ?thesis using assigned_backed(2) [OF wf uniq] by metis
  qed
  then have "tp_required_kinds t \<inter> {InitiatingTrigger, PropagatedSymptom, Disconfirmation}
      \<subseteq> {InitiatingTrigger, PropagatedSymptom}"
    using t by (auto simp: derived_from_def)
  then have "synthesis_ok t \<lparr>mcs_schema = CAUSAL_SYNTHESIS_SCHEMA_V1, mcs_relations = [propose sT i, propose sS j]\<rparr>"
    using rel pairs slots by (auto simp: synthesis_ok_def propose_def)
  then show ?thesis ..
qed

section \<open>What the derivation cannot see\<close>

text \<open>The part of a finding and of a classification that carries no prose, chronology or frequency.\<close>

definition claim_core :: "InvestigationClaimV1 \<Rightarrow> InvestigationClaimV1" where
  "claim_core c = c\<lparr>claim_text := []\<rparr>"

definition finding_core :: "CandidateFindingV1 \<Rightarrow> CandidateFindingV1" where
  "finding_core f = \<lparr>fi_candidate_id = fi_candidate_id f, fi_claims = map claim_core (fi_claims f), fi_citations = [],
     fi_role_binding = \<lparr>rb_role = Investigator, rb_profile = [], rb_model = [], rb_semantic_attempts = 0\<rparr>\<rparr>"

definition class_core :: "HostEvidenceClassV1 \<Rightarrow> HostEvidenceClassV1" where
  "class_core c = c\<lparr>hc_chronology_ordinal := None, hc_frequency := None\<rparr>"

lemma core_simps [simp]:
  "claim_id (claim_core c) = claim_id c" "claim_candidate_id (claim_core c) = claim_candidate_id c"
  "claim_kind (claim_core c) = claim_kind c" "claim_evidence_ids (claim_core c) = claim_evidence_ids c"
  "claim_status (claim_core c) = claim_status c"
  "fi_candidate_id (finding_core f) = fi_candidate_id f" "fi_claims (finding_core f) = map claim_core (fi_claims f)"
  "hc_evidence_id (class_core k) = hc_evidence_id k" "hc_scope (class_core k) = hc_scope k"
  "hc_category (class_core k) = hc_category k"
  by (simp_all add: claim_core_def finding_core_def class_core_def)

lemma index_core:
  "index_classifications cs = (if distinct (map hc_evidence_id cs)
     then Inr (map (\<lambda>c. (hc_evidence_id c, c)) (sort_key hc_evidence_id cs)) else Inl CtDuplicateId)"
proof (cases "index_classifications cs")
  case (Inl e)
  have "try_fold index_step m cs = Inl e \<Longrightarrow> e = CtDuplicateId" for m
    by (induction cs arbitrary: m) (auto simp: index_step_def split: sum.splits if_splits)
  with Inl show ?thesis using index_classifications_iff [of cs] by (auto simp: index_classifications_def)
next
  case (Inr m)
  then show ?thesis using index_classifications_iff [of cs m] by simp
qed

lemma insort_key_map: "(\<And>x. key (g x) = key x) \<Longrightarrow> insort_key key (g x) (map g xs) = map g (insort_key key x xs)"
  by (induction xs) auto

lemma sort_key_core: "(\<And>x. key (g x) = key x) \<Longrightarrow> sort_key key (map g xs) = map g (sort_key key xs)"
  by (induction xs) (simp_all add: insort_key_map)

lemma class_of_core:
  assumes "index_classifications cs = Inr index" and "index_classifications (map class_core cs) = Inr index'"
  shows "hc_scope (class_of index' i) = hc_scope (class_of index i)"
    and "hc_category (class_of index' i) = hc_category (class_of index i)"
proof -
  have "index' = map (\<lambda>(k, c). (k, class_core c)) index"
    using assms by (auto simp: index_core sort_key_core split: if_splits)
  moreover have "map_of (map (\<lambda>(k, c). (k, class_core c)) xs) i = map_option class_core (map_of xs i)" for xs
    by (induction xs) auto
  ultimately have "bt_get index' i = map_option class_core (bt_get index i)" by (simp add: bt_get_def)
  then show "hc_scope (class_of index' i) = hc_scope (class_of index i)"
    "hc_category (class_of index' i) = hc_category (class_of index i)"
    by (simp_all add: class_of_def split: option.splits)
qed

lemma assign_core:
  assumes "\<And>i. hc_scope (class_of index' i) = hc_scope (class_of index i)"
    and "\<And>i. hc_category (class_of index' i) = hc_category (class_of index i)"
  shows "assign_claim (finding_core f) (claim_core c) l binding known recovery index' =
    assign_claim f c l binding known recovery index"
proof -
  have entry: "validated_entry l binding (claim_core c) i = validated_entry l binding c i" for i
    by (simp add: validated_entry_def cong: option.case_cong)
  have "sort_evidence_step l binding recovery index' (claim_core c) i st = sort_evidence_step l binding recovery index c i st" for i st
    by (cases "validated_entry l binding c i")
       (simp_all add: sort_evidence_step_def entry is_independent_or_noise_def is_positional_chronology_def assms Let_def)
  then have "sort_evidence_step l binding recovery index' (claim_core c) = sort_evidence_step l binding recovery index c"
    by (intro ext)
  then show ?thesis by (simp add: assign_claim_def)
qed

lemma find_claim_core: "find_claim (map finding_core fs) cand cl = map_option claim_core (find_claim fs cand cl)"
proof (induction fs)
  case (Cons f fs)
  have "find P (map claim_core cs) = map_option claim_core (find (P \<circ> claim_core) cs)" for P cs
    by (induction cs) auto
  with Cons show ?case by (simp add: comp_def split: option.splits)
qed simp

lemma emit_core: "emit_step l (map finding_core fs) inc = emit_step l fs inc"
proof -
  have "emit_evidence_step l cand cl a (claim_core c) = emit_evidence_step l cand cl a c" for cand cl a c
  proof -
    have "identity_matches_kind k (claim_core c) e = identity_matches_kind k c e" for k e by (cases k) simp_all
    then have m: "identity_matches_assignment a (claim_core c) = identity_matches_assignment a c"
      by (intro ext) (simp add: identity_matches_assignment_def)
    show ?thesis by (intro ext) (simp only: emit_evidence_step_def m)
  qed
  then show ?thesis
    by (intro ext) (simp add: emit_step_def find_claim_core split: option.splits prod.splits)
qed

lemma all_claims_core: "all_claims (map finding_core fs) = map claim_core (all_claims fs)"
  by (induction fs) (simp_all add: all_claims_def)

lemma unique_pairs_eq:
  "ensure_unique_claim_pairs fs = (if distinct (map claim_pair (all_claims fs))
     then Inr (claim_pair ` set (all_claims fs)) else Inl CtDuplicateId)"
proof (cases "ensure_unique_claim_pairs fs")
  case (Inl e)
  have "try_fold pair_step seen cs = Inl e \<Longrightarrow> e = CtDuplicateId" for seen cs
    by (induction cs arbitrary: seen) (auto simp: pair_step_def split: sum.splits if_splits)
  with Inl show ?thesis using unique_pairs_iff [of fs "claim_pair ` set (all_claims fs)"]
    by (auto simp: ensure_unique_claim_pairs_def try_fold_concat)
next
  case (Inr m)
  then show ?thesis using unique_pairs_iff [of fs m] by simp
qed

lemma disconfirmation_core:
  "admit_disconfirmation xs known (map finding_core fs) l binding = admit_disconfirmation xs known fs l binding"
proof -
  have "disconfirmation_evidence x cand cl (map finding_core fs) l binding = disconfirmation_evidence x cand cl fs l binding"
    for x cand cl
    by (cases "find_claim fs cand cl") (simp_all add: disconfirmation_evidence_def find_claim_core)
  then have step: "disconfirm_pair_step (map finding_core fs) l binding = disconfirm_pair_step fs l binding"
    by (intro ext) (simp add: disconfirm_pair_step_def)
  show ?thesis by (intro ext) (simp only: admit_disconfirmation_def step)
qed

definition core_input :: "HostCausalTopologyInput \<Rightarrow> HostCausalTopologyInput" where
  "core_input input = input\<lparr>ti_findings := map finding_core (ti_findings input),
     ti_classifications := map class_core (ti_classifications input)\<rparr>"

lemma core_input_simps [simp]:
  "ti_findings (core_input input) = map finding_core (ti_findings input)"
  "ti_classifications (core_input input) = map class_core (ti_classifications input)"
  "ti_binding (core_input input) = ti_binding input" "ti_ledger (core_input input) = ti_ledger input"
  "ti_known_claims (core_input input) = ti_known_claims input"
  "ti_contradictions (core_input input) = ti_contradictions input"
  "ti_recovery_evidence_ids (core_input input) = ti_recovery_evidence_ids input"
  by (simp_all add: core_input_def)

lemma derive_slots_core:
  assumes "index_classifications (ti_classifications input) = Inr index"
    and "index_classifications (map class_core (ti_classifications input)) = Inr index'"
  shows "derive_slots (core_input input) index' = derive_slots input index"
proof -
  note same = assign_core [OF class_of_core(1) [OF assms] class_of_core(2) [OF assms]]
  have "assign_claims l binding known recovery index' (map finding_core fs) =
      assign_claims l binding known recovery index fs" for l binding known recovery fs
    by (simp add: assign_claims_def fold_map comp_def same cong: option.case_cong)
  then show ?thesis
    by (simp add: derive_slots_def emit_assignments_def emit_core disconfirmation_core Let_def)
qed

lemma derive_core: "derive_host_causal_topology (core_input input) = derive_host_causal_topology input"
proof -
  have ids: "map hc_evidence_id (map class_core cs) = map hc_evidence_id cs" for cs by simp
  have pairs: "map claim_pair (all_claims (map finding_core fs)) = map claim_pair (all_claims fs)" for fs
    by (simp add: all_claims_core)
  show ?thesis
  proof (cases "distinct (map hc_evidence_id (ti_classifications input))
      \<and> distinct (map claim_pair (all_claims (ti_findings input)))")
    case False
    then show ?thesis
      by (auto simp: derive_host_causal_topology_def index_core ids pairs unique_pairs_eq Let_def simp del: map_map)
  next
    case True
    then obtain index index' where "index_classifications (ti_classifications input) = Inr index"
      "index_classifications (map class_core (ti_classifications input)) = Inr index'"
      by (simp add: index_core comp_def)
    then show ?thesis using True derive_slots_core
      by (simp add: derive_host_causal_topology_def unique_pairs_eq pairs Let_def del: map_map)
  qed
qed

lemma claim_entries_perm: "mset fs = mset fs' \<Longrightarrow> mset (claim_entries fs) = mset (claim_entries fs')"
proof -
  assume "mset fs = mset fs'"
  then have "\<Sum>\<^sub># (image_mset (\<lambda>f. mset (map (Pair f) (fi_claims f))) (mset fs)) =
    \<Sum>\<^sub># (image_mset (\<lambda>f. mset (map (Pair f) (fi_claims f))) (mset fs'))" by simp
  then show ?thesis by (simp add: claim_entries_def mset_concat comp_def sum_mset_sum_list flip: mset_map)
qed

lemma all_claims_perm: "mset fs = mset fs' \<Longrightarrow> mset (all_claims fs) = mset (all_claims fs')"
  using claim_entries_perm [of fs fs'] by (simp flip: claim_entries_claims)

lemma derive_slots_perm:
  assumes fs: "mset fs = mset fs'" and uniq: "distinct (map claim_pair (all_claims fs))"
  shows "derive_slots (input\<lparr>ti_findings := fs\<rparr>) index = derive_slots (input\<lparr>ti_findings := fs'\<rparr>) index"
proof -
  have uniq': "distinct (map claim_pair (all_claims fs'))"
    using uniq all_claims_perm [OF fs] mset_eq_imp_distinct_iff [of "map claim_pair (all_claims fs)" "map claim_pair (all_claims fs')"]
    by simp
  have "find_claim fs cand cl = Some c \<longleftrightarrow> find_claim fs' cand cl = Some c" for cand cl c
    unfolding find_claim_iff [OF uniq] find_claim_iff [OF uniq'] using mset_eq_setD [OF all_claims_perm [OF fs]] by simp
  then have find: "find_claim fs = find_claim fs'"
    by (intro ext) (metis option.exhaust)
  have "assign_claims l binding known recovery index fs = assign_claims l binding known recovery index fs'"
    for l binding known recovery
    unfolding assign_claims_eq [OF uniq] assign_claims_eq [OF uniq']
    by (subst sort_key_perm [OF distinct_entries [OF uniq]]) (simp_all add: claim_entries_perm [OF fs])
  moreover have "emit_step l fs = emit_step l fs'" for l by (intro ext) (simp only: emit_step_def find)
  moreover have step: "disconfirm_pair_step fs = disconfirm_pair_step fs'"
    by (intro ext) (simp only: disconfirm_pair_step_def disconfirmation_evidence_def find)
  have "admit_disconfirmation xs known fs = admit_disconfirmation xs known fs'" for xs known
    by (intro ext) (simp only: admit_disconfirmation_def step)
  ultimately show ?thesis by (simp add: derive_slots_def emit_assignments_def Let_def)
qed

lemma derive_perm:
  assumes fs: "mset (ti_findings input) = mset (ti_findings input')"
    and cs: "mset (ti_classifications input) = mset (ti_classifications input')"
    and rest: "input' = input\<lparr>ti_findings := ti_findings input', ti_classifications := ti_classifications input'\<rparr>"
  shows "derive_host_causal_topology input = derive_host_causal_topology input'"
proof -
  have index: "index_classifications (ti_classifications input) = index_classifications (ti_classifications input')"
    using cs sort_key_perm [OF _ cs, of hc_evidence_id]
      mset_eq_imp_distinct_iff [of "map hc_evidence_id (ti_classifications input)" "map hc_evidence_id (ti_classifications input')"]
    by (simp add: index_core)
  have uniq: "distinct (map claim_pair (all_claims (ti_findings input)))
      \<longleftrightarrow> distinct (map claim_pair (all_claims (ti_findings input')))"
    using all_claims_perm [OF fs]
      mset_eq_imp_distinct_iff [of "map claim_pair (all_claims (ti_findings input))" "map claim_pair (all_claims (ti_findings input'))"]
    by simp
  have same: "derive_slots input i = derive_slots input' i"
    if "distinct (map claim_pair (all_claims (ti_findings input)))" for i
  proof -
    have "derive_slots input' i = derive_slots (input\<lparr>ti_findings := ti_findings input'\<rparr>) i"
      by (subst rest) (simp add: derive_slots_def)
    also have "\<dots> = derive_slots (input\<lparr>ti_findings := ti_findings input\<rparr>) i"
      by (rule derive_slots_perm [OF fs that, symmetric])
    finally show ?thesis by simp
  qed
  have fields: "ti_binding input' = ti_binding input" "ti_ledger input' = ti_ledger input" by (subst rest; simp)+
  show ?thesis
    unfolding derive_host_causal_topology_def Let_def fields index [symmetric] unique_pairs_eq uniq [symmetric]
    using same by (cases "distinct (map claim_pair (all_claims (ti_findings input)))") simp_all
qed

section \<open>A small incident\<close>

text \<open>Two candidates: a claimed cause in one, a symptom in the other.\<close>

definition causal_revision :: LogSnapshotRevisionV1 where
  "causal_revision = \<lparr>event_revision = 1, template_analysis_revision = 2, suppression_revision = 3\<rparr>"

definition causal_binding :: AnswerBindingV1 where
  "causal_binding = \<lparr>bind_session_id = ''s'', bind_turn_id = ''t'', bind_corpus_id = ''c'', bind_revision = causal_revision,
     bind_ledger_digest = ''d''\<rparr>"

definition causal_row :: "string \<Rightarrow> string \<Rightarrow> HostEvidenceEntry" where
  "causal_row i cand = \<lparr>he_evidence_id = i, he_candidate_id = cand, he_source_label = ''l'', he_locator = ''q'',
     he_corpus_id = ''c'', he_revision = causal_revision, he_role = RoleNeutral, he_content = []\<rparr>"

definition causal_rows :: "HostEvidenceEntry list" where
  "causal_rows = [causal_row ''e1'' ''k1'', causal_row ''e2'' ''k2'', causal_row ''e3'' ''k1'', causal_row ''e4'' ''k2'']"

definition causal_ledger :: HostEvidenceLedger where
  "causal_ledger = \<lparr>led_binding = causal_binding, led_entries = map (\<lambda>e. (he_evidence_id e, e)) causal_rows\<rparr>"

definition causal_claim :: "string \<Rightarrow> string \<Rightarrow> ClaimKind \<Rightarrow> string list \<Rightarrow> InvestigationClaimV1" where
  "causal_claim cand cl kind ids = \<lparr>claim_id = cl, claim_kind = kind, claim_text = ''x'', claim_candidate_id = cand,
     claim_evidence_ids = ids, claim_status = Supported\<rparr>"

definition causal_finding :: "string \<Rightarrow> InvestigationClaimV1 list \<Rightarrow> CandidateFindingV1" where
  "causal_finding cand cs = \<lparr>fi_candidate_id = cand, fi_claims = cs, fi_citations = [],
     fi_role_binding = \<lparr>rb_role = Investigator, rb_profile = ''p'', rb_model = ''m'', rb_semantic_attempts = 0\<rparr>\<rparr>"

definition causal_class :: "string \<Rightarrow> FastTriageEvidenceCategory \<Rightarrow> HostEvidenceClassV1" where
  "causal_class i cat = \<lparr>hc_evidence_id = i, hc_scope = ScopeCandidate, hc_category = cat,
     hc_chronology_ordinal = Some 7, hc_frequency = None\<rparr>"

definition causal_input :: "ReviewContradiction list \<Rightarrow> HostCausalTopologyInput" where
  "causal_input xs = \<lparr>ti_binding = causal_binding, ti_ledger = causal_ledger,
     ti_findings = [causal_finding ''k1'' [causal_claim ''k1'' ''c1'' CausalCandidate [''e1'', ''e3'']],
       causal_finding ''k2'' [causal_claim ''k2'' ''s1'' Symptom [''e2''], causal_claim ''k2'' ''o1'' Observation [''e4'']]],
     ti_known_claims = {(''k1'', ''c1''), (''k2'', ''s1''), (''k2'', ''o1'')}, ti_contradictions = xs,
     ti_recovery_evidence_ids = {},
     ti_classifications = [causal_class ''e1'' TraceLinked, causal_class ''e2'' Focus,
       causal_class ''e3'' PrecedingSameSource, causal_class ''e4'' Focus]\<rparr>"

definition causal_contradiction :: "string \<Rightarrow> string list \<Rightarrow> ReviewContradiction" where
  "causal_contradiction cl ids = \<lparr>rx_contradiction_id = ''x'', rx_candidate_a = ''k1'', rx_claim_a_id = ''c1'',
     rx_candidate_b = ''k2'', rx_claim_b_id = cl, rx_text = ''t'', rx_evidence_ids = ids\<rparr>"

definition causal_relation :: "CausalRelationKind \<Rightarrow> string \<Rightarrow> string \<Rightarrow> string \<Rightarrow> ModelCausalRelationV1" where
  "causal_relation kind cand cl i = \<lparr>mrel_kind = kind, mrel_candidate_id = cand, mrel_claim_id = cl,
     mrel_evidence_ids = [i], mrel_note = []\<rparr>"

definition causal_proposal :: "ModelCausalRelationV1 list \<Rightarrow> ModelCausalSynthesisV1" where
  "causal_proposal rels = \<lparr>mcs_schema = CAUSAL_SYNTHESIS_SCHEMA_V1, mcs_relations = rels\<rparr>"

lemma causal_ledger_new: "ledger_new (\<lambda>_. ''d'') causal_binding causal_rows = Inr causal_ledger"
  by code_simp

definition demo_slot :: "CausalRelationKind \<Rightarrow> string \<Rightarrow> string \<Rightarrow> slot_key \<times> HostCausalSlotV1" where
  "demo_slot kind cand cl = ((kind, cand, cl), slot_of kind cand cl)"

definition demo_identity :: "string \<Rightarrow> string \<Rightarrow> string \<Rightarrow> string \<times> HostCausalIdentityV1" where
  "demo_identity cand cl i = (i, host_identity cand cl i (causal_row i cand))"

definition demo_topology ::
  "(string \<times> HostCausalIdentityV1) list \<Rightarrow> (slot_key \<times> HostCausalSlotV1) list \<Rightarrow> CausalRelationKind set \<Rightarrow> HostCausalTopologyV1" where
  "demo_topology ids slots kinds = \<lparr>tp_corpus_id = ''c'', tp_revision = causal_revision, tp_identities = ids,
     tp_admitted_candidates = {''k1'', ''k2''}, tp_admitted_claims = set (map (\<lambda>i. identity_pair (snd i)) ids),
     tp_allowed_slots = slots, tp_required_kinds = kinds,
     tp_classes = \<lparr>recovery_evidence_ids = {}, unrelated_evidence_ids = {}, decoy_evidence_ids = {}\<rparr>\<rparr>"

lemma causal_derived:
  "derive_host_causal_topology (causal_input []) = Inr (demo_topology
     [demo_identity ''k1'' ''c1'' ''e1'', demo_identity ''k2'' ''s1'' ''e2'']
     [demo_slot InitiatingTrigger ''k1'' ''c1'', demo_slot PropagatedSymptom ''k2'' ''s1'']
     {InitiatingTrigger, PropagatedSymptom})"
  by code_simp

section \<open>Properties\<close>

text \<open>C19: The validator of causal proposals accepts exactly the proposals inside the topology: every relation
  fills an allowed slot of an admitted claim, no claim is used twice, every cited row is admitted for that very
  claim, corpus and revision, recovery rows are no trigger, unrelated and decoy rows stay unrelated, and the
  required trigger, symptom and disproof are present. The result repeats the relations and takes corpus and
  revision from the host.\<close>

theorem causal_synthesis_exact:
  "validate_causal_synthesis F raw t = Inr s \<longleftrightarrow>
     (\<exists>p. F raw = Inr p \<and> synthesis_ok t p \<and> s = reference_synthesis t p)"
  by (rule causal_synthesis_iff)

text \<open>C29: The derivation sees neither prose nor order nor chronology. Two inputs whose findings agree up to order, claim
  text, citations and provenance, and whose classifications agree up to order, ordinals and frequencies,
  give the same topology or the same error.\<close>

theorem derivation_ignores_prose_and_order:
  assumes "mset (map finding_core fs) = mset (map finding_core fs')"
    and "mset (map class_core cs) = mset (map class_core cs')"
  shows "derive_host_causal_topology (input\<lparr>ti_findings := fs, ti_classifications := cs\<rparr>)
    = derive_host_causal_topology (input\<lparr>ti_findings := fs', ti_classifications := cs'\<rparr>)"
proof -
  let ?a = "input\<lparr>ti_findings := fs, ti_classifications := cs\<rparr>" and ?b = "input\<lparr>ti_findings := fs', ti_classifications := cs'\<rparr>"
  have "derive_host_causal_topology (core_input ?a) = derive_host_causal_topology (core_input ?b)"
    by (rule derive_perm) (use assms in \<open>simp_all add: core_input_def\<close>)
  then show ?thesis by (simp only: derive_core)
qed

theorem derivation_ignores_prose_and_order_witness:
  "derive_host_causal_topology (causal_input []) =
     derive_host_causal_topology ((causal_input [])\<lparr>
       ti_findings := map (\<lambda>f. f\<lparr>fi_claims := map (\<lambda>c. c\<lparr>claim_text := ''the cause!''\<rparr>) (fi_claims f)\<rparr>) (rev (ti_findings (causal_input []))),
       ti_classifications := map (\<lambda>c. c\<lparr>hc_chronology_ordinal := Some 1, hc_frequency := Some 999\<rparr>) (rev (ti_classifications (causal_input [])))\<rparr>)"
proof -
  have 1: "finding_core (f\<lparr>fi_claims := map (\<lambda>c. c\<lparr>claim_text := ''the cause!''\<rparr>) (fi_claims f)\<rparr>) = finding_core f" for f
    by (simp add: finding_core_def claim_core_def)
  have 2: "class_core (c\<lparr>hc_chronology_ordinal := Some 1, hc_frequency := Some 999\<rparr>) = class_core c" for c
    by (simp add: class_core_def)
  let ?i = "causal_input []"
  have a: "mset (map finding_core (ti_findings ?i)) = mset (map finding_core
      (map (\<lambda>f. f\<lparr>fi_claims := map (\<lambda>c. c\<lparr>claim_text := ''the cause!''\<rparr>) (fi_claims f)\<rparr>) (rev (ti_findings ?i))))"
    by (simp add: comp_def 1 flip: rev_map)
  have b: "mset (map class_core (ti_classifications ?i)) = mset (map class_core
      (map (\<lambda>c. c\<lparr>hc_chronology_ordinal := Some 1, hc_frequency := Some 999\<rparr>) (rev (ti_classifications ?i))))"
    by (simp add: comp_def 2 flip: rev_map)
  have "?i = ?i\<lparr>ti_findings := ti_findings ?i, ti_classifications := ti_classifications ?i\<rparr>" by simp
  from arg_cong [OF this] derivation_ignores_prose_and_order [OF a b, of ?i] show ?thesis by (rule trans)
qed

text \<open>C31: Without contradictions the host never asks for the impossible: every topology it derives from a ledger it
  built can be filled by some proposal.\<close>

theorem derived_topology_satisfiable:
  assumes "ledger_new H b es = Inr (ti_ledger input)" and "ti_contradictions input = []"
    and "derive_host_causal_topology input = Inr t"
  shows "\<exists>p s. validate_causal_synthesis (\<lambda>_. Inr p) raw t = Inr s"
proof -
  obtain index d where t: "derived_from input index d t" using derive_topology_ok [OF assms(3,2)] by blast
  from topology_can_be_filled [OF t ledger_new_wf(1) [OF assms(1)]] obtain p where "synthesis_ok t p" ..
  then show ?thesis by (auto simp: causal_synthesis_iff)
qed

theorem derived_topology_satisfiable_witness:
  "\<exists>t p s. derive_host_causal_topology (causal_input []) = Inr t \<and> validate_causal_synthesis (\<lambda>_. Inr p) [] t = Inr s"
  using derived_topology_satisfiable [of "\<lambda>_. ''d''" causal_binding causal_rows "causal_input []"] causal_ledger_new causal_derived
  by (auto simp: causal_input_def)

lemma too_many_kinds:
  assumes "finite (tp_admitted_claims t)"
    and "card (tp_admitted_claims t) < card (tp_required_kinds t \<inter> {InitiatingTrigger, PropagatedSymptom, Disconfirmation})"
  shows "\<not> synthesis_ok t p"
proof
  assume ok: "synthesis_ok t p"
  then have "relation_pair ` set (mcs_relations p) \<subseteq> tp_admitted_claims t"
    by (auto simp: synthesis_ok_def relation_ok_def list_all_iff)
  then have "card (relation_pair ` set (mcs_relations p)) \<le> card (tp_admitted_claims t)" using assms(1) by (intro card_mono)
  moreover have "card (relation_pair ` set (mcs_relations p)) = length (mcs_relations p)"
    using ok distinct_card [of "map relation_pair (mcs_relations p)"] by (simp add: synthesis_ok_def)
  moreover have "card (mrel_kind ` set (mcs_relations p)) \<le> length (mcs_relations p)"
    using card_image_le [of "set (mcs_relations p)" mrel_kind] card_length [of "mcs_relations p"] by simp
  moreover have "card (tp_required_kinds t \<inter> {InitiatingTrigger, PropagatedSymptom, Disconfirmation})
      \<le> card (mrel_kind ` set (mcs_relations p))"
    using ok by (intro card_mono) (simp_all add: synthesis_ok_def)
  ultimately show False using assms(2) by linarith
qed

text \<open>Contradictions break both, on the incident above. When a contradiction cites rows of the only trigger and the only symptom claim, three
  kinds are required but two claims are admitted, and no proposal is accepted. And a row that a
  contradiction cites becomes evidence of its claim for every kind: a row the host knows by position only is
  then accepted as the sole evidence of an initiating trigger.\<close>

theorem contradictions_break_topologies:
  "(\<exists>t. derive_host_causal_topology (causal_input [causal_contradiction ''s1'' [''e1'', ''e2'']]) = Inr t
      \<and> (\<forall>F raw s. validate_causal_synthesis F raw t \<noteq> Inr s))
   \<and> (\<exists>t s. derive_host_causal_topology (causal_input [causal_contradiction ''o1'' [''e3'', ''e4'']]) = Inr t
      \<and> causal_class ''e3'' PrecedingSameSource \<in> set (ti_classifications (causal_input [causal_contradiction ''o1'' [''e3'', ''e4'']]))
      \<and> validate_causal_synthesis (\<lambda>_. Inr (causal_proposal [causal_relation InitiatingTrigger ''k1'' ''c1'' ''e3'',
           causal_relation PropagatedSymptom ''k2'' ''s1'' ''e2'', causal_relation Disconfirmation ''k2'' ''o1'' ''e4''])) [] t = Inr s)"
proof (intro conjI)
  let ?t = "demo_topology [demo_identity ''k1'' ''c1'' ''e1'', demo_identity ''k2'' ''s1'' ''e2'']
    [demo_slot InitiatingTrigger ''k1'' ''c1'', demo_slot PropagatedSymptom ''k2'' ''s1'',
     demo_slot Disconfirmation ''k1'' ''c1'', demo_slot Disconfirmation ''k2'' ''s1'']
    {InitiatingTrigger, PropagatedSymptom, Disconfirmation}"
  have "derive_host_causal_topology (causal_input [causal_contradiction ''s1'' [''e1'', ''e2'']]) = Inr ?t"
    by code_simp
  moreover have "\<not> synthesis_ok ?t p" for p
    by (rule too_many_kinds) (simp_all add: demo_topology_def demo_identity_def identity_pair_host)
  ultimately show "\<exists>t. derive_host_causal_topology (causal_input [causal_contradiction ''s1'' [''e1'', ''e2'']]) = Inr t
      \<and> (\<forall>F raw s. validate_causal_synthesis F raw t \<noteq> Inr s)" by (auto simp: causal_synthesis_iff)
  let ?u = "demo_topology [demo_identity ''k1'' ''c1'' ''e1'', demo_identity ''k2'' ''s1'' ''e2'',
      demo_identity ''k1'' ''c1'' ''e3'', demo_identity ''k2'' ''o1'' ''e4'']
    [demo_slot InitiatingTrigger ''k1'' ''c1'', demo_slot PropagatedSymptom ''k2'' ''s1'',
     demo_slot Disconfirmation ''k1'' ''c1'', demo_slot Disconfirmation ''k2'' ''o1'']
    {InitiatingTrigger, PropagatedSymptom, Disconfirmation}"
  let ?p = "causal_proposal [causal_relation InitiatingTrigger ''k1'' ''c1'' ''e3'',
           causal_relation PropagatedSymptom ''k2'' ''s1'' ''e2'', causal_relation Disconfirmation ''k2'' ''o1'' ''e4'']"
  have "derive_host_causal_topology (causal_input [causal_contradiction ''o1'' [''e3'', ''e4'']]) = Inr ?u"
    by code_simp
  moreover have "is_ok (validate_causal_synthesis (\<lambda>_. Inr ?p) [] ?u)" by code_simp
  moreover have "causal_class ''e3'' PrecedingSameSource \<in> set (ti_classifications (causal_input xs))" for xs
    by (simp add: causal_input_def)
  ultimately show "\<exists>t s. derive_host_causal_topology (causal_input [causal_contradiction ''o1'' [''e3'', ''e4'']]) = Inr t
      \<and> causal_class ''e3'' PrecedingSameSource \<in> set (ti_classifications (causal_input [causal_contradiction ''o1'' [''e3'', ''e4'']]))
      \<and> validate_causal_synthesis (\<lambda>_. Inr ?p) [] t = Inr s"
    by (auto simp: is_ok_iff)
qed

end
