(* ===== verification/Review_Demo.thy ===== *)
theory Review_Demo
  imports Review_Budget Causal_Properties
begin

text \<open>
  A complete run of the reviewed pipeline that establishes a root cause: two candidates, five provider calls,
  none of them corrected. It shows that the hypotheses of the properties of completed runs can hold.
\<close>

section \<open>Data\<close>

text \<open>Two candidates with one event each, the packet the host builds from their ledger, and models that call one event
  the cause of the other.\<close>

definition run_binding :: AnswerBindingV1 where
  "run_binding = \<lparr>bind_session_id = ''s'', bind_turn_id = ''t'', bind_corpus_id = ''c'', bind_revision = causal_revision,
     bind_ledger_digest = ''d''\<rparr>"

definition run_candidate :: "string \<Rightarrow> u64 \<Rightarrow> BroadLogTriageCandidate" where
  "run_candidate gid n = \<lparr>bc_group_id = gid, bc_structural_kind = ''trace'', bc_model_text = ''brief'',
     bc_evidence = [\<lparr>si_seq = n, si_source = ''app.log'', si_citation_source = None, si_template_id = 1\<rparr>],
     bc_evidence_excerpts = (\<lambda>_. None)\<rparr>"

definition run_ledger :: "(string \<times> u64 \<times> EvidenceRole) list \<Rightarrow> HostEvidenceLedger" where
  "run_ledger rows = \<lparr>led_binding = run_binding, led_entries = map (\<lambda>(gid, n, role).
     (''e:'' @ gid @ '':'' @ show_nat (unat n), (scope_entry run_binding gid (hd (bc_evidence (run_candidate gid n))) [])\<lparr>he_role := role\<rparr>)) rows\<rparr>"

definition run_union :: HostEvidenceLedger where
  "run_union = run_ledger [(''a'', 1, RoleNeutral), (''b'', 2, RoleNeutral)]"

definition run_final :: HostEvidenceLedger where
  "run_final = run_ledger [(''a'', 1, RoleCause), (''b'', 2, RoleSymptom)]"

definition run_row :: "string \<Rightarrow> string \<Rightarrow> FastTriagePacketRow" where
  "run_row cand i = \<lparr>pr_evidence_id = i, pr_candidate_id = cand, pr_role = RoleNeutral, pr_scope = ScopeCandidate,
     pr_ordinal = None, pr_category = Focus\<rparr>"

definition run_packet :: FastTriagePacketV1 where
  "run_packet = \<lparr>pk_ledger = run_union, pk_rows = [run_row ''a'' ''e:a:1'', run_row ''b'' ''e:b:2''],
     pk_independent_candidate_id = None, pk_timeline_complete = True, pk_clock = OrderOnly, pk_neighborhood = nb_default,
     pk_packet_id = ''p''\<rparr>"

definition run_ids :: MultiModelRoleIds where
  "run_ids = \<lparr>investigator_profile = ''p'', investigator_model = ''m'', reviewer_profile = ''p'',
     reviewer_model = ''m'', synthesizer_profile = ''p'', synthesizer_model = ''m''\<rparr>"

definition run_inputs :: ReviewPipelineInputs where
  "run_inputs = \<lparr>rp_user_text = ''why?'', rp_candidates = [run_candidate ''a'' 1, run_candidate ''b'' 2],
     rp_comparison_context = None, rp_causal_packet = Some run_packet, rp_binding = run_binding,
     rp_budget = budget_default, rp_role_ids = run_ids, rp_deadline_ms = 0\<rparr>"

definition run_claim :: "string \<Rightarrow> string \<Rightarrow> ModelClaimV1" where
  "run_claim i e = \<lparr>mc_claim_id = i, mc_text = ''t'', mc_evidence_ids = [e]\<rparr>"

definition run_finding :: "string \<Rightarrow> ModelClaimV1 list \<Rightarrow> ModelClaimV1 list \<Rightarrow> ModelCandidateFindingV1" where
  "run_finding cand sy causes = \<lparr>mf_schema = CANDIDATE_FINDING_SCHEMA_V1, mf_candidate_id = cand, mf_observations = [],
     mf_symptoms = sy, mf_causal_candidates = causes, mf_missing_evidence = []\<rparr>"

definition run_answer :: "string \<Rightarrow> ModelClaimV1 list \<Rightarrow> ModelClaimV1 list \<Rightarrow> ModelCandidateV1" where
  "run_answer cand sy causes = \<lparr>md_candidate_id = cand, observations = [], symptoms = sy, causal_candidates = [],
     initiating_causes = causes, competing_explanations = [], missing_evidence = []\<rparr>"

definition run_codecs :: review_codecs where
  "run_codecs = \<lparr>co_digest = (\<lambda>_. ''d''), co_print = (\<lambda>_. []), co_alphanumeric = (\<lambda>_. True),
     co_finding = (\<lambda>raw. Some (if raw = ''a'' then run_finding ''a'' [] [run_claim ''c1'' ''e:a:1'']
                               else run_finding ''b'' [run_claim ''s1'' ''e:b:2''] [])),
     co_review = (\<lambda>_. Some \<lparr>mr_schema = REVIEW_SCHEMA_V1, mr_evidence_gaps = [], mr_contradictions = []\<rparr>),
     co_causal = (\<lambda>_. Inr (causal_proposal [causal_relation InitiatingTrigger ''a'' ''c1'' ''e:a:1'',
                             causal_relation PropagatedSymptom ''b'' ''s1'' ''e:b:2''])),
     co_answer = (\<lambda>_. Some \<lparr>mia_schema = SCHEMA_V1, mia_candidates =
       [run_answer ''a'' [] [run_claim ''c1'' ''e:a:1''], run_answer ''b'' [run_claim ''s1'' ''e:b:2''] []]\<rparr>),
     co_nonce = (\<lambda>_ _. [])\<rparr>"

definition run_backend :: "(nat, unit) backend" where
  "run_backend w msgs = (([], Completed (Inr \<lparr>cc_content = (if w = 0 then ''a'' else ''b''), cc_tool_calls = [],
     cc_finish_reason = ''stop''\<rparr>)), Suc w)"

definition run_host :: "'w host" where
  "run_host = \<lparr>cancel_flag = (\<lambda>_. False), elapsed_ns = (\<lambda>_. 0)\<rparr>"

definition run_backends :: "(nat, unit) MultiModelBackends" where
  "run_backends = \<lparr>bk_investigator = run_backend, bk_reviewer = run_backend, bk_synthesizer = run_backend\<rparr>"

definition run_found :: "string \<Rightarrow> u64 \<Rightarrow> CandidateFindingV1" where
  "run_found gid n = reference_finding (run_ledger [(gid, n, RoleNeutral)]) gid (role_binding Investigator ''p'' ''m'' 0) (the (co_finding run_codecs gid))"

definition run_review :: ReviewReportV1 where
  "run_review = \<lparr>rv_gaps = [], rv_contradictions = [], rv_role_binding = role_binding Reviewer ''p'' ''m'' 0\<rparr>"

definition run_topology :: HostCausalTopologyV1 where
  "run_topology = (demo_topology [demo_identity ''a'' ''c1'' ''e:a:1'', demo_identity ''b'' ''s1'' ''e:b:2'']
     [demo_slot InitiatingTrigger ''a'' ''c1'', demo_slot PropagatedSymptom ''b'' ''s1''] {InitiatingTrigger, PropagatedSymptom})
     \<lparr>tp_admitted_candidates := {''a'', ''b''}\<rparr>"

definition run_synthesis :: CausalSynthesisV1 where
  "run_synthesis = reference_synthesis run_topology (causal_proposal [causal_relation InitiatingTrigger ''a'' ''c1'' ''e:a:1'',
     causal_relation PropagatedSymptom ''b'' ''s1'' ''e:b:2''])"

definition run_envelope :: AnswerEnvelopeV1 where
  "run_envelope = reference_envelope run_final (the (co_answer run_codecs ''b''))"

section \<open>What the stages compute\<close>

lemma run_ledgers:
  "candidate_ledger (co_digest run_codecs) (run_candidate ''a'' 1) run_binding = Some (run_ledger [(''a'', 1, RoleNeutral)])"
  "candidate_ledger (co_digest run_codecs) (run_candidate ''b'' 2) run_binding = Some (run_ledger [(''b'', 2, RoleNeutral)])"
  "union_ledger (co_digest run_codecs) [run_candidate ''a'' 1, run_candidate ''b'' 2] None run_binding = Some run_union"
  "final_causal_ledger (co_digest run_codecs) run_union (Some run_synthesis) = Some run_final"
  by code_simp+

lemma run_accepts:
  "accept_finding run_codecs run_ids (run_ledger [(''a'', 1, RoleNeutral)]) ''a'' ''a'' = Some (run_found ''a'' 1)"
  "accept_finding run_codecs run_ids (run_ledger [(''b'', 2, RoleNeutral)]) ''b'' ''b'' = Some (run_found ''b'' 2)"
  "accept_review run_codecs run_ids run_union (known_claims [run_found ''a'' 1, run_found ''b'' 2]) ''b'' = Some run_review"
  "accept_causal run_codecs run_topology ''b'' = Some run_synthesis"
  "accept_answer run_codecs run_final (Some run_synthesis) ''b'' = Some run_envelope"
  "ans_root_cause_established (env_answer run_envelope)"
  by code_simp+

lemma run_topology_derived:
  "causal_topology run_packet run_union [run_found ''a'' 1, run_found ''b'' 2] (Some run_review) = Inr run_topology"
  by code_simp

fun len_int :: "'a list \<Rightarrow> int" where
  "len_int [] = 0"
| "len_int (x # xs) = len_int xs + 1"

lemma len_int_length: "len_int xs = int (length xs)"
  by (induction xs) simp_all

lemma run_packing: "packing run_inputs = 108000"
  by (simp add: packing_def run_inputs_def budget_default_def DEFAULT_CONTEXT_CHAR_BUDGET_def synthesis_packing_budget_def
      SYNTHESIS_CONTEXT_HEADROOM_CHARS_def)

lemma fits_packing: "len_int (concat (map cm_content m)) \<le> 108000 \<Longrightarrow> unat (message_chars m) \<le> packing run_inputs"
proof -
  assume "len_int (concat (map cm_content m)) \<le> 108000"
  then have "estimate_context_chars m \<le> 108000"
    by (simp add: len_int_length length_concat estimate_context_chars_def comp_def)
  moreover have "unat (message_chars m) \<le> estimate_context_chars m"
    by (simp add: message_chars_def unsigned_of_nat take_bit_nat_less_eq_self)
  ultimately show ?thesis by (simp add: run_packing)
qed

lemma run_prompts_fit:
  "len_int (concat (map cm_content (investigator_messages (\<lambda>_. []) ''why?'' (run_candidate ''a'' 1) (run_ledger [(''a'', 1, RoleNeutral)]) False))) \<le> 108000"
  "len_int (concat (map cm_content (investigator_messages (\<lambda>_. []) ''why?'' (run_candidate ''b'' 2) (run_ledger [(''b'', 2, RoleNeutral)]) False))) \<le> 108000"
  "len_int (concat (map cm_content (reviewer_messages (\<lambda>_. []) (\<lambda>_. []) ''why?'' [run_found ''a'' 1, run_found ''b'' 2] run_union False))) \<le> 108000"
  "len_int (concat (map cm_content (causal_synthesis_messages (\<lambda>_. []) (\<lambda>_. []) ''why?'' [run_found ''a'' 1, run_found ''b'' 2] (Some run_review) run_topology False))) \<le> 108000"
  "len_int (concat (map cm_content (synthesizer_messages (\<lambda>_. []) (\<lambda>_. []) ''why?'' [run_found ''a'' 1, run_found ''b'' 2] (Some run_review) run_final (sorted_list_of_set (ledger_candidate_ids run_union)) False))) \<le> 108000"
  by code_simp+

section \<open>The run\<close>

lemma run_inputs_simps [simp]:
  "rp_user_text run_inputs = ''why?''" "rp_binding run_inputs = run_binding" "rp_role_ids run_inputs = run_ids"
  "rp_comparison_context run_inputs = None" "rp_causal_packet run_inputs = Some run_packet" "rp_deadline_ms run_inputs = 0"
  "max_context_chars_total (rp_budget run_inputs) = None" "max_total_provider_rounds (rp_budget run_inputs) = 12"
  "bk_investigator run_backends = run_backend" "bk_reviewer run_backends = run_backend" "bk_synthesizer run_backends = run_backend"
  "co_nonce run_codecs n = (\<lambda>_. [])" "co_print run_codecs = (\<lambda>_. [])"
  by (simp_all add: run_inputs_def budget_default_def run_backends_def run_codecs_def)

lemma run_rounds [simp]: "unat used + unat reserve < 12 \<Longrightarrow> stage_budget (rp_budget run_inputs) used reserve \<noteq> 0"
  by (rule stage_budget_pos) simp

text \<open>A stage whose first prompt fits and whose first answer is accepted.\<close>

lemma run_stage_accepts:
  assumes "len_int (concat (map cm_content (build (vs_builds st) False))) \<le> 108000" and "rounds \<noteq> 0"
    and "validate (if vs_world st = 0 then ''a'' else ''b'') = Some v"
  shows "\<exists>u st'. run_stage run_host run_inputs run_backend build validate rounds None st = (CrOk v u, st')
    \<and> us_rounds u = 1 \<and> us_corrections u = 0 \<and> vs_world st' = Suc (vs_world st) \<and> vs_used_rounds st' = vs_used_rounds st"
proof -
  have "trim ''a'' \<noteq> []" "trim ''b'' \<noteq> []" by code_simp+
  then have "trim (if vs_world st = 0 then ''a'' else ''b'') \<noteq> []" by simp
  moreover have "\<not> rounds \<le> 0" using assms(2) by (simp add: word_le_nat_alt unat_eq_0)
  ultimately show ?thesis
    using assms(3) fits_packing [OF assms(1)]
    by (simp add: run_stage_def drive_stage_def drive_loop.simps [of _ _ _ "\<lparr>us_rounds = 0, us_corrections = 0, us_chars = 0\<rparr>"]
        drive_step_def Let_def within_turn_deadline_def run_host_def run_backend_def deadline_reached_def remaining_for_operation_def
        flat_plan_def saturating_add_def split del: if_split)
qed

lemma close_stage_simps [simp]:
  "vs_world (close_stage ids role cand u outcome detail st) = vs_world st"
  "vs_used_rounds (close_stage ids role cand u outcome detail st) = saturating_add (vs_used_rounds st) (us_rounds u)"
  by (simp_all add: close_stage_def emit_event_def push_stage_def charge_def)

lemma emit_event_simps [simp]:
  "vs_world (emit_event role started outcome cand detail st) = vs_world st"
  "vs_used_rounds (emit_event role started outcome cand detail st) = vs_used_rounds st"
  "vs_builds (emit_event role started outcome cand detail st) = vs_builds st"
  by (simp_all add: emit_event_def)

lemma run_investigates:
  assumes "candidate_ledger (co_digest run_codecs) c run_binding = Some l" and "unat (vs_used_rounds st) < 5"
    and "len_int (concat (map cm_content (investigator_messages (\<lambda>_. []) ''why?'' c l False))) \<le> 108000"
    and "accept_finding run_codecs run_ids l (bc_group_id c) (if vs_world st = 0 then ''a'' else ''b'') = Some f" "fi_claims f \<noteq> []"
    and "f\<lparr>fi_role_binding := (fi_role_binding f)\<lparr>rb_semantic_attempts := 0\<rparr>\<rparr> = f"
  shows "\<exists>st'. investigate_candidate run_codecs run_host run_backends run_inputs c st = (InvAccepted f, st')
    \<and> vs_world st' = Suc (vs_world st) \<and> unat (vs_used_rounds st') = Suc (unat (vs_used_rounds st))"
proof -
  let ?st = "emit_event Investigator True None (Some (bc_group_id c)) ''investigating candidate'' (st\<lparr>vs_builds := Suc (vs_builds st)\<rparr>)"
  let ?rounds = "stage_budget (rp_budget run_inputs) (vs_used_rounds st) 1"
  have rounds: "?rounds \<noteq> 0" using assms(2) by simp
  obtain u st' where run: "run_stage run_host run_inputs run_backend (\<lambda>n. investigator_messages (\<lambda>_. []) ''why?'' c l)
      (accept_finding run_codecs run_ids l (bc_group_id c)) ?rounds None ?st = (CrOk f u, st')"
    and u: "us_rounds u = 1" "us_corrections u = 0" "vs_world st' = Suc (vs_world st)" "vs_used_rounds st' = vs_used_rounds st"
    using run_stage_accepts [OF _ rounds, of "\<lambda>n. investigator_messages (\<lambda>_. []) ''why?'' c l" ?st
      "accept_finding run_codecs run_ids l (bc_group_id c)" f] assms(3,4) by auto
  have "unat (saturating_add (vs_used_rounds st) 1) = Suc (unat (vs_used_rounds st))"
    by (rule saturating_Suc [of _ 5]) (use assms(2) in \<open>simp add: word_less_nat_alt\<close>)
  with run u rounds fits_packing [OF assms(3)] assms show ?thesis
    by (simp add: investigate_candidate_def Let_def remaining_turn_chars_def)
qed

lemma run_reviews:
  assumes "vs_world st = 2" "unat (vs_used_rounds st) = 2"
  shows "\<exists>ch st'. review_stage run_codecs run_host run_backends run_inputs [run_found ''a'' 1, run_found ''b'' 2] run_union st = Inr (ch, st')
    \<and> ch_review ch = Some run_review \<and> vs_world st' = 3 \<and> unat (vs_used_rounds st') = 3"
proof -
  let ?fs = "[run_found ''a'' 1, run_found ''b'' 2]" and ?rounds = "stage_budget (rp_budget run_inputs) (vs_used_rounds st) 2"
  let ?st = "emit_event Reviewer True None None ''reviewing candidate findings'' st"
  have rounds: "?rounds \<noteq> 0" using assms(2) by simp
  obtain u st' where "run_stage run_host run_inputs run_backend (\<lambda>n. reviewer_messages (\<lambda>_. []) (\<lambda>_. []) ''why?'' ?fs run_union)
      (accept_review run_codecs run_ids run_union (known_claims ?fs)) ?rounds None ?st = (CrOk run_review u, st')"
    "us_rounds u = 1" "us_corrections u = 0" "vs_world st' = 3" "vs_used_rounds st' = vs_used_rounds st"
    using run_stage_accepts [OF _ rounds, of "\<lambda>n. reviewer_messages (\<lambda>_. []) (\<lambda>_. []) ''why?'' ?fs run_union" ?st
      "accept_review run_codecs run_ids run_union (known_claims ?fs)" run_review] run_prompts_fit(3) run_accepts(3) assms(1) by auto
  moreover have "unat (saturating_add (vs_used_rounds st) 1) = 3"
    using saturating_Suc [of "vs_used_rounds st" 5] assms(2) by (simp add: word_less_nat_alt)
  moreover have "?rounds > 0" using rounds by (simp add: word_neq_0_conv)
  ultimately show ?thesis
    by (simp add: review_stage_def Let_def remaining_turn_chars_def) (simp add: run_review_def role_binding_def)
qed

lemma run_synthesizes:
  assumes "vs_world st = 3" "unat (vs_used_rounds st) = 3"
  shows "\<exists>st'. causal_phase run_codecs run_host run_backends run_inputs [run_found ''a'' 1, run_found ''b'' 2] (Some run_review) run_union ids st
      = Inr (Some run_synthesis, st') \<and> vs_world st' = 4 \<and> unat (vs_used_rounds st') = 4"
proof -
  let ?fs = "[run_found ''a'' 1, run_found ''b'' 2]" and ?rounds = "stage_budget (rp_budget run_inputs) (vs_used_rounds st) 1"
  let ?st = "emit_event CausalSynthesizer True None None ''validating host-bounded causal relationships'' (st\<lparr>vs_builds := Suc (Suc (vs_builds st))\<rparr>)"
  have rounds: "?rounds \<noteq> 0" using assms(2) by simp
  obtain u st' where "run_stage run_host run_inputs run_backend (\<lambda>n. causal_synthesis_messages (\<lambda>_. []) (\<lambda>_. []) ''why?'' ?fs (Some run_review) run_topology)
      (accept_causal run_codecs run_topology) ?rounds None ?st = (CrOk run_synthesis u, st')"
    "us_rounds u = 1" "us_corrections u = 0" "vs_world st' = 4" "vs_used_rounds st' = vs_used_rounds st"
    using run_stage_accepts [OF _ rounds, of "\<lambda>n. causal_synthesis_messages (\<lambda>_. []) (\<lambda>_. []) ''why?'' ?fs (Some run_review) run_topology" ?st
      "accept_causal run_codecs run_topology" run_synthesis] run_prompts_fit(4) run_accepts(4) assms(1) by auto
  moreover have "unat (saturating_add (vs_used_rounds st) 1) = 4"
    using saturating_Suc [of "vs_used_rounds st" 5] assms(2) by (simp add: word_less_nat_alt)
  ultimately show ?thesis
    using rounds by (simp add: causal_phase_def choose_topology_def run_topology_derived causal_stage_def Let_def remaining_turn_chars_def)
qed

lemma run_answers:
  assumes "ch_review ch = Some run_review" "vs_world st = 4" "unat (vs_used_rounds st) = 4"
  shows "\<exists>env content r tele st'. synthesis_phase run_codecs run_host run_backends run_inputs [run_found ''a'' 1, run_found ''b'' 2] ch run_union
      (sorted_list_of_set (ledger_candidate_ids run_union)) (Some run_synthesis) st = (MmCompleted env content r tele, st')
      \<and> ans_root_cause_established (env_answer env)"
proof -
  let ?fs = "[run_found ''a'' 1, run_found ''b'' 2]" and ?rounds = "stage_budget (rp_budget run_inputs) (vs_used_rounds st) 0"
  let ?build = "\<lambda>n. synthesizer_messages (\<lambda>_. []) (\<lambda>_. []) ''why?'' ?fs (Some run_review) run_final (sorted_list_of_set (ledger_candidate_ids run_union))"
  let ?st = "emit_event Synthesizer True None None ''synthesizing final answer'' st"
  have rounds: "?rounds \<noteq> 0" using assms(3) by simp
  obtain u st' where "run_stage run_host run_inputs run_backend ?build (accept_answer run_codecs run_final (Some run_synthesis)) ?rounds None ?st
      = (CrOk run_envelope u, st')"
    using run_stage_accepts [OF _ rounds, of ?build ?st "accept_answer run_codecs run_final (Some run_synthesis)" run_envelope]
      run_prompts_fit(5) run_accepts(5) assms(2) by auto
  then show ?thesis
    using rounds run_accepts(6) assms(1)
    by (simp add: synthesis_phase_def run_ledgers Let_def remaining_turn_chars_def)
qed

lemma run_found_kept:
  "fi_claims (run_found ''a'' 1) \<noteq> []" "fi_claims (run_found ''b'' 2) \<noteq> []"
  "(run_found gid n)\<lparr>fi_role_binding := (fi_role_binding (run_found gid n))\<lparr>rb_semantic_attempts := 0\<rparr>\<rparr> = run_found gid n"
  by (simp_all add: run_found_def reference_finding_def role_binding_def run_codecs_def run_finding_def finding_claims_def
      finding_sections_def)

lemma run_completes:
  "\<exists>env content review tele st. run_review_pipeline run_codecs run_host run_backends run_inputs 0
     = (MmCompleted env content review tele, st) \<and> ans_root_cause_established (env_answer env)"
proof -
  let ?a = "run_candidate ''a'' 1" and ?b = "run_candidate ''b'' 2"
  let ?fs = "[run_found ''a'' 1, run_found ''b'' 2]" and ?ids = "sorted_list_of_set (ledger_candidate_ids run_union)"
  have gid: "bc_group_id ?a = ''a''" "bc_group_id ?b = ''b''" by (simp_all add: run_candidate_def)
  obtain st1 where st1: "investigate_candidate run_codecs run_host run_backends run_inputs ?a (fresh_state 0) = (InvAccepted (run_found ''a'' 1), st1)"
    "vs_world st1 = 1" "unat (vs_used_rounds st1) = 1"
    using run_investigates [OF run_ledgers(1) _ run_prompts_fit(1) _ run_found_kept(1,3), of "fresh_state 0"] run_accepts(1)
    by (auto simp: gid fresh_state_def)
  obtain st2 where st2: "investigate_candidate run_codecs run_host run_backends run_inputs ?b st1 = (InvAccepted (run_found ''b'' 2), st2)"
    "vs_world st2 = 2" "unat (vs_used_rounds st2) = 2"
    using run_investigates [OF run_ledgers(2) _ run_prompts_fit(2) _ run_found_kept(2,3), of st1] run_accepts(2) st1(2,3)
    by (auto simp: gid)
  have cands: "eligible_candidates run_inputs = [?a, ?b]" by (simp add: eligible_candidates_def run_inputs_def run_candidate_def)
  then have inv: "investigate run_codecs run_host run_backends run_inputs (eligible_candidates run_inputs) [] [] (fresh_state 0) = Inr (?fs, [?a, ?b], st2)"
    using st1 st2 by simp
  obtain ch st3 where review: "review_stage run_codecs run_host run_backends run_inputs ?fs run_union st2 = Inr (ch, st3)"
    "ch_review ch = Some run_review" "vs_world st3 = 3" "unat (vs_used_rounds st3) = 3"
    using run_reviews [OF st2(2,3)] by blast
  obtain st4 where causal: "causal_phase run_codecs run_host run_backends run_inputs ?fs (Some run_review) run_union ?ids st3 = Inr (Some run_synthesis, st4)"
    "vs_world st4 = 4" "unat (vs_used_rounds st4) = 4"
    using run_synthesizes [OF review(3,4)] by blast
  obtain env content r tele st5 where answer: "synthesis_phase run_codecs run_host run_backends run_inputs ?fs ch run_union ?ids (Some run_synthesis) st4
      = (MmCompleted env content r tele, st5)" "ans_root_cause_established (env_answer env)"
    using run_answers [OF review(2) causal(2,3)] by blast
  have "compare_findings run_codecs run_host run_backends run_inputs ?fs [?a, ?b] st2 = (MmCompleted env content r tele, st5)"
    using review causal answer by (simp add: compare_findings_def run_ledgers Let_def)
  then have "run_review_pipeline run_codecs run_host run_backends run_inputs 0 = (MmCompleted env content r tele, st5)"
    using inv by (simp add: run_review_pipeline_def Let_def cands)
  with answer(2) show ?thesis by blast
qed

end
