(* ===== verification/Review_Trace.thy ===== *)
theory Review_Trace
  imports Review_Budget
begin

text \<open>
  What the progress events of a reviewed run say about the investigators. The events are what the user
  sees: each investigation is closed by an event with its outcome. Shown here: the findings that go on to the
  review are exactly those of the investigations that were closed as completed, no later stage touches these
  records, and a candidate is passed over only without a usable prompt or when the rounds are used up.
\<close>

section \<open>Records of the investigators\<close>

definition closings :: "StageProgressEvent list \<Rightarrow> (string \<times> StageOutcomeKind) list" where
  "closings evs = concat (map (\<lambda>e.
     case (pe_candidate_id e, pe_outcome e) of
       (Some gid, Some oc) \<Rightarrow> if pe_role e = Investigator \<and> \<not> pe_started e then [(gid, oc)] else []
     | _ \<Rightarrow> []) evs)"

definition completed_ids :: "StageProgressEvent list \<Rightarrow> string list" where
  "completed_ids evs = map fst (filter (\<lambda>c. snd c = SoCompleted) (closings evs))"

definition investigator_rounds :: "StageTelemetry list \<Rightarrow> nat" where
  "investigator_rounds rows =
     sum_list (map (\<lambda>row. unat (sg_provider_rounds row)) (filter (\<lambda>row. sg_role row = Investigator) rows))"

text \<open>A candidate can be investigated when its rows form a ledger and its first prompt fits.\<close>

definition investigable :: "review_codecs \<Rightarrow> ReviewPipelineInputs \<Rightarrow> BroadLogTriageCandidate \<Rightarrow> bool" where
  "investigable co inputs c \<longleftrightarrow> (\<exists>l. candidate_ledger (co_digest co) c (rp_binding inputs) = Some l
     \<and> (\<forall>n. unat (message_chars (investigator_messages (co_nonce co n) (rp_user_text inputs) c l False)) \<le> packing inputs))"

lemma closings_simps [simp]:
  "closings [] = []" "closings (a @ b) = closings a @ closings b"
  "closings [\<lparr>pe_role = role, pe_started = started, pe_outcome = Some oc, pe_candidate_id = Some gid, pe_detail = d\<rparr>]
     = (if role = Investigator \<and> \<not> started then [(gid, oc)] else [])"
  "closings [\<lparr>pe_role = role, pe_started = started, pe_outcome = None, pe_candidate_id = cand, pe_detail = d\<rparr>] = []"
  "closings [\<lparr>pe_role = role, pe_started = started, pe_outcome = outcome, pe_candidate_id = None, pe_detail = d\<rparr>] = []"
  by (simp_all add: closings_def split: option.splits)

lemma closings_other [simp]:
  "role \<noteq> Investigator \<Longrightarrow>
     closings [\<lparr>pe_role = role, pe_started = started, pe_outcome = outcome, pe_candidate_id = cand, pe_detail = d\<rparr>] = []"
  by (simp add: closings_def split: option.splits)

lemma completed_ids_append [simp]: "completed_ids (a @ b) = completed_ids a @ completed_ids b"
  by (simp add: completed_ids_def)

lemma investigator_rounds_append [simp]: "investigator_rounds (a @ b) = investigator_rounds a + investigator_rounds b"
  by (simp add: investigator_rounds_def)

lemma run_stage_frame:
  assumes "run_stage host inputs backend build validate rounds remaining st = (r, st')"
  shows "vs_events st' = vs_events st" "vs_stages st' = vs_stages st" "vs_used_rounds st' = vs_used_rounds st"
  using assms by (auto simp: run_stage_def split: prod.splits)

section \<open>One candidate\<close>

text \<open>Rounds that were charged are in the stage rows.\<close>

definition rounds_recorded :: "'w review_state \<Rightarrow> bool" where
  "rounds_recorded st \<longleftrightarrow> unat (vs_used_rounds st) \<le> investigator_rounds (vs_stages st)"

lemma close_investigator:
  assumes "rounds_recorded st"
  shows "rounds_recorded (close_stage ids Investigator (Some gid) u oc detail st)"
    and "closings (vs_events (close_stage ids Investigator (Some gid) u oc detail st)) = closings (vs_events st) @ [(gid, oc)]"
  using assms
  by (simp_all add: rounds_recorded_def close_stage_def emit_event_def push_stage_def charge_def unat_saturating_add
      investigator_rounds_def min_def)

lemma investigate_candidate_records:
  assumes "investigate_candidate co host backends inputs c st = (x, st')" and rec: "rounds_recorded st"
  shows "case x of
      InvAccepted f \<Rightarrow> rounds_recorded st' \<and> closings (vs_events st') = closings (vs_events st) @ [(bc_group_id c, SoCompleted)]
    | InvContinue \<Rightarrow> rounds_recorded st' \<and>
        (closings (vs_events st') = closings (vs_events st) \<and> \<not> investigable co inputs c
         \<or> (\<exists>oc. oc \<noteq> SoCompleted \<and> closings (vs_events st') = closings (vs_events st) @ [(bc_group_id c, oc)]))
    | InvBreak \<Rightarrow> rounds_recorded st' \<and> closings (vs_events st') = closings (vs_events st)
        \<and> unat (max_total_provider_rounds (rp_budget inputs)) \<le> investigator_rounds (vs_stages st') + 1
    | InvReturn out \<Rightarrow> True"
proof (cases "candidate_ledger (co_digest co) c (rp_binding inputs)")
  case None
  then show ?thesis using assms by (auto simp: investigate_candidate_def investigable_def)
next
  case (Some l)
  let ?first = "message_chars (investigator_messages (co_nonce co (vs_builds st)) (rp_user_text inputs) c l False)"
  let ?st = "st\<lparr>vs_builds := Suc (vs_builds st)\<rparr>"
  have frame: "rounds_recorded ?st" "closings (vs_events ?st) = closings (vs_events st)"
    using rec by (simp_all add: rounds_recorded_def)
  consider (long) "unat ?first > packing inputs" "x = InvContinue" "st' = ?st"
    | (spent) "stage_budget (rp_budget inputs) (vs_used_rounds st) 1 = 0" "x = InvBreak" "st' = ?st"
    | (ran) r st2 where "run_stage host inputs (bk_investigator backends)
          (\<lambda>n. investigator_messages (co_nonce co n) (rp_user_text inputs) c l)
          (accept_finding co (rp_role_ids inputs) l (bc_group_id c))
          (stage_budget (rp_budget inputs) (vs_used_rounds st) 1)
          (remaining_turn_chars (max_context_chars_total (rp_budget inputs)) (vs_used_chars st))
          (emit_event Investigator True None (Some (bc_group_id c)) ''investigating candidate'' ?st) = (r, st2)"
        "after_investigator (rp_role_ids inputs) (bc_group_id c) (r, st2) = (x, st')"
    using assms(1) by (auto simp: investigate_candidate_def Some Let_def split: if_splits) (metis surj_pair)
  then show ?thesis
  proof cases
    case long
    then have "\<not> investigable co inputs c" by (auto simp: investigable_def Some not_le)
    with long frame show ?thesis by simp
  next
    case spent
    have "\<not> unat (vs_used_rounds st) + unat (1 :: u32) < unat (max_total_provider_rounds (rp_budget inputs))"
      using stage_budget_pos spent(1) by blast
    with spent rec frame show ?thesis by (simp add: rounds_recorded_def)
  next
    case ran
    have st2: "rounds_recorded st2" "closings (vs_events st2) = closings (vs_events st)"
      using run_stage_frame [OF ran(1)] rec by (simp_all add: rounds_recorded_def emit_event_def)
    note close = close_investigator [OF st2(1), unfolded st2(2)]
    show ?thesis
    proof (cases r)
      case (CrOk v u)
      then show ?thesis using ran(2) close by (auto simp: Let_def split: if_splits)
    next
      case (CrSemanticInvalid u)
      then show ?thesis using ran(2) close by auto
    next
      case (CrBudgetExhausted u)
      then show ?thesis using ran(2) close by auto
    qed (use ran(2) in \<open>auto split: prod.splits\<close>)
  qed
qed

section \<open>All candidates\<close>

lemma investigate_records:
  assumes "investigate co host backends inputs cs findings accepted st = Inr (findings', accepted', st')"
    and "rounds_recorded st" and "completed_ids (vs_events st) = map bc_group_id accepted"
  shows "completed_ids (vs_events st') = map bc_group_id accepted'"
    and "set (closings (vs_events st)) \<subseteq> set (closings (vs_events st'))"
    and "\<forall>c \<in> set cs. investigable co inputs c \<longrightarrow> bc_group_id c \<in> fst ` set (closings (vs_events st'))
      \<or> unat (max_total_provider_rounds (rp_budget inputs)) \<le> investigator_rounds (vs_stages st') + 1"
proof -
  let ?covered = "\<lambda>st' c. investigable co inputs c \<longrightarrow> bc_group_id c \<in> fst ` set (closings (vs_events st'))
      \<or> unat (max_total_provider_rounds (rp_budget inputs)) \<le> investigator_rounds (vs_stages st') + 1"
  have "completed_ids (vs_events st') = map bc_group_id accepted' \<and> set (closings (vs_events st)) \<subseteq> set (closings (vs_events st'))
      \<and> (\<forall>c \<in> set cs. ?covered st' c)"
    using assms
  proof (induction cs arbitrary: findings accepted st)
    case Nil
    then show ?case by simp
  next
    case (Cons c cs)
    obtain x st1 where x: "investigate_candidate co host backends inputs c st = (x, st1)" by (metis surj_pair)
    note step = investigate_candidate_records [OF x Cons.prems(2)]
    show ?case
    proof (cases x)
      case (InvAccepted f)
      with step have s: "rounds_recorded st1" "closings (vs_events st1) = closings (vs_events st) @ [(bc_group_id c, SoCompleted)]" by simp_all
      have "completed_ids (vs_events st1) = map bc_group_id (accepted @ [c])"
        using Cons.prems(3) s(2) by (simp add: completed_ids_def)
      from Cons.IH [OF _ s(1) this, of "findings @ [f]"] Cons.prems(1) x InvAccepted s(2) show ?thesis by force
    next
      case InvContinue
      with step have s: "rounds_recorded st1" "completed_ids (vs_events st1) = map bc_group_id accepted"
        "set (closings (vs_events st)) \<subseteq> set (closings (vs_events st1))"
        "investigable co inputs c \<longrightarrow> bc_group_id c \<in> fst ` set (closings (vs_events st1))"
        using Cons.prems(3) by (auto simp: completed_ids_def)
      from Cons.IH [OF _ s(1,2), of findings] Cons.prems(1) x InvContinue s(3,4) show ?thesis by force
    qed (use Cons.prems x step in \<open>auto simp: completed_ids_def\<close>)
  qed
  then show "completed_ids (vs_events st') = map bc_group_id accepted'"
    "set (closings (vs_events st)) \<subseteq> set (closings (vs_events st'))" "\<forall>c \<in> set cs. ?covered st' c" by blast+
qed

section \<open>Later stages\<close>

text \<open>What the later stages leave alone.\<close>

definition inv_records :: "'w review_state \<Rightarrow> (string \<times> StageOutcomeKind) list \<times> nat" where
  "inv_records st = (closings (vs_events st), investigator_rounds (vs_stages st))"

lemma inv_records_later [simp]:
  "role \<noteq> Investigator \<Longrightarrow> inv_records (close_stage ids role cand u oc detail st) = inv_records st"
  "role \<noteq> Investigator \<Longrightarrow> inv_records (emit_event role started outcome cand detail st) = inv_records st"
  "inv_records (st\<lparr>vs_builds := n\<rparr>) = inv_records st"
  "inv_records (emit_skip ids reason st) = inv_records st"
  "inv_records (record_causal_stage_without_call ids oc detail st) = inv_records st"
  by (simp_all add: inv_records_def close_stage_def emit_event_def push_stage_def charge_def emit_skip_def
      record_causal_stage_without_call_def investigator_rounds_def)

lemma run_stage_records:
  "inv_records (snd (run_stage host inputs backend build validate rounds remaining st)) = inv_records st"
  by (simp add: inv_records_def run_stage_def split: prod.splits)

lemma after_reviewer_records: "after_reviewer ids rs = Inr (ch, st') \<Longrightarrow> inv_records st' = inv_records (snd rs)"
  by (cases "(ids, rs)" rule: after_reviewer.cases) (auto simp: Let_def degrade_review_def)

lemma after_causal_records: "after_causal ids rs = Inr (causal, st') \<Longrightarrow> inv_records st' = inv_records (snd rs)"
  by (cases "(ids, rs)" rule: after_causal.cases) auto

lemma after_synthesis_records:
  "after_synthesis co ids ch rs = (MmCompleted env content review tele, st')
     \<Longrightarrow> inv_records st' = inv_records (snd rs) \<and> mt_stages tele = vs_stages st'"
  by (cases "(co, ids, ch, rs)" rule: after_synthesis.cases)
     (auto simp: Let_def finalize_telemetry_def provider_failed_outcome_def deadline_outcome_def cancelled_outcome_def)

lemma review_stage_records:
  "review_stage co host backends inputs findings l st = Inr (ch, st') \<Longrightarrow> inv_records st' = inv_records st"
  by (auto simp: review_stage_def Let_def run_stage_records dest!: after_reviewer_records split: if_splits)

lemma causal_phase_records:
  "causal_phase co host backends inputs findings review l ids st = Inr (causal, st') \<Longrightarrow> inv_records st' = inv_records st"
  by (auto simp: causal_phase_def choose_topology_def causal_stage_def Let_def run_stage_records
      dest!: after_causal_records split: if_splits option.splits sum.splits)

lemma synthesis_phase_records:
  "synthesis_phase co host backends inputs findings ch l ids causal st = (MmCompleted env content review tele, st')
     \<Longrightarrow> inv_records st' = inv_records st \<and> mt_stages tele = vs_stages st'"
  by (auto simp: synthesis_phase_def Let_def run_stage_records dest!: after_synthesis_records split: if_splits option.splits)

end
