(* ===== verification/Review_Properties.thy ===== *)
theory Review_Properties
  imports Review_Demo Review_Trace
begin

text \<open>
  What a completed run of the reviewed pipeline rests on: inversion of the stages, the roles of the final
  ledger, and from them where an established root cause comes from and that the reported mode is the one that
  was executed.
\<close>

section \<open>What a stage returns was validated\<close>

lemma drive_loop_valid:
  assumes "drive_loop host plan s u n w = (CrOk v u', n', w')"
  shows "\<exists>content. st_validate s content = Some v"
  using assms
proof (induction host plan s u n w rule: drive_loop.induct)
  case (1 host plan s u n w)
  note unfold = drive_loop.simps [of host plan s u n w]
  show ?case
  proof (cases "drive_step host plan s u n w")
    case (Inl x)
    then have "drive_step host plan s u n w = Inl (CrOk v u', n', w')" using "1.prems" by (simp add: unfold)
    then show ?thesis
      by (auto simp: drive_step_def Let_def split: if_splits prod.splits sum.splits option.splits TurnAwaitError.splits)
  next
    case (Inr x)
    obtain u1 n1 w1 where x: "x = (u1, n1, w1)" by (metis prod_cases3)
    from "1.IH" [OF Inr x [symmetric] refl] "1.prems" Inr x show ?thesis by (simp add: unfold)
  qed
qed

lemma run_stage_valid:
  assumes "run_stage host inputs backend build validate rounds remaining st = (CrOk v u, st')"
  shows "\<exists>content. validate content = Some v"
  using assms by (auto simp: run_stage_def drive_stage_def dest!: drive_loop_valid split: prod.splits)

section \<open>Investigators\<close>

text \<open>An accepted finding: validated for its own candidate's ledger, with at least one claim.\<close>

definition found :: "review_codecs \<Rightarrow> ReviewPipelineInputs \<Rightarrow> BroadLogTriageCandidate \<Rightarrow> CandidateFindingV1 \<Rightarrow> bool" where
  "found co inputs c f \<longleftrightarrow> fi_claims f \<noteq> []
     \<and> (\<exists>l raw f0. candidate_ledger (co_digest co) c (rp_binding inputs) = Some l
         \<and> validate_candidate_finding (co_finding co) raw l (bc_group_id c)
             (role_binding Investigator (investigator_profile (rp_role_ids inputs)) (investigator_model (rp_role_ids inputs)) 0) = Inr f0
         \<and> fi_candidate_id f = fi_candidate_id f0 \<and> fi_claims f = fi_claims f0)"

lemma investigate_candidate_found:
  assumes "investigate_candidate co host backends inputs c st = (InvAccepted f, st')"
  shows "found co inputs c f"
proof -
  obtain l where l: "candidate_ledger (co_digest co) c (rp_binding inputs) = Some l"
    using assms by (auto simp: investigate_candidate_def split: option.splits)
  with assms obtain r st1 where r: "run_stage host inputs (bk_investigator backends)
      (\<lambda>n. investigator_messages (co_nonce co n) (rp_user_text inputs) c l)
      (accept_finding co (rp_role_ids inputs) l (bc_group_id c))
      (stage_budget (rp_budget inputs) (vs_used_rounds st) 1)
      (remaining_turn_chars (max_context_chars_total (rp_budget inputs)) (vs_used_chars st))
      (emit_event Investigator True None (Some (bc_group_id c)) ''investigating candidate'' (st\<lparr>vs_builds := Suc (vs_builds st)\<rparr>)) = (r, st1)"
    and after: "after_investigator (rp_role_ids inputs) (bc_group_id c) (r, st1) = (InvAccepted f, st')"
    by (auto simp: investigate_candidate_def Let_def split: if_splits)
       (metis surj_pair)
  from after obtain v u where v: "r = CrOk v u" "fi_claims v \<noteq> []"
    "f = v\<lparr>fi_role_binding := (fi_role_binding v)\<lparr>rb_semantic_attempts := us_corrections u\<rparr>\<rparr>"
    by (cases r) (auto simp: Let_def provider_failed_outcome_def deadline_outcome_def cancelled_outcome_def split: if_splits)
  from run_stage_valid [OF r [unfolded v(1)]] obtain raw where "accept_finding co (rp_role_ids inputs) l (bc_group_id c) raw = Some v" ..
  then have "validate_candidate_finding (co_finding co) raw l (bc_group_id c)
      (role_binding Investigator (investigator_profile (rp_role_ids inputs)) (investigator_model (rp_role_ids inputs)) 0) = Inr v"
    by (auto simp: accept_finding_def split: sum.splits)
  with l v show ?thesis unfolding found_def by auto
qed

lemma investigate_found:
  assumes "investigate co host backends inputs cs findings accepted st = Inr (findings', accepted', st')"
    and "list_all2 (found co inputs) accepted findings"
  shows "list_all2 (found co inputs) accepted' findings'" and "set accepted' \<subseteq> set accepted \<union> set cs"
proof -
  have "list_all2 (found co inputs) accepted' findings' \<and> set accepted' \<subseteq> set accepted \<union> set cs"
    using assms
  proof (induction cs arbitrary: findings accepted st)
    case Nil
    then show ?case by simp
  next
    case (Cons c cs)
    obtain x st1 where x: "investigate_candidate co host backends inputs c st = (x, st1)" by (metis surj_pair)
    show ?case
    proof (cases x)
      case (InvAccepted f)
      then have "list_all2 (found co inputs) (accepted @ [c]) (findings @ [f])"
        using Cons.prems(2) investigate_candidate_found [of co host backends inputs c st f st1] x
        by (auto intro: list_all2_appendI)
      from Cons.IH [OF _ this, of st1] Cons.prems(1) x InvAccepted show ?thesis by auto
    next
      case InvContinue
      from Cons.IH [OF _ Cons.prems(2), of st1] Cons.prems(1) x InvContinue show ?thesis by auto
    qed (use Cons.prems x in auto)
  qed
  then show "list_all2 (found co inputs) accepted' findings'" "set accepted' \<subseteq> set accepted \<union> set cs" by auto
qed

section \<open>Review, causal synthesis and answer\<close>

definition reviewed :: "review_codecs \<Rightarrow> ReviewPipelineInputs \<Rightarrow> HostEvidenceLedger \<Rightarrow> CandidateFindingV1 list \<Rightarrow> ReviewReportV1 \<Rightarrow> bool" where
  "reviewed co inputs l findings r \<longleftrightarrow>
     (\<exists>raw r0. validate_review_report (co_review co) raw l (known_claims findings)
         (role_binding Reviewer (reviewer_profile (rp_role_ids inputs)) (reviewer_model (rp_role_ids inputs)) 0) = Inr r0
       \<and> rv_gaps r = rv_gaps r0 \<and> rv_contradictions r = rv_contradictions r0)"

lemma review_stage_choice:
  assumes "review_stage co host backends inputs findings l st = Inr (ch, st')"
  shows "(ch_executed ch = RanReview \<and> ch_degradation ch = None \<and> (\<exists>r. ch_review ch = Some r \<and> reviewed co inputs l findings r))
    \<or> (\<exists>reason. ch = degraded reason)"
proof -
  obtain rounds remaining st1 r st2 where r: "run_stage host inputs (bk_reviewer backends)
      (\<lambda>n. reviewer_messages (co_print co) (co_nonce co n) (rp_user_text inputs) findings l)
      (accept_review co (rp_role_ids inputs) l (known_claims findings)) rounds remaining st1 = (r, st2)"
    and "ch = degraded BudgetRoundsInsufficient \<or> after_reviewer (rp_role_ids inputs) (r, st2) = Inr (ch, st')"
    using assms by (auto simp: review_stage_def Let_def split: if_splits) (metis surj_pair)+
  moreover have ?thesis if a: "after_reviewer (rp_role_ids inputs) (r, st2) = Inr (ch, st')"
  proof (cases r)
    case (CrOk v u)
    from run_stage_valid [OF r [unfolded CrOk]] obtain raw where "accept_review co (rp_role_ids inputs) l (known_claims findings) raw = Some v" ..
    then have "reviewed co inputs l findings (v\<lparr>rv_role_binding := (rv_role_binding v)\<lparr>rb_semantic_attempts := us_corrections u\<rparr>\<rparr>)"
      by (auto simp: accept_review_def reviewed_def split: sum.splits)
    then show ?thesis using a CrOk by (auto simp: Let_def)
  qed (use a in \<open>auto simp: degrade_review_def\<close>)
  ultimately show ?thesis by blast
qed

lemma causal_phase_choice:
  assumes "causal_phase co host backends inputs findings review l candidate_ids st = Inr (Some c, st')"
  shows "\<exists>packet t raw. rp_causal_packet inputs = Some packet \<and> causal_topology packet l findings review = Inr t
    \<and> validate_causal_synthesis (co_causal co) raw t = Inr c"
proof -
  obtain packet t where t: "rp_causal_packet inputs = Some packet" "causal_topology packet l findings review = Inr t"
    and "causal_stage co host backends inputs findings review l candidate_ids t st = Inr (Some c, st')"
    using assms by (auto simp: causal_phase_def choose_topology_def split: option.splits sum.splits)
  then obtain build rounds remaining st1 r st2 where
    r: "run_stage host inputs (bk_synthesizer backends) build (accept_causal co t) rounds remaining st1 = (r, st2)"
    and a: "after_causal (rp_role_ids inputs) (r, st2) = Inr (Some c, st')"
    by (auto simp: causal_stage_def Let_def split: if_splits) (metis surj_pair)+
  from a obtain u where "r = CrOk c u" by (cases r) auto
  from run_stage_valid [OF r [unfolded this]] obtain raw where "accept_causal co t raw = Some c" ..
  then have "validate_causal_synthesis (co_causal co) raw t = Inr c" by (auto simp: accept_causal_def split: sum.splits)
  with t show ?thesis by blast
qed

lemma synthesis_phase_completed:
  assumes "synthesis_phase co host backends inputs findings ch l candidate_ids causal st = (MmCompleted env content review tele, st')"
  shows "\<exists>lf raw env0 k. final_causal_ledger (co_digest co) l causal = Some lf \<and> accept_answer co lf causal raw = Some env0
      \<and> env = env0\<lparr>env_semantic_attempts := k\<rparr> \<and> content = render_answer_markdown (co_alphanumeric co) env
      \<and> review = (if ch_executed ch = RanReview then ch_review ch else None)
      \<and> mt_executed_mode tele = ch_executed ch \<and> mt_degradation tele = ch_degradation ch"
proof -
  obtain lf build rounds remaining st1 r st2 where lf: "final_causal_ledger (co_digest co) l causal = Some lf"
    and r: "run_stage host inputs (bk_synthesizer backends) build (accept_answer co lf causal) rounds remaining st1 = (r, st2)"
    and a: "after_synthesis co (rp_role_ids inputs) ch (r, st2) = (MmCompleted env content review tele, st')"
    using assms by (auto simp: synthesis_phase_def Let_def split: option.splits if_splits) (metis surj_pair)+
  from a obtain v u where v: "r = CrOk v u" by (cases r) (auto simp: Let_def deadline_outcome_def cancelled_outcome_def provider_failed_outcome_def)
  from run_stage_valid [OF r [unfolded v]] obtain raw where "accept_answer co lf causal raw = Some v" ..
  with lf a v show ?thesis
    by (intro exI [of _ lf] exI [of _ raw] exI [of _ v] exI [of _ "us_corrections u"])
       (auto simp: Let_def finalize_telemetry_def)
qed

text \<open>Only the last stage completes a run.\<close>

definition unfinished :: "'e MultiModelOutcome \<times> 'w review_state \<Rightarrow> bool" where
  "unfinished res \<longleftrightarrow> (\<forall>env content review tele. fst res \<noteq> MmCompleted env content review tele)"

lemma unfinished_terminal [simp]:
  "unfinished (deadline_outcome role cand u st)" "unfinished (cancelled_outcome role cand u st)"
  "unfinished (provider_failed_outcome role cand e u st)"
  by (simp_all add: unfinished_def deadline_outcome_def cancelled_outcome_def provider_failed_outcome_def)

lemma after_reviewer_unfinished: "after_reviewer ids rs = Inl res \<Longrightarrow> unfinished res"
  by (cases "(ids, rs)" rule: after_reviewer.cases) (auto simp: Let_def)

lemma after_causal_unfinished: "after_causal ids rs = Inl res \<Longrightarrow> unfinished res"
  by (cases "(ids, rs)" rule: after_causal.cases) (auto simp: Let_def)

lemma after_investigator_unfinished: "after_investigator ids gid rs = (InvReturn out, st) \<Longrightarrow> unfinished (out, st)"
  by (cases "(ids, gid, rs)" rule: after_investigator.cases)
     (auto simp: Let_def unfinished_def deadline_outcome_def cancelled_outcome_def provider_failed_outcome_def split: if_splits)

lemma investigate_never_completes: "investigate co host backends inputs cs findings accepted st = Inl res \<Longrightarrow> unfinished res"
proof (induction cs arbitrary: findings accepted st)
  case Nil
  then show ?case by simp
next
  case (Cons c cs)
  then show ?case
    by (auto split: prod.splits investigator_step.splits)
       (auto simp: investigate_candidate_def Let_def after_investigator_unfinished split: option.splits if_splits)
qed

lemma review_stage_never_completes: "review_stage co host backends inputs findings l st = Inl res \<Longrightarrow> unfinished res"
  by (auto simp: review_stage_def Let_def after_reviewer_unfinished split: if_splits)

lemma causal_phase_never_completes:
  "causal_phase co host backends inputs findings review l ids st = Inl res \<Longrightarrow> unfinished res"
  by (auto simp: causal_phase_def choose_topology_def causal_stage_def Let_def after_causal_unfinished
      split: option.splits sum.splits if_splits)

text \<open>What a completed run went through.\<close>

definition completed_by ::
  "review_codecs \<Rightarrow> ReviewPipelineInputs \<Rightarrow> CandidateFindingV1 list \<Rightarrow> BroadLogTriageCandidate list \<Rightarrow> HostEvidenceLedger
     \<Rightarrow> review_choice \<Rightarrow> CausalSynthesisV1 option \<Rightarrow> HostEvidenceLedger \<Rightarrow> string \<Rightarrow> AnswerEnvelopeV1 \<Rightarrow> bool" where
  "completed_by co inputs findings accepted l ch causal lf raw env \<longleftrightarrow>
     list_all2 (found co inputs) accepted findings \<and> set accepted \<subseteq> set (eligible_candidates inputs)
     \<and> 2 \<le> length findings
     \<and> union_ledger (co_digest co) accepted (rp_comparison_context inputs) (rp_binding inputs) = Some l
     \<and> ((ch_executed ch = RanReview \<and> ch_degradation ch = None \<and> (\<exists>r. ch_review ch = Some r \<and> reviewed co inputs l findings r))
        \<or> (\<exists>reason. ch = degraded reason))
     \<and> (\<forall>c. causal = Some c \<longrightarrow> (\<exists>packet t raw. rp_causal_packet inputs = Some packet
          \<and> causal_topology packet l findings (ch_review ch) = Inr t \<and> validate_causal_synthesis (co_causal co) raw t = Inr c))
     \<and> final_causal_ledger (co_digest co) l causal = Some lf \<and> accept_answer co lf causal raw = Some env"

text \<open>What the events and the telemetry record of the investigators.\<close>

definition recorded_by ::
  "review_codecs \<Rightarrow> ReviewPipelineInputs \<Rightarrow> BroadLogTriageCandidate list \<Rightarrow> StageProgressEvent list \<Rightarrow> StageTelemetry list \<Rightarrow> bool" where
  "recorded_by co inputs accepted evs rows \<longleftrightarrow> completed_ids evs = map bc_group_id accepted
     \<and> (\<forall>k \<in> set (eligible_candidates inputs). investigable co inputs k \<longrightarrow>
          bc_group_id k \<in> fst ` set (closings evs)
          \<or> unat (max_total_provider_rounds (rp_budget inputs)) \<le> investigator_rounds rows + 1)"

lemma completed_run:
  assumes "run_review_pipeline co host backends inputs w = (MmCompleted env content review tele, st)"
  shows "\<exists>findings accepted l ch causal lf raw env0 k. completed_by co inputs findings accepted l ch causal lf raw env0
      \<and> env = env0\<lparr>env_semantic_attempts := k\<rparr> \<and> content = render_answer_markdown (co_alphanumeric co) env
      \<and> review = (if ch_executed ch = RanReview then ch_review ch else None)
      \<and> mt_executed_mode tele = ch_executed ch \<and> mt_degradation tele = ch_degradation ch
      \<and> recorded_by co inputs accepted (vs_events st) (mt_stages tele)"
proof -
  obtain findings accepted st1 where inv: "investigate co host backends inputs (eligible_candidates inputs) [] [] (fresh_state w)
      = Inr (findings, accepted, st1)"
    and cmp: "compare_findings co host backends inputs findings accepted st1 = (MmCompleted env content review tele, st)"
    using assms
    by (cases "investigate co host backends inputs (eligible_candidates inputs) [] [] (fresh_state w)")
       (auto simp: run_review_pipeline_def Let_def unfinished_def dest: investigate_never_completes split: if_splits)
  obtain l where l: "union_ledger (co_digest co) accepted (rp_comparison_context inputs) (rp_binding inputs) = Some l"
    and two: "2 \<le> length findings"
    using cmp by (auto simp: compare_findings_def split: if_splits option.splits)
  let ?ids = "sorted_list_of_set (ledger_candidate_ids l)"
  obtain ch st2 where ch: "review_stage co host backends inputs findings l st1 = Inr (ch, st2)"
    using cmp l two
    by (cases "review_stage co host backends inputs findings l st1")
       (auto simp: compare_findings_def Let_def unfinished_def dest: review_stage_never_completes split: if_splits)
  obtain causal st3 where causal: "causal_phase co host backends inputs findings (ch_review ch) l ?ids st2 = Inr (causal, st3)"
    and syn: "synthesis_phase co host backends inputs findings ch l ?ids causal st3 = (MmCompleted env content review tele, st)"
    using cmp l two ch
    by (cases "causal_phase co host backends inputs findings (ch_review ch) l ?ids st2")
       (auto simp: compare_findings_def Let_def unfinished_def dest: causal_phase_never_completes split: if_splits)
  from synthesis_phase_completed [OF syn] obtain lf raw env0 k
    where fin: "final_causal_ledger (co_digest co) l causal = Some lf" "accept_answer co lf causal raw = Some env0"
      and rest: "env = env0\<lparr>env_semantic_attempts := k\<rparr>" "content = render_answer_markdown (co_alphanumeric co) env"
        "review = (if ch_executed ch = RanReview then ch_review ch else None)"
        "mt_executed_mode tele = ch_executed ch" "mt_degradation tele = ch_degradation ch" by blast
  have "completed_by co inputs findings accepted l ch causal lf raw env0"
    unfolding completed_by_def
    using investigate_found [OF inv] two l review_stage_choice [OF ch] fin causal_phase_choice causal by auto
  moreover have "inv_records st = inv_records st1" "mt_stages tele = vs_stages st"
    using synthesis_phase_records [OF syn] causal_phase_records [OF causal] review_stage_records [OF ch] by simp_all
  then have "recorded_by co inputs accepted (vs_events st) (mt_stages tele)"
    using investigate_records [OF inv]
    by (simp add: recorded_by_def inv_records_def rounds_recorded_def fresh_state_def completed_ids_def investigator_rounds_def)
  ultimately show ?thesis using rest by blast
qed

section \<open>Roles of the final ledger\<close>

lemma grant_role_granted:
  "grant_role cand role es i = Inr es' \<Longrightarrow> e' \<in> set es' \<Longrightarrow>
     e' \<in> set es \<or> (he_evidence_id e' = i \<and> he_candidate_id e' = cand \<and> he_role e' = role)"
  by (induction es arbitrary: es') (auto split: if_splits)

text \<open>Every cause in the final ledger was granted by an accepted trigger of its own candidate.\<close>

lemma cause_was_granted:
  assumes "final_causal_ledger H l (Some c) = Some lf" and "ledger_get lf i = Some e" and "he_role e = RoleCause"
  shows "\<exists>rel \<in> set (cs_relations c). rel_kind rel = InitiatingTrigger \<and> i \<in> set (rel_evidence_ids rel)
    \<and> rel_candidate_id rel = he_candidate_id e"
proof -
  define granted where "granted = (\<lambda>e :: HostEvidenceEntry. he_role e = RoleCause \<longrightarrow> (\<exists>rel \<in> set (cs_relations c). rel_kind rel = InitiatingTrigger
    \<and> he_evidence_id e \<in> set (rel_evidence_ids rel) \<and> rel_candidate_id rel = he_candidate_id e))"
  from assms(1) obtain entries where fold: "try_fold grant_relation (map neutral_entry (ledger_entries l)) (cs_relations c) = Inr entries"
    and lf: "bound_ledger H (led_binding l) entries = Some lf"
    by (auto simp: final_causal_ledger_def split: sum.splits)
  have "\<forall>e \<in> set entries. granted e"
  proof (rule try_fold_invariant [where I = "\<lambda>es. \<forall>e \<in> set es. granted e", OF fold])
    show "\<forall>e \<in> set (map neutral_entry (ledger_entries l)). granted e" by (auto simp: granted_def neutral_entry_def)
  next
    fix es rel es'
    assume es: "\<forall>e \<in> set es. granted e" and rel: "rel \<in> set (cs_relations c)" and step: "grant_relation es rel = Inr es'"
    show "\<forall>e \<in> set es'. granted e"
    proof (cases "relation_role (rel_kind rel)")
      case None
      then show ?thesis using es step by (simp add: grant_relation_def)
    next
      case (Some role)
      then have "try_fold (grant_role (rel_candidate_id rel) role) es (rel_evidence_ids rel) = Inr es'"
        using step by (simp add: grant_relation_def)
      then show ?thesis
      proof (rule try_fold_invariant [where I = "\<lambda>es. \<forall>e \<in> set es. granted e"])
        show "\<forall>e \<in> set es. granted e" by (rule es)
      next
        fix es1 i es2
        assume g: "\<forall>e \<in> set es1. granted e" "i \<in> set (rel_evidence_ids rel)" "grant_role (rel_candidate_id rel) role es1 i = Inr es2"
        have cause: "rel_kind rel = InitiatingTrigger" if "role = RoleCause" using Some that by (cases "rel_kind rel") auto
        show "\<forall>e \<in> set es2. granted e"
        proof
          fix e assume "e \<in> set es2"
          from grant_role_granted [OF g(3) this] g(1,2) cause rel show "granted e" by (auto simp: granted_def)
        qed
      qed
    qed
  qed
  moreover have "e \<in> set entries" "he_evidence_id e = i"
    using lf assms(2) by (auto simp: bound_ledger_def ledger_get_def ledger_new_get(1) split: sum.splits)
  ultimately show ?thesis using assms(3) unfolding granted_def by blast
qed

section \<open>Where an established root cause comes from\<close>

lemma bound_ledgerD:
  "bound_ledger H binding entries = Some l \<Longrightarrow>
     ledger_new H (binding\<lparr>bind_ledger_digest := ledger_digest H entries\<rparr>) entries = Inr l"
  by (auto simp: bound_ledger_def split: sum.splits)

lemma union_ledger_neutral:
  assumes "union_ledger H accepted context binding = Some l" and "ledger_get l i = Some e"
  shows "he_role e = RoleNeutral"
proof -
  let ?es = "concat (map (\<lambda>c. candidate_entries c binding) accepted)
    @ (case context of None \<Rightarrow> [] | Some cx \<Rightarrow> comparison_context_entries cx binding)"
  have "bound_ledger H binding ?es = Some l" using assms(1) by (simp add: union_ledger_def Let_def split: if_splits)
  from ledger_new_get(1) [OF bound_ledgerD [OF this]] assms(2) have "e \<in> set ?es" by (simp add: ledger_get_def)
  then show ?thesis
    by (auto simp: candidate_entries_def comparison_context_entries_def scope_entry_def split: option.splits)
qed

lemma found_claim:
  assumes "found co inputs k f" and "cl \<in> set (fi_claims f)"
  shows "claim_candidate_id cl = bc_group_id k"
    and "i \<in> set (claim_evidence_ids cl) \<Longrightarrow>
      \<exists>identity \<in> set (bc_evidence k). i = ''e:'' @ bc_group_id k @ '':'' @ show_nat (unat (si_seq identity))"
proof -
  obtain l raw f0 where l: "candidate_ledger (co_digest co) k (rp_binding inputs) = Some l"
    and v: "validate_candidate_finding (co_finding co) raw l (bc_group_id k)
      (role_binding Investigator (investigator_profile (rp_role_ids inputs)) (investigator_model (rp_role_ids inputs)) 0) = Inr f0"
    and f: "fi_claims f = fi_claims f0" using assms(1) by (auto simp: found_def)
  have new: "ledger_new (co_digest co) ((rp_binding inputs)\<lparr>bind_ledger_digest :=
      ledger_digest (co_digest co) (candidate_entries k (rp_binding inputs))\<rparr>) (candidate_entries k (rp_binding inputs)) = Inr l"
    using l by (intro bound_ledgerD) (simp add: candidate_ledger_def Let_def split: if_splits)
  obtain p where p: "finding_ok l (bc_group_id k) p" "fi_claims f0 = map (\<lambda>(kind, c). supported_claim (bc_group_id k) kind c) (finding_claims p)"
    using v candidate_finding_iff [OF ledger_new_wf(1) [OF new]] by (auto simp: reference_finding_def)
  with assms(2) f obtain kind mc where mc: "(kind, mc) \<in> set (finding_claims p)" "cl = supported_claim (bc_group_id k) kind mc" by auto
  then show "claim_candidate_id cl = bc_group_id k" by (simp add: supported_claim_def)
  show "\<exists>identity \<in> set (bc_evidence k). i = ''e:'' @ bc_group_id k @ '':'' @ show_nat (unat (si_seq identity))"
    if "i \<in> set (claim_evidence_ids cl)"
  proof -
    have "citable l (\<lambda>c. c = bc_group_id k) i"
      using p(1) mc that by (auto simp: finding_ok_def finding_claim_ok_def list_all_iff supported_claim_def)
    then obtain e where "e \<in> set (candidate_entries k (rp_binding inputs))" "he_evidence_id e = i"
      using ledger_new_get(1) [OF new] by (auto simp: citable_def ledger_get_def split: option.splits)
    then show ?thesis by (auto simp: candidate_entries_def scope_entry_def)
  qed
qed

text \<open>A validated answer that establishes a root cause cites a row the ledger calls a cause.\<close>

lemma root_claim:
  assumes "ledger_new H b es = Inr l" "validate_model_answer F raw l = Inr env" "ans_root_cause_established (env_answer env)"
  shows "\<exists>a \<in> set (ans_candidates (env_answer env)). \<exists>cl \<in> set (cand_claims a). \<exists>i \<in> set (claim_evidence_ids cl). \<exists>e.
    claim_kind cl = InitiatingCause \<and> claim_status cl = Supported \<and> ledger_get l i = Some e \<and> he_role e = RoleCause
    \<and> he_candidate_id e = cand_candidate_id a"
proof -
  obtain p where p: "proposal_ok l p" "env = reference_envelope l p"
    using assms(2) validate_model_answer_iff [OF ledger_new_wf(1,2) [OF assms(1)]] by blast
  with assms(3) obtain d kind mc where d: "d \<in> set (mia_candidates p)" "(kind, mc) \<in> set (claims_of d)" "cause_root l kind mc"
    by (auto simp: reference_envelope_def reference_root_def)
  then obtain i e where i: "kind = InitiatingCause" "i \<in> set (mc_evidence_ids mc)" "bt_get (led_entries l) i = Some e" "he_role e = RoleCause"
    by (auto simp: cause_root_def list_ex_iff split: option.splits)
  have "he_candidate_id e = md_candidate_id d"
    using p(1) d(1,2) i by (auto simp: proposal_ok_def candidates_ok_def claim_ok_def evidence_ok_def list_all_iff split: option.splits)
  moreover have "reference_candidate l d \<in> set (ans_candidates (env_answer env))" using p(2) d(1) by (simp add: reference_envelope_def)
  moreover have "host_claim l (md_candidate_id d) kind mc \<in> set (cand_claims (reference_candidate l d))"
    using d(2) by (force simp: reference_candidate_def)
  ultimately show ?thesis
    using d(3) i by (intro bexI [of _ "reference_candidate l d"] bexI [of _ "host_claim l (md_candidate_id d) kind mc"] bexI [of _ i] exI [of _ e])
      (simp_all add: host_claim_def reference_candidate_def ledger_get_def)
qed

text \<open>C5: A reviewed run establishes a root cause only on the host's own evidence. The initiating-cause claim of the answer
  cites a row of the host's packet that is in candidate scope and was selected, clock-comparable or trace-linked;
  the row is one of the imported events of an eligible candidate, an investigator's validated finding for that very
  candidate calls it a causal candidate, and the validated review, if there is one, reports no contradiction.
  Without a packet, or whatever the models write, no root cause is established otherwise.\<close>

theorem reviewed_root_cause_backed:
  assumes "run_review_pipeline co host backends inputs w = (MmCompleted env content review tele, st)"
    and "ans_root_cause_established (env_answer env)"
  shows "\<exists>packet row a cl k f c identity. rp_causal_packet inputs = Some packet \<and> row \<in> set (pk_rows packet)
    \<and> pr_scope row = ScopeCandidate \<and> pr_category row \<in> {Focus, CrossSourceTemporal, TraceLinked}
    \<and> a \<in> set (ans_candidates (env_answer env)) \<and> cl \<in> set (cand_claims a) \<and> claim_kind cl = InitiatingCause
    \<and> claim_status cl = Supported \<and> pr_evidence_id row \<in> set (claim_evidence_ids cl)
    \<and> k \<in> set (eligible_candidates inputs) \<and> cand_candidate_id a = bc_group_id k
    \<and> identity \<in> set (bc_evidence k) \<and> pr_evidence_id row = ''e:'' @ bc_group_id k @ '':'' @ show_nat (unat (si_seq identity))
    \<and> found co inputs k f \<and> c \<in> set (fi_claims f) \<and> claim_kind c = CausalCandidate \<and> pr_evidence_id row \<in> set (claim_evidence_ids c)
    \<and> (\<forall>r. review = Some r \<longrightarrow> rv_contradictions r = [])"
proof -
  obtain findings accepted l ch causal lf raw env0 n where went: "completed_by co inputs findings accepted l ch causal lf raw env0"
    and env: "env_answer env = env_answer env0" and rev: "review = (if ch_executed ch = RanReview then ch_review ch else None)"
    using completed_run [OF assms(1)] by auto
  have union: "union_ledger (co_digest co) accepted (rp_comparison_context inputs) (rp_binding inputs) = Some l"
    and found: "list_all2 (found co inputs) accepted findings" "set accepted \<subseteq> set (eligible_candidates inputs)"
    and fin: "final_causal_ledger (co_digest co) l causal = Some lf" and acc: "accept_answer co lf causal raw = Some env0"
    using went by (auto simp: completed_by_def)
  obtain s where s: "causal = Some s" and val: "validate_model_answer (co_answer co) raw lf = Inr env0"
    using acc assms(2) env by (auto simp: accept_answer_def split: sum.splits if_splits)
  from went s obtain packet t raw2 where packet: "rp_causal_packet inputs = Some packet"
    and t: "causal_topology packet l findings (ch_review ch) = Inr t" and syn: "validate_causal_synthesis (co_causal co) raw2 t = Inr s"
    unfolding completed_by_def by blast
  obtain entries where "bound_ledger (co_digest co) (led_binding l) entries = Some lf"
    using fin by (auto simp: final_causal_ledger_def split: sum.splits)
  from root_claim [OF bound_ledgerD [OF this] val] assms(2) env obtain a cl i e
    where a: "a \<in> set (ans_candidates (env_answer env))" "cl \<in> set (cand_claims a)" "i \<in> set (claim_evidence_ids cl)"
      "claim_kind cl = InitiatingCause" "claim_status cl = Supported" "ledger_get lf i = Some e" "he_role e = RoleCause"
      "he_candidate_id e = cand_candidate_id a" by auto
  from cause_was_granted [OF fin [unfolded s] a(6,7)] obtain rel where rel: "rel \<in> set (cs_relations s)"
    "rel_kind rel = InitiatingTrigger" "i \<in> set (rel_evidence_ids rel)" "rel_candidate_id rel = cand_candidate_id a"
    using a(8) by auto
  define input where "input = \<lparr>ti_binding = led_binding l, ti_ledger = l, ti_findings = findings, ti_known_claims = known_claims findings,
    ti_contradictions = [], ti_recovery_evidence_ids = {}, ti_classifications = packet_classes packet l\<rparr>"
  have derived: "derive_host_causal_topology input = Inr t" and calm: "\<forall>r. ch_review ch = Some r \<longrightarrow> rv_contradictions r = []"
    using t by (auto simp: causal_topology_def Let_def input_def split: if_splits option.splits)
  have new: "\<exists>b es. ledger_new (co_digest co) b es = Inr (ti_ledger input)"
    using union bound_ledgerD by (force simp: input_def union_ledger_def Let_def split: if_splits)
  then obtain b es where "ledger_new (co_digest co) b es = Inr (ti_ledger input)" by blast
  from accepted_trigger [OF this _ derived syn rel(1,2,3)] obtain f c e' cls
    where f: "f \<in> set findings" "c \<in> set (fi_claims f)" "claim_pair c = (rel_candidate_id rel, rel_claim_id rel)"
      "i \<in> set (claim_evidence_ids c)" "ledger_get l i = Some e'" "claim_kind c = CausalCandidate \<or> he_role e' = RoleCause"
      and cls: "cls \<in> set (packet_classes packet l)" "hc_evidence_id cls = i" "hc_scope cls = ScopeCandidate"
      "hc_category cls \<in> {Focus, CrossSourceTemporal, TraceLinked}"
    by (auto simp: input_def)
  have kind: "claim_kind c = CausalCandidate" using f(6) union_ledger_neutral [OF union f(5)] by auto
  obtain row where row: "row \<in> set (pk_rows packet)" "pr_evidence_id row = i" "pr_scope row = ScopeCandidate"
    "pr_category row \<in> {Focus, CrossSourceTemporal, TraceLinked}"
    using cls by (auto simp: packet_classes_def)
  obtain k where k: "k \<in> set accepted" "found co inputs k f"
    using found(1) f(1) by (metis in_set_conv_nth list_all2_conv_all_nth)
  have "cand_candidate_id a = bc_group_id k"
    using found_claim(1) [OF k(2) f(2)] f(3) rel(4) by simp
  moreover from found_claim(2) [OF k(2) f(2,4)] obtain identity where "identity \<in> set (bc_evidence k)"
    "i = ''e:'' @ bc_group_id k @ '':'' @ show_nat (unat (si_seq identity))" by blast
  moreover have "\<forall>r. review = Some r \<longrightarrow> rv_contradictions r = []" using calm rev by auto
  ultimately show ?thesis
    using packet row a(1-5) k found(2) f(2,4) kind
    by (intro exI [of _ packet] exI [of _ row] exI [of _ a] exI [of _ cl] exI [of _ k] exI [of _ f] exI [of _ c] exI [of _ identity]) auto
qed

theorem reviewed_root_cause_backed_witness:
  "\<exists>k f c. k \<in> set (eligible_candidates run_inputs) \<and> found run_codecs run_inputs k f \<and> c \<in> set (fi_claims f)
     \<and> claim_kind c = CausalCandidate"
proof -
  obtain env content review tele st where
    "run_review_pipeline run_codecs run_host run_backends run_inputs 0 = (MmCompleted env content review tele, st)"
    "ans_root_cause_established (env_answer env)" using run_completes by blast
  from reviewed_root_cause_backed [OF this] show ?thesis by blast
qed

section \<open>What a completed run answers\<close>

lemma grant_role_keeps:
  "grant_role cand role es i = Inr es' \<Longrightarrow> map he_candidate_id es' = map he_candidate_id es"
  by (induction es arbitrary: es') (auto split: if_splits)

lemma grant_relation_keeps:
  assumes "grant_relation es rel = Inr es'"
  shows "map he_candidate_id es' = map he_candidate_id es"
proof (cases "relation_role (rel_kind rel)")
  case None
  then show ?thesis using assms by (simp add: grant_relation_def)
next
  case (Some role)
  then have "try_fold (grant_role (rel_candidate_id rel) role) es (rel_evidence_ids rel) = Inr es'"
    using assms by (simp add: grant_relation_def)
  from try_fold_invariant [where I = "\<lambda>x. map he_candidate_id x = map he_candidate_id es", OF this] show ?thesis
    using grant_role_keeps by metis
qed

lemma bound_ledger_candidates:
  "bound_ledger H binding entries = Some l \<Longrightarrow> ledger_candidate_ids l = he_candidate_id ` set entries"
  using ledger_new_get(2) [OF bound_ledgerD] by (fastforce simp: ledger_candidate_ids_def ledger_entries_def)

lemma neutral_entry_candidate: "he_candidate_id (neutral_entry e) = he_candidate_id e"
  by (simp add: neutral_entry_def)

lemma final_ledger_candidates:
  assumes "final_causal_ledger H l causal = Some lf"
  shows "ledger_candidate_ids lf = ledger_candidate_ids l"
proof -
  let ?es = "map neutral_entry (ledger_entries l)" and ?rels = "case causal of None \<Rightarrow> [] | Some c \<Rightarrow> cs_relations c"
  obtain entries where fold: "try_fold grant_relation ?es ?rels = Inr entries"
    and lf: "bound_ledger H (led_binding l) entries = Some lf"
    using assms by (auto simp: final_causal_ledger_def split: sum.splits)
  have "map he_candidate_id entries = map he_candidate_id ?es"
    by (rule try_fold_invariant [where I = "\<lambda>x. map he_candidate_id x = map he_candidate_id ?es", OF fold])
       (simp_all add: grant_relation_keeps)
  then have "he_candidate_id ` set entries = he_candidate_id ` set (ledger_entries l)"
    by (metis (no_types, lifting) image_set list.map_comp map_eq_conv comp_apply neutral_entry_candidate)
  then show ?thesis using bound_ledger_candidates [OF lf] by (simp add: ledger_candidate_ids_def ledger_entries_def)
qed

definition context_ids :: "ReviewPipelineInputs \<Rightarrow> string set" where
  "context_ids inputs = (case rp_comparison_context inputs of None \<Rightarrow> {}
     | Some cx \<Rightarrow> if cx_evidence cx = [] then {} else {cx_candidate_id cx})"

lemma union_candidates:
  assumes "union_ledger H accepted (rp_comparison_context inputs) binding = Some l" and "\<forall>c \<in> set accepted. bc_evidence c \<noteq> []"
  shows "ledger_candidate_ids l = bc_group_id ` set accepted \<union> context_ids inputs"
proof -
  let ?es = "concat (map (\<lambda>c. candidate_entries c binding) accepted)
    @ (case rp_comparison_context inputs of None \<Rightarrow> [] | Some cx \<Rightarrow> comparison_context_entries cx binding)"
  have "bound_ledger H binding ?es = Some l" using assms(1) by (simp add: union_ledger_def Let_def split: if_splits)
  from bound_ledger_candidates [OF this]
  have ids: "ledger_candidate_ids l = he_candidate_id ` set ?es" .
  have "he_candidate_id ` set (candidate_entries c binding) = {bc_group_id c}" if "c \<in> set accepted" for c
    using assms(2) that by (cases "bc_evidence c") (auto simp: candidate_entries_def scope_entry_def)
  then have "he_candidate_id ` set (concat (map (\<lambda>c. candidate_entries c binding) accepted)) = bc_group_id ` set accepted"
    by (auto simp: image_UN)
  moreover have "he_candidate_id ` set (comparison_context_entries cx binding) = (if cx_evidence cx = [] then {} else {cx_candidate_id cx})" for cx
    by (cases "cx_evidence cx") (auto simp: comparison_context_entries_def scope_entry_def)
  ultimately show ?thesis by (simp add: ids context_ids_def image_Un split: option.splits)
qed

text \<open>C15: A completed run reports what was done. The answer covers exactly the candidates whose investigation was
  closed as completed in the progress events, at least two of them, and the comparison context: no accepted finding is
  dropped and no other candidate gets in. Each of them is an eligible candidate with a validated finding, and every eligible candidate
  whose rows form a ledger and whose prompt fits was investigated, unless the investigators had used all rounds but
  the reserved one. The visible text is the projection of the answer. The review is presented exactly when the executed
  mode says so, and was then validated against the rows and findings of these very candidates; a degraded run names its
  reason and presents no review.\<close>

theorem reviewed_answer_covers_findings:
  assumes "run_review_pipeline co host backends inputs w = (MmCompleted env content review tele, st)"
  shows "\<exists>accepted findings l. map bc_group_id accepted = completed_ids (vs_events st)
    \<and> cand_candidate_id ` set (ans_candidates (env_answer env)) = set (completed_ids (vs_events st)) \<union> context_ids inputs
    \<and> 2 \<le> length accepted \<and> set accepted \<subseteq> set (eligible_candidates inputs)
    \<and> list_all2 (found co inputs) accepted findings
    \<and> (\<forall>k \<in> set (eligible_candidates inputs). investigable co inputs k \<longrightarrow>
         bc_group_id k \<in> fst ` set (closings (vs_events st))
         \<or> unat (max_total_provider_rounds (rp_budget inputs)) \<le> investigator_rounds (mt_stages tele) + 1)
    \<and> content = render_answer_markdown (co_alphanumeric co) env
    \<and> union_ledger (co_digest co) accepted (rp_comparison_context inputs) (rp_binding inputs) = Some l
    \<and> (if mt_executed_mode tele = RanReview then mt_degradation tele = None \<and> (\<exists>r. review = Some r \<and> reviewed co inputs l findings r)
       else mt_executed_mode tele = RanReviewDegraded \<and> mt_degradation tele \<noteq> None \<and> review = None)"
proof -
  obtain findings accepted l ch causal lf raw env0 n where went: "completed_by co inputs findings accepted l ch causal lf raw env0"
    and rest: "env = env0\<lparr>env_semantic_attempts := n\<rparr>" "content = render_answer_markdown (co_alphanumeric co) env"
      "review = (if ch_executed ch = RanReview then ch_review ch else None)"
      "mt_executed_mode tele = ch_executed ch" "mt_degradation tele = ch_degradation ch"
    and rec: "recorded_by co inputs accepted (vs_events st) (mt_stages tele)"
    using completed_run [OF assms] by blast
  have found: "list_all2 (found co inputs) accepted findings" "set accepted \<subseteq> set (eligible_candidates inputs)" "2 \<le> length findings"
    and union: "union_ledger (co_digest co) accepted (rp_comparison_context inputs) (rp_binding inputs) = Some l"
    and fin: "final_causal_ledger (co_digest co) l causal = Some lf" and acc: "accept_answer co lf causal raw = Some env0"
    using went by (auto simp: completed_by_def)
  have val: "validate_model_answer (co_answer co) raw lf = Inr env0"
    using acc by (auto simp: accept_answer_def split: sum.splits if_splits)
  obtain entries where "bound_ledger (co_digest co) (led_binding l) entries = Some lf"
    using fin by (auto simp: final_causal_ledger_def split: sum.splits)
  from val validate_model_answer_iff [OF ledger_new_wf(1,2) [OF bound_ledgerD [OF this]]] obtain p
    where p: "proposal_ok lf p" "env0 = reference_envelope lf p" by blast
  have "cand_candidate_id ` set (ans_candidates (env_answer env)) = ledger_candidate_ids lf"
    using p by (simp add: rest(1) reference_envelope_def reference_candidate_def proposal_ok_def image_image)
  also have "\<dots> = bc_group_id ` set accepted \<union> context_ids inputs"
    using union_candidates [OF union] found(2) by (auto simp: final_ledger_candidates [OF fin] eligible_candidates_def)
  also have "bc_group_id ` set accepted = set (completed_ids (vs_events st))" using rec by (simp add: recorded_by_def)
  finally have ids: "cand_candidate_id ` set (ans_candidates (env_answer env)) = set (completed_ids (vs_events st)) \<union> context_ids inputs" .
  have "if ch_executed ch = RanReview then ch_degradation ch = None \<and> (\<exists>r. ch_review ch = Some r \<and> reviewed co inputs l findings r)
      else ch_executed ch = RanReviewDegraded \<and> ch_degradation ch \<noteq> None"
    using went by (auto simp: completed_by_def degraded_def)
  with found ids rec union rest list_all2_lengthD [OF found(1)] show ?thesis
    by (intro exI [of _ accepted] exI [of _ findings] exI [of _ l]) (simp add: recorded_by_def)
qed

theorem reviewed_answer_covers_findings_witness:
  "\<exists>env content review tele st. run_review_pipeline run_codecs run_host run_backends run_inputs 0 = (MmCompleted env content review tele, st)
     \<and> 2 \<le> length (completed_ids (vs_events st))
     \<and> cand_candidate_id ` set (ans_candidates (env_answer env)) = set (completed_ids (vs_events st))"
proof -
  obtain env content review tele st where run:
    "run_review_pipeline run_codecs run_host run_backends run_inputs 0 = (MmCompleted env content review tele, st)"
    using run_completes by blast
  have "context_ids run_inputs = {}" by (simp add: context_ids_def)
  with reviewed_answer_covers_findings [OF run] have "2 \<le> length (completed_ids (vs_events st))"
    "cand_candidate_id ` set (ans_candidates (env_answer env)) = set (completed_ids (vs_events st))"
    by (metis length_map, auto)
  then show ?thesis using run by blast
qed

section \<open>What a run may spend\<close>

text \<open>C9: Whatever the models answer, whatever fails and however the run ends, the reviewed pipeline stays within
  its budget. It sends at most the configured number of prompts, each within the packing budget of a call, and
  their characters stay within the ceiling of the turn (the largest word is no ceiling, since the counter
  saturates there). Reported rounds are exactly the prompts sent, in total and summed over the stages, and no
  run fails because the round reserved for the final answer was spent.\<close>

theorem review_budget_kept:
  assumes "run_review_pipeline co host (metered_backends b) inputs (w, []) = (out, st)"
    and "snd (vs_world st) = calls"
  shows "length calls \<le> unat (max_total_provider_rounds (rp_budget inputs))
    \<and> (\<forall>m \<in> set calls. unat (message_chars m) \<le> packing inputs)
    \<and> (\<forall>limit. max_context_chars_total (rp_budget inputs) = Some limit \<and> limit \<noteq> - 1 \<longrightarrow> sent_chars calls \<le> unat limit)
    \<and> (\<forall>t. telemetry_of out = Some t \<longrightarrow> unat (mt_total_provider_rounds t) = length calls
         \<and> sum_list (map (\<lambda>row. unat (sg_provider_rounds row)) (mt_stages t)) = length calls)
    \<and> (\<forall>t. out \<noteq> MmFailedClosed ''round budget exhausted before synthesis'' t)"
proof -
  have s: "settled inputs (out, st)" using run_settled [of inputs co host b w] assms(1) by simp
  have "sent_chars calls \<le> unat limit"
    if "max_context_chars_total (rp_budget inputs) = Some limit" "limit \<noteq> - 1" for limit
  proof -
    have "unat limit \<noteq> unat (- 1 :: u64)" using that(2) unfolding word_unat_eq_iff .
    moreover have "unat (- 1 :: u64) = 2 ^ 64 - 1" by (simp add: unat_max_word)
    moreover have "unat limit < 2 ^ LENGTH(64)" by (rule unsigned_less)
    moreover have "min (sent_chars calls) (2 ^ 64 - 1) \<le> unat limit"
      using s that(1) assms(2) by (simp add: settled_def affordable_def)
    ultimately show ?thesis by (auto simp: min_def split: if_splits)
  qed
  with s assms(2) show ?thesis by (auto simp: settled_def affordable_def accounted_def)
qed

theorem review_budget_kept_witness:
  "\<exists>out st. run_review_pipeline run_codecs run_host (metered_backends run_backends) run_inputs (0, []) = (out, st)
     \<and> length (snd (vs_world st)) \<le> 12"
proof -
  obtain out st where run: "run_review_pipeline run_codecs run_host (metered_backends run_backends) run_inputs (0, []) = (out, st)"
    by (metis surj_pair)
  from review_budget_kept [OF run refl] have "length (snd (vs_world st)) \<le> unat (12 :: u32)" by simp
  with run show ?thesis by simp
qed

end
