(* ===== verification/Spec2Isabelle.thy ===== *)
theory Spec2Isabelle
  imports Triage_Properties Answer_Properties Fast_Properties Permission_Properties Audit_Properties Ssrf
    Sse_Decoder Tool_Names Turn_Properties Ingest_Properties Share_Safe Review_Properties
begin

text \<open>
  A verification library of the core of ContextDesk, a desktop assistant that investigates incidents
  with language models. The host program owns the evidence, the budgets and the permissions; model
  output is untrusted and reaches the user only through host validation. The library models the Rust
  code that enforces this and proves what it enforces.

  \<^bold>\<open>The parts of the program and how they interact.\<close>
  A caller builds a triage request (\<open>cd-triage-sdk\<close>) and hands it to the execution facade
  (\<open>cd-triage-runtime\<close>), which fingerprints the request, calls a host engine, forwards its events
  through a request-bound sink and accepts only a replay that satisfies the wire contract and belongs to
  this request. Inside the host, evidence rows are sealed into a ledger with a digest
  (\<open>cd-core/investigation_answer.rs\<close>); a model's proposal is decoded, checked against the ledger and
  turned into an answer envelope that is rendered as Markdown. The fast triage route
  (\<open>cd-core/fast_triage\<close>) wraps one complete evidence packet: it classifies the rows around the focus,
  builds prompts around a nonce-bound untrusted block (\<open>injection.rs\<close>), calls a provider under a
  deadline, splits reasoning from visible text (\<open>linked_triage_contract.rs\<close>), validates, corrects once
  and escalates at most once. Tool calls of a model pass name resolution (\<open>tools.rs\<close>), the permission
  gate (\<open>permissions.rs\<close>, \<open>tool_host.rs\<close>) and are recorded in a hash-chained audit log
  (\<open>audit.rs\<close>). Provider traffic goes through the SSRF policy (\<open>ssrf.rs\<close>) and the bounded stream
  decoder (\<open>sse.rs\<close>). Turn budgets (\<open>router.rs\<close>, \<open>deadline_controls.rs\<close>, \<open>multi_stage_budget.rs\<close>,
  \<open>providers.rs\<close>) bound the time and the rounds.

  A broad question is answered by several models (\<open>cd-core/multi_model\<close>). One investigator per candidate
  reports findings over the ledger of that candidate; a reviewer compares them; the host derives from the
  findings, the review and the fast triage packet which causal relations may be claimed at all
  (\<open>causal_topology.rs\<close>); a causal synthesizer fills those slots (\<open>causal_synthesis.rs\<close>), and its validated
  relations decide which rows of the final ledger have the role of a cause. The final answer goes
  through the answer validator with that ledger. Rounds and characters of the whole run come
  from one budget, with a round reserved for the final answer (\<open>pipeline.rs\<close>).

  The evidence itself comes from log imports (\<open>cd-core/log_analysis\<close>). A source is read in bounded
  chunks, its physical lines are grouped into records by a framing strategy (\<open>frame.rs\<close>) that runs in
  lock step with a buffer of the raw bytes of each record (\<open>ingest.rs\<close>); the raw bytes go into a
  content-addressed source set, the record text into a line parser. Every message of a parsed event is
  scrubbed (\<open>redact_log.rs\<close> over \<open>redact.rs\<close>), mined for its template (\<open>drain.rs\<close>) and pushed to
  the store in batches. What could not be imported is written into a bounded defect ledger from which the
  outcome report is derived (\<open>import_outcome.rs\<close>). Errors that leave the host pass the share-safe
  diagnostics of \<open>turn_trace.rs\<close>.

  \<^bold>\<open>Shared theories.\<close>
  Rust Prelude: \<open>Result\<close> and the question-mark operator, saturating arithmetic on words, loops over a
  list with early exit, and the locale \<open>step_machine\<close> (a step function with an invariant; its
  lemmas lift the invariant to whole runs). Rust Strings: UTF-8 byte strings and the operations of
  \<open>str\<close>. Btree Map: \<open>BTreeMap\<close> as a sorted association list, with the locale \<open>ordered_map\<close>. Byte
  Codes: little-endian encodings and the locale \<open>prefix_code\<close>, which turns unique decodability of a
  field encoding into unique decodability of sequences; it is interpreted for NUL-terminated fields,
  ledger rows, length-prefixed fields and packet rows. Text Lines: line splitting and strict UTF-8.
  Ip Addr: \<open>std::net::IpAddr\<close> with its parser and its classification as CIDR blocks. Rust Text: the
  character-level operations of \<open>str\<close> that several components share (trimming, character indices,
  splitting at white space, ASCII case). Core Error: the error type of \<open>cd-core\<close>.

  \<^bold>\<open>Components.\<close>
    \<^item> Triage Contract, Triage Validate, Triage Replay, Triage Order: \<open>crates/cd-triage-sdk/src\<close>. Every
      wire type with its validator; the replay validator is a fold of \<open>replay_step\<close> over the events
      and is shown to refine the phase automaton \<open>next_phase\<close>.
    \<^item> Triage Runtime: \<open>crates/cd-triage-runtime/src/lib.rs\<close>. Fingerprints over canonical JSON, the
      event sink, dispatch, replay binding, cancellation. The engine is a record of arbitrary
      functions over a host state, so the theorems hold for every engine.
    \<^item> Investigation Ledger, Investigation Answer, Answer Render:
      \<open>crates/cd-core/src/investigation_answer.rs\<close>. The ledger with its digest, the validator (equal to
      the loop-free \<open>reference_envelope\<close>), the literal-text display boundary and the Markdown
      projection.
    \<^item> Linked Terminal, Injection, Fast Neighborhood, Fast Packet, Fast Validate, Fast Prompt, Fast
      Route: \<open>linked_triage_contract.rs\<close>, \<open>injection.rs\<close> and \<open>fast_triage/*.rs\<close>. The route is a
      function from a host (cancel flag and elapsed time), provider backends and a world state to an
      outcome with its telemetry, stage events and the new world.
    \<^item> Permissions, Permission Gate: \<open>permissions.rs\<close> and the gate of \<open>ToolHost::execute\<close> with
      \<open>complete_permission\<close>; a session is the inductive relation \<open>gate_trace\<close>.
    \<^item> Audit Log: \<open>audit.rs\<close>; open, append with its failure points, verify.
    \<^item> Ssrf: \<open>ssrf.rs\<close>; Sse Decoder: \<open>sse.rs\<close>; Tool Names: name resolution of \<open>tools.rs\<close>.
    \<^item> Turn Budget: \<open>router.rs\<close>, \<open>providers.rs\<close>, \<open>deadline_controls.rs\<close>, \<open>multi_stage_budget.rs\<close>.
    \<^item> Log Frame: \<open>log_analysis/frame.rs\<close>; strategies, detection and the framing automaton. Redact, Redact
      Properties: \<open>redact.rs\<close>; every scanner of the secret scrubber. Share Safe: the display boundary
      of \<open>turn_trace.rs\<close>. Drain, Drain Properties: \<open>log_analysis/drain.rs\<close>; the template miner
      with its prefix tree. Log Redact: \<open>log_analysis/redact_log.rs\<close>; annotated scrubbing with
      placeholders.
    \<^item> Import Outcome, Import Properties: \<open>log_analysis/import_outcome.rs\<close>, the counters of
      \<open>ingest.rs\<close> and \<open>process_progress.rs\<close>. Log Ingest, Ingest Properties: the streaming core of
      \<open>log_analysis/ingest.rs\<close>; reading a source, framing, raw records, events, batches and the
      source digest.
    \<^item> Multi Contracts, Causal Synthesis, Causal Topology, Causal Properties: \<open>multi_model/mod.rs\<close>,
      \<open>contracts.rs\<close>, \<open>causal_synthesis.rs\<close> and \<open>causal_topology.rs\<close>. Review Prompt, Review Pipeline: all of
      \<open>multi_model/pipeline.rs\<close>; the ledgers and prompts of the stages, and the run as a function of host,
      backends and world. Review Budget: the account of a run over metered backends; each stage is
      driven through the locale \<open>stage_end\<close>, interpreted for the investigator, the
      reviewer, the causal synthesizer and the synthesizer. Review Trace: what the progress events and the
      stage rows record of the investigators. Review Demo: a concrete run that completes.
      Review Properties: what a completed run rests on.

  \<^bold>\<open>What is shown.\<close>
    \<^item> Triage contract (C1 to C3, C34): the flag loop of the replay validator is the phase automaton;
      a grounded result was validated in its own run; the facade trusts no engine; fingerprints decide
      request identity.
    \<^item> Investigation answers (C4, C20, C21): acceptance and the envelope are characterised exactly; root
      causes need host-classified cause rows; citations are host-owned.
    \<^item> Reviewed pipeline (C5, C9, C15, C19, C29, C31): an established root cause of a reviewed answer
      rests on a selected or linked row of the packet that is an event of an eligible candidate and that a validated
      finding for this candidate calls causal; a run
      stays within its budget however it ends; the answer covers exactly the candidates
      whose investigation the progress events close as completed and those of the context; acceptance of a causal proposal is characterised exactly;
      the derivation of the topology depends neither on prose nor on order, and without contradictions
      every derived topology can be satisfied.
    \<^item> Fast triage (C10, C18, C28, C30, C32, C33): a verified answer was validated against the packet of the
      run; the validator reports exactly the violated rules; at most three provider calls, the fallback
      only when authorized; the neighborhood follows the rules stated on the set of rows; the terminal channels
      are exactly what the text says; an untrusted body cannot forge its terminator.
    \<^item> Permissions and audit (C6, C11, C12, C22, C23): every write that runs was allowed, a one-time grant
      is used at most once, what runs without a prompt is characterised exactly; the last hash commits to the whole log and
      every history of appends verifies.
    \<^item> Log import (C7, C8, C13, C14, C16, C17, C37 to C39): the events of an import are numbered without
      gaps, counted and instances of their templates; no stored message contains a known secret token;
      the raw records decode to the framed records; an import is reported complete exactly when no
      step lost anything; framing conserves lines; the miner is faithful to the messages it saw and
      accepts their repetition, and its early exit picks the best template; the identity written into an error is read back.
    \<^item> Secrets and network (C24 to C27, C40): scrubbing removes the recognised secrets and its loop
      ends; a pinned client reaches permitted addresses only, the bit tests are the block policy, chunk
      boundaries of a stream are invisible. Tool names (C35) and turn budgets (C36): resolution is exact,
      the synthesis reserve survives.
  Further theorems that are not in the list above stand beside them (for example exactness of
  ledger construction, of the manifest, of decision validation and of route selection, totality and
  bounds of deadline plans, bounded records, digests of archive members,
  levels of a source identity, opaque paths in diagnostics, the counterexamples to idempotence of the scrubber, and
  the boundary cases where an import gives something up: a full ledger forgets a fatal defect,
  messages without tokens fill a bucket, contradictions break a topology, two objects side by side are a typed
  terminal).

  \<^bold>\<open>Parameters.\<close>
  Code outside the repository is an argument of the definitions that use it: \<open>serde_json\<close> (printing and
  decoding), SHA-256, the host triage engine, the \<open>url\<close> crate, the DNS resolver and the HTTP client
  builder, fresh UUIDs and nonces, Unicode tables (lower case, alphanumeric), and the chat
  backends, the line parser and the event store of a log import and the JSON well-formedness test the
  framer asks for. The audit log takes the secret scrubber as an argument, because it only needs that it
  is a function; the scrubber itself is the subject of Redact. What a theorem needs of a parameter is a hypothesis of the theorem (a decoder that
  inverts the printer, a hash without collisions on the compared inputs, a nonce of 32 hex digits that
  the body does not contain) and each such theorem is applied to a concrete instance in its witness.

  \<^bold>\<open>Bounds.\<close>
  Integers whose width matters are words (\<open>u8\<close> to \<open>u64\<close>, \<open>usize\<close> as 64 bit); lengths of byte buffers
  are natural numbers because a \<open>Vec\<close> is shorter than \<open>2 ^ 63\<close>. No definition uses fuel: every loop
  is structural or has a termination proof. The bounded loops of the source (four reasoning blocks, two
  primary attempts, one escalation) keep their bounds.

  \<^bold>\<open>Not modelled.\<close>
  The agent turn loop (an async driver over HTTP streams and UI events), the line parsers, the queries,
  the archive walk and the publication protocol of log analysis, retrieval and
  memory stores (database, regex, and floating-point libraries), the contribution pipeline and the triage policy
  of multi-model turns, file formats of configuration and
  sessions, external connectors, the command line, the server, the desktop shell, the workflow host
  behind the facade and the test and benchmark crates. Static prompt and policy texts are modelled only
  where they are hashed or measured (the fast triage contract). Concurrency is modelled where the code
  relies on it: the cancel flag and the clock are read from a world that each provider call may change.

  \<^bold>\<open>Plan.\<close>
  Next come the contribution pipeline of \<open>multi_model\<close>, the gateway cost ledger, the composition of the permission gate with the audit log, the
  context packing of \<open>context_budgeting.rs\<close> and the archive walk of log imports.
\<close>

end
